(* ===== verification/Prelude.thy ===== *)
theory Prelude
  imports Main "HOL-Library.Word" "HOL-Library.Sublist" "HOL-Library.Char_ord"
    "HOL-Library.List_Lexorder"
begin

text \<open>
  Shared vocabulary of the development: machine-integer types, C++ string and container
  primitives (\<open>std::string::find\<close>, \<open>std::getline\<close>, \<open>std::set\<close> with a user comparator,
  little-endian object bytes), the interface every comparator of an ordered container has to
  satisfy, and the lemma collections the component theories share.
\<close>

unbundle bit_operations_syntax

section \<open>Machine types\<close>

type_synonym u8 = "8 word"
type_synonym u16 = "16 word"
type_synonym u32 = "32 word"
type_synonym u64 = "64 word"
type_synonym ptr = u64

abbreviation UINT64_MAX :: u64 where
  "UINT64_MAX \<equiv> 0xFFFFFFFFFFFFFFFF"

abbreviation UINT32_MAX :: u32 where
  "UINT32_MAX \<equiv> 0xFFFFFFFF"

named_theorems op_defs \<open>one-step unfoldings of component operations\<close>
named_theorems inv_rules \<open>operations that keep a component's invariant\<close>

section \<open>Words and addresses\<close>

text \<open>An access \<open>[a, a + n)\<close> that does not run past the end of the address space.\<close>

definition no_wrap :: "u64 \<Rightarrow> u64 \<Rightarrow> bool" where
  "no_wrap a n \<longleftrightarrow> unat a + unat n < 2 ^ 64"

lemma unat_add_no_wrap: "no_wrap a n \<Longrightarrow> unat (a + n) = unat a + unat n"
  unfolding no_wrap_def by (simp add: unat_word_ariths)

lemma unat_sub_le: "b \<le> a \<Longrightarrow> unat (a - b) = unat a - unat (b :: 'a::len word)"
  by (simp add: unat_sub)

section \<open>Outcomes\<close>

text \<open>
  The outcome of a routine that may leave its buffer (undefined behaviour, \<open>Fault\<close>) and whose loop is
  bounded by fuel.
\<close>

datatype 'a outcome = Done 'a | Fault | OutOfFuel

section \<open>Strings\<close>

text \<open>\<open>s.find(p)\<close>: the first position where \<open>p\<close> occurs, \<open>npos\<close> as \<open>None\<close>.\<close>

fun str_find :: "'a list \<Rightarrow> 'a list \<Rightarrow> nat option" where
  "str_find [] p = (if p = [] then Some 0 else None)"
| "str_find (c # cs) p =
     (if take (length p) (c # cs) = p then Some 0 else map_option Suc (str_find cs p))"

text \<open>\<open>s.rfind(p, pos)\<close>: the last match that starts at \<open>pos\<close> or before it.\<close>

definition match_at :: "'a list \<Rightarrow> 'a list \<Rightarrow> nat \<Rightarrow> bool" where
  "match_at s p i \<longleftrightarrow> i + length p \<le> length s \<and> take (length p) (drop i s) = p"

fun str_rfind :: "'a list \<Rightarrow> 'a list \<Rightarrow> nat \<Rightarrow> nat option" where
  "str_rfind s p 0 = (if match_at s p 0 then Some 0 else None)"
| "str_rfind s p (Suc i) = (if match_at s p (Suc i) then Some (Suc i) else str_rfind s p i)"

definition str_contains :: "'a list \<Rightarrow> 'a list \<Rightarrow> bool" where
  "str_contains s p \<longleftrightarrow> str_find s p \<noteq> None"

lemma str_find_Some_match: "str_find s p = Some i \<Longrightarrow> match_at s p i"
proof (induction s p arbitrary: i rule: str_find.induct)
  case (1 p)
  then show ?case by (simp add: match_at_def split: if_splits)
next
  case (2 c cs p)
  show ?case
  proof (cases "take (length p) (c # cs) = p")
    case True
    then have "length p \<le> Suc (length cs)"
      by (metis length_Cons length_take min.cobounded1)
    with True 2 show ?thesis by (auto simp: match_at_def)
  next
    case False
    with 2 show ?thesis by (auto simp: match_at_def)
  qed
qed

lemma str_find_None_iff: "str_find s p = None \<longleftrightarrow> \<not> sublist p s"
proof (induction s p rule: str_find.induct)
  case (1 p)
  then show ?case by simp
next
  case (2 c cs p)
  have "take (length p) (c # cs) = p \<longleftrightarrow> prefix p (c # cs)"
    by (metis append_eq_conv_conj prefix_def)
  with 2 show ?case by (auto simp: sublist_Cons_right)
qed

lemma str_contains_sublist: "str_contains s p \<longleftrightarrow> sublist p s"
  by (simp add: str_contains_def str_find_None_iff)

lemma str_contains_singleton: "str_contains s [c] \<longleftrightarrow> c \<in> set s"
  by (auto simp: str_contains_sublist sublist_def in_set_conv_decomp)

lemma str_rfind_Some: "str_rfind s p n = Some i \<Longrightarrow> match_at s p i \<and> i \<le> n"
  by (induction n) (auto split: if_splits)

text \<open>One \<open>std::getline(iss, token, d)\<close>: fails on an exhausted stream, otherwise the token up
  to the delimiter, which is consumed.\<close>

definition getline :: "string \<Rightarrow> char \<Rightarrow> (string \<times> string) option" where
  "getline s d =
     (if s = [] then None
      else Some (takeWhile (\<lambda>c. c \<noteq> d) s, drop 1 (dropWhile (\<lambda>c. c \<noteq> d) s)))"

lemma getline_shorter: "getline s d = Some (t, r) \<Longrightarrow> length r < length s"
proof -
  assume g: "getline s d = Some (t, r)"
  have "length (dropWhile (\<lambda>c. c \<noteq> d) s) \<le> length s"
    by (rule length_dropWhile_le)
  moreover from g have "s \<noteq> []" and "r = drop 1 (dropWhile (\<lambda>c. c \<noteq> d) s)"
    by (simp_all add: getline_def split: if_splits)
  ultimately show ?thesis
    by (metis One_nat_def diff_less length_drop length_greater_0_conv less_imp_diff_less
        less_one nat_less_le order_le_less_trans zero_less_diff)
qed

text \<open>Decimal digits: \<open>std::to_string\<close> of an unsigned value, and the value of a digit string.\<close>

definition digit_char :: "nat \<Rightarrow> char" where
  "digit_char d = char_of (48 + d)"

definition is_digit :: "char \<Rightarrow> bool" where
  "is_digit c \<longleftrightarrow> 48 \<le> (of_char c :: nat) \<and> (of_char c :: nat) \<le> 57"

definition digit_val :: "char \<Rightarrow> nat" where
  "digit_val c = of_char c - 48"

fun to_string :: "nat \<Rightarrow> string" where
  "to_string n = (if n < 10 then [digit_char n] else to_string (n div 10) @ [digit_char (n mod 10)])"

declare to_string.simps [simp del]

definition dec_val :: "string \<Rightarrow> nat" where
  "dec_val s = foldl (\<lambda>a c. 10 * a + digit_val c) 0 s"

lemma digit_char_is_digit [simp]: "d < 10 \<Longrightarrow> is_digit (digit_char d)"
  by (simp add: is_digit_def digit_char_def)

lemma digit_val_char [simp]: "d < 10 \<Longrightarrow> digit_val (digit_char d) = d"
  by (simp add: digit_val_def digit_char_def)

lemma to_string_nonempty [simp]: "to_string n \<noteq> []"
  by (subst to_string.simps) simp

lemma to_string_digits: "list_all is_digit (to_string n)"
proof (induction n rule: to_string.induct)
  case (1 n)
  then show ?case by (subst to_string.simps) simp
qed

lemma dec_val_to_string [simp]: "dec_val (to_string n) = n"
proof (induction n rule: to_string.induct)
  case (1 n)
  show ?case
  proof (cases "n < 10")
    case True
    then show ?thesis by (subst to_string.simps) (simp add: dec_val_def)
  next
    case False
    with 1 have "dec_val (to_string (n div 10)) = n div 10" by simp
    with False show ?thesis
      by (subst to_string.simps) (simp add: dec_val_def)
  qed
qed

lemma to_string_inj: "to_string m = to_string n \<Longrightarrow> m = n"
  by (metis dec_val_to_string)

section \<open>Object bytes\<close>

text \<open>The bytes of an unsigned integer object on a little-endian machine.\<close>

fun le_bytes :: "nat \<Rightarrow> nat \<Rightarrow> u8 list" where
  "le_bytes 0 v = []"
| "le_bytes (Suc n) v = word_of_nat (v mod 256) # le_bytes n (v div 256)"

fun le_val :: "u8 list \<Rightarrow> nat" where
  "le_val [] = 0"
| "le_val (b # bs) = unat b + 256 * le_val bs"

lemma length_le_bytes [simp]: "length (le_bytes n v) = n"
  by (induction n arbitrary: v) auto

lemma le_val_le_bytes: "le_val (le_bytes n v) = v mod 256 ^ n"
proof (induction n arbitrary: v)
  case 0
  then show ?case by simp
next
  case (Suc n)
  have "unat (word_of_nat (v mod 256) :: u8) = v mod 256"
    by (simp add: unat_of_nat)
  with Suc show ?case by (simp add: mod_mult2_eq)
qed

lemma le_val_bound: "le_val bs < 256 ^ length bs"
proof (induction bs)
  case Nil
  then show ?case by simp
next
  case (Cons b bs)
  have "unat b < 256" using unsigned_less [of b] by simp
  with Cons show ?case by simp
qed

text \<open>Reading an unsigned field back from its bytes.\<close>

definition field :: "nat \<Rightarrow> nat \<Rightarrow> u8 list \<Rightarrow> 'a::len word" where
  "field n off bs = word_of_nat (le_val (take n (drop off bs)))"

lemma word_of_le_bytes [simp]:
  "word_of_nat (le_val (le_bytes 1 (unat (a :: u8)))) = a"
  "word_of_nat (le_val (le_bytes 2 (unat (b :: u16)))) = b"
  "word_of_nat (le_val (le_bytes 4 (unat (c :: u32)))) = c"
  "word_of_nat (le_val (le_bytes 8 (unat (d :: u64)))) = d"
proof -
  have "unat a < 256" using unsigned_less [of a] by simp
  moreover have "unat b < 65536" using unsigned_less [of b] by simp
  moreover have "unat c < 4294967296" using unsigned_less [of c] by simp
  moreover have "unat d < 18446744073709551616" using unsigned_less [of d] by simp
  ultimately show
    "word_of_nat (le_val (le_bytes 1 (unat a))) = a" "word_of_nat (le_val (le_bytes 2 (unat b))) = b"
    "word_of_nat (le_val (le_bytes 4 (unat c))) = c" "word_of_nat (le_val (le_bytes 8 (unat d))) = d"
    by (simp_all add: le_val_le_bytes)
qed

definition str_of_bytes :: "u8 list \<Rightarrow> string" where
  "str_of_bytes bs = map (\<lambda>b. char_of (unat b)) bs"

definition bytes_of_str :: "string \<Rightarrow> u8 list" where
  "bytes_of_str s = map (\<lambda>c. word_of_nat (of_char c)) s"

lemma str_of_bytes_of_str [simp]: "str_of_bytes (bytes_of_str s) = s"
proof -
  have "unat (word_of_nat (of_char c) :: u8) = of_char c" for c :: char
    by (simp add: unat_of_nat)
  then show ?thesis by (simp add: str_of_bytes_def bytes_of_str_def comp_def)
qed

lemma length_bytes_of_str [simp]: "length (bytes_of_str s) = length s"
  by (simp add: bytes_of_str_def)

lemma length_str_of_bytes [simp]: "length (str_of_bytes s) = length s"
  by (simp add: str_of_bytes_def)

section \<open>Associative containers\<close>

text \<open>
  \<open>std::map\<close> is the list of its pairs in key order; \<open>m[k] = v\<close> inserts or overwrites.
\<close>

fun omap_put :: "'k::linorder \<Rightarrow> 'v \<Rightarrow> ('k \<times> 'v) list \<Rightarrow> ('k \<times> 'v) list" where
  "omap_put k v [] = [(k, v)]"
| "omap_put k v ((k', v') # m) =
     (if k < k' then (k, v) # (k', v') # m
      else if k = k' then (k, v) # m
      else (k', v') # omap_put k v m)"

text \<open>\<open>m.insert({k, v})\<close> keeps an existing entry.\<close>

fun omap_insert :: "'k::linorder \<Rightarrow> 'v \<Rightarrow> ('k \<times> 'v) list \<Rightarrow> ('k \<times> 'v) list" where
  "omap_insert k v [] = [(k, v)]"
| "omap_insert k v ((k', v') # m) =
     (if k < k' then (k, v) # (k', v') # m
      else if k = k' then (k', v') # m
      else (k', v') # omap_insert k v m)"

definition omap_erase :: "'k \<Rightarrow> ('k \<times> 'v) list \<Rightarrow> ('k \<times> 'v) list" where
  "omap_erase k m = filter (\<lambda>(k', v). k' \<noteq> k) m"

lemma map_of_omap_put:
  "sorted_wrt (<) (map fst m) \<Longrightarrow> map_of (omap_put k v m) = (map_of m)(k \<mapsto> v)"
proof (induction m)
  case Nil
  then show ?case by (simp add: fun_eq_iff)
next
  case (Cons p m)
  then show ?case by (cases p) (auto simp: fun_eq_iff)
qed

lemma map_of_omap_insert:
  "sorted_wrt (<) (map fst m) \<Longrightarrow>
   map_of (omap_insert k v m) = (if map_of m k = None then (map_of m)(k \<mapsto> v) else map_of m)"
proof (induction m)
  case Nil
  then show ?case by (simp add: fun_eq_iff)
next
  case (Cons p m)
  obtain k' v' where p: "p = (k', v')" by (cases p)
  have "k < k' \<Longrightarrow> map_of m k = None"
    using Cons.prems p by (fastforce simp: map_of_eq_None_iff)
  with Cons p show ?case by (auto simp: fun_eq_iff)
qed

lemma set_omap_put: "fst ` set (omap_put k v m) = insert k (fst ` set m)"
proof (induction m)
  case Nil
  then show ?case by simp
next
  case (Cons p m)
  obtain k' v' where p: "p = (k', v')" by (cases p)
  with Cons show ?case by (simp add: insert_commute)
qed

lemma omap_put_sorted: "sorted_wrt (<) (map fst m) \<Longrightarrow> sorted_wrt (<) (map fst (omap_put k v m))"
proof (induction m)
  case Nil
  then show ?case by simp
next
  case (Cons p m)
  obtain k' v' where p: "p = (k', v')" by (cases p)
  have "\<forall>x \<in> set (omap_put k v m). fst x = k \<or> fst x \<in> fst ` set m"
    using set_omap_put [of k v m] by blast
  then have "\<forall>x \<in> set (omap_put k v m). k' < fst x" if "k' < k"
    using that Cons.prems p by fastforce
  with Cons p show ?case by auto
qed

lemma map_of_omap_erase: "map_of (omap_erase k m) = (map_of m)(k := None)"
  by (induction m) (auto simp: omap_erase_def fun_eq_iff)

abbreviation okeys :: "('k::linorder \<times> 'v) list \<Rightarrow> bool" where
  "okeys m \<equiv> sorted_wrt (<) (map fst m)"

lemma okeys_erase: "okeys m \<Longrightarrow> okeys (omap_erase k m)"
  by (induction m) (auto simp: omap_erase_def)

lemma set_omap_insert: "fst ` set (omap_insert k v m) = insert k (fst ` set m)"
proof (induction m)
  case (Cons p m)
  then show ?case by (cases p) auto
qed simp

lemma okeys_insert: "okeys m \<Longrightarrow> okeys (omap_insert k v m)"
proof (induction m)
  case (Cons p m)
  obtain k' v' where p: "p = (k', v')" by (cases p)
  have "\<forall>x \<in> set (omap_insert k v m). fst x = k \<or> fst x \<in> fst ` set m"
    using set_omap_insert [of k v m] by blast
  then have "\<forall>x \<in> set (omap_insert k v m). k' < fst x" if "k' < k"
    using that Cons.prems p by fastforce
  with Cons p show ?case by auto
qed simp

section \<open>Ordered containers\<close>

text \<open>
  The interface of a comparator given to \<open>std::set\<close>, \<open>std::map\<close> or \<open>std::sort\<close>: a strict weak
  order. The container is the list of its elements in iteration order; \<open>insert\<close> does nothing when
  an equivalent element is present.
\<close>

fun oset_insert :: "('a \<Rightarrow> 'a \<Rightarrow> bool) \<Rightarrow> 'a \<Rightarrow> 'a list \<Rightarrow> 'a list" where
  "oset_insert lt x [] = [x]"
| "oset_insert lt x (y # ys) =
     (if lt x y then x # y # ys
      else if lt y x then y # oset_insert lt x ys
      else y # ys)"

definition oset_erase :: "('a \<Rightarrow> 'a \<Rightarrow> bool) \<Rightarrow> 'a \<Rightarrow> 'a list \<Rightarrow> 'a list" where
  "oset_erase lt x ys = filter (\<lambda>y. lt x y \<or> lt y x) ys"

locale strict_weak_order =
  fixes lt :: "'a \<Rightarrow> 'a \<Rightarrow> bool"
  assumes lt_irrefl: "\<not> lt x x"
    and lt_trans: "lt x y \<Longrightarrow> lt y z \<Longrightarrow> lt x z"
    and incomp_trans: "\<not> lt x y \<Longrightarrow> \<not> lt y x \<Longrightarrow> \<not> lt y z \<Longrightarrow> \<not> lt z y \<Longrightarrow> \<not> lt x z"
begin

lemma oset_insert_subset: "set (oset_insert lt x xs) \<subseteq> insert x (set xs)"
  by (induction xs) auto

lemma oset_insert_keeps: "set xs \<subseteq> set (oset_insert lt x xs)"
  by (induction xs) auto

lemma oset_insert_equiv_present:
  "\<exists>y \<in> set (oset_insert lt x xs). \<not> lt x y \<and> \<not> lt y x"
  by (induction xs) (auto simp: lt_irrefl)

lemma oset_insert_sorted: "sorted_wrt lt xs \<Longrightarrow> sorted_wrt lt (oset_insert lt x xs)"
proof (induction xs)
  case Nil
  then show ?case by simp
next
  case (Cons y ys)
  then show ?case
    using oset_insert_subset [of x ys] by (auto intro: lt_trans)
qed

lemma oset_insert_length:
  "sorted_wrt lt xs \<Longrightarrow>
   length (oset_insert lt x xs) =
     (if \<exists>y \<in> set xs. \<not> lt x y \<and> \<not> lt y x then length xs else Suc (length xs))"
proof (induction xs)
  case Nil
  then show ?case by simp
next
  case (Cons y ys)
  have "\<not> (\<exists>z \<in> set (y # ys). \<not> lt x z \<and> \<not> lt z x)" if "lt x y"
    using that Cons.prems lt_trans by auto
  with Cons show ?case by auto
qed

lemma oset_erase_sorted: "sorted_wrt lt xs \<Longrightarrow> sorted_wrt lt (oset_erase lt x xs)"
  by (simp add: oset_erase_def sorted_wrt_filter)

lemma oset_sorted_unique:
  assumes "sorted_wrt lt xs" and "x \<in> set xs" and "y \<in> set xs"
    and "\<not> lt x y" and "\<not> lt y x"
  shows "x = y"
  using assms by (induction xs) (auto simp: lt_irrefl)

lemma oset_sorted_distinct: "sorted_wrt lt xs \<Longrightarrow> distinct xs"
  by (induction xs) (auto simp: lt_irrefl)

lemma oset_sorted_eqI:
  "sorted_wrt lt xs \<Longrightarrow> sorted_wrt lt ys \<Longrightarrow> set xs = set ys \<Longrightarrow> xs = ys"
proof (induction xs arbitrary: ys)
  case Nil
  then show ?case by simp
next
  case (Cons x xs)
  then obtain y zs where ys: "ys = y # zs" by (cases ys) auto
  have "x = y"
  proof (rule ccontr)
    assume "x \<noteq> y"
    with Cons.prems ys have "lt x y" and "lt y x" by auto
    with lt_trans lt_irrefl show False by blast
  qed
  moreover have "x \<notin> set xs" and "y \<notin> set zs"
    using Cons.prems ys lt_irrefl by auto
  moreover from Cons.prems ys calculation have "set xs = set zs"
    by (metis insert_ident list.simps(15))
  ultimately show ?case using Cons ys by simp
qed

lemma oset_insert_set:
  "\<forall>y \<in> set xs. lt x y \<or> lt y x \<Longrightarrow> set (oset_insert lt x xs) = insert x (set xs)"
  by (induction xs) auto

lemma oset_insert_find: "\<not> P x \<Longrightarrow> find P (oset_insert lt x xs) = find P xs"
  by (induction xs) auto

lemma oset_erase_insert:
  assumes "sorted_wrt lt xs" and "\<forall>y \<in> set xs. lt x y \<or> lt y x"
  shows "oset_erase lt x (oset_insert lt x xs) = xs"
proof (rule oset_sorted_eqI)
  show "sorted_wrt lt (oset_erase lt x (oset_insert lt x xs))"
    using assms(1) by (simp add: oset_erase_def sorted_wrt_filter oset_insert_sorted)
  show "set (oset_erase lt x (oset_insert lt x xs)) = set xs"
    using assms(2) by (auto simp: oset_erase_def oset_insert_set lt_irrefl)
qed fact

lemma oset_erase_set:
  "sorted_wrt lt xs \<Longrightarrow> x \<in> set xs \<Longrightarrow> set (oset_erase lt x xs) = set xs - {x}"
  using oset_sorted_unique by (auto simp: oset_erase_def lt_irrefl)

lemma oset_erase_length:
  assumes "sorted_wrt lt xs" and "x \<in> set xs"
  shows "Suc (length (oset_erase lt x xs)) = length xs"
proof -
  have "distinct xs" and "distinct (oset_erase lt x xs)"
    using assms by (auto intro: oset_sorted_distinct oset_erase_sorted)
  then have "length (oset_erase lt x xs) = card (set xs - {x})" and "length xs = card (set xs)"
    using oset_erase_set [OF assms] by (simp_all flip: distinct_card)
  with assms(2) show ?thesis by (simp add: card_Suc_Diff1 del: card_Diff_insert)
qed

end

end
