(* ===== verification/Ustring.thy ===== *)
theory Ustring
  imports Prelude
begin

text \<open>
  The string helpers of \<open>csrc/utils/Ustring.h\<close> and \<open>csrc/utils/Ustring.cpp\<close>, on byte strings.
  Stream reads (\<open>std::getline\<close>, \<open>operator>>\<close>) follow the C++ standard library; a \<open>size_t\<close> subtraction
  that may wrap is a subtraction on 64-bit words.
\<close>

section \<open>Prefix, suffix, character classes\<close>

definition StartsWith :: "string \<Rightarrow> string \<Rightarrow> bool" where
  "StartsWith str pre \<longleftrightarrow> str_rfind str pre 0 = Some 0"

definition EndsWith :: "string \<Rightarrow> string \<Rightarrow> bool" where
  "EndsWith fullStr ending \<longleftrightarrow>
     (if length fullStr \<ge> length ending
      then take (length ending) (drop (length fullStr - length ending) fullStr) = ending
      else False)"

definition is_alnum :: "char \<Rightarrow> bool" where
  "is_alnum c \<longleftrightarrow> (let n = of_char c :: nat in
     48 \<le> n \<and> n \<le> 57 \<or> 65 \<le> n \<and> n \<le> 90 \<or> 97 \<le> n \<and> n \<le> 122)"

definition IsDigit :: "string \<Rightarrow> bool" where
  "IsDigit digit =
     (let index = (if length digit > 0 \<and> (hd digit = CHR ''-'' \<or> hd digit = CHR ''+'') then 1 else 0)
      in if length digit = index \<or> length digit > 4294967295 then False
         else list_all is_digit (drop index digit))"

definition CheckInputStringValid :: "string \<Rightarrow> nat \<Rightarrow> bool" where
  "CheckInputStringValid inputString len =
     (if inputString = [] then False
      else if length inputString > len then False
      else list_all (\<lambda>c. is_alnum c \<or> c = CHR ''_'') inputString)"

lemma StartsWith_prefix: "StartsWith str pre \<longleftrightarrow> prefix pre str"
proof -
  have "take (length pre) str = pre \<Longrightarrow> length pre \<le> length str"
    by (metis length_take min.cobounded1)
  then show ?thesis
    by (auto simp: StartsWith_def match_at_def prefix_def)
      (metis append_take_drop_id)+
qed

lemma EndsWith_suffix: "EndsWith s e \<longleftrightarrow> suffix e s"
proof (cases "length e \<le> length s")
  case True
  have "take (length e) (drop (length s - length e) s) = drop (length s - length e) s"
    using True by simp
  moreover have "drop (length s - length e) s = e \<longleftrightarrow> suffix e s"
    using True by (metis append_take_drop_id length_append add_diff_cancel_right'
        append_eq_conv_conj suffix_def)
  ultimately show ?thesis using True by (simp add: EndsWith_def)
next
  case False
  then show ?thesis using suffix_length_le by (auto simp: EndsWith_def)
qed

section \<open>Splitting and joining\<close>

function SplitString :: "string \<Rightarrow> char \<Rightarrow> string list" where
  "SplitString str split =
     (case getline str split of
        None \<Rightarrow> []
      | Some (token, rest) \<Rightarrow> token # SplitString rest split)"
  by pat_completeness auto
termination
  by (relation "measure (\<lambda>(s, d). length s)") (auto dest: getline_shorter)

declare SplitString.simps [simp del]

definition SplitString_set :: "string \<Rightarrow> char \<Rightarrow> string set \<Rightarrow> string set" where
  "SplitString_set str split res = res \<union> set (SplitString str split)"

fun Join :: "string list \<Rightarrow> string \<Rightarrow> string" where
  "Join [] sep = []"
| "Join [x] sep = x"
| "Join (x # y # ys) sep = x @ sep @ Join (y # ys) sep"

definition Strip :: "string \<Rightarrow> string \<Rightarrow> string" where
  "Strip str cs = rev (dropWhile (\<lambda>c. c \<in> set cs) (rev (dropWhile (\<lambda>c. c \<in> set cs) str)))"

lemma SplitString_Nil [simp]: "SplitString [] d = []"
  by (subst SplitString.simps) (simp add: getline_def)

lemma getline_last: "d \<notin> set t \<Longrightarrow> t \<noteq> [] \<Longrightarrow> getline t d = Some (t, [])"
proof -
  assume d: "d \<notin> set t" and t: "t \<noteq> []"
  from d have "takeWhile (\<lambda>c. c \<noteq> d) t = t" and "dropWhile (\<lambda>c. c \<noteq> d) t = []"
    by (induction t) auto
  with t show ?thesis by (simp only: getline_def drop_Nil if_False)
qed

lemma getline_sep: "d \<notin> set t \<Longrightarrow> getline (t @ d # r) d = Some (t, r)"
proof -
  assume "d \<notin> set t"
  then have "takeWhile (\<lambda>c. c \<noteq> d) (t @ d # r) = t"
    and "dropWhile (\<lambda>c. c \<noteq> d) (t @ d # r) = d # r"
    by (induction t) auto
  then show ?thesis by (simp add: getline_def)
qed

lemma SplitString_last: "d \<notin> set t \<Longrightarrow> t \<noteq> [] \<Longrightarrow> SplitString t d = [t]"
  by (subst SplitString.simps) (simp add: getline_last)

lemma SplitString_step: "d \<notin> set t \<Longrightarrow> SplitString (t @ d # r) d = t # SplitString r d"
  by (subst SplitString.simps) (simp add: getline_sep)

lemma SplitString_nonempty: "s \<noteq> [] \<Longrightarrow> SplitString s d \<noteq> []"
  by (subst SplitString.simps) (simp add: getline_def)

lemma SplitString_no_sep: "t \<in> set (SplitString s d) \<Longrightarrow> d \<notin> set t"
proof (induction s d rule: SplitString.induct)
  case (1 s d)
  show ?case
  proof (cases "getline s d")
    case None
    with 1 show ?thesis by (simp add: SplitString.simps [of s d])
  next
    case (Some p)
    obtain u r where p: "p = (u, r)" by (cases p)
    from Some p have "u = takeWhile (\<lambda>c. c \<noteq> d) s"
      by (simp add: getline_def split: if_splits)
    then have "d \<notin> set u" using set_takeWhileD by fastforce
    with 1 Some p show ?thesis by (auto simp: SplitString.simps [of s d])
  qed
qed

lemma Join_eq_Nil: "Join xs [d] = [] \<longleftrightarrow> xs = [] \<or> xs = [[]]"
  by (cases xs rule: list.exhaust; cases "tl xs") auto

section \<open>Escaping\<close>

definition bsl :: char where
  "bsl = CHR 0x5C"

definition GetInvalidChar :: "(char \<times> string) list" where
  "GetInvalidChar =
     [(CHR 0x0A, bsl # ''n''), (CHR 0x0C, bsl # ''f''), (CHR 0x0D, bsl # ''r''),
      (CHR 0x08, bsl # ''b''), (CHR 0x09, bsl # ''t''), (CHR 0x0B, bsl # ''v''),
      (CHR 0x7F, bsl # ''u007F'')]"

text \<open>The scan of \<open>ToSafeString\<close>: position \<open>i\<close> in the string that is being rewritten in place.\<close>

function ToSafeString_loop :: "string \<Rightarrow> nat \<Rightarrow> string" where
  "ToSafeString_loop s i =
     (if i < length s then
        (case map_of GetInvalidChar (s ! i) of
           Some v \<Rightarrow> ToSafeString_loop (take i s @ v @ drop (Suc i) s) (i + length v)
         | None \<Rightarrow> ToSafeString_loop s (Suc i))
      else s)"
  by pat_completeness auto
termination
  by (relation "measure (\<lambda>(s, i). length s - i)") auto

declare ToSafeString_loop.simps [simp del]

definition ToSafeString :: "string \<Rightarrow> string" where
  "ToSafeString str = ToSafeString_loop str 0"

definition escape_char :: "char \<Rightarrow> string" where
  "escape_char c = (case map_of GetInvalidChar c of Some v \<Rightarrow> v | None \<Rightarrow> [c])"

lemma ToSafeString_loop_eq:
  "i \<le> length s \<Longrightarrow>
   ToSafeString_loop s i = take i s @ concat (map escape_char (drop i s))"
proof (induction s i rule: ToSafeString_loop.induct)
  case (1 s i)
  show ?case
  proof (cases "i < length s")
    case False
    with 1 show ?thesis by (subst ToSafeString_loop.simps) simp
  next
    case True
    then have d: "drop i s = s ! i # drop (Suc i) s" by (simp add: Cons_nth_drop_Suc)
    show ?thesis
    proof (cases "map_of GetInvalidChar (s ! i)")
      case None
      with 1 True d show ?thesis
        by (simp add: ToSafeString_loop.simps [of s i] escape_char_def take_Suc_conv_app_nth)
    next
      case (Some v)
      let ?s' = "take i s @ v @ drop (Suc i) s"
      have "i + length v \<le> length ?s'" using True by simp
      with 1 True Some
      have "ToSafeString_loop ?s' (i + length v) =
              take (i + length v) ?s' @ concat (map escape_char (drop (i + length v) ?s'))"
        by simp
      moreover have "take (i + length v) ?s' = take i s @ v"
        and "drop (i + length v) ?s' = drop (Suc i) s"
        using True by simp_all
      moreover have "escape_char (s ! i) = v" using Some by (simp add: escape_char_def)
      ultimately show ?thesis
        using True Some d by (simp add: ToSafeString_loop.simps [of s i])
    qed
  qed
qed

lemma escapes_are_safe:
  "list_all (\<lambda>(k, v). list_all (\<lambda>c. map_of GetInvalidChar c = None) v) GetInvalidChar"
  by code_simp

lemma escape_char_safe:
  assumes "c \<in> set (escape_char x)"
  shows "map_of GetInvalidChar c = None"
proof (cases "map_of GetInvalidChar x")
  case None
  with assms show ?thesis by (simp add: escape_char_def)
next
  case (Some v)
  then have "(x, v) \<in> set GetInvalidChar" by (rule map_of_SomeD)
  with escapes_are_safe have "\<forall>c \<in> set v. map_of GetInvalidChar c = None"
    by (auto simp: list_all_iff)
  with Some assms show ?thesis by (simp add: escape_char_def)
qed

text \<open>
  \<open>IsStringCharValid\<close> walks an \<open>unordered_map\<close>, so the order of the walk is a parameter: any
  enumeration of the table. It gives the message that goes with the first hit.
\<close>

definition IsStringCharValid :: "(char \<times> string) list \<Rightarrow> string \<Rightarrow> bool \<times> string option" where
  "IsStringCharValid walk inputString =
     (case find (\<lambda>(k, v). str_contains inputString [k]) walk of
        None \<Rightarrow> (True, None)
      | Some (k, v) \<Rightarrow> (False, Some (''invalid character: '' @ v)))"

lemma IsStringCharValid_iff:
  assumes "set walk = set GetInvalidChar"
  shows "fst (IsStringCharValid walk s) \<longleftrightarrow> (\<forall>c \<in> set s. map_of GetInvalidChar c = None)"
proof -
  have "fst (IsStringCharValid walk s) \<longleftrightarrow>
          find (\<lambda>(k, v). str_contains s [k]) walk = None"
    by (simp add: IsStringCharValid_def split: option.split)
  also have "\<dots> \<longleftrightarrow> (\<forall>(k, v) \<in> set walk. k \<notin> set s)"
    by (auto simp: find_None_iff str_contains_singleton)
  also have "\<dots> \<longleftrightarrow> (\<forall>c \<in> set s. c \<notin> fst ` set GetInvalidChar)"
    using assms by auto
  finally show ?thesis by (simp add: map_of_eq_None_iff)
qed

section \<open>Suffixes, object names, bounded C strings\<close>

fun RemoveSuffix_first :: "string \<Rightarrow> string list \<Rightarrow> string" where
  "RemoveSuffix_first str [] = str"
| "RemoveSuffix_first str (suf # sufs) =
     (if length str \<ge> length suf \<and> drop (length str - length suf) str = suf
      then take (length str - length suf) str
      else RemoveSuffix_first str sufs)"

definition RemoveSuffix :: "string \<Rightarrow> string list \<Rightarrow> string" where
  "RemoveSuffix str sufs = (if str = [] then str else RemoveSuffix_first str sufs)"

definition ExtractObjName :: "string \<Rightarrow> string \<Rightarrow> string \<Rightarrow> string" where
  "ExtractObjName str pre suf =
     (case (str_find str pre, str_find str suf) of
        (Some prefixIndex, Some suffixIndex) \<Rightarrow>
          (let objStart = prefixIndex + length pre;
               objLength = unat (word_of_nat suffixIndex - word_of_nat objStart :: u64)
           in take objLength (drop objStart str))
      | _ \<Rightarrow> [])"

definition GetValidLength :: "string \<Rightarrow> u64 \<Rightarrow> u64" where
  "GetValidLength str maxLen =
     (let count = word_of_nat (length (takeWhile (\<lambda>c. c \<noteq> CHR 0x00) (take (unat maxLen) str)))
      in min count (maxLen - 1))"

section \<open>Numbers\<close>

text \<open>
  \<open>StringToNum\<close> for an unsigned type of \<open>w\<close> bits and for a signed one. \<open>operator>>\<close> accepts a minus
  sign for an unsigned type and negates modulo \<open>2 ^ w\<close>; a value out of range sets \<open>failbit\<close>.
\<close>

definition sign_digits :: "string \<Rightarrow> bool \<times> string" where
  "sign_digits s =
     (if s \<noteq> [] \<and> hd s = CHR ''-'' then (True, tl s)
      else if s \<noteq> [] \<and> hd s = CHR ''+'' then (False, tl s)
      else (False, s))"

definition StringToNum_unsigned :: "nat \<Rightarrow> string \<Rightarrow> nat option" where
  "StringToNum_unsigned w str =
     (if \<not> IsDigit str then None
      else let (neg, ds) = sign_digits str; v = dec_val ds
           in if v \<ge> 2 ^ w then None
              else Some (if neg then (2 ^ w - v) mod 2 ^ w else v))"

definition StringToNum_signed :: "nat \<Rightarrow> string \<Rightarrow> int option" where
  "StringToNum_signed w str =
     (if \<not> IsDigit str then None
      else let (neg, ds) = sign_digits str; v = (if neg then - int (dec_val ds) else int (dec_val ds))
           in if v < - (2 ^ (w - 1)) \<or> v \<ge> 2 ^ (w - 1) then None else Some v)"

text \<open>\<open>NumToHexString\<close>: \<open>0x\<close> and the lower-case hexadecimal digits.\<close>

definition hex_char :: "nat \<Rightarrow> char" where
  "hex_char d = (if d < 10 then char_of (48 + d) else char_of (87 + d))"

fun hex_string :: "nat \<Rightarrow> string" where
  "hex_string n = (if n < 16 then [hex_char n] else hex_string (n div 16) @ [hex_char (n mod 16)])"

declare hex_string.simps [simp del]

definition NumToHexString :: "u64 \<Rightarrow> string" where
  "NumToHexString num = ''0x'' @ hex_string (unat num)"

lemma to_string_hd_no_sign:
  "hd (to_string n) \<noteq> CHR ''-'' \<and> hd (to_string n) \<noteq> CHR ''+''"
proof -
  have "is_digit (hd (to_string n))"
    using to_string_digits [of n] by (cases "to_string n") auto
  then show ?thesis by (auto simp: is_digit_def)
qed

lemma to_string_length: "n < 10 ^ k \<Longrightarrow> 0 < k \<Longrightarrow> length (to_string n) \<le> k"
proof (induction k arbitrary: n)
  case 0
  then show ?case by simp
next
  case (Suc k)
  show ?case
  proof (cases "n < 10")
    case True
    then show ?thesis by (subst to_string.simps) simp
  next
    case False
    then have "n div 10 < 10 ^ k" and "0 < k"
      using Suc.prems by (auto simp: less_mult_imp_div_less mult.commute intro: gr0I)
    with Suc.IH [of "n div 10"] False show ?thesis by (subst to_string.simps) simp
  qed
qed

lemma IsDigit_to_string: "n < 2 ^ 64 \<Longrightarrow> IsDigit (to_string n)"
proof -
  assume n: "n < 2 ^ 64"
  then have "length (to_string n) \<le> 20" by (intro to_string_length) simp_all
  then show ?thesis
    using to_string_digits [of n] to_string_hd_no_sign [of n] by (simp add: IsDigit_def Let_def)
qed

lemma sign_digits_to_string [simp]: "sign_digits (to_string n) = (False, to_string n)"
  using to_string_hd_no_sign [of n] by (simp add: sign_digits_def)

lemma StringToNum_to_string [simp]:
  "n < 2 ^ 64 \<Longrightarrow> StringToNum_unsigned 64 (to_string n) = Some n"
  by (simp add: StringToNum_unsigned_def IsDigit_to_string)

lemma StringToNum_signed_to_string [simp]:
  "n < 2 ^ 31 \<Longrightarrow> StringToNum_signed 32 (to_string n) = Some (int n)"
  by (simp add: StringToNum_signed_def IsDigit_to_string)

lemma SplitString_Join:
  "\<forall>t \<in> set ts. d \<notin> set t \<Longrightarrow> ts \<noteq> [] \<longrightarrow> last ts \<noteq> [] \<Longrightarrow> SplitString (Join ts [d]) d = ts"
proof (induction ts "[d]" rule: Join.induct)
  case 1
  then show ?case by simp
next
  case (2 x)
  then show ?case by (simp add: SplitString_last)
next
  case (3 x y ys)
  then show ?case by (simp add: SplitString_step)
qed

section \<open>Round trip of lists\<close>

text \<open>
  the list separators the dumper and the launcher agree on. Joining tokens that do not contain
  the separator and splitting the result gives the tokens back, except that a trailing empty token
  is lost, which the hypothesis on the last token excludes.
\<close>

lemma split_join_roundtrip:
  assumes "\<forall>t \<in> set ts. d \<notin> set t" and "ts \<noteq> [] \<longrightarrow> last ts \<noteq> []"
  shows "SplitString (Join ts [d]) d = ts"
  using assms by (rule SplitString_Join)

text \<open>
  \<open>ToSafeString\<close> is the character-wise escape of its input, and no character of the result is one
  of the control characters of the table.
\<close>

lemma to_safe_string_safe:
  "ToSafeString s = concat (map escape_char s) \<and>
   filter (\<lambda>c. map_of GetInvalidChar c \<noteq> None) (ToSafeString s) = []"
proof -
  have "ToSafeString s = concat (map escape_char s)"
    by (simp add: ToSafeString_def ToSafeString_loop_eq)
  then show ?thesis by (auto simp: filter_empty_conv dest: escape_char_safe)
qed

end
