(* ===== verification/PathModel.thy ===== *)
theory PathModel
  imports Ustring
begin

text \<open>
  \<open>csrc/utils/Path.h\<close> and \<open>csrc/utils/Path.cpp\<close>: a path as a flag and a list of components, the
  parser in its constructor, printing, and the lexical normalisation \<open>Resolved\<close> with its two cursors
  over one vector. The working directory (\<open>getcwd\<close>) is a parameter: \<open>None\<close> when the call fails.
\<close>

section \<open>Data and operations\<close>

record path =
  p_absolute :: bool
  p_route :: "string list"

abbreviation PATH_SEP :: char where
  "PATH_SEP \<equiv> CHR ''/''"

definition empty_path :: path where
  "empty_path = \<lparr>p_absolute = False, p_route = []\<rparr>"

text \<open>The component scan of the constructor, on the part of the string not read yet.\<close>

function parse_route :: "string \<Rightarrow> string list" where
  "parse_route [] = []"
| "parse_route (c # cs) =
     (if c = PATH_SEP then parse_route cs
      else let route = c # takeWhile (\<lambda>x. x \<noteq> PATH_SEP) cs;
               rest = parse_route (dropWhile (\<lambda>x. x \<noteq> PATH_SEP) cs)
           in if route \<noteq> ''.'' then route # rest else rest)"
  by pat_completeness auto
termination
  by (relation "measure length") (auto simp: le_imp_less_Suc length_dropWhile_le)

definition mk_path :: "string \<Rightarrow> path" where
  "mk_path raw =
     (let p = Strip raw '' '' in
      if p = [] then empty_path
      else \<lparr>p_absolute = (hd p = PATH_SEP), p_route = parse_route p\<rparr>)"

definition ToString :: "path \<Rightarrow> string" where
  "ToString p =
     (if p_absolute p then [PATH_SEP] @ Join (p_route p) [PATH_SEP]
      else if p_route p = [] then ''.''
      else Join (p_route p) [PATH_SEP])"

definition Name :: "path \<Rightarrow> string" where
  "Name p = (if p_route p = [] then [] else last (p_route p))"

definition Parent :: "path \<Rightarrow> path" where
  "Parent p = (if p_route p \<noteq> [] then p\<lparr>p_route := butlast (p_route p)\<rparr> else p)"

definition path_join :: "path \<Rightarrow> path \<Rightarrow> path" where
  "path_join lhs rhs = (if p_absolute rhs then rhs else lhs\<lparr>p_route := p_route lhs @ p_route rhs\<rparr>)"

definition Absolute :: "string option \<Rightarrow> path \<Rightarrow> path" where
  "Absolute getcwd p = path_join (mk_path (case getcwd of None \<Rightarrow> [] | Some cwd \<Rightarrow> cwd)) p"

text \<open>The loop of \<open>Resolved\<close>: \<open>fast\<close> reads, \<open>slow\<close> writes, both index the same vector.\<close>

function resolve_loop :: "string list \<Rightarrow> nat \<Rightarrow> nat \<Rightarrow> string list \<times> nat" where
  "resolve_loop route fast slow =
     (if fast < length route then
        (if route ! fast \<noteq> ''..'' then resolve_loop (route[slow := route ! fast]) (Suc fast) (Suc slow)
         else if slow > 0 then resolve_loop route (Suc fast) (slow - 1)
         else resolve_loop route (Suc fast) slow)
      else (route, slow))"
  by pat_completeness auto
termination
  by (relation "measure (\<lambda>(route, fast, slow). length route - fast)") auto

declare resolve_loop.simps [simp del]

definition Resolved :: "string option \<Rightarrow> path \<Rightarrow> path" where
  "Resolved getcwd p =
     (let path = Absolute getcwd p;
          (route, slow) = resolve_loop (p_route path) 0 0
      in path\<lparr>p_route := take slow route\<rparr>)"

section \<open>Reference semantics of normalisation\<close>

text \<open>What the loop computes: a stack of components, where a parent segment pops.\<close>

fun resolve_stack :: "string list \<Rightarrow> string list \<Rightarrow> string list" where
  "resolve_stack st [] = st"
| "resolve_stack st (r # rs) =
     (if r \<noteq> ''..'' then resolve_stack (st @ [r]) rs else resolve_stack (butlast st) rs)"

lemma resolve_loop_stack:
  "slow \<le> fast \<Longrightarrow> fast \<le> length route \<Longrightarrow>
   (let (route', slow') = resolve_loop route fast slow
    in take slow' route') = resolve_stack (take slow route) (drop fast route)"
proof (induction route fast slow rule: resolve_loop.induct)
  case (1 route fast slow)
  show ?case
  proof (cases "fast < length route")
    case False
    with 1 show ?thesis by (subst resolve_loop.simps) simp
  next
    case True
    then have d: "drop fast route = route ! fast # drop (Suc fast) route"
      by (simp add: Cons_nth_drop_Suc)
    let ?u = "route[slow := route ! fast]"
    show ?thesis
    proof (cases "route ! fast = ''..''")
      case False
      have "take (Suc slow) ?u = take slow route @ [route ! fast]"
        using 1 True by (simp add: take_Suc_conv_app_nth)
      moreover have "drop (Suc fast) ?u = drop (Suc fast) route" using 1 by simp
      ultimately show ?thesis
        using 1 True False d by (subst resolve_loop.simps) simp
    next
      case dd: True
      show ?thesis
      proof (cases "slow > 0")
        case True
        have "butlast (take slow route) = take (slow - 1) route"
          using 1 by (simp add: butlast_take)
        with 1 \<open>fast < length route\<close> dd True d show ?thesis
          by (subst resolve_loop.simps) simp
      next
        case False
        with 1 \<open>fast < length route\<close> dd d show ?thesis
          by (subst resolve_loop.simps) simp
      qed
    qed
  qed
qed

lemma route_Resolved:
  "p_route (Resolved cwd p) = resolve_stack [] (p_route (Absolute cwd p))"
  using resolve_loop_stack [of 0 0 "p_route (Absolute cwd p)"]
  by (simp add: Resolved_def Let_def split: prod.splits)

lemma absolute_Resolved: "p_absolute (Resolved cwd p) = p_absolute (Absolute cwd p)"
  by (simp add: Resolved_def Let_def split: prod.splits)

lemma resolve_stack_no_parent:
  "''..'' \<notin> set st \<Longrightarrow> ''..'' \<notin> set (resolve_stack st rs)"
  by (induction st rs rule: resolve_stack.induct) (auto dest: in_set_butlastD)

lemma resolve_stack_id: "''..'' \<notin> set rs \<Longrightarrow> resolve_stack st rs = st @ rs"
  by (induction st rs rule: resolve_stack.induct) auto

lemma resolve_stack_length: "length (resolve_stack st rs) \<le> length st + length rs"
  by (induction st rs rule: resolve_stack.induct) (auto intro: order_trans)

section \<open>Well-formed components\<close>

text \<open>What the scan can produce: no separator, not empty, not the current-directory segment.\<close>

definition wf_comp :: "string \<Rightarrow> bool" where
  "wf_comp c \<longleftrightarrow> c \<noteq> [] \<and> PATH_SEP \<notin> set c \<and> c \<noteq> ''.''"

lemma wf_parse_route: "list_all wf_comp (parse_route s)"
proof (induction s rule: parse_route.induct)
  case 1
  then show ?case by simp
next
  case (2 c cs)
  have "PATH_SEP \<notin> set (takeWhile (\<lambda>x. x \<noteq> PATH_SEP) cs)"
    using set_takeWhileD by fastforce
  with 2 show ?case by (auto simp: Let_def wf_comp_def)
qed

lemma wf_mk_path: "list_all wf_comp (p_route (mk_path s))"
  by (simp add: mk_path_def empty_path_def Let_def wf_parse_route)

lemma parse_route_comp:
  assumes "wf_comp c"
  shows "parse_route (c @ PATH_SEP # r) = c # parse_route r"
    and "parse_route c = [c]"
proof -
  obtain x xs where c: "c = x # xs" using assms by (auto simp: wf_comp_def neq_Nil_conv)
  have w: "takeWhile (\<lambda>x. x \<noteq> PATH_SEP) (xs @ PATH_SEP # r) = xs"
    and d: "dropWhile (\<lambda>x. x \<noteq> PATH_SEP) (xs @ PATH_SEP # r) = PATH_SEP # r"
    and w': "takeWhile (\<lambda>x. x \<noteq> PATH_SEP) xs = xs"
    and d': "dropWhile (\<lambda>x. x \<noteq> PATH_SEP) xs = []"
    using assms c by (auto simp: wf_comp_def takeWhile_append dropWhile_append)
  have x: "x \<noteq> PATH_SEP" and dot: "x # xs \<noteq> ''.''" using assms c by (auto simp: wf_comp_def)
  show "parse_route (c @ PATH_SEP # r) = c # parse_route r"
    using x dot by (simp add: c Let_def w d)
  show "parse_route c = [c]"
    unfolding c parse_route.simps(2) Let_def w' d' using x dot by simp
qed

lemma parse_route_Join: "list_all wf_comp rs \<Longrightarrow> parse_route (Join rs [PATH_SEP]) = rs"
  by (induction rs "[PATH_SEP]" rule: Join.induct) (auto simp: parse_route_comp)

lemma dropWhile_hd_id: "s \<noteq> [] \<Longrightarrow> \<not> P (hd s) \<Longrightarrow> dropWhile P s = s"
  by (cases s) auto

lemma Strip_id: "s \<noteq> [] \<Longrightarrow> hd s \<noteq> c \<Longrightarrow> last s \<noteq> c \<Longrightarrow> Strip s [c] = s"
  by (simp add: Strip_def dropWhile_hd_id hd_rev)

section \<open>Properties\<close>

text \<open>
  C33: the in-place normalisation of \<open>Resolved\<close> computes the stack semantics of parent segments, its
  result has no parent segment, and it is never longer than the path it normalises.
\<close>

theorem resolved_is_stack_normal_form:
  "p_route (Resolved cwd p) = resolve_stack [] (p_route (Absolute cwd p)) \<and>
   ''..'' \<notin> set (p_route (Resolved cwd p)) \<and>
   length (p_route (Resolved cwd p)) \<le> length (p_route (Absolute cwd p))"
  using resolve_stack_no_parent [of "[]" "p_route (Absolute cwd p)"]
    resolve_stack_length [of "[]" "p_route (Absolute cwd p)"]
  by (simp add: route_Resolved)

text \<open>
  Printing a path and parsing the result gives the path back, for the components the parser
  produces and an outer character that \<open>Strip\<close> keeps.
\<close>

lemma path_print_parse:
  assumes "list_all wf_comp (p_route p)"
    and "p_route p \<noteq> [] \<longrightarrow> hd (ToString p) \<noteq> CHR '' '' \<and> last (ToString p) \<noteq> CHR '' ''"
  shows "mk_path (ToString p) = p"
proof (cases "p_route p = []")
  case True
  then show ?thesis
    by (cases p) (auto simp: ToString_def mk_path_def empty_path_def Strip_def Let_def)
next
  case False
  obtain c cs where r: "p_route p = c # cs" using False by (cases "p_route p") auto
  have j: "Join (p_route p) [PATH_SEP] \<noteq> []"
    using assms(1) r by (simp add: Join_eq_Nil wf_comp_def)
  have c: "c \<noteq> []" "PATH_SEP \<notin> set c" using assms(1) r by (simp_all add: wf_comp_def)
  then have "hd c \<noteq> PATH_SEP" by (metis hd_in_set)
  with c have "hd (Join (p_route p) [PATH_SEP]) \<noteq> PATH_SEP"
    using r by (cases cs) simp_all
  moreover have "Strip (ToString p) [CHR '' ''] = ToString p"
    using assms(2) False j by (intro Strip_id) (auto simp: ToString_def)
  moreover have "parse_route (ToString p) = p_route p"
    using parse_route_Join [OF assms(1)] False by (simp add: ToString_def)
  ultimately show ?thesis
    using j False by (cases p) (auto simp: mk_path_def ToString_def Let_def)
qed

lemma path_print_parse_witness:
  "mk_path (ToString \<lparr>p_absolute = True, p_route = [''tmp'', ''a b'', ''..'']\<rparr>) =
     \<lparr>p_absolute = True, p_route = [''tmp'', ''a b'', ''..'']\<rparr>"
  by (rule path_print_parse) (simp_all add: wf_comp_def ToString_def)

end
