(* ===== verification/HookLayer.thy ===== *)
theory HookLayer
  imports Ustring
begin

text \<open>
  The hijacking core: \<open>core/HijackedLayerManager\<close> (which lower-layer hooks are masked by a
  higher-layer call on the stack), \<open>core/FuncSelector\<close> (which tool is active),
  \<open>core/FunctionLoader\<close> (lazy resolution of the original functions) and
  \<open>core/HijackedFuncTemplate.h\<close> (the Pre / origin / Post command object). The dynamic loader and the
  check of the library file are parameters (\<open>dl_env\<close>); a pointer is a 64-bit word with 0 as
  \<open>nullptr\<close>.
\<close>

section \<open>Layers\<close>

type_synonym layers = "string list"

definition AclToRuntimeMap :: "(string \<times> string list) list" where
  "AclToRuntimeMap =
     [(''aclrtSetDeviceImpl'', [''rtSetDevice'']),
      (''aclrtResetDeviceImpl'', [''rtDeviceReset'']),
      (''aclrtMallocImpl'', [''rtMalloc'']),
      (''aclrtFreeImpl'', [''rtFree'']),
      (''aclrtMemsetImpl'', [''rtMemset'']),
      (''aclrtMemcpyImpl'', [''rtMemcpy'']),
      (''aclrtMapMemImpl'', [''rtMapMem'']),
      (''aclrtUnmapMemImpl'', [''rtUnmapMem'']),
      (''aclrtIpcMemGetExportKeyImpl'', [''rtIpcSetMemoryName'']),
      (''aclrtIpcMemImportByKeyImpl'', [''rtIpcOpenMemory'']),
      (''aclrtIpcMemCloseImpl'', [''rtIpcDestroyMemoryName'', ''rtIpcCloseMemory'']),
      (''aclrtGetDeviceImpl'', [''rtGetDevice'']),
      (''aclrtCreateContextImpl'', [''rtCtxCreateEx'']),
      (''aclrtQueryDeviceStatusImpl'', [''rtDeviceStatusQuery'']),
      (''aclrtGetDeviceCountImpl'', [''rtGetDeviceCount'']),
      (''aclrtGetDeviceInfoImpl'', [''rtGetDeviceInfo'']),
      (''aclrtGetSocNameImpl'', [''rtGetSocVersion''])]"

definition layer_Push :: "string \<Rightarrow> layers \<Rightarrow> layers" where
  "layer_Push func ls = func # ls"

definition layer_Pop :: "layers \<Rightarrow> layers" where
  "layer_Pop ls = (if ls \<noteq> [] then tl ls else ls)"

fun parent_search :: "layers \<Rightarrow> string \<Rightarrow> bool" where
  "parent_search [] func = False"
| "parent_search (p # ps) func =
     (case map_of AclToRuntimeMap p of
        None \<Rightarrow> parent_search ps func
      | Some lower \<Rightarrow> if func \<in> set lower then True else parent_search ps func)"

definition ParentInCallStack :: "layers \<Rightarrow> string \<Rightarrow> bool" where
  "ParentInCallStack ls func = (if ls = [] then False else parent_search ls func)"

definition InCallStack :: "layers \<Rightarrow> string \<Rightarrow> bool" where
  "InCallStack ls func \<longleftrightarrow> func \<in> set ls"

text \<open>\<open>LayerGuard\<close>: the constructor pushes, the destructor pops, around the guarded body.\<close>

definition LayerGuard :: "string \<Rightarrow> (layers \<Rightarrow> 'r \<times> layers) \<Rightarrow> layers \<Rightarrow> 'r \<times> layers" where
  "LayerGuard func body ls = (let (r, ls') = body (layer_Push func ls) in (r, layer_Pop ls'))"

definition masks :: "string \<Rightarrow> string \<Rightarrow> bool" where
  "masks p func \<longleftrightarrow> (case map_of AclToRuntimeMap p of None \<Rightarrow> False | Some lower \<Rightarrow> func \<in> set lower)"

lemma ParentInCallStack_iff: "ParentInCallStack ls func \<longleftrightarrow> (\<exists>p \<in> set ls. masks p func)"
  by (induction ls) (auto simp: ParentInCallStack_def masks_def split: option.splits if_splits)

lemma layer_Pop_Push [simp]: "layer_Pop (layer_Push f ls) = ls"
  by (simp add: layer_Pop_def layer_Push_def)

text \<open>
  A tree of API calls as the hooks see it: an ACL original runs guarded by its own name
  (\<open>LOAD_FUNCTION_BODY\<close>) and makes lower-layer calls; a runtime entry point reports its event unless
  a parent on the stack masks it (the \<open>ParentInCallStack(__func__)\<close> test of every bound entry point).
\<close>

datatype api_call = AclOrigin string "api_call list" | RtEntry string

definition rt_entry :: "string \<Rightarrow> layers \<Rightarrow> string list \<times> layers" where
  "rt_entry func ls = (if ParentInCallStack ls func then ([], ls) else ([func], ls))"

fun run_calls :: "api_call list \<Rightarrow> layers \<Rightarrow> string list \<times> layers"
  and run_call :: "api_call \<Rightarrow> layers \<Rightarrow> string list \<times> layers" where
  "run_calls [] ls = ([], ls)"
| "run_calls (c # cs) ls =
     (let (ev, ls1) = run_call c ls; (evs, ls2) = run_calls cs ls1 in (ev @ evs, ls2))"
| "run_call (RtEntry func) ls = rt_entry func ls"
| "run_call (AclOrigin func cs) ls = LayerGuard func (run_calls cs) ls"

text \<open>The events an observer with the whole ancestor list would report.\<close>

fun unmasked_all :: "string list \<Rightarrow> api_call list \<Rightarrow> string list"
  and unmasked :: "string list \<Rightarrow> api_call \<Rightarrow> string list" where
  "unmasked_all anc [] = []"
| "unmasked_all anc (c # cs) = unmasked anc c @ unmasked_all anc cs"
| "unmasked anc (RtEntry func) = (if \<exists>p \<in> set anc. masks p func then [] else [func])"
| "unmasked anc (AclOrigin func cs) = unmasked_all (func # anc) cs"

lemma run_calls_unmasked:
  "run_calls cs ls = (unmasked_all ls cs, ls)"
  "run_call c ls = (unmasked ls c, ls)"
  by (induction cs ls and c ls rule: run_calls_run_call.induct)
    (auto simp: LayerGuard_def rt_entry_def ParentInCallStack_iff layer_Push_def layer_Pop_def)

section \<open>Tool selection\<close>

datatype ToolType = NONE | PROF | SANITIZER | TEST

record func_selector =
  sel_type :: ToolType
  sel_subType :: ToolType

definition init_selector :: func_selector where
  "init_selector = \<lparr>sel_type = NONE, sel_subType = NONE\<rparr>"

definition selector_Set :: "ToolType \<Rightarrow> func_selector \<Rightarrow> func_selector" where
  "selector_Set t s = s\<lparr>sel_type := t\<rparr>"

definition selector_Reset :: "ToolType \<Rightarrow> func_selector \<Rightarrow> bool \<times> func_selector" where
  "selector_Reset t s =
     (if sel_type s \<noteq> TEST then (False, s) else (True, s\<lparr>sel_subType := t\<rparr>))"

definition selector_Match :: "func_selector \<Rightarrow> ToolType \<Rightarrow> bool" where
  "selector_Match s t =
     (if sel_type s = NONE then False
      else if sel_type s = TEST then sel_subType s = t
      else sel_type s = t)"

definition IsOpProf :: "func_selector \<Rightarrow> bool" where
  "IsOpProf s = selector_Match s PROF"

definition IsSanitizer :: "func_selector \<Rightarrow> bool" where
  "IsSanitizer s = selector_Match s SANITIZER"

lemma tools_exclusive: "\<not> (IsOpProf s \<and> IsSanitizer s)"
  by (simp add: IsOpProf_def IsSanitizer_def selector_Match_def)

section \<open>Lazy resolution of original functions\<close>

text \<open>The environment: whether the library file passes the checks, \<open>dlopen\<close> and \<open>dlsym\<close>.\<close>

record dl_env =
  so_valid :: "string \<Rightarrow> bool"
  dlopen :: "string \<Rightarrow> ptr"
  dlsym :: "ptr \<Rightarrow> string \<Rightarrow> ptr"

record func_loader =
  fl_fileName :: string
  fl_handle :: ptr
  fl_registry :: "string \<rightharpoonup> ptr"

definition mk_loader :: "string \<Rightarrow> func_loader" where
  "mk_loader name = \<lparr>fl_fileName = ''lib'' @ name @ ''.so'', fl_handle = 0, fl_registry = Map.empty\<rparr>"

definition loader_Set :: "string \<Rightarrow> func_loader \<Rightarrow> func_loader" where
  "loader_Set name l =
     (if fl_registry l name \<noteq> None then l else l\<lparr>fl_registry := (fl_registry l)(name \<mapsto> 0)\<rparr>)"

definition loader_Get :: "dl_env \<Rightarrow> string \<Rightarrow> func_loader \<Rightarrow> ptr \<times> func_loader" where
  "loader_Get env name l =
     (let opened =
        (if fl_handle l = 0 then
           (if \<not> so_valid env (fl_fileName l) then None
            else let hdl = dlopen env (fl_fileName l)
                 in if hdl = 0 then None else Some (l\<lparr>fl_handle := hdl\<rparr>))
         else Some l)
      in case opened of
           None \<Rightarrow> (0, l)
         | Some l1 \<Rightarrow>
             (case fl_registry l1 name of
                None \<Rightarrow> (0, l1)
              | Some p \<Rightarrow>
                  if p \<noteq> 0 then (p, l1)
                  else let func = dlsym env (fl_handle l1) name
                       in if func = 0 then (0, l1)
                          else (func, l1\<lparr>fl_registry := (fl_registry l1)(name \<mapsto> func)\<rparr>)))"

type_synonym func_register = "string \<rightharpoonup> func_loader"

definition Register_library :: "string \<Rightarrow> func_loader \<Rightarrow> func_register \<Rightarrow> func_register" where
  "Register_library name l reg = (if reg name \<noteq> None then reg else reg(name \<mapsto> l))"

definition Register_function :: "string \<Rightarrow> string \<Rightarrow> func_register \<Rightarrow> func_register" where
  "Register_function name funcName reg =
     (case reg name of None \<Rightarrow> reg | Some l \<Rightarrow> reg(name \<mapsto> loader_Set funcName l))"

definition register_Get :: "dl_env \<Rightarrow> func_register \<Rightarrow> string \<Rightarrow> string \<Rightarrow> ptr \<times> func_register" where
  "register_Get env reg soName funcName =
     (case reg soName of
        None \<Rightarrow> (0, reg)
      | Some l \<Rightarrow> let (p, l') = loader_Get env funcName l in (p, reg(soName \<mapsto> l')))"

text \<open>
  What the command objects rely on: once an original function is resolved it stays resolved to the
  same pointer, whatever else is resolved in between.
\<close>

locale symbol_resolver =
  fixes get :: "'s \<Rightarrow> 'k \<Rightarrow> ptr \<times> 's"
    and resolved :: "'s \<Rightarrow> 'k \<Rightarrow> ptr \<Rightarrow> bool"
  assumes get_resolves: "get s k = (p, s') \<Longrightarrow> p \<noteq> 0 \<Longrightarrow> resolved s' k p"
    and resolved_get: "resolved s k p \<Longrightarrow> fst (get s k) = p"
    and resolved_frame: "resolved s k p \<Longrightarrow> resolved (snd (get s j)) k p"
begin

fun resolve_all :: "'s \<Rightarrow> 'k list \<Rightarrow> 's" where
  "resolve_all s [] = s"
| "resolve_all s (k # ks) = resolve_all (snd (get s k)) ks"

lemma resolved_resolve_all: "resolved s k p \<Longrightarrow> resolved (resolve_all s ks) k p"
  by (induction ks arbitrary: s) (auto intro: resolved_frame)

lemma resolution_stable:
  "get s k = (p, s') \<Longrightarrow> p \<noteq> 0 \<Longrightarrow> fst (get (resolve_all s' ks) k) = p"
  by (rule resolved_get, rule resolved_resolve_all, rule get_resolves)

end

definition fl_resolved :: "func_loader \<Rightarrow> string \<Rightarrow> ptr \<Rightarrow> bool" where
  "fl_resolved l name p \<longleftrightarrow> p \<noteq> 0 \<and> fl_handle l \<noteq> 0 \<and> fl_registry l name = Some p"

definition reg_resolved :: "func_register \<Rightarrow> string \<times> string \<Rightarrow> ptr \<Rightarrow> bool" where
  "reg_resolved reg k p \<longleftrightarrow> (\<exists>l. reg (fst k) = Some l \<and> fl_resolved l (snd k) p)"

definition register_lookup :: "dl_env \<Rightarrow> func_register \<Rightarrow> string \<times> string \<Rightarrow> ptr \<times> func_register" where
  "register_lookup env reg k = register_Get env reg (fst k) (snd k)"

lemma loader_Get_resolves: "loader_Get env n l = (p, l') \<Longrightarrow> p \<noteq> 0 \<Longrightarrow> fl_resolved l' n p"
  by (auto simp: loader_Get_def fl_resolved_def Let_def split: if_splits option.splits)

lemma loader_Get_cached: "fl_resolved l n p \<Longrightarrow> loader_Get env n l = (p, l)"
  by (auto simp: loader_Get_def fl_resolved_def)

lemma loader_Get_frame: "fl_resolved l n p \<Longrightarrow> fl_resolved (snd (loader_Get env m l)) n p"
  by (auto simp: loader_Get_def fl_resolved_def Let_def split: option.splits)

interpretation origin: symbol_resolver "register_lookup env" reg_resolved for env
proof unfold_locales
  fix s k p s'
  assume "register_lookup env s k = (p, s')" and "p \<noteq> 0"
  then show "reg_resolved s' k p"
    by (auto simp: register_lookup_def register_Get_def reg_resolved_def
        split: option.splits prod.splits dest: loader_Get_resolves)
next
  fix s k p
  assume "reg_resolved s k p"
  then show "fst (register_lookup env s k) = p"
    by (auto simp: register_lookup_def register_Get_def reg_resolved_def loader_Get_cached)
next
  fix s k p j
  assume "reg_resolved s k p"
  then show "reg_resolved (snd (register_lookup env s j)) k p"
    using loader_Get_frame [of _ "snd k" p env "snd j"]
    by (auto simp: register_lookup_def register_Get_def reg_resolved_def case_prod_unfold Let_def
        split: option.splits)
qed

lemma register_Get_unregistered:
  "reg so = Some l \<Longrightarrow> fl_registry l f = None \<Longrightarrow> fst (register_Get env reg so f) = 0"
  by (auto simp: register_Get_def loader_Get_def Let_def split: option.splits prod.splits if_splits)

section \<open>The command object\<close>

text \<open>
  \<open>HijackedFunc\<close>: the virtual \<open>Pre\<close>, \<open>Post\<close> and \<open>EmptyFunc\<close> act on the program state \<open>'s\<close>; the
  original function is absent when its lookup gave \<open>nullptr\<close>.
\<close>

record ('a, 'r, 's) hijacked_func =
  hf_origin :: "('a \<Rightarrow> 's \<Rightarrow> 'r \<times> 's) option"
  hf_Pre :: "'a \<Rightarrow> 's \<Rightarrow> 's"
  hf_Post :: "'r \<Rightarrow> 's \<Rightarrow> 'r \<times> 's"
  hf_Empty :: "'s \<Rightarrow> 'r \<times> 's"

definition hijacked_Call :: "('a, 'r, 's) hijacked_func \<Rightarrow> 'a \<Rightarrow> 's \<Rightarrow> 'r \<times> 's" where
  "hijacked_Call h args s =
     (let s1 = hf_Pre h args s in
      case hf_origin h of
        Some origin \<Rightarrow> (let (ret, s2) = origin args s1 in hf_Post h ret s2)
      | None \<Rightarrow> hf_Empty h s1)"

definition hijacked_OriginCall :: "('a, 'r, 's) hijacked_func \<Rightarrow> 'a \<Rightarrow> 's \<Rightarrow> 'r \<times> 's" where
  "hijacked_OriginCall h args s =
     (case hf_origin h of Some origin \<Rightarrow> origin args s | None \<Rightarrow> hf_Empty h s)"

section \<open>Properties\<close>

text \<open>
  C31: for any tree of calls, the hooks report exactly the runtime calls that no enclosing ACL call
  masks, and the layer stack is the one the tree started with.
\<close>

theorem layer_masking_exact:
  "run_calls cs ls = (unmasked_all ls cs, ls)"
  by (rule run_calls_unmasked)

text \<open>
  a function pointer that was resolved once is the pointer every later lookup returns, whichever
  other symbols are resolved in between.
\<close>

lemma origin_lookup_stable:
  assumes "register_Get env reg so f = (p, reg')" and "p \<noteq> 0"
  shows "fst (register_Get env
           (foldl (\<lambda>r (so', f'). snd (register_Get env r so' f')) reg' ks) so f) = p"
proof -
  have "foldl (\<lambda>r (so', f'). snd (register_Get env r so' f')) reg' ks =
          origin.resolve_all env reg' ks"
    by (induction ks arbitrary: reg') (auto simp: register_lookup_def case_prod_unfold)
  with assms show ?thesis
    using origin.resolution_stable [of env reg "(so, f)" p reg' ks]
    by (simp add: register_lookup_def)
qed

definition demo_env :: dl_env where
  "demo_env = \<lparr>so_valid = (\<lambda>_. True), dlopen = (\<lambda>_. 7), dlsym = (\<lambda>h n. if n = ''rtMalloc'' then 42 else 0)\<rparr>"

definition demo_register :: func_register where
  "demo_register = Register_function ''runtime'' ''rtMalloc''
     (Register_library ''runtime'' (mk_loader ''runtime'') Map.empty)"

end
