(* ===== verification/Protocol.thy ===== *)
theory Protocol
  imports Prelude
begin

text \<open>
  The wire protocol of \<open>csrc/utils/Protocol.h\<close> (the part that carries host memory records), the object
  serialisation of \<open>csrc/utils/Serialize.h\<close> and the alignment helpers of \<open>csrc/utils/Numeric.h\<close>.
  An object is its bytes in the layout of the 64-bit little-endian ABI: fields at their natural
  alignment, padding of a value-initialised object zero.
\<close>

section \<open>Alignment\<close>

text \<open>\<open>CeilByAlignSize\<close> takes and returns a 32-bit value, whatever the width of its argument was.\<close>

definition CeilByAlignSize :: "u32 \<Rightarrow> u32 \<Rightarrow> u32" where
  "CeilByAlignSize alignSize v = ((v + alignSize - 1) div alignSize) * alignSize"

definition AlignDownSize :: "u32 \<Rightarrow> 'a::len word \<Rightarrow> 'a word" where
  "AlignDownSize alignSize val = val - (val mod ucast alignSize)"

lemma CeilByAlignSize_nat:
  assumes "alignSize \<noteq> 0" and "unat v + unat alignSize \<le> 2 ^ 32"
  shows "unat (CeilByAlignSize alignSize v) =
           (unat v + unat alignSize - 1) div unat alignSize * unat alignSize"
proof -
  let ?a = "unat alignSize" and ?v = "unat v"
  have a: "0 < ?a" using assms(1) by (simp add: unat_gt_0)
  have s: "unat (v + alignSize - 1) = ?v + ?a - 1"
  proof (cases "?v + ?a = 2 ^ 32")
    case True
    then have z: "v + alignSize = 0" by (simp flip: unat_eq_zero add: unat_word_ariths)
    have "v + alignSize - 1 = (-1 :: u32)" by (simp only: z) simp
    moreover have "unat (-1 :: u32) = 4294967295"
      by (simp add: unsigned_minus_1_eq_mask mask_eq_exp_minus_1)
    ultimately show ?thesis using True by simp
  next
    case False
    with assms(2) have "unat (v + alignSize) = ?v + ?a"
      by (simp add: unat_word_ariths)
    moreover have "1 \<le> v + alignSize" using calculation a by (simp add: word_le_nat_alt)
    ultimately show ?thesis by (simp add: unat_sub)
  qed
  have "(?v + ?a - 1) div ?a * ?a \<le> ?v + ?a - 1"
    by (rule div_times_less_eq_dividend)
  then have "(?v + ?a - 1) div ?a * ?a < 2 ^ 32" using assms(2) a by linarith
  moreover have "(?v + ?a - 1) div ?a < 2 ^ 32"
    using a assms(2) div_le_dividend [of "?v + ?a - 1" ?a] by linarith
  ultimately show ?thesis
    by (simp add: CeilByAlignSize_def unat_word_ariths unat_div s [simplified])
qed

section \<open>Enumerations\<close>

datatype MemOpType = MALLOC | FREE | MEMCPY_BLOCKS | LOAD | STORE | INVALID_OP

datatype MemInfoSrc = BYPASS | HAL | RT | ACL | EXTRA | MANUAL | MSTX_HEAP | MSTX_REGION

datatype MemInfoDesc =
  DEFAULT | INPUT | TILING | DOUBLE_PTR | HCCL_MC2_CONTEXT | SECTION | IPC_MEMORY
  | OVERFLOW_ADDR | PARA_BASE

datatype PacketType =
  DEVICE_SUMMARY | KERNEL_SUMMARY | KERNEL_BINARY | LOG_STRING
  | MEMORY_RECORD | KERNEL_RECORD | IPC_RECORD | MEM_REGION_PERMISSION
  | TEXT | IPC_RESPONSE | KERNEL_RECORD_RESPONSE | INVALID_PACKET

primrec MemOpType_code :: "MemOpType \<Rightarrow> nat" where
  "MemOpType_code MALLOC = 0" | "MemOpType_code FREE = 1" | "MemOpType_code MEMCPY_BLOCKS = 2"
| "MemOpType_code LOAD = 3" | "MemOpType_code STORE = 4" | "MemOpType_code INVALID_OP = 5"

primrec MemInfoSrc_code :: "MemInfoSrc \<Rightarrow> nat" where
  "MemInfoSrc_code BYPASS = 0" | "MemInfoSrc_code HAL = 1" | "MemInfoSrc_code RT = 2"
| "MemInfoSrc_code ACL = 3" | "MemInfoSrc_code EXTRA = 4" | "MemInfoSrc_code MANUAL = 5"
| "MemInfoSrc_code MSTX_HEAP = 6" | "MemInfoSrc_code MSTX_REGION = 7"

primrec MemInfoDesc_code :: "MemInfoDesc \<Rightarrow> nat" where
  "MemInfoDesc_code DEFAULT = 0" | "MemInfoDesc_code INPUT = 1" | "MemInfoDesc_code TILING = 2"
| "MemInfoDesc_code DOUBLE_PTR = 3" | "MemInfoDesc_code HCCL_MC2_CONTEXT = 4"
| "MemInfoDesc_code SECTION = 5" | "MemInfoDesc_code IPC_MEMORY = 6"
| "MemInfoDesc_code OVERFLOW_ADDR = 7" | "MemInfoDesc_code PARA_BASE = 8"

primrec PacketType_code :: "PacketType \<Rightarrow> nat" where
  "PacketType_code DEVICE_SUMMARY = 0" | "PacketType_code KERNEL_SUMMARY = 1"
| "PacketType_code KERNEL_BINARY = 2" | "PacketType_code LOG_STRING = 3"
| "PacketType_code MEMORY_RECORD = 1000" | "PacketType_code KERNEL_RECORD = 1001"
| "PacketType_code IPC_RECORD = 1002" | "PacketType_code MEM_REGION_PERMISSION = 1003"
| "PacketType_code TEXT = 2000" | "PacketType_code IPC_RESPONSE = 3000"
| "PacketType_code KERNEL_RECORD_RESPONSE = 3001" | "PacketType_code INVALID_PACKET = 0xFFFFFFFF"

lemma MemInfoSrc_code_inj [simp]: "MemInfoSrc_code a = MemInfoSrc_code b \<longleftrightarrow> a = b"
  by (cases a; cases b) simp_all

lemma MemInfoDesc_code_inj [simp]: "MemInfoDesc_code a = MemInfoDesc_code b \<longleftrightarrow> a = b"
  by (cases a; cases b) simp_all

lemma MemOpType_code_inj [simp]: "MemOpType_code a = MemOpType_code b \<longleftrightarrow> a = b"
  by (cases a; cases b) simp_all

lemma PacketType_code_inj [simp]: "PacketType_code a = PacketType_code b \<longleftrightarrow> a = b"
  by (cases a; cases b) simp_all

lemma MemInfoSrc_code_bound: "MemInfoSrc_code a < 256 ^ 1"
  by (cases a) simp_all

lemma MemInfoDesc_code_bound: "MemInfoDesc_code a < 256 ^ 1"
  by (cases a) simp_all

lemma MemOpType_code_bound: "MemOpType_code a < 256 ^ 4"
  by (cases a) simp_all

lemma PacketType_code_bound: "PacketType_code a < 256 ^ 4"
  by (cases a) simp_all

lemmas enum_code_bounds =
  MemInfoSrc_code_bound MemInfoDesc_code_bound MemOpType_code_bound PacketType_code_bound

text \<open>Sources are ordered by their enumeration value, as the \<open>static_cast<uint8_t>\<close> comparisons are.\<close>

instantiation MemInfoSrc :: linorder
begin

definition less_eq_MemInfoSrc :: "MemInfoSrc \<Rightarrow> MemInfoSrc \<Rightarrow> bool" where
  "less_eq_MemInfoSrc a b \<longleftrightarrow> MemInfoSrc_code a \<le> MemInfoSrc_code b"

definition less_MemInfoSrc :: "MemInfoSrc \<Rightarrow> MemInfoSrc \<Rightarrow> bool" where
  "less_MemInfoSrc a b \<longleftrightarrow> MemInfoSrc_code a < MemInfoSrc_code b"

instance
  by standard (auto simp: less_eq_MemInfoSrc_def less_MemInfoSrc_def)

end

section \<open>Payloads\<close>

record HostMemRecord =
  hr_type :: MemOpType
  hr_infoSrc :: MemInfoSrc
  hr_infoDesc :: MemInfoDesc
  hr_srcAddr :: u64
  hr_dstAddr :: u64
  hr_memSize :: u64
  hr_paramsNo :: u64
  hr_rootAddr :: u64

definition empty_record :: HostMemRecord where
  "empty_record =
     \<lparr>hr_type = MALLOC, hr_infoSrc = BYPASS, hr_infoDesc = DEFAULT, hr_srcAddr = 0,
      hr_dstAddr = 0, hr_memSize = 0, hr_paramsNo = 0, hr_rootAddr = 0\<rparr>"

record HostMemoryInfo =
  hm_addr :: u64
  hm_size :: u64

definition HostMemoryInfo_less :: "HostMemoryInfo \<Rightarrow> HostMemoryInfo \<Rightarrow> bool" where
  "HostMemoryInfo_less a b =
     (if hm_addr a \<noteq> hm_addr b then hm_addr a < hm_addr b else hm_size a < hm_size b)"

interpretation hm_order: strict_weak_order HostMemoryInfo_less
  by unfold_locales (auto simp: HostMemoryInfo_less_def split: if_splits)

section \<open>Serialisation\<close>

definition PacketHead_bytes :: "PacketType \<Rightarrow> u8 list" where
  "PacketHead_bytes t = le_bytes 4 (PacketType_code t)"

definition HostMemRecord_bytes :: "HostMemRecord \<Rightarrow> u8 list" where
  "HostMemRecord_bytes r =
     le_bytes 4 (MemOpType_code (hr_type r)) @ le_bytes 1 (MemInfoSrc_code (hr_infoSrc r)) @
     le_bytes 1 (MemInfoDesc_code (hr_infoDesc r)) @ [0, 0] @
     le_bytes 8 (unat (hr_srcAddr r)) @ le_bytes 8 (unat (hr_dstAddr r)) @
     le_bytes 8 (unat (hr_memSize r)) @ le_bytes 8 (unat (hr_paramsNo r)) @
     le_bytes 8 (unat (hr_rootAddr r))"

text \<open>\<open>Serialize(v, vs...)\<close> is the concatenation of the object bytes of its arguments.\<close>

definition Serialize :: "u8 list list \<Rightarrow> u8 list" where
  "Serialize objs = concat objs"

text \<open>\<open>Deserialize\<close> overwrites the object, or leaves it alone when the message is too short.\<close>

definition Deserialize :: "u8 list \<Rightarrow> u8 list \<Rightarrow> bool \<times> u8 list" where
  "Deserialize msg val =
     (let size = length val in if length msg < size then (False, val) else (True, take size msg))"

lemma length_HostMemRecord_bytes [simp]: "length (HostMemRecord_bytes r) = 48"
  by (simp add: HostMemRecord_bytes_def)

lemma length_PacketHead_bytes [simp]: "length (PacketHead_bytes t) = 4"
  by (simp add: PacketHead_bytes_def)

lemma le_bytes_inj:
  "le_bytes n a = le_bytes n b \<Longrightarrow> a < 256 ^ n \<Longrightarrow> b < 256 ^ n \<Longrightarrow> a = b"
  by (metis le_val_le_bytes mod_less)

lemma le_bytes_u64_inj: "le_bytes 8 (unat (a :: u64)) = le_bytes 8 (unat b) \<longleftrightarrow> a = b"
proof
  have bound: "unat x < 256 ^ 8" for x :: u64
    using unsigned_less [of x] by simp
  assume "le_bytes 8 (unat a) = le_bytes 8 (unat b)"
  then have "unat a = unat b" by (rule le_bytes_inj [OF _ bound bound])
  then show "a = b" by (simp add: word_unat_eq_iff)
qed simp

lemma le_bytes_enum_inj:
  "le_bytes 4 (MemOpType_code m) = le_bytes 4 (MemOpType_code m') \<longleftrightarrow> m = m'"
  "le_bytes 1 (MemInfoSrc_code s) = le_bytes 1 (MemInfoSrc_code s') \<longleftrightarrow> s = s'"
  "le_bytes 1 (MemInfoDesc_code d) = le_bytes 1 (MemInfoDesc_code d') \<longleftrightarrow> d = d'"
  "le_bytes 4 (PacketType_code p) = le_bytes 4 (PacketType_code p') \<longleftrightarrow> p = p'"
  using le_bytes_inj enum_code_bounds
  by (metis MemOpType_code_inj, metis MemInfoSrc_code_inj, metis MemInfoDesc_code_inj,
      metis PacketType_code_inj)

lemma HostMemRecord_bytes_inj: "HostMemRecord_bytes a = HostMemRecord_bytes b \<longleftrightarrow> a = b"
  by (cases a; cases b)
    (simp only: HostMemRecord_bytes_def append_eq_append_conv length_le_bytes le_bytes_u64_inj
      le_bytes_enum_inj append_same_eq same_append_eq HostMemRecord.simps HostMemRecord.ext_inject simp_thms)

end
