(* ===== verification/ElfLoader.thy ===== *)
theory ElfLoader
  imports Ustring
begin

text \<open>
  The ELF reader of \<open>csrc/utils/ElfLoader.{h,cpp}\<close> on 64-bit little-endian images. Sizes and offsets are
  64-bit and wrap; a read that passes the code's own bound test but leaves the buffer (undefined
  behaviour in C++) is the value \<open>OutOfBounds\<close>, so that its absence can be stated.
\<close>

section \<open>Headers\<close>

record Elf64_Ehdr =
  e_ident :: "u8 list"
  e_type :: u16
  e_machine :: u16
  e_version :: u32
  e_entry :: u64
  e_phoff :: u64
  e_shoff :: u64
  e_flags :: u32
  e_ehsize :: u16
  e_phentsize :: u16
  e_phnum :: u16
  e_shentsize :: u16
  e_shnum :: u16
  e_shstrndx :: u16

record Elf64_Shdr =
  sh_name :: u32
  sh_type :: u32
  sh_flags :: u64
  sh_addr :: u64
  sh_offset :: u64
  sh_size :: u64
  sh_link :: u32
  sh_info :: u32
  sh_addralign :: u64
  sh_entsize :: u64

definition Ehdr_of_bytes :: "u8 list \<Rightarrow> Elf64_Ehdr" where
  "Ehdr_of_bytes bs =
     \<lparr>e_ident = take 16 bs, e_type = field 2 16 bs, e_machine = field 2 18 bs, e_version = field 4 20 bs,
      e_entry = field 8 24 bs, e_phoff = field 8 32 bs, e_shoff = field 8 40 bs, e_flags = field 4 48 bs,
      e_ehsize = field 2 52 bs, e_phentsize = field 2 54 bs, e_phnum = field 2 56 bs,
      e_shentsize = field 2 58 bs, e_shnum = field 2 60 bs, e_shstrndx = field 2 62 bs\<rparr>"

definition Ehdr_bytes :: "Elf64_Ehdr \<Rightarrow> u8 list" where
  "Ehdr_bytes h =
     e_ident h @ le_bytes 2 (unat (e_type h)) @ le_bytes 2 (unat (e_machine h)) @
     le_bytes 4 (unat (e_version h)) @ le_bytes 8 (unat (e_entry h)) @ le_bytes 8 (unat (e_phoff h)) @
     le_bytes 8 (unat (e_shoff h)) @ le_bytes 4 (unat (e_flags h)) @ le_bytes 2 (unat (e_ehsize h)) @
     le_bytes 2 (unat (e_phentsize h)) @ le_bytes 2 (unat (e_phnum h)) @ le_bytes 2 (unat (e_shentsize h)) @
     le_bytes 2 (unat (e_shnum h)) @ le_bytes 2 (unat (e_shstrndx h))"

definition Shdr_of_bytes :: "u8 list \<Rightarrow> Elf64_Shdr" where
  "Shdr_of_bytes bs =
     \<lparr>sh_name = field 4 0 bs, sh_type = field 4 4 bs, sh_flags = field 8 8 bs, sh_addr = field 8 16 bs,
      sh_offset = field 8 24 bs, sh_size = field 8 32 bs, sh_link = field 4 40 bs, sh_info = field 4 44 bs,
      sh_addralign = field 8 48 bs, sh_entsize = field 8 56 bs\<rparr>"

definition Shdr_bytes :: "Elf64_Shdr \<Rightarrow> u8 list" where
  "Shdr_bytes h =
     le_bytes 4 (unat (sh_name h)) @ le_bytes 4 (unat (sh_type h)) @ le_bytes 8 (unat (sh_flags h)) @
     le_bytes 8 (unat (sh_addr h)) @ le_bytes 8 (unat (sh_offset h)) @ le_bytes 8 (unat (sh_size h)) @
     le_bytes 4 (unat (sh_link h)) @ le_bytes 4 (unat (sh_info h)) @ le_bytes 8 (unat (sh_addralign h)) @
     le_bytes 8 (unat (sh_entsize h))"

lemma length_Shdr_bytes [simp]: "length (Shdr_bytes h) = 64"
  by (simp add: Shdr_bytes_def)

lemma length_Ehdr_bytes [simp]: "length (e_ident h) = 16 \<Longrightarrow> length (Ehdr_bytes h) = 64"
  by (simp add: Ehdr_bytes_def)

lemma Shdr_of_Shdr_bytes [simp]: "Shdr_of_bytes (Shdr_bytes h) = h"
  by (cases h) (simp add: Shdr_of_bytes_def Shdr_bytes_def field_def)

lemma Ehdr_of_Ehdr_bytes [simp]: "length (e_ident h) = 16 \<Longrightarrow> Ehdr_of_bytes (Ehdr_bytes h) = h"
  by (cases h) (simp add: Ehdr_of_bytes_def Ehdr_bytes_def field_def)

section \<open>Bounded reads\<close>

datatype elf_error = Rejected | OutOfBounds

abbreviation vsize :: "'a list \<Rightarrow> u64" where
  "vsize xs \<equiv> word_of_nat (length xs)"

text \<open>\<open>std::copy\<close> from \<open>data() + offset\<close>.\<close>

definition copy_from :: "u8 list \<Rightarrow> u64 \<Rightarrow> u64 \<Rightarrow> elf_error + u8 list" where
  "copy_from buffer offset len =
     (if unat offset + unat len \<le> length buffer
      then Inr (take (unat len) (drop (unat offset) buffer))
      else Inl OutOfBounds)"

definition ReadValueFromBuffer :: "u8 list \<Rightarrow> u64 \<Rightarrow> u64 \<Rightarrow> elf_error + u8 list" where
  "ReadValueFromBuffer buffer offset sizeofT =
     (if vsize buffer < offset + sizeofT then Inl Rejected else copy_from buffer offset sizeofT)"

definition ReadArrayFromBuffer :: "u8 list \<Rightarrow> u64 \<Rightarrow> u64 \<Rightarrow> u64 \<Rightarrow> elf_error + u8 list" where
  "ReadArrayFromBuffer buffer offset count sizeofT =
     (if vsize buffer < offset + count * sizeofT then Inl Rejected
      else copy_from buffer offset (count * sizeofT))"

lemma read_no_wrap:
  assumes "length buffer < 2 ^ 64" and "no_wrap offset n"
  shows "(if vsize buffer < offset + n then Inl Rejected else copy_from buffer offset n) =
         (if length buffer < unat offset + unat n then Inl Rejected
          else Inr (take (unat n) (drop (unat offset) buffer)))"
proof -
  have "unat (vsize buffer) = length buffer" using assms(1) by (simp add: unat_of_nat)
  then show ?thesis
    using unat_add_no_wrap [OF assms(2)] by (simp add: copy_from_def word_less_nat_alt)
qed

lemmas ReadValue_no_wrap = read_no_wrap [folded ReadValueFromBuffer_def]

lemma ReadArray_bytes: "ReadArrayFromBuffer buffer offset n 1 = ReadValueFromBuffer buffer offset n"
  by (simp add: ReadArrayFromBuffer_def ReadValueFromBuffer_def)

section \<open>Validation\<close>

definition ValidateElfHeader :: "Elf64_Ehdr \<Rightarrow> bool" where
  "ValidateElfHeader h =
     (if e_ident h ! 0 \<noteq> 0x7F \<or> e_ident h ! 1 \<noteq> 0x45 \<or> e_ident h ! 2 \<noteq> 0x4C \<or> e_ident h ! 3 \<noteq> 0x46
      then False
      else if e_ident h ! 4 \<noteq> 2 then False
      else if e_ident h ! 5 \<noteq> 1 then False
      else if e_shnum h \<le> e_shstrndx h then False
      else True)"

text \<open>
  The 16-bit fields are promoted before the comparison; \<open>e_shnum - 1\<close> is an \<open>int\<close>, so for zero
  sections it is \<open>-1\<close> and becomes the largest \<open>size_t\<close>.
\<close>

definition ValidateElfHeaderSafety :: "Elf64_Ehdr \<Rightarrow> u64 \<Rightarrow> bool" where
  "ValidateElfHeaderSafety h maxSafeSize =
     (if maxSafeSize < ucast (e_ehsize h) \<or> maxSafeSize < ucast (e_phentsize h)
         \<or> maxSafeSize < ucast (e_phnum h) \<or> maxSafeSize < ucast (e_shentsize h)
         \<or> maxSafeSize < ucast (e_shnum h) \<or> maxSafeSize < ucast (e_shstrndx h) then False
      else if maxSafeSize < e_shoff h + (ucast (e_shnum h) - 1) * ucast (e_shentsize h) then False
      else True)"

section \<open>Loading\<close>

type_synonym sections = "(string \<times> Elf64_Shdr) list"

text \<open>A C string that starts at \<open>off\<close>; it must end inside the vector.\<close>

definition c_string_at :: "u8 list \<Rightarrow> nat \<Rightarrow> elf_error + string" where
  "c_string_at bs off =
     (if off < length bs \<and> 0 \<in> set (drop off bs)
      then Inr (str_of_bytes (takeWhile (\<lambda>b. b \<noteq> 0) (drop off bs)))
      else Inl OutOfBounds)"

function load_sections ::
  "u8 list \<Rightarrow> Elf64_Ehdr \<Rightarrow> u8 list \<Rightarrow> nat \<Rightarrow> sections \<Rightarrow> elf_error + sections" where
  "load_sections buffer h names idx secs =
     (if idx < unat (e_shnum h) then
        (case ReadValueFromBuffer buffer (e_shoff h + word_of_nat idx * ucast (e_shentsize h)) 64 of
           Inl e \<Rightarrow> Inl e
         | Inr bs \<Rightarrow>
             (let sh = Shdr_of_bytes bs
              in case c_string_at names (unat (sh_name sh)) of
                   Inl e \<Rightarrow> Inl e
                 | Inr name \<Rightarrow> load_sections buffer h names (Suc idx) (omap_put name sh secs)))
      else Inr secs)"
  by pat_completeness auto
termination
  by (relation "measure (\<lambda>(b, h, n, i, s). unat (e_shnum h) - i)") auto

declare load_sections.simps [simp del]

definition LoadHeader :: "u8 list \<Rightarrow> elf_error + Elf64_Ehdr" where
  "LoadHeader buffer =
     (case ReadValueFromBuffer buffer 0 64 of Inl e \<Rightarrow> Inl e | Inr bs \<Rightarrow> Inr (Ehdr_of_bytes bs))"

definition FromBuffer :: "u8 list \<Rightarrow> elf_error + sections" where
  "FromBuffer buffer =
     (if buffer = [] then Inl Rejected
      else case LoadHeader buffer of
        Inl e \<Rightarrow> Inl e
      | Inr h \<Rightarrow>
          if \<not> ValidateElfHeader h then Inl Rejected
          else if \<not> ValidateElfHeaderSafety h (vsize buffer) then Inl Rejected
          else case ReadValueFromBuffer buffer (e_shoff h + ucast (e_shstrndx h) * ucast (e_shentsize h)) 64 of
            Inl e \<Rightarrow> Inl e
          | Inr bs \<Rightarrow>
              (let nameSec = Shdr_of_bytes bs
               in case ReadArrayFromBuffer buffer (sh_offset nameSec) (sh_size nameSec) 1 of
                    Inl e \<Rightarrow> Inl e
                  | Inr names \<Rightarrow> load_sections buffer h names 0 []))"

definition ReadRawData :: "sections \<Rightarrow> u8 list \<Rightarrow> string \<Rightarrow> elf_error + u8 list" where
  "ReadRawData secs buffer name =
     (case map_of secs name of
        None \<Rightarrow> Inr []
      | Some sh \<Rightarrow>
          (case ReadArrayFromBuffer buffer (sh_offset sh) (sh_size sh) 1 of
             Inl Rejected \<Rightarrow> Inr []
           | r \<Rightarrow> r))"

definition ReadStringTable :: "sections \<Rightarrow> u8 list \<Rightarrow> string \<Rightarrow> elf_error + string list" where
  "ReadStringTable secs buffer name =
     (case map_of secs name of
        None \<Rightarrow> Inr []
      | Some sh \<Rightarrow>
          if sh_offset sh < vsize buffer \<and> buffer ! unat (sh_offset sh) \<noteq> 0 then Inr []
          else if \<not> (sh_size sh > 2 \<and> vsize buffer - sh_offset sh > 2) then Inr []
          else case copy_from buffer (sh_offset sh + 1)
                      (min (sh_size sh - 2) (vsize buffer - sh_offset sh - 2)) of
            Inl e \<Rightarrow> Inl e
          | Inr bs \<Rightarrow> Inr (SplitString (str_of_bytes bs) CHR 0x00))"

text \<open>\<open>GetAllocSectionHeaders\<close>: the sections that occupy memory at run time, in name order.\<close>

definition GetAllocSectionHeaders :: "sections \<Rightarrow> Elf64_Shdr list" where
  "GetAllocSectionHeaders headers =
     filter (\<lambda>h. sh_flags h AND 2 > 0 \<and> sh_size h > 0) (map snd headers)"

section \<open>Which reads can leave the buffer\<close>

lemma copy_from_not_rejected [simp]: "copy_from b off n \<noteq> Inl Rejected"
  by (simp add: copy_from_def)

lemma ReadValue_safe:
  "length buffer < 2 ^ 64 \<Longrightarrow> no_wrap offset n \<Longrightarrow> ReadValueFromBuffer buffer offset n \<noteq> Inl OutOfBounds"
  by (simp add: ReadValue_no_wrap)

text \<open>Two values below \<open>2 ^ 63\<close> and a 16-bit by 16-bit product do not reach \<open>2 ^ 64\<close>.\<close>

definition section_offset :: "Elf64_Ehdr \<Rightarrow> nat \<Rightarrow> u64" where
  "section_offset h idx = e_shoff h + word_of_nat idx * ucast (e_shentsize h)"

lemma unat_ucast_u16: "unat (ucast (x :: u16) :: u64) = unat x"
proof -
  have "unat x < 65536" using unsigned_less [of x] by simp
  then show ?thesis by (simp add: unsigned_ucast_eq take_bit_eq_mod)
qed

lemma section_offset_strndx:
  "e_shoff h + ucast (e_shstrndx h) * ucast (e_shentsize h) = section_offset h (unat (e_shstrndx h))"
  by (simp add: section_offset_def)

lemma section_offset_nat:
  assumes "unat (e_shoff h) < 2 ^ 63" and "idx < 2 ^ 16"
  shows "unat (section_offset h idx) = unat (e_shoff h) + idx * unat (e_shentsize h)"
    and "no_wrap (section_offset h idx) 64"
proof -
  have e: "unat (e_shentsize h) < 2 ^ 16" using unsigned_less [of "e_shentsize h"] by simp
  have m: "idx * unat (e_shentsize h) \<le> 2 ^ 16 * 2 ^ 16"
    using assms(2) e by (intro mult_le_mono) simp_all
  have "unat (word_of_nat idx :: u64) = idx" using assms(2) by (simp add: unat_of_nat)
  then have "unat (word_of_nat idx * ucast (e_shentsize h) :: u64) = idx * unat (e_shentsize h)"
    using m by (simp add: unat_word_ariths unat_ucast_u16)
  then show n: "unat (section_offset h idx) = unat (e_shoff h) + idx * unat (e_shentsize h)"
    using assms(1) m by (simp add: section_offset_def unat_word_ariths)
  show "no_wrap (section_offset h idx) 64" using n assms(1) m by (simp add: no_wrap_def)
qed

lemma load_sections_safe:
  assumes "length buffer < 2 ^ 64" and "unat (e_shoff h) < 2 ^ 63"
    and "load_sections buffer h names idx secs = Inl OutOfBounds"
  shows "\<exists>i bs. i < unat (e_shnum h) \<and> ReadValueFromBuffer buffer (section_offset h i) 64 = Inr bs \<and>
                 c_string_at names (unat (sh_name (Shdr_of_bytes bs))) = Inl OutOfBounds"
  using assms
proof (induction buffer h names idx secs rule: load_sections.induct)
  case (1 buffer h names idx secs)
  show ?case
  proof (cases "idx < unat (e_shnum h)")
    case False
    with 1 show ?thesis by (simp add: load_sections.simps [of buffer h names idx])
  next
    case True
    have "unat (e_shnum h) < 2 ^ 16" using unsigned_less [of "e_shnum h"] by simp
    with True have i: "idx < 2 ^ 16" by simp
    have "ReadValueFromBuffer buffer (section_offset h idx) 64 \<noteq> Inl OutOfBounds"
      using 1 i by (intro ReadValue_safe section_offset_nat)
    moreover have "load_sections buffer h names idx secs =
        (case ReadValueFromBuffer buffer (section_offset h idx) 64 of
           Inl e \<Rightarrow> Inl e
         | Inr bs \<Rightarrow>
             (case c_string_at names (unat (sh_name (Shdr_of_bytes bs))) of
                Inl e \<Rightarrow> Inl e
              | Inr name \<Rightarrow> load_sections buffer h names (Suc idx) (omap_put name (Shdr_of_bytes bs) secs)))"
      using True unfolding section_offset_def Let_def by (subst load_sections.simps) (simp only: if_True Let_def)
    ultimately obtain bs where b: "ReadValueFromBuffer buffer (section_offset h idx) 64 = Inr bs"
      and c: "(case c_string_at names (unat (sh_name (Shdr_of_bytes bs))) of Inl e \<Rightarrow> Inl e
        | Inr name \<Rightarrow> load_sections buffer h names (Suc idx) (omap_put name (Shdr_of_bytes bs) secs)) = Inl OutOfBounds"
      using 1 by (cases "ReadValueFromBuffer buffer (section_offset h idx) 64") auto
    show ?thesis
    proof (cases "c_string_at names (unat (sh_name (Shdr_of_bytes bs)))")
      case (Inl e)
      with b c True show ?thesis by auto
    next
      case (Inr name)
      with c have "load_sections buffer h names (Suc idx) (omap_put name (Shdr_of_bytes bs) secs) = Inl OutOfBounds"
        by simp
      then show ?thesis
        by (rule "1.IH" [OF True b [unfolded section_offset_def] refl Inr "1.prems"(1,2)])
    qed
  qed
qed

lemma FromBuffer_safe:
  assumes len: "length buffer < 2 ^ 64" and hdr: "LoadHeader buffer = Inr h" and off: "unat (e_shoff h) < 2 ^ 63"
    and names: "\<And>bs. ReadValueFromBuffer buffer (section_offset h (unat (e_shstrndx h))) 64 = Inr bs \<Longrightarrow>
                  no_wrap (sh_offset (Shdr_of_bytes bs)) (sh_size (Shdr_of_bytes bs))"
    and oob: "FromBuffer buffer = Inl OutOfBounds"
  shows "\<exists>table i bs. i < unat (e_shnum h) \<and> ReadValueFromBuffer buffer (section_offset h i) 64 = Inr bs \<and>
           c_string_at table (unat (sh_name (Shdr_of_bytes bs))) = Inl OutOfBounds"
proof -
  have "unat (e_shstrndx h) < 2 ^ 16" using unsigned_less [of "e_shstrndx h"] by simp
  then have r: "ReadValueFromBuffer buffer (section_offset h (unat (e_shstrndx h))) 64 \<noteq> Inl OutOfBounds"
    using len off by (intro ReadValue_safe section_offset_nat)
  obtain bs where b: "ReadValueFromBuffer buffer (section_offset h (unat (e_shstrndx h))) 64 = Inr bs"
    and rest: "(case ReadValueFromBuffer buffer (sh_offset (Shdr_of_bytes bs)) (sh_size (Shdr_of_bytes bs)) of
        Inl e \<Rightarrow> Inl e | Inr ns \<Rightarrow> load_sections buffer h ns 0 []) = Inl OutOfBounds"
    using oob hdr r unfolding FromBuffer_def section_offset_strndx ReadArray_bytes Let_def
    by (cases "ReadValueFromBuffer buffer (section_offset h (unat (e_shstrndx h))) 64")
      (auto split: if_splits)
  have "ReadValueFromBuffer buffer (sh_offset (Shdr_of_bytes bs)) (sh_size (Shdr_of_bytes bs)) \<noteq> Inl OutOfBounds"
    using ReadValue_safe [OF len names [OF b]] .
  then obtain ns where "load_sections buffer h ns 0 [] = Inl OutOfBounds"
    using rest by (auto split: sum.splits)
  with load_sections_safe [OF len off] show ?thesis by blast
qed

section \<open>Loading a well-formed image\<close>

text \<open>Section \<open>i\<close> of the table decodes to \<open>fst (tab ! i)\<close> with the name \<open>snd (tab ! i)\<close>.\<close>

definition section_at :: "u8 list \<Rightarrow> Elf64_Ehdr \<Rightarrow> u8 list \<Rightarrow> nat \<Rightarrow> Elf64_Shdr \<Rightarrow> string \<Rightarrow> bool" where
  "section_at buffer h names i sh name \<longleftrightarrow>
     unat (section_offset h i) + 64 \<le> length buffer \<and>
     take 64 (drop (unat (section_offset h i)) buffer) = Shdr_bytes sh \<and>
     c_string_at names (unat (sh_name sh)) = Inr name"

lemma ReadValue_section:
  assumes "length buffer < 2 ^ 64" and "unat (e_shoff h) < 2 ^ 63" and "i < 2 ^ 16"
    and "unat (section_offset h i) + 64 \<le> length buffer"
  shows "ReadValueFromBuffer buffer (section_offset h i) 64 =
           Inr (take 64 (drop (unat (section_offset h i)) buffer))"
  using ReadValue_no_wrap [OF assms(1) section_offset_nat(2) [OF assms(2,3)]] assms(4) by simp

lemma load_sections_exact:
  assumes "length buffer < 2 ^ 64" and "unat (e_shoff h) < 2 ^ 63" and "length tab = unat (e_shnum h)"
    and "\<forall>i < length tab. section_at buffer h names i (snd (tab ! i)) (fst (tab ! i))"
  shows "idx \<le> length tab \<Longrightarrow>
         load_sections buffer h names idx secs = Inr (fold (\<lambda>(n, sh). omap_put n sh) (drop idx tab) secs)"
proof (induction "length tab - idx" arbitrary: idx secs)
  case 0
  then show ?case using assms(3) by (subst load_sections.simps) simp
next
  case (Suc k)
  then have i: "idx < length tab" by simp
  have "unat (e_shnum h) < 2 ^ 16" using unsigned_less [of "e_shnum h"] by simp
  then have "idx < 2 ^ 16" using i assms(3) by simp
  from ReadValue_section [OF assms(1,2) this] assms(4) i
  have "ReadValueFromBuffer buffer (section_offset h idx) 64 = Inr (Shdr_bytes (snd (tab ! idx)))"
    and "c_string_at names (unat (sh_name (snd (tab ! idx)))) = Inr (fst (tab ! idx))"
    by (auto simp: section_at_def)
  moreover have "drop idx tab = tab ! idx # drop (Suc idx) tab" using i by (simp add: Cons_nth_drop_Suc)
  moreover have "load_sections buffer h names (Suc idx) s =
      Inr (fold (\<lambda>(n, sh). omap_put n sh) (drop (Suc idx) tab) s)" for s
    using Suc by simp
  ultimately show ?case
    using i assms(3)
    by (subst load_sections.simps) (simp add: section_offset_def Let_def case_prod_unfold)
qed

lemma fold_omap_put:
  "sorted_wrt (<) (map fst m) \<Longrightarrow>
   sorted_wrt (<) (map fst (fold (\<lambda>(k, v). omap_put k v) ps m)) \<and>
   map_of (fold (\<lambda>(k, v). omap_put k v) ps m) = map_of m ++ map_of (rev ps)"
proof (induction ps arbitrary: m)
  case Nil
  then show ?case by simp
next
  case (Cons p ps)
  obtain k v where p: "p = (k, v)" by (cases p)
  have "(map_of m)(k \<mapsto> v) ++ map_of (rev ps) = map_of m ++ (map_of (rev ps @ [(k, v)]))"
    by (rule ext) (simp add: map_add_def split: option.split)
  with Cons p show ?case
    using omap_put_sorted [of m k v] by (simp add: map_of_omap_put fun_upd_def)
qed

text \<open>An image is well formed when its table, its name section and all its names lie inside it.\<close>

definition elf_image :: "u8 list \<Rightarrow> Elf64_Ehdr \<Rightarrow> (string \<times> Elf64_Shdr) list \<Rightarrow> u8 list \<Rightarrow> bool" where
  "elf_image buffer h tab names \<longleftrightarrow>
     length buffer < 2 ^ 63 \<and> LoadHeader buffer = Inr h \<and> ValidateElfHeader h \<and>
     ValidateElfHeaderSafety h (vsize buffer) \<and> unat (e_shoff h) < 2 ^ 63 \<and>
     length tab = unat (e_shnum h) \<and> unat (e_shstrndx h) < length tab \<and>
     (\<forall>i < length tab. section_at buffer h names i (snd (tab ! i)) (fst (tab ! i))) \<and>
     (let ns = snd (tab ! unat (e_shstrndx h))
      in unat (sh_offset ns) + unat (sh_size ns) \<le> length buffer \<and>
         names = take (unat (sh_size ns)) (drop (unat (sh_offset ns)) buffer))"

lemma FromBuffer_exact:
  assumes "elf_image buffer h tab names"
  shows "FromBuffer buffer = Inr (fold (\<lambda>(n, sh). omap_put n sh) tab [])"
proof -
  let ?k = "unat (e_shstrndx h)" and ?ns = "snd (tab ! unat (e_shstrndx h))"
  have len: "length buffer < 2 ^ 64" and off: "unat (e_shoff h) < 2 ^ 63"
    using assms by (simp_all add: elf_image_def)
  have k: "?k < 2 ^ 16" using unsigned_less [of "e_shstrndx h"] by simp
  have s: "section_at buffer h names ?k ?ns (fst (tab ! ?k))"
    using assms by (simp add: elf_image_def)
  then have r: "ReadValueFromBuffer buffer (section_offset h ?k) 64 = Inr (Shdr_bytes ?ns)"
    using ReadValue_section [OF len off k] by (simp add: section_at_def)
  have "no_wrap (sh_offset ?ns) (sh_size ?ns)"
    using assms by (simp add: elf_image_def no_wrap_def Let_def)
  from ReadValue_no_wrap [OF len this] assms
  have n: "ReadValueFromBuffer buffer (sh_offset ?ns) (sh_size ?ns) = Inr names"
    by (simp add: elf_image_def Let_def)
  have "load_sections buffer h names 0 [] = Inr (fold (\<lambda>(n, sh). omap_put n sh) tab [])"
    using load_sections_exact [OF len off, of tab names 0 "[]"] assms by (simp add: elf_image_def)
  moreover have "buffer \<noteq> []" using s by (auto simp: section_at_def)
  ultimately show ?thesis
    using assms r n unfolding FromBuffer_def section_offset_strndx ReadArray_bytes Let_def
    by (simp add: elf_image_def)
qed

section \<open>String tables\<close>

lemma concat_terminated: "ts \<noteq> [] \<Longrightarrow> concat (map (\<lambda>t. t @ [d]) ts) = Join ts [d] @ [d]"
proof (induction ts "[d]" rule: Join.induct)
  case (3 x y ys)
  then show ?case by simp
qed simp_all

lemma str_of_bytes_Nil_char: "char_of (unat (b :: u8)) = CHR 0x00 \<longleftrightarrow> b = 0"
proof
  assume "char_of (unat b) = CHR 0x00"
  then have "of_char (char_of (unat b)) = (of_char (CHR 0x00) :: nat)" by simp
  then have "unat b mod 256 = 0" by simp
  moreover have "unat b < 256" using unsigned_less [of b] by simp
  ultimately show "b = 0" by (simp add: unat_eq_zero)
qed (simp add: char_of_def)

lemma ReadStringTable_exact:
  assumes "length buffer < 2 ^ 64" and "map_of secs name = Some sh"
    and fits: "unat (sh_offset sh) + unat (sh_size sh) \<le> length buffer"
    and tab: "str_of_bytes (take (unat (sh_size sh)) (drop (unat (sh_offset sh)) buffer)) =
                CHR 0x00 # concat (map (\<lambda>t. t @ [CHR 0x00]) ts)"
    and ts: "ts \<noteq> []" "last ts \<noteq> []" "\<forall>t \<in> set ts. CHR 0x00 \<notin> set t"
  shows "ReadStringTable secs buffer name = Inr ts"
proof -
  let ?o = "unat (sh_offset sh)" and ?n = "unat (sh_size sh)"
  let ?s = "take ?n (drop ?o buffer)"
  have J: "str_of_bytes ?s = CHR 0x00 # Join ts [CHR 0x00] @ [CHR 0x00]"
    using tab concat_terminated [OF ts(1), of "CHR 0x00"] by simp
  have "Join ts [CHR 0x00] \<noteq> []" using ts(1,2) by (auto simp: Join_eq_Nil)
  then have jl: "0 < length (Join ts [CHR 0x00])" by simp
  have n: "?n = length (Join ts [CHR 0x00]) + 2"
    using arg_cong [OF J, of length] fits by simp
  have b: "unat (vsize buffer) = length buffer" using assms(1) by (simp add: unat_of_nat)
  have lt: "?o < length buffer" using n fits by simp
  have "hd (str_of_bytes ?s) = char_of (unat (buffer ! ?o))"
    using lt n by (simp add: str_of_bytes_def hd_map hd_conv_nth)
  moreover have "hd (str_of_bytes ?s) = CHR 0x00" unfolding J by simp
  ultimately have z: "buffer ! ?o = 0" using str_of_bytes_Nil_char by metis
  have sub: "unat (vsize buffer - sh_offset sh) = length buffer - ?o"
    using lt b by (simp add: unat_sub word_le_nat_alt)
  have size2: "unat (sh_size sh - 2) = ?n - 2" using n by (simp add: unat_sub word_le_nat_alt)
  have sub2: "unat (vsize buffer - sh_offset sh - 2) = length buffer - ?o - 2"
    using sub n fits by (simp add: unat_sub word_le_nat_alt)
  have m: "unat (min (sh_size sh - 2) (vsize buffer - sh_offset sh - 2)) = ?n - 2"
    using size2 sub2 fits by (simp add: min_def word_le_nat_alt)
  have o1: "unat (sh_offset sh + 1) = ?o + 1"
    using lt assms(1) by (simp add: unat_word_ariths)
  have "copy_from buffer (sh_offset sh + 1) (min (sh_size sh - 2) (vsize buffer - sh_offset sh - 2)) =
      Inr (take (?n - 2) (drop (?o + 1) buffer))"
    using m o1 n fits by (simp add: copy_from_def)
  moreover have "str_of_bytes (take (?n - 2) (drop (?o + 1) buffer)) = Join ts [CHR 0x00]"
  proof -
    have "take (?n - 2) (drop (?o + 1) buffer) = take (?n - 2) (drop 1 ?s)"
      using n by (simp add: drop_take)
    then have "str_of_bytes (take (?n - 2) (drop (?o + 1) buffer)) = take (?n - 2) (drop 1 (str_of_bytes ?s))"
      by (simp add: str_of_bytes_def take_map drop_map)
    also have "\<dots> = Join ts [CHR 0x00]" using n unfolding J by simp
    finally show ?thesis .
  qed
  moreover have "SplitString (Join ts [CHR 0x00]) CHR 0x00 = ts"
    using ts by (intro SplitString_Join) simp_all
  moreover have "sh_size sh > 2" and "vsize buffer - sh_offset sh > 2"
  proof -
    have "2 < ?n" using n jl by linarith
    then have "2 < length buffer - ?o" using fits by linarith
    with \<open>2 < ?n\<close> show "sh_size sh > 2" and "vsize buffer - sh_offset sh > 2"
      by (simp_all add: word_less_nat_alt sub)
  qed
  ultimately show ?thesis using assms(2) z by (simp add: ReadStringTable_def)
qed

section \<open>Properties\<close>

text \<open>
  C30: for a well-formed image, loading succeeds and gives exactly the sections of the table by name
  (the last one of a name that occurs twice), as an ordered map.
\<close>

theorem elf_load_exact:
  assumes "elf_image buffer h tab names"
  shows "\<exists>secs. FromBuffer buffer = Inr secs \<and> sorted_wrt (<) (map fst secs) \<and>
           map_of secs = map_of (rev tab)"
  using FromBuffer_exact [OF assms] fold_omap_put [of "[]" tab] by simp

definition demo_ehdr :: Elf64_Ehdr where
  "demo_ehdr =
     \<lparr>e_ident = [0x7F, 0x45, 0x4C, 0x46, 2, 1, 1, 0, 0, 0, 0, 0, 0, 0, 0, 0], e_type = 2, e_machine = 0x1029,
      e_version = 1, e_entry = 0, e_phoff = 0, e_shoff = 64, e_flags = 0, e_ehsize = 64,
      e_phentsize = 56, e_phnum = 0, e_shentsize = 64, e_shnum = 1, e_shstrndx = 0\<rparr>"

definition demo_shdr :: Elf64_Shdr where
  "demo_shdr = \<lparr>sh_name = 0, sh_type = 3, sh_flags = 2, sh_addr = 0, sh_offset = 128, sh_size = 2,
     sh_link = 0, sh_info = 0, sh_addralign = 1, sh_entsize = 0\<rparr>"

definition demo_elf :: "u8 list" where
  "demo_elf = Ehdr_bytes demo_ehdr @ Shdr_bytes demo_shdr @ [0x61, 0]"

lemma demo_elf_image: "elf_image demo_elf demo_ehdr [(''a'', demo_shdr)] [0x61, 0]"
proof -
  have i: "length (e_ident demo_ehdr) = 16" by (simp add: demo_ehdr_def)
  then have l: "length demo_elf = 130" by (simp add: demo_elf_def)
  have "ReadValueFromBuffer demo_elf 0 64 = Inr (Ehdr_bytes demo_ehdr)"
    using i l by (simp add: ReadValueFromBuffer_def copy_from_def) (simp add: demo_elf_def)
  then have h: "LoadHeader demo_elf = Inr demo_ehdr" using i by (simp add: LoadHeader_def)
  have "section_at demo_elf demo_ehdr [0x61, 0] 0 demo_shdr ''a''"
    using i l by (simp add: section_at_def section_offset_def demo_elf_def)
      (simp add: demo_ehdr_def demo_shdr_def c_string_at_def str_of_bytes_def Ehdr_bytes_def
        Shdr_bytes_def char_of_def bit_0)
  then show ?thesis
    using h l i
    by (simp add: elf_image_def)
      (simp add: demo_elf_def, simp add: demo_ehdr_def demo_shdr_def ValidateElfHeader_def
        ValidateElfHeaderSafety_def Ehdr_bytes_def Shdr_bytes_def)
qed

theorem elf_load_exact_witness:
  "\<exists>secs. FromBuffer demo_elf = Inr secs \<and> sorted_wrt (<) (map fst secs) \<and>
     map_of secs = map_of (rev [(''a'', demo_shdr)])"
  by (rule elf_load_exact [OF demo_elf_image])

text \<open>
  loading never reads outside the buffer at the header, the section table or the name section; the
  only read that can leave it is a section name that is not a string inside the name section.
\<close>

lemma elf_load_safe:
  assumes "length buffer < 2 ^ 64" and "LoadHeader buffer = Inr h" and "unat (e_shoff h) < 2 ^ 63"
    and "\<forall>bs. ReadValueFromBuffer buffer (section_offset h (unat (e_shstrndx h))) 64 = Inr bs \<longrightarrow>
           no_wrap (sh_offset (Shdr_of_bytes bs)) (sh_size (Shdr_of_bytes bs))"
    and "FromBuffer buffer = Inl OutOfBounds"
  shows "\<exists>table i bs. i < unat (e_shnum h) \<and> ReadValueFromBuffer buffer (section_offset h i) 64 = Inr bs \<and>
           c_string_at table (unat (sh_name (Shdr_of_bytes bs))) = Inl OutOfBounds"
  using assms by (intro FromBuffer_safe [OF assms(1-3)]) blast+

definition bad_elf :: "u8 list" where
  "bad_elf = Ehdr_bytes demo_ehdr @ Shdr_bytes (demo_shdr\<lparr>sh_name := 7\<rparr>) @ [0x61, 0]"

lemma bad_elf_reads:
  "length bad_elf = 130" "LoadHeader bad_elf = Inr demo_ehdr"
  "ReadValueFromBuffer bad_elf 64 64 = Inr (Shdr_bytes (demo_shdr\<lparr>sh_name := 7\<rparr>))"
  "ReadArrayFromBuffer bad_elf 128 2 1 = Inr [0x61, 0]"
proof -
  have i: "length (e_ident demo_ehdr) = 16" by (simp add: demo_ehdr_def)
  then show l: "length bad_elf = 130" by (simp add: bad_elf_def)
  have "ReadValueFromBuffer bad_elf 0 64 = Inr (Ehdr_bytes demo_ehdr)"
    using i l by (simp add: ReadValueFromBuffer_def copy_from_def) (simp add: bad_elf_def)
  then show "LoadHeader bad_elf = Inr demo_ehdr" using i by (simp add: LoadHeader_def)
  show "ReadValueFromBuffer bad_elf 64 64 = Inr (Shdr_bytes (demo_shdr\<lparr>sh_name := 7\<rparr>))"
    using i l by (simp add: ReadValueFromBuffer_def copy_from_def) (simp add: bad_elf_def)
  show "ReadArrayFromBuffer bad_elf 128 2 1 = Inr [0x61, 0]"
    using i l by (simp add: ReadArrayFromBuffer_def copy_from_def) (simp add: bad_elf_def)
qed

lemma bad_elf_load: "FromBuffer bad_elf = Inl OutOfBounds"
proof -
  have v: "ValidateElfHeader demo_ehdr" "ValidateElfHeaderSafety demo_ehdr 130"
    by (simp_all add: demo_ehdr_def ValidateElfHeader_def ValidateElfHeaderSafety_def)
  have n: "bad_elf \<noteq> []" using bad_elf_reads(1) by auto
  have off: "e_shoff demo_ehdr = 64" "e_shstrndx demo_ehdr = 0" "e_shnum demo_ehdr = 1"
    "e_shentsize demo_ehdr = 64"
    by (simp_all add: demo_ehdr_def)
  have nm: "sh_offset demo_shdr = 128" "sh_size demo_shdr = 2" by (simp_all add: demo_shdr_def)
  have "load_sections bad_elf demo_ehdr [0x61, 0] 0 [] = Inl OutOfBounds"
    using bad_elf_reads off by (subst load_sections.simps) (simp add: c_string_at_def)
  then show ?thesis
    using n v bad_elf_reads off nm by (simp add: FromBuffer_def)
qed

text \<open>
  A string table written as NUL, then every name with its NUL, is read back as the list of names.
\<close>

lemma string_table_read:
  assumes "length buffer < 2 ^ 64" and "map_of secs name = Some sh"
    and "unat (sh_offset sh) + unat (sh_size sh) \<le> length buffer"
    and "str_of_bytes (take (unat (sh_size sh)) (drop (unat (sh_offset sh)) buffer)) =
           CHR 0x00 # concat (map (\<lambda>t. t @ [CHR 0x00]) ts)"
    and "ts \<noteq> []" and "last ts \<noteq> []" and "\<forall>t \<in> set ts. CHR 0x00 \<notin> set t"
  shows "ReadStringTable secs buffer name = Inr ts"
  by (rule ReadStringTable_exact [OF assms])

lemma string_table_read_witness:
  "ReadStringTable [(''.strtab'', demo_shdr\<lparr>sh_offset := 1, sh_size := 5\<rparr>)]
     [9, 0, 0x61, 0, 0x62, 0] ''.strtab'' = Inr [''a'', ''b'']"
  by (rule string_table_read [where sh = "demo_shdr\<lparr>sh_offset := 1, sh_size := 5\<rparr>"])
    (simp_all add: str_of_bytes_def char_of_def bit_0)

text \<open>
  the bound test of \<open>ReadValueFromBuffer\<close> adds before it compares: an offset in the last
  \<open>sizeof(T)\<close> bytes of the 64-bit range passes it for every buffer, and the read is out of bounds.
\<close>

lemma read_value_wraps:
  assumes "0 < unat n" and "offset = - n" and "length buffer < 2 ^ 63" and "unat n < 2 ^ 63"
  shows "ReadValueFromBuffer buffer offset n = Inl OutOfBounds"
proof -
  have "unat (- n + n) = (unat (- n) + unat n) mod 2 ^ 64" by (subst unat_word_ariths) simp
  then have "(unat (- n) + unat n) mod 2 ^ 64 = 0" by simp
  then have "2 ^ 64 \<le> unat (- n) + unat n"
    using assms(1) by (metis add_gr_0 less_numeral_extra(3) mod_less not_le)
  then show ?thesis
    using assms by (simp add: ReadValueFromBuffer_def copy_from_def)
qed

lemma read_value_wraps_witness:
  "ReadValueFromBuffer [1, 2, 3] (- 64) 64 = Inl OutOfBounds"
  by (rule read_value_wraps) simp_all

end
