(* ===== verification/MemoryManage.thy ===== *)
theory MemoryManage
  imports Protocol
begin

text \<open>
  The device-memory bookkeeping of \<open>csrc/runtime/inject_helpers/MemoryDataCollect.{h,cpp}\<close>: the set of
  allocation records an operator run has seen, and the list of disjoint ranges that is copied to the
  kernel-side checker. \<open>std::set\<close> is the list of its elements in comparator order.
\<close>

section \<open>Allocation records\<close>

record AddrInfo =
  ai_addr :: u64
  ai_length :: u64
  ai_src :: MemInfoSrc
  ai_desc :: MemInfoDesc
  ai_paramsNo :: u64

definition AddrInfo_less :: "AddrInfo \<Rightarrow> AddrInfo \<Rightarrow> bool" where
  "AddrInfo_less a b =
     (if ai_addr a \<noteq> ai_addr b then ai_addr a < ai_addr b
      else if ai_length a \<noteq> ai_length b then ai_length a < ai_length b
      else ai_src a < ai_src b)"

interpretation ai_order: strict_weak_order AddrInfo_less
  by unfold_locales (auto simp: AddrInfo_less_def split: if_splits)

definition IsSameMemInfoSrc :: "MemInfoSrc \<Rightarrow> MemInfoSrc \<Rightarrow> bool" where
  "IsSameMemInfoSrc lhs rhs =
     (if (lhs = ACL \<or> lhs = RT) \<and> (rhs = ACL \<or> rhs = RT) then True else lhs = rhs)"

definition IsAddrInRange :: "u64 \<Rightarrow> u64 \<Rightarrow> u64 \<Rightarrow> u64 \<Rightarrow> bool" where
  "IsAddrInRange addr len thresholdAddr thresholdSize \<longleftrightarrow>
     addr \<ge> thresholdAddr \<and> thresholdSize \<ge> len \<and> addr + len \<le> thresholdAddr + thresholdSize"

definition hasExtra :: "AddrInfo list \<Rightarrow> bool" where
  "hasExtra addrs \<longleftrightarrow> list_ex (\<lambda>a. ai_src a = EXTRA) addrs"

section \<open>The cache\<close>

record memory_manage =
  mm_infos :: "AddrInfo list"
  mm_count :: u32

definition init_memory_manage :: memory_manage where
  "init_memory_manage = \<lparr>mm_infos = [], mm_count = 0\<rparr>"

definition mm_Reset :: "memory_manage \<Rightarrow> memory_manage" where
  "mm_Reset m = m\<lparr>mm_infos := [], mm_count := 0\<rparr>"

definition CacheMemoryCount :: "u32 \<Rightarrow> memory_manage \<Rightarrow> memory_manage" where
  "CacheMemoryCount count m = m\<lparr>mm_count := mm_count m + count\<rparr>"

definition CacheMemory_MALLOC :: "u64 \<Rightarrow> MemInfoSrc \<Rightarrow> u64 \<Rightarrow> bool \<Rightarrow> memory_manage \<Rightarrow> memory_manage" where
  "CacheMemory_MALLOC addr infoSrc len isUpdateCount m =
     (let m1 = (if isUpdateCount then m\<lparr>mm_count := mm_count m + 1\<rparr> else m);
          info = \<lparr>ai_addr = addr, ai_length = len, ai_src = infoSrc, ai_desc = DEFAULT, ai_paramsNo = 0\<rparr>
      in m1\<lparr>mm_infos := oset_insert AddrInfo_less info (mm_infos m1)\<rparr>)"

text \<open>\<open>CacheMemory<FREE>\<close> also tells whether a record was found; otherwise an error is logged.\<close>

definition CacheMemory_FREE :: "u64 \<Rightarrow> MemInfoSrc \<Rightarrow> memory_manage \<Rightarrow> bool \<times> memory_manage" where
  "CacheMemory_FREE addr infoSrc m =
     (case find (\<lambda>it. ai_addr it = addr \<and> IsSameMemInfoSrc (ai_src it) infoSrc) (mm_infos m) of
        Some it \<Rightarrow>
          (True, m\<lparr>mm_infos := oset_erase AddrInfo_less it (mm_infos m), mm_count := mm_count m - 1\<rparr>)
      | None \<Rightarrow> (False, m))"

definition UpdateMemoryOp :: "memory_manage \<Rightarrow> memory_manage" where
  "UpdateMemoryOp m =
     (let infos = filter (\<lambda>it. ai_addr it \<noteq> 0 \<and> ai_length it \<noteq> 0) (mm_infos m)
      in m\<lparr>mm_infos := infos, mm_count := word_of_nat (length infos)\<rparr>)"

section \<open>Extraction and merging\<close>

definition ProcessMstxHeapMem :: "HostMemoryInfo list \<Rightarrow> AddrInfo \<Rightarrow> HostMemoryInfo list" where
  "ProcessMstxHeapMem cache info =
     (case find (\<lambda>it. IsAddrInRange (ai_addr info) (ai_length info) (hm_addr it) (hm_size it)) cache of
        None \<Rightarrow> cache
      | Some it \<Rightarrow>
          (let cache1 = (if ai_addr info > hm_addr it
                         then oset_insert HostMemoryInfo_less
                                \<lparr>hm_addr = hm_addr it, hm_size = ai_addr info - hm_addr it\<rparr> cache
                         else cache);
               rightSize = hm_addr it - ai_addr info + hm_size it - ai_length info;
               cache2 = (if rightSize > 0
                         then oset_insert HostMemoryInfo_less
                                \<lparr>hm_addr = ai_addr info + ai_length info, hm_size = rightSize\<rparr> cache1
                         else cache1)
           in oset_erase HostMemoryInfo_less it cache2))"

text \<open>One round of the loop of \<open>ExtractValidMems\<close>, on the pair of \<open>ranges\<close> and \<open>cacheRtAclMems\<close>.\<close>

definition extract_step ::
  "bool \<Rightarrow> AddrInfo \<Rightarrow> HostMemoryInfo list \<times> HostMemoryInfo list \<Rightarrow>
   HostMemoryInfo list \<times> HostMemoryInfo list" where
  "extract_step isExtra addrs st =
     (let (ranges, cache) = st;
          info = \<lparr>hm_addr = ai_addr addrs, hm_size = ai_length addrs\<rparr>;
          infoSrc = ai_src addrs
      in if ai_length addrs = 0 then (ranges, cache)
         else if isExtra \<and> (infoSrc = EXTRA \<or> infoSrc = MANUAL \<or> infoSrc = BYPASS)
              then (ranges @ [info], cache)
         else if isExtra then (ranges, cache)
         else if infoSrc = ACL \<or> infoSrc = RT
              then (ranges, oset_insert HostMemoryInfo_less info cache)
         else if infoSrc = MSTX_HEAP then (ranges, ProcessMstxHeapMem cache addrs)
         else (ranges @ [info], cache))"

definition ExtractValidMems :: "AddrInfo list \<Rightarrow> HostMemoryInfo list" where
  "ExtractValidMems infos =
     (let (ranges, cache) = fold (extract_step (hasExtra infos)) infos ([], [])
      in ranges @ cache)"

definition merge_step :: "HostMemoryInfo list \<Rightarrow> HostMemoryInfo \<Rightarrow> HostMemoryInfo list" where
  "merge_step merged current =
     (let l = last merged;
          lastEnd = hm_addr l + hm_size l
      in if hm_addr current \<le> lastEnd
         then butlast merged @
                [l\<lparr>hm_size := max lastEnd (hm_addr current + hm_size current) - hm_addr l\<rparr>]
         else merged @ [current])"

definition merge_ranges :: "HostMemoryInfo list \<Rightarrow> HostMemoryInfo list" where
  "merge_ranges ranges = (case ranges of [] \<Rightarrow> [] | r # rs \<Rightarrow> foldl merge_step [r] rs)"

definition MergeHostMems :: "memory_manage \<Rightarrow> HostMemoryInfo list" where
  "MergeHostMems m =
     (if mm_infos m = [] \<or> mm_count m = 0 then []
      else let merged = merge_ranges (sort_key hm_addr (ExtractValidMems (mm_infos m)));
               memorySize = length merged
           in if memorySize < unat (mm_count m)
              then merged @ replicate (unat (mm_count m) - memorySize) \<lparr>hm_addr = 0, hm_size = 0\<rparr>
              else merged)"

section \<open>Ranges of bytes\<close>

definition range_of :: "HostMemoryInfo \<Rightarrow> nat set" where
  "range_of r = {unat (hm_addr r) ..< unat (hm_addr r) + unat (hm_size r)}"

definition cover :: "HostMemoryInfo list \<Rightarrow> nat set" where
  "cover rs = (\<Union>r \<in> set rs. range_of r)"

definition proper :: "HostMemoryInfo \<Rightarrow> bool" where
  "proper r \<longleftrightarrow> hm_size r \<noteq> 0 \<and> no_wrap (hm_addr r) (hm_size r)"

definition gap :: "HostMemoryInfo \<Rightarrow> HostMemoryInfo \<Rightarrow> bool" where
  "gap a b \<longleftrightarrow> unat (hm_addr a) + unat (hm_size a) < unat (hm_addr b)"

text \<open>Disjoint, non-adjacent ranges in ascending order: the shape the kernel side relies on.\<close>

definition normal_ranges :: "HostMemoryInfo list \<Rightarrow> bool" where
  "normal_ranges rs \<longleftrightarrow> (\<forall>r \<in> set rs. proper r) \<and> sorted_wrt gap rs"

lemma cover_Nil [simp]: "cover [] = {}"
  and cover_Cons [simp]: "cover (r # rs) = range_of r \<union> cover rs"
  and cover_append [simp]: "cover (rs @ ss) = cover rs \<union> cover ss"
  by (auto simp: cover_def)

lemma unat_max: "unat (max a b :: 'a::len word) = max (unat a) (unat b)"
  by (simp add: max_def word_le_nat_alt)

lemma proper_end: "proper r \<Longrightarrow> unat (hm_addr r + hm_size r) = unat (hm_addr r) + unat (hm_size r)"
  by (simp add: proper_def unat_add_no_wrap)

lemma proper_pos: "proper r \<Longrightarrow> 0 < unat (hm_size r)"
  by (simp add: proper_def unat_gt_0)

lemma merge_step_props:
  assumes "normal_ranges (ms @ [l])" and "proper c" and le: "hm_addr l \<le> hm_addr c"
  shows "normal_ranges (merge_step (ms @ [l]) c)"
    and "cover (merge_step (ms @ [l]) c) = cover (ms @ [l]) \<union> range_of c"
    and "\<exists>ms' l'. merge_step (ms @ [l]) c = ms' @ [l'] \<and> hm_addr l' \<le> hm_addr c \<and>
                   length ms' \<le> Suc (length ms)"
proof -
  have l: "proper l" using assms(1) by (simp add: normal_ranges_def)
  note ends = proper_end [OF l] proper_end [OF assms(2)]
  let ?l = "l\<lparr>hm_size := max (hm_addr l + hm_size l) (hm_addr c + hm_size c) - hm_addr l\<rparr>"
  have le': "unat (hm_addr l) \<le> unat (hm_addr c)" using le by (simp add: word_le_nat_alt)
  have "hm_addr l \<le> max (hm_addr l + hm_size l) (hm_addr c + hm_size c)"
    using ends by (simp add: word_le_nat_alt unat_max)
  then have size: "unat (hm_size ?l) =
      max (unat (hm_addr l) + unat (hm_size l)) (unat (hm_addr c) + unat (hm_size c)) - unat (hm_addr l)"
    using ends by (simp add: unat_sub unat_max)
  have pl: "proper ?l"
    using l assms(2) size proper_pos [OF l] le' unsigned_less [of "hm_addr c + hm_size c"]
    unfolding proper_def no_wrap_def by (auto simp flip: unat_eq_zero)
  show "normal_ranges (merge_step (ms @ [l]) c)"
  proof (cases "hm_addr c \<le> hm_addr l + hm_size l")
    case True
    with assms(1) pl show ?thesis
      by (simp add: merge_step_def normal_ranges_def sorted_wrt_append gap_def)
  next
    case False
    then have g: "gap l c" using ends by (simp add: gap_def word_le_nat_alt)
    have "gap r c" if "r \<in> set ms" for r
    proof -
      have "gap r l" using that assms(1) by (simp add: normal_ranges_def sorted_wrt_append)
      with g show ?thesis by (simp add: gap_def)
    qed
    with assms False g show ?thesis
      by (simp add: merge_step_def normal_ranges_def sorted_wrt_append)
  qed
  show "cover (merge_step (ms @ [l]) c) = cover (ms @ [l]) \<union> range_of c"
  proof (cases "hm_addr c \<le> hm_addr l + hm_size l")
    case True
    then have "unat (hm_addr c) \<le> unat (hm_addr l) + unat (hm_size l)"
      using ends by (simp add: word_le_nat_alt)
    then have "range_of ?l = range_of l \<union> range_of c"
      using size le' by (auto simp: range_of_def)
    with True show ?thesis by (simp add: merge_step_def Un_assoc)
  next
    case False
    then show ?thesis by (simp add: merge_step_def Un_assoc)
  qed
  show "\<exists>ms' l'. merge_step (ms @ [l]) c = ms' @ [l'] \<and> hm_addr l' \<le> hm_addr c \<and>
                 length ms' \<le> Suc (length ms)"
    using le by (cases "hm_addr c \<le> hm_addr l + hm_size l") (auto simp: merge_step_def)
qed

lemma merge_foldl:
  assumes "normal_ranges (ms @ [l])" and "\<forall>c \<in> set cs. proper c \<and> hm_addr l \<le> hm_addr c"
    and "sorted (map hm_addr cs)"
  shows "normal_ranges (foldl merge_step (ms @ [l]) cs) \<and>
         cover (foldl merge_step (ms @ [l]) cs) = cover (ms @ [l]) \<union> cover cs \<and>
         length (foldl merge_step (ms @ [l]) cs) \<le> length (ms @ [l]) + length cs"
  using assms
proof (induction cs arbitrary: ms l)
  case Nil
  then show ?case by simp
next
  case (Cons c cs)
  then have c: "proper c" "hm_addr l \<le> hm_addr c" by simp_all
  note step = merge_step_props [OF Cons.prems(1) c]
  from step(3) obtain ms' l' where ms': "merge_step (ms @ [l]) c = ms' @ [l']"
    and l': "hm_addr l' \<le> hm_addr c" and len: "length ms' \<le> Suc (length ms)" by blast
  have "\<forall>x \<in> set cs. proper x \<and> hm_addr l' \<le> hm_addr x"
    using Cons.prems l' by (auto intro: order_trans)
  moreover have "sorted (map hm_addr cs)" using Cons.prems(3) by simp
  ultimately show ?case
    using Cons.IH [of ms' l'] step(1,2) ms' len by (auto simp: Un_assoc)
qed

lemma merge_ranges_props:
  assumes "\<forall>r \<in> set rs. proper r" and "sorted (map hm_addr rs)"
  shows "normal_ranges (merge_ranges rs)" and "cover (merge_ranges rs) = cover rs"
    and "length (merge_ranges rs) \<le> length rs"
proof -
  have "normal_ranges (merge_ranges rs) \<and> cover (merge_ranges rs) = cover rs \<and>
        length (merge_ranges rs) \<le> length rs"
  proof (cases rs)
    case Nil
    then show ?thesis by (simp add: merge_ranges_def normal_ranges_def)
  next
    case (Cons r cs)
    with assms merge_foldl [of "[]" r cs] show ?thesis
      by (simp add: merge_ranges_def normal_ranges_def)
  qed
  then show "normal_ranges (merge_ranges rs)" and "cover (merge_ranges rs) = cover rs"
    and "length (merge_ranges rs) \<le> length rs" by simp_all
qed

section \<open>The merged list is canonical\<close>

lemma normal_head_gap:
  "normal_ranges (r # rs) \<Longrightarrow> x \<in> cover rs \<Longrightarrow> unat (hm_addr r) + unat (hm_size r) < x"
  by (auto simp: normal_ranges_def cover_def range_of_def gap_def)

lemma normal_head_cover:
  assumes "normal_ranges (r # rs)"
  shows "unat (hm_addr r) \<in> cover (r # rs)"
    and "x \<in> cover (r # rs) \<Longrightarrow> unat (hm_addr r) \<le> x"
    and "unat (hm_addr r) + unat (hm_size r) \<notin> cover (r # rs)"
    and "cover rs = cover (r # rs) - range_of r"
proof -
  have p: "0 < unat (hm_size r)" using assms by (simp add: normal_ranges_def proper_pos)
  then show "unat (hm_addr r) \<in> cover (r # rs)" by (simp add: range_of_def)
  show "x \<in> cover (r # rs) \<Longrightarrow> unat (hm_addr r) \<le> x"
    using normal_head_gap [OF assms, of x] by (auto simp: range_of_def)
  show "unat (hm_addr r) + unat (hm_size r) \<notin> cover (r # rs)"
    using normal_head_gap [OF assms] by (auto simp: range_of_def)
  show "cover rs = cover (r # rs) - range_of r"
    using normal_head_gap [OF assms] by (fastforce simp: range_of_def)
qed

lemma normal_head_eq:
  assumes "normal_ranges (r # rs)" and "normal_ranges (s # ss)"
    and eq: "cover (r # rs) = cover (s # ss)"
  shows "r = s"
proof -
  note R = normal_head_cover [OF assms(1)] and S = normal_head_cover [OF assms(2)]
  have "unat (hm_addr r) \<le> unat (hm_addr s)" by (rule R(2)) (simp only: eq S(1))
  moreover have "unat (hm_addr s) \<le> unat (hm_addr r)" by (rule S(2)) (simp only: eq [symmetric] R(1))
  ultimately have a: "unat (hm_addr r) = unat (hm_addr s)" by simp
  have "unat (hm_size r) = unat (hm_size s)"
  proof (rule ccontr)
    assume "unat (hm_size r) \<noteq> unat (hm_size s)"
    then have "unat (hm_addr r) + unat (hm_size r) \<in> range_of s \<or>
               unat (hm_addr s) + unat (hm_size s) \<in> range_of r"
      using a by (auto simp: range_of_def)
    then show False using R(3) S(3) eq by auto
  qed
  with a show "r = s"
    by (cases r; cases s) (simp add: word_unat_eq_iff)
qed

lemma normal_ranges_unique:
  "normal_ranges xs \<Longrightarrow> normal_ranges ys \<Longrightarrow> cover xs = cover ys \<Longrightarrow> xs = ys"
proof (induction xs arbitrary: ys)
  case Nil
  show ?case
  proof (cases ys)
    case (Cons y zs)
    with Nil normal_head_cover(1) [of y zs] have "unat (hm_addr y) \<in> cover []" by metis
    then show ?thesis by simp
  qed simp
next
  case (Cons x xs)
  from normal_head_cover(1) [OF Cons.prems(1)] Cons.prems(3) have "ys \<noteq> []" by (metis cover_Nil empty_iff)
  then obtain y zs where ys: "ys = y # zs" by (cases ys) simp_all
  note prems = Cons.prems [unfolded ys]
  have xy: "x = y" using prems by (rule normal_head_eq)
  have c: "cover xs = cover zs"
    unfolding normal_head_cover(4) [OF prems(1)] normal_head_cover(4) [OF prems(2)] prems(3)
    by (simp only: xy)
  have "normal_ranges xs" and "normal_ranges zs"
    using prems(1,2) by (simp_all add: normal_ranges_def)
  then have "xs = zs" using c by (rule Cons.IH)
  with xy ys show ?case by simp
qed

section \<open>What extraction keeps\<close>

lemma hm_insert_set [simp]: "set (oset_insert HostMemoryInfo_less x xs) = insert x (set xs)"
proof (induction xs)
  case (Cons y ys)
  have "x = y" if "\<not> HostMemoryInfo_less x y" "\<not> HostMemoryInfo_less y x"
    using that by (cases x; cases y) (auto simp: HostMemoryInfo_less_def split: if_splits)
  with Cons show ?case by auto
qed simp

lemma hm_insert_length:
  "length (oset_insert lt x xs) \<le> Suc (length xs)"
  by (induction xs) auto

lemma in_range_nat:
  assumes "no_wrap a l" and "proper it" and "IsAddrInRange a l (hm_addr it) (hm_size it)"
  shows "unat (hm_addr it) \<le> unat a"
    and "unat a + unat l \<le> unat (hm_addr it) + unat (hm_size it)"
  using assms by (simp_all add: IsAddrInRange_def word_le_nat_alt unat_add_no_wrap proper_end)

lemma mstx_right_size:
  assumes "no_wrap a l" and "proper it" and "IsAddrInRange a l (hm_addr it) (hm_size it)"
  shows "unat (hm_addr it - a + hm_size it - l) =
           unat (hm_addr it) + unat (hm_size it) - (unat a + unat l)"
proof -
  have "hm_addr it - a + hm_size it - l = (hm_addr it + hm_size it) - (a + l)" by simp
  moreover have "a + l \<le> hm_addr it + hm_size it"
    using assms(3) by (simp add: IsAddrInRange_def)
  ultimately show ?thesis
    using assms(1,2) by (simp only: unat_sub unat_add_no_wrap proper_end)
qed

definition mstx_left :: "AddrInfo \<Rightarrow> HostMemoryInfo \<Rightarrow> HostMemoryInfo" where
  "mstx_left info it = \<lparr>hm_addr = hm_addr it, hm_size = ai_addr info - hm_addr it\<rparr>"

definition mstx_right :: "AddrInfo \<Rightarrow> HostMemoryInfo \<Rightarrow> HostMemoryInfo" where
  "mstx_right info it = \<lparr>hm_addr = ai_addr info + ai_length info,
     hm_size = hm_addr it - ai_addr info + hm_size it - ai_length info\<rparr>"

definition ai_proper :: "AddrInfo \<Rightarrow> bool" where
  "ai_proper i \<longleftrightarrow> ai_length i \<noteq> 0 \<longrightarrow> no_wrap (ai_addr i) (ai_length i)"

definition ai_range :: "AddrInfo \<Rightarrow> nat set" where
  "ai_range i = {unat (ai_addr i) ..< unat (ai_addr i) + unat (ai_length i)}"

text \<open>One subtraction: the block is replaced by what is left of the heap range and what is right of it.\<close>

lemma mstx_pieces:
  assumes "no_wrap (ai_addr info) (ai_length info)" and "ai_length info \<noteq> 0" and "proper it"
    and "IsAddrInRange (ai_addr info) (ai_length info) (hm_addr it) (hm_size it)"
  shows "range_of (mstx_left info it) \<union> range_of (mstx_right info it) = range_of it - ai_range info"
    and "ai_range info \<subseteq> range_of it"
    and "mstx_left info it \<noteq> it" and "mstx_right info it \<noteq> it"
    and "ai_addr info > hm_addr it \<longleftrightarrow> hm_size (mstx_left info it) \<noteq> 0"
    and "hm_size (mstx_left info it) \<noteq> 0 \<Longrightarrow> proper (mstx_left info it)"
    and "hm_size (mstx_right info it) \<noteq> 0 \<Longrightarrow> proper (mstx_right info it)"
proof -
  note N = in_range_nat [OF assms(1,3,4)] and R = mstx_right_size [OF assms(1,3,4)]
  have L: "unat (ai_addr info - hm_addr it) = unat (ai_addr info) - unat (hm_addr it)"
    using N(1) by (simp add: unat_sub word_le_nat_alt)
  have A: "unat (ai_addr info + ai_length info) = unat (ai_addr info) + unat (ai_length info)"
    using assms(1) by (rule unat_add_no_wrap)
  have P: "0 < unat (ai_length info)" using assms(2) by (simp add: unat_gt_0)
  show "range_of (mstx_left info it) \<union> range_of (mstx_right info it) = range_of it - ai_range info"
    using N by (auto simp: range_of_def ai_range_def mstx_left_def mstx_right_def L A R)
  show "ai_range info \<subseteq> range_of it" using N by (auto simp: range_of_def ai_range_def)
  show "mstx_left info it \<noteq> it"
  proof
    assume "mstx_left info it = it"
    then have "hm_size it = ai_addr info - hm_addr it" by (cases it) (simp add: mstx_left_def)
    with L N P show False by simp
  qed
  show "mstx_right info it \<noteq> it"
  proof
    assume "mstx_right info it = it"
    then have "hm_addr it = ai_addr info + ai_length info" by (cases it) (simp add: mstx_right_def)
    with A N P show False by simp
  qed
  show "ai_addr info > hm_addr it \<longleftrightarrow> hm_size (mstx_left info it) \<noteq> 0"
    using N(1) L by (simp add: mstx_left_def word_less_nat_alt flip: unat_eq_zero) linarith
  show "hm_size (mstx_left info it) \<noteq> 0 \<Longrightarrow> proper (mstx_left info it)"
    using N assms(3) P by (simp add: proper_def no_wrap_def mstx_left_def L)
  show "hm_size (mstx_right info it) \<noteq> 0 \<Longrightarrow> proper (mstx_right info it)"
    using N assms(3) P by (simp add: proper_def no_wrap_def mstx_right_def A R)
qed

lemma ProcessMstxHeapMem_cases:
  obtains "ProcessMstxHeapMem cache info = cache"
      and "\<not> (\<exists>it \<in> set cache. IsAddrInRange (ai_addr info) (ai_length info) (hm_addr it) (hm_size it))"
  | it add where "it \<in> set cache"
      and "IsAddrInRange (ai_addr info) (ai_length info) (hm_addr it) (hm_size it)"
      and "ProcessMstxHeapMem cache info =
             oset_erase HostMemoryInfo_less it
               (fold (oset_insert HostMemoryInfo_less) add cache)"
      and "add = (if ai_addr info > hm_addr it then [mstx_left info it] else []) @
                 (if hm_size (mstx_right info it) \<noteq> 0 then [mstx_right info it] else [])"
proof (cases "find (\<lambda>it. IsAddrInRange (ai_addr info) (ai_length info) (hm_addr it) (hm_size it)) cache")
  case None
  with that(1) show thesis by (auto simp: ProcessMstxHeapMem_def find_None_iff)
next
  case (Some it)
  then have it: "it \<in> set cache" "IsAddrInRange (ai_addr info) (ai_length info) (hm_addr it) (hm_size it)"
    by (auto simp: find_Some_iff in_set_conv_nth)
  show thesis
  proof (rule that(2) [OF it _ refl])
    show "ProcessMstxHeapMem cache info =
        oset_erase HostMemoryInfo_less it (fold (oset_insert HostMemoryInfo_less)
          ((if ai_addr info > hm_addr it then [mstx_left info it] else []) @
           (if hm_size (mstx_right info it) \<noteq> 0 then [mstx_right info it] else [])) cache)"
      using Some by (auto simp: ProcessMstxHeapMem_def Let_def mstx_left_def mstx_right_def
          word_gt_0)
  qed
qed

lemma fold_hm_insert:
  "sorted_wrt HostMemoryInfo_less xs \<Longrightarrow>
   sorted_wrt HostMemoryInfo_less (fold (oset_insert HostMemoryInfo_less) add xs) \<and>
   set (fold (oset_insert HostMemoryInfo_less) add xs) = set add \<union> set xs \<and>
   length (fold (oset_insert HostMemoryInfo_less) add xs) \<le> length add + length xs"
proof (induction add arbitrary: xs)
  case (Cons a add)
  have "sorted_wrt HostMemoryInfo_less (oset_insert HostMemoryInfo_less a xs)"
    using Cons.prems by (rule hm_order.oset_insert_sorted)
  with Cons.IH [OF this] hm_insert_length [of HostMemoryInfo_less a xs] show ?case by auto
qed simp

lemma ProcessMstxHeapMem_keeps:
  assumes "sorted_wrt HostMemoryInfo_less cache" and "\<forall>r \<in> set cache. proper r"
    and "no_wrap (ai_addr info) (ai_length info)" and "ai_length info \<noteq> 0"
  shows "sorted_wrt HostMemoryInfo_less (ProcessMstxHeapMem cache info)"
    and "\<forall>r \<in> set (ProcessMstxHeapMem cache info). proper r"
    and "length (ProcessMstxHeapMem cache info) \<le> Suc (length cache)"
proof -
  have "sorted_wrt HostMemoryInfo_less (ProcessMstxHeapMem cache info) \<and>
        (\<forall>r \<in> set (ProcessMstxHeapMem cache info). proper r) \<and>
        length (ProcessMstxHeapMem cache info) \<le> Suc (length cache)"
  proof (rule ProcessMstxHeapMem_cases [of cache info], goal_cases)
    case 1
    with assms show ?thesis by simp
  next
    case (2 it add)
    let ?c = "fold (oset_insert HostMemoryInfo_less) add cache"
    note F = fold_hm_insert [OF assms(1), of add]
    have it: "proper it" using 2 assms(2) by blast
    note P = mstx_pieces [OF assms(3,4) it 2(2)]
    have "it \<in> set ?c" using F 2(1) by simp
    then have "Suc (length (oset_erase HostMemoryInfo_less it ?c)) = length ?c"
      using F hm_order.oset_erase_length by blast
    moreover have "length add \<le> 2" using 2(4) by simp
    moreover have "\<forall>r \<in> set add. proper r" using 2(4) P by auto
    ultimately show ?thesis
      using 2 F assms(2) by (auto simp: oset_erase_def sorted_wrt_filter)
  qed
  then show "sorted_wrt HostMemoryInfo_less (ProcessMstxHeapMem cache info)"
    and "\<forall>r \<in> set (ProcessMstxHeapMem cache info). proper r"
    and "length (ProcessMstxHeapMem cache info) \<le> Suc (length cache)" by simp_all
qed

lemma ProcessMstxHeapMem_cover:
  assumes "sorted_wrt HostMemoryInfo_less cache" and "\<forall>r \<in> set cache. proper r"
    and "no_wrap (ai_addr info) (ai_length info)" and "ai_length info \<noteq> 0"
    and disj: "\<forall>r \<in> set cache. \<forall>s \<in> set cache. r \<noteq> s \<longrightarrow> range_of r \<inter> range_of s = {}"
  shows "cover (ProcessMstxHeapMem cache info) =
           (if \<exists>r \<in> set cache. ai_range info \<subseteq> range_of r then cover cache - ai_range info
            else cover cache)"
proof (rule ProcessMstxHeapMem_cases [of cache info], goal_cases)
  case 1
  have P: "0 < unat (ai_length info)" using assms(4) by (simp add: unat_gt_0)
  have "IsAddrInRange (ai_addr info) (ai_length info) (hm_addr r) (hm_size r)"
    if "r \<in> set cache" and "ai_range info \<subseteq> range_of r" for r
  proof -
    have "unat (hm_addr r) \<le> unat (ai_addr info)"
      and "unat (ai_addr info) + unat (ai_length info) \<le> unat (hm_addr r) + unat (hm_size r)"
      using that(2) P by (auto simp: ai_range_def range_of_def)
    then show ?thesis
      using assms(2,3) that(1)
      by (simp add: IsAddrInRange_def word_le_nat_alt unat_add_no_wrap proper_end)
  qed
  with 1 show ?case by auto
next
  case (2 it add)
  have it: "proper it" using 2 assms(2) by blast
  note P = mstx_pieces [OF assms(3,4) it 2(2)]
  note F = fold_hm_insert [OF assms(1), of add]
  have add: "cover add = range_of it - ai_range info"
  proof -
    have "range_of r = {}" if "hm_size r = 0" for r using that by (simp add: range_of_def)
    then have "cover add = range_of (mstx_left info it) \<union> range_of (mstx_right info it)"
      using 2(4) P(5) by auto
    with P(1) show ?thesis by simp
  qed
  have "it \<notin> set add" using 2(4) P(3,4) by auto
  moreover have "set (oset_erase HostMemoryInfo_less it (fold (oset_insert HostMemoryInfo_less) add cache)) =
      (set add \<union> set cache) - {it}"
    using F 2(1) hm_order.oset_erase_set by (metis UnCI)
  ultimately have "cover (ProcessMstxHeapMem cache info) = cover add \<union> (\<Union>r \<in> set cache - {it}. range_of r)"
    using 2(3) by (auto simp: cover_def)
  also have "\<dots> = cover cache - ai_range info"
  proof -
    have "(\<Union>r \<in> set cache - {it}. range_of r) \<inter> range_of it = {}" using disj 2(1) by blast
    moreover have "cover cache = range_of it \<union> (\<Union>r \<in> set cache - {it}. range_of r)"
      using 2(1) by (auto simp: cover_def)
    ultimately show ?thesis using add P(2) by blast
  qed
  finally show ?case using 2(1) P(2) by auto
qed

section \<open>Extraction as a whole\<close>

lemma extract_step_keeps:
  assumes "sorted_wrt HostMemoryInfo_less cache" and "\<forall>r \<in> set cache. proper r"
    and "\<forall>r \<in> set ranges. proper r" and "ai_proper a"
    and "extract_step x a (ranges, cache) = (ranges', cache')"
  shows "sorted_wrt HostMemoryInfo_less cache'" and "\<forall>r \<in> set cache'. proper r"
    and "\<forall>r \<in> set ranges'. proper r"
    and "length ranges' + length cache' \<le> Suc (length ranges + length cache)"
proof -
  have p: "proper \<lparr>hm_addr = ai_addr a, hm_size = ai_length a\<rparr>" if "ai_length a \<noteq> 0"
    using that assms(4) by (simp add: proper_def ai_proper_def)
  have h: "sorted_wrt HostMemoryInfo_less (ProcessMstxHeapMem cache a) \<and>
      (\<forall>r \<in> set (ProcessMstxHeapMem cache a). proper r) \<and>
      length (ProcessMstxHeapMem cache a) \<le> Suc (length cache)" if "ai_length a \<noteq> 0"
    using ProcessMstxHeapMem_keeps [OF assms(1,2), of a] that assms(4) by (simp add: ai_proper_def)
  have i: "length (oset_insert HostMemoryInfo_less y cache) \<le> Suc (length cache)" for y
    by (rule hm_insert_length)
  have "sorted_wrt HostMemoryInfo_less cache' \<and> (\<forall>r \<in> set cache'. proper r) \<and>
        (\<forall>r \<in> set ranges'. proper r) \<and>
        length ranges' + length cache' \<le> Suc (length ranges + length cache)"
    using assms p h i hm_order.oset_insert_sorted [OF assms(1)]
    by (auto simp: extract_step_def Let_def split: if_splits)
  then show "sorted_wrt HostMemoryInfo_less cache'" and "\<forall>r \<in> set cache'. proper r"
    and "\<forall>r \<in> set ranges'. proper r"
    and "length ranges' + length cache' \<le> Suc (length ranges + length cache)" by simp_all
qed

lemma extract_fold_keeps:
  assumes "sorted_wrt HostMemoryInfo_less cache" and "\<forall>r \<in> set cache. proper r"
    and "\<forall>r \<in> set ranges. proper r" and "\<forall>a \<in> set infos. ai_proper a"
    and "fold (extract_step x) infos (ranges, cache) = (ranges', cache')"
  shows "(\<forall>r \<in> set (ranges' @ cache'). proper r) \<and>
         length (ranges' @ cache') \<le> length infos + length (ranges @ cache)"
  using assms
proof (induction infos arbitrary: ranges cache)
  case Nil
  then show ?case by auto
next
  case (Cons a infos)
  obtain r1 c1 where s: "extract_step x a (ranges, cache) = (r1, c1)" by fastforce
  have "ai_proper a" using Cons.prems(4) by simp
  note K = extract_step_keeps [OF Cons.prems(1-3) this s]
  have "\<forall>a \<in> set infos. ai_proper a" using Cons.prems(4) by simp
  moreover have "fold (extract_step x) infos (r1, c1) = (ranges', cache')"
    using Cons.prems(5) s by simp
  ultimately show ?case using Cons.IH [OF K(1-3)] K(4) by simp
qed

lemma ExtractValidMems_props:
  assumes "\<forall>a \<in> set infos. ai_proper a"
  shows "\<forall>r \<in> set (ExtractValidMems infos). proper r"
    and "length (ExtractValidMems infos) \<le> length infos"
proof -
  obtain r c where f: "fold (extract_step (hasExtra infos)) infos ([], []) = (r, c)" by fastforce
  have "(\<forall>x \<in> set (r @ c). proper x) \<and> length (r @ c) \<le> length infos"
    using extract_fold_keeps [OF _ _ _ assms f] by simp
  then show "\<forall>r \<in> set (ExtractValidMems infos). proper r"
    and "length (ExtractValidMems infos) \<le> length infos"
    by (simp_all add: ExtractValidMems_def f)
qed

definition valid_source :: "bool \<Rightarrow> AddrInfo \<Rightarrow> bool" where
  "valid_source isExtra a \<longleftrightarrow> (isExtra \<longrightarrow> ai_src a \<in> {EXTRA, MANUAL, BYPASS})"

lemma extract_fold_cover:
  assumes "x \<or> (\<forall>a \<in> set infos. ai_src a \<noteq> MSTX_HEAP)"
    and "fold (extract_step x) infos (ranges, cache) = (ranges', cache')"
  shows "cover (ranges' @ cache') =
           cover (ranges @ cache) \<union> (\<Union>a \<in> {a \<in> set infos. valid_source x a}. ai_range a)"
  using assms
proof (induction infos arbitrary: ranges cache)
  case Nil
  then show ?case by simp
next
  case (Cons a infos)
  obtain r1 c1 where s: "extract_step x a (ranges, cache) = (r1, c1)" by fastforce
  have ins: "cover (oset_insert HostMemoryInfo_less y cache) = range_of y \<union> cover cache" for y
    by (simp add: cover_def)
  have z: "ai_range a = {}" if "ai_length a = 0" using that by (simp add: ai_range_def)
  have "cover (r1 @ c1) = cover (ranges @ cache) \<union> (if valid_source x a then ai_range a else {})"
    using s Cons.prems(1) z ins
    by (auto simp: extract_step_def Let_def valid_source_def range_of_def ai_range_def split: if_splits)
  moreover have "cover (ranges' @ cache') =
      cover (r1 @ c1) \<union> (\<Union>a \<in> {a \<in> set infos. valid_source x a}. ai_range a)"
    using Cons.IH [of r1 c1] Cons.prems s by auto
  moreover have "{b \<in> set (a # infos). valid_source x b} =
      (if valid_source x a then {a} else {}) \<union> {b \<in> set infos. valid_source x b}" by auto
  ultimately show ?case by auto
qed

section \<open>Extraction with marker heaps\<close>

definition is_block :: "AddrInfo \<Rightarrow> bool" where
  "is_block a \<longleftrightarrow> ai_src a = ACL \<or> ai_src a = RT"

definition is_heap :: "AddrInfo \<Rightarrow> bool" where
  "is_heap a \<longleftrightarrow> ai_src a = MSTX_HEAP"

definition bytes_where :: "(AddrInfo \<Rightarrow> bool) \<Rightarrow> AddrInfo list \<Rightarrow> nat set" where
  "bytes_where P infos = (\<Union>a \<in> {a \<in> set infos. P a}. ai_range a)"

text \<open>
  What the records mean. With an EXTRA record only the sources EXTRA, MANUAL and BYPASS count; otherwise every
  record counts, and the bytes of marker heaps are taken out of the allocated blocks.
\<close>

definition valid_bytes :: "AddrInfo list \<Rightarrow> nat set" where
  "valid_bytes infos =
     (if hasExtra infos then bytes_where (\<lambda>a. ai_src a \<in> {EXTRA, MANUAL, BYPASS}) infos
      else bytes_where (\<lambda>a. \<not> is_block a \<and> \<not> is_heap a) infos \<union>
           (bytes_where is_block infos - bytes_where is_heap infos))"

text \<open>
  A heap that meets a block lies inside it and starts after its start, and meets no other block and no
  other heap.
\<close>

definition heaps_placed :: "AddrInfo list \<Rightarrow> bool" where
  "heaps_placed infos \<longleftrightarrow>
     (\<forall>h \<in> set infos. is_heap h \<longrightarrow>
        (\<forall>g \<in> set infos. is_heap g \<and> g \<noteq> h \<longrightarrow> ai_range g \<inter> ai_range h = {}) \<and>
        (\<forall>b \<in> set infos. is_block b \<and> ai_range b \<inter> ai_range h \<noteq> {} \<longrightarrow>
           ai_range h \<subseteq> ai_range b \<and> ai_addr b < ai_addr h \<and>
           (\<forall>c \<in> set infos. is_block c \<and> c \<noteq> b \<longrightarrow> ai_range c \<inter> ai_range b = {})))"

text \<open>What a heap still to come relies on: at most one cached range meets it, and that one contains it.\<close>

definition meets_once :: "HostMemoryInfo set \<Rightarrow> AddrInfo \<Rightarrow> bool" where
  "meets_once C h \<longleftrightarrow>
     (\<forall>r \<in> C. range_of r \<inter> ai_range h \<noteq> {} \<longrightarrow>
        ai_range h \<subseteq> range_of r \<and> (\<forall>s \<in> C. range_of s \<inter> ai_range h \<noteq> {} \<longrightarrow> s = r))"

lemma bytes_where_append [simp]: "bytes_where P (xs @ ys) = bytes_where P xs \<union> bytes_where P ys"
  by (auto simp: bytes_where_def)

lemma bytes_where_Nil [simp]: "bytes_where P [] = {}"
  by (simp add: bytes_where_def)

lemma bytes_where_Cons: "bytes_where P (a # xs) = (if P a then ai_range a else {}) \<union> bytes_where P xs"
  by (auto simp: bytes_where_def)

lemma bytes_where_single [simp]: "bytes_where P [a] = (if P a then ai_range a else {})"
  by (simp add: bytes_where_Cons)

lemma ProcessMstxHeapMem_set:
  assumes "sorted_wrt HostMemoryInfo_less cache" and "\<forall>r \<in> set cache. proper r"
    and "no_wrap (ai_addr h) (ai_length h)" and "ai_length h \<noteq> 0" and "meets_once (set cache) h"
  obtains "set (ProcessMstxHeapMem cache h) = set cache" and "cover cache \<inter> ai_range h = {}"
  | r where "r \<in> set cache" and "ai_range h \<subseteq> range_of r"
      and "\<And>x. x \<in> set (ProcessMstxHeapMem cache h) \<Longrightarrow>
             x \<in> set cache - {r} \<or> (proper x \<and> (x = mstx_left h r \<or> x = mstx_right h r))"
      and "cover (ProcessMstxHeapMem cache h) = cover cache - ai_range h"
      and "range_of (mstx_left h r) \<union> range_of (mstx_right h r) = range_of r - ai_range h"
proof -
  have P: "0 < unat (ai_length h)" using assms(4) by (simp add: unat_gt_0)
  then have start: "unat (ai_addr h) \<in> ai_range h" by (simp add: ai_range_def)
  have inr: "IsAddrInRange (ai_addr h) (ai_length h) (hm_addr r) (hm_size r)"
    if "r \<in> set cache" and "ai_range h \<subseteq> range_of r" for r
  proof -
    have "unat (hm_addr r) \<le> unat (ai_addr h)"
      and "unat (ai_addr h) + unat (ai_length h) \<le> unat (hm_addr r) + unat (hm_size r)"
      using that(2) P by (auto simp: ai_range_def range_of_def)
    then show ?thesis
      using assms(2,3) that(1)
      by (simp add: IsAddrInRange_def word_le_nat_alt unat_add_no_wrap proper_end)
  qed
  show thesis
  proof (rule ProcessMstxHeapMem_cases [of cache h], goal_cases)
    case 1
    have "cover cache \<inter> ai_range h = {}"
      using 1(2) inr assms(5) unfolding cover_def meets_once_def by blast
    with 1(1) that(1) show ?case by simp
  next
    case (2 it add)
    have it: "proper it" using 2 assms(2) by blast
    note Q = mstx_pieces [OF assms(3,4) it 2(2)]
    note F = fold_hm_insert [OF assms(1), of add]
    have e: "range_of r = {}" if "hm_size r = 0" for r using that by (simp add: range_of_def)
    have add: "cover add = range_of it - ai_range h"
    proof -
      have "cover add = range_of (mstx_left h it) \<union> range_of (mstx_right h it)"
        using 2(4) Q(5) e by (auto simp: cover_def)
      with Q(1) show ?thesis by simp
    qed
    have "it \<notin> set add" using 2(4) Q(3,4) by auto
    moreover have "set (oset_erase HostMemoryInfo_less it (fold (oset_insert HostMemoryInfo_less) add cache)) =
        (set add \<union> set cache) - {it}"
      using F 2(1) hm_order.oset_erase_set by (metis UnCI)
    ultimately have S: "set (ProcessMstxHeapMem cache h) = set add \<union> (set cache - {it})"
      using 2(3) by auto
    have mem: "proper x \<and> (x = mstx_left h it \<or> x = mstx_right h it)" if "x \<in> set add" for x
      using that 2(4) Q(5-7) by (auto split: if_splits)
    have rest: "(\<Union>r \<in> set cache - {it}. range_of r) \<inter> ai_range h = {}"
      using assms(5) 2(1) Q(2) start unfolding meets_once_def by blast
    have "cover (ProcessMstxHeapMem cache h) = cover add \<union> (\<Union>r \<in> set cache - {it}. range_of r)"
      using S by (auto simp: cover_def)
    also have "\<dots> = cover cache - ai_range h"
    proof -
      have "cover cache = range_of it \<union> (\<Union>r \<in> set cache - {it}. range_of r)"
        using 2(1) by (auto simp: cover_def)
      with rest show ?thesis using add by blast
    qed
    finally have C: "cover (ProcessMstxHeapMem cache h) = cover cache - ai_range h" .
    have "x \<in> set cache - {it} \<or> (proper x \<and> (x = mstx_left h it \<or> x = mstx_right h it))"
      if "x \<in> set (ProcessMstxHeapMem cache h)" for x
      using that S mem by blast
    from that(2) [OF 2(1) Q(2) this C Q(1)] show ?case .
  qed
qed

lemma ivl_disj_iff_nat:
  fixes a b c d :: nat
  shows "{a..<b} \<inter> {c..<d} = {} \<longleftrightarrow> b \<le> a \<or> d \<le> c \<or> b \<le> c \<or> d \<le> a"
proof
  assume d: "{a..<b} \<inter> {c..<d} = {}"
  show "b \<le> a \<or> d \<le> c \<or> b \<le> c \<or> d \<le> a"
  proof (rule ccontr)
    assume "\<not> ?thesis"
    then have "max a c \<in> {a..<b} \<inter> {c..<d}" by auto
    with d show False by simp
  qed
qed auto

lemma mstx_sides:
  assumes "no_wrap (ai_addr h) (ai_length h)" and "proper r"
    and "IsAddrInRange (ai_addr h) (ai_length h) (hm_addr r) (hm_size r)"
  shows "range_of (mstx_left h r) \<subseteq> {..<unat (ai_addr h)}"
    and "range_of (mstx_right h r) \<subseteq> {unat (ai_addr h) + unat (ai_length h)..}"
proof -
  note N = in_range_nat [OF assms]
  have "unat (ai_addr h - hm_addr r) = unat (ai_addr h) - unat (hm_addr r)"
    using N(1) by (simp add: unat_sub word_le_nat_alt)
  then show "range_of (mstx_left h r) \<subseteq> {..<unat (ai_addr h)}"
    using N(1) by (auto simp: range_of_def mstx_left_def)
  show "range_of (mstx_right h r) \<subseteq> {unat (ai_addr h) + unat (ai_length h)..}"
    using assms(1) by (auto simp: range_of_def mstx_right_def unat_add_no_wrap)
qed

text \<open>An interval disjoint from the heap lies on one side of it.\<close>

lemma heap_sides:
  assumes "ai_length h \<noteq> 0" and "ai_range g \<inter> ai_range h = {}"
  shows "ai_range g \<subseteq> {..<unat (ai_addr h)} \<or> ai_range g \<subseteq> {unat (ai_addr h) + unat (ai_length h)..}"
proof -
  have "0 < unat (ai_length h)" using assms(1) by (simp add: unat_gt_0)
  moreover have "ai_range g = {} \<or>
      unat (ai_addr g) + unat (ai_length g) \<le> unat (ai_addr h) \<or>
      unat (ai_addr h) + unat (ai_length h) \<le> unat (ai_addr g)"
    using assms(2) calculation unfolding ai_range_def ivl_disj_iff_nat by auto
  ultimately show ?thesis by (auto simp: ai_range_def)
qed

lemma piece_meets:
  assumes "no_wrap (ai_addr h) (ai_length h)" and "ai_length h \<noteq> 0" and "proper r"
    and "IsAddrInRange (ai_addr h) (ai_length h) (hm_addr r) (hm_size r)"
    and "ai_range g \<subseteq> range_of r" and "ai_range g \<inter> ai_range h = {}" and "ai_range g \<noteq> {}"
  shows "ai_range g \<subseteq> range_of (mstx_left h r) \<and> range_of (mstx_right h r) \<inter> ai_range g = {} \<or>
         ai_range g \<subseteq> range_of (mstx_right h r) \<and> range_of (mstx_left h r) \<inter> ai_range g = {}"
proof -
  note S = mstx_sides [OF assms(1,3,4)]
  note Q = mstx_pieces(1) [OF assms(1,2,3,4)]
  have in_pieces: "ai_range g \<subseteq> range_of (mstx_left h r) \<union> range_of (mstx_right h r)"
    using Q assms(5,6) by blast
  from heap_sides [OF assms(2,6)] show ?thesis
  proof
    assume "ai_range g \<subseteq> {..<unat (ai_addr h)}"
    then have "range_of (mstx_right h r) \<inter> ai_range g = {}" using S(2) by force
    with in_pieces show ?thesis by blast
  next
    assume g: "ai_range g \<subseteq> {unat (ai_addr h) + unat (ai_length h)..}"
    have "range_of (mstx_left h r) \<inter> ai_range g = {}"
      using S(1) g by force
    with in_pieces show ?thesis by blast
  qed
qed

lemma meets_once_after:
  assumes "sorted_wrt HostMemoryInfo_less cache" and "\<forall>r \<in> set cache. proper r"
    and "no_wrap (ai_addr h) (ai_length h)" and "ai_length h \<noteq> 0" and "meets_once (set cache) h"
    and "meets_once (set cache) g" and "ai_range g \<inter> ai_range h = {}"
  shows "meets_once (set (ProcessMstxHeapMem cache h)) g"
proof (rule ProcessMstxHeapMem_set [OF assms(1-5)], goal_cases)
  case 1
  with assms(6) show ?case by simp
next
  case (2 r)
  let ?new = "set (ProcessMstxHeapMem cache h)" and ?l = "mstx_left h r" and ?rt = "mstx_right h r"
  have r: "proper r" using 2(1) assms(2) by blast
  have inr: "IsAddrInRange (ai_addr h) (ai_length h) (hm_addr r) (hm_size r)"
  proof -
    have "0 < unat (ai_length h)" using assms(4) by (simp add: unat_gt_0)
    then have "unat (hm_addr r) \<le> unat (ai_addr h)"
      and "unat (ai_addr h) + unat (ai_length h) \<le> unat (hm_addr r) + unat (hm_size r)"
      using 2(2) by (auto simp: ai_range_def range_of_def)
    then show ?thesis
      using assms(3) r by (simp add: IsAddrInRange_def word_le_nat_alt unat_add_no_wrap proper_end)
  qed
  have old: "ai_range g \<subseteq> range_of x \<and> (\<forall>y \<in> set cache. range_of y \<inter> ai_range g \<noteq> {} \<longrightarrow> y = x)"
    if "x \<in> set cache" and "range_of x \<inter> ai_range g \<noteq> {}" for x
    using assms(6) that unfolding meets_once_def by blast
  show ?case
  proof (cases "range_of r \<inter> ai_range g = {}")
    case True
    then have "range_of ?l \<inter> ai_range g = {}" and "range_of ?rt \<inter> ai_range g = {}"
      using 2(5) by blast+
    then have "x \<in> set cache" if "x \<in> ?new" and "range_of x \<inter> ai_range g \<noteq> {}" for x
      using that 2(3) by blast
    with old show ?thesis unfolding meets_once_def by blast
  next
    case False
    with old 2(1) have g: "ai_range g \<subseteq> range_of r"
      and uniq: "\<forall>y \<in> set cache. range_of y \<inter> ai_range g \<noteq> {} \<longrightarrow> y = r" by blast+
    have piece: "x = ?l \<or> x = ?rt" if "x \<in> ?new" and "range_of x \<inter> ai_range g \<noteq> {}" for x
      using 2(3) [OF that(1)] that(2) uniq by blast
    have "ai_range g \<noteq> {}" using False by blast
    from piece_meets [OF assms(3,4) r inr g assms(7) this] show ?thesis
      unfolding meets_once_def using piece by blast
  qed
qed

definition heap_inv ::
  "AddrInfo list \<Rightarrow> AddrInfo list \<Rightarrow> HostMemoryInfo list \<Rightarrow> HostMemoryInfo list \<Rightarrow> bool" where
  "heap_inv pre suf ranges cache \<longleftrightarrow>
     sorted_wrt HostMemoryInfo_less cache \<and> (\<forall>r \<in> set cache. proper r) \<and> (\<forall>r \<in> set ranges. proper r) \<and>
     cover ranges = bytes_where (\<lambda>a. \<not> is_block a \<and> \<not> is_heap a) pre \<and>
     cover cache = bytes_where is_block pre - bytes_where is_heap pre \<and>
     (\<forall>h \<in> set suf. is_heap h \<longrightarrow> meets_once (set cache) h)"

lemma heap_inv_block:
  assumes "heap_inv pre (a # suf) ranges cache" and "is_block a" and "ai_length a \<noteq> 0" and "ai_proper a"
    and "sorted_wrt AddrInfo_less (pre @ a # suf)" and "heaps_placed (pre @ a # suf)"
  shows "heap_inv (pre @ [a]) suf ranges
    (oset_insert HostMemoryInfo_less \<lparr>hm_addr = ai_addr a, hm_size = ai_length a\<rparr> cache)"
proof -
  let ?i = "\<lparr>hm_addr = ai_addr a, hm_size = ai_length a\<rparr>"
  have ri: "range_of ?i = ai_range a" by (simp add: range_of_def ai_range_def)
  have nh: "\<not> is_heap a" using assms(2) by (auto simp: is_block_def is_heap_def)
  have apart: "ai_range a \<inter> ai_range h = {}" if "h \<in> set pre" and "is_heap h" for h
  proof (rule ccontr)
    assume "ai_range a \<inter> ai_range h \<noteq> {}"
    then have "ai_addr a < ai_addr h"
      using assms(2,6) that unfolding heaps_placed_def by (metis in_set_conv_decomp append.assoc Un_iff set_append list.set_intros(1))
    moreover have "AddrInfo_less h a" using assms(5) that(1) by (simp add: sorted_wrt_append)
    ultimately show False by (simp add: AddrInfo_less_def split: if_splits)
  qed
  have once: "meets_once (insert ?i (set cache)) h" if h: "h \<in> set suf" "is_heap h" for h
  proof (cases "ai_range a \<inter> ai_range h = {}")
    case True
    have "meets_once (set cache) h" using assms(1) h by (simp add: heap_inv_def)
    with True ri show ?thesis unfolding meets_once_def by blast
  next
    case False
    have H: "ai_range h \<subseteq> ai_range a \<and> (\<forall>c \<in> set (pre @ a # suf). is_block c \<and> c \<noteq> a \<longrightarrow> ai_range c \<inter> ai_range a = {})"
      using assms(2,6) h False unfolding heaps_placed_def by (metis Un_iff set_append list.set_intros)
    have "range_of r \<inter> ai_range h = {}" if "r \<in> set cache" for r
    proof -
      have "range_of r \<subseteq> bytes_where is_block pre"
        using that assms(1) unfolding heap_inv_def cover_def by blast
      moreover have "bytes_where is_block pre \<inter> ai_range a = {}"
      proof -
        have "c \<noteq> a" if "c \<in> set pre" for c
          using assms(5) that by (auto simp: sorted_wrt_append AddrInfo_less_def)
        with H show ?thesis unfolding bytes_where_def by auto
      qed
      ultimately show ?thesis using H by blast
    qed
    with H ri show ?thesis unfolding meets_once_def by blast
  qed
  have "cover (oset_insert HostMemoryInfo_less ?i cache) = ai_range a \<union> cache_bytes"
    if "cache_bytes = cover cache" for cache_bytes
    using that ri by (simp add: cover_def)
  moreover have "ai_range a \<inter> bytes_where is_heap pre = {}"
    using apart unfolding bytes_where_def by blast
  ultimately have "cover (oset_insert HostMemoryInfo_less ?i cache) =
      bytes_where is_block (pre @ [a]) - bytes_where is_heap (pre @ [a])"
    using assms(1,2) nh unfolding heap_inv_def by auto
  moreover have "proper ?i" using assms(3,4) by (simp add: proper_def ai_proper_def)
  ultimately show ?thesis
    using assms(1,2) once hm_order.oset_insert_sorted by (auto simp: heap_inv_def)
qed

lemma heap_inv_heap:
  assumes "heap_inv pre (a # suf) ranges cache" and "is_heap a" and "ai_length a \<noteq> 0" and "ai_proper a"
    and "sorted_wrt AddrInfo_less (pre @ a # suf)" and "heaps_placed (pre @ a # suf)"
  shows "heap_inv (pre @ [a]) suf ranges (ProcessMstxHeapMem cache a)"
proof -
  have nb: "\<not> is_block a" using assms(2) by (auto simp: is_block_def is_heap_def)
  have nw: "no_wrap (ai_addr a) (ai_length a)" using assms(3,4) by (simp add: ai_proper_def)
  have c: "sorted_wrt HostMemoryInfo_less cache" "\<forall>r \<in> set cache. proper r" "meets_once (set cache) a"
    using assms(1,2) by (simp_all add: heap_inv_def)
  note K = ProcessMstxHeapMem_keeps [OF c(1,2) nw assms(3)]
  have once: "meets_once (set (ProcessMstxHeapMem cache a)) h" if h: "h \<in> set suf" "is_heap h" for h
  proof (rule meets_once_after [OF c(1,2) nw assms(3) c(3)])
    show "meets_once (set cache) h" using assms(1) h by (simp add: heap_inv_def)
    have "AddrInfo_less a h" using assms(5) h by (simp add: sorted_wrt_append)
    then have "h \<noteq> a" by (auto simp: AddrInfo_less_def)
    with assms(2,6) h show "ai_range h \<inter> ai_range a = {}" unfolding heaps_placed_def by auto
  qed
  have "cover (ProcessMstxHeapMem cache a) = cover cache - ai_range a"
    by (rule ProcessMstxHeapMem_set [OF c(1,2) nw assms(3) c(3)]) (auto simp: cover_def)
  then have "cover (ProcessMstxHeapMem cache a) =
      bytes_where is_block (pre @ [a]) - bytes_where is_heap (pre @ [a])"
    using assms(1,2) nb unfolding heap_inv_def by auto
  then show ?thesis using assms(1,2) K once by (simp add: heap_inv_def)
qed

lemma heap_inv_step:
  assumes "heap_inv pre (a # suf) ranges cache" and "ai_proper a"
    and "sorted_wrt AddrInfo_less (pre @ a # suf)" and "heaps_placed (pre @ a # suf)"
  shows "case extract_step False a (ranges, cache) of (r, c) \<Rightarrow> heap_inv (pre @ [a]) suf r c"
proof (cases "ai_length a = 0")
  case True
  then have "ai_range a = {}" by (simp add: ai_range_def)
  with True assms(1) show ?thesis by (simp add: extract_step_def heap_inv_def)
next
  case False
  show ?thesis
  proof (cases "is_block a \<or> is_heap a")
    case True
    then show ?thesis
      using heap_inv_block [OF assms(1) _ False assms(2-4)] heap_inv_heap [OF assms(1) _ False assms(2-4)] False
      by (auto simp: extract_step_def is_block_def is_heap_def Let_def)
  next
    case F: False
    let ?i = "\<lparr>hm_addr = ai_addr a, hm_size = ai_length a\<rparr>"
    have "proper ?i" using False assms(2) by (simp add: proper_def ai_proper_def)
    moreover have "cover (ranges @ [?i]) = cover ranges \<union> ai_range a"
      by (auto simp: cover_def range_of_def ai_range_def)
    moreover have "extract_step False a (ranges, cache) = (ranges @ [?i], cache)"
      using F False by (simp add: extract_step_def is_block_def is_heap_def Let_def)
    ultimately show ?thesis using F assms(1) by (auto simp: heap_inv_def)
  qed
qed

lemma heap_inv_fold:
  "heap_inv pre suf ranges cache \<Longrightarrow> \<forall>a \<in> set suf. ai_proper a \<Longrightarrow>
   sorted_wrt AddrInfo_less (pre @ suf) \<Longrightarrow> heaps_placed (pre @ suf) \<Longrightarrow>
   case fold (extract_step False) suf (ranges, cache) of (r, c) \<Rightarrow> heap_inv (pre @ suf) [] r c"
proof (induction suf arbitrary: pre ranges cache)
  case (Cons a suf)
  obtain r c where s: "extract_step False a (ranges, cache) = (r, c)" by fastforce
  have "heap_inv (pre @ [a]) suf r c"
    using heap_inv_step [OF Cons.prems(1) _ Cons.prems(3,4)] Cons.prems(2) s by simp
  from Cons.IH [OF this] Cons.prems(2-4) show ?case by (simp add: s)
qed simp

lemma ExtractValidMems_heaps:
  assumes "\<forall>a \<in> set infos. ai_proper a" and "sorted_wrt AddrInfo_less infos"
    and "hasExtra infos \<or> heaps_placed infos"
  shows "cover (ExtractValidMems infos) = valid_bytes infos"
proof -
  obtain r c where f: "fold (extract_step (hasExtra infos)) infos ([], []) = (r, c)" by fastforce
  show ?thesis
  proof (cases "hasExtra infos")
    case True
    have "cover (r @ c) = (\<Union>a \<in> {a \<in> set infos. valid_source True a}. ai_range a)"
      using extract_fold_cover [of True infos "[]" "[]" r c] f True by simp
    then show ?thesis
      using True f by (simp add: ExtractValidMems_def valid_bytes_def bytes_where_def valid_source_def)
  next
    case False
    have "heap_inv [] infos [] []" by (simp add: heap_inv_def meets_once_def)
    from heap_inv_fold [OF this assms(1)] assms(2,3) f False
    have "heap_inv infos [] r c" by simp
    moreover have "cover (r @ c) = cover r \<union> cover c" by (simp add: cover_def)
    ultimately show ?thesis using False f by (simp add: ExtractValidMems_def valid_bytes_def heap_inv_def)
  qed
qed

lemma cover_set: "set xs = set ys \<Longrightarrow> cover xs = cover ys"
  by (simp add: cover_def)

lemma merge_sorted_props:
  assumes "\<forall>r \<in> set rs. proper r"
  shows "normal_ranges (merge_ranges (sort_key hm_addr rs))"
    and "cover (merge_ranges (sort_key hm_addr rs)) = cover rs"
    and "length (merge_ranges (sort_key hm_addr rs)) \<le> length rs"
proof -
  have p: "\<forall>r \<in> set (sort_key hm_addr rs). proper r" using assms by simp
  have s: "sorted (map hm_addr (sort_key hm_addr rs))" by simp
  note M = merge_ranges_props [OF p s]
  show "normal_ranges (merge_ranges (sort_key hm_addr rs))" by (rule M(1))
  show "cover (merge_ranges (sort_key hm_addr rs)) = cover rs"
    using M(2) cover_set [of "sort_key hm_addr rs" rs] by simp
  show "length (merge_ranges (sort_key hm_addr rs)) \<le> length rs" using M(3) by simp
qed

lemma MergeHostMems_shape:
  assumes "mm_infos m \<noteq> []" and "mm_count m \<noteq> 0"
  shows "MergeHostMems m =
    (let ms = merge_ranges (sort_key hm_addr (ExtractValidMems (mm_infos m)))
     in ms @ replicate (unat (mm_count m) - length ms) \<lparr>hm_addr = 0, hm_size = 0\<rparr>)"
  using assms by (simp add: MergeHostMems_def Let_def)

lemma cover_padding [simp]: "cover (replicate n \<lparr>hm_addr = 0, hm_size = 0\<rparr>) = {}"
  by (simp add: cover_def range_of_def)

section \<open>The record count\<close>

text \<open>
  The operations as their callers issue them. \<open>LaunchOp\<close> is what a kernel launch does: it reserves a
  slot per input and one for tiling, and queues an empty marker record that selects the filter.
\<close>

datatype mm_op =
    CacheOp u64 MemInfoSrc u64
  | UncacheOp u64 MemInfoSrc
  | LaunchOp nat MemInfoSrc
  | UpdateOp

definition reserve_launch :: "nat \<Rightarrow> MemInfoSrc \<Rightarrow> memory_manage \<Rightarrow> memory_manage" where
  "reserve_launch inputs infoSrc m =
     (let m1 = CacheMemoryCount (word_of_nat (inputs + 1)) m
      in if inputs > 0 then CacheMemory_MALLOC 0 infoSrc 0 False m1 else m1)"

fun mm_exec :: "mm_op \<Rightarrow> memory_manage \<Rightarrow> memory_manage" where
  "mm_exec (CacheOp a s l) m = CacheMemory_MALLOC a s l True m"
| "mm_exec (UncacheOp a s) m = snd (CacheMemory_FREE a s m)"
| "mm_exec (LaunchOp n s) m = reserve_launch n s m"
| "mm_exec UpdateOp m = UpdateMemoryOp m"

fun mm_cost :: "mm_op \<Rightarrow> nat" where
  "mm_cost (CacheOp a s l) = 1"
| "mm_cost (UncacheOp a s) = 0"
| "mm_cost (LaunchOp n s) = n + 1"
| "mm_cost UpdateOp = 0"

definition mm_inv :: "nat \<Rightarrow> memory_manage \<Rightarrow> bool" where
  "mm_inv b m \<longleftrightarrow> sorted_wrt AddrInfo_less (mm_infos m) \<and>
     length (mm_infos m) \<le> unat (mm_count m) \<and> unat (mm_count m) \<le> b"

lemma unat_add_u32: "unat (a :: u32) + n < 2 ^ 32 \<Longrightarrow> unat (a + word_of_nat n) = unat a + n"
  by (simp add: unat_word_ariths unat_of_nat)

lemma mm_inv_step:
  assumes "mm_inv b m" and "b + mm_cost op < 2 ^ 32"
  shows "mm_inv (b + mm_cost op) (mm_exec op m)"
proof (cases op)
  case (CacheOp a s l)
  let ?i = "\<lparr>ai_addr = a, ai_length = l, ai_src = s, ai_desc = DEFAULT, ai_paramsNo = 0\<rparr>"
  have "unat (mm_count m + 1) = unat (mm_count m) + 1"
    using unat_add_u32 [of "mm_count m" 1] assms CacheOp by (simp add: mm_inv_def)
  moreover have "length (oset_insert AddrInfo_less ?i (mm_infos m)) \<le> Suc (length (mm_infos m))"
    by (rule hm_insert_length)
  ultimately show ?thesis
    using assms CacheOp ai_order.oset_insert_sorted
    by (simp add: mm_inv_def CacheMemory_MALLOC_def Let_def)
next
  case (UncacheOp a s)
  show ?thesis
  proof (cases "find (\<lambda>it. ai_addr it = a \<and> IsSameMemInfoSrc (ai_src it) s) (mm_infos m)")
    case None
    with assms UncacheOp show ?thesis by (simp add: CacheMemory_FREE_def)
  next
    case (Some it)
    then have it: "it \<in> set (mm_infos m)" by (auto simp: find_Some_iff in_set_conv_nth)
    then have "Suc 0 \<le> length (mm_infos m)" by (cases "mm_infos m") auto
    then have "Suc 0 \<le> unat (mm_count m)" using assms(1) unfolding mm_inv_def by linarith
    then have "1 \<le> mm_count m" by (simp add: word_le_nat_alt)
    then have "unat (mm_count m - 1) = unat (mm_count m) - 1" by (simp add: unat_sub)
    moreover have "Suc (length (oset_erase AddrInfo_less it (mm_infos m))) = length (mm_infos m)"
      using assms(1) it by (simp add: mm_inv_def ai_order.oset_erase_length)
    ultimately show ?thesis
      using assms Some UncacheOp ai_order.oset_erase_sorted
      by (auto simp: CacheMemory_FREE_def mm_inv_def)
  qed
next
  case (LaunchOp n s)
  let ?i = "\<lparr>ai_addr = 0, ai_length = 0, ai_src = s, ai_desc = DEFAULT, ai_paramsNo = 0\<rparr>"
  have "unat (mm_count m + word_of_nat (n + 1)) = unat (mm_count m) + (n + 1)"
    using assms LaunchOp by (intro unat_add_u32) (simp add: mm_inv_def)
  moreover have "length (oset_insert AddrInfo_less ?i (mm_infos m)) \<le> Suc (length (mm_infos m))"
    by (rule hm_insert_length)
  ultimately show ?thesis
    using assms LaunchOp ai_order.oset_insert_sorted
    by (cases "n = 0") (simp_all add: mm_inv_def reserve_launch_def CacheMemoryCount_def CacheMemory_MALLOC_def Let_def)
next
  case UpdateOp
  let ?k = "filter (\<lambda>it. ai_addr it \<noteq> 0 \<and> ai_length it \<noteq> 0) (mm_infos m)"
  have "length ?k \<le> length (mm_infos m)" by simp
  also have "\<dots> \<le> b" using assms(1) by (simp add: mm_inv_def)
  finally have "length ?k \<le> b" .
  with assms UpdateOp show ?thesis
    by (simp add: mm_inv_def UpdateMemoryOp_def Let_def unat_of_nat sorted_wrt_filter)
qed

lemma mm_inv_run:
  "mm_inv b m \<Longrightarrow> b + sum_list (map mm_cost ops) < 2 ^ 32 \<Longrightarrow>
   mm_inv (b + sum_list (map mm_cost ops)) (fold mm_exec ops m)"
proof (induction ops arbitrary: b m)
  case (Cons op ops)
  then show ?case using mm_inv_step [of b m op] by (fastforce simp: add.assoc)
qed simp

lemma MergeHostMems_covers:
  assumes "\<forall>a \<in> set (mm_infos m). ai_proper a"
    and "mm_infos m \<noteq> []" and "mm_count m \<noteq> 0"
    and "hasExtra (mm_infos m) \<or> (\<forall>a \<in> set (mm_infos m). ai_src a \<noteq> MSTX_HEAP)"
  shows "\<exists>ms k. MergeHostMems m = ms @ replicate k \<lparr>hm_addr = 0, hm_size = 0\<rparr> \<and>
           normal_ranges ms \<and>
           cover ms = (\<Union>a \<in> {a \<in> set (mm_infos m). valid_source (hasExtra (mm_infos m)) a}. ai_range a)"
proof -
  let ?x = "hasExtra (mm_infos m)"
  let ?ms = "merge_ranges (sort_key hm_addr (ExtractValidMems (mm_infos m)))"
  note E = ExtractValidMems_props [OF assms(1)]
  obtain r c where f: "fold (extract_step ?x) (mm_infos m) ([], []) = (r, c)" by fastforce
  have "cover (ExtractValidMems (mm_infos m)) = (\<Union>a \<in> {a \<in> set (mm_infos m). valid_source ?x a}. ai_range a)"
    using extract_fold_cover [OF assms(4) f] f by (simp add: ExtractValidMems_def)
  moreover note merge_sorted_props [OF E(1)]
  ultimately show ?thesis
    using MergeHostMems_shape [OF assms(2,3)] by (metis (no_types, lifting))
qed

section \<open>Properties\<close>

text \<open>
  C23: The list handed to the kernel is a list of disjoint, non-adjacent, ascending ranges followed by
  empty padding, and it covers exactly the valid bytes of the records: with an EXTRA record the bytes of the EXTRA,
  MANUAL and BYPASS records, otherwise those of every record, except that the bytes of marker heaps are taken
  out of the blocks allocated with the runtime. This is after any sequence of allocations, frees, launches and updates in which
  the additions to the count stay below 2^32 and no recorded range wraps, provided that there is an EXTRA record or every heap that
  meets a block lies inside it, starts after it, and meets no other heap, the block meeting no other block. (A heap that
  starts where its block starts is not taken out: lemma \<open>heap_at_block_start_kept\<close>.)
\<close>

theorem merge_covers_valid:
  assumes "sum_list (map mm_cost ops) < 2 ^ 32"
    and "m = fold mm_exec ops init_memory_manage"
    and "\<forall>a \<in> set (mm_infos m). ai_proper a"
    and "hasExtra (mm_infos m) \<or> heaps_placed (mm_infos m)"
  shows "\<exists>ms k. MergeHostMems m = ms @ replicate k \<lparr>hm_addr = 0, hm_size = 0\<rparr> \<and>
           normal_ranges ms \<and> cover ms = valid_bytes (mm_infos m)"
proof (cases "mm_infos m = []")
  case True
  then have "MergeHostMems m = [] @ replicate 0 \<lparr>hm_addr = 0, hm_size = 0\<rparr>" by (simp add: MergeHostMems_def)
  moreover have "normal_ranges [] \<and> cover [] = valid_bytes (mm_infos m)"
    using True by (simp add: normal_ranges_def valid_bytes_def)
  ultimately show ?thesis by blast
next
  case False
  have "mm_inv 0 init_memory_manage" by (simp add: mm_inv_def init_memory_manage_def)
  from mm_inv_run [OF this, of ops] assms(1,2)
  have inv: "sorted_wrt AddrInfo_less (mm_infos m)" "length (mm_infos m) \<le> unat (mm_count m)"
    by (simp_all add: mm_inv_def)
  then have c: "mm_count m \<noteq> 0" using False by auto
  note M = merge_sorted_props [OF ExtractValidMems_props(1) [OF assms(3)]]
  show ?thesis
    using MergeHostMems_shape [OF False c] M(1,2) ExtractValidMems_heaps [OF assms(3) inv(1) assms(4)]
    by (metis (no_types, lifting))
qed

definition demo_memory :: memory_manage where
  "demo_memory = fold mm_exec
     [CacheOp 0x1000 ACL 0x200, CacheOp 0x1100 RT 0x200, CacheOp 0x5000 MANUAL 0x10, CacheOp 0x6000 ACL 0x10,
      UncacheOp 0x6000 RT] init_memory_manage"

lemma demo_memory_value:
  "demo_memory = \<lparr>mm_infos =
     [\<lparr>ai_addr = 0x1000, ai_length = 0x200, ai_src = ACL, ai_desc = DEFAULT, ai_paramsNo = 0\<rparr>,
      \<lparr>ai_addr = 0x1100, ai_length = 0x200, ai_src = RT, ai_desc = DEFAULT, ai_paramsNo = 0\<rparr>,
      \<lparr>ai_addr = 0x5000, ai_length = 0x10, ai_src = MANUAL, ai_desc = DEFAULT, ai_paramsNo = 0\<rparr>],
     mm_count = 3\<rparr>"
  by (simp add: demo_memory_def init_memory_manage_def CacheMemory_MALLOC_def CacheMemory_FREE_def
      AddrInfo_less_def IsSameMemInfoSrc_def oset_erase_def less_MemInfoSrc_def)

definition demo_heap_ops :: "mm_op list" where
  "demo_heap_ops =
     [CacheOp 0x1000 ACL 0x200, CacheOp 0x1100 MSTX_HEAP 0x80, CacheOp 0x1110 MSTX_REGION 0x10, CacheOp 0x5000 RT 0x10]"

lemma demo_heap_infos:
  "mm_infos (fold mm_exec demo_heap_ops init_memory_manage) =
     [\<lparr>ai_addr = 0x1000, ai_length = 0x200, ai_src = ACL, ai_desc = DEFAULT, ai_paramsNo = 0\<rparr>,
      \<lparr>ai_addr = 0x1100, ai_length = 0x80, ai_src = MSTX_HEAP, ai_desc = DEFAULT, ai_paramsNo = 0\<rparr>,
      \<lparr>ai_addr = 0x1110, ai_length = 0x10, ai_src = MSTX_REGION, ai_desc = DEFAULT, ai_paramsNo = 0\<rparr>,
      \<lparr>ai_addr = 0x5000, ai_length = 0x10, ai_src = RT, ai_desc = DEFAULT, ai_paramsNo = 0\<rparr>]"
  by (simp add: demo_heap_ops_def init_memory_manage_def CacheMemory_MALLOC_def AddrInfo_less_def)

theorem merge_covers_valid_witness:
  "\<exists>ms k. MergeHostMems (fold mm_exec demo_heap_ops init_memory_manage) =
       ms @ replicate k \<lparr>hm_addr = 0, hm_size = 0\<rparr> \<and>
     normal_ranges ms \<and> cover ms = {0x1000..<0x1100} \<union> {0x1110..<0x1120} \<union> {0x1180..<0x1200} \<union> {0x5000..<0x5010}"
proof -
  let ?m = "fold mm_exec demo_heap_ops init_memory_manage"
  have "valid_bytes (mm_infos ?m) =
      {0x1110..<0x1120} \<union> ({0x1000..<0x1200} \<union> {0x5000..<0x5010} - {0x1100..<0x1180})"
    unfolding demo_heap_infos valid_bytes_def
    by (simp add: hasExtra_def bytes_where_Cons is_block_def is_heap_def ai_range_def)
  moreover have "\<dots> = {0x1000..<0x1100} \<union> {0x1110..<0x1120} \<union> {0x1180..<0x1200} \<union> {0x5000..<0x5010}"
    by (rule set_eqI) (simp, arith)
  moreover have "heaps_placed (mm_infos ?m)"
    unfolding demo_heap_infos by (auto simp: heaps_placed_def is_block_def is_heap_def ai_range_def)
  moreover have "\<forall>a \<in> set (mm_infos ?m). ai_proper a"
    unfolding demo_heap_infos by (simp add: ai_proper_def no_wrap_def)
  moreover have "sum_list (map mm_cost demo_heap_ops) < 2 ^ 32" by (simp add: demo_heap_ops_def)
  ultimately show ?thesis using merge_covers_valid [OF _ refl, of demo_heap_ops] by metis
qed

text \<open>
  C24: The table of host ranges has room for the list. After any sequence of allocations, frees, launches and updates in which
  the additions to the count stay below 2^32 and no recorded range wraps, the list has exactly as many entries as the count
  the kernel is told; only when nothing is recorded at all it is empty, whatever a launch reserved.
\<close>

theorem merge_length_is_count:
  assumes "sum_list (map mm_cost ops) < 2 ^ 32"
    and "m = fold mm_exec ops init_memory_manage"
    and "\<forall>a \<in> set (mm_infos m). ai_proper a"
  shows "length (MergeHostMems m) = (if mm_infos m = [] then 0 else unat (mm_count m))"
proof (cases "mm_infos m = []")
  case True
  then show ?thesis by (simp add: MergeHostMems_def)
next
  case False
  have "mm_inv 0 init_memory_manage" by (simp add: mm_inv_def init_memory_manage_def)
  from mm_inv_run [OF this, of ops] assms(1,2)
  have inv: "length (mm_infos m) \<le> unat (mm_count m)" by (simp add: mm_inv_def)
  then have c: "mm_count m \<noteq> 0" using False by auto
  note E = ExtractValidMems_props [OF assms(3)]
  have "length (merge_ranges (sort_key hm_addr (ExtractValidMems (mm_infos m)))) \<le> unat (mm_count m)"
    using merge_sorted_props(3) [OF E(1)] E(2) inv by linarith
  then show ?thesis using MergeHostMems_shape [OF False c] False by (simp add: Let_def)
qed

theorem merge_length_is_count_witness:
  "length (MergeHostMems demo_memory) = unat (mm_count demo_memory)"
  using merge_length_is_count [OF _ demo_memory_def] by (simp add: demo_memory_value ai_proper_def no_wrap_def)

text \<open>
  \<open>std::sort\<close> may order ranges with the same start address either way; the merged list does not
  depend on it.
\<close>

lemma merge_order_irrelevant:
  assumes "set rs = set rs'" and "sorted (map hm_addr rs)" and "sorted (map hm_addr rs')"
    and "\<forall>r \<in> set rs. proper r"
  shows "merge_ranges rs = merge_ranges rs'"
proof (rule normal_ranges_unique)
  show "normal_ranges (merge_ranges rs)" using assms by (intro merge_ranges_props)
  show "normal_ranges (merge_ranges rs')" using assms by (intro merge_ranges_props) auto
  show "cover (merge_ranges rs) = cover (merge_ranges rs')"
    using assms merge_ranges_props(2) cover_set [OF assms(1)] by metis
qed

text \<open>
  registering a heap range inside an allocated block takes exactly the heap's bytes out of the
  valid memory, and a heap range outside every block changes nothing.
\<close>

lemma mstx_heap_subtracted:
  assumes "sorted_wrt HostMemoryInfo_less cache" and "\<forall>r \<in> set cache. proper r"
    and "no_wrap (ai_addr info) (ai_length info)" and "ai_length info \<noteq> 0"
    and "\<forall>r \<in> set cache. \<forall>s \<in> set cache. r \<noteq> s \<longrightarrow> range_of r \<inter> range_of s = {}"
  shows "cover (ProcessMstxHeapMem cache info) =
           (if \<exists>r \<in> set cache. ai_range info \<subseteq> range_of r then cover cache - ai_range info
            else cover cache)"
  by (rule ProcessMstxHeapMem_cover [OF assms])

text \<open>
  a heap range that starts where its block starts, but is shorter, is met before the block in the
  order of the set, so nothing is taken out: the whole block stays valid memory.
\<close>

lemma heap_at_block_start_kept:
  fixes a l1 l2 :: u64
  defines "heap \<equiv> \<lparr>ai_addr = a, ai_length = l1, ai_src = MSTX_HEAP, ai_desc = DEFAULT, ai_paramsNo = 0\<rparr>"
    and "block \<equiv> \<lparr>ai_addr = a, ai_length = l2, ai_src = ACL, ai_desc = DEFAULT, ai_paramsNo = 0\<rparr>"
  assumes "l1 < l2" and "l1 \<noteq> 0"
  shows "ExtractValidMems (oset_insert AddrInfo_less heap (oset_insert AddrInfo_less block [])) =
           [\<lparr>hm_addr = a, hm_size = l2\<rparr>]"
  using assms(3,4)
  by (auto simp: heap_def block_def AddrInfo_less_def ExtractValidMems_def hasExtra_def
      extract_step_def ProcessMstxHeapMem_def Let_def)

end
