(* ===== verification/MetaData.thy ===== *)
theory MetaData
  imports MemoryManage
begin

text \<open>
  The kernel meta data section (\<open>csrc/runtime/inject_helpers/KernelMetaDataParser.{h,cpp}\<close>): the operator
  memory description \<open>OpMemInfo\<close> and the parser that fills it. An index is a \<open>uint32_t\<close> and wraps; a read
  past the end of the vector is \<open>Fault\<close>.
\<close>

section \<open>Operator memory information\<close>

record SecondPtrInfo =
  sp_dtypeBytes :: u64
  sp_addrInfoVec :: "AddrInfo list"

record OpMemInfo =
  om_inputs :: "AddrInfo list"
  om_secondPtr :: "(u64 \<times> SecondPtrInfo) list"
  om_unique :: "AddrInfo list"
  om_inputNum :: u32
  om_skipNum :: u32
  om_tilingDataSize :: u64
  om_isForSetException :: bool
  om_isTik :: bool
  om_hasMc2Ctx :: bool
  om_isFFTS :: bool
  om_hasOverflowAddr :: bool
  om_overflowAddr :: u64

definition empty_OpMemInfo :: OpMemInfo where
  "empty_OpMemInfo =
     \<lparr>om_inputs = [], om_secondPtr = [], om_unique = [], om_inputNum = 0, om_skipNum = 0,
      om_tilingDataSize = 0, om_isForSetException = False, om_isTik = False, om_hasMc2Ctx = False,
      om_isFFTS = False, om_hasOverflowAddr = False, om_overflowAddr = 0\<rparr>"

text \<open>\<open>Clear\<close> leaves the overflow address alone.\<close>

definition OpMemInfo_Clear :: "OpMemInfo \<Rightarrow> OpMemInfo" where
  "OpMemInfo_Clear m =
     m\<lparr>om_inputs := [], om_secondPtr := [], om_unique := [], om_inputNum := 0, om_skipNum := 0,
       om_tilingDataSize := 0, om_isForSetException := False, om_isTik := False,
       om_hasMc2Ctx := False, om_isFFTS := False\<rparr>"

definition RT_DEV_BINARY_MAGIC_ELF :: u32 where
  "RT_DEV_BINARY_MAGIC_ELF = 0x43554245"

definition NeedAddFftsAddr :: "string \<Rightarrow> bool" where
  "NeedAddFftsAddr socVersion =
     (if str_contains socVersion ''Ascend310P'' \<or> str_contains socVersion ''Ascend950'' then False else True)"

definition SetFftsInfo :: "string \<Rightarrow> u32 \<Rightarrow> OpMemInfo \<Rightarrow> OpMemInfo" where
  "SetFftsInfo soc magic m =
     (if \<not> NeedAddFftsAddr soc then m
      else let isMix = om_skipNum m \<noteq> 0 \<or> magic = RT_DEV_BINARY_MAGIC_ELF
           in if isMix then m\<lparr>om_skipNum := 1, om_isFFTS := True\<rparr> else m\<lparr>om_isFFTS := False\<rparr>)"

section \<open>Enumerations of the section\<close>

datatype DfxTensorType =
  INVALID_TENSOR | GENERAL_TENSOR | INPUT_TENSOR | OUTPUT_TENSOR | WORKSPACE_TENSOR | ASCENDC_LOG
  | MC2_CTX | TILING_DATA | L1 | L2 | OVERFLOW_MES | FFTS_ADDRESS | SHAPE_TENSOR

datatype DfxPointerType =
  INVALID_POINTER | LEVEL_1_POINTER | LEVEL_2_POINTER | LEVEL_2_POINTER_WITH_SHAPE
  | SHAPE_TENSOR_PLACEHOLD

text \<open>The enumerator with a given value; other values of the underlying type have none.\<close>

definition DfxTensorType_of :: "u32 \<Rightarrow> DfxTensorType option" where
  "DfxTensorType_of = map_of
     [(0, INVALID_TENSOR), (1, GENERAL_TENSOR), (2, INPUT_TENSOR), (3, OUTPUT_TENSOR),
      (4, WORKSPACE_TENSOR), (5, ASCENDC_LOG), (6, MC2_CTX), (7, TILING_DATA), (8, L1), (9, L2),
      (10, OVERFLOW_MES), (11, FFTS_ADDRESS), (12, SHAPE_TENSOR)]"

definition DfxPointerType_of :: "u32 \<Rightarrow> DfxPointerType option" where
  "DfxPointerType_of = map_of
     [(0, INVALID_POINTER), (1, LEVEL_1_POINTER), (2, LEVEL_2_POINTER),
      (3, LEVEL_2_POINTER_WITH_SHAPE), (4, SHAPE_TENSOR_PLACEHOLD)]"

definition IsSupportDfxPointPtr :: "DfxPointerType option \<Rightarrow> bool" where
  "IsSupportDfxPointPtr type =
     (case type of
        Some LEVEL_1_POINTER \<Rightarrow> True
      | Some LEVEL_2_POINTER_WITH_SHAPE \<Rightarrow> True
      | Some SHAPE_TENSOR_PLACEHOLD \<Rightarrow> True
      | _ \<Rightarrow> False)"

section \<open>Reads\<close>

definition byte_at :: "u8 list \<Rightarrow> nat \<Rightarrow> u8 option" where
  "byte_at d i = (if i < length d then Some (d ! i) else None)"

text \<open>Two bytes at the \<open>uint32_t\<close> indices \<open>hi\<close> and \<open>lo\<close>, the first one shifted left by eight.\<close>

definition u16_at :: "u8 list \<Rightarrow> u32 \<Rightarrow> u32 \<Rightarrow> u32 option" where
  "u16_at d hi lo =
     (case (byte_at d (unat hi), byte_at d (unat lo)) of
        (Some h, Some l) \<Rightarrow> Some (push_bit 8 (ucast h) + ucast l)
      | _ \<Rightarrow> None)"

definition be64_loop :: "u8 list \<Rightarrow> nat \<Rightarrow> u64" where
  "be64_loop d off = fold (\<lambda>i acc. acc OR push_bit ((7 - i) * 8) (ucast (d ! (i + off)))) [0..<8] 0"

definition be64_at :: "u8 list \<Rightarrow> nat \<Rightarrow> u64 option" where
  "be64_at d off = (if off + 8 \<le> length d then Some (be64_loop d off) else None)"

section \<open>Handlers\<close>

definition sizeof_HcclCombinOpParam :: u64 where
  "sizeof_HcclCombinOpParam = 8888"

definition ParseMetaInput :: "u8 list \<Rightarrow> u32 \<Rightarrow> u32 \<Rightarrow> OpMemInfo \<Rightarrow> OpMemInfo option" where
  "ParseMetaInput d index paramsNo m =
     (if length d < unat (8 + index) then Some m
      else case be64_at d (unat index) of
        None \<Rightarrow> None
      | Some len \<Rightarrow> Some (m\<lparr>om_inputs := om_inputs m @
          [\<lparr>ai_addr = 0, ai_length = len, ai_src = EXTRA, ai_desc = INPUT, ai_paramsNo = ucast paramsNo\<rparr>]\<rparr>))"

definition ParseMetaMc2Ctx :: "u8 list \<Rightarrow> u32 \<Rightarrow> u32 \<Rightarrow> OpMemInfo \<Rightarrow> OpMemInfo option" where
  "ParseMetaMc2Ctx d index paramsNo m =
     Some (m\<lparr>om_inputs := om_inputs m @
         [\<lparr>ai_addr = 0, ai_length = sizeof_HcclCombinOpParam, ai_src = EXTRA,
           ai_desc = HCCL_MC2_CONTEXT, ai_paramsNo = 0\<rparr>],
       om_hasMc2Ctx := True\<rparr>)"

definition ParseMetaFfts :: "string \<Rightarrow> u8 list \<Rightarrow> u32 \<Rightarrow> u32 \<Rightarrow> OpMemInfo \<Rightarrow> OpMemInfo option" where
  "ParseMetaFfts soc d index paramsNo m = Some (SetFftsInfo soc 0 m)"

definition ParseMetaTiling :: "u8 list \<Rightarrow> u32 \<Rightarrow> u32 \<Rightarrow> OpMemInfo \<Rightarrow> OpMemInfo option" where
  "ParseMetaTiling d index paramsNo m =
     (if length d < unat (8 + index) then Some m
      else case be64_at d (unat index) of
        None \<Rightarrow> None
      | Some len \<Rightarrow> Some (m\<lparr>om_tilingDataSize := len\<rparr>))"

text \<open>The dispatch table the constructor of the parser fills.\<close>

definition dfxParser ::
  "string \<Rightarrow> u8 list \<Rightarrow> DfxTensorType \<Rightarrow> (u32 \<Rightarrow> u32 \<Rightarrow> OpMemInfo \<Rightarrow> OpMemInfo option) option" where
  "dfxParser soc d = map_of
     [(GENERAL_TENSOR, ParseMetaInput d), (INPUT_TENSOR, ParseMetaInput d),
      (OUTPUT_TENSOR, ParseMetaInput d), (WORKSPACE_TENSOR, ParseMetaInput d),
      (FFTS_ADDRESS, ParseMetaFfts soc d), (TILING_DATA, ParseMetaTiling d),
      (MC2_CTX, ParseMetaMc2Ctx d), (SHAPE_TENSOR, ParseMetaInput d)]"

section \<open>The parser\<close>

text \<open>The dtype of a double pointer is recorded under the parameter's index.\<close>

definition note_second_ptr ::
  "u8 list \<Rightarrow> u32 \<Rightarrow> u32 \<Rightarrow> DfxPointerType option \<Rightarrow> OpMemInfo \<Rightarrow> OpMemInfo option" where
  "note_second_ptr d index paramsIdx ptrType m =
     (if ptrType = Some LEVEL_2_POINTER_WITH_SHAPE
      then (case be64_at d (unat index + 16) of
              None \<Rightarrow> None
            | Some dtypeBytes \<Rightarrow>
                Some (m\<lparr>om_secondPtr := omap_insert (ucast paramsIdx)
                  \<lparr>sp_dtypeBytes = dtypeBytes, sp_addrInfoVec = []\<rparr> (om_secondPtr m)\<rparr>))
      else Some m)"

text \<open>
  One round of the loop of \<open>ParseKernelArgs\<close>: it goes on with a new index, leaves the loop (an unknown
  type breaks, an unsupported pointer returns), or reads past the end.
\<close>

datatype args_next = Continue u32 u32 OpMemInfo | Leave u32 OpMemInfo | BadRead

definition args_step :: "string \<Rightarrow> u8 list \<Rightarrow> u32 \<Rightarrow> u32 \<Rightarrow> OpMemInfo \<Rightarrow> args_next" where
  "args_step soc d index0 paramsIdx m =
     (case u16_at d (index0 + 2) (index0 + 3) of
        None \<Rightarrow> BadRead
      | Some numOfUint64 \<Rightarrow>
          if numOfUint64 = 0 then Continue (index0 + 4) paramsIdx m
          else let index = index0 + 4 in
            (case u16_at d (index + 6) (index + 7) of
               None \<Rightarrow> BadRead
             | Some type \<Rightarrow>
                 (case u16_at d (index + 4) (index + 5) of
                    None \<Rightarrow> BadRead
                  | Some ptrType \<Rightarrow>
                      (case Option.bind (DfxTensorType_of type) (dfxParser soc d) of
                         None \<Rightarrow> Leave (index + numOfUint64 * 8) m
                       | Some func \<Rightarrow>
                           if \<not> IsSupportDfxPointPtr (DfxPointerType_of ptrType)
                           then Leave index (OpMemInfo_Clear m)
                           else
                             (case note_second_ptr d index paramsIdx (DfxPointerType_of ptrType) m of
                                None \<Rightarrow> BadRead
                              | Some m1 \<Rightarrow>
                                  (case func (index + 8) (paramsIdx + 1) m1 of
                                     None \<Rightarrow> BadRead
                                   | Some m2 \<Rightarrow>
                                       Continue (index + 8 + (numOfUint64 - 1) * 8) (paramsIdx + 1) m2))))))"

fun args_loop ::
  "nat \<Rightarrow> string \<Rightarrow> u8 list \<Rightarrow> u32 \<Rightarrow> u32 \<Rightarrow> u32 \<Rightarrow> OpMemInfo \<Rightarrow> (u32 \<times> OpMemInfo) outcome" where
  "args_loop 0 soc d dfxRange index paramsIdx m = OutOfFuel"
| "args_loop (Suc fuel) soc d dfxRange index paramsIdx m =
     (if \<not> (index < dfxRange \<and> unat (index + 7) < length d) then Done (index, m)
      else case args_step soc d index paramsIdx m of
        Continue index' paramsIdx' m' \<Rightarrow> args_loop fuel soc d dfxRange index' paramsIdx' m'
      | Leave index' m' \<Rightarrow> Done (index', m')
      | BadRead \<Rightarrow> Fault)"

definition ParseKernelArgs ::
  "nat \<Rightarrow> string \<Rightarrow> u8 list \<Rightarrow> u32 \<Rightarrow> OpMemInfo \<Rightarrow> (u32 \<times> OpMemInfo) outcome" where
  "ParseKernelArgs fuel soc d index m =
     (case u16_at d (index + 1) index of
        None \<Rightarrow> Fault
      | Some dfxLen \<Rightarrow> args_loop fuel soc d (dfxLen + (index + 2)) (index + 2) 0 m)"

fun parse_loop ::
  "nat \<Rightarrow> string \<Rightarrow> u8 list \<Rightarrow> u32 \<Rightarrow> OpMemInfo \<Rightarrow> (bool \<times> OpMemInfo) outcome" where
  "parse_loop 0 soc d index m = OutOfFuel"
| "parse_loop (Suc fuel) soc d index m =
     (if \<not> ucast index < (word_of_nat (length d) - 1 :: u64) then Done (True, m)
      else case u16_at d (index + 1) index of
        None \<Rightarrow> Fault
      | Some type \<Rightarrow>
          let index = index + 2 in
          if unat (index + 2) > length d then Done (False, m)
          else if type = 4 then
            (case ParseKernelArgs fuel soc d index m of
               Done (index', m') \<Rightarrow>
                 if om_inputs m' = [] then Done (False, m') else parse_loop fuel soc d index' m'
             | Fault \<Rightarrow> Fault
             | OutOfFuel \<Rightarrow> OutOfFuel)
          else
            (let m1 = (if type = 6 then m\<lparr>om_isTik := True\<rparr> else m)
             in case u16_at d (index + 1) index of
                  None \<Rightarrow> Fault
                | Some len \<Rightarrow> parse_loop fuel soc d (index + (2 + len)) m1))"

definition Parse :: "string \<Rightarrow> u8 list \<Rightarrow> (bool \<times> OpMemInfo) outcome" where
  "Parse soc d = parse_loop (length d + 2) soc d 0 empty_OpMemInfo"

section \<open>The parser always stops\<close>

lemma unat_ucast_u8: "unat (ucast (b :: u8) :: u32) = unat b"
proof -
  have "unat b < 256" using unsigned_less [of b] by simp
  then show ?thesis by (simp add: unsigned_ucast_eq take_bit_eq_mod)
qed

lemma unat_u16_value: "unat (push_bit 8 (ucast (h :: u8)) + ucast (l :: u8) :: u32) = 256 * unat h + unat l"
proof -
  have b: "unat h < 256" "unat l < 256"
    using unsigned_less [of h] unsigned_less [of l] by simp_all
  have "unat (push_bit 8 (ucast h) :: u32) = 256 * unat h"
    using b by (simp add: push_bit_eq_mult unat_word_ariths unat_ucast_u8)
  with b show ?thesis by (simp add: unat_word_ariths unat_ucast_u8)
qed

lemma u16_at_bound: "u16_at d i j = Some v \<Longrightarrow> unat v < 65536"
proof -
  assume "u16_at d i j = Some v"
  then obtain h l where v: "v = push_bit 8 (ucast (h :: u8)) + ucast (l :: u8)"
    by (auto simp: u16_at_def split: option.splits)
  have "unat h < 256" "unat l < 256"
    using unsigned_less [of h] unsigned_less [of l] by simp_all
  then show ?thesis unfolding v by (simp add: unat_u16_value)
qed

lemma unat_add_small: "unat (i :: u32) + k < 4294967296 \<Longrightarrow> unat (i + word_of_nat k) = unat i + k"
  by (simp add: unat_word_ariths unat_of_nat)

text \<open>Indices stay below \<open>2 ^ 31 + 2 ^ 20\<close>, so that no sum of the loop wraps.\<close>

definition index_ok :: "u32 \<Rightarrow> bool" where
  "index_ok i \<longleftrightarrow> unat i < 2 ^ 31 + 2 ^ 20"

lemma index_add:
  assumes "index_ok i" and "k \<le> 2 ^ 21"
  shows "unat (i + word_of_nat k) = unat i + k"
  using assms by (intro unat_add_small) (simp add: index_ok_def)

lemma index_skip:
  assumes "index_ok i" and "unat i + 7 < 2 ^ 31" and "unat n < 65536"
  shows "unat (i + 4 + n * 8) = unat i + 4 + unat n * 8" and "index_ok (i + 4 + n * 8)"
proof -
  have "unat (n * 8) = unat n * 8" using assms(3) by (simp add: unat_word_ariths)
  moreover have "unat (i + 4) = unat i + 4" using assms(2) by (simp add: unat_word_ariths)
  ultimately show u: "unat (i + 4 + n * 8) = unat i + 4 + unat n * 8"
    using assms(2,3) by (simp add: unat_word_ariths)
  show "index_ok (i + 4 + n * 8)" unfolding index_ok_def u using assms(2,3) by simp
qed

lemma args_step_index:
  "case args_step soc d i p m of
     Continue i' p' m' \<Rightarrow> \<exists>n. unat n < 65536 \<and> i' = i + 4 + n * 8
   | Leave i' m' \<Rightarrow> \<exists>n. unat n < 65536 \<and> i' = i + 4 + n * 8
   | BadRead \<Rightarrow> True"
proof (cases "u16_at d (i + 2) (i + 3)")
  case None
  then show ?thesis by (simp add: args_step_def)
next
  case (Some n)
  have "unat n < 65536" using Some by (rule u16_at_bound)
  moreover have "i + 4 + 8 + (n - 1) * 8 = i + 4 + n * 8" by (simp add: algebra_simps)
  moreover have "\<exists>k. unat k < 65536 \<and> i + 4 = i + 4 + k * (8 :: u32)"
    by (rule exI [of _ 0]) simp
  ultimately show ?thesis
    using Some by (auto simp: args_step_def Let_def split: option.split)
qed

text \<open>The parser stopped, and where it goes on is not before \<open>lo\<close>.\<close>

definition stops :: "nat \<Rightarrow> (u32 \<times> OpMemInfo) outcome \<Rightarrow> bool" where
  "stops lo x \<longleftrightarrow> (case x of Done (i, m) \<Rightarrow> lo \<le> unat i \<and> index_ok i | Fault \<Rightarrow> True | OutOfFuel \<Rightarrow> False)"

lemma stops_simps [simp]:
  "stops lo (Done (i, m)) \<longleftrightarrow> lo \<le> unat i \<and> index_ok i" "stops lo Fault" "\<not> stops lo OutOfFuel"
  by (simp_all add: stops_def)

lemma stops_mono: "stops lo x \<Longrightarrow> lo' \<le> lo \<Longrightarrow> stops lo' x"
  by (auto simp: stops_def split: outcome.splits)

lemma args_loop_stops:
  assumes "length d < 2 ^ 31" and "index_ok index" and "0 < fuel" and "length d < unat index + fuel"
  shows "stops (unat index) (args_loop fuel soc d r index p m)"
  using assms
proof (induction fuel arbitrary: index p m)
  case 0
  then show ?case by simp
next
  case (Suc fuel)
  show ?case
  proof (cases "index < r \<and> unat (index + 7) < length d")
    case False
    with Suc.prems show ?thesis by (simp only: args_loop.simps if_True not_False_eq_True) simp
  next
    case True
    then have len: "unat index + 7 < length d" using index_add [OF Suc.prems(2), of 7] by simp
    then have fuel: "7 < fuel" using Suc.prems(4) by simp
    have l: "unat index + 7 < 2 ^ 31" using len Suc.prems(1) by simp
    note S = index_skip [OF Suc.prems(2) l]
    have rec: "stops (unat index) (args_loop fuel soc d r (index + 4 + n * 8) p m)"
      if n: "unat n < 65536" for n p m
    proof -
      have "stops (unat (index + 4 + n * 8)) (args_loop fuel soc d r (index + 4 + n * 8) p m)"
        using Suc.IH [OF Suc.prems(1) S(2) [OF n]] S(1) [OF n] fuel Suc.prems(4) by simp
      then show ?thesis using S(1) [OF n] by (simp add: stops_mono)
    qed
    show ?thesis
      using True rec args_step_index [where soc = soc and d = d and i = index and p = p and m = m] S
      by (auto split: args_next.splits)
  qed
qed

lemma ParseKernelArgs_stops:
  assumes "length d < 2 ^ 31" and "index_ok i" and "unat i + 2 \<le> length d" and "length d < unat i + 2 + fuel"
    and "0 < fuel"
  shows "stops (unat i + 2) (ParseKernelArgs fuel soc d i m)"
proof -
  have u: "unat (i + 2) = unat i + 2" using index_add [OF assms(2), of 2] by simp
  then have "index_ok (i + 2)" using assms(1,3) by (simp add: index_ok_def)
  from args_loop_stops [OF assms(1) this assms(5)] assms(4) u show ?thesis
    by (auto simp: ParseKernelArgs_def split: option.splits)
qed

lemma below_last: "0 < length d \<Longrightarrow> length d < 2 ^ 31 \<Longrightarrow>
  ucast (i :: u32) < (word_of_nat (length d) - 1 :: u64) \<longleftrightarrow> unat i < length d - 1"
proof -
  assume l: "0 < length d" "length d < 2 ^ 31"
  have "unat i < 4294967296" using unsigned_less [of i] by simp
  then have "unat (ucast i :: u64) = unat i" by (simp add: unsigned_ucast_eq take_bit_eq_mod)
  moreover have "unat (word_of_nat (length d) :: u64) = length d" using l by (simp add: unat_of_nat)
  moreover have "unat (word_of_nat (length d) - 1 :: u64) = length d - 1"
    using l calculation by (subst unat_sub) (auto simp: word_le_nat_alt Suc_le_eq)
  ultimately show ?thesis by (simp add: word_less_nat_alt)
qed

lemma parse_loop_stops:
  assumes "length d < 2 ^ 31" and "0 < length d" and "index_ok i" and "0 < fuel" and "length d < unat i + fuel"
  shows "parse_loop fuel soc d i m \<noteq> OutOfFuel"
  using assms
proof (induction fuel arbitrary: i m)
  case 0
  then show ?case by simp
next
  case (Suc fuel)
  note P = Suc.prems
  show ?case
  proof (cases "unat i < length d - 1")
    case False
    then show ?thesis using below_last [OF P(2,1), of i] by simp
  next
    case True
    have u2: "unat (i + 2) = unat i + 2" and u4: "unat (i + 2 + 2) = unat i + 4"
      using index_add [OF P(3), of 2] index_add [OF P(3), of 4] by (simp_all add: add.assoc)
    have ok2: "index_ok (i + 2)" using True P(1) u2 by (simp add: index_ok_def)
    show ?thesis
    proof (cases "unat (i + 2 + 2) > length d")
      case over: True
      then show ?thesis by (auto simp: Let_def split: option.splits)
    next
      case False
      then have room: "unat i + 4 \<le> length d" using u4 by simp
      then have f: "0 < fuel" "length d < unat i + 4 + fuel" using P(5) by simp_all
      have args: "stops (unat (i + 2) + 2) (ParseKernelArgs fuel soc d (i + 2) m)"
        using P(1) ok2 u2 room f by (intro ParseKernelArgs_stops) simp_all
      have rec: "parse_loop fuel soc d j m' \<noteq> OutOfFuel" if "index_ok j" "unat i + 4 \<le> unat j" for j m'
        using that f P(1,2) by (intro Suc.IH) auto
      have skip: "index_ok (i + 2 + (2 + n)) \<and> unat i + 4 \<le> unat (i + 2 + (2 + n))" if "unat n < 65536" for n
      proof -
        have "unat (2 + n) = 2 + unat n" using that by (simp add: unat_word_ariths)
        then have "unat (i + 2 + (2 + n)) = unat i + 4 + unat n"
          using that u2 room P(1) by (simp add: unat_word_ariths)
        then show ?thesis using that room P(1) by (simp add: index_ok_def)
      qed
      show ?thesis
        using True False args rec skip u2 below_last [OF P(2,1), of i] u16_at_bound
        by (auto simp: Let_def stops_def split: option.splits outcome.splits)
    qed
  qed
qed

section \<open>Writing a description\<close>

text \<open>
  The layout the compiler writes, for tensor parameters: two unused bytes, the number of 8-byte words,
  four unused bytes, the pointer type, the tensor type (big-endian), the length and further words.
\<close>

record meta_arg =
  ma_type :: DfxTensorType
  ma_length :: u64
  ma_words :: nat
  ma_rest :: "u8 list"

definition be16_bytes :: "nat \<Rightarrow> u8 list" where
  "be16_bytes n = [word_of_nat (n div 256), word_of_nat (n mod 256)]"

definition be64_bytes :: "u64 \<Rightarrow> u8 list" where
  "be64_bytes v = map (\<lambda>i. ucast (drop_bit ((7 - i) * 8) v)) [0..<8]"

primrec tensor_code :: "DfxTensorType \<Rightarrow> nat" where
  "tensor_code INVALID_TENSOR = 0" | "tensor_code GENERAL_TENSOR = 1" | "tensor_code INPUT_TENSOR = 2"
| "tensor_code OUTPUT_TENSOR = 3" | "tensor_code WORKSPACE_TENSOR = 4" | "tensor_code ASCENDC_LOG = 5"
| "tensor_code MC2_CTX = 6" | "tensor_code TILING_DATA = 7" | "tensor_code L1 = 8" | "tensor_code L2 = 9"
| "tensor_code OVERFLOW_MES = 10" | "tensor_code FFTS_ADDRESS = 11" | "tensor_code SHAPE_TENSOR = 12"

definition arg_bytes :: "meta_arg \<Rightarrow> u8 list" where
  "arg_bytes a = [0, 0] @ be16_bytes (ma_words a + 2) @ [0, 0, 0, 0] @ be16_bytes 1 @
     be16_bytes (tensor_code (ma_type a)) @ be64_bytes (ma_length a) @ ma_rest a"

definition tensor_arg :: "meta_arg \<Rightarrow> bool" where
  "tensor_arg a \<longleftrightarrow>
     ma_type a \<in> {GENERAL_TENSOR, INPUT_TENSOR, OUTPUT_TENSOR, WORKSPACE_TENSOR, SHAPE_TENSOR} \<and>
     length (ma_rest a) = 8 * ma_words a \<and> ma_words a < 8000"

definition dfx_block :: "meta_arg list \<Rightarrow> u8 list" where
  "dfx_block args = (let body = concat (map arg_bytes args) in
     [4, 0, word_of_nat (length body mod 256), word_of_nat (length body div 256)] @ body)"

primrec inputs_from :: "u32 \<Rightarrow> meta_arg list \<Rightarrow> AddrInfo list" where
  "inputs_from p [] = []"
| "inputs_from p (a # as) =
     \<lparr>ai_addr = 0, ai_length = ma_length a, ai_src = EXTRA, ai_desc = INPUT, ai_paramsNo = ucast (p + 1)\<rparr>
     # inputs_from (p + 1) as"

lemma tensor_code_of: "DfxTensorType_of (word_of_nat (tensor_code t)) = Some t"
  by (cases t) (simp_all add: DfxTensorType_of_def)

lemma tensor_code_bound: "tensor_code t < 65536"
  by (cases t) simp_all

lemma upt8: "[0..<8] = [0, 1, 2, 3, 4, 5, 6, 7 :: nat]"
  by (simp add: upt_rec)

lemma byte_bits:
  "bit (push_bit k (ucast (ucast (drop_bit k v) :: u8)) :: u64) n \<longleftrightarrow> k \<le> n \<and> n < k + 8 \<and> n < 64 \<and> bit v n"
  by (cases "k \<le> n") (auto simp: bit_simps)

lemma be64_value:
  "fold (\<lambda>i acc. acc OR push_bit ((7 - i) * 8) (ucast (be64_bytes v ! i))) [0..<8] 0 = v"
proof -
  note zero = byte_bits [of 0, simplified]
  show ?thesis
    by (simp add: be64_bytes_def upt8, rule bit_word_eqI)
      (simp only: bit_or_iff byte_bits zero, auto)
qed

lemma length_be64_bytes [simp]: "length (be64_bytes v) = 8"
  by (simp add: be64_bytes_def)

lemma be64_at_read:
  assumes "drop off d = be64_bytes v @ rest"
  shows "be64_at d off = Some v"
proof -
  have "length (drop off d) = 8 + length rest" using assms by simp
  then have l: "off + 8 \<le> length d" by simp
  have "d ! (i + off) = be64_bytes v ! i" if "i < 8" for i
  proof -
    have "d ! (i + off) = drop off d ! i" using l by (simp add: add.commute)
    with that show ?thesis by (simp add: assms nth_append)
  qed
  then have "be64_loop d off = fold (\<lambda>i acc. acc OR push_bit ((7 - i) * 8) (ucast (be64_bytes v ! i))) [0..<8] 0"
    unfolding be64_loop_def by (intro fold_cong) auto
  with l show ?thesis by (simp add: be64_at_def be64_value)
qed

lemma byte_at_drop: "drop n d = s \<Longrightarrow> byte_at d (n + k) = byte_at s k"
  by (auto simp: byte_at_def)

lemma u16_value:
  assumes "n < 65536"
  shows "push_bit 8 (ucast (word_of_nat (n div 256) :: u8)) + ucast (word_of_nat (n mod 256) :: u8) =
           (word_of_nat n :: u32)"
proof -
  have "unat (word_of_nat (n div 256) :: u8) = n div 256" and "unat (word_of_nat (n mod 256) :: u8) = n mod 256"
    using assms by (simp_all add: unat_of_nat)
  then have "unat (push_bit 8 (ucast (word_of_nat (n div 256) :: u8)) + ucast (word_of_nat (n mod 256) :: u8) :: u32) = n"
    by (simp add: unat_u16_value)
  then show ?thesis using assms by (simp add: word_unat_eq_iff unat_of_nat)
qed

lemma u16_at_read:
  assumes "byte_at d (unat i) = Some (word_of_nat (n div 256))" and "byte_at d (unat j) = Some (word_of_nat (n mod 256))"
    and "n < 65536"
  shows "u16_at d i j = Some (word_of_nat n)"
  using assms u16_value by (simp add: u16_at_def)

lemma length_arg_bytes: "tensor_arg a \<Longrightarrow> length (arg_bytes a) = 20 + 8 * ma_words a"
  by (simp add: arg_bytes_def be16_bytes_def tensor_arg_def)

lemma args_step_tensor:
  assumes t: "tensor_arg a" and d: "drop (unat i) d = arg_bytes a @ rest" and l: "length d < 2 ^ 31"
  shows "args_step soc d i p m =
           Continue (i + word_of_nat (20 + 8 * ma_words a)) (p + 1)
             (m\<lparr>om_inputs := om_inputs m @ inputs_from p [a]\<rparr>)"
proof -
  let ?n = "ma_words a + 2"
  have n: "?n < 65536" using t by (simp add: tensor_arg_def)
  have len: "unat i + 20 \<le> length d"
    using arg_cong [OF d, of length] length_arg_bytes [OF t] by simp
  then have ok: "index_ok i" using l by (simp add: index_ok_def)
  have rd: "byte_at d (unat (i + word_of_nat k)) = byte_at (arg_bytes a @ rest) k" if "k \<le> 2 ^ 21" for k
    using index_add [OF ok that] byte_at_drop [OF d] by simp
  have B: "arg_bytes a @ rest =
      [0, 0, word_of_nat (?n div 256), word_of_nat (?n mod 256), 0, 0, 0, 0, word_of_nat (1 div 256),
       word_of_nat (1 mod 256), word_of_nat (tensor_code (ma_type a) div 256),
       word_of_nat (tensor_code (ma_type a) mod 256)] @ be64_bytes (ma_length a) @ ma_rest a @ rest"
    by (simp add: arg_bytes_def be16_bytes_def)
  have num: "u16_at d (i + 2) (i + 3) = Some (word_of_nat ?n)"
    using rd [of 2] rd [of 3] n unfolding B by (intro u16_at_read) (simp_all add: byte_at_def)
  have tyc: "u16_at d (i + 4 + 6) (i + 4 + 7) = Some (word_of_nat (tensor_code (ma_type a)))"
    using rd [of 10] rd [of 11] tensor_code_bound unfolding B
    by (intro u16_at_read) (simp_all add: byte_at_def add.assoc)
  have ptr: "u16_at d (i + 4 + 4) (i + 4 + 5) = Some (word_of_nat 1)"
    using rd [of 8] rd [of 9] unfolding B by (intro u16_at_read) (simp_all add: byte_at_def add.assoc)
  have u12: "unat (i + 4 + 8) = unat i + 12" using index_add [OF ok, of 12] by (simp add: add.assoc)
  have "drop (unat i + 12) d = drop 12 (drop (unat i) d)" by (simp add: add.commute)
  also have "\<dots> = be64_bytes (ma_length a) @ (ma_rest a @ rest)" unfolding d B by simp
  finally have val: "be64_at d (unat (i + 4 + 8)) = Some (ma_length a)" unfolding u12 by (rule be64_at_read)
  have "unat (8 + (i + 4 + 8)) = unat i + 20" using index_add [OF ok, of 20] by (simp add: add.assoc add.commute)
  then have room: "\<not> length d < unat (8 + (i + 4 + 8))" using len by simp
  have inp: "ParseMetaInput d (i + 4 + 8) (p + 1) m = Some (m\<lparr>om_inputs := om_inputs m @ inputs_from p [a]\<rparr>)"
    unfolding ParseMetaInput_def using val room by simp
  have fn: "dfxParser soc d (ma_type a) = Some (ParseMetaInput d)"
    using t by (auto simp: tensor_arg_def dfxParser_def)
  have one: "DfxPointerType_of (word_of_nat 1) = Some LEVEL_1_POINTER" by (simp add: DfxPointerType_of_def)
  have "unat (word_of_nat ?n :: u32) = ?n mod 2 ^ LENGTH(32)" by (rule unat_of_nat)
  also have "\<dots> = ?n" using n by (intro mod_less) simp
  finally have nz: "word_of_nat ?n \<noteq> (0 :: u32)" by (metis add_2_eq_Suc' nat.distinct(1) unat_0)
  have nxt: "i + 4 + 8 + (word_of_nat ?n - 1) * 8 = i + word_of_nat (20 + 8 * ma_words a)"
    by (simp add: algebra_simps)
  have sup: "IsSupportDfxPointPtr (Some LEVEL_1_POINTER)" by (simp add: IsSupportDfxPointPtr_def)
  have sp: "note_second_ptr d (i + 4) p (Some LEVEL_1_POINTER) m = Some m" by (simp add: note_second_ptr_def)
  show ?thesis
    by (simp only: args_step_def Let_def num nz if_False tyc ptr option.case bind.bind_lunit
        tensor_code_of fn one sup not_True_eq_False sp inp nxt)
qed

lemma args_loop_tensors:
  assumes "\<forall>a \<in> set args. tensor_arg a" and "length d < 2 ^ 31"
    and "drop (unat i) d = concat (map arg_bytes args)" and "unat r = length d"
    and "unat i \<le> length d" and "length args < fuel"
  shows "\<exists>j. args_loop fuel soc d r i p m = Done (j, m\<lparr>om_inputs := om_inputs m @ inputs_from p args\<rparr>) \<and>
             unat j = length d"
  using assms
proof (induction args arbitrary: fuel i p m)
  case Nil
  then have "unat i = length d" by simp
  moreover obtain k where "fuel = Suc k" using Nil by (cases fuel) simp_all
  moreover have "\<not> i < r" using Nil calculation by (simp add: word_less_nat_alt)
  ultimately show ?case by simp
next
  case (Cons a args)
  obtain k where k: "fuel = Suc k" using Cons.prems(6) by (cases fuel) simp_all
  have t: "tensor_arg a" using Cons.prems(1) by simp
  let ?w = "20 + 8 * ma_words a"
  have dr: "drop (unat i) d = arg_bytes a @ concat (map arg_bytes args)" using Cons.prems(3) by simp
  have room: "unat i + ?w \<le> length d"
    using arg_cong [OF dr, of length] length_arg_bytes [OF t] by simp
  then have ok: "index_ok i" using Cons.prems(2) by (simp add: index_ok_def)
  have w: "?w \<le> 2 ^ 21" using t by (simp add: tensor_arg_def)
  have u: "unat (i + word_of_nat ?w) = unat i + ?w" using ok w by (rule index_add)
  have "i < r" and "unat (i + 7) < length d"
    using room Cons.prems(4) index_add [OF ok, of 7] by (simp_all add: word_less_nat_alt)
  moreover have "drop (unat (i + word_of_nat ?w)) d = concat (map arg_bytes args)"
  proof -
    have "drop (unat i + ?w) d = drop ?w (drop (unat i) d)" by (simp add: add.commute)
    then show ?thesis unfolding u dr by (simp add: length_arg_bytes [OF t])
  qed
  then obtain j where "args_loop k soc d r (i + word_of_nat ?w) (p + 1)
        (m\<lparr>om_inputs := om_inputs m @ inputs_from p [a]\<rparr>) =
      Done (j, m\<lparr>om_inputs := om_inputs m @ inputs_from p (a # args)\<rparr>)" and "unat j = length d"
    using Cons.IH [of "i + word_of_nat ?w" k "p + 1" "m\<lparr>om_inputs := om_inputs m @ inputs_from p [a]\<rparr>"]
      Cons.prems k u room by auto
  ultimately show ?case
    unfolding k using args_step_tensor [OF t dr Cons.prems(2)] by (simp del: of_nat_add)
qed

lemma arg_bytes_length_le: "length args \<le> length (concat (map arg_bytes args))"
  by (induction args) (simp_all add: arg_bytes_def be16_bytes_def)

lemma Parse_dfx_block:
  assumes "\<forall>a \<in> set args. tensor_arg a" and "args \<noteq> []" and "length (concat (map arg_bytes args)) < 65536"
  shows "Parse soc (dfx_block args) = Done (True, empty_OpMemInfo\<lparr>om_inputs := inputs_from 0 args\<rparr>)"
proof -
  let ?b = "concat (map arg_bytes args)" and ?d = "dfx_block args"
  let ?n = "length ?b"
  let ?m = "empty_OpMemInfo\<lparr>om_inputs := inputs_from 0 args\<rparr>"
  have D: "?d = [4, 0, word_of_nat (?n mod 256), word_of_nat (?n div 256)] @ ?b"
    by (simp add: dfx_block_def Let_def)
  have L: "length ?d = 4 + ?n" unfolding D by simp
  have len: "u16_at ?d 3 2 = Some (word_of_nat ?n)"
    using assms(3) unfolding D by (intro u16_at_read) (simp_all add: byte_at_def)
  have typ4: "u16_at ?d 1 0 = Some (word_of_nat 4)"
    unfolding D by (intro u16_at_read) (simp_all add: byte_at_def)
  have r: "unat (word_of_nat ?n + 4 :: u32) = length ?d"
    using assms(3) L by (simp add: unat_word_ariths unat_of_nat)
  have "length args < length ?d + 1" using arg_bytes_length_le [of args] L by simp
  moreover have "drop (unat (4 :: u32)) ?d = ?b" unfolding D by simp
  ultimately obtain j where j: "args_loop (length ?d + 1) soc ?d (word_of_nat ?n + 4) 4 0 empty_OpMemInfo =
      Done (j, ?m)" "unat j = length ?d"
    using args_loop_tensors [OF assms(1), of ?d 4 "word_of_nat ?n + 4" "length ?d + 1" soc 0 empty_OpMemInfo]
      assms(3) L r by (auto simp: empty_OpMemInfo_def)
  have P: "ParseKernelArgs (length ?d + 1) soc ?d 2 empty_OpMemInfo = Done (j, ?m)"
    using len j(1) by (simp add: ParseKernelArgs_def)
  have ne: "om_inputs ?m \<noteq> []" using assms(2) by (cases args) simp_all
  have small: "0 < length ?d" "length ?d < 2 ^ 31" using L assms(3) by simp_all
  have go: "ucast (0 :: u32) < (word_of_nat (length ?d) - 1 :: u64)"
    using below_last [OF small, of 0] L by simp
  have halt: "\<not> ucast j < (word_of_nat (length ?d) - 1 :: u64)"
    using below_last [OF small, of j] j(2) by simp
  have step: "parse_loop (Suc F) soc ?d 0 empty_OpMemInfo = Done (True, ?m)"
    if "ParseKernelArgs F soc ?d 2 empty_OpMemInfo = Done (j, ?m)" and F: "0 < F" for F
  proof -
    obtain G where "F = Suc G" using F by (cases F) simp_all
    then have "parse_loop F soc ?d j ?m = Done (True, ?m)" using halt by simp
    then show ?thesis using go typ4 that ne L by (simp add: Let_def)
  qed
  have "Parse soc ?d = parse_loop (Suc (length ?d + 1)) soc ?d 0 empty_OpMemInfo"
    by (simp add: Parse_def)
  also have "\<dots> = Done (True, ?m)" using P by (intro step) simp_all
  finally show ?thesis .
qed

section \<open>Properties\<close>

text \<open>
  C29: the parser stops on every section below 2 GiB, whatever bytes it holds: it accepts, rejects or
  reads past the end, but never runs out of its fuel.
\<close>

theorem metadata_parse_stops:
  assumes "length d < 2 ^ 31"
  shows "Parse soc d \<noteq> OutOfFuel"
proof (cases "length d = 0")
  case True
  then show ?thesis by (simp add: Parse_def numeral_2_eq_2 u16_at_def byte_at_def)
next
  case False
  with assms show ?thesis
    unfolding Parse_def by (intro parse_loop_stops) (simp_all add: index_ok_def)
qed

theorem metadata_parse_stops_witness: "Parse ''Ascend910B1'' [4, 0, 1, 0, 0] \<noteq> OutOfFuel"
  by (rule metadata_parse_stops) simp

text \<open>
  the tensor lengths the compiler wrote are the tensor lengths the parser reports, in order, with
  parameter numbers from 1.
\<close>

lemma metadata_roundtrip:
  assumes "\<forall>a \<in> set args. tensor_arg a" and "args \<noteq> []" and "length (concat (map arg_bytes args)) < 65536"
  shows "Parse soc (dfx_block args) = Done (True, empty_OpMemInfo\<lparr>om_inputs := inputs_from 0 args\<rparr>)"
  by (rule Parse_dfx_block [OF assms])

text \<open>
  The loop tests \<open>index + 7\<close> before it advances by four and reads up to \<open>index + 7\<close> again, so a block
  that ends 8 to 11 bytes after the start of a parameter is read past its end.
\<close>

lemma truncated_parameter_faults:
  assumes "length d < 2 ^ 31" and "unat i + 8 \<le> length d" and "length d < unat i + 12"
    and "i < r" and "u16_at d (i + 2) (i + 3) = Some n" and "n \<noteq> 0"
  shows "args_loop (Suc fuel) soc d r i p m = Fault"
proof -
  have ok: "index_ok i" using assms(1,2) by (simp add: index_ok_def)
  have u: "unat (i + 4 + 7) = unat i + 11" and "unat (i + 7) < length d"
    using index_add [OF ok, of 11] index_add [OF ok, of 7] assms(2) by (simp_all add: add.assoc)
  then have "u16_at d (i + 4 + 6) (i + 4 + 7) = None"
    using assms(3) by (simp only: u16_at_def byte_at_def u split: option.split) simp
  then have "args_step soc d i p m = BadRead"
    using assms(5,6) by (simp add: args_step_def Let_def del: of_nat_add)
  with \<open>unat (i + 7) < length d\<close> assms(4) show ?thesis by simp
qed

lemma truncated_parameter_faults_witness:
  "args_loop (Suc 5) ''Ascend910B1'' [4, 0, 8, 0, 0, 0, 0, 1, 0, 0, 0, 1] 12 4 0 empty_OpMemInfo = Fault"
  by (rule truncated_parameter_faults [where n = 1]) (simp_all add: u16_at_def byte_at_def)

end
