(* ===== verification/MsTx.thy ===== *)
theory MsTx
  imports Ustring "HOL-Library.Product_Lexorder"
begin

text \<open>
  The marker interface of \<open>csrc/runtime/inject_helpers/MsTx.{h,cpp}\<close>: ranges counted per thread, domains,
  memory heaps and memory regions. A map of the class is its list of pairs in key order; the address
  \<open>operator new\<close> gives to a new object is an argument of the operation that allocates; every public
  operation holds the class's mutex for its whole body, so it is one step.
\<close>

type_synonym tid = nat

record MemVirtualRangeDesc =
  vr_deviceId :: u32
  vr_ptr :: ptr
  vr_size :: u64

record MemHeapRangeDesc =
  hd_usage :: u32
  hd_type :: u32
  hd_range :: MemVirtualRangeDesc

text \<open>The argument of a heap registration; the pointer to the range may be null.\<close>

record MemHeapDesc =
  md_usage :: u32
  md_type :: u32
  md_specific :: "MemVirtualRangeDesc option"

record MemRegionsRegisterBatch =
  rb_heap :: ptr
  rb_descs :: "MemVirtualRangeDesc list option"
  rb_outNull :: bool

datatype MemRegionRef = PointerRef ptr | HandleRef ptr

record MemRegionsBelongInfo =
  bi_addr :: u64
  bi_size :: u64
  bi_success :: bool

definition no_belong :: MemRegionsBelongInfo where
  "no_belong = \<lparr>bi_addr = 0, bi_size = 0, bi_success = False\<rparr>"

text \<open>The settings of the profiler the class reads.\<close>

record mstx_config =
  mc_rangeReplay :: bool
  mc_enable :: bool
  mc_messages :: string

record mstx =
  mx_init :: bool
  mx_enabledInit :: bool
  mx_enabled :: "string list"
  mx_usage :: "(tid \<times> (string \<times> u64) list) list"
  mx_active :: "(u64 \<times> string) list"
  mx_invalid :: "u64 list"
  mx_rangeId :: u64
  mx_name2dom :: "(string \<times> ptr) list"
  mx_dom2name :: "(ptr \<times> string) list"
  mx_heapDesc :: "((ptr \<times> ptr) \<times> MemHeapRangeDesc) list"
  mx_heaps :: "(ptr \<times> ptr list) list"
  mx_regions :: "(ptr \<times> ptr list) list"
  mx_regionDesc :: "(ptr \<times> MemVirtualRangeDesc) list"

definition empty_mstx :: mstx where
  "empty_mstx =
     \<lparr>mx_init = False, mx_enabledInit = False, mx_enabled = [], mx_usage = [], mx_active = [],
      mx_invalid = [], mx_rangeId = 0, mx_name2dom = [], mx_dom2name = [], mx_heapDesc = [],
      mx_heaps = [], mx_regions = [], mx_regionDesc = []\<rparr>"

definition MstxAttrReset :: "bool \<Rightarrow> mstx \<Rightarrow> mstx" where
  "MstxAttrReset forceReset s =
     (if mx_init s \<and> \<not> forceReset then s
      else s\<lparr>mx_enabled := [], mx_usage := [], mx_active := [], mx_rangeId := 0, mx_name2dom := [],
             mx_dom2name := [], mx_heapDesc := [], mx_heaps := [], mx_regions := [],
             mx_regionDesc := [], mx_enabledInit := False, mx_init := True\<rparr>)"

section \<open>Ranges\<close>

text \<open>\<open>mx_enabled\<close> is a \<open>std::set\<close>: membership is all that is asked of it.\<close>

definition init_enabled :: "mstx_config \<Rightarrow> mstx \<Rightarrow> mstx" where
  "init_enabled cfg s =
     (if mx_enabledInit s then s
      else s\<lparr>mx_enabled := mx_enabled s @ SplitString (mc_messages cfg) CHR ''|'', mx_enabledInit := True\<rparr>)"

definition IsMessageEnable :: "mstx_config \<Rightarrow> string \<Rightarrow> mstx \<Rightarrow> bool \<times> mstx" where
  "IsMessageEnable cfg msg s =
     (if mc_messages cfg = [] then (True, s)
      else let s1 = init_enabled cfg s in (msg \<in> set (mx_enabled s1), s1))"

definition IsInMstxRange :: "mstx_config \<Rightarrow> tid \<Rightarrow> mstx \<Rightarrow> bool \<times> mstx" where
  "IsInMstxRange cfg t s =
     (if \<not> mc_enable cfg then (True, s)
      else if mc_messages cfg = [] then
        ((case map_of (mx_usage s) t of None \<Rightarrow> False | Some m \<Rightarrow> m \<noteq> []), s)
      else let s1 = init_enabled cfg s in
        (list_ex (\<lambda>sel. case map_of (mx_usage s1) t of None \<Rightarrow> False | Some m \<Rightarrow> map_of m sel \<noteq> None)
           (mx_enabled s1), s1))"

definition lookup_default :: "'v \<Rightarrow> ('k \<times> 'v) list \<Rightarrow> 'k \<Rightarrow> 'v" where
  "lookup_default d m k = (case map_of m k of None \<Rightarrow> d | Some v \<Rightarrow> v)"

definition usage_inc :: "tid \<Rightarrow> string \<Rightarrow> mstx \<Rightarrow> mstx" where
  "usage_inc t msg s =
     (let inner = lookup_default [] (mx_usage s) t
      in s\<lparr>mx_usage := omap_put t (omap_put msg (lookup_default 0 inner msg + 1) inner) (mx_usage s)\<rparr>)"

definition MstxRangeAdd :: "mstx_config \<Rightarrow> tid \<Rightarrow> string \<Rightarrow> mstx \<Rightarrow> u64 \<times> mstx" where
  "MstxRangeAdd cfg t message s =
     (let (valid, s1) =
        (if mc_rangeReplay cfg then
           (let (enabled, s') = IsMessageEnable cfg message s in
            if \<not> enabled then (False, s')
            else let (inRange, s'') = IsInMstxRange cfg t s' in (\<not> inRange, s''))
         else (True, s))
      in if mx_rangeId s1 = UINT64_MAX then (UINT64_MAX, s1)
         else let rid = mx_rangeId s1;
                  s2 = s1\<lparr>mx_active := omap_put rid message (mx_active s1)\<rparr>;
                  s3 = (if valid then usage_inc t message s2
                        else s2\<lparr>mx_invalid := rid # mx_invalid s2\<rparr>)
              in (rid, s3\<lparr>mx_rangeId := rid + 1\<rparr>))"

text \<open>One use of a message less: a message without uses and a thread without messages are erased.\<close>

definition usage_dec :: "tid \<Rightarrow> string \<Rightarrow> u64 \<Rightarrow> (string \<times> u64) list \<Rightarrow> mstx \<Rightarrow> mstx" where
  "usage_dec t message count inner s =
     (let count1 = (if count > 0 then count - 1 else count);
          inner1 = (if count1 = 0 then omap_erase message (omap_put message count1 inner)
                    else omap_put message count1 inner)
      in s\<lparr>mx_usage := (if inner1 = [] then omap_erase t (mx_usage s)
                        else omap_put t inner1 (mx_usage s))\<rparr>)"

text \<open>
  The locked part of \<open>MstxRangeEnd\<close>; the result tells whether the call goes on to the tail that ends a
  stream capture (in range replay mode), which is outside the class.
\<close>

definition MstxRangeEnd :: "mstx_config \<Rightarrow> tid \<Rightarrow> u64 \<Rightarrow> mstx \<Rightarrow> bool \<times> mstx" where
  "MstxRangeEnd cfg t rangeId s =
     (case map_of (mx_active s) rangeId of
        None \<Rightarrow> (False, s)
      | Some message \<Rightarrow>
          let s1 = s\<lparr>mx_active := omap_erase rangeId (mx_active s)\<rparr> in
          if rangeId \<in> set (mx_invalid s1) then (False, s1)
          else case map_of (mx_usage s1) t of
            None \<Rightarrow> (False, s1)
          | Some inner \<Rightarrow>
              (case map_of inner message of
                 None \<Rightarrow> (False, s1)
               | Some count \<Rightarrow> (mc_rangeReplay cfg, usage_dec t message count inner s1)))"

section \<open>Domains\<close>

definition MAX_DOMAIN_LENGTH :: nat where
  "MAX_DOMAIN_LENGTH = 1023"

definition MstxDomainCreateA :: "ptr \<Rightarrow> string \<Rightarrow> mstx \<Rightarrow> ptr \<times> mstx" where
  "MstxDomainCreateA new domainName s =
     (if \<not> CheckInputStringValid domainName MAX_DOMAIN_LENGTH then (0, s)
      else let s1 = (if map_of (mx_name2dom s) domainName = None
                     then s\<lparr>mx_name2dom := omap_put domainName new (mx_name2dom s)\<rparr> else s);
               dom = the (map_of (mx_name2dom s1) domainName)
           in (dom, s1\<lparr>mx_dom2name := omap_put dom domainName (mx_dom2name s1)\<rparr>))"

definition IsDomainExist :: "ptr \<Rightarrow> mstx \<Rightarrow> bool" where
  "IsDomainExist domain s = (if domain = 0 then True else map_of (mx_dom2name s) domain \<noteq> None)"

section \<open>Heaps\<close>

definition MstxMemHeapRegister :: "ptr \<Rightarrow> ptr \<Rightarrow> MemHeapDesc option \<Rightarrow> mstx \<Rightarrow> ptr \<times> mstx" where
  "MstxMemHeapRegister new domain desc s =
     (if \<not> IsDomainExist domain s then (0, s)
      else case desc of
        None \<Rightarrow> (0, s)
      | Some d \<Rightarrow>
          (case md_specific d of
             None \<Rightarrow> (0, s)
           | Some rng \<Rightarrow>
               let vec = lookup_default [] (mx_heaps s) domain @ [new];
                   basic = \<lparr>hd_usage = md_usage d, hd_type = md_type d, hd_range = rng\<rparr>
               in (new, s\<lparr>mx_heaps := omap_put domain vec (mx_heaps s),
                          mx_heapDesc := omap_put (domain, new) basic (mx_heapDesc s)\<rparr>)))"

definition MstxMemHeapUnregister ::
  "ptr \<Rightarrow> ptr \<Rightarrow> mstx \<Rightarrow> MemHeapRangeDesc option \<times> mstx" where
  "MstxMemHeapUnregister domain heap s =
     (if \<not> IsDomainExist domain s then (None, s)
      else if heap = 0 then (None, s)
      else case map_of (mx_heapDesc s) (domain, heap) of
        None \<Rightarrow> (None, s)
      | Some desc \<Rightarrow>
          (case map_of (mx_heaps s) domain of
             None \<Rightarrow> (None, s)
           | Some vec \<Rightarrow>
               (Some desc,
                s\<lparr>mx_heaps := omap_put domain (filter (\<lambda>h. h \<noteq> heap) vec) (mx_heaps s),
                  mx_heapDesc := omap_erase (domain, heap) (mx_heapDesc s)\<rparr>)))"

section \<open>Regions\<close>

definition region_push :: "ptr \<Rightarrow> ptr \<times> MemVirtualRangeDesc \<Rightarrow> mstx \<Rightarrow> mstx" where
  "region_push domain pd s =
     s\<lparr>mx_regions := omap_put domain (lookup_default [] (mx_regions s) domain @ [fst pd]) (mx_regions s),
       mx_regionDesc := omap_put (fst pd) (snd pd) (mx_regionDesc s)\<rparr>"

text \<open>\<open>mstxDomainRegionsMap_[domain]\<close> creates the entry even when no region follows.\<close>

definition regions_touch :: "ptr \<Rightarrow> mstx \<Rightarrow> mstx" where
  "regions_touch domain s =
     s\<lparr>mx_regions := omap_put domain (lookup_default [] (mx_regions s) domain) (mx_regions s)\<rparr>"

definition MstxMemRegionsRegister ::
  "ptr list \<Rightarrow> ptr \<Rightarrow> MemRegionsRegisterBatch option \<Rightarrow> mstx \<Rightarrow> (MemRegionsBelongInfo \<times> ptr list) \<times> mstx" where
  "MstxMemRegionsRegister news domain desc s =
     (if \<not> IsDomainExist domain s then ((no_belong, []), s)
      else case desc of
        None \<Rightarrow> ((no_belong, []), s)
      | Some b \<Rightarrow>
          if rb_descs b = None \<or> rb_outNull b then ((no_belong, []), s)
          else let it = map_of (mx_heapDesc s) (domain, rb_heap b) in
            if rb_heap b \<noteq> 0 \<and> it = None then ((no_belong, []), s)
            else let info = (case it of
                       None \<Rightarrow> \<lparr>bi_addr = 0, bi_size = 0, bi_success = True\<rparr>
                     | Some h \<Rightarrow> \<lparr>bi_addr = vr_ptr (hd_range h), bi_size = vr_size (hd_range h),
                                  bi_success = True\<rparr>);
                     handles = take (length (the (rb_descs b))) news
                 in ((info, handles),
                     fold (region_push domain) (zip handles (the (rb_descs b))) (regions_touch domain s)))"

definition UpdateRegionsUnregisterInfo ::
  "ptr \<Rightarrow> ptr \<Rightarrow> MemVirtualRangeDesc list \<times> mstx \<Rightarrow> MemVirtualRangeDesc list \<times> mstx" where
  "UpdateRegionsUnregisterInfo domain handle st =
     (let (out, s) = st;
          (out1, s1) = (case map_of (mx_regionDesc s) handle of
             None \<Rightarrow> (out, s)
           | Some d \<Rightarrow> (out @ [d], s\<lparr>mx_regionDesc := omap_erase handle (mx_regionDesc s)\<rparr>));
          vec = lookup_default [] (mx_regions s1) domain
      in (out1, s1\<lparr>mx_regions := omap_put domain (filter (\<lambda>r. r \<noteq> handle) vec) (mx_regions s1)\<rparr>))"

definition MstxMemRegionsUnregister ::
  "ptr \<Rightarrow> MemRegionRef list option \<Rightarrow> mstx \<Rightarrow> (bool \<times> MemVirtualRangeDesc list) \<times> mstx" where
  "MstxMemRegionsUnregister domain refs s =
     (if \<not> IsDomainExist domain s then ((False, []), s)
      else case refs of
        None \<Rightarrow> ((False, []), s)
      | Some rs \<Rightarrow>
          if map_of (mx_regions s) domain = None then ((False, []), s)
          else let (out, s1) = fold (\<lambda>r st. case r of
                       HandleRef h \<Rightarrow> UpdateRegionsUnregisterInfo domain h st
                     | PointerRef p \<Rightarrow> st) rs ([], s)
               in ((True, out), s1))"

fun assign_loop :: "mstx \<Rightarrow> MemRegionRef list \<Rightarrow> MemVirtualRangeDesc list \<Rightarrow> bool \<times> MemVirtualRangeDesc list" where
  "assign_loop s [] out = (True, out)"
| "assign_loop s (HandleRef h # rs) out =
     (case map_of (mx_regionDesc s) h of
        None \<Rightarrow> (False, out)
      | Some d \<Rightarrow> assign_loop s rs (out @ [d]))"
| "assign_loop s (PointerRef p # rs) out = (False, out)"

definition MstxMemPermissionsAssign ::
  "ptr \<Rightarrow> MemRegionRef list option \<Rightarrow> mstx \<Rightarrow> bool \<times> MemVirtualRangeDesc list" where
  "MstxMemPermissionsAssign domain refs s =
     (if \<not> IsDomainExist domain s then (False, [])
      else case refs of
        None \<Rightarrow> (False, [])
      | Some rs \<Rightarrow> if map_of (mx_regions s) domain = None then (False, []) else assign_loop s rs [])"

section \<open>Counting uses\<close>

definition uses :: "mstx \<Rightarrow> tid \<Rightarrow> string \<Rightarrow> u64 option" where
  "uses s t m = Option.bind (map_of (mx_usage s) t) (\<lambda>inner. map_of inner m)"

definition usage_wf :: "mstx \<Rightarrow> bool" where
  "usage_wf s \<longleftrightarrow> okeys (mx_usage s) \<and>
     (\<forall>t inner. map_of (mx_usage s) t = Some inner \<longrightarrow> okeys inner \<and> inner \<noteq> [])"

lemma omap_put_nonempty [simp]: "omap_put k v m \<noteq> []"
  by (cases "(k, v, m)" rule: omap_put.cases) auto

lemma usage_inc_uses:
  assumes "usage_wf s"
  shows "usage_wf (usage_inc t m s)"
    and "uses (usage_inc t m s) t' m' =
           (if t' = t \<and> m' = m then Some ((case uses s t m of None \<Rightarrow> 0 | Some c \<Rightarrow> c) + 1) else uses s t' m')"
proof -
  let ?inner = "lookup_default [] (mx_usage s) t"
  have i: "okeys ?inner" using assms by (auto simp: lookup_default_def usage_wf_def split: option.split)
  have u: "okeys (mx_usage s)" using assms by (simp add: usage_wf_def)
  show "usage_wf (usage_inc t m s)"
    using assms i u by (auto simp: usage_wf_def usage_inc_def Let_def map_of_omap_put omap_put_sorted)
  show "uses (usage_inc t m s) t' m' =
      (if t' = t \<and> m' = m then Some ((case uses s t m of None \<Rightarrow> 0 | Some c \<Rightarrow> c) + 1) else uses s t' m')"
    using i u by (auto simp: uses_def usage_inc_def Let_def map_of_omap_put lookup_default_def
        split: option.splits)
qed

lemma usage_dec_uses:
  assumes "usage_wf s" and "map_of (mx_usage s) t = Some inner" and "map_of inner m = Some c" and "c \<noteq> 0"
  shows "usage_wf (usage_dec t m c inner s)"
    and "uses (usage_dec t m c inner s) t' m' =
           (if t' = t \<and> m' = m then (if c = 1 then None else Some (c - 1)) else uses s t' m')"
proof -
  have i: "okeys inner" using assms by (auto simp: usage_wf_def)
  have u: "okeys (mx_usage s)" using assms by (simp add: usage_wf_def)
  have c: "c > 0" using assms(4) by (simp add: word_gt_0)
  let ?inner = "if c - 1 = 0 then omap_erase m (omap_put m (c - 1) inner) else omap_put m (c - 1) inner"
  have oi: "okeys ?inner" using i by (simp add: omap_put_sorted okeys_erase)
  have mi: "map_of ?inner m' = (if m' = m then (if c = 1 then None else Some (c - 1)) else map_of inner m')" for m'
    using i by (auto simp: map_of_omap_put map_of_omap_erase eq_diff_eq)
  have e: "usage_dec t m c inner s = s\<lparr>mx_usage := (if ?inner = [] then omap_erase t (mx_usage s)
      else omap_put t ?inner (mx_usage s))\<rparr>"
    using c by (simp add: usage_dec_def Let_def)
  show "usage_wf (usage_dec t m c inner s)"
    using assms(1) oi u unfolding e usage_wf_def
    by (auto simp: map_of_omap_put map_of_omap_erase omap_put_sorted okeys_erase)
  have "uses (usage_dec t m c inner s) t m' = map_of ?inner m'" for m'
    using u unfolding e uses_def
    by (cases "?inner = []") (simp_all add: map_of_omap_put map_of_omap_erase)
  moreover have "uses (usage_dec t m c inner s) t' m' = uses s t' m'" if "t' \<noteq> t" for t' m'
    using u that unfolding e uses_def
    by (cases "?inner = []") (simp_all add: map_of_omap_put map_of_omap_erase)
  moreover have "uses s t m' = map_of inner m'" for m' using assms(2) by (simp add: uses_def)
  ultimately show "uses (usage_dec t m c inner s) t' m' =
      (if t' = t \<and> m' = m then (if c = 1 then None else Some (c - 1)) else uses s t' m')"
    using mi by (cases "t' = t") auto
qed

section \<open>The open ranges\<close>

text \<open>
  What the counters stand for: the ranges that were begun and not ended, with the thread that began
  each and its message.
\<close>

type_synonym open_ranges = "(u64 \<times> tid \<times> string) list"

datatype range_op = BeginRange tid string | EndRange tid u64

fun range_exec :: "mstx_config \<Rightarrow> range_op \<Rightarrow> mstx \<Rightarrow> mstx" where
  "range_exec cfg (BeginRange t m) s = snd (MstxRangeAdd cfg t m s)"
| "range_exec cfg (EndRange t i) s = snd (MstxRangeEnd cfg t i s)"

fun open_step :: "range_op \<Rightarrow> open_ranges \<times> nat \<Rightarrow> open_ranges \<times> nat" where
  "open_step (BeginRange t m) (os, n) = (os @ [(word_of_nat n, t, m)], Suc n)"
| "open_step (EndRange t i) (os, n) = (filter (\<lambda>(j, _). j \<noteq> i) os, n)"

text \<open>A thread ends only ranges it began itself.\<close>

fun own_end :: "range_op \<Rightarrow> open_ranges \<times> nat \<Rightarrow> bool" where
  "own_end (BeginRange t m) a = True"
| "own_end (EndRange t i) a = (\<forall>(j, t', m) \<in> set (fst a). j = i \<longrightarrow> t' = t)"

fun own_ends :: "range_op list \<Rightarrow> open_ranges \<times> nat \<Rightarrow> bool" where
  "own_ends [] a = True"
| "own_ends (op # ops) a = (own_end op a \<and> own_ends ops (open_step op a))"

definition uses_in :: "open_ranges \<Rightarrow> tid \<Rightarrow> string \<Rightarrow> nat" where
  "uses_in os t m = length (filter (\<lambda>(j, t', m'). t' = t \<and> m' = m) os)"

definition tracks :: "mstx \<Rightarrow> open_ranges \<times> nat \<Rightarrow> bool" where
  "tracks s a \<longleftrightarrow> (case a of (os, n) \<Rightarrow>
     n < 2 ^ 64 \<and> mx_rangeId s = word_of_nat n \<and> mx_invalid s = [] \<and> okeys (mx_active s) \<and>
     distinct (map fst os) \<and> (\<forall>(j, t, m) \<in> set os. unat j < n) \<and> length os \<le> n \<and>
     map_of (mx_active s) = map_of (map (\<lambda>(j, t, m). (j, m)) os) \<and>
     usage_wf s \<and> (\<forall>t m. uses s t m = (if uses_in os t m = 0 then None else Some (word_of_nat (uses_in os t m)))))"

lemma uses_in_le: "uses_in os t m \<le> length os"
  by (simp add: uses_in_def)

lemma uses_in_filter:
  "distinct (map fst os) \<Longrightarrow> (i, t, m) \<in> set os \<Longrightarrow>
   uses_in os t' m' = uses_in (filter (\<lambda>(j, _). j \<noteq> i) os) t' m' + (if t' = t \<and> m' = m then 1 else 0)"
proof (induction os)
  case Nil
  then show ?case by simp
next
  case (Cons a os)
  obtain j u w where a: "a = (j, u, w)" by (cases a)
  show ?case
  proof (cases "j = i")
    case True
    with Cons.prems a have "(i, t, m) \<notin> set os" and e: "u = t" "w = m" by (force simp: image_iff)+
    have "filter (\<lambda>(j, _). j \<noteq> i) os = os"
      using Cons.prems(1) a True by (intro filter_True) (force simp: image_iff)
    with a True e show ?thesis by (auto simp: uses_in_def)
  next
    case False
    with Cons a show ?thesis by (auto simp: uses_in_def)
  qed
qed

lemma map_of_erase_open:
  "distinct (map fst os) \<Longrightarrow>
   map_of (map (\<lambda>(j, t, m). (j, m)) (filter (\<lambda>(j, _). j \<noteq> i) os)) =
     (map_of (map (\<lambda>(j, t, m). (j, m)) os))(i := None)"
  by (induction os) (auto simp: fun_eq_iff)

lemma map_of_snoc_open:
  "\<forall>(j, t, m) \<in> set os. j \<noteq> i \<Longrightarrow>
   map_of (map (\<lambda>(j, t, m). (j, m)) (os @ [(i, t, m)])) =
     (map_of (map (\<lambda>(j, t, m). (j, m)) os))(i \<mapsto> m)"
  by (induction os) (auto simp: fun_eq_iff)

lemma usage_inc_keeps [simp]:
  "mx_active (usage_inc t m s) = mx_active s" "mx_invalid (usage_inc t m s) = mx_invalid s"
  "mx_rangeId (usage_inc t m s) = mx_rangeId s" "mx_enabled (usage_inc t m s) = mx_enabled s"
  "mx_enabledInit (usage_inc t m s) = mx_enabledInit s"
  by (simp_all add: usage_inc_def Let_def)

lemma usage_dec_keeps [simp]:
  "mx_active (usage_dec t m c inner s) = mx_active s" "mx_invalid (usage_dec t m c inner s) = mx_invalid s"
  "mx_rangeId (usage_dec t m c inner s) = mx_rangeId s" "mx_enabled (usage_dec t m c inner s) = mx_enabled s"
  "mx_enabledInit (usage_dec t m c inner s) = mx_enabledInit s"
  by (simp_all add: usage_dec_def Let_def)

lemma uses_cong [simp]:
  "uses (s\<lparr>mx_active := x\<rparr>) = uses s" "uses (s\<lparr>mx_rangeId := y\<rparr>) = uses s"
  "usage_wf (s\<lparr>mx_active := x\<rparr>) = usage_wf s" "usage_wf (s\<lparr>mx_rangeId := y\<rparr>) = usage_wf s"
  by (simp_all add: uses_def usage_wf_def fun_eq_iff)

lemma word_of_nat_eq_0: "n < 2 ^ 64 \<Longrightarrow> (word_of_nat n :: u64) = 0 \<longleftrightarrow> n = 0"
  by (simp add: word_unat_eq_iff unat_of_nat)

lemma word_of_nat_eq_1: "n < 2 ^ 64 \<Longrightarrow> (word_of_nat n :: u64) = 1 \<longleftrightarrow> n = 1"
  by (simp add: word_unat_eq_iff unat_of_nat)

lemma tracks_begin:
  assumes "tracks s (os, n)" and "\<not> mc_rangeReplay cfg" and "n + 1 < 2 ^ 64"
  shows "tracks (range_exec cfg (BeginRange t m) s) (open_step (BeginRange t m) (os, n))"
proof -
  let ?s1 = "s\<lparr>mx_active := omap_put (mx_rangeId s) m (mx_active s)\<rparr>"
  have T: "n < 2 ^ 64" "mx_rangeId s = word_of_nat n" "mx_invalid s = []" "okeys (mx_active s)"
    "distinct (map fst os)" "\<forall>(j, t, m) \<in> set os. unat j < n" "length os \<le> n"
    "map_of (mx_active s) = map_of (map (\<lambda>(j, t, m). (j, m)) os)" "usage_wf s"
    "\<And>t m. uses s t m = (if uses_in os t m = 0 then None else Some (word_of_nat (uses_in os t m)))"
    using assms(1) by (simp_all add: tracks_def)
  have un: "unat (word_of_nat n :: u64) = n" using T(1) by (simp add: unat_of_nat)
  then have "word_of_nat n \<noteq> (UINT64_MAX :: u64)" using assms(3) by (auto simp: word_unat_eq_iff)
  then have e: "range_exec cfg (BeginRange t m) s = (usage_inc t m ?s1)\<lparr>mx_rangeId := word_of_nat n + 1\<rparr>"
    using assms(2) T(2) by (simp add: MstxRangeAdd_def Let_def)
  have new: "\<forall>(j, t, m) \<in> set os. j \<noteq> word_of_nat n" using T(6) un by fastforce
  have W: "usage_wf ?s1" using T(9) by simp
  have cnt: "uses (usage_inc t m ?s1) t' m' =
      (if uses_in (os @ [(word_of_nat n, t, m)]) t' m' = 0 then None
       else Some (word_of_nat (uses_in (os @ [(word_of_nat n, t, m)]) t' m')))" for t' m'
  proof -
    have "uses_in (os @ [(word_of_nat n, t, m)]) t' m' = uses_in os t' m' + (if t' = t \<and> m' = m then 1 else 0)"
      by (auto simp: uses_in_def)
    then show ?thesis using T(10) by (auto simp: usage_inc_uses(2) [OF W])
  qed
  have "distinct (map fst (os @ [(word_of_nat n, t, m)]))" using T(5) new by force
  moreover have "\<forall>(j, t, m) \<in> set (os @ [(word_of_nat n, t, m)]). unat j < Suc n"
    using T(6) un by fastforce
  ultimately show ?thesis
    unfolding e tracks_def
    using T(2-4,7,8) assms(3) usage_inc_uses(1) [OF W] cnt map_of_snoc_open [OF new, of t m]
    by (simp add: map_of_omap_put omap_put_sorted add.commute)
qed

lemma tracks_end:
  assumes "tracks s (os, n)" and "own_end (EndRange t i) (os, n)"
  shows "tracks (range_exec cfg (EndRange t i) s) (open_step (EndRange t i) (os, n))"
proof -
  let ?os = "filter (\<lambda>(j, _). j \<noteq> i) os" and ?s1 = "s\<lparr>mx_active := omap_erase i (mx_active s)\<rparr>"
  have T: "n < 2 ^ 64" "mx_rangeId s = word_of_nat n" "mx_invalid s = []" "okeys (mx_active s)"
    "distinct (map fst os)" "\<forall>(j, t, m) \<in> set os. unat j < n" "length os \<le> n"
    "map_of (mx_active s) = map_of (map (\<lambda>(j, t, m). (j, m)) os)" "usage_wf s"
    "\<And>t m. uses s t m = (if uses_in os t m = 0 then None else Some (word_of_nat (uses_in os t m)))"
    using assms(1) by (simp_all add: tracks_def)
  show ?thesis
  proof (cases "map_of (mx_active s) i")
    case None
    then have "i \<notin> fst ` set (map (\<lambda>(j, t, m). (j, m)) os)" using T(8) by (simp add: map_of_eq_None_iff)
    then have "?os = os" by (intro filter_True) force
    with None assms(1) show ?thesis by (simp add: MstxRangeEnd_def)
  next
    case (Some m)
    then have "(i, m) \<in> set (map (\<lambda>(j, t, m). (j, m)) os)" using T(8) by (metis map_of_SomeD)
    then obtain t' where "(i, t', m) \<in> set os" by auto
    then have o: "(i, t, m) \<in> set os" using assms(2) by fastforce
    note F = uses_in_filter [OF T(5) o]
    have k: "uses_in os t m \<noteq> 0" using F [of t m] by simp
    have kb: "uses_in os t m < 2 ^ 64" using uses_in_le [of os t m] T(1,7) by linarith
    let ?c = "word_of_nat (uses_in os t m) :: u64"
    have c: "?c \<noteq> 0" using k kb by (simp add: word_of_nat_eq_0)
    from T(10) [of t m] k obtain inner where inner: "map_of (mx_usage s) t = Some inner"
      and ic: "map_of inner m = Some ?c"
      by (auto simp: uses_def bind_eq_Some_conv)
    have e: "range_exec cfg (EndRange t i) s = usage_dec t m ?c inner ?s1"
      using Some T(3) inner ic by (simp add: MstxRangeEnd_def Let_def)
    have W: "usage_wf ?s1" using T(9) by simp
    have I: "map_of (mx_usage ?s1) t = Some inner" using inner by simp
    note D = usage_dec_uses [OF W I ic c]
    have cnt: "uses (usage_dec t m ?c inner ?s1) t' m' =
        (if uses_in ?os t' m' = 0 then None else Some (word_of_nat (uses_in ?os t' m')))" for t' m'
    proof (cases "t' = t \<and> m' = m")
      case True
      then have "uses_in os t m = uses_in ?os t m + 1" using F [of t m] by simp
      moreover have "?c = 1 \<longleftrightarrow> uses_in os t m = 1" using kb by (rule word_of_nat_eq_1)
      ultimately show ?thesis using True D(2) [of t' m'] by simp
    next
      case False
      then show ?thesis using F [of t' m'] D(2) [of t' m'] T(10) [of t' m'] by auto
    qed
    have "length ?os \<le> n" using T(7) length_filter_le [of _ os] le_trans by blast
    moreover have "distinct (map fst ?os)" using T(5) by (simp add: distinct_map_filter)
    moreover have "\<forall>(j, t, m) \<in> set ?os. unat j < n" using T(6) by auto
    ultimately show ?thesis
      unfolding e tracks_def
      using T(1-4,8) D(1) cnt map_of_erase_open [OF T(5), of i]
      by (simp add: okeys_erase map_of_omap_erase)
  qed
qed

fun count_begins :: "range_op list \<Rightarrow> nat" where
  "count_begins [] = 0"
| "count_begins (BeginRange t m # ops) = Suc (count_begins ops)"
| "count_begins (EndRange t i # ops) = count_begins ops"

lemma tracks_run:
  "tracks s (os, n) \<Longrightarrow> \<not> mc_rangeReplay cfg \<Longrightarrow> own_ends ops (os, n) \<Longrightarrow> n + count_begins ops < 2 ^ 64 \<Longrightarrow>
   tracks (fold (range_exec cfg) ops s) (fold open_step ops (os, n))"
proof (induction ops arbitrary: s os n)
  case Nil
  then show ?case by simp
next
  case (Cons op ops)
  show ?case
  proof (cases op)
    case (BeginRange t m)
    then have "tracks (range_exec cfg op s) (open_step op (os, n))"
      using Cons.prems by (simp only: BeginRange) (rule tracks_begin; simp)
    with Cons.IH Cons.prems BeginRange show ?thesis by (simp del: range_exec.simps)
  next
    case (EndRange t i)
    then have "tracks (range_exec cfg op s) (open_step op (os, n))"
      using Cons.prems by (simp only: EndRange) (rule tracks_end; simp)
    with Cons.IH Cons.prems EndRange show ?thesis by (simp del: range_exec.simps)
  qed
qed

lemma range_exec_enabled:
  "\<not> mc_rangeReplay cfg \<Longrightarrow> mx_enabled (fold (range_exec cfg) ops s) = mx_enabled s \<and>
     mx_enabledInit (fold (range_exec cfg) ops s) = mx_enabledInit s"
proof (induction ops arbitrary: s)
  case Nil
  then show ?case by simp
next
  case (Cons op ops)
  then show ?case
    by (cases op) (auto simp: MstxRangeAdd_def MstxRangeEnd_def Let_def split: option.splits)
qed

lemma uses_in_pos: "uses_in os t m \<noteq> 0 \<longleftrightarrow> (\<exists>j. (j, t, m) \<in> set os)"
  by (auto simp: uses_in_def filter_empty_conv)

lemma tracks_in_range:
  assumes "tracks s (os, n)"
  shows "(case map_of (mx_usage s) t of None \<Rightarrow> False | Some inner \<Rightarrow> inner \<noteq> []) \<longleftrightarrow>
           (\<exists>(j, t', m) \<in> set os. t' = t)"
    and "(case map_of (mx_usage s) t of None \<Rightarrow> False | Some inner \<Rightarrow> map_of inner sel \<noteq> None) \<longleftrightarrow>
           (\<exists>(j, t', m) \<in> set os. t' = t \<and> m = sel)"
proof -
  have W: "usage_wf s" and U: "\<And>m. uses s t m = None \<longleftrightarrow> uses_in os t m = 0"
    using assms by (simp_all add: tracks_def)
  have S: "(case map_of (mx_usage s) t of None \<Rightarrow> False | Some inner \<Rightarrow> map_of inner sel \<noteq> None) \<longleftrightarrow>
      uses s t sel \<noteq> None" for sel
    by (simp add: uses_def split: option.split)
  show "(case map_of (mx_usage s) t of None \<Rightarrow> False | Some inner \<Rightarrow> map_of inner sel \<noteq> None) \<longleftrightarrow>
      (\<exists>(j, t', m) \<in> set os. t' = t \<and> m = sel)"
    unfolding S using U [of sel] uses_in_pos [of os t sel] by auto
  have "(case map_of (mx_usage s) t of None \<Rightarrow> False | Some inner \<Rightarrow> inner \<noteq> []) \<longleftrightarrow> (\<exists>m. uses s t m \<noteq> None)"
  proof (cases "map_of (mx_usage s) t")
    case None
    then show ?thesis by (simp add: uses_def)
  next
    case (Some inner)
    then have "inner \<noteq> []" using W by (simp add: usage_wf_def)
    then have "map_of inner (fst (hd inner)) \<noteq> None" by (cases inner) auto
    with Some \<open>inner \<noteq> []\<close> show ?thesis by (auto simp: uses_def)
  qed
  also have "\<dots> \<longleftrightarrow> (\<exists>(j, t', m) \<in> set os. t' = t)"
    using U uses_in_pos [of os t] by auto
  finally show "(case map_of (mx_usage s) t of None \<Rightarrow> False | Some inner \<Rightarrow> inner \<noteq> []) \<longleftrightarrow>
      (\<exists>(j, t', m) \<in> set os. t' = t)" .
qed

section \<open>Handles\<close>

text \<open>
  What the users of heaps and regions rely on: a registered handle can be looked up until it is
  unregistered, which gives its description back, and no other handle is affected.
\<close>

locale handle_table =
  fixes reg :: "'p \<Rightarrow> 'd \<Rightarrow> 's \<Rightarrow> 's"
    and unreg :: "'p \<Rightarrow> 's \<Rightarrow> 'd option \<times> 's"
    and desc :: "'s \<Rightarrow> 'p \<Rightarrow> 'd option"
    and ok :: "'s \<Rightarrow> bool"
    and handle :: "'p \<Rightarrow> bool"
  assumes reg_desc: "ok s \<Longrightarrow> desc (reg p d s) = (desc s)(p \<mapsto> d)"
    and unreg_out: "ok s \<Longrightarrow> handle p \<Longrightarrow> fst (unreg p s) = desc s p"
    and unreg_desc: "ok s \<Longrightarrow> handle p \<Longrightarrow> desc (snd (unreg p s)) = (desc s)(p := None)"
    and ok_reg: "ok s \<Longrightarrow> ok (reg p d s)"
    and ok_unreg: "ok s \<Longrightarrow> ok (snd (unreg p s))"
begin

definition reg_all :: "('p \<times> 'd) list \<Rightarrow> 's \<Rightarrow> 's" where
  "reg_all pds s = fold (\<lambda>(p, d). reg p d) pds s"

fun unreg_all :: "'p list \<Rightarrow> 's \<Rightarrow> 'd option list \<times> 's" where
  "unreg_all [] s = ([], s)"
| "unreg_all (p # ps) s = (let (o1, s1) = unreg p s; (os, s2) = unreg_all ps s1 in (o1 # os, s2))"

lemma reg_all_ok: "ok s \<Longrightarrow> ok (reg_all pds s)"
  unfolding reg_all_def by (induction pds arbitrary: s) (auto intro: ok_reg)

lemma reg_all_desc: "ok s \<Longrightarrow> desc (reg_all pds s) = desc s ++ map_of (rev pds)"
  unfolding reg_all_def
proof (induction pds arbitrary: s)
  case Nil
  then show ?case by simp
next
  case (Cons pd pds)
  obtain p d where pd: "pd = (p, d)" by (cases pd)
  have "desc (fold (\<lambda>(p, d). reg p d) pds (reg p d s)) = (desc s)(p \<mapsto> d) ++ map_of (rev pds)"
    using Cons by (simp add: ok_reg reg_desc fun_upd_def)
  also have "\<dots> = desc s ++ map_of (rev pds @ [(p, d)])"
    by (rule ext) (simp add: map_add_def split: option.split)
  finally show ?case using pd by simp
qed

lemma unreg_all_out:
  "ok s \<Longrightarrow> distinct ps \<Longrightarrow> \<forall>p \<in> set ps. handle p \<Longrightarrow>
   fst (unreg_all ps s) = map (desc s) ps \<and>
   desc (snd (unreg_all ps s)) = (\<lambda>q. if q \<in> set ps then None else desc s q)"
proof (induction ps arbitrary: s)
  case Nil
  then show ?case by simp
next
  case (Cons p ps)
  obtain o1 s1 where u: "unreg p s = (o1, s1)" by (cases "unreg p s")
  have s1: "ok s1" "desc s1 = (desc s)(p := None)" "o1 = desc s p"
    using u ok_unreg [of s p] unreg_desc [of s p] unreg_out [of s p] Cons.prems by simp_all
  have "fst (unreg_all ps s1) = map (desc s1) ps \<and>
      desc (snd (unreg_all ps s1)) = (\<lambda>q. if q \<in> set ps then None else desc s1 q)"
    using Cons.IH [OF s1(1)] Cons.prems by simp
  moreover have "map (desc s1) ps = map (desc s) ps" using s1(2) Cons.prems(2) by auto
  ultimately show ?case
    using u s1 by (auto simp: case_prod_unfold Let_def fun_eq_iff)
qed

lemma batch_roundtrip:
  assumes "ok s" and "distinct (map fst pds)" and "\<forall>p \<in> fst ` set pds. handle p"
  shows "fst (unreg_all (map fst pds) (reg_all pds s)) = map (Some \<circ> snd) pds"
    and "desc (snd (unreg_all (map fst pds) (reg_all pds s))) =
           (\<lambda>q. if q \<in> fst ` set pds then None else desc s q)"
proof -
  have "map_of (rev pds) p = Some d" if "(p, d) \<in> set pds" for p d
    using that assms(2) by (simp add: rev_map [symmetric])
  then have "map (desc (reg_all pds s)) (map fst pds) = map (Some \<circ> snd) pds"
    using reg_all_desc [OF assms(1), of pds] by auto
  then show "fst (unreg_all (map fst pds) (reg_all pds s)) = map (Some \<circ> snd) pds"
    using unreg_all_out [OF reg_all_ok [OF assms(1)], of "map fst pds" pds] assms(2,3) by simp
  have "map_of (rev pds) q = None" if "q \<notin> fst ` set pds" for q
    using that by (simp add: map_of_eq_None_iff)
  then show "desc (snd (unreg_all (map fst pds) (reg_all pds s))) =
      (\<lambda>q. if q \<in> fst ` set pds then None else desc s q)"
    using unreg_all_out [OF reg_all_ok [OF assms(1)], of "map fst pds" pds] assms(2,3)
      reg_all_desc [OF assms(1), of pds]
    by (auto simp: fun_eq_iff map_add_def)
qed

end

definition heap_reg :: "ptr \<Rightarrow> ptr \<Rightarrow> MemHeapRangeDesc \<Rightarrow> mstx \<Rightarrow> mstx" where
  "heap_reg domain p d s = snd (MstxMemHeapRegister p domain
     (Some \<lparr>md_usage = hd_usage d, md_type = hd_type d, md_specific = Some (hd_range d)\<rparr>) s)"

definition heap_ok :: "ptr \<Rightarrow> mstx \<Rightarrow> bool" where
  "heap_ok domain s \<longleftrightarrow> IsDomainExist domain s \<and> okeys (mx_heapDesc s) \<and> okeys (mx_heaps s) \<and>
     (\<forall>h. map_of (mx_heapDesc s) (domain, h) \<noteq> None \<longrightarrow> map_of (mx_heaps s) domain \<noteq> None)"

interpretation heaps: handle_table "heap_reg domain" "MstxMemHeapUnregister domain"
  "\<lambda>s p. map_of (mx_heapDesc s) (domain, p)" "heap_ok domain" "\<lambda>p. p \<noteq> 0" for domain
proof unfold_locales
  fix s p d assume "heap_ok domain s"
  then show "(\<lambda>q. map_of (mx_heapDesc (heap_reg domain p d s)) (domain, q)) =
      (\<lambda>q. map_of (mx_heapDesc s) (domain, q))(p \<mapsto> d)"
    by (auto simp: heap_ok_def heap_reg_def MstxMemHeapRegister_def Let_def map_of_omap_put fun_eq_iff)
  show "heap_ok domain (heap_reg domain p d s)"
    using \<open>heap_ok domain s\<close>
    by (auto simp: heap_ok_def heap_reg_def MstxMemHeapRegister_def Let_def map_of_omap_put
        omap_put_sorted IsDomainExist_def)
next
  fix s and p :: ptr assume ok: "heap_ok domain s"
  show "heap_ok domain (snd (MstxMemHeapUnregister domain p s))"
    using ok by (auto simp: heap_ok_def MstxMemHeapUnregister_def map_of_omap_put map_of_omap_erase
        omap_put_sorted okeys_erase IsDomainExist_def split: option.split)
  assume "p \<noteq> 0"
  with ok show "fst (MstxMemHeapUnregister domain p s) = map_of (mx_heapDesc s) (domain, p)"
    by (auto simp: heap_ok_def MstxMemHeapUnregister_def split: option.split)
  from ok \<open>p \<noteq> 0\<close> show "(\<lambda>q. map_of (mx_heapDesc (snd (MstxMemHeapUnregister domain p s))) (domain, q)) =
      (\<lambda>q. map_of (mx_heapDesc s) (domain, q))(p := None)"
    by (auto simp: heap_ok_def MstxMemHeapUnregister_def map_of_omap_erase fun_eq_iff split: option.split)
qed

definition region_unreg :: "ptr \<Rightarrow> ptr \<Rightarrow> mstx \<Rightarrow> MemVirtualRangeDesc option \<times> mstx" where
  "region_unreg domain p s =
     (let (out, s') = UpdateRegionsUnregisterInfo domain p ([], s)
      in ((case out of [] \<Rightarrow> None | d # ds \<Rightarrow> Some d), s'))"

interpretation regions: handle_table "\<lambda>p d. region_push domain (p, d)" "region_unreg domain"
  "\<lambda>s. map_of (mx_regionDesc s)" "\<lambda>s. okeys (mx_regionDesc s)" "\<lambda>p. True" for domain
  by unfold_locales
    (auto simp: region_push_def region_unreg_def UpdateRegionsUnregisterInfo_def Let_def
      map_of_omap_put omap_put_sorted okeys_erase map_of_omap_erase fun_eq_iff split: option.split)

lemma UpdateRegions_region_unreg:
  "UpdateRegionsUnregisterInfo domain h (out, s) =
     (out @ (case fst (region_unreg domain h s) of None \<Rightarrow> [] | Some d \<Rightarrow> [d]), snd (region_unreg domain h s))"
  by (auto simp: region_unreg_def UpdateRegionsUnregisterInfo_def Let_def split: option.split)

lemma unregister_fold:
  "fold (\<lambda>r st. case r of HandleRef h \<Rightarrow> UpdateRegionsUnregisterInfo domain h st | PointerRef p \<Rightarrow> st)
     (map HandleRef hs) (out, s) =
   (out @ concat (map (\<lambda>x. case x of None \<Rightarrow> [] | Some d \<Rightarrow> [d]) (fst (regions.unreg_all domain hs s))),
    snd (regions.unreg_all domain hs s))"
proof (induction hs arbitrary: out s)
  case Nil
  then show ?case by simp
next
  case (Cons h hs)
  then show ?case
    by (simp add: UpdateRegions_region_unreg case_prod_unfold Let_def)
qed

lemma region_push_keeps:
  "mx_dom2name (fold (region_push domain) pds s) = mx_dom2name s"
  "map_of (mx_regions s) domain \<noteq> None \<Longrightarrow> okeys (mx_regions s) \<Longrightarrow>
     map_of (mx_regions (fold (region_push domain) pds s)) domain \<noteq> None"
proof -
  show "mx_dom2name (fold (region_push domain) pds s) = mx_dom2name s"
    by (induction pds arbitrary: s) (simp_all add: region_push_def)
  show "map_of (mx_regions s) domain \<noteq> None \<Longrightarrow> okeys (mx_regions s) \<Longrightarrow>
     map_of (mx_regions (fold (region_push domain) pds s)) domain \<noteq> None"
  proof (induction pds arbitrary: s)
    case (Cons pd pds)
    have "map_of (mx_regions (region_push domain pd s)) domain \<noteq> None"
      and "okeys (mx_regions (region_push domain pd s))"
      using Cons.prems by (simp_all add: region_push_def map_of_omap_put omap_put_sorted)
    with Cons.IH show ?case by simp
  qed simp
qed

section \<open>Properties\<close>

text \<open>
  C32: Outside range replay, after any sequence of fewer than 2^64 range calls in which every thread ends its own ranges (a
  range ended by another thread leaves its owner inside it: \<open>cross_thread_end_leaks\<close>), a thread counts as inside a range
  exactly when marker ranges are switched off altogether, or it has an open range with a selected message (any message when
  none is selected).
\<close>

theorem range_tracking:
  assumes "\<not> mc_rangeReplay cfg"
    and "own_ends ops ([], 0)" and "count_begins ops < 2 ^ 64"
    and "s = fold (range_exec cfg) ops (MstxAttrReset False empty_mstx)"
  shows "fst (IsInMstxRange cfg t s) \<longleftrightarrow> \<not> mc_enable cfg \<or>
           (\<exists>(j, t', m) \<in> set (fst (fold open_step ops ([], 0))).
              t' = t \<and> (mc_messages cfg = [] \<or> m \<in> set (SplitString (mc_messages cfg) CHR ''|'')))"
proof (cases "mc_enable cfg")
  case False
  then show ?thesis by (simp add: IsInMstxRange_def)
next
  case enabled: True
  have "tracks (MstxAttrReset False empty_mstx) ([], 0)"
    by (simp add: tracks_def MstxAttrReset_def empty_mstx_def usage_wf_def uses_def uses_in_def)
  from tracks_run [OF this assms(1,2)] assms(3,4)
  have T: "tracks s (fold open_step ops ([], 0))" by simp
  obtain os n where f: "fold open_step ops ([], 0) = (os, n)" by fastforce
  have E: "mx_enabled s = []" "mx_enabledInit s = False"
    using range_exec_enabled [OF assms(1), of ops "MstxAttrReset False empty_mstx"] assms(4)
    by (simp_all add: MstxAttrReset_def empty_mstx_def)
  note R = tracks_in_range [OF T [unfolded f]]
  show ?thesis
  proof (cases "mc_messages cfg = []")
    case True
    then show ?thesis using enabled R(1) [where t = t] f by (simp add: IsInMstxRange_def)
  next
    case False
    then have "fst (IsInMstxRange cfg t s) \<longleftrightarrow>
        (\<exists>sel \<in> set (SplitString (mc_messages cfg) CHR ''|'').
           case map_of (mx_usage s) t of None \<Rightarrow> False | Some inner \<Rightarrow> map_of inner sel \<noteq> None)"
      using enabled E by (simp add: IsInMstxRange_def Let_def init_enabled_def list_ex_iff)
    with False enabled R(2) [where t = t] f show ?thesis by fastforce
  qed
qed

theorem range_tracking_witness:
  "fst (IsInMstxRange \<lparr>mc_rangeReplay = False, mc_enable = True, mc_messages = ''b|c''\<rparr> 1
     (fold (range_exec \<lparr>mc_rangeReplay = False, mc_enable = True, mc_messages = ''b|c''\<rparr>)
        [BeginRange 1 ''b'', BeginRange 1 ''a'', EndRange 1 1] (MstxAttrReset False empty_mstx)))"
  by (subst range_tracking [OF _ _ _ refl])
    (simp_all add: SplitString.simps [of "''b|c''"] SplitString.simps [of "''c''"] getline_def)

text \<open>
  heaps of a domain: after registering any number of heaps and unregistering them in the same order,
  every unregistration returned the description its heap was registered with, and the table of the
  domain is what it was, less those handles.
\<close>

lemma heap_batch_roundtrip:
  assumes "heap_ok domain s" and "distinct (map fst pds)" and "\<forall>p \<in> fst ` set pds. p \<noteq> 0"
  shows "fst (heaps.unreg_all domain (map fst pds) (fold (\<lambda>(p, d). heap_reg domain p d) pds s)) =
           map (Some \<circ> snd) pds \<and>
         (\<forall>q. map_of (mx_heapDesc (snd (heaps.unreg_all domain (map fst pds)
            (fold (\<lambda>(p, d). heap_reg domain p d) pds s)))) (domain, q) =
           (if q \<in> fst ` set pds then None else map_of (mx_heapDesc s) (domain, q)))"
proof -
  note R = heaps.batch_roundtrip [OF assms, unfolded heaps.reg_all_def]
  show ?thesis using R(1) fun_cong [OF R(2)] by simp
qed

definition demo_rng :: "u64 \<Rightarrow> MemVirtualRangeDesc" where
  "demo_rng a = \<lparr>vr_deviceId = 0, vr_ptr = a, vr_size = 0x100\<rparr>"

lemma regions_there_and_back:
  assumes "IsDomainExist domain s" and "rb_descs b = Some ds" and "\<not> rb_outNull b"
    and "rb_heap b \<noteq> 0 \<longrightarrow> map_of (mx_heapDesc s) (domain, rb_heap b) \<noteq> None"
    and "okeys (mx_regionDesc s)" and "okeys (mx_regions s)"
    and "length news = length ds" and "distinct news" and "\<forall>p \<in> set news. map_of (mx_regionDesc s) p = None"
  shows "case MstxMemRegionsRegister news domain (Some b) s of
           ((info, handles), s1) \<Rightarrow>
             handles = news \<and>
             fst (MstxMemRegionsUnregister domain (Some (map HandleRef handles)) s1) = (True, ds) \<and>
             map_of (mx_regionDesc (snd (MstxMemRegionsUnregister domain (Some (map HandleRef handles)) s1))) =
               map_of (mx_regionDesc s)"
proof -
  let ?pds = "zip news ds" and ?s0 = "regions_touch domain s"
  let ?s1 = "fold (region_push domain) ?pds ?s0"
  have r: "\<exists>info. MstxMemRegionsRegister news domain (Some b) s = ((info, news), ?s1)"
    using assms(1-4,7) by (auto simp: MstxMemRegionsRegister_def Let_def split: option.split)
  have ok0: "okeys (mx_regionDesc ?s0)" and d0: "mx_regionDesc ?s0 = mx_regionDesc s"
    using assms(5) by (simp_all add: regions_touch_def)
  have mf: "map fst ?pds = news" and ms: "map snd ?pds = ds" using assms(7) by simp_all
  have s1: "regions.reg_all domain ?pds ?s0 = ?s1"
    unfolding regions.reg_all_def by (simp add: case_prod_unfold)
  have B: "fst (regions.unreg_all domain news ?s1) = map (Some \<circ> snd) ?pds"
    and D: "map_of (mx_regionDesc (snd (regions.unreg_all domain news ?s1))) = map_of (mx_regionDesc s)"
  proof -
    have fs: "fst ` set ?pds = set news" using mf by (metis list.set_map)
    note R = regions.batch_roundtrip [OF ok0, of ?pds domain, unfolded s1 mf fs]
    show "fst (regions.unreg_all domain news ?s1) = map (Some \<circ> snd) ?pds" using R(1) assms(8) by simp
    show "map_of (mx_regionDesc (snd (regions.unreg_all domain news ?s1))) = map_of (mx_regionDesc s)"
      using R(2) assms(8,9) d0 by (auto simp: fun_eq_iff)
  qed
  have dom: "IsDomainExist domain ?s1"
    using assms(1) by (simp add: IsDomainExist_def region_push_keeps regions_touch_def)
  have vec: "map_of (mx_regions ?s1) domain \<noteq> None"
    using assms(6) by (intro region_push_keeps(2)) (simp_all add: regions_touch_def map_of_omap_put omap_put_sorted)
  have out: "concat (map (\<lambda>x. case x of None \<Rightarrow> [] | Some d \<Rightarrow> [d]) (map (Some \<circ> snd) ?pds)) = map snd ?pds"
    by (induction ?pds arbitrary: news ds) (simp_all add: comp_def concat_map_singleton)
  have "MstxMemRegionsUnregister domain (Some (map HandleRef news)) ?s1 =
      ((True, ds), snd (regions.unreg_all domain news ?s1))"
    using dom vec out ms by (simp add: MstxMemRegionsUnregister_def unregister_fold B)
  with r D show ?thesis by auto
qed

text \<open>
  a batch of regions registered under fresh handles and unregistered by those handles: the call
  succeeds, reports exactly the registered ranges in order, and leaves the table of ranges as it was.
\<close>

lemma region_batch_roundtrip:
  assumes "IsDomainExist domain s" and "rb_descs b = Some ds" and "\<not> rb_outNull b"
    and "rb_heap b \<noteq> 0 \<longrightarrow> map_of (mx_heapDesc s) (domain, rb_heap b) \<noteq> None"
    and "okeys (mx_regionDesc s)" and "okeys (mx_regions s)"
    and "length news = length ds" and "distinct news" and "\<forall>p \<in> set news. map_of (mx_regionDesc s) p = None"
  shows "case MstxMemRegionsRegister news domain (Some b) s of
           ((info, handles), s1) \<Rightarrow>
             handles = news \<and>
             fst (MstxMemRegionsUnregister domain (Some (map HandleRef handles)) s1) = (True, ds) \<and>
             map_of (mx_regionDesc (snd (MstxMemRegionsUnregister domain (Some (map HandleRef handles)) s1))) =
               map_of (mx_regionDesc s)"
  using assms by (rule regions_there_and_back)

text \<open>
  A range ended by another thread than the one that began it disappears from the active ranges,
  but the beginning thread still counts as inside a range.
\<close>

lemma cross_thread_end_leaks:
  assumes "t \<noteq> t'" and "\<not> mc_rangeReplay cfg" and "mc_enable cfg" and "mc_messages cfg = []"
    and "s = fold (range_exec cfg) [BeginRange t m, EndRange t' 0] (MstxAttrReset False empty_mstx)"
  shows "mx_active s = [] \<and> fst (IsInMstxRange cfg t s)"
  using assms
  by (simp add: MstxRangeAdd_def MstxRangeEnd_def MstxAttrReset_def empty_mstx_def usage_inc_def
      lookup_default_def omap_erase_def IsInMstxRange_def Let_def)

lemma cross_thread_end_leaks_witness:
  "\<exists>s. mx_active s = [] \<and>
       fst (IsInMstxRange \<lparr>mc_rangeReplay = False, mc_enable = True, mc_messages = []\<rparr> 1 s)"
  using cross_thread_end_leaks [where t = 1 and t' = 2 and m = "''a''"
      and cfg = "\<lparr>mc_rangeReplay = False, mc_enable = True, mc_messages = []\<rparr>", OF _ _ _ _ refl]
  by auto

end
