(* ===== verification/DeviceMemory.thy ===== *)
theory DeviceMemory
  imports Prelude
begin

text \<open>
  Device buffers the tool itself manages: the snapshots of \<open>csrc/runtime/inject_helpers/MemoryContext.{h,cpp}\<close>
  and the record buffer of \<open>csrc/runtime/inject_helpers/DevMemManager.{h,cpp}\<close>. The ACL runtime they call is
  not part of the repository: it is the record \<open>acl_api\<close> of functions on an unknown device state \<open>'d\<close>, and
  \<open>acl_spec\<close> names the documented behaviour the results rest on.
\<close>

type_synonym aclError = int

definition ACL_SUCCESS :: aclError where
  "ACL_SUCCESS = 0"

definition ACL_ERROR_BAD_ALLOC :: aclError where
  "ACL_ERROR_BAD_ALLOC = 200000"

datatype aclrtMemMallocPolicy =
  ACL_MEM_MALLOC_HUGE_FIRST | ACL_MEM_MALLOC_HUGE_ONLY | ACL_MEM_MALLOC_NORMAL_ONLY
  | ACL_MEM_MALLOC_HUGE_FIRST_P2P | ACL_MEM_MALLOC_HUGE_ONLY_P2P | ACL_MEM_MALLOC_NORMAL_ONLY_P2P
  | ACL_MEM_TYPE_LOW_BAND_WIDTH | ACL_MEM_TYPE_HIGH_BAND_WIDTH

datatype aclrtMemcpyKind =
  ACL_MEMCPY_HOST_TO_HOST | ACL_MEMCPY_HOST_TO_DEVICE | ACL_MEMCPY_DEVICE_TO_HOST
  | ACL_MEMCPY_DEVICE_TO_DEVICE

record 'd acl_api =
  api_malloc :: "u64 \<Rightarrow> aclrtMemMallocPolicy \<Rightarrow> 'd \<Rightarrow> (aclError \<times> ptr) \<times> 'd"
  api_free :: "ptr \<Rightarrow> 'd \<Rightarrow> aclError \<times> 'd"
  api_memcpy :: "ptr \<Rightarrow> u64 \<Rightarrow> ptr \<Rightarrow> u64 \<Rightarrow> aclrtMemcpyKind \<Rightarrow> 'd \<Rightarrow> aclError \<times> 'd"
  api_memcpyAsync :: "ptr \<Rightarrow> u64 \<Rightarrow> ptr \<Rightarrow> u64 \<Rightarrow> aclrtMemcpyKind \<Rightarrow> ptr \<Rightarrow> 'd \<Rightarrow> aclError \<times> 'd"
  api_synchronize :: "ptr \<Rightarrow> 'd \<Rightarrow> aclError \<times> 'd"
  api_currentStream :: "'d \<Rightarrow> (aclError \<times> ptr) \<times> 'd"
  api_getDevice :: "'d \<Rightarrow> (aclError \<times> int) \<times> 'd"

section \<open>Snapshots\<close>

record MemSection =
  ms_origin :: ptr
  ms_snapshot :: ptr
  ms_size :: u64
  ms_policy :: aclrtMemMallocPolicy

record memory_context =
  mc_sections :: "(ptr \<times> MemSection) list"
  mc_stream :: ptr

datatype MemCopyDirection = ORIGIN_TO_SNAPSHOT | SNAPSHOT_TO_ORIGIN

definition ctx_Append :: "ptr \<Rightarrow> u64 \<Rightarrow> memory_context \<Rightarrow> memory_context" where
  "ctx_Append addr len c =
     (if addr = 0 then c
      else c\<lparr>mc_sections := omap_put addr \<lparr>ms_origin = addr, ms_snapshot = 0, ms_size = len,
              ms_policy = ACL_MEM_MALLOC_HUGE_FIRST\<rparr> (mc_sections c)\<rparr>)"

definition ctx_Discard :: "'d acl_api \<Rightarrow> ptr \<Rightarrow> memory_context \<times> 'd \<Rightarrow> memory_context \<times> 'd" where
  "ctx_Discard api addr st =
     (let (c, d) = st in
      case map_of (mc_sections c) addr of
        None \<Rightarrow> (c, d)
      | Some s \<Rightarrow>
          let d1 = (if ms_snapshot s \<noteq> 0 then snd (api_free api (ms_snapshot s) d) else d)
          in (c\<lparr>mc_sections := omap_erase addr (mc_sections c)\<rparr>, d1))"

definition ctx_DiscardAll :: "'d acl_api \<Rightarrow> memory_context \<times> 'd \<Rightarrow> memory_context \<times> 'd" where
  "ctx_DiscardAll api st =
     (let (c, d) = st;
          d1 = fold (\<lambda>(a, s) d. if ms_snapshot s \<noteq> 0 then snd (api_free api (ms_snapshot s) d) else d)
                 (mc_sections c) d
      in (c\<lparr>mc_sections := [], mc_stream := 0\<rparr>, d1))"

definition GetCurrentStream :: "'d acl_api \<Rightarrow> ptr \<times> 'd \<Rightarrow> ptr \<times> (ptr \<times> 'd)" where
  "GetCurrentStream api st =
     (let (stream, d) = st in
      if stream \<noteq> 0 then (stream, (stream, d))
      else let ((ret, p), d1) = api_currentStream api d;
               stream1 = (if ret \<noteq> ACL_SUCCESS then 0 else p)
           in (stream1, (stream1, d1)))"

definition copy_ends :: "MemSection \<Rightarrow> MemCopyDirection \<Rightarrow> ptr \<times> ptr" where
  "copy_ends s dir =
     (case dir of
        ORIGIN_TO_SNAPSHOT \<Rightarrow> (ms_snapshot s, ms_origin s)
      | SNAPSHOT_TO_ORIGIN \<Rightarrow> (ms_origin s, ms_snapshot s))"

definition MemCopySync :: "'d acl_api \<Rightarrow> MemSection \<Rightarrow> MemCopyDirection \<Rightarrow> 'd \<Rightarrow> bool \<times> 'd" where
  "MemCopySync api s dir d =
     (let (dst, src) = copy_ends s dir;
          (ret, d1) = api_memcpy api dst (ms_size s) src (ms_size s) ACL_MEMCPY_DEVICE_TO_DEVICE d
      in (ret = ACL_SUCCESS, d1))"

definition MemCopyWithStream ::
  "'d acl_api \<Rightarrow> MemSection \<Rightarrow> ptr \<Rightarrow> MemCopyDirection \<Rightarrow> 'd \<Rightarrow> bool \<times> 'd" where
  "MemCopyWithStream api s stream dir d =
     (let (dst, src) = copy_ends s dir;
          (ret, d1) = api_memcpyAsync api dst (ms_size s) src (ms_size s)
              ACL_MEMCPY_DEVICE_TO_DEVICE stream d
      in if ret \<noteq> ACL_SUCCESS then (False, d1)
         else let (ret1, d2) = api_synchronize api stream d1 in (ret1 = ACL_SUCCESS, d2))"

definition CreateSnapshot :: "'d acl_api \<Rightarrow> MemSection \<Rightarrow> ptr \<Rightarrow> 'd \<Rightarrow> bool \<times> MemSection \<times> 'd" where
  "CreateSnapshot api s stream d =
     (if ms_origin s = 0 then (False, s, d)
      else let (ok, s1, d1) =
             (if ms_snapshot s = 0 then
                (let ((ret, p), d') = api_malloc api (ms_size s) (ms_policy s) d
                 in (ret = ACL_SUCCESS, s\<lparr>ms_snapshot := p\<rparr>, d'))
              else (True, s, d))
           in if \<not> ok then (False, s1, d1)
              else if stream = 0 then
                (let (r, d2) = MemCopySync api s1 ORIGIN_TO_SNAPSHOT d1 in (r, s1, d2))
              else (let (r, d2) = MemCopyWithStream api s1 stream ORIGIN_TO_SNAPSHOT d1 in (r, s1, d2)))"

definition RestoreFromSnapshot :: "'d acl_api \<Rightarrow> MemSection \<Rightarrow> ptr \<Rightarrow> 'd \<Rightarrow> bool \<times> 'd" where
  "RestoreFromSnapshot api s stream d =
     (if ms_origin s = 0 then (False, d)
      else if ms_snapshot s = 0 then (False, d)
      else if stream = 0 then MemCopySync api s SNAPSHOT_TO_ORIGIN d
      else MemCopyWithStream api s stream SNAPSHOT_TO_ORIGIN d)"

text \<open>The loops walk the map in order and stop at the first failure.\<close>

fun backup_loop ::
  "'d acl_api \<Rightarrow> (ptr \<times> MemSection) list \<Rightarrow> ptr \<times> 'd \<Rightarrow> bool \<times> (ptr \<times> MemSection) list \<times> (ptr \<times> 'd)" where
  "backup_loop api [] st = (True, [], st)"
| "backup_loop api ((a, s) # ps) st =
     (let (stream, (str, d)) = GetCurrentStream api st;
          (ok, s1, d1) = CreateSnapshot api s stream d
      in if \<not> ok then (False, (a, s1) # ps, (str, d1))
         else let (r, ps1, st1) = backup_loop api ps (str, d1) in (r, (a, s1) # ps1, st1))"

definition ctx_Backup :: "'d acl_api \<Rightarrow> memory_context \<times> 'd \<Rightarrow> bool \<times> (memory_context \<times> 'd)" where
  "ctx_Backup api st =
     (let (c, d) = st;
          (ok, secs, (stream, d1)) = backup_loop api (mc_sections c) (mc_stream c, d)
      in (ok, (c\<lparr>mc_sections := secs, mc_stream := stream\<rparr>, d1)))"

fun restore_loop ::
  "'d acl_api \<Rightarrow> (ptr \<times> MemSection) list \<Rightarrow> ptr \<times> 'd \<Rightarrow> bool \<times> (ptr \<times> 'd)" where
  "restore_loop api [] st = (True, st)"
| "restore_loop api ((a, s) # ps) st =
     (let (stream, (str, d)) = GetCurrentStream api st;
          (ok, d1) = RestoreFromSnapshot api s stream d
      in if \<not> ok then (False, (str, d1)) else restore_loop api ps (str, d1))"

definition ctx_Restore :: "'d acl_api \<Rightarrow> memory_context \<times> 'd \<Rightarrow> bool \<times> (memory_context \<times> 'd)" where
  "ctx_Restore api st =
     (let (c, d) = st;
          (ok, (stream, d1)) = restore_loop api (mc_sections c) (mc_stream c, d)
      in (ok, (c\<lparr>mc_stream := stream\<rparr>, d1)))"

section \<open>The record buffer\<close>

record dev_mem_manager =
  dm_memSize :: u64
  dm_memPtr :: ptr
  dm_init :: bool
  dm_skip :: bool
  dm_deviceId :: int

definition init_dev_mem_manager :: dev_mem_manager where
  "init_dev_mem_manager = \<lparr>dm_memSize = 0, dm_memPtr = 0, dm_init = False, dm_skip = False, dm_deviceId = -1\<rparr>"

definition dm_Free :: "'d acl_api \<Rightarrow> dev_mem_manager \<times> 'd \<Rightarrow> dev_mem_manager \<times> 'd" where
  "dm_Free api st =
     (let (m, d) = st;
          (m1, d1) = (if dm_memPtr m \<noteq> 0 then (m\<lparr>dm_memPtr := 0\<rparr>, snd (api_free api (dm_memPtr m) d))
                      else (m, d))
      in (m1\<lparr>dm_memSize := 0, dm_deviceId := -1\<rparr>, d1))"

text \<open>\<open>out\<close> is what \<open>*memPtr\<close> is set to, \<open>None\<close> when it is left alone.\<close>

definition MallocMemory ::
  "'d acl_api \<Rightarrow> bool \<Rightarrow> u64 \<Rightarrow> dev_mem_manager \<times> 'd \<Rightarrow> (aclError \<times> ptr option) \<times> (dev_mem_manager \<times> 'd)" where
  "MallocMemory api outNull len st =
     (if outNull then ((ACL_ERROR_BAD_ALLOC, None), st)
      else let (m, d) = st;
               ((ret, deviceId), d1) = api_getDevice api d
           in if ret \<noteq> ACL_SUCCESS then ((ACL_ERROR_BAD_ALLOC, None), (m, d1))
              else if deviceId = dm_deviceId m \<and> dm_memSize m \<ge> len
              then ((ACL_SUCCESS, Some (dm_memPtr m)), (m, d1))
              else let (m1, d2) = dm_Free api (m, d1);
                       ((error, p), d3) = api_malloc api len ACL_MEM_MALLOC_HUGE_FIRST d2;
                       m2 = m1\<lparr>dm_memPtr := p\<rparr>
                   in if error \<noteq> ACL_SUCCESS then ((error, None), (m2, d3))
                      else ((ACL_SUCCESS, Some p),
                            (m2\<lparr>dm_memSize := len, dm_init := False, dm_deviceId := deviceId\<rparr>, d3)))"

section \<open>What the runtime promises\<close>

text \<open>
  \<open>blocks d\<close> gives the contents of the live device blocks by base address. A successful allocation is a
  new block of the requested size at a non-null address; a failed one changes nothing and leaves the
  pointer null; a successful copy (an asynchronous one after its stream is synchronised) of whole blocks
  copies the contents; freeing removes the block; asking for the stream or the device changes no block.
\<close>

definition malloc_spec :: "'d acl_api \<Rightarrow> ('d \<Rightarrow> ptr \<Rightarrow> u8 list option) \<Rightarrow> bool" where
  "malloc_spec api blocks \<longleftrightarrow>
     (\<forall>n pol d e p d'. api_malloc api n pol d = ((e, p), d') \<longrightarrow>
        (if e = ACL_SUCCESS
         then p \<noteq> 0 \<and> blocks d p = None \<and>
              (\<exists>bs. length bs = unat n \<and> blocks d' = (blocks d)(p \<mapsto> bs))
         else p = 0 \<and> blocks d' = blocks d))"

definition memcpy_spec :: "'d acl_api \<Rightarrow> ('d \<Rightarrow> ptr \<Rightarrow> u8 list option) \<Rightarrow> bool" where
  "memcpy_spec api blocks \<longleftrightarrow>
     (\<forall>dst n src d d' old bs. api_memcpy api dst n src n ACL_MEMCPY_DEVICE_TO_DEVICE d = (ACL_SUCCESS, d') \<longrightarrow>
        blocks d dst = Some old \<longrightarrow> blocks d src = Some bs \<longrightarrow> length old = unat n \<longrightarrow> length bs = unat n \<longrightarrow>
        blocks d' = (blocks d)(dst \<mapsto> bs)) \<and>
     (\<forall>dst n src stream d d1 d2 old bs.
        api_memcpyAsync api dst n src n ACL_MEMCPY_DEVICE_TO_DEVICE stream d = (ACL_SUCCESS, d1) \<longrightarrow>
        api_synchronize api stream d1 = (ACL_SUCCESS, d2) \<longrightarrow>
        blocks d dst = Some old \<longrightarrow> blocks d src = Some bs \<longrightarrow> length old = unat n \<longrightarrow> length bs = unat n \<longrightarrow>
        blocks d2 = (blocks d)(dst \<mapsto> bs))"

definition acl_spec :: "'d acl_api \<Rightarrow> ('d \<Rightarrow> ptr \<Rightarrow> u8 list option) \<Rightarrow> bool" where
  "acl_spec api blocks \<longleftrightarrow> malloc_spec api blocks \<and> memcpy_spec api blocks \<and>
     (\<forall>p d. p \<noteq> 0 \<longrightarrow> blocks (snd (api_free api p d)) = (blocks d)(p := None)) \<and>
     (\<forall>d. blocks (snd (api_currentStream api d)) = blocks d) \<and>
     (\<forall>d. blocks (snd (api_getDevice api d)) = blocks d)"

lemma malloc_success:
  assumes "acl_spec api blocks" and "api_malloc api n pol d = ((ACL_SUCCESS, p), d')"
  obtains bs where "p \<noteq> 0" and "blocks d p = None" and "length bs = unat n" and "blocks d' = (blocks d)(p \<mapsto> bs)"
proof -
  have "malloc_spec api blocks" using assms(1) by (simp only: acl_spec_def)
  then have "p \<noteq> 0 \<and> blocks d p = None \<and> (\<exists>bs. length bs = unat n \<and> blocks d' = (blocks d)(p \<mapsto> bs))"
    using assms(2) unfolding malloc_spec_def by (metis (mono_tags, lifting))
  with that show thesis by blast
qed

lemma malloc_failure:
  "acl_spec api blocks \<Longrightarrow> api_malloc api n pol d = ((e, p), d') \<Longrightarrow> e \<noteq> ACL_SUCCESS \<Longrightarrow>
   p = 0 \<and> blocks d' = blocks d"
  unfolding acl_spec_def malloc_spec_def by (metis (mono_tags, lifting))

definition holds_block :: "('d \<Rightarrow> ptr \<Rightarrow> u8 list option) \<Rightarrow> 'd \<Rightarrow> ptr \<Rightarrow> u64 \<Rightarrow> bool" where
  "holds_block blocks d p n \<longleftrightarrow> (\<exists>bs. blocks d p = Some bs \<and> length bs = unat n)"

lemma stream_blocks:
  "acl_spec api blocks \<Longrightarrow> GetCurrentStream api (str, d) = (stream, (str1, d1)) \<Longrightarrow> blocks d1 = blocks d"
proof -
  assume a: "acl_spec api blocks" and g: "GetCurrentStream api (str, d) = (stream, (str1, d1))"
  from a have "blocks (snd (api_currentStream api d)) = blocks d" by (simp add: acl_spec_def)
  with g show ?thesis
    by (auto simp: GetCurrentStream_def Let_def split: if_splits prod.splits)
qed

lemma copy_blocks:
  assumes "acl_spec api blocks" and "copy_ends s dir = (dst, src)"
    and "holds_block blocks d dst (ms_size s)" and "blocks d src = Some bs" and "length bs = unat (ms_size s)"
  shows "MemCopySync api s dir d = (True, d1) \<Longrightarrow> blocks d1 = (blocks d)(dst \<mapsto> bs)"
    and "MemCopyWithStream api s stream dir d = (True, d1) \<Longrightarrow> blocks d1 = (blocks d)(dst \<mapsto> bs)"
proof -
  from assms(3) obtain old where old: "blocks d dst = Some old" "length old = unat (ms_size s)"
    by (auto simp: holds_block_def)
  show "MemCopySync api s dir d = (True, d1) \<Longrightarrow> blocks d1 = (blocks d)(dst \<mapsto> bs)"
  proof -
    assume m: "MemCopySync api s dir d = (True, d1)"
    then have "api_memcpy api dst (ms_size s) src (ms_size s) ACL_MEMCPY_DEVICE_TO_DEVICE d = (ACL_SUCCESS, d1)"
      using assms(2) by (simp add: MemCopySync_def case_prod_unfold Let_def prod_eq_iff)
    moreover have "memcpy_spec api blocks" using assms(1) by (simp only: acl_spec_def)
    ultimately show ?thesis unfolding memcpy_spec_def using old assms(4,5) by blast
  qed
  show "MemCopyWithStream api s stream dir d = (True, d1) \<Longrightarrow> blocks d1 = (blocks d)(dst \<mapsto> bs)"
  proof -
    assume m: "MemCopyWithStream api s stream dir d = (True, d1)"
    obtain r d' where c: "api_memcpyAsync api dst (ms_size s) src (ms_size s)
        ACL_MEMCPY_DEVICE_TO_DEVICE stream d = (r, d')" by fastforce
    obtain r2 d2 where y: "api_synchronize api stream d' = (r2, d2)" by fastforce
    have "r = ACL_SUCCESS" "r2 = ACL_SUCCESS" "d2 = d1"
      using m c y assms(2) by (auto simp: MemCopyWithStream_def split: if_splits)
    moreover have "memcpy_spec api blocks" using assms(1) by (simp only: acl_spec_def)
    ultimately show ?thesis unfolding memcpy_spec_def using c y old assms(4,5) by blast
  qed
qed

definition snapshot_copy :: "'d acl_api \<Rightarrow> MemSection \<Rightarrow> ptr \<Rightarrow> MemCopyDirection \<Rightarrow> 'd \<Rightarrow> bool \<times> 'd" where
  "snapshot_copy api s stream dir d =
     (if stream = 0 then MemCopySync api s dir d else MemCopyWithStream api s stream dir d)"

lemma snapshot_copy_blocks:
  assumes "acl_spec api blocks" and "copy_ends s dir = (dst, src)"
    and "holds_block blocks d dst (ms_size s)" and "blocks d src = Some bs" and "length bs = unat (ms_size s)"
    and "snapshot_copy api s stream dir d = (True, d1)"
  shows "blocks d1 = (blocks d)(dst \<mapsto> bs)"
  using copy_blocks [OF assms(1-5)] assms(6) by (auto simp: snapshot_copy_def split: if_splits)

lemma CreateSnapshot_new:
  assumes "ms_origin s \<noteq> 0" and "ms_snapshot s = 0"
    and "api_malloc api (ms_size s) (ms_policy s) d = ((e, p), d')"
    and "snapshot_copy api (s\<lparr>ms_snapshot := p\<rparr>) stream ORIGIN_TO_SNAPSHOT d' = (r, d2)"
  shows "CreateSnapshot api s stream d =
           (if e = ACL_SUCCESS then (r, s\<lparr>ms_snapshot := p\<rparr>, d2) else (False, s\<lparr>ms_snapshot := p\<rparr>, d'))"
  using assms by (simp add: CreateSnapshot_def snapshot_copy_def Let_def split: if_splits)

lemma CreateSnapshot_old:
  assumes "ms_origin s \<noteq> 0" and "ms_snapshot s \<noteq> 0"
    and "snapshot_copy api s stream ORIGIN_TO_SNAPSHOT d = (r, d2)"
  shows "CreateSnapshot api s stream d = (r, s, d2)"
  using assms by (simp add: CreateSnapshot_def snapshot_copy_def Let_def split: if_splits)

lemma CreateSnapshot_blocks:
  assumes api: "acl_spec api blocks" and o: "blocks d (ms_origin s) = Some bs" "length bs = unat (ms_size s)"
    and sn: "ms_snapshot s \<noteq> 0 \<longrightarrow> holds_block blocks d (ms_snapshot s) (ms_size s) \<and> ms_snapshot s \<noteq> ms_origin s"
    and c: "CreateSnapshot api s stream d = (True, s1, d1)"
  shows "\<exists>p. s1 = s\<lparr>ms_snapshot := p\<rparr> \<and> p \<noteq> 0 \<and> p \<noteq> ms_origin s \<and>
             (if ms_snapshot s = 0 then blocks d p = None else p = ms_snapshot s) \<and>
             blocks d1 = (blocks d)(p \<mapsto> bs)"
proof -
  have on: "ms_origin s \<noteq> 0" using c by (auto simp: CreateSnapshot_def)
  show ?thesis
  proof (cases "ms_snapshot s = 0")
    case True
    obtain e p d' where m: "api_malloc api (ms_size s) (ms_policy s) d = ((e, p), d')" by (metis prod.collapse)
    let ?s = "s\<lparr>ms_snapshot := p\<rparr>"
    obtain r d2 where cp: "snapshot_copy api ?s stream ORIGIN_TO_SNAPSHOT d' = (r, d2)" by fastforce
    have e: "e = ACL_SUCCESS" and s1: "s1 = ?s" and copy: "snapshot_copy api ?s stream ORIGIN_TO_SNAPSHOT d' = (True, d1)"
      using CreateSnapshot_new [OF on True m cp] c cp by (simp_all split: if_splits)
    from malloc_success [OF api m [unfolded e]] obtain new where p: "p \<noteq> 0" "blocks d p = None"
      and n: "length new = unat (ms_size s)" "blocks d' = (blocks d)(p \<mapsto> new)" .
    have po: "p \<noteq> ms_origin s" using p o by auto
    have "blocks d1 = (blocks d')(p \<mapsto> bs)"
      using snapshot_copy_blocks [OF api _ _ _ _ copy, of p "ms_origin s" bs] n o po
      by (simp add: copy_ends_def holds_block_def)
    with True s1 p po n show ?thesis by auto
  next
    case False
    obtain r d2 where cp: "snapshot_copy api s stream ORIGIN_TO_SNAPSHOT d = (r, d2)" by fastforce
    have s1: "s1 = s" and copy: "snapshot_copy api s stream ORIGIN_TO_SNAPSHOT d = (True, d1)"
      using CreateSnapshot_old [OF on False cp] c cp by simp_all
    have "blocks d1 = (blocks d)(ms_snapshot s \<mapsto> bs)"
      using snapshot_copy_blocks [OF api _ _ _ _ copy, of "ms_snapshot s" "ms_origin s" bs] sn False o
      by (simp add: copy_ends_def)
    with False s1 sn show ?thesis by auto
  qed
qed

text \<open>
  The sections and the device agree: every origin is a live block of its size under its own key, and
  every existing snapshot is a live block of the same size that is no origin and no other snapshot.
\<close>

definition origins :: "(ptr \<times> MemSection) list \<Rightarrow> ptr set" where
  "origins ps = ms_origin ` snd ` set ps"

definition snapshots :: "(ptr \<times> MemSection) list \<Rightarrow> ptr list" where
  "snapshots ps = filter (\<lambda>p. p \<noteq> 0) (map (ms_snapshot \<circ> snd) ps)"

definition sections_ok :: "('d \<Rightarrow> ptr \<Rightarrow> u8 list option) \<Rightarrow> 'd \<Rightarrow> (ptr \<times> MemSection) list \<Rightarrow> bool" where
  "sections_ok blocks d ps \<longleftrightarrow>
     (\<forall>(a, s) \<in> set ps. holds_block blocks d (ms_origin s) (ms_size s) \<and>
        (ms_snapshot s \<noteq> 0 \<longrightarrow> holds_block blocks d (ms_snapshot s) (ms_size s))) \<and>
     distinct (snapshots ps) \<and> origins ps \<inter> set (snapshots ps) = {}"

lemma snapshots_Cons: "snapshots ((a, s) # ps) = (if ms_snapshot s = 0 then snapshots ps else ms_snapshot s # snapshots ps)"
  by (simp add: snapshots_def)

lemma backup_loop_blocks:
  assumes api: "acl_spec api blocks" and ok: "sections_ok blocks d ps"
    and run: "backup_loop api ps (str, d) = (True, qs, (str1, d1))"
  shows "map (\<lambda>(a, s). (a, ms_origin s, ms_size s)) qs = map (\<lambda>(a, s). (a, ms_origin s, ms_size s)) ps \<and>
         (\<forall>(a, s) \<in> set qs. ms_snapshot s \<noteq> 0 \<and> blocks d1 (ms_snapshot s) = blocks d (ms_origin s)) \<and>
         (\<forall>p. p \<notin> set (snapshots qs) \<longrightarrow> blocks d1 p = blocks d p) \<and>
         distinct (snapshots qs) \<and> (\<forall>p \<in> set (snapshots qs). p \<in> set (snapshots ps) \<or> blocks d p = None)"
  using ok run
proof (induction ps arbitrary: d str qs str1 d1)
  case Nil
  then show ?case by (simp add: snapshots_def)
next
  case (Cons x ps)
  obtain a s where x: "x = (a, s)" by (cases x)
  obtain stream str' d' where g: "GetCurrentStream api (str, d) = (stream, (str', d'))" by (metis prod.collapse)
  have bd: "blocks d' = blocks d" using stream_blocks [OF api g] .
  obtain ok1 s1 d2 where c: "CreateSnapshot api s stream d' = (ok1, s1, d2)" by (metis prod.collapse)
  obtain r qs' st3 where l: "backup_loop api ps (str', d2) = (r, qs', st3)" by (metis prod.collapse)
  have run: "ok1" "r" "qs = (a, s1) # qs'" "st3 = (str1, d1)"
    using Cons.prems(2) x g c l by (simp_all split: if_splits)
  have so: "holds_block blocks d (ms_origin s) (ms_size s)"
    and ss: "ms_snapshot s \<noteq> 0 \<longrightarrow> holds_block blocks d (ms_snapshot s) (ms_size s) \<and> ms_snapshot s \<noteq> ms_origin s"
    using Cons.prems(1) x by (auto simp: sections_ok_def snapshots_Cons origins_def)
  from so obtain bs where bs: "blocks d (ms_origin s) = Some bs" "length bs = unat (ms_size s)"
    by (auto simp: holds_block_def)
  have "\<exists>p. s1 = s\<lparr>ms_snapshot := p\<rparr> \<and> p \<noteq> 0 \<and> p \<noteq> ms_origin s \<and>
      (if ms_snapshot s = 0 then blocks d' p = None else p = ms_snapshot s) \<and> blocks d2 = (blocks d')(p \<mapsto> bs)"
    using CreateSnapshot_blocks [OF api, of d' s bs stream s1 d2] bs ss c run(1) bd
    by (simp add: holds_block_def)
  then obtain p where p: "s1 = s\<lparr>ms_snapshot := p\<rparr>" "p \<noteq> 0" "p \<noteq> ms_origin s"
    "if ms_snapshot s = 0 then blocks d p = None else p = ms_snapshot s" "blocks d2 = (blocks d)(p \<mapsto> bs)"
    unfolding bd by blast
  have pn: "p \<notin> origins ps" and pm: "p \<notin> set (snapshots ps)"
  proof -
    have "ms_snapshot s \<noteq> 0 \<Longrightarrow> ms_snapshot s \<notin> origins ps \<and> ms_snapshot s \<notin> set (snapshots ps)"
      using Cons.prems(1) x by (auto simp: sections_ok_def snapshots_Cons origins_def)
    moreover have "\<And>q. q \<in> origins ps \<union> set (snapshots ps) \<Longrightarrow> blocks d q \<noteq> None"
      using Cons.prems(1) x
      by (auto simp: sections_ok_def origins_def snapshots_def holds_block_def)
    ultimately have "p \<notin> origins ps \<union> set (snapshots ps)"
      using p(4) by (cases "ms_snapshot s = 0") (fastforce, fastforce)
    then show "p \<notin> origins ps" "p \<notin> set (snapshots ps)" by simp_all
  qed
  have ok2: "sections_ok blocks d2 ps"
  proof -
    have "holds_block blocks d2 q n = holds_block blocks d q n" if "q \<noteq> p" for q n
      using that p(5) by (simp add: holds_block_def)
    moreover have "\<forall>(a, s) \<in> set ps. ms_origin s \<noteq> p \<and> (ms_snapshot s \<noteq> 0 \<longrightarrow> ms_snapshot s \<noteq> p)"
      using pn pm by (force simp: origins_def snapshots_def)
    ultimately show ?thesis
      using Cons.prems(1) x by (fastforce simp: sections_ok_def snapshots_Cons origins_def split: if_splits)
  qed
  have loop: "backup_loop api ps (str', d2) = (True, qs', (str1, d1))" using l run by simp
  have IH: "map (\<lambda>(a, s). (a, ms_origin s, ms_size s)) qs' = map (\<lambda>(a, s). (a, ms_origin s, ms_size s)) ps"
      "\<forall>(a, s) \<in> set qs'. ms_snapshot s \<noteq> 0 \<and> blocks d1 (ms_snapshot s) = blocks d2 (ms_origin s)"
      "\<forall>q. q \<notin> set (snapshots qs') \<longrightarrow> blocks d1 q = blocks d2 q"
      "distinct (snapshots qs')" "\<forall>q \<in> set (snapshots qs'). q \<in> set (snapshots ps) \<or> blocks d2 q = None"
    using Cons.IH [OF ok2 loop] by simp_all
  have pq: "p \<notin> set (snapshots qs')" using IH(5) pm p(5) by auto
  have oq: "origins qs' = origins ps"
    using arg_cong [OF IH(1), of "\<lambda>l. (fst \<circ> snd) ` set l"] by (simp add: origins_def image_image case_prod_unfold)
  have orig: "blocks d2 (ms_origin t) = blocks d (ms_origin t)" if "t \<in> snd ` set qs'" for t
  proof -
    have "ms_origin t \<in> origins ps" using that unfolding oq [symmetric] by (auto simp: origins_def)
    then have "ms_origin t \<noteq> p" using pn by metis
    then show ?thesis using p(5) by simp
  qed
  have sq: "snapshots qs = p # snapshots qs'" using run(3) p(1,2) by (simp add: snapshots_Cons)
  have sx: "set (snapshots (x # ps)) = (if ms_snapshot s = 0 then {} else {ms_snapshot s}) \<union> set (snapshots ps)"
    using x by (simp add: snapshots_Cons)
  have d2: "q \<noteq> p \<Longrightarrow> blocks d2 q = blocks d q" for q using p(5) by simp
  have c1: "map (\<lambda>(a, s). (a, ms_origin s, ms_size s)) qs = map (\<lambda>(a, s). (a, ms_origin s, ms_size s)) (x # ps)"
    using IH(1) run(3) p(1) x by simp
  have "blocks d1 p = blocks d (ms_origin s)" using IH(3) pq p(5) bs(1) by simp
  moreover have "ms_snapshot t \<noteq> 0 \<and> blocks d1 (ms_snapshot t) = blocks d (ms_origin t)" if "(b, t) \<in> set qs'" for b t
    using IH(2) orig [of t] that by force
  ultimately have c2: "\<forall>(b, t) \<in> set qs. ms_snapshot t \<noteq> 0 \<and> blocks d1 (ms_snapshot t) = blocks d (ms_origin t)"
    using run(3) p(1,2) by auto
  have c3: "\<forall>q. q \<notin> set (snapshots qs) \<longrightarrow> blocks d1 q = blocks d q"
    using IH(3) sq d2 by simp
  have c4: "distinct (snapshots qs)" using sq pq IH(4) by simp
  have "q \<in> set (snapshots (x # ps)) \<or> blocks d q = None" if "q \<in> set (snapshots qs')" for q
  proof -
    have "q \<noteq> p" using pq that by blast
    then have "blocks d2 q = blocks d q" by (rule d2)
    then have "q \<in> set (snapshots ps) \<or> blocks d q = None" using IH(5) that by metis
    then show ?thesis unfolding sx by auto
  qed
  moreover have "p \<in> set (snapshots (x # ps)) \<or> blocks d p = None"
    using p(2,4) sx by (auto split: if_splits)
  ultimately have "\<forall>q \<in> set (snapshots qs). q \<in> set (snapshots (x # ps)) \<or> blocks d q = None"
    using sq by simp
  with c1 c2 c3 c4 show ?case by blast
qed

text \<open>Restoring writes each snapshot back and touches nothing but the origins.\<close>

lemma RestoreFromSnapshot_blocks:
  assumes api: "acl_spec api blocks" and o: "holds_block blocks d (ms_origin s) (ms_size s)"
    and sn: "blocks d (ms_snapshot s) = Some bs" "length bs = unat (ms_size s)"
    and r: "RestoreFromSnapshot api s stream d = (True, d1)"
  shows "blocks d1 = (blocks d)(ms_origin s \<mapsto> bs)"
proof -
  have "snapshot_copy api s stream SNAPSHOT_TO_ORIGIN d = (True, d1)"
    using r by (simp add: RestoreFromSnapshot_def snapshot_copy_def split: if_splits)
  from snapshot_copy_blocks [OF api _ o sn this] show ?thesis by (simp add: copy_ends_def)
qed

lemma restore_loop_blocks:
  assumes api: "acl_spec api blocks"
    and live: "\<forall>(a, s) \<in> set ps. holds_block blocks d (ms_origin s) (ms_size s) \<and>
                 holds_block blocks d (ms_snapshot s) (ms_size s) \<and> ms_snapshot s \<notin> origins ps"
    and dist: "distinct (map (ms_origin \<circ> snd) ps)"
    and run: "restore_loop api ps (str, d) = (True, (str1, d1))"
  shows "(\<forall>(a, s) \<in> set ps. blocks d1 (ms_origin s) = blocks d (ms_snapshot s)) \<and>
         (\<forall>p. p \<notin> origins ps \<longrightarrow> blocks d1 p = blocks d p)"
  using live dist run
proof (induction ps arbitrary: d str)
  case Nil
  then show ?case by simp
next
  case (Cons x ps)
  obtain a s where x: "x = (a, s)" by (cases x)
  obtain stream str' d' where g: "GetCurrentStream api (str, d) = (stream, (str', d'))" by (metis prod.collapse)
  have bd: "blocks d' = blocks d" using stream_blocks [OF api g] .
  obtain ok d2 where c: "RestoreFromSnapshot api s stream d' = (ok, d2)" by fastforce
  have run: "ok" "restore_loop api ps (str', d2) = (True, (str1, d1))"
    using Cons.prems(3) x g c by (simp_all split: if_splits)
  have so: "holds_block blocks d (ms_origin s) (ms_size s)" "holds_block blocks d (ms_snapshot s) (ms_size s)"
    using Cons.prems(1) x by auto
  then obtain bs where bs: "blocks d (ms_snapshot s) = Some bs" "length bs = unat (ms_size s)"
    by (auto simp: holds_block_def)
  have d2: "blocks d2 = (blocks d)(ms_origin s \<mapsto> bs)"
    using RestoreFromSnapshot_blocks [OF api _ _ bs(2), of d' stream d2] so(1) bs(1) c run(1)
    by (simp add: bd holds_block_def)
  have no: "ms_origin s \<notin> origins ps" using Cons.prems(2) x by (auto simp: origins_def)
  have keep: "blocks d2 p = blocks d p" if "p \<noteq> ms_origin s" for p using d2 that by simp
  have sub: "origins (x # ps) = insert (ms_origin s) (origins ps)" using x by (simp add: origins_def)
  have snap: "blocks d2 (ms_snapshot t) = blocks d (ms_snapshot t)" if "(b, t) \<in> set (x # ps)" for b t
  proof -
    have "ms_snapshot t \<notin> origins (x # ps)" using Cons.prems(1) that by auto
    then show ?thesis using keep sub by simp
  qed
  have org: "blocks d2 (ms_origin t) = blocks d (ms_origin t)" if "(b, t) \<in> set ps" for b t
  proof -
    have "ms_origin t \<in> origins ps" using that by (force simp: origins_def)
    then show ?thesis using keep [of "ms_origin t"] no by metis
  qed
  have "\<forall>(b, t) \<in> set ps. holds_block blocks d2 (ms_origin t) (ms_size t) \<and>
      holds_block blocks d2 (ms_snapshot t) (ms_size t) \<and> ms_snapshot t \<notin> origins ps"
    using Cons.prems(1) sub org snap by (fastforce simp: holds_block_def)
  moreover have "distinct (map (ms_origin \<circ> snd) ps)" using Cons.prems(2) by (simp add: comp_def)
  ultimately have IH: "\<forall>(b, t) \<in> set ps. blocks d1 (ms_origin t) = blocks d2 (ms_snapshot t)"
      "\<forall>p. p \<notin> origins ps \<longrightarrow> blocks d1 p = blocks d2 p"
    using Cons.IH [OF _ _ run(2)] by blast+
  have "blocks d1 (ms_origin s) = blocks d (ms_snapshot s)" using IH(2) no d2 bs(1) by simp
  moreover have "blocks d1 (ms_origin t) = blocks d (ms_snapshot t)" if "(b, t) \<in> set ps" for b t
    using IH(1) that snap [of b t] by fastforce
  ultimately have c1: "\<forall>(b, t) \<in> set (x # ps). blocks d1 (ms_origin t) = blocks d (ms_snapshot t)"
    using x by auto
  have "\<forall>p. p \<notin> origins (x # ps) \<longrightarrow> blocks d1 p = blocks d p" using IH(2) keep sub by simp
  with c1 show ?case by blast
qed

section \<open>Backing up and restoring\<close>

text \<open>
  What the map looks like between calls: its keys are strictly increasing and every section is the one
  of its own non-null address.
\<close>

definition ctx_wf :: "memory_context \<Rightarrow> bool" where
  "ctx_wf c \<longleftrightarrow> sorted_wrt (<) (map fst (mc_sections c)) \<and>
     (\<forall>(a, s) \<in> set (mc_sections c). ms_origin s = a \<and> a \<noteq> 0)"

lemma omap_put_subset: "set (omap_put k v m) \<subseteq> insert (k, v) (set m)"
  by (induction m) (auto split: if_splits)

lemma ctx_Append_wf: "ctx_wf c \<Longrightarrow> ctx_wf (ctx_Append addr len c)"
  using omap_put_subset [of addr _ "mc_sections c"]
  by (fastforce simp: ctx_wf_def ctx_Append_def intro: omap_put_sorted)

lemma ctx_Discard_wf:
  assumes "ctx_wf c" and "ctx_Discard api addr (c, d) = (c1, d1)"
  shows "ctx_wf c1"
proof -
  have "mc_sections c1 = mc_sections c \<or> mc_sections c1 = omap_erase addr (mc_sections c)"
    using assms(2) by (auto simp: ctx_Discard_def Let_def split: option.splits)
  then show ?thesis
    using assms(1) sorted_wrt_filter [of "\<lambda>p q. fst p < fst q"]
    by (auto simp: ctx_wf_def omap_erase_def sorted_wrt_map)
qed

lemma ctx_wf_origins:
  assumes "ctx_wf c"
  shows "distinct (map (ms_origin \<circ> snd) (mc_sections c))"
proof -
  have "map (ms_origin \<circ> snd) (mc_sections c) = map fst (mc_sections c)"
    using assms by (auto simp: ctx_wf_def)
  moreover have "distinct (map fst (mc_sections c))" using assms by (simp add: ctx_wf_def strict_sorted_iff)
  ultimately show ?thesis by metis
qed

lemma backup_keeps_keys:
  assumes "map (\<lambda>(a, s). (a, ms_origin s, ms_size s)) qs = map (\<lambda>(a, s). (a, ms_origin s, ms_size s)) ps"
  shows "map fst qs = map fst ps" and "map (ms_origin \<circ> snd) qs = map (ms_origin \<circ> snd) ps"
    and "origins qs = origins ps" and "list_all2 (\<lambda>(a, s) (b, t). a = b \<and> ms_origin s = ms_origin t \<and> ms_size s = ms_size t) qs ps"
proof -
  show l: "list_all2 (\<lambda>(a, s) (b, t). a = b \<and> ms_origin s = ms_origin t \<and> ms_size s = ms_size t) qs ps"
    using assms by (auto simp: list_all2_conv_all_nth list_eq_iff_nth_eq case_prod_unfold)
  show "map fst qs = map fst ps"
    using arg_cong [OF assms, of "map fst"] by (simp add: comp_def case_prod_unfold)
  show m: "map (ms_origin \<circ> snd) qs = map (ms_origin \<circ> snd) ps"
    using arg_cong [OF assms, of "map (fst \<circ> snd)"] by (simp add: comp_def case_prod_unfold)
  show "origins qs = origins ps"
    using arg_cong [OF m, of set] by (simp add: origins_def image_comp)
qed

lemma ctx_Backup_blocks:
  assumes "acl_spec api blocks" and "sections_ok blocks d (mc_sections c)" and "ctx_wf c"
    and "ctx_Backup api (c, d) = (True, (c1, d1))"
  shows "ctx_wf c1 \<and>
         map (\<lambda>(a, s). (a, ms_origin s, ms_size s)) (mc_sections c1) =
           map (\<lambda>(a, s). (a, ms_origin s, ms_size s)) (mc_sections c) \<and>
         (\<forall>(a, s) \<in> set (mc_sections c1). ms_snapshot s \<noteq> 0 \<and> blocks d1 (ms_snapshot s) = blocks d (ms_origin s)) \<and>
         (\<forall>p. p \<notin> set (snapshots (mc_sections c1)) \<longrightarrow> blocks d1 p = blocks d p) \<and>
         origins (mc_sections c1) \<inter> set (snapshots (mc_sections c1)) = {}"
proof -
  obtain str where run: "backup_loop api (mc_sections c) (mc_stream c, d) = (True, mc_sections c1, (str, d1))"
    using assms(4) by (auto simp: ctx_Backup_def Let_def split: prod.splits)
  note b = backup_loop_blocks [OF assms(1,2) run]
  then have k: "map (\<lambda>(a, s). (a, ms_origin s, ms_size s)) (mc_sections c1) =
      map (\<lambda>(a, s). (a, ms_origin s, ms_size s)) (mc_sections c)" by blast
  have dis: "origins (mc_sections c1) \<inter> set (snapshots (mc_sections c1)) = {}"
  proof -
    have "p \<notin> set (snapshots (mc_sections c1))" if p: "p \<in> origins (mc_sections c)" for p
    proof -
      have "blocks d p \<noteq> None" "p \<notin> set (snapshots (mc_sections c))"
        using p assms(2) by (auto simp: sections_ok_def origins_def holds_block_def)
      then show ?thesis using b by metis
    qed
    then show ?thesis using backup_keeps_keys(3) [OF k] by blast
  qed
  have "ctx_wf c1"
  proof -
    have "set (map (\<lambda>(a, s). (a, ms_origin s, ms_size s)) (mc_sections c1)) =
        set (map (\<lambda>(a, s). (a, ms_origin s, ms_size s)) (mc_sections c))" using k by simp
    then have "\<exists>t. (a, t) \<in> set (mc_sections c) \<and> ms_origin t = ms_origin s" if "(a, s) \<in> set (mc_sections c1)" for a s
      using that by (force simp: image_iff)
    then have "\<forall>(a, s) \<in> set (mc_sections c1). ms_origin s = a \<and> a \<noteq> 0"
      using assms(3) by (fastforce simp: ctx_wf_def)
    then show ?thesis using assms(3) backup_keeps_keys(1) [OF k] by (simp add: ctx_wf_def)
  qed
  with k dis b show ?thesis by blast
qed

text \<open>
  C27: Backing up and restoring gives the kernel its inputs back: after a successful backup, whatever the
  run in between writes into the recorded buffers (it frees none of them and does not touch the
  snapshots), a successful restore leaves every recorded buffer with the contents it had at the backup.
\<close>

theorem backup_restore:
  assumes "acl_spec api blocks" and "ctx_wf c" and "sections_ok blocks d (mc_sections c)"
    and "ctx_Backup api (c, d) = (True, (c1, d1))"
    and "\<forall>(a, s) \<in> set (mc_sections c1). blocks d2 (ms_snapshot s) = blocks d1 (ms_snapshot s) \<and>
           holds_block blocks d2 (ms_origin s) (ms_size s)"
    and "ctx_Restore api (c1, d2) = (True, (c2, d3))"
  shows "mc_sections c2 = mc_sections c1 \<and> (\<forall>(a, s) \<in> set (mc_sections c). blocks d3 a = blocks d a)"
proof -
  note b = ctx_Backup_blocks [OF assms(1,3,2,4)]
  then have wf: "ctx_wf c1" and k: "map (\<lambda>(a, s). (a, ms_origin s, ms_size s)) (mc_sections c1) =
      map (\<lambda>(a, s). (a, ms_origin s, ms_size s)) (mc_sections c)" by blast+
  obtain str where run: "restore_loop api (mc_sections c1) (mc_stream c1, d2) = (True, (str, d3))"
      and secs: "mc_sections c2 = mc_sections c1"
    using assms(6) by (auto simp: ctx_Restore_def Let_def split: prod.splits)
  have "holds_block blocks d2 (ms_origin s) (ms_size s) \<and>
      holds_block blocks d2 (ms_snapshot s) (ms_size s) \<and> ms_snapshot s \<notin> origins (mc_sections c1) \<and>
      blocks d2 (ms_snapshot s) = blocks d a" if s: "(a, s) \<in> set (mc_sections c1)" for a s
  proof -
    have o: "ms_origin s = a" using wf s by (auto simp: ctx_wf_def)
    have sn: "ms_snapshot s \<noteq> 0" "blocks d2 (ms_snapshot s) = blocks d a"
      using b assms(5) s o by fastforce+
    then have "ms_snapshot s \<in> set (snapshots (mc_sections c1))" using s by (force simp: snapshots_def)
    moreover obtain t where "(a, t) \<in> set (mc_sections c)" "ms_origin t = a" "ms_size t = ms_size s"
      using arg_cong [OF k, of set] s o by (force simp: image_iff)
    ultimately show ?thesis
      using assms(3,5) b s sn by (fastforce simp: sections_ok_def holds_block_def)
  qed
  note live = this
  then have "\<forall>(a, s) \<in> set (mc_sections c1). holds_block blocks d2 (ms_origin s) (ms_size s) \<and>
      holds_block blocks d2 (ms_snapshot s) (ms_size s) \<and> ms_snapshot s \<notin> origins (mc_sections c1)" by blast
  from restore_loop_blocks [OF assms(1) this ctx_wf_origins [OF wf] run]
  have r: "\<forall>(a, s) \<in> set (mc_sections c1). blocks d3 (ms_origin s) = blocks d2 (ms_snapshot s)" by blast
  have "blocks d3 a = blocks d a" if "a \<in> fst ` set (mc_sections c)" for a
  proof -
    have "a \<in> fst ` set (mc_sections c1)"
      using that arg_cong [OF backup_keeps_keys(1) [OF k], of set] by simp
    then obtain s where s: "(a, s) \<in> set (mc_sections c1)" by force
    then show ?thesis using r live [OF s] wf by (fastforce simp: ctx_wf_def)
  qed
  with secs show ?thesis by force
qed

text \<open>A device in a few lines: a map of blocks and the next free address, with one stream.\<close>

definition mini_api :: "((ptr \<Rightarrow> u8 list option) \<times> ptr) acl_api" where
  "mini_api = \<lparr>
     api_malloc = (\<lambda>n pol (b, k). if k = 0 \<or> b k \<noteq> None then ((1, 0), (b, k))
        else ((ACL_SUCCESS, k), (b(k \<mapsto> replicate (unat n) 0), k + 256))),
     api_free = (\<lambda>p (b, k). (ACL_SUCCESS, (b(p := None), k))),
     api_memcpy = (\<lambda>dst n src m kind (b, k). (ACL_SUCCESS, (b(dst := b src), k))),
     api_memcpyAsync = (\<lambda>dst n src m kind stream (b, k). (ACL_SUCCESS, (b(dst := b src), k))),
     api_synchronize = (\<lambda>stream d. (ACL_SUCCESS, d)),
     api_currentStream = (\<lambda>d. ((ACL_SUCCESS, 7), d)),
     api_getDevice = (\<lambda>d. ((ACL_SUCCESS, 0), d))\<rparr>"

lemma mini_api_spec: "acl_spec mini_api fst"
  by (auto simp: acl_spec_def malloc_spec_def memcpy_spec_def mini_api_def ACL_SUCCESS_def
      split: prod.splits if_splits intro!: exI [where x = "replicate (unat n) 0" for n :: u64])

definition mini_dev :: "(ptr \<Rightarrow> u8 list option) \<times> ptr" where
  "mini_dev = ([16 \<mapsto> [1, 2], 32 \<mapsto> [3]], 512)"

definition mini_ctx :: memory_context where
  "mini_ctx = ctx_Append 16 2 (ctx_Append 32 1 (ctx_Append 0 9 \<lparr>mc_sections = [], mc_stream = 0\<rparr>))"

lemmas mini_run = mini_ctx_def ctx_Append_def ctx_Backup_def ctx_Restore_def GetCurrentStream_def CreateSnapshot_def
  RestoreFromSnapshot_def MemCopyWithStream_def copy_ends_def mini_api_def mini_dev_def ACL_SUCCESS_def

lemma mini_backup:
  "ctx_Backup mini_api (mini_ctx, mini_dev) =
     (True, (\<lparr>mc_sections =
        [(16, \<lparr>ms_origin = 16, ms_snapshot = 512, ms_size = 2, ms_policy = ACL_MEM_MALLOC_HUGE_FIRST\<rparr>),
         (32, \<lparr>ms_origin = 32, ms_snapshot = 768, ms_size = 1, ms_policy = ACL_MEM_MALLOC_HUGE_FIRST\<rparr>)], mc_stream = 7\<rparr>,
      ([16 \<mapsto> [1, 2], 32 \<mapsto> [3], 512 \<mapsto> [1, 2], 768 \<mapsto> [3]], 1024)))"
  by (simp add: mini_run fun_eq_iff)

lemma backup_restore_witness:
  "\<exists>c2 d3. ctx_Restore mini_api (fst (snd (ctx_Backup mini_api (mini_ctx, mini_dev))),
       ([16 \<mapsto> [9, 9], 32 \<mapsto> [0], 512 \<mapsto> [1, 2], 768 \<mapsto> [3]], 1024)) = (True, (c2, d3)) \<and>
     fst d3 16 = Some [1, 2] \<and> fst d3 32 = Some [3]"
proof -
  have ok: "ctx_wf mini_ctx" "sections_ok fst mini_dev (mc_sections mini_ctx)"
    by (simp_all add: mini_ctx_def ctx_Append_def ctx_wf_def sections_ok_def snapshots_def origins_def
        holds_block_def mini_dev_def)
  let ?c = "fst (snd (ctx_Backup mini_api (mini_ctx, mini_dev)))"
  let ?d = "([16 \<mapsto> [9, 9], 32 \<mapsto> [0], 512 \<mapsto> [1, 2], 768 \<mapsto> [3]], 1024) :: (ptr \<Rightarrow> u8 list option) \<times> ptr"
  obtain c2 d3 where r: "ctx_Restore mini_api (?c, ?d) = (True, (c2, d3))"
    unfolding mini_backup by (simp add: mini_run)
  have "mc_sections c2 = mc_sections ?c \<and> (\<forall>(a, s) \<in> set (mc_sections mini_ctx). fst d3 a = fst mini_dev a)"
    by (rule backup_restore [OF mini_api_spec ok _ _ r, of "snd (snd (ctx_Backup mini_api (mini_ctx, mini_dev)))"])
      (simp_all add: mini_backup holds_block_def)
  then show ?thesis using r by (auto simp: mini_ctx_def ctx_Append_def mini_dev_def)
qed

section \<open>Serving the record buffer\<close>

text \<open>
  Between calls the manager owns at most one block: a non-null pointer is a live block of the recorded
  size, and a null pointer goes with size 0 and no device.
\<close>

definition dm_ok :: "('d \<Rightarrow> ptr \<Rightarrow> u8 list option) \<Rightarrow> dev_mem_manager \<Rightarrow> 'd \<Rightarrow> bool" where
  "dm_ok blocks m d \<longleftrightarrow> blocks d 0 = None \<and>
     (if dm_memPtr m = 0 then dm_memSize m = 0 \<and> dm_deviceId m = -1
      else holds_block blocks d (dm_memPtr m) (dm_memSize m))"

lemma dm_ok_blocks: "blocks d' = blocks d \<Longrightarrow> dm_ok blocks m d' = dm_ok blocks m d"
  by (simp add: dm_ok_def holds_block_def)

lemma dm_null_again: "dm_memPtr m = 0 \<Longrightarrow> m\<lparr>dm_memPtr := 0\<rparr> = m"
  by (cases m) simp

lemma dm_ok_init: "blocks d 0 = None \<Longrightarrow> dm_ok blocks init_dev_mem_manager d"
  by (simp add: dm_ok_def init_dev_mem_manager_def)

lemma dm_Free_ok:
  assumes "acl_spec api blocks" and "dm_ok blocks m d" and "dm_Free api (m, d) = (m1, d1)"
  shows "dm_ok blocks m1 d1 \<and> dm_memPtr m1 = 0 \<and> blocks d1 = (blocks d)(dm_memPtr m := None)"
proof -
  have f: "dm_memPtr m \<noteq> 0 \<Longrightarrow> blocks (snd (api_free api (dm_memPtr m) d)) = (blocks d)(dm_memPtr m := None)"
    using assms(1) by (simp add: acl_spec_def)
  have m1: "m1 = m\<lparr>dm_memPtr := 0, dm_memSize := 0, dm_deviceId := -1\<rparr>"
    and d1: "d1 = (if dm_memPtr m \<noteq> 0 then snd (api_free api (dm_memPtr m) d) else d)"
    using assms(3) by (auto simp: dm_Free_def split: if_splits)
  have "blocks d1 = (blocks d)(dm_memPtr m := None)"
    using f d1 assms(2) by (cases "dm_memPtr m = 0") (auto simp: dm_ok_def fun_eq_iff)
  then show ?thesis using assms(2) m1 by (auto simp: dm_ok_def)
qed

text \<open>The whole call, path by path.\<close>

lemma MallocMemory_cases:
  assumes "MallocMemory api False len (m, d) = ((e, out), (m', d'))"
  obtains (no_device) ret dev where "api_getDevice api d = ((ret, dev), d')" and "ret \<noteq> ACL_SUCCESS"
      and "e = ACL_ERROR_BAD_ALLOC" and "out = None" and "m' = m"
    | (reuse) "api_getDevice api d = ((ACL_SUCCESS, dm_deviceId m), d')" and "len \<le> dm_memSize m"
      and "e = ACL_SUCCESS" and "out = Some (dm_memPtr m)" and "m' = m"
    | (fail) dev d1 m1 d2 p where "api_getDevice api d = ((ACL_SUCCESS, dev), d1)" and "dm_Free api (m, d1) = (m1, d2)"
      and "api_malloc api len ACL_MEM_MALLOC_HUGE_FIRST d2 = ((e, p), d')" and "e \<noteq> ACL_SUCCESS" and "out = None"
      and "m' = m1\<lparr>dm_memPtr := p\<rparr>"
    | (new) dev d1 m1 d2 p where "api_getDevice api d = ((ACL_SUCCESS, dev), d1)" and "dm_Free api (m, d1) = (m1, d2)"
      and "api_malloc api len ACL_MEM_MALLOC_HUGE_FIRST d2 = ((ACL_SUCCESS, p), d')" and "e = ACL_SUCCESS" and "out = Some p"
      and "m' = m1\<lparr>dm_memPtr := p, dm_memSize := len, dm_init := False, dm_deviceId := dev\<rparr>"
proof -
  obtain ret dev d1 where g: "api_getDevice api d = ((ret, dev), d1)" by (metis prod.collapse)
  obtain m1 d2 where f: "dm_Free api (m, d1) = (m1, d2)" by fastforce
  obtain er p d3 where a: "api_malloc api len ACL_MEM_MALLOC_HUGE_FIRST d2 = ((er, p), d3)" by (metis prod.collapse)
  have eq: "MallocMemory api False len (m, d) =
     (if ret \<noteq> ACL_SUCCESS then ((ACL_ERROR_BAD_ALLOC, None), (m, d1))
      else if dev = dm_deviceId m \<and> dm_memSize m \<ge> len then ((ACL_SUCCESS, Some (dm_memPtr m)), (m, d1))
      else if er \<noteq> ACL_SUCCESS then ((er, None), (m1\<lparr>dm_memPtr := p\<rparr>, d3))
      else ((ACL_SUCCESS, Some p), (m1\<lparr>dm_memPtr := p, dm_memSize := len, dm_init := False, dm_deviceId := dev\<rparr>, d3)))"
    by (simp add: MallocMemory_def g f a)
  consider "ret \<noteq> ACL_SUCCESS" | "ret = ACL_SUCCESS" "dev = dm_deviceId m \<and> dm_memSize m \<ge> len"
    | "ret = ACL_SUCCESS" "\<not> (dev = dm_deviceId m \<and> dm_memSize m \<ge> len)" "er \<noteq> ACL_SUCCESS"
    | "ret = ACL_SUCCESS" "\<not> (dev = dm_deviceId m \<and> dm_memSize m \<ge> len)" "er = ACL_SUCCESS" by blast
  then show thesis
  proof cases
    case 1
    show ?thesis by (rule no_device [of ret dev]) (use 1 g eq assms in simp_all)
  next
    case 2
    show ?thesis by (rule reuse) (use 2 g eq assms in simp_all)
  next
    case 3
    show ?thesis by (rule fail [of dev d1 m1 d2 p]) (use 3 g f a eq assms in \<open>simp_all split: if_splits\<close>)
  next
    case 4
    show ?thesis by (rule new [of dev d1 m1 d2 p]) (use 4 g f a eq assms in \<open>simp_all split: if_splits\<close>)
  qed
qed

text \<open>A call keeps the invariant and touches no block but the manager's own, whether it succeeds or fails.\<close>

lemma MallocMemory_ok:
  assumes "acl_spec api blocks" and "\<forall>e x. fst (api_getDevice api x) = (ACL_SUCCESS, e) \<longrightarrow> 0 \<le> e"
    and "dm_ok blocks m d"
    and "MallocMemory api False len (m, d) = ((e, out), (m', d'))"
  shows "dm_ok blocks m' d' \<and>
    (blocks d')(dm_memPtr m' := None) = (blocks d)(dm_memPtr m := None) \<and>
    (case out of
       None \<Rightarrow> e \<noteq> ACL_SUCCESS
     | Some p \<Rightarrow> e = ACL_SUCCESS \<and> p = dm_memPtr m' \<and> p \<noteq> 0 \<and>
         fst (api_getDevice api d) = (ACL_SUCCESS, dm_deviceId m') \<and>
         (\<exists>bs. blocks d' p = Some bs \<and> unat len \<le> length bs))"
proof -
  have dev: "blocks (snd (api_getDevice api d)) = blocks d" using assms(1) by (simp add: acl_spec_def)
  have pos: "fst (api_getDevice api d) = (ACL_SUCCESS, k) \<Longrightarrow> 0 \<le> k" for k using assms(2) by blast
  from assms(4) show ?thesis
  proof (cases rule: MallocMemory_cases)
    case no_device
    then have "blocks d' = blocks d" using dev by simp
    then show ?thesis using dm_ok_blocks [of blocks d' d] no_device assms(3)
      by (simp add: ACL_ERROR_BAD_ALLOC_def ACL_SUCCESS_def)
  next
    case reuse
    then have b: "blocks d' = blocks d" using dev by simp
    have p: "dm_memPtr m \<noteq> 0" using assms(3) pos reuse(1) by (auto simp: dm_ok_def)
    then obtain bs where "blocks d (dm_memPtr m) = Some bs" "length bs = unat (dm_memSize m)"
      using assms(3) by (auto simp: dm_ok_def holds_block_def)
    then show ?thesis using reuse p b dm_ok_blocks [OF b] assms(3) by (simp add: word_le_nat_alt)
  next
    case (fail dv d1 m1 d2 p)
    have b1: "blocks d1 = blocks d" using dev fail(1) by simp
    have "dm_ok blocks m d1" using assms(3) by (simp only: dm_ok_blocks [OF b1])
    note f = dm_Free_ok [OF assms(1) this fail(2)]
    have "p = 0 \<and> blocks d' = blocks d2" using malloc_failure [OF assms(1) fail(3,4)] .
    then have p: "p = 0" and d': "blocks d' = blocks d2" by blast+
    have z: "dm_memPtr m1 = 0" and ok: "dm_ok blocks m1 d2" and b: "blocks d2 = (blocks d)(dm_memPtr m := None)"
      using f unfolding b1 by blast+
    have m': "m' = m1" unfolding fail(6) p by (rule dm_null_again [OF z])
    have "dm_ok blocks m1 d'" using ok by (simp only: dm_ok_blocks [OF d'])
    moreover have "blocks d2 0 = None" using ok by (simp only: dm_ok_def)
    ultimately show ?thesis using fail(4,5) by (simp add: m' z d' b fun_upd_idem)
  next
    case (new dv d1 m1 d2 p)
    have b1: "blocks d1 = blocks d" using dev new(1) by simp
    have "dm_ok blocks m d1" using assms(3) by (simp only: dm_ok_blocks [OF b1])
    note f = dm_Free_ok [OF assms(1) this new(2)]
    from malloc_success [OF assms(1) new(3)] obtain bs
      where p: "p \<noteq> 0" "blocks d2 p = None" "length bs = unat len" "blocks d' = (blocks d2)(p \<mapsto> bs)" .
    have "(blocks d')(p := None) = blocks d2" using p(2,4) by (auto simp: fun_eq_iff)
    moreover have "blocks d2 = (blocks d)(dm_memPtr m := None)" using f b1 by simp
    moreover have "dm_ok blocks m' d'"
    proof -
      have "dm_ok blocks m1 d2" using f by blast
      then have "blocks d2 0 = None" by (simp only: dm_ok_def)
      then show ?thesis using new(6) p by (simp add: dm_ok_def holds_block_def)
    qed
    ultimately show ?thesis using new p by simp
  qed
qed

text \<open>
  C28: The record buffer manager serves what it is asked for and loses nothing: a successful call returns
  a live block of at least the requested size on the current device, a failed one returns none and leaves
  the invariant (the next call allocates again), and no block but the manager's own is ever touched, so
  growing or moving the buffer to another device frees the previous one.
\<close>

theorem malloc_memory_serves:
  assumes "acl_spec api blocks" and "\<forall>e x. fst (api_getDevice api x) = (ACL_SUCCESS, e) \<longrightarrow> 0 \<le> e"
    and "dm_ok blocks m d"
    and "MallocMemory api False len (m, d) = ((e, out), (m', d'))"
  shows "dm_ok blocks m' d' \<and>
    (blocks d')(dm_memPtr m' := None) = (blocks d)(dm_memPtr m := None) \<and>
    (case out of
       None \<Rightarrow> e \<noteq> ACL_SUCCESS
     | Some p \<Rightarrow> e = ACL_SUCCESS \<and> p = dm_memPtr m' \<and> p \<noteq> 0 \<and>
         fst (api_getDevice api d) = (ACL_SUCCESS, dm_deviceId m') \<and>
         (\<exists>bs. blocks d' p = Some bs \<and> unat len \<le> length bs))"
  using assms by (rule MallocMemory_ok)

lemma malloc_memory_serves_witness:
  "\<exists>m' d'. MallocMemory mini_api False 5 (init_dev_mem_manager, mini_dev) = ((ACL_SUCCESS, Some 512), (m', d')) \<and>
     dm_ok fst m' d' \<and> (\<exists>bs. fst d' 512 = Some bs \<and> 5 \<le> length bs)"
proof -
  have d: "\<forall>e x. fst (api_getDevice mini_api x) = (ACL_SUCCESS, e) \<longrightarrow> 0 \<le> e" by (simp add: mini_api_def)
  have ok: "dm_ok fst init_dev_mem_manager mini_dev" by (rule dm_ok_init) (simp add: mini_dev_def)
  obtain m' d' where r: "MallocMemory mini_api False 5 (init_dev_mem_manager, mini_dev) = ((ACL_SUCCESS, Some 512), (m', d'))"
    by (simp add: MallocMemory_def dm_Free_def init_dev_mem_manager_def mini_api_def mini_dev_def ACL_SUCCESS_def)
  from malloc_memory_serves [OF mini_api_spec d ok r] show ?thesis using r by auto
qed

end
