(* ===== verification/AllocTrace.thy ===== *)
theory AllocTrace
  imports Prelude
begin

text \<open>
  What every table of live allocations in the tool promises (the allocation cache of the checker, the
  section map of the profiler): recording a new allocation adds it, dropping an address removes it, and
  nothing else changes. The client lemmas follow whole traces of allocations and releases.
\<close>

datatype 'k alloc_event = Alloc 'k u64 u64 | Release 'k u64

type_synonym live = "u64 \<rightharpoonup> u64"

primrec live_step :: "'k alloc_event \<Rightarrow> live \<Rightarrow> live" where
  "live_step (Alloc k a n) l = l(a \<mapsto> n)"
| "live_step (Release k a) l = l(a := None)"

text \<open>An allocator gives out usable addresses only, and none that is still live.\<close>

primrec fresh :: "('k \<Rightarrow> bool) \<Rightarrow> (u64 \<Rightarrow> bool) \<Rightarrow> 'k alloc_event \<Rightarrow> live \<Rightarrow> bool" where
  "fresh valid usable (Alloc k a n) l \<longleftrightarrow> valid k \<and> usable a \<and> l a = None"
| "fresh valid usable (Release k a) l \<longleftrightarrow> valid k"

fun fresh_all :: "('k \<Rightarrow> bool) \<Rightarrow> (u64 \<Rightarrow> bool) \<Rightarrow> 'k alloc_event list \<Rightarrow> live \<Rightarrow> bool" where
  "fresh_all valid usable [] l \<longleftrightarrow> True"
| "fresh_all valid usable (e # es) l \<longleftrightarrow> fresh valid usable e l \<and> fresh_all valid usable es (live_step e l)"

lemma fresh_all_append:
  "fresh_all valid usable (es @ fs) l \<longleftrightarrow>
     fresh_all valid usable es l \<and> fresh_all valid usable fs (fold live_step es l)"
  by (induction es arbitrary: l) auto

locale alloc_cache =
  fixes inv :: "'s \<Rightarrow> bool"
    and valid :: "'k \<Rightarrow> bool"
    and usable :: "u64 \<Rightarrow> bool"
    and live_of :: "'s \<Rightarrow> live"
    and add :: "'k \<Rightarrow> u64 \<Rightarrow> u64 \<Rightarrow> 's \<Rightarrow> 's"
    and del :: "'k \<Rightarrow> u64 \<Rightarrow> 's \<Rightarrow> 's"
  assumes add_inv: "inv s \<Longrightarrow> valid k \<Longrightarrow> usable a \<Longrightarrow> live_of s a = None \<Longrightarrow> inv (add k a n s)"
    and add_live: "inv s \<Longrightarrow> valid k \<Longrightarrow> usable a \<Longrightarrow> live_of s a = None \<Longrightarrow>
      live_of (add k a n s) = (live_of s)(a \<mapsto> n)"
    and del_inv: "inv s \<Longrightarrow> valid k \<Longrightarrow> inv (del k a s)"
    and del_live: "inv s \<Longrightarrow> valid k \<Longrightarrow> live_of (del k a s) = (live_of s)(a := None)"
begin

definition run :: "'k alloc_event \<Rightarrow> 's \<Rightarrow> 's" where
  "run e s = (case e of Alloc k a n \<Rightarrow> add k a n s | Release k a \<Rightarrow> del k a s)"

lemma run_step:
  "inv s \<Longrightarrow> fresh valid usable e (live_of s) \<Longrightarrow> inv (run e s) \<and> live_of (run e s) = live_step e (live_of s)"
  by (cases e) (simp_all add: run_def add_inv add_live del_inv del_live)

lemma run_all:
  "inv s \<Longrightarrow> fresh_all valid usable es (live_of s) \<Longrightarrow>
   inv (fold run es s) \<and> live_of (fold run es s) = fold live_step es (live_of s)"
proof (induction es arbitrary: s)
  case (Cons e es)
  then show ?case using run_step [of s e] by auto
qed simp

lemma run_Alloc [simp]: "run (Alloc k a n) s = add k a n s"
  and run_Release [simp]: "run (Release k a) s = del k a s"
  by (simp_all add: run_def)

end

end
