(* ===== verification/LiveCache.thy ===== *)
theory LiveCache
  imports MemoryManage DeviceMemory AllocTrace
begin

text \<open>
  The two tables of live allocations as instances of \<open>alloc_cache\<close>: the checker's allocation cache
  (\<open>MemoryManage::CacheMemory\<close>, one class of sources at a time) and the profiler's section map
  (\<open>MemoryContext::Append\<close> and \<open>Discard\<close>).
\<close>

section \<open>The allocation cache\<close>

definition of_class :: "MemInfoSrc \<Rightarrow> AddrInfo \<Rightarrow> bool" where
  "of_class c it \<longleftrightarrow> IsSameMemInfoSrc (ai_src it) c"

text \<open>The records of the other sources do not move.\<close>

definition live_records :: "MemInfoSrc \<Rightarrow> memory_manage \<Rightarrow> live" where
  "live_records c m a = map_option ai_length (find (\<lambda>it. ai_addr it = a \<and> of_class c it) (mm_infos m))"

definition cache_inv :: "MemInfoSrc \<Rightarrow> memory_manage \<Rightarrow> bool" where
  "cache_inv c m \<longleftrightarrow> sorted_wrt AddrInfo_less (mm_infos m) \<and> mm_count m = word_of_nat (length (mm_infos m)) \<and>
     (\<forall>x \<in> set (mm_infos m). \<forall>y \<in> set (mm_infos m).
        of_class c x \<and> of_class c y \<and> ai_addr x = ai_addr y \<longrightarrow> x = y)"

definition cache_add :: "MemInfoSrc \<Rightarrow> u64 \<Rightarrow> u64 \<Rightarrow> memory_manage \<Rightarrow> memory_manage" where
  "cache_add k a n m = CacheMemory_MALLOC a k n True m"

definition cache_del :: "MemInfoSrc \<Rightarrow> u64 \<Rightarrow> memory_manage \<Rightarrow> memory_manage" where
  "cache_del k a m = snd (CacheMemory_FREE a k m)"

lemma IsSameMemInfoSrc_trans:
  "IsSameMemInfoSrc k c \<Longrightarrow> IsSameMemInfoSrc s k \<longleftrightarrow> IsSameMemInfoSrc s c"
  by (auto simp: IsSameMemInfoSrc_def split: if_splits)

lemma find_SomeD: "find P xs = Some y \<Longrightarrow> y \<in> set xs \<and> P y"
  by (induction xs) (auto split: if_splits)

lemma find_unique:
  assumes "x \<in> set xs" and "P x" and "\<And>y. y \<in> set xs \<Longrightarrow> P y \<Longrightarrow> y = x"
  shows "find P xs = Some x"
proof -
  obtain y where y: "find P xs = Some y" using assms(1,2) by (metis find_None_iff not_None_eq)
  then have "y \<in> set xs" "P y" using find_SomeD by fast+
  then have "y = x" by (rule assms(3))
  with y show ?thesis by simp
qed

lemma live_records_Some:
  assumes "cache_inv c m"
  shows "live_records c m a = Some n \<longleftrightarrow> (\<exists>it \<in> set (mm_infos m). ai_addr it = a \<and> of_class c it \<and> ai_length it = n)"
proof
  assume "live_records c m a = Some n"
  then obtain it where "find (\<lambda>it. ai_addr it = a \<and> of_class c it) (mm_infos m) = Some it" "ai_length it = n"
    by (auto simp: live_records_def)
  then show "\<exists>it \<in> set (mm_infos m). ai_addr it = a \<and> of_class c it \<and> ai_length it = n"
    using find_SomeD by fastforce
next
  assume "\<exists>it \<in> set (mm_infos m). ai_addr it = a \<and> of_class c it \<and> ai_length it = n"
  then obtain it where it: "it \<in> set (mm_infos m)" "ai_addr it = a" "of_class c it" "ai_length it = n" by blast
  have "find (\<lambda>it. ai_addr it = a \<and> of_class c it) (mm_infos m) = Some it"
    by (rule find_unique) (use it assms in \<open>auto simp: cache_inv_def\<close>)
  with it show "live_records c m a = Some n" by (simp add: live_records_def)
qed

lemma live_eqI: "(\<And>a n. f a = Some n \<longleftrightarrow> g a = Some n) \<Longrightarrow> f = (g :: live)"
  by (rule ext) (metis not_None_eq)

lemma live_records_None:
  "live_records c m a = None \<longleftrightarrow> (\<forall>it \<in> set (mm_infos m). \<not> (ai_addr it = a \<and> of_class c it))"
  by (auto simp: live_records_def find_None_iff)

lemma cache_add_infos:
  fixes n :: u64
  assumes "cache_inv c m" and "IsSameMemInfoSrc k c" and "live_records c m a = None"
  defines "info \<equiv> \<lparr>ai_addr = a, ai_length = n, ai_src = k, ai_desc = DEFAULT, ai_paramsNo = 0\<rparr>"
  shows "set (mm_infos (cache_add k a n m)) = insert info (set (mm_infos m))"
    and "length (mm_infos (cache_add k a n m)) = Suc (length (mm_infos m))"
    and "sorted_wrt AddrInfo_less (mm_infos (cache_add k a n m))"
    and "mm_count (cache_add k a n m) = mm_count m + 1"
proof -
  have u: "mm_infos (cache_add k a n m) = oset_insert AddrInfo_less info (mm_infos m)"
    by (simp add: cache_add_def CacheMemory_MALLOC_def info_def)
  have "\<forall>y \<in> set (mm_infos m). ai_addr y = a \<longrightarrow> ai_src y \<noteq> k"
    using assms(2,3) by (auto simp: live_records_None of_class_def)
  then have new: "\<forall>y \<in> set (mm_infos m). AddrInfo_less info y \<or> AddrInfo_less y info"
    by (auto simp: AddrInfo_less_def info_def less_MemInfoSrc_def neq_iff)
  have s: "sorted_wrt AddrInfo_less (mm_infos m)" using assms(1) by (simp add: cache_inv_def)
  show "set (mm_infos (cache_add k a n m)) = insert info (set (mm_infos m))"
    unfolding u by (rule ai_order.oset_insert_set [OF new])
  show "length (mm_infos (cache_add k a n m)) = Suc (length (mm_infos m))"
    unfolding u using ai_order.oset_insert_length [OF s, of info] new by auto
  show "sorted_wrt AddrInfo_less (mm_infos (cache_add k a n m))"
    unfolding u by (rule ai_order.oset_insert_sorted [OF s])
  show "mm_count (cache_add k a n m) = mm_count m + 1"
    by (simp add: cache_add_def CacheMemory_MALLOC_def)
qed

lemma cache_add_ok:
  assumes "cache_inv c m" and "IsSameMemInfoSrc k c" and "live_records c m a = None"
  shows "cache_inv c (cache_add k a n m)"
    and "live_records c (cache_add k a n m) = (live_records c m)(a \<mapsto> n)"
proof -
  note A = cache_add_infos [OF assms, of n]
  have no: "\<forall>y \<in> set (mm_infos m). \<not> (ai_addr y = a \<and> of_class c y)"
    using assms(3) by (simp add: live_records_None)
  show i: "cache_inv c (cache_add k a n m)"
    unfolding cache_inv_def A(1,2,4)
    using assms(1) A(3) no by (auto simp: cache_inv_def)
  have k: "of_class c \<lparr>ai_addr = a, ai_length = n, ai_src = k, ai_desc = DEFAULT, ai_paramsNo = 0\<rparr>"
    using assms(2) by (simp add: of_class_def)
  show "live_records c (cache_add k a n m) = (live_records c m)(a \<mapsto> n)"
  proof (rule live_eqI)
    fix b n'
    show "live_records c (cache_add k a n m) b = Some n' \<longleftrightarrow> ((live_records c m)(a \<mapsto> n)) b = Some n'"
      using live_records_Some [OF assms(1), of b n'] no k
      by (auto simp: live_records_Some [OF i] A(1))
  qed
qed

lemma cache_del_cases:
  assumes "cache_inv c m" and "IsSameMemInfoSrc k c"
  obtains "cache_del k a m = m" and "live_records c m a = None"
  | it where "it \<in> set (mm_infos m)" and "ai_addr it = a" and "of_class c it"
      and "cache_del k a m = m\<lparr>mm_infos := oset_erase AddrInfo_less it (mm_infos m), mm_count := mm_count m - 1\<rparr>"
proof -
  have P: "(\<lambda>it. ai_addr it = a \<and> IsSameMemInfoSrc (ai_src it) k) = (\<lambda>it. ai_addr it = a \<and> of_class c it)"
    using IsSameMemInfoSrc_trans [OF assms(2)] by (simp add: of_class_def)
  show thesis
  proof (cases "find (\<lambda>it. ai_addr it = a \<and> of_class c it) (mm_infos m)")
    case None
    then show ?thesis
      by (intro that(1)) (simp_all add: cache_del_def CacheMemory_FREE_def P live_records_def)
  next
    case (Some it)
    then show ?thesis
      using find_SomeD [OF Some]
      by (intro that(2) [of it]) (simp_all add: cache_del_def CacheMemory_FREE_def P)
  qed
qed

lemma cache_del_ok:
  assumes "cache_inv c m" and "IsSameMemInfoSrc k c"
  shows "cache_inv c (cache_del k a m)"
    and "live_records c (cache_del k a m) = (live_records c m)(a := None)"
proof -
  have "cache_inv c (cache_del k a m) \<and> live_records c (cache_del k a m) = (live_records c m)(a := None)"
  proof (rule cache_del_cases [OF assms, of a], goal_cases)
    case 1
    then show ?case using assms(1) by (auto simp: fun_eq_iff)
  next
    case (2 it)
    let ?m = "m\<lparr>mm_infos := oset_erase AddrInfo_less it (mm_infos m), mm_count := mm_count m - 1\<rparr>"
    have s: "sorted_wrt AddrInfo_less (mm_infos m)" using assms(1) by (simp add: cache_inv_def)
    have st: "set (mm_infos ?m) = set (mm_infos m) - {it}"
      using ai_order.oset_erase_set [OF s 2(1)] by simp
    have st': "set (oset_erase AddrInfo_less it (mm_infos m)) = set (mm_infos m) - {it}"
      by (rule ai_order.oset_erase_set [OF s 2(1)])
    have "length (mm_infos m) = Suc (length (mm_infos ?m))"
      using ai_order.oset_erase_length [OF s 2(1)] by simp
    then have ct: "mm_count ?m = word_of_nat (length (mm_infos ?m))"
      using assms(1) by (simp add: cache_inv_def)
    have uniq: "\<forall>x \<in> set (mm_infos m). \<forall>y \<in> set (mm_infos m).
        of_class c x \<and> of_class c y \<and> ai_addr x = ai_addr y \<longrightarrow> x = y"
      using assms(1) by (simp add: cache_inv_def)
    have i: "cache_inv c ?m"
      unfolding cache_inv_def ct st
      using ai_order.oset_erase_sorted [OF s] uniq by simp
    have "live_records c ?m = (live_records c m)(a := None)"
    proof (rule live_eqI)
      fix b n'
      show "live_records c ?m b = Some n' \<longleftrightarrow> ((live_records c m)(a := None)) b = Some n'"
        using live_records_Some [OF assms(1), of b n'] uniq 2(1-3)
        by (auto simp: live_records_Some [OF i] st')
    qed
    with i 2(4) show ?case by simp
  qed
  then show "cache_inv c (cache_del k a m)"
    and "live_records c (cache_del k a m) = (live_records c m)(a := None)" by simp_all
qed

interpretation records: alloc_cache "cache_inv c" "\<lambda>k. IsSameMemInfoSrc k c" "\<lambda>a. True" "live_records c"
  cache_add cache_del for c
  by unfold_locales (simp_all add: cache_add_ok cache_del_ok)

lemma cache_inv_init: "cache_inv c init_memory_manage" and live_records_init: "live_records c init_memory_manage = Map.empty"
  by (simp_all add: cache_inv_def init_memory_manage_def live_records_def fun_eq_iff)

section \<open>The section map\<close>

definition live_sections :: "memory_context \<times> 'd \<Rightarrow> live" where
  "live_sections st a = map_option ms_size (map_of (mc_sections (fst st)) a)"

definition section_add :: "unit \<Rightarrow> u64 \<Rightarrow> u64 \<Rightarrow> memory_context \<times> 'd \<Rightarrow> memory_context \<times> 'd" where
  "section_add k a n st = (ctx_Append a n (fst st), snd st)"

definition section_del :: "'d acl_api \<Rightarrow> unit \<Rightarrow> u64 \<Rightarrow> memory_context \<times> 'd \<Rightarrow> memory_context \<times> 'd" where
  "section_del api k a st = ctx_Discard api a st"

lemma ctx_Discard_live: "live_sections (ctx_Discard api a st) = (live_sections st)(a := None)"
  by (cases st) (auto simp: live_sections_def ctx_Discard_def Let_def map_of_omap_erase fun_eq_iff split: option.splits)

lemma ctx_Append_live:
  "ctx_wf (fst st) \<Longrightarrow> a \<noteq> 0 \<Longrightarrow> live_sections (ctx_Append a n (fst st), d) = (live_sections st)(a \<mapsto> n)"
  by (auto simp: live_sections_def ctx_Append_def ctx_wf_def map_of_omap_put fun_eq_iff)

interpretation sections: alloc_cache "ctx_wf \<circ> fst" "\<lambda>k. True" "\<lambda>a. a \<noteq> 0" live_sections
  section_add "section_del api" for api
proof unfold_locales
  fix s :: "memory_context \<times> 'a" and k a
  assume "(ctx_wf \<circ> fst) s"
  then show "(ctx_wf \<circ> fst) (section_del api k a s)"
    by (cases s) (metis comp_apply ctx_Discard_wf fst_conv prod.collapse section_del_def)
qed (simp_all add: section_add_def section_del_def ctx_Append_wf ctx_Append_live ctx_Discard_live)

section \<open>Batches\<close>

text \<open>
  Items recorded together and dropped together, in the same order, leave the cache as it was, when no two
  of them and no earlier record are confused by \<open>CacheMemory<FREE>\<close>.
\<close>

type_synonym item = "u64 \<times> MemInfoSrc \<times> u64"

definition item_record :: "item \<Rightarrow> AddrInfo" where
  "item_record i = \<lparr>ai_addr = fst i, ai_length = snd (snd i), ai_src = fst (snd i), ai_desc = DEFAULT, ai_paramsNo = 0\<rparr>"

definition item_hits :: "item \<Rightarrow> AddrInfo \<Rightarrow> bool" where
  "item_hits i it \<longleftrightarrow> ai_addr it = fst i \<and> IsSameMemInfoSrc (ai_src it) (fst (snd i))"

definition item_malloc :: "item \<Rightarrow> memory_manage \<Rightarrow> memory_manage" where
  "item_malloc i m = CacheMemory_MALLOC (fst i) (fst (snd i)) (snd (snd i)) True m"

definition item_free :: "item \<Rightarrow> memory_manage \<Rightarrow> memory_manage" where
  "item_free i m = snd (CacheMemory_FREE (fst i) (fst (snd i)) m)"

definition apart :: "item \<Rightarrow> item \<Rightarrow> bool" where
  "apart i j \<longleftrightarrow> \<not> item_hits i (item_record j) \<and> \<not> item_hits j (item_record i)"

definition cache_holds :: "memory_manage \<Rightarrow> AddrInfo set \<Rightarrow> u32 \<Rightarrow> bool" where
  "cache_holds m S c \<longleftrightarrow> sorted_wrt AddrInfo_less (mm_infos m) \<and> set (mm_infos m) = S \<and> mm_count m = c"

lemma cache_holds_unique: "cache_holds m S c \<Longrightarrow> cache_holds m' S c \<Longrightarrow> m = m'"
  by (cases m; cases m') (auto simp: cache_holds_def intro: ai_order.oset_sorted_eqI)

lemma IsSameMemInfoSrc_refl [simp]: "IsSameMemInfoSrc k k"
  by (simp add: IsSameMemInfoSrc_def)

lemma item_hits_own [simp]: "item_hits i (item_record i)"
  by (simp add: item_hits_def item_record_def)

lemma AddrInfo_less_total:
  "ai_addr a \<noteq> ai_addr b \<or> ai_src a \<noteq> ai_src b \<Longrightarrow> AddrInfo_less a b \<or> AddrInfo_less b a"
  by (metis AddrInfo_less_def linorder_neq_iff)

lemma item_malloc_holds:
  assumes "cache_holds m S c" and "\<forall>it \<in> S. \<not> item_hits i it"
  shows "cache_holds (item_malloc i m) (insert (item_record i) S) (c + 1)"
proof -
  have inf: "mm_infos (item_malloc i m) = oset_insert AddrInfo_less (item_record i) (mm_infos m)"
    and ct: "mm_count (item_malloc i m) = mm_count m + 1"
    by (simp_all add: item_malloc_def CacheMemory_MALLOC_def item_record_def)
  have "\<forall>y \<in> set (mm_infos m). AddrInfo_less (item_record i) y \<or> AddrInfo_less y (item_record i)"
  proof
    fix y assume "y \<in> set (mm_infos m)"
    then have "\<not> item_hits i y" using assms by (simp add: cache_holds_def)
    then have "ai_addr (item_record i) \<noteq> ai_addr y \<or> ai_src (item_record i) \<noteq> ai_src y"
      by (auto simp: item_hits_def item_record_def)
    then show "AddrInfo_less (item_record i) y \<or> AddrInfo_less y (item_record i)"
      by (rule AddrInfo_less_total)
  qed
  then have "set (mm_infos (item_malloc i m)) = insert (item_record i) S"
    unfolding inf using assms(1) ai_order.oset_insert_set by (simp add: cache_holds_def)
  moreover have "sorted_wrt AddrInfo_less (mm_infos (item_malloc i m))"
    unfolding inf using assms(1) by (simp add: cache_holds_def ai_order.oset_insert_sorted)
  ultimately show ?thesis using assms(1) ct by (simp add: cache_holds_def)
qed

lemma item_free_holds:
  assumes "cache_holds m (insert (item_record i) S) c" and "\<forall>it \<in> S. \<not> item_hits i it"
  shows "cache_holds (item_free i m) S (c - 1)"
proof -
  have s: "sorted_wrt AddrInfo_less (mm_infos m)" and st: "set (mm_infos m) = insert (item_record i) S"
    using assms(1) by (simp_all add: cache_holds_def)
  have f: "find (\<lambda>it. ai_addr it = fst i \<and> IsSameMemInfoSrc (ai_src it) (fst (snd i))) (mm_infos m) = Some (item_record i)"
    by (rule find_unique) (use st assms(2) in \<open>auto simp: item_hits_def item_record_def\<close>)
  have "item_record i \<notin> S" using assms(2) item_hits_own by blast
  then have "set (oset_erase AddrInfo_less (item_record i) (mm_infos m)) = S"
    using ai_order.oset_erase_set [OF s, of "item_record i"] st by auto
  then show ?thesis
    using assms(1) f ai_order.oset_erase_sorted [OF s]
    by (simp add: cache_holds_def item_free_def CacheMemory_FREE_def)
qed

lemma items_malloc_holds:
  "cache_holds m S c \<Longrightarrow> \<forall>i \<in> set items. \<forall>it \<in> S. \<not> item_hits i it \<Longrightarrow> sorted_wrt apart items \<Longrightarrow>
   cache_holds (fold item_malloc items m) (item_record ` set items \<union> S) (c + word_of_nat (length items))"
proof (induction items arbitrary: m S c)
  case (Cons i items)
  have "cache_holds (item_malloc i m) (insert (item_record i) S) (c + 1)"
    using Cons.prems by (intro item_malloc_holds) simp_all
  moreover have "\<forall>j \<in> set items. \<forall>it \<in> insert (item_record i) S. \<not> item_hits j it"
    using Cons.prems by (auto simp: apart_def)
  ultimately have "cache_holds (fold item_malloc items (item_malloc i m))
      (item_record ` set items \<union> insert (item_record i) S) (c + 1 + word_of_nat (length items))"
    using Cons.IH [of "item_malloc i m" "insert (item_record i) S" "c + 1"] Cons.prems(3) by simp
  then show ?case by (simp add: add.assoc)
qed simp

lemma items_free_holds:
  "cache_holds m (item_record ` set items \<union> S) c \<Longrightarrow> \<forall>i \<in> set items. \<forall>it \<in> S. \<not> item_hits i it \<Longrightarrow>
   sorted_wrt apart items \<Longrightarrow>
   cache_holds (fold item_free items m) S (c - word_of_nat (length items))"
proof (induction items arbitrary: m c)
  case (Cons i items)
  have "\<forall>it \<in> item_record ` set items \<union> S. \<not> item_hits i it"
    using Cons.prems by (auto simp: apart_def)
  then have "cache_holds (item_free i m) (item_record ` set items \<union> S) (c - 1)"
    using Cons.prems(1) by (intro item_free_holds) simp_all
  then have "cache_holds (fold item_free items (item_free i m)) S (c - 1 - word_of_nat (length items))"
    using Cons.IH Cons.prems by simp
  then show ?case by (simp add: diff_diff_eq)
qed simp

lemma items_balanced:
  assumes "sorted_wrt AddrInfo_less (mm_infos m)" and "\<forall>i \<in> set items. \<forall>it \<in> set (mm_infos m). \<not> item_hits i it"
    and "sorted_wrt apart items" and "sorted_wrt apart items'" and "set items' = set items"
    and "length items' = length items"
  shows "fold item_free items' (fold item_malloc items m) = m"
proof (rule cache_holds_unique)
  show h: "cache_holds m (set (mm_infos m)) (mm_count m)" using assms(1) by (simp add: cache_holds_def)
  show "cache_holds (fold item_free items' (fold item_malloc items m)) (set (mm_infos m)) (mm_count m)"
    using items_free_holds [of _ items', OF _ _ assms(4)] items_malloc_holds [OF h assms(2,3)] assms(2,5,6)
    by (metis add_diff_cancel_right')
qed

lemma apart_sym: "apart i j \<longleftrightarrow> apart j i"
  by (auto simp: apart_def)

lemma sorted_apart_rotate: "sorted_wrt apart (items @ [i]) \<longleftrightarrow> sorted_wrt apart (i # items)"
  using apart_sym by (auto simp: sorted_wrt_append)

end
