(* ===== verification/MemHooks.thy ===== *)
theory MemHooks
  imports HookLayer LiveCache
begin

text \<open>
  The hooks on the memory interfaces: \<open>csrc/runtime/HijackedFuncOf{Malloc,Free,Memset,Memcpy,MapMem,UnmapMem}.cpp\<close>,
  the ACL ones of \<open>csrc/acl_rt_impl/\<close>, and the entry points of \<open>csrc/bind/BindSanitizer.cpp\<close> that put them
  under the layer stack. The state is what a hook can change: the layer stack, the allocation cache, the
  snapshot map, the messages sent to the tool process, and the runtime's own state \<open>'d\<close>. An original
  function is a parameter on that whole state, since the ACL library calls back into hooked functions.
\<close>

section \<open>State and environment\<close>

type_synonym rtError = int

definition RT_ERROR_NONE :: rtError where
  "RT_ERROR_NONE = 0"

definition RT_ERROR_RESERVED :: rtError where
  "RT_ERROR_RESERVED = 0x99"

definition ACL_ERROR_NONE :: aclError where
  "ACL_ERROR_NONE = 0"

definition ACL_ERROR_INTERNAL_ERROR :: aclError where
  "ACL_ERROR_INTERNAL_ERROR = 500000"

datatype rtMemType =
  RT_MEMORY_DEFAULT | RT_MEMORY_HBM | RT_MEMORY_DDR | RT_MEMORY_SPM | RT_MEMORY_P2P_HBM | RT_MEMORY_P2P_DDR
  | RT_MEMORY_DDR_NC | RT_MEMORY_RESERVED

datatype rtMemcpyKind =
  RT_MEMCPY_HOST_TO_HOST | RT_MEMCPY_HOST_TO_DEVICE | RT_MEMCPY_DEVICE_TO_HOST | RT_MEMCPY_DEVICE_TO_DEVICE
  | RT_MEMCPY_MANAGED | RT_MEMCPY_ADDR_DEVICE_TO_DEVICE | RT_MEMCPY_HOST_TO_DEVICE_EX
  | RT_MEMCPY_DEVICE_TO_HOST_EX | RT_MEMCPY_RESERVED

datatype DV_MEM_TYPE =
  DV_MEM_SVM | DV_MEM_SVM_HOST | DV_MEM_SVM_DEVICE | DV_MEM_LOCK_HOST | DV_MEM_LOCK_DEV | DV_MEM_LOCK_DEV_DVPP

text \<open>
  What the hooks only read: the bound tool, the settings of the profiler, the ACL runtime behind the
  snapshot map, and the driver's answer about an address (\<open>None\<close> for an error code).
\<close>

record 'd hook_env =
  he_tool :: func_selector
  he_simulator :: bool
  he_appReplay :: bool
  he_lccl :: bool
  he_api :: "'d acl_api"
  he_attribute :: "u64 \<Rightarrow> DV_MEM_TYPE option"

text \<open>\<open>LocalDev\<close> is \<open>LocalDevice::Local()\<close>, \<open>OfDevice i\<close> is \<open>LocalDevice::GetInstance(i)\<close>.\<close>

datatype dest = LocalDev | OfDevice int

record 'd hook_state =
  hs_layers :: layers
  hs_mem :: memory_manage
  hs_ctx :: memory_context
  hs_sent :: "(dest \<times> u8 list) list"
  hs_dev :: 'd

definition Notify :: "dest \<Rightarrow> u8 list \<Rightarrow> 'd hook_state \<Rightarrow> 'd hook_state" where
  "Notify target msg s = s\<lparr>hs_sent := hs_sent s @ [(target, msg)]\<rparr>"

definition memory_message :: "HostMemRecord \<Rightarrow> u8 list" where
  "memory_message r = Serialize [PacketHead_bytes MEMORY_RECORD, HostMemRecord_bytes r]"

definition send_record :: "HostMemRecord \<Rightarrow> 'd hook_state \<Rightarrow> 'd hook_state" where
  "send_record r = Notify LocalDev (memory_message r)"

definition cache_malloc :: "u64 \<Rightarrow> MemInfoSrc \<Rightarrow> u64 \<Rightarrow> 'd hook_state \<Rightarrow> 'd hook_state" where
  "cache_malloc addr src len s = s\<lparr>hs_mem := CacheMemory_MALLOC addr src len True (hs_mem s)\<rparr>"

definition cache_free :: "u64 \<Rightarrow> MemInfoSrc \<Rightarrow> 'd hook_state \<Rightarrow> 'd hook_state" where
  "cache_free addr src s = s\<lparr>hs_mem := snd (CacheMemory_FREE addr src (hs_mem s))\<rparr>"

definition append_section :: "ptr \<Rightarrow> u64 \<Rightarrow> 'd hook_state \<Rightarrow> 'd hook_state" where
  "append_section addr len s = s\<lparr>hs_ctx := ctx_Append addr len (hs_ctx s)\<rparr>"

definition discard_section :: "'d hook_env \<Rightarrow> ptr \<Rightarrow> 'd hook_state \<Rightarrow> 'd hook_state" where
  "discard_section env addr s =
     (let (c, d) = ctx_Discard (he_api env) addr (hs_ctx s, hs_dev s) in s\<lparr>hs_ctx := c, hs_dev := d\<rparr>)"

definition IsMemoryOnDevice :: "'d hook_env \<Rightarrow> u64 \<Rightarrow> bool" where
  "IsMemoryOnDevice env p =
     (case he_attribute env p of
        None \<Rightarrow> True
      | Some t \<Rightarrow> t = DV_MEM_LOCK_DEV \<or> t = DV_MEM_LOCK_DEV_DVPP)"

abbreviation sanitizing :: "'d hook_env \<Rightarrow> bool" where
  "sanitizing env \<equiv> IsSanitizer (he_tool env)"

abbreviation profiling :: "'d hook_env \<Rightarrow> bool" where
  "profiling env \<equiv> IsOpProf (he_tool env) \<and> \<not> he_simulator env"

section \<open>Runtime hooks\<close>

definition Malloc_Post :: "'d hook_env \<Rightarrow> u64 \<Rightarrow> rtMemType \<Rightarrow> rtError \<times> ptr \<Rightarrow> 'd hook_state \<Rightarrow>
    (rtError \<times> ptr) \<times> 'd hook_state" where
  "Malloc_Post env len mty result s =
     (let (ret, p) = result in
      if sanitizing env \<and> ret \<noteq> RT_ERROR_NONE then (result, s)
      else let s1 = (if sanitizing env
                     then send_record (empty_record\<lparr>hr_type := MALLOC, hr_infoSrc := RT, hr_dstAddr := p, hr_memSize := len\<rparr>)
                            (cache_malloc p RT len s)
                     else s);
               s2 = (if profiling env \<and> ret = RT_ERROR_NONE
                     then if \<not> he_appReplay env \<and> \<not> he_lccl env \<and> mty \<noteq> RT_MEMORY_P2P_HBM \<and> mty \<noteq> RT_MEMORY_P2P_DDR
                          then append_section p len s1 else s1
                     else s1)
           in (result, s2))"

definition Free_Pre :: "'d hook_env \<Rightarrow> ptr \<Rightarrow> 'd hook_state \<Rightarrow> 'd hook_state" where
  "Free_Pre env p s =
     (let s1 = (if sanitizing env
                then send_record (empty_record\<lparr>hr_type := FREE, hr_infoSrc := RT, hr_dstAddr := p\<rparr>) (cache_free p RT s)
                else s)
      in if profiling env then discard_section env p s1 else s1)"

definition Memset_Pre :: "'d hook_env \<Rightarrow> ptr \<Rightarrow> u64 \<Rightarrow> 'd hook_state \<Rightarrow> 'd hook_state" where
  "Memset_Pre env p cnt s =
     (if sanitizing env then
        if \<not> IsMemoryOnDevice env p then s
        else send_record (empty_record\<lparr>hr_type := STORE, hr_infoSrc := RT, hr_dstAddr := p, hr_memSize := cnt\<rparr>) s
      else s)"

definition Memcpy_Pre :: "'d hook_env \<Rightarrow> ptr \<Rightarrow> ptr \<Rightarrow> u64 \<Rightarrow> rtMemcpyKind \<Rightarrow> 'd hook_state \<Rightarrow> 'd hook_state" where
  "Memcpy_Pre env dst src cnt kind s =
     (if sanitizing env then
        let record = empty_record\<lparr>hr_infoSrc := RT, hr_memSize := cnt\<rparr>;
            s1 = (if kind = RT_MEMCPY_HOST_TO_DEVICE \<or> kind = RT_MEMCPY_DEVICE_TO_DEVICE
                  then send_record (record\<lparr>hr_type := STORE, hr_dstAddr := dst\<rparr>) s else s)
        in if kind = RT_MEMCPY_DEVICE_TO_HOST \<or> kind = RT_MEMCPY_DEVICE_TO_DEVICE
           then send_record (record\<lparr>hr_type := LOAD, hr_dstAddr := src\<rparr>) s1 else s1
      else s)"

text \<open>\<open>rtMapMem\<close> is reported whatever its result, and neither cached.\<close>

definition MapMem_Post :: "'d hook_env \<Rightarrow> ptr \<Rightarrow> u64 \<Rightarrow> rtError \<Rightarrow> 'd hook_state \<Rightarrow> rtError \<times> 'd hook_state" where
  "MapMem_Post env p len ret s =
     (let s1 = (if sanitizing env
                then send_record (empty_record\<lparr>hr_type := MALLOC, hr_infoSrc := RT, hr_dstAddr := p, hr_memSize := len\<rparr>) s
                else s)
      in (ret, if profiling env \<and> ret = RT_ERROR_NONE
               then if \<not> he_appReplay env \<and> \<not> he_lccl env then append_section p len s1 else s1
               else s1))"

definition UnmapMem_Pre :: "'d hook_env \<Rightarrow> ptr \<Rightarrow> 'd hook_state \<Rightarrow> 'd hook_state" where
  "UnmapMem_Pre env p s =
     (let s1 = (if sanitizing env
                then send_record (empty_record\<lparr>hr_type := FREE, hr_infoSrc := RT, hr_dstAddr := p, hr_memSize := 0\<rparr>) s
                else s)
      in if profiling env then discard_section env p s1 else s1)"

section \<open>ACL hooks\<close>

definition p2p_policy :: "aclrtMemMallocPolicy \<Rightarrow> bool" where
  "p2p_policy pol \<longleftrightarrow> pol = ACL_MEM_MALLOC_HUGE_FIRST_P2P \<or> pol = ACL_MEM_MALLOC_HUGE_ONLY_P2P \<or>
     pol = ACL_MEM_MALLOC_NORMAL_ONLY_P2P"

definition blockAlignSize :: u64 where
  "blockAlignSize = 32"

text \<open>The argument of \<open>CeilByAlignSize\<close> is the low half of the size.\<close>

definition acl_record_size :: "u64 \<Rightarrow> u64" where
  "acl_record_size len = ucast (CeilByAlignSize (ucast blockAlignSize) (ucast len)) + blockAlignSize"

definition AclrtMalloc_Post :: "'d hook_env \<Rightarrow> u64 \<Rightarrow> aclrtMemMallocPolicy \<Rightarrow> aclError \<times> ptr \<Rightarrow> 'd hook_state \<Rightarrow>
    (aclError \<times> ptr) \<times> 'd hook_state" where
  "AclrtMalloc_Post env len policy result s =
     (let (ret, p) = result in
      if sanitizing env \<and> ret \<noteq> ACL_ERROR_NONE then (result, s)
      else let s1 = (if sanitizing env
                     then send_record (empty_record\<lparr>hr_type := MALLOC, hr_infoSrc := ACL, hr_dstAddr := p,
                            hr_memSize := acl_record_size len\<rparr>) (cache_malloc p ACL (acl_record_size len) s)
                     else s);
               s2 = (if profiling env \<and> ret = ACL_SUCCESS
                     then if \<not> he_appReplay env \<and> \<not> he_lccl env \<and> \<not> p2p_policy policy
                          then append_section p len s1 else s1
                     else s1)
           in (result, s2))"

definition AclrtMallocWithCfg_Post :: "'d hook_env \<Rightarrow> u64 \<Rightarrow> aclrtMemMallocPolicy \<Rightarrow> aclError \<times> ptr \<Rightarrow> 'd hook_state \<Rightarrow>
    (aclError \<times> ptr) \<times> 'd hook_state" where
  "AclrtMallocWithCfg_Post env len policy result s =
     (let (ret, p) = result in
      if sanitizing env \<and> ret \<noteq> ACL_ERROR_NONE then (result, s)
      else let s1 = (if sanitizing env
                     then send_record (empty_record\<lparr>hr_type := MALLOC, hr_infoSrc := ACL, hr_dstAddr := p,
                            hr_memSize := acl_record_size len\<rparr>) (cache_malloc p ACL (acl_record_size len) s)
                     else s);
               s2 = (if profiling env \<and> ret = ACL_SUCCESS
                     then if \<not> he_appReplay env \<and> \<not> he_lccl env \<and> \<not> p2p_policy policy
                          then append_section p len s1 else s1
                     else s1)
           in (result, s2))"

definition AclrtMallocCached_Post :: "'d hook_env \<Rightarrow> u64 \<Rightarrow> aclrtMemMallocPolicy \<Rightarrow> aclError \<times> ptr \<Rightarrow> 'd hook_state \<Rightarrow>
    (aclError \<times> ptr) \<times> 'd hook_state" where
  "AclrtMallocCached_Post env len policy result s =
     (let (ret, p) = result in
      if sanitizing env \<and> ret \<noteq> ACL_ERROR_NONE then (result, s)
      else let s1 = (if sanitizing env
                     then send_record (empty_record\<lparr>hr_type := MALLOC, hr_infoSrc := ACL, hr_dstAddr := p, hr_memSize := len\<rparr>) s
                     else s);
               s2 = (if profiling env \<and> ret = ACL_SUCCESS
                     then if \<not> he_appReplay env \<and> \<not> he_lccl env \<and> \<not> p2p_policy policy
                          then append_section p len s1 else s1
                     else s1)
           in (result, s2))"

definition AclrtMallocHost_Post :: "'d hook_env \<Rightarrow> u64 \<Rightarrow> aclError \<times> ptr \<Rightarrow> 'd hook_state \<Rightarrow>
    (aclError \<times> ptr) \<times> 'd hook_state" where
  "AclrtMallocHost_Post env len result s =
     (let (ret, p) = result in
      if sanitizing env then
        if ret \<noteq> ACL_ERROR_NONE then (result, s)
        else (result, send_record (empty_record\<lparr>hr_type := MALLOC, hr_infoSrc := ACL, hr_dstAddr := p,
                        hr_memSize := acl_record_size len\<rparr>) s)
      else (result, s))"

definition AclrtMallocHostWithCfg_Post :: "'d hook_env \<Rightarrow> u64 \<Rightarrow> aclError \<times> ptr \<Rightarrow> 'd hook_state \<Rightarrow>
    (aclError \<times> ptr) \<times> 'd hook_state" where
  "AclrtMallocHostWithCfg_Post env len result s =
     (let (ret, p) = result in
      if sanitizing env then
        if ret \<noteq> ACL_ERROR_NONE then (result, s)
        else (result, send_record (empty_record\<lparr>hr_type := MALLOC, hr_infoSrc := ACL, hr_dstAddr := p,
                        hr_memSize := acl_record_size len\<rparr>) s)
      else (result, s))"

definition AclrtFree_Pre :: "'d hook_env \<Rightarrow> ptr \<Rightarrow> 'd hook_state \<Rightarrow> 'd hook_state" where
  "AclrtFree_Pre env p s =
     (let s1 = (if sanitizing env
                then send_record (empty_record\<lparr>hr_type := FREE, hr_infoSrc := ACL, hr_dstAddr := p\<rparr>) (cache_free p ACL s)
                else s)
      in if profiling env then discard_section env p s1 else s1)"

definition AclrtFreeHost_Pre :: "'d hook_env \<Rightarrow> ptr \<Rightarrow> 'd hook_state \<Rightarrow> 'd hook_state" where
  "AclrtFreeHost_Pre env p s =
     (if sanitizing env
      then send_record (empty_record\<lparr>hr_type := FREE, hr_infoSrc := ACL, hr_dstAddr := p\<rparr>) s else s)"

definition AclrtMemset_Pre :: "'d hook_env \<Rightarrow> ptr \<Rightarrow> u64 \<Rightarrow> 'd hook_state \<Rightarrow> 'd hook_state" where
  "AclrtMemset_Pre env p count s =
     (if sanitizing env then
        if \<not> IsMemoryOnDevice env p then s
        else send_record (empty_record\<lparr>hr_type := STORE, hr_infoSrc := ACL, hr_dstAddr := p, hr_memSize := count\<rparr>) s
      else s)"

definition AclrtMemsetAsync_Pre :: "'d hook_env \<Rightarrow> ptr \<Rightarrow> u64 \<Rightarrow> 'd hook_state \<Rightarrow> 'd hook_state" where
  "AclrtMemsetAsync_Pre env p count s =
     (if sanitizing env then
        if \<not> IsMemoryOnDevice env p then s
        else send_record (empty_record\<lparr>hr_type := STORE, hr_infoSrc := ACL, hr_dstAddr := p, hr_memSize := count\<rparr>) s
      else s)"

definition AclrtMemcpy_Pre :: "'d hook_env \<Rightarrow> ptr \<Rightarrow> ptr \<Rightarrow> u64 \<Rightarrow> aclrtMemcpyKind \<Rightarrow> 'd hook_state \<Rightarrow> 'd hook_state" where
  "AclrtMemcpy_Pre env dst src count kind s =
     (if sanitizing env then
        let record = empty_record\<lparr>hr_infoSrc := ACL, hr_memSize := count\<rparr>;
            s1 = (if kind = ACL_MEMCPY_HOST_TO_DEVICE \<or> kind = ACL_MEMCPY_DEVICE_TO_DEVICE
                  then send_record (record\<lparr>hr_type := STORE, hr_dstAddr := dst\<rparr>) s else s)
        in if kind = ACL_MEMCPY_DEVICE_TO_HOST \<or> kind = ACL_MEMCPY_DEVICE_TO_DEVICE
           then send_record (record\<lparr>hr_type := LOAD, hr_dstAddr := src\<rparr>) s1 else s1
      else s)"

definition AclrtMemcpyAsync_Pre :: "'d hook_env \<Rightarrow> ptr \<Rightarrow> ptr \<Rightarrow> u64 \<Rightarrow> aclrtMemcpyKind \<Rightarrow> 'd hook_state \<Rightarrow> 'd hook_state" where
  "AclrtMemcpyAsync_Pre env dst src count kind s =
     (if sanitizing env then
        let record = empty_record\<lparr>hr_infoSrc := ACL, hr_memSize := count\<rparr>;
            s1 = (if kind = ACL_MEMCPY_HOST_TO_DEVICE \<or> kind = ACL_MEMCPY_DEVICE_TO_DEVICE
                  then send_record (record\<lparr>hr_type := STORE, hr_dstAddr := dst\<rparr>) s else s)
        in if kind = ACL_MEMCPY_DEVICE_TO_HOST \<or> kind = ACL_MEMCPY_DEVICE_TO_DEVICE
           then send_record (record\<lparr>hr_type := LOAD, hr_dstAddr := src\<rparr>) s1 else s1
      else s)"

text \<open>One row of a two-dimensional copy; a row whose address would pass \<open>UINT64_MAX\<close> is left out.\<close>

definition MAX_MEMORY_RECORD_HEIGHT :: u64 where
  "MAX_MEMORY_RECORD_HEIGHT = 60 * 1024 * 1024 * 1024"

definition copy2d_row ::
  "ptr \<Rightarrow> u64 \<Rightarrow> ptr \<Rightarrow> u64 \<Rightarrow> u64 \<Rightarrow> aclrtMemcpyKind \<Rightarrow> nat \<Rightarrow> 'd hook_state \<Rightarrow> 'd hook_state" where
  "copy2d_row dst dpitch src spitch width kind r s =
     (let record = empty_record\<lparr>hr_infoSrc := ACL, hr_memSize := width\<rparr>;
          dstOff = word_of_nat r * dpitch;
          srcOff = word_of_nat r * spitch;
          s1 = (if (kind = ACL_MEMCPY_HOST_TO_DEVICE \<or> kind = ACL_MEMCPY_DEVICE_TO_DEVICE) \<and> dst \<le> UINT64_MAX - dstOff
                then send_record (record\<lparr>hr_type := STORE, hr_dstAddr := dst + dstOff\<rparr>) s else s)
      in if (kind = ACL_MEMCPY_DEVICE_TO_HOST \<or> kind = ACL_MEMCPY_DEVICE_TO_DEVICE) \<and> src \<le> UINT64_MAX - srcOff
         then send_record (record\<lparr>hr_type := LOAD, hr_dstAddr := src + srcOff\<rparr>) s1 else s1)"

definition AclrtMemcpy2d_Pre ::
  "'d hook_env \<Rightarrow> ptr \<Rightarrow> u64 \<Rightarrow> ptr \<Rightarrow> u64 \<Rightarrow> u64 \<Rightarrow> u64 \<Rightarrow> aclrtMemcpyKind \<Rightarrow> 'd hook_state \<Rightarrow> 'd hook_state" where
  "AclrtMemcpy2d_Pre env dst dpitch src spitch width height kind s =
     (let height1 = (if height > MAX_MEMORY_RECORD_HEIGHT then MAX_MEMORY_RECORD_HEIGHT else height)
      in if sanitizing env then fold (copy2d_row dst dpitch src spitch width kind) [0..<unat height1] s else s)"

definition AclrtMemcpy2dAsync_Pre ::
  "'d hook_env \<Rightarrow> ptr \<Rightarrow> u64 \<Rightarrow> ptr \<Rightarrow> u64 \<Rightarrow> u64 \<Rightarrow> u64 \<Rightarrow> aclrtMemcpyKind \<Rightarrow> 'd hook_state \<Rightarrow> 'd hook_state" where
  "AclrtMemcpy2dAsync_Pre env dst dpitch src spitch width height kind s =
     (let height1 = (if height > MAX_MEMORY_RECORD_HEIGHT then MAX_MEMORY_RECORD_HEIGHT else height)
      in if sanitizing env then fold (copy2d_row dst dpitch src spitch width kind) [0..<unat height1] s else s)"

definition AclrtMapMem_Post :: "'d hook_env \<Rightarrow> ptr \<Rightarrow> u64 \<Rightarrow> aclError \<Rightarrow> 'd hook_state \<Rightarrow> aclError \<times> 'd hook_state" where
  "AclrtMapMem_Post env p len ret s =
     (if sanitizing env \<and> ret \<noteq> ACL_ERROR_NONE then (ret, s)
      else let s1 = (if sanitizing env
                     then send_record (empty_record\<lparr>hr_type := MALLOC, hr_infoSrc := ACL, hr_dstAddr := p, hr_memSize := len\<rparr>) s
                     else s)
           in (ret, if profiling env \<and> ret = ACL_ERROR_NONE
                    then if \<not> he_appReplay env \<and> \<not> he_lccl env then append_section p len s1 else s1
                    else s1))"

definition AclrtUnmapMem_Pre :: "'d hook_env \<Rightarrow> ptr \<Rightarrow> 'd hook_state \<Rightarrow> 'd hook_state" where
  "AclrtUnmapMem_Pre env p s =
     (let s1 = (if sanitizing env
                then send_record (empty_record\<lparr>hr_type := FREE, hr_infoSrc := ACL, hr_dstAddr := p, hr_memSize := 0\<rparr>) s
                else s)
      in if profiling env then discard_section env p s1 else s1)"

section \<open>Entry points\<close>

text \<open>
  A command object of \<open>HijackedFunc\<close> from its overridden parts; an out pointer travels with the error code
  (0 when it is left alone). A runtime entry point steps aside under a masking parent; an ACL one runs
  between the push and the pop of its \<open>LayerGuard\<close>.
\<close>

definition hook :: "('a \<Rightarrow> 's \<Rightarrow> 'r \<times> 's) option \<Rightarrow> ('a \<Rightarrow> 's \<Rightarrow> 's) \<Rightarrow> ('r \<Rightarrow> 's \<Rightarrow> 'r \<times> 's) \<Rightarrow> 'r \<Rightarrow>
    ('a, 'r, 's) hijacked_func" where
  "hook origin pre post err =
     \<lparr>hf_origin = origin, hf_Pre = pre, hf_Post = post, hf_Empty = (\<lambda>s. (err, s))\<rparr>"

definition masked_entry ::
  "string \<Rightarrow> ('a, 'r, 'd hook_state) hijacked_func \<Rightarrow> 'a \<Rightarrow> 'd hook_state \<Rightarrow> 'r \<times> 'd hook_state" where
  "masked_entry func h args s =
     (if ParentInCallStack (hs_layers s) func then hijacked_OriginCall h args s else hijacked_Call h args s)"

definition guarded_entry ::
  "string \<Rightarrow> ('a, 'r, 'd hook_state) hijacked_func \<Rightarrow> 'a \<Rightarrow> 'd hook_state \<Rightarrow> 'r \<times> 'd hook_state" where
  "guarded_entry func h args s =
     (let (r, s1) = hijacked_Call h args (s\<lparr>hs_layers := layer_Push func (hs_layers s)\<rparr>)
      in (r, s1\<lparr>hs_layers := layer_Pop (hs_layers s1)\<rparr>))"

type_synonym ('a, 'r, 'd) origin = "('a \<Rightarrow> 'd hook_state \<Rightarrow> 'r \<times> 'd hook_state) option"

definition rtMalloc :: "'d hook_env \<Rightarrow> (u64 \<times> rtMemType, rtError \<times> ptr, 'd) origin \<Rightarrow> u64 \<Rightarrow> rtMemType \<Rightarrow>
    'd hook_state \<Rightarrow> (rtError \<times> ptr) \<times> 'd hook_state" where
  "rtMalloc env origin len mty =
     masked_entry ''rtMalloc'' (hook origin (\<lambda>_ s. s) (Malloc_Post env len mty) (RT_ERROR_RESERVED, 0)) (len, mty)"

definition rtFree :: "'d hook_env \<Rightarrow> (ptr, rtError, 'd) origin \<Rightarrow> ptr \<Rightarrow> 'd hook_state \<Rightarrow> rtError \<times> 'd hook_state" where
  "rtFree env origin p = masked_entry ''rtFree'' (hook origin (Free_Pre env) Pair RT_ERROR_RESERVED) p"

definition rtMapMem :: "'d hook_env \<Rightarrow> (ptr \<times> u64, rtError, 'd) origin \<Rightarrow> ptr \<Rightarrow> u64 \<Rightarrow> 'd hook_state \<Rightarrow>
    rtError \<times> 'd hook_state" where
  "rtMapMem env origin p len =
     masked_entry ''rtMapMem'' (hook origin (\<lambda>_ s. s) (MapMem_Post env p len) RT_ERROR_RESERVED) (p, len)"

definition rtUnmapMem :: "'d hook_env \<Rightarrow> (ptr, rtError, 'd) origin \<Rightarrow> ptr \<Rightarrow> 'd hook_state \<Rightarrow> rtError \<times> 'd hook_state" where
  "rtUnmapMem env origin p = masked_entry ''rtUnmapMem'' (hook origin (UnmapMem_Pre env) Pair RT_ERROR_RESERVED) p"

definition rtMemset :: "'d hook_env \<Rightarrow> (ptr \<times> u64, rtError, 'd) origin \<Rightarrow> ptr \<Rightarrow> u64 \<Rightarrow> 'd hook_state \<Rightarrow>
    rtError \<times> 'd hook_state" where
  "rtMemset env origin p cnt =
     masked_entry ''rtMemset'' (hook origin (\<lambda>(p, n). Memset_Pre env p n) Pair RT_ERROR_RESERVED) (p, cnt)"

definition rtMemcpy :: "'d hook_env \<Rightarrow> (ptr \<times> ptr \<times> u64 \<times> rtMemcpyKind, rtError, 'd) origin \<Rightarrow> ptr \<Rightarrow> ptr \<Rightarrow> u64 \<Rightarrow>
    rtMemcpyKind \<Rightarrow> 'd hook_state \<Rightarrow> rtError \<times> 'd hook_state" where
  "rtMemcpy env origin dst src cnt kind =
     masked_entry ''rtMemcpy'' (hook origin (\<lambda>(d, f, n, k). Memcpy_Pre env d f n k) Pair RT_ERROR_RESERVED)
       (dst, src, cnt, kind)"

definition aclrtMallocImpl :: "'d hook_env \<Rightarrow> (u64 \<times> aclrtMemMallocPolicy, aclError \<times> ptr, 'd) origin \<Rightarrow> u64 \<Rightarrow>
    aclrtMemMallocPolicy \<Rightarrow> 'd hook_state \<Rightarrow> (aclError \<times> ptr) \<times> 'd hook_state" where
  "aclrtMallocImpl env origin len policy =
     guarded_entry ''aclrtMallocImpl''
       (hook origin (\<lambda>_ s. s) (AclrtMalloc_Post env len policy) (ACL_ERROR_INTERNAL_ERROR, 0)) (len, policy)"

definition aclrtFreeImpl :: "'d hook_env \<Rightarrow> (ptr, aclError, 'd) origin \<Rightarrow> ptr \<Rightarrow> 'd hook_state \<Rightarrow> aclError \<times> 'd hook_state" where
  "aclrtFreeImpl env origin p =
     guarded_entry ''aclrtFreeImpl'' (hook origin (AclrtFree_Pre env) Pair ACL_ERROR_INTERNAL_ERROR) p"

definition aclrtMemsetImpl :: "'d hook_env \<Rightarrow> (ptr \<times> u64, aclError, 'd) origin \<Rightarrow> ptr \<Rightarrow> u64 \<Rightarrow> 'd hook_state \<Rightarrow>
    aclError \<times> 'd hook_state" where
  "aclrtMemsetImpl env origin p count =
     guarded_entry ''aclrtMemsetImpl''
       (hook origin (\<lambda>(p, n). AclrtMemset_Pre env p n) Pair ACL_ERROR_INTERNAL_ERROR) (p, count)"

definition aclrtMemcpyImpl :: "'d hook_env \<Rightarrow> (ptr \<times> ptr \<times> u64 \<times> aclrtMemcpyKind, aclError, 'd) origin \<Rightarrow> ptr \<Rightarrow> ptr \<Rightarrow>
    u64 \<Rightarrow> aclrtMemcpyKind \<Rightarrow> 'd hook_state \<Rightarrow> aclError \<times> 'd hook_state" where
  "aclrtMemcpyImpl env origin dst src count kind =
     guarded_entry ''aclrtMemcpyImpl''
       (hook origin (\<lambda>(d, f, n, k). AclrtMemcpy_Pre env d f n k) Pair ACL_ERROR_INTERNAL_ERROR) (dst, src, count, kind)"

definition aclrtMapMemImpl :: "'d hook_env \<Rightarrow> (ptr \<times> u64, aclError, 'd) origin \<Rightarrow> ptr \<Rightarrow> u64 \<Rightarrow> 'd hook_state \<Rightarrow>
    aclError \<times> 'd hook_state" where
  "aclrtMapMemImpl env origin p len =
     guarded_entry ''aclrtMapMemImpl''
       (hook origin (\<lambda>_ s. s) (AclrtMapMem_Post env p len) ACL_ERROR_INTERNAL_ERROR) (p, len)"

definition aclrtUnmapMemImpl :: "'d hook_env \<Rightarrow> (ptr, aclError, 'd) origin \<Rightarrow> ptr \<Rightarrow> 'd hook_state \<Rightarrow>
    aclError \<times> 'd hook_state" where
  "aclrtUnmapMemImpl env origin p =
     guarded_entry ''aclrtUnmapMemImpl'' (hook origin (AclrtUnmapMem_Pre env) Pair ACL_ERROR_INTERNAL_ERROR) p"

text \<open>The entry point of the variant with a configuration has no guard.\<close>

definition aclrtMallocWithCfgImpl :: "'d hook_env \<Rightarrow> (u64 \<times> aclrtMemMallocPolicy, aclError \<times> ptr, 'd) origin \<Rightarrow> u64 \<Rightarrow>
    aclrtMemMallocPolicy \<Rightarrow> 'd hook_state \<Rightarrow> (aclError \<times> ptr) \<times> 'd hook_state" where
  "aclrtMallocWithCfgImpl env origin len policy =
     hijacked_Call
       (hook origin (\<lambda>_ s. s) (AclrtMallocWithCfg_Post env len policy) (ACL_ERROR_INTERNAL_ERROR, 0)) (len, policy)"

section \<open>What is recorded\<close>

lemmas state_simps [simp] = Notify_def send_record_def cache_malloc_def cache_free_def append_section_def

lemma sanitizing_not_profiling: "sanitizing env \<Longrightarrow> \<not> profiling env"
  using tools_exclusive by blast

lemma sanitizing_only: "sanitizing env \<Longrightarrow> \<not> IsOpProf (he_tool env)"
  using tools_exclusive by blast

text \<open>The recorded size of an ACL allocation of up to \<open>2 ^ 32 - 32\<close> bytes: whole blocks and one more.\<close>

lemma acl_record_size_nat:
  assumes "unat len \<le> 2 ^ 32 - 32"
  shows "unat (acl_record_size len) = (unat len + 31) div 32 * 32 + 32"
proof -
  have l: "unat (ucast len :: u32) = unat len" using assms by (simp add: unsigned_ucast_eq take_bit_eq_mod)
  have a: "(ucast blockAlignSize :: u32) = 32" by (simp add: blockAlignSize_def)
  have c: "unat (CeilByAlignSize 32 (ucast len)) = (unat len + 31) div 32 * 32"
    using CeilByAlignSize_nat [of 32 "ucast len"] assms by (simp add: l)
  have b: "(unat len + 31) div 32 * 32 < 4294967296"
  proof -
    have "unat (CeilByAlignSize 32 (ucast len)) < 4294967296"
      by (rule order_less_le_trans [OF unsigned_less]) simp
    then show ?thesis by (simp only: c)
  qed
  have u: "unat (ucast (CeilByAlignSize 32 (ucast len :: u32)) :: u64) = (unat len + 31) div 32 * 32"
    using b c by (simp add: unsigned_ucast_eq take_bit_eq_mod)
  show ?thesis
    unfolding acl_record_size_def a
    using b by (simp add: unat_word_ariths u blockAlignSize_def)
qed

section \<open>Sequences of hooked calls\<close>

text \<open>A hooked call with the answer its original gave, and the part of the hook that runs for it.\<close>

datatype hook_event =
    RtMallocEv rtError ptr u64 rtMemType
  | RtFreeEv ptr
  | RtMemsetEv ptr u64
  | RtMemcpyEv ptr ptr u64 rtMemcpyKind
  | RtMapMemEv rtError ptr u64
  | RtUnmapMemEv ptr
  | AclMallocEv aclError ptr u64 aclrtMemMallocPolicy
  | AclMallocWithCfgEv aclError ptr u64 aclrtMemMallocPolicy
  | AclMallocCachedEv aclError ptr u64 aclrtMemMallocPolicy
  | AclMallocHostEv aclError ptr u64
  | AclMallocHostWithCfgEv aclError ptr u64
  | AclFreeEv ptr
  | AclFreeHostEv ptr
  | AclMemsetEv ptr u64
  | AclMemsetAsyncEv ptr u64
  | AclMemcpyEv ptr ptr u64 aclrtMemcpyKind
  | AclMemcpyAsyncEv ptr ptr u64 aclrtMemcpyKind
  | AclMemcpy2dEv ptr u64 ptr u64 u64 u64 aclrtMemcpyKind
  | AclMemcpy2dAsyncEv ptr u64 ptr u64 u64 u64 aclrtMemcpyKind
  | AclMapMemEv aclError ptr u64
  | AclUnmapMemEv ptr

primrec hook_step :: "'d hook_env \<Rightarrow> hook_event \<Rightarrow> 'd hook_state \<Rightarrow> 'd hook_state" where
  "hook_step env (RtMallocEv ret p n t) s = snd (Malloc_Post env n t (ret, p) s)"
| "hook_step env (RtFreeEv p) s = Free_Pre env p s"
| "hook_step env (RtMemsetEv p n) s = Memset_Pre env p n s"
| "hook_step env (RtMemcpyEv dst src n k) s = Memcpy_Pre env dst src n k s"
| "hook_step env (RtMapMemEv ret p n) s = snd (MapMem_Post env p n ret s)"
| "hook_step env (RtUnmapMemEv p) s = UnmapMem_Pre env p s"
| "hook_step env (AclMallocEv ret p n pol) s = snd (AclrtMalloc_Post env n pol (ret, p) s)"
| "hook_step env (AclMallocWithCfgEv ret p n pol) s = snd (AclrtMallocWithCfg_Post env n pol (ret, p) s)"
| "hook_step env (AclMallocCachedEv ret p n pol) s = snd (AclrtMallocCached_Post env n pol (ret, p) s)"
| "hook_step env (AclMallocHostEv ret p n) s = snd (AclrtMallocHost_Post env n (ret, p) s)"
| "hook_step env (AclMallocHostWithCfgEv ret p n) s = snd (AclrtMallocHostWithCfg_Post env n (ret, p) s)"
| "hook_step env (AclFreeEv p) s = AclrtFree_Pre env p s"
| "hook_step env (AclFreeHostEv p) s = AclrtFreeHost_Pre env p s"
| "hook_step env (AclMemsetEv p n) s = AclrtMemset_Pre env p n s"
| "hook_step env (AclMemsetAsyncEv p n) s = AclrtMemsetAsync_Pre env p n s"
| "hook_step env (AclMemcpyEv dst src n k) s = AclrtMemcpy_Pre env dst src n k s"
| "hook_step env (AclMemcpyAsyncEv dst src n k) s = AclrtMemcpyAsync_Pre env dst src n k s"
| "hook_step env (AclMemcpy2dEv dst dp src sp w h k) s = AclrtMemcpy2d_Pre env dst dp src sp w h k s"
| "hook_step env (AclMemcpy2dAsyncEv dst dp src sp w h k) s = AclrtMemcpy2dAsync_Pre env dst dp src sp w h k s"
| "hook_step env (AclMapMemEv ret p n) s = snd (AclrtMapMem_Post env p n ret s)"
| "hook_step env (AclUnmapMemEv p) s = AclrtUnmapMem_Pre env p s"

lemmas post_defs = Malloc_Post_def MapMem_Post_def AclrtMalloc_Post_def AclrtMallocWithCfg_Post_def
  AclrtMallocCached_Post_def AclrtMallocHost_Post_def AclrtMallocHostWithCfg_Post_def AclrtMapMem_Post_def

lemmas pre_defs = Free_Pre_def UnmapMem_Pre_def Memset_Pre_def Memcpy_Pre_def AclrtFree_Pre_def AclrtFreeHost_Pre_def
  AclrtMemset_Pre_def AclrtMemsetAsync_Pre_def AclrtMemcpy_Pre_def AclrtMemcpyAsync_Pre_def AclrtUnmapMem_Pre_def

lemmas copy2d_defs = AclrtMemcpy2d_Pre_def AclrtMemcpy2dAsync_Pre_def

text \<open>What the checker caches for a call, and what the profiler maps.\<close>

primrec cache_events :: "hook_event \<Rightarrow> MemInfoSrc alloc_event list" where
  "cache_events (RtMallocEv ret p n t) = (if ret = RT_ERROR_NONE then [Alloc RT p n] else [])"
| "cache_events (RtFreeEv p) = [Release RT p]"
| "cache_events (RtMemsetEv p n) = []"
| "cache_events (RtMemcpyEv dst src n k) = []"
| "cache_events (RtMapMemEv ret p n) = []"
| "cache_events (RtUnmapMemEv p) = []"
| "cache_events (AclMallocEv ret p n pol) = (if ret = ACL_ERROR_NONE then [Alloc ACL p (acl_record_size n)] else [])"
| "cache_events (AclMallocWithCfgEv ret p n pol) =
     (if ret = ACL_ERROR_NONE then [Alloc ACL p (acl_record_size n)] else [])"
| "cache_events (AclMallocCachedEv ret p n pol) = []"
| "cache_events (AclMallocHostEv ret p n) = []"
| "cache_events (AclMallocHostWithCfgEv ret p n) = []"
| "cache_events (AclFreeEv p) = [Release ACL p]"
| "cache_events (AclFreeHostEv p) = []"
| "cache_events (AclMemsetEv p n) = []"
| "cache_events (AclMemsetAsyncEv p n) = []"
| "cache_events (AclMemcpyEv dst src n k) = []"
| "cache_events (AclMemcpyAsyncEv dst src n k) = []"
| "cache_events (AclMemcpy2dEv dst dp src sp w h k) = []"
| "cache_events (AclMemcpy2dAsyncEv dst dp src sp w h k) = []"
| "cache_events (AclMapMemEv ret p n) = []"
| "cache_events (AclUnmapMemEv p) = []"

definition section_alloc :: "'d hook_env \<Rightarrow> bool \<Rightarrow> ptr \<Rightarrow> u64 \<Rightarrow> unit alloc_event list" where
  "section_alloc env ok p n = (if ok \<and> \<not> he_appReplay env \<and> \<not> he_lccl env then [Alloc () p n] else [])"

primrec section_events :: "'d hook_env \<Rightarrow> hook_event \<Rightarrow> unit alloc_event list" where
  "section_events env (RtMallocEv ret p n t) =
     section_alloc env (ret = RT_ERROR_NONE \<and> t \<noteq> RT_MEMORY_P2P_HBM \<and> t \<noteq> RT_MEMORY_P2P_DDR) p n"
| "section_events env (RtFreeEv p) = [Release () p]"
| "section_events env (RtMemsetEv p n) = []"
| "section_events env (RtMemcpyEv dst src n k) = []"
| "section_events env (RtMapMemEv ret p n) = section_alloc env (ret = RT_ERROR_NONE) p n"
| "section_events env (RtUnmapMemEv p) = [Release () p]"
| "section_events env (AclMallocEv ret p n pol) = section_alloc env (ret = ACL_SUCCESS \<and> \<not> p2p_policy pol) p n"
| "section_events env (AclMallocWithCfgEv ret p n pol) = section_alloc env (ret = ACL_SUCCESS \<and> \<not> p2p_policy pol) p n"
| "section_events env (AclMallocCachedEv ret p n pol) = section_alloc env (ret = ACL_SUCCESS \<and> \<not> p2p_policy pol) p n"
| "section_events env (AclMallocHostEv ret p n) = []"
| "section_events env (AclMallocHostWithCfgEv ret p n) = []"
| "section_events env (AclFreeEv p) = [Release () p]"
| "section_events env (AclFreeHostEv p) = []"
| "section_events env (AclMemsetEv p n) = []"
| "section_events env (AclMemsetAsyncEv p n) = []"
| "section_events env (AclMemcpyEv dst src n k) = []"
| "section_events env (AclMemcpyAsyncEv dst src n k) = []"
| "section_events env (AclMemcpy2dEv dst dp src sp w h k) = []"
| "section_events env (AclMemcpy2dAsyncEv dst dp src sp w h k) = []"
| "section_events env (AclMapMemEv ret p n) = section_alloc env (ret = ACL_ERROR_NONE) p n"
| "section_events env (AclUnmapMemEv p) = [Release () p]"

lemma copy2d_row_mem [simp]: "hs_mem (copy2d_row d dp sr sp w k r s) = hs_mem s"
  and copy2d_row_ctx [simp]: "hs_ctx (copy2d_row d dp sr sp w k r s) = hs_ctx s"
  and copy2d_row_dev [simp]: "hs_dev (copy2d_row d dp sr sp w k r s) = hs_dev s"
  by (simp_all add: copy2d_row_def Let_def)

lemma copy2d_rows_mem [simp]: "hs_mem (fold (copy2d_row d dp sr sp w k) rs s) = hs_mem s"
  and copy2d_rows_ctx [simp]: "hs_ctx (fold (copy2d_row d dp sr sp w k) rs s) = hs_ctx s"
  and copy2d_rows_dev [simp]: "hs_dev (fold (copy2d_row d dp sr sp w k) rs s) = hs_dev s"
  by (induction rs arbitrary: s) simp_all

lemma discard_section_fields [simp]:
  "hs_mem (discard_section env p s) = hs_mem s" "hs_sent (discard_section env p s) = hs_sent s"
  "hs_layers (discard_section env p s) = hs_layers s"
  by (simp_all add: discard_section_def split: prod.splits)

lemma discard_section_ctx:
  "(hs_ctx (discard_section env p s), hs_dev (discard_section env p s)) = section_del (he_api env) () p (hs_ctx s, hs_dev s)"
  by (simp add: discard_section_def section_del_def split: prod.splits)

lemma hook_step_mem:
  "hs_mem (hook_step env e s) =
     (if sanitizing env then fold records.run (cache_events e) (hs_mem s) else hs_mem s)"
  by (cases e) (auto simp: post_defs pre_defs copy2d_defs Let_def cache_add_def cache_del_def)

lemma hook_step_sent:
  "\<not> sanitizing env \<Longrightarrow> hs_sent (hook_step env e s) = hs_sent s"
  by (cases e) (auto simp: post_defs pre_defs copy2d_defs Let_def)

lemma hook_step_ctx:
  "(hs_ctx (hook_step env e s), hs_dev (hook_step env e s)) =
     (if profiling env then fold (sections.run (he_api env)) (section_events env e) (hs_ctx s, hs_dev s)
      else (hs_ctx s, hs_dev s))"
  using sanitizing_not_profiling [of env]
  by (cases e) (auto simp: post_defs pre_defs copy2d_defs Let_def section_alloc_def section_add_def discard_section_ctx
      ACL_SUCCESS_def ACL_ERROR_NONE_def)

lemma hook_run_mem:
  "sanitizing env \<Longrightarrow>
   hs_mem (fold (hook_step env) es s) = fold records.run (concat (map cache_events es)) (hs_mem s)"
  by (induction es arbitrary: s) (simp_all add: hook_step_mem)

lemma hook_run_ctx:
  "profiling env \<Longrightarrow>
   (hs_ctx (fold (hook_step env) es s), hs_dev (fold (hook_step env) es s)) =
      fold (sections.run (he_api env)) (concat (map (section_events env) es)) (hs_ctx s, hs_dev s)"
proof (induction es arbitrary: s)
  case (Cons e es)
  then show ?case using hook_step_ctx [of env e s] by simp
qed simp

section \<open>The kernel sees the live memory\<close>

lemma IsSame_ACL: "IsSameMemInfoSrc k ACL \<longleftrightarrow> k = ACL \<or> k = RT"
  by (auto simp: IsSameMemInfoSrc_def)

text \<open>A cache that only ACL and runtime allocations have filled: every record is one live allocation.\<close>

definition only_class :: "MemInfoSrc \<Rightarrow> memory_manage \<Rightarrow> bool" where
  "only_class c m \<longleftrightarrow> (\<forall>it \<in> set (mm_infos m). of_class c it)"

lemma only_class_run:
  assumes "cache_inv c m" and "fresh (\<lambda>k. IsSameMemInfoSrc k c) (\<lambda>a. True) e (live_records c m)" and "only_class c m"
  shows "only_class c (records.run e m) \<and> length (mm_infos (records.run e m)) \<le> Suc (length (mm_infos m))"
proof (cases e)
  case (Alloc k a n)
  then have k: "IsSameMemInfoSrc k c" "live_records c m a = None" using assms(2) by simp_all
  note A = cache_add_infos [OF assms(1) k, of n]
  show ?thesis using Alloc A(1,2) assms(3) k(1) by (auto simp: only_class_def of_class_def)
next
  case (Release k a)
  then have k: "IsSameMemInfoSrc k c" using assms(2) by simp
  have "set (mm_infos (cache_del k a m)) \<subseteq> set (mm_infos m) \<and>
      length (mm_infos (cache_del k a m)) \<le> length (mm_infos m)"
    by (rule cache_del_cases [OF assms(1) k, of a]) (auto simp: oset_erase_def)
  then show ?thesis using Release assms(3) by (auto simp: only_class_def)
qed

lemma only_class_run_all:
  "cache_inv c m \<Longrightarrow> fresh_all (\<lambda>k. IsSameMemInfoSrc k c) (\<lambda>a. True) es (live_records c m) \<Longrightarrow> only_class c m \<Longrightarrow>
   only_class c (fold records.run es m) \<and>
   length (mm_infos (fold records.run es m)) \<le> length es + length (mm_infos m)"
proof (induction es arbitrary: m)
  case (Cons e es)
  then show ?case
    using records.run_step [of c m e] only_class_run [of c m e] by fastforce
qed simp

lemma merge_live:
  assumes "cache_inv ACL m" and "only_class ACL m" and "length (mm_infos m) < 2 ^ 32" and "live_records ACL m = l"
    and "l \<noteq> Map.empty" and "\<forall>a n. l a = Some n \<longrightarrow> no_wrap a n"
  shows "\<exists>ms k. MergeHostMems m = ms @ replicate k \<lparr>hm_addr = 0, hm_size = 0\<rparr> \<and> normal_ranges ms \<and>
           cover ms = {x. \<exists>a n. l a = Some n \<and> unat a \<le> x \<and> x < unat a + unat n}"
proof -
  have src: "ai_src it = ACL \<or> ai_src it = RT" if "it \<in> set (mm_infos m)" for it
    using that assms(2) by (auto simp: only_class_def of_class_def IsSame_ACL)
  have live: "l a = Some n \<longleftrightarrow> (\<exists>it \<in> set (mm_infos m). ai_addr it = a \<and> ai_length it = n)" for a n
    using live_records_Some [OF assms(1), of a n] assms(2,4) by (auto simp: only_class_def)
  have ex: "\<not> hasExtra (mm_infos m)" using src by (fastforce simp: hasExtra_def list_ex_iff)
  have proper: "\<forall>a \<in> set (mm_infos m). ai_proper a"
    using live assms(6) unfolding ai_proper_def by blast
  have ne: "mm_infos m \<noteq> []"
  proof
    assume "mm_infos m = []"
    then have "l a = None" for a using live [of a] by (cases "l a") auto
    then show False using assms(5) by blast
  qed
  have "unat (mm_count m) = length (mm_infos m)"
    using assms(1,3) by (simp add: cache_inv_def unat_of_nat)
  then have ct: "mm_count m \<noteq> 0" using ne by auto
  have h: "hasExtra (mm_infos m) \<or> (\<forall>a \<in> set (mm_infos m). ai_src a \<noteq> MSTX_HEAP)" using src by fastforce
  have "(\<Union>a \<in> {a \<in> set (mm_infos m). valid_source (hasExtra (mm_infos m)) a}. ai_range a) =
      {x. \<exists>a n. l a = Some n \<and> unat a \<le> x \<and> x < unat a + unat n}"
    using ex unfolding live by (force simp: valid_source_def ai_range_def)
  with MergeHostMems_covers [OF proper ne ct h] show ?thesis by (metis (no_types, lifting))
qed

section \<open>Properties\<close>

text \<open>
  What a program holds, by its own calls: the address of each allocation with the requested size and whether ACL gave it.
  \<open>program_ok\<close> is a call of a program that allocates through \<open>rtMalloc\<close> and \<open>aclrtMalloc\<close>, whose allocator gives out no
  address that is live; an ACL request leaves room for rounding below 4 GiB. The other ways to device memory are not kept
  for the kernel at all, or twice (\<open>malloc_with_cfg_leaks\<close>), and larger ACL requests are cut (\<open>acl_size_truncated\<close>).
\<close>

type_synonym held = "u64 \<rightharpoonup> bool \<times> nat"

fun program_step :: "hook_event \<Rightarrow> held \<Rightarrow> held" where
  "program_step (RtMallocEv ret p n t) l = (if ret = RT_ERROR_NONE then l(p \<mapsto> (False, unat n)) else l)"
| "program_step (AclMallocEv ret p n pol) l = (if ret = ACL_ERROR_NONE then l(p \<mapsto> (True, unat n)) else l)"
| "program_step (RtFreeEv p) l = l(p := None)"
| "program_step (AclFreeEv p) l = l(p := None)"
| "program_step e l = l"

fun program_ok :: "hook_event \<Rightarrow> held \<Rightarrow> bool" where
  "program_ok (RtMallocEv ret p n t) l \<longleftrightarrow> (ret = RT_ERROR_NONE \<longrightarrow> l p = None)"
| "program_ok (AclMallocEv ret p n pol) l \<longleftrightarrow> (ret = ACL_ERROR_NONE \<longrightarrow> l p = None \<and> unat n \<le> 2 ^ 32 - 32)"
| "program_ok (AclMallocWithCfgEv ret p n pol) l \<longleftrightarrow> False"
| "program_ok (AclMallocCachedEv ret p n pol) l \<longleftrightarrow> False"
| "program_ok (RtMapMemEv ret p n) l \<longleftrightarrow> False"
| "program_ok (AclMapMemEv ret p n) l \<longleftrightarrow> False"
| "program_ok e l \<longleftrightarrow> True"

primrec program_runs :: "hook_event list \<Rightarrow> held \<Rightarrow> bool" where
  "program_runs [] l \<longleftrightarrow> True"
| "program_runs (e # es) l \<longleftrightarrow> program_ok e l \<and> program_runs es (program_step e l)"

text \<open>An ACL allocation takes whole blocks of 32 bytes and one more.\<close>

definition held_size :: "bool \<times> nat \<Rightarrow> nat" where
  "held_size h = (case h of (acl, n) \<Rightarrow> if acl then (n + 31) div 32 * 32 + 32 else n)"

definition held_bytes :: "held \<Rightarrow> nat set" where
  "held_bytes l = {x. \<exists>a h. l a = Some h \<and> unat a \<le> x \<and> x < unat a + held_size h}"

definition held_as :: "held \<Rightarrow> live \<Rightarrow> bool" where
  "held_as l l' \<longleftrightarrow> (\<forall>a. map_option held_size (l a) = map_option unat (l' a))"

lemma held_as_None: "held_as l l' \<Longrightarrow> l' a = None \<longleftrightarrow> l a = None"
  by (metis held_as_def map_option_is_None)

lemma held_as_upd: "held_as l l' \<Longrightarrow> held_size h = unat n \<Longrightarrow> held_as (l(a \<mapsto> h)) (l'(a \<mapsto> n))"
  and held_as_del: "held_as l l' \<Longrightarrow> held_as (l(a := None)) (l'(a := None))"
  by (simp_all add: held_as_def)

lemma program_step_held:
  assumes "program_ok e l" and "held_as l l'"
  shows "fresh_all (\<lambda>k. IsSameMemInfoSrc k ACL) (\<lambda>a. True) (cache_events e) l' \<and>
    held_as (program_step e l) (fold live_step (cache_events e) l') \<and> length (cache_events e) \<le> 1"
proof -
  have acl: "held_as (l(a \<mapsto> (True, unat n))) (l'(a \<mapsto> acl_record_size n))" if "unat n \<le> 4294967264" for a n
    using acl_record_size_nat [of n] that assms(2) by (intro held_as_upd) (simp_all add: held_size_def)
  show ?thesis
    using assms held_as_None [OF assms(2)]
    by (cases e) (auto simp: IsSame_ACL held_as_upd held_as_del acl held_size_def)
qed

lemma program_runs_held:
  "program_runs es l \<Longrightarrow> held_as l l' \<Longrightarrow>
   fresh_all (\<lambda>k. IsSameMemInfoSrc k ACL) (\<lambda>a. True) (concat (map cache_events es)) l' \<and>
   held_as (fold program_step es l) (fold live_step (concat (map cache_events es)) l') \<and>
   length (concat (map cache_events es)) \<le> length es"
proof (induction es arbitrary: l l')
  case (Cons e es)
  then have e: "fresh_all (\<lambda>k. IsSameMemInfoSrc k ACL) (\<lambda>a. True) (cache_events e) l'"
    "held_as (program_step e l) (fold live_step (cache_events e) l')" "length (cache_events e) \<le> 1"
    using program_step_held [of e l l'] by simp_all
  show ?case using Cons.IH [OF _ e(2)] Cons.prems(1) e(1,3) by (auto simp: fresh_all_append)
qed simp

lemma held_bytes_live:
  "held_as l l' \<Longrightarrow> held_bytes l = {x. \<exists>a n. l' a = Some n \<and> unat a \<le> x \<and> x < unat a + unat n}"
proof -
  assume h: "held_as l l'"
  have a: "\<exists>n. l' a = Some n \<and> unat n = held_size x" if "l a = Some x" for a x
    using h [unfolded held_as_def, rule_format, of a] that by (cases "l' a") auto
  have b: "\<exists>x. l a = Some x \<and> held_size x = unat n" if "l' a = Some n" for a n
    using h [unfolded held_as_def, rule_format, of a] that by (cases "l a") auto
  show ?thesis
    unfolding held_bytes_def
  proof (rule Collect_cong, rule iffI)
    fix x assume "\<exists>a h. l a = Some h \<and> unat a \<le> x \<and> x < unat a + held_size h"
    then obtain c k where c: "l c = Some k" "unat c \<le> x" "x < unat c + held_size k" by blast
    obtain n where "l' c = Some n" "unat n = held_size k" using a [OF c(1)] by blast
    with c show "\<exists>a n. l' a = Some n \<and> unat a \<le> x \<and> x < unat a + unat n" by (intro exI [of _ c] exI [of _ n]) simp
  next
    fix x assume "\<exists>a n. l' a = Some n \<and> unat a \<le> x \<and> x < unat a + unat n"
    then obtain c n where c: "l' c = Some n" "unat c \<le> x" "x < unat c + unat n" by blast
    obtain k where "l c = Some k" "held_size k = unat n" using b [OF c(1)] by blast
    with c show "\<exists>a h. l a = Some h \<and> unat a \<le> x \<and> x < unat a + held_size h" by (intro exI [of _ c] exI [of _ k]) simp
  qed
qed

text \<open>
  C1: What the kernel-side checker is told is the live memory. Under the checker, after any sequence of the hooked memory
  calls in which device memory is allocated by \<open>rtMalloc\<close> and \<open>aclrtMalloc\<close> (an ACL request of at most 4 GiB less 32
  bytes), no live address is given out again and something is still held: the list built for the kernel is disjoint
  ascending ranges, then empty padding, and the ranges are exactly the bytes the program holds, an ACL allocation being
  rounded up to blocks of 32 bytes and one more. Allocations that failed and frees through either interface are accounted
  for.
\<close>

theorem kernel_sees_live_bytes:
  assumes "sanitizing env" and "hs_mem s = init_memory_manage"
    and "program_runs es Map.empty" and "fold program_step es Map.empty = l" and "l \<noteq> Map.empty"
    and "\<forall>a h. l a = Some h \<longrightarrow> unat a + held_size h < 2 ^ 64" and "length es < 2 ^ 32"
  shows "\<exists>ms k. MergeHostMems (hs_mem (fold (hook_step env) es s)) = ms @ replicate k \<lparr>hm_addr = 0, hm_size = 0\<rparr> \<and>
           normal_ranges ms \<and> cover ms = held_bytes l"
proof -
  let ?es = "concat (map cache_events es)"
  let ?m = "fold records.run ?es init_memory_manage" and ?l = "fold live_step ?es Map.empty"
  have "held_as Map.empty Map.empty" by (simp add: held_as_def)
  from program_runs_held [OF assms(3) this] have h: "held_as l ?l" "length ?es < 2 ^ 32"
    and f: "fresh_all (\<lambda>k. IsSameMemInfoSrc k ACL) (\<lambda>a. True) ?es (live_records ACL init_memory_manage)"
    using assms(4,7) by (simp_all add: live_records_init)
  have m: "hs_mem (fold (hook_step env) es s) = ?m" using hook_run_mem [OF assms(1)] assms(2) by simp
  note r = records.run_all [OF cache_inv_init f, unfolded live_records_init]
  have o: "only_class ACL init_memory_manage" and z: "length (mm_infos init_memory_manage) = 0"
    by (simp_all add: only_class_def init_memory_manage_def)
  note q = only_class_run_all [OF cache_inv_init f o]
  have len: "length (mm_infos ?m) < 2 ^ 32" using q z h(2) by simp
  obtain a0 where "l a0 \<noteq> None" using assms(5) by fastforce
  then have "?l a0 \<noteq> None" using held_as_None [OF h(1)] by simp
  then have ne: "?l \<noteq> Map.empty" by fastforce
  have "no_wrap a n" if n: "?l a = Some n" for a n
  proof -
    obtain x where "l a = Some x" "held_size x = unat n"
      using h(1) [unfolded held_as_def, rule_format, of a] n by (cases "l a") auto
    moreover from this have "unat a + held_size x < 2 ^ 64" using assms(6) by blast
    ultimately show ?thesis by (simp add: no_wrap_def)
  qed
  then have w: "\<forall>a n. ?l a = Some n \<longrightarrow> no_wrap a n" by blast
  show ?thesis
    unfolding m held_bytes_live [OF h(1)]
    by (rule merge_live [OF conjunct1 [OF r] conjunct1 [OF q] len conjunct2 [OF r] ne w])
qed

definition demo_env_of :: "ToolType \<Rightarrow> ((ptr \<Rightarrow> u8 list option) \<times> ptr) hook_env" where
  "demo_env_of t = \<lparr>he_tool = selector_Set t init_selector, he_simulator = False, he_appReplay = False,
     he_lccl = False, he_api = mini_api, he_attribute = (\<lambda>_. None)\<rparr>"

definition demo_hooks :: "((ptr \<Rightarrow> u8 list option) \<times> ptr) hook_state" where
  "demo_hooks = \<lparr>hs_layers = [], hs_mem = init_memory_manage, hs_ctx = \<lparr>mc_sections = [], mc_stream = 0\<rparr>,
     hs_sent = [], hs_dev = mini_dev\<rparr>"

definition demo_calls :: "hook_event list" where
  "demo_calls = [AclMallocEv 0 0x1000 40 ACL_MEM_MALLOC_HUGE_FIRST, RtMallocEv 0 0x2000 64 RT_MEMORY_HBM,
     AclMallocEv 207001 0 8 ACL_MEM_MALLOC_HUGE_FIRST, AclMemsetEv 0x1000 40, RtFreeEv 0x1000,
     RtMallocEv 0 0x1000 16 RT_MEMORY_HBM]"

lemma demo_calls_events:
  "concat (map cache_events demo_calls) = [Alloc ACL 0x1000 (acl_record_size 40), Alloc RT 0x2000 64, Release RT 0x1000,
     Alloc RT 0x1000 16]"
  by (simp add: demo_calls_def RT_ERROR_NONE_def ACL_ERROR_NONE_def)

lemma demo_calls_held:
  "fold program_step demo_calls Map.empty = [0x2000 \<mapsto> (False, 64), 0x1000 \<mapsto> (False, 16)]"
  by (auto simp: demo_calls_def RT_ERROR_NONE_def ACL_ERROR_NONE_def fun_eq_iff)

lemma demo_calls_live:
  "fold live_step (concat (map cache_events demo_calls)) Map.empty = [0x2000 \<mapsto> 64, 0x1000 \<mapsto> 16]"
  by (auto simp: demo_calls_events fun_eq_iff)

theorem kernel_sees_live_bytes_witness:
  "\<exists>ms k. MergeHostMems (hs_mem (fold (hook_step (demo_env_of SANITIZER)) demo_calls demo_hooks)) =
       ms @ replicate k \<lparr>hm_addr = 0, hm_size = 0\<rparr> \<and> normal_ranges ms \<and>
     cover ms = held_bytes [0x2000 \<mapsto> (False, 64), 0x1000 \<mapsto> (False, 16)]"
proof (rule kernel_sees_live_bytes [OF _ _ _ demo_calls_held])
  show "program_runs demo_calls Map.empty"
    by (simp add: demo_calls_def RT_ERROR_NONE_def ACL_ERROR_NONE_def)
  show "[0x2000 \<mapsto> (False, 64), 0x1000 \<mapsto> (False, 16)] \<noteq> (Map.empty :: held)"
    by (metis fun_upd_same option.distinct(1))
  show "\<forall>a h. ([0x2000 \<mapsto> (False, 64), 0x1000 \<mapsto> (False, 16)] :: held) a = Some h \<longrightarrow> unat a + held_size h < 2 ^ 64"
    by (simp add: held_size_def)
qed (simp_all add: demo_env_of_def demo_hooks_def selector_Set_def init_selector_def IsSanitizer_def selector_Match_def
    demo_calls_def)

text \<open>
  C2: Under the profiler the sections that a replay backs up are exactly the live allocations the settings
  select: an allocation or mapping adds its section unless it failed, is peer-to-peer, or the replay mode
  excludes it, and every free or unmap drops it.
\<close>

theorem profiler_maps_live:
  assumes "profiling env" and "mc_sections (hs_ctx s) = []"
    and "fresh_all (\<lambda>k. True) (\<lambda>a. a \<noteq> 0) (concat (map (section_events env) es)) Map.empty"
  shows "ctx_wf (hs_ctx (fold (hook_step env) es s)) \<and>
         (\<lambda>a. map_option ms_size (map_of (mc_sections (hs_ctx (fold (hook_step env) es s))) a)) =
           fold live_step (concat (map (section_events env) es)) Map.empty"
proof -
  let ?st = "(hs_ctx s, hs_dev s)" and ?s' = "fold (hook_step env) es s"
  have z: "live_sections ?st = Map.empty" using assms(2) by (simp add: live_sections_def fun_eq_iff)
  have i: "(ctx_wf \<circ> fst) ?st" using assms(2) by (simp add: ctx_wf_def)
  have f: "fresh_all (\<lambda>k. True) (\<lambda>a. a \<noteq> 0) (concat (map (section_events env) es)) (live_sections ?st)"
    using assms(3) by (simp only: z)
  note r = sections.run_all [OF i f, of "he_api env", folded hook_run_ctx [OF assms(1), of es s], unfolded z]
  moreover have "live_sections (c, d) = (\<lambda>a. map_option ms_size (map_of (mc_sections c) a))" for c and d :: 'a
    by (simp add: live_sections_def fun_eq_iff)
  ultimately show ?thesis by simp
qed

theorem profiler_maps_live_witness:
  "(\<lambda>a. map_option ms_size (map_of (mc_sections (hs_ctx (fold (hook_step (demo_env_of PROF)) demo_calls demo_hooks))) a)) =
     [0x2000 \<mapsto> 64, 0x1000 \<mapsto> 16]"
proof -
  have ev: "concat (map (section_events (demo_env_of PROF)) demo_calls) =
      [Alloc () 0x1000 40, Alloc () 0x2000 64, Release () 0x1000, Alloc () 0x1000 16]"
    by (simp add: demo_calls_def section_alloc_def demo_env_of_def p2p_policy_def RT_ERROR_NONE_def ACL_SUCCESS_def)
  have p: "profiling (demo_env_of PROF)"
    by (simp add: demo_env_of_def selector_Set_def init_selector_def IsOpProf_def selector_Match_def)
  have "fold live_step [Alloc () 0x1000 40, Alloc () 0x2000 64, Release () 0x1000, Alloc () 0x1000 16] Map.empty =
      [0x2000 \<mapsto> 64, 0x1000 \<mapsto> 16]" by (auto simp: fun_eq_iff)
  then show ?thesis
    using profiler_maps_live [OF p, of demo_hooks demo_calls] by (simp add: ev) (simp add: demo_hooks_def)
qed

text \<open>An original runtime function works on the device alone.\<close>

definition on_device :: "('a \<Rightarrow> 'd \<Rightarrow> 'r \<times> 'd) \<Rightarrow> 'a \<Rightarrow> 'd hook_state \<Rightarrow> 'r \<times> 'd hook_state" where
  "on_device f args s = (let (r, d) = f args (hs_dev s) in (r, s\<lparr>hs_dev := d\<rparr>))"

lemmas entry_defs = masked_entry_def guarded_entry_def hook_def hijacked_Call_def hijacked_OriginCall_def on_device_def
  layer_Push_def layer_Pop_def ParentInCallStack_iff masks_def AclToRuntimeMap_def

text \<open>
  C3: An allocation through the ACL interface is recorded once, as an ACL allocation, although the ACL library
  allocates through the hooked runtime function: the nested entry point sees its parent on the layer stack
  and steps aside. The layer stack ends as it began.
\<close>

theorem acl_malloc_reported_once:
  assumes "sanitizing env" and "origin = Some (\<lambda>(n, pol). rtMalloc env (Some (on_device rt)) (g n) mty)"
    and "rt (g len, mty) (hs_dev s) = ((RT_ERROR_NONE, p), d)"
  shows "aclrtMallocImpl env origin len policy s =
     ((ACL_ERROR_NONE, p),
      s\<lparr>hs_mem := CacheMemory_MALLOC p ACL (acl_record_size len) True (hs_mem s),
        hs_sent := hs_sent s @ [(LocalDev, memory_message (empty_record\<lparr>hr_type := MALLOC, hr_infoSrc := ACL,
          hr_dstAddr := p, hr_memSize := acl_record_size len\<rparr>))],
        hs_dev := d\<rparr>)"
  using assms sanitizing_only [OF assms(1)]
  by (simp add: aclrtMallocImpl_def rtMalloc_def AclrtMalloc_Post_def entry_defs RT_ERROR_NONE_def ACL_ERROR_NONE_def
      Let_def)

definition demo_rt_malloc :: "u64 \<times> rtMemType \<Rightarrow> (ptr \<Rightarrow> u8 list option) \<times> ptr \<Rightarrow>
    (rtError \<times> ptr) \<times> ((ptr \<Rightarrow> u8 list option) \<times> ptr)" where
  "demo_rt_malloc a d = api_malloc mini_api (fst a) ACL_MEM_MALLOC_HUGE_FIRST d"

lemma demo_sanitizing: "sanitizing (demo_env_of SANITIZER)"
  by (simp add: demo_env_of_def selector_Set_def init_selector_def IsSanitizer_def selector_Match_def)

lemma demo_rt_malloc_value:
  "demo_rt_malloc (40, RT_MEMORY_HBM) (hs_dev demo_hooks) =
     ((RT_ERROR_NONE, 512), ((fst mini_dev)(512 \<mapsto> replicate 40 0), 768))"
  by (simp add: demo_rt_malloc_def mini_api_def demo_hooks_def mini_dev_def RT_ERROR_NONE_def ACL_SUCCESS_def)

theorem acl_malloc_reported_once_witness:
  "length (hs_sent (snd (aclrtMallocImpl (demo_env_of SANITIZER)
      (Some (\<lambda>(n, pol). rtMalloc (demo_env_of SANITIZER) (Some (on_device demo_rt_malloc)) n RT_MEMORY_HBM))
      40 ACL_MEM_MALLOC_HUGE_FIRST demo_hooks))) = 1"
  using acl_malloc_reported_once [where rt = demo_rt_malloc and g = "\<lambda>n. n" and mty = RT_MEMORY_HBM and len = 40
      and s = demo_hooks, OF demo_sanitizing refl demo_rt_malloc_value]
  by (simp add: demo_hooks_def)

text \<open>
  The entry point \<open>aclrtMallocWithCfgImpl\<close> has no guard: an allocation through it is recorded as an ACL
  and as a runtime allocation, and freeing it through \<open>aclrtFreeImpl\<close> drops only one of the two records,
  so the freed block stays valid memory for the kernel.
\<close>

lemma malloc_with_cfg_leaks:
  assumes "sanitizing env" and "hs_layers s = []" and "hs_mem s = init_memory_manage"
    and "origin = Some (\<lambda>(n, pol). rtMalloc env (Some (on_device rt)) (g n) mty)"
    and "rt (g len, mty) (hs_dev s) = ((RT_ERROR_NONE, p), d)"
    and "free = Some (\<lambda>q. rtFree env (Some (on_device rtf)) q)" and "rtf p d = (e, d')"
  shows "\<exists>it. mm_infos (hs_mem (snd (aclrtFreeImpl env free p (snd (aclrtMallocWithCfgImpl env origin len policy s))))) = [it] \<and>
             ai_addr it = p"
proof -
  let ?rt = "\<lparr>ai_addr = p, ai_length = g len, ai_src = RT, ai_desc = DEFAULT, ai_paramsNo = 0\<rparr>"
  let ?acl = "\<lparr>ai_addr = p, ai_length = acl_record_size len, ai_src = ACL, ai_desc = DEFAULT, ai_paramsNo = 0\<rparr>"
  note np = sanitizing_only [OF assms(1)]
  define m where "m = CacheMemory_MALLOC p ACL (acl_record_size len) True (CacheMemory_MALLOC p RT (g len) True init_memory_manage)"
  define sent where "sent = hs_sent s @
     [(LocalDev, memory_message (empty_record\<lparr>hr_type := MALLOC, hr_infoSrc := RT, hr_dstAddr := p, hr_memSize := g len\<rparr>)),
      (LocalDev, memory_message (empty_record\<lparr>hr_type := MALLOC, hr_infoSrc := ACL, hr_dstAddr := p,
         hr_memSize := acl_record_size len\<rparr>))]"
  have a: "snd (aclrtMallocWithCfgImpl env origin len policy s) = s\<lparr>hs_mem := m, hs_sent := sent, hs_dev := d\<rparr>"
    using assms np by (simp add: aclrtMallocWithCfgImpl_def rtMalloc_def AclrtMallocWithCfg_Post_def Malloc_Post_def
        entry_defs RT_ERROR_NONE_def ACL_ERROR_NONE_def m_def sent_def Let_def)
  have m: "mm_infos m = (if AddrInfo_less ?acl ?rt then [?acl, ?rt] else [?rt, ?acl])"
    by (simp add: m_def CacheMemory_MALLOC_def init_memory_manage_def AddrInfo_less_def less_MemInfoSrc_def)
  have "mm_infos (snd (CacheMemory_FREE p ACL m)) = (if AddrInfo_less ?acl ?rt then [?rt] else [?acl])"
    by (auto simp: CacheMemory_FREE_def m IsSameMemInfoSrc_def oset_erase_def AddrInfo_less_def less_MemInfoSrc_def)
  moreover have "hs_mem (snd (aclrtFreeImpl env free p (s\<lparr>hs_mem := m, hs_sent := sent, hs_dev := d\<rparr>))) =
      snd (CacheMemory_FREE p ACL m)"
    using assms np by (simp add: aclrtFreeImpl_def rtFree_def AclrtFree_Pre_def entry_defs Let_def)
  ultimately show ?thesis unfolding a by simp
qed

text \<open>
  The recorded size of an ACL allocation depends on the low 32 bits of its size only: an allocation
  4 GiB larger is recorded with the same size.
\<close>

lemma acl_size_truncated:
  "acl_record_size (len + 2 ^ 32) = acl_record_size len"
proof -
  have "(ucast (len + 2 ^ 32) :: u32) = ucast len"
    by (simp add: word_unat_eq_iff unsigned_ucast_eq take_bit_eq_mod unat_word_ariths mod_mod_cancel)
  then show ?thesis by (simp only: acl_record_size_def)
qed

text \<open>Row \<open>r\<close> of a plane: its address, unless it lies past the end of the address space.\<close>

definition row_record :: "MemOpType \<Rightarrow> bool \<Rightarrow> ptr \<Rightarrow> u64 \<Rightarrow> u64 \<Rightarrow> nat \<Rightarrow> (dest \<times> u8 list) list" where
  "row_record op device base pitch width r =
     (if device \<and> unat base + r * unat pitch < 2 ^ 64
      then [(LocalDev, memory_message (empty_record\<lparr>hr_infoSrc := ACL, hr_memSize := width,
               hr_type := op, hr_dstAddr := word_of_nat (unat base + r * unat pitch)\<rparr>))]
      else [])"

lemma row_address:
  fixes base pitch :: u64
  assumes "r * unat pitch < 2 ^ 64"
  shows "base \<le> UINT64_MAX - word_of_nat r * pitch \<longleftrightarrow> unat base + r * unat pitch < 2 ^ 64"
    and "base + word_of_nat r * pitch = word_of_nat (unat base + r * unat pitch)"
proof -
  have off: "word_of_nat r * pitch = word_of_nat (r * unat pitch)" by simp
  have u: "unat (word_of_nat r * pitch) = r * unat pitch"
    unfolding off using assms by (simp only: unat_of_nat) simp
  have m: "unat (UINT64_MAX - word_of_nat r * pitch) = 2 ^ 64 - 1 - r * unat pitch"
  proof -
    have "word_of_nat r * pitch \<le> UINT64_MAX" using assms unfolding word_le_nat_alt u by simp
    then show ?thesis unfolding unat_sub [OF \<open>word_of_nat r * pitch \<le> UINT64_MAX\<close>] u by simp
  qed
  show "base \<le> UINT64_MAX - word_of_nat r * pitch \<longleftrightarrow> unat base + r * unat pitch < 2 ^ 64"
    unfolding word_le_nat_alt m using assms by linarith
  show "base + word_of_nat r * pitch = word_of_nat (unat base + r * unat pitch)" by simp
qed

lemma copy2d_row_sent:
  assumes "r * unat dpitch < 2 ^ 64" and "r * unat spitch < 2 ^ 64"
  shows "hs_sent (copy2d_row dst dpitch src spitch width kind r s) = hs_sent s @
     row_record STORE (kind = ACL_MEMCPY_HOST_TO_DEVICE \<or> kind = ACL_MEMCPY_DEVICE_TO_DEVICE) dst dpitch width r @
     row_record LOAD (kind = ACL_MEMCPY_DEVICE_TO_HOST \<or> kind = ACL_MEMCPY_DEVICE_TO_DEVICE) src spitch width r"
  unfolding copy2d_row_def row_record_def
  using row_address [OF assms(1), of dst] row_address [OF assms(2), of src]
  by (simp add: Let_def del: of_nat_add of_nat_mult)

lemma copy2d_rows_sent:
  assumes "\<forall>r \<in> set rs. r * unat dpitch < 2 ^ 64 \<and> r * unat spitch < 2 ^ 64"
  shows "hs_sent (fold (copy2d_row dst dpitch src spitch width kind) rs s) = hs_sent s @ concat (map (\<lambda>r.
     row_record STORE (kind = ACL_MEMCPY_HOST_TO_DEVICE \<or> kind = ACL_MEMCPY_DEVICE_TO_DEVICE) dst dpitch width r @
     row_record LOAD (kind = ACL_MEMCPY_DEVICE_TO_HOST \<or> kind = ACL_MEMCPY_DEVICE_TO_DEVICE) src spitch width r) rs)"
  using assms by (induction rs arbitrary: s) (simp_all add: copy2d_row_sent)

text \<open>
  A two-dimensional copy is reported row by row at the exact addresses: each row of the destination that
  the copy writes on the device as a store and each row of the source it reads there as a load, rows past
  the end of the address space left out, and the height cut at its bound.
\<close>

lemma copy2d_reports_rows:
  assumes "sanitizing env" and "unat height * unat dpitch < 2 ^ 64" and "unat height * unat spitch < 2 ^ 64"
  shows "hs_sent (AclrtMemcpy2d_Pre env dst dpitch src spitch width height kind s) = hs_sent s @ concat (map (\<lambda>r.
     row_record STORE (kind = ACL_MEMCPY_HOST_TO_DEVICE \<or> kind = ACL_MEMCPY_DEVICE_TO_DEVICE) dst dpitch width r @
     row_record LOAD (kind = ACL_MEMCPY_DEVICE_TO_HOST \<or> kind = ACL_MEMCPY_DEVICE_TO_DEVICE) src spitch width r)
     [0..<min (unat height) (60 * 2 ^ 30)])"
proof -
  have h: "unat (if height > MAX_MEMORY_RECORD_HEIGHT then MAX_MEMORY_RECORD_HEIGHT else height) = min (unat height) (60 * 2 ^ 30)"
    by (simp add: MAX_MEMORY_RECORD_HEIGHT_def word_less_nat_alt min_def)
  have b: "r * p < 2 ^ 64" if "r < unat height" "unat height * p < 2 ^ 64" for r p :: nat
    using that mult_le_mono1 [of r "unat height" p] by linarith
  have "\<forall>r \<in> set [0..<min (unat height) (60 * 2 ^ 30)]. r * unat dpitch < 2 ^ 64 \<and> r * unat spitch < 2 ^ 64"
    using b [OF _ assms(2)] b [OF _ assms(3)] by (auto simp: min_def split: if_splits)
  from copy2d_rows_sent [OF this] show ?thesis
    unfolding AclrtMemcpy2d_Pre_def Let_def h using assms(1) by simp
qed

end
