(* ===== verification/OpReport.thy ===== *)
theory OpReport
  imports MemHooks MetaData ElfLoader
begin

text \<open>
  What is reported around a kernel launch: the free functions of
  \<open>csrc/runtime/inject_helpers/MemoryDataCollect.cpp\<close> (tensors, second-level pointers, tiling data, sections,
  overflow buffer), with the second-level pointer parsers of \<open>ArgsManager.cpp\<close> and \<open>KernelContext.cpp\<close> and
  the shared-memory context they read. The argument buffer is its list of 64-bit words; a read outside
  it is \<open>None\<close>.
\<close>

section \<open>Single reports\<close>

definition ReportMalloc :: "u64 \<Rightarrow> u64 \<Rightarrow> MemInfoSrc \<Rightarrow> MemInfoDesc \<Rightarrow> u64 \<Rightarrow> 'd hook_state \<Rightarrow> 'd hook_state" where
  "ReportMalloc addr len src desc paramsNo s =
     send_record (empty_record\<lparr>hr_type := MALLOC, hr_infoSrc := src, hr_dstAddr := addr, hr_memSize := len,
       hr_infoDesc := desc, hr_paramsNo := paramsNo\<rparr>) (cache_malloc addr src len s)"

definition ReportFree :: "u64 \<Rightarrow> MemInfoSrc \<Rightarrow> MemInfoDesc \<Rightarrow> u64 \<Rightarrow> 'd hook_state \<Rightarrow> 'd hook_state" where
  "ReportFree addr src desc paramsNo s =
     send_record (empty_record\<lparr>hr_type := FREE, hr_infoSrc := src, hr_dstAddr := addr, hr_infoDesc := desc,
       hr_paramsNo := paramsNo\<rparr>) (cache_free addr src s)"

definition ReportMemset :: "u64 \<Rightarrow> u64 \<Rightarrow> MemInfoSrc \<Rightarrow> MemInfoDesc \<Rightarrow> u64 \<Rightarrow> 'd hook_state \<Rightarrow> 'd hook_state" where
  "ReportMemset addr len src desc paramsNo s =
     send_record (empty_record\<lparr>hr_type := STORE, hr_infoSrc := src, hr_dstAddr := addr, hr_memSize := len,
       hr_infoDesc := desc, hr_paramsNo := paramsNo\<rparr>) s"

section \<open>Sections and the overflow buffer\<close>

definition section_malloc :: "u64 \<Rightarrow> Elf64_Shdr \<Rightarrow> 'd hook_state \<Rightarrow> 'd hook_state" where
  "section_malloc pcStartAddr header s =
     (let record = empty_record\<lparr>hr_type := MALLOC, hr_infoSrc := BYPASS, hr_dstAddr := pcStartAddr + sh_addr header,
            hr_memSize := sh_size header, hr_infoDesc := SECTION\<rparr>;
          s1 = send_record record (cache_malloc (hr_dstAddr record) BYPASS (hr_memSize record) s)
      in send_record (record\<lparr>hr_type := STORE\<rparr>) s1)"

definition ReportSectionsMalloc :: "u64 \<Rightarrow> Elf64_Shdr list \<Rightarrow> 'd hook_state \<Rightarrow> 'd hook_state" where
  "ReportSectionsMalloc pcStartAddr headers s =
     (if pcStartAddr = 0 then s else fold (section_malloc pcStartAddr) headers s)"

definition section_free :: "u64 \<Rightarrow> Elf64_Shdr \<Rightarrow> 'd hook_state \<Rightarrow> 'd hook_state" where
  "section_free pcStartAddr header s =
     (if pcStartAddr > UINT64_MAX - sh_addr header then s
      else let record = empty_record\<lparr>hr_type := FREE, hr_infoSrc := BYPASS,
                 hr_dstAddr := pcStartAddr + sh_addr header, hr_infoDesc := SECTION\<rparr>
           in send_record record (cache_free (hr_dstAddr record) BYPASS s))"

definition ReportSectionsFree :: "u64 \<Rightarrow> Elf64_Shdr list \<Rightarrow> 'd hook_state \<Rightarrow> 'd hook_state" where
  "ReportSectionsFree pcStartAddr headers s =
     (if pcStartAddr = 0 then s else fold (section_free pcStartAddr) headers s)"

definition ReportOverflowMalloc :: "OpMemInfo \<Rightarrow> 'd hook_state \<Rightarrow> 'd hook_state" where
  "ReportOverflowMalloc om s =
     (if \<not> om_hasOverflowAddr om \<or> om_overflowAddr om = 0 then s
      else ReportMalloc (om_overflowAddr om) 512 BYPASS OVERFLOW_ADDR 0 s)"

definition ReportOverflowFree :: "OpMemInfo \<Rightarrow> 'd hook_state \<Rightarrow> 'd hook_state" where
  "ReportOverflowFree om s =
     (if \<not> om_hasOverflowAddr om \<or> om_overflowAddr om = 0 then s
      else ReportFree (om_overflowAddr om) BYPASS OVERFLOW_ADDR 0 s)"

section \<open>Second-level pointers\<close>

definition word_at :: "u64 list \<Rightarrow> nat \<Rightarrow> u64 option" where
  "word_at ws i = (if i < length ws then Some (ws ! i) else None)"

primrec shape_product :: "u64 list \<Rightarrow> nat \<Rightarrow> nat \<Rightarrow> u64 \<Rightarrow> u64 option" where
  "shape_product ws pos 0 acc = Some acc"
| "shape_product ws pos (Suc n) acc =
     (case word_at ws pos of None \<Rightarrow> None | Some d \<Rightarrow> shape_product ws (Suc pos) n (acc * d))"

text \<open>
  The loop over the dimension words of one host input: \<open>base\<close> is the index of its first word, which holds
  \<open>8 * ptrOffset\<close>; \<open>dimIdx\<close> counts the words after it and \<open>ptrIdx\<close> the pointers at \<open>ptrOffset\<close>.
\<close>

function second_ptr_loop ::
  "(u64 \<Rightarrow> u64 \<Rightarrow> nat \<Rightarrow> AddrInfo) \<Rightarrow> u64 list \<Rightarrow> nat \<Rightarrow> nat \<Rightarrow> nat \<Rightarrow> nat \<Rightarrow> AddrInfo list \<Rightarrow> AddrInfo list option" where
  "second_ptr_loop mk ws base ptrOffset dimIdx ptrIdx vec =
     (if ptrOffset > 0 \<and> dimIdx < ptrOffset - 1 then
        (case word_at ws (base + 1 + dimIdx) of
           None \<Rightarrow> None
         | Some dimCnt \<Rightarrow>
             let dim = unat (dimCnt AND 0xFFFFFFFF) in
             (case shape_product ws (base + 1 + (dimIdx + 1)) dim 1 of
                None \<Rightarrow> None
              | Some totalDim \<Rightarrow>
                  (case word_at ws (base + (ptrOffset + ptrIdx)) of
                     None \<Rightarrow> None
                   | Some addr \<Rightarrow>
                       second_ptr_loop mk ws base ptrOffset (dimIdx + 1 + dim) (ptrIdx + 1)
                         (vec @ [mk addr totalDim ptrIdx]))))
      else Some vec)"
  by pat_completeness auto
termination
  by (relation "measure (\<lambda>(mk, ws, base, ptrOffset, dimIdx, ptrIdx, vec). ptrOffset - dimIdx)") auto

declare second_ptr_loop.simps [simp del]

fun second_ptr_scan ::
  "(u64 \<Rightarrow> u64 \<Rightarrow> nat \<Rightarrow> AddrInfo) \<Rightarrow> u64 list \<Rightarrow> nat \<Rightarrow> (u32 \<times> u32) list \<Rightarrow> AddrInfo list \<Rightarrow> AddrInfo list option" where
  "second_ptr_scan mk ws index [] vec = Some vec"
| "second_ptr_scan mk ws index ((addrOffset, dataOffset) # hs) vec =
     (if unat addrOffset div 8 \<noteq> index then second_ptr_scan mk ws index hs vec
      else let base = unat dataOffset div 8 in
        (case word_at ws base of
           None \<Rightarrow> None
         | Some w \<Rightarrow>
             (case second_ptr_loop mk ws base (unat w div 8) 0 0 vec of
                None \<Rightarrow> None
              | Some vec1 \<Rightarrow> second_ptr_scan mk ws index hs vec1)))"

text \<open>\<open>hosts\<close> is the array of placeholders (host inputs), \<open>None\<close> for a null pointer.\<close>

definition second_ptrs_of ::
  "(u64 \<Rightarrow> u64 \<Rightarrow> u64 \<Rightarrow> nat \<Rightarrow> AddrInfo) \<Rightarrow> u64 list \<Rightarrow> (u32 \<times> u32) list option \<Rightarrow> OpMemInfo \<Rightarrow> nat \<Rightarrow> OpMemInfo option" where
  "second_ptrs_of mk ws hosts om index =
     (case map_of (om_secondPtr om) (word_of_nat index) of
        None \<Rightarrow> Some om
      | Some info \<Rightarrow>
          (case hosts of
             None \<Rightarrow> Some om
           | Some hs \<Rightarrow>
               (case second_ptr_scan (mk (sp_dtypeBytes info)) ws index hs (sp_addrInfoVec info) of
                  None \<Rightarrow> None
                | Some vec \<Rightarrow> Some (om\<lparr>om_secondPtr :=
                    omap_put (word_of_nat index) (info\<lparr>sp_addrInfoVec := vec\<rparr>) (om_secondPtr om)\<rparr>))))"

definition ParseSecondPtrAddrs :: "u64 list \<Rightarrow> (u32 \<times> u32) list option \<Rightarrow> OpMemInfo \<Rightarrow> nat \<Rightarrow> OpMemInfo option" where
  "ParseSecondPtrAddrs = second_ptrs_of (\<lambda>dtypeBytes addr totalDim ptrIdx.
     \<lparr>ai_addr = addr, ai_length = totalDim * dtypeBytes, ai_src = EXTRA, ai_desc = DEFAULT, ai_paramsNo = 0\<rparr>)"

definition ParseSecondPtrAddrs_rt :: "u64 list \<Rightarrow> (u32 \<times> u32) list option \<Rightarrow> OpMemInfo \<Rightarrow> nat \<Rightarrow> OpMemInfo option" where
  "ParseSecondPtrAddrs_rt = second_ptrs_of (\<lambda>dtypeBytes addr totalDim ptrIdx.
     \<lparr>ai_addr = addr, ai_length = totalDim * dtypeBytes, ai_src = EXTRA, ai_desc = DOUBLE_PTR,
      ai_paramsNo = word_of_nat ptrIdx + 1\<rparr>)"

section \<open>The shared-memory context\<close>

text \<open>The fields of the context the parser reads; the windows are arrays of \<open>HCCL_MAX_RANK_NUM\<close> addresses.\<close>

record HcclCombinOpParam =
  hc_rankNum :: u32
  hc_winSize :: u64
  hc_windowsIn :: "u64 list"
  hc_windowsOut :: "u64 list"
  hc_multiFlag :: u8

text \<open>
  Where the report is made: the flags of the operator and the manager, the current device, the context
  copied from a device address (\<open>None\<close> when the host allocation or the copy fails), and the chip name.
\<close>

record op_env =
  oe_mc2Ctx :: bool
  oe_throughAdump :: bool
  oe_deviceId :: int
  oe_readCtx :: "u64 \<Rightarrow> HcclCombinOpParam option"
  oe_socVersion :: string

fun mc2_windows :: "op_env \<Rightarrow> HcclCombinOpParam \<Rightarrow> nat list \<Rightarrow> AddrInfo list \<Rightarrow> AddrInfo list option" where
  "mc2_windows env p [] out = Some out"
| "mc2_windows env p (i # is) out =
     (if \<not> oe_throughAdump env \<and> (word_of_int (oe_deviceId env) :: u64) = word_of_nat i then mc2_windows env p is out
      else if i < length (hc_windowsIn p) \<and> i < length (hc_windowsOut p) then
        let src = (if oe_throughAdump env then EXTRA else BYPASS);
            win = (\<lambda>a. \<lparr>ai_addr = a, ai_length = hc_winSize p, ai_src = src, ai_desc = HCCL_MC2_CONTEXT, ai_paramsNo = 0\<rparr>)
        in mc2_windows env p is (out @ [win (hc_windowsIn p ! i), win (hc_windowsOut p ! i)])
      else None)"

definition ParseMc2CtxAddrs :: "op_env \<Rightarrow> u64 \<Rightarrow> AddrInfo list option" where
  "ParseMc2CtxAddrs env addr =
     (case oe_readCtx env addr of
        None \<Rightarrow> Some []
      | Some p \<Rightarrow> if hc_multiFlag p \<noteq> 0 then Some [] else mc2_windows env p [0..<unat (hc_rankNum p)] [])"

section \<open>Deduplication\<close>

text \<open>The order of first appearance and the entry kept for each address.\<close>

type_synonym addr_table = "u64 list \<times> (u64 \<rightharpoonup> AddrInfo)"

definition updateAddrInfos :: "AddrInfo \<Rightarrow> addr_table \<Rightarrow> addr_table" where
  "updateAddrInfos info t =
     (let (order, m) = t in
      case m (ai_addr info) of
        None \<Rightarrow> (order @ [ai_addr info], m(ai_addr info \<mapsto> info))
      | Some d \<Rightarrow>
          (order, if ai_length info > ai_length d then m(ai_addr info \<mapsto> d\<lparr>ai_length := ai_length info\<rparr>) else m))"

definition ProcessMc2CtxAddr :: "op_env \<Rightarrow> nat \<Rightarrow> u64 \<Rightarrow> addr_table \<Rightarrow> (bool \<times> addr_table) option" where
  "ProcessMc2CtxAddr env index addr t =
     (if \<not> oe_mc2Ctx env \<or> index \<noteq> 0 then Some (True, t)
      else case ParseMc2CtxAddrs env addr of
        None \<Rightarrow> None
      | Some infos \<Rightarrow>
          let t1 = fold updateAddrInfos infos t
          in if oe_throughAdump env then Some (True, t1) else Some (False, t1))"

fun op_inputs_loop ::
  "op_env \<Rightarrow> u64 list \<Rightarrow> (AddrInfo \<Rightarrow> AddrInfo) \<Rightarrow> (OpMemInfo \<Rightarrow> nat \<Rightarrow> OpMemInfo option) \<Rightarrow> nat \<Rightarrow> AddrInfo list \<Rightarrow>
   AddrInfo list \<Rightarrow> OpMemInfo \<Rightarrow> addr_table \<Rightarrow> (OpMemInfo \<times> addr_table) option" where
  "op_inputs_loop env ws fix_no second index [] seen om t = Some (om\<lparr>om_inputs := seen\<rparr>, t)"
| "op_inputs_loop env ws fix_no second index (it # its) seen om t =
     (case word_at ws (unat (om_skipNum om) + index) of
        None \<Rightarrow> None
      | Some addr \<Rightarrow>
          let it1 = fix_no (it\<lparr>ai_addr := addr\<rparr>) in
          (case second om index of
             None \<Rightarrow> None
           | Some om1 \<Rightarrow>
               (case ProcessMc2CtxAddr env index addr t of
                  None \<Rightarrow> None
                | Some (keep, t1) \<Rightarrow>
                    op_inputs_loop env ws fix_no second (index + 1) its (seen @ [it1]) om1
                      (if keep then updateAddrInfos it1 t1 else t1))))"

definition unique_infos :: "addr_table \<Rightarrow> AddrInfo list" where
  "unique_infos t =
     (let (order, m) = t in
      map (\<lambda>a. let d = the (m a) in (d\<lparr>ai_addr := a\<rparr>))
        (filter (\<lambda>a. case m a of None \<Rightarrow> False | Some d \<Rightarrow> ai_addr d \<noteq> 0 \<and> ai_length d \<noteq> 0) order))"

definition report_tensor :: "AddrInfo \<Rightarrow> 'd hook_state \<Rightarrow> 'd hook_state" where
  "report_tensor it s =
     ReportMemset (ai_addr it) (ai_length it) (ai_src it) (ai_desc it) (ai_paramsNo it)
       (ReportMalloc (ai_addr it) (ai_length it) (ai_src it) (ai_desc it) (ai_paramsNo it) s)"

text \<open>The part both variants share: up to the tensors' reports.\<close>

definition report_tensors ::
  "op_env \<Rightarrow> u64 list \<Rightarrow> (AddrInfo \<Rightarrow> AddrInfo) \<Rightarrow> (OpMemInfo \<Rightarrow> nat \<Rightarrow> OpMemInfo option) \<Rightarrow> OpMemInfo \<Rightarrow> 'd hook_state \<Rightarrow>
   (OpMemInfo \<times> 'd hook_state) option" where
  "report_tensors env ws fix_no second om s =
     (case op_inputs_loop env ws fix_no second 0 (om_inputs om) [] om ([], Map.empty) of
        None \<Rightarrow> None
      | Some (om1, t) \<Rightarrow>
          let t1 = fold updateAddrInfos (concat (map (\<lambda>(k, info). sp_addrInfoVec info) (om_secondPtr om1))) t;
              om2 = om1\<lparr>om_unique := om_unique om1 @ unique_infos t1\<rparr>
          in Some (om2, fold report_tensor (om_unique om2) s))"

definition report_tiling :: "u64 \<Rightarrow> u64 \<Rightarrow> 'd hook_state \<Rightarrow> 'd hook_state" where
  "report_tiling tilingAddr tilingSize s =
     ReportMemset tilingAddr tilingSize BYPASS TILING 0 (ReportMalloc tilingAddr tilingSize BYPASS TILING 0 s)"

definition ceil32 :: "u64 \<Rightarrow> u64" where
  "ceil32 n = (n + 31) div 32 * 32"

section \<open>Launches\<close>

record rtArgsEx =
  ra_args :: "u64 list option"
  ra_hostInputs :: "(u32 \<times> u32) list option"
  ra_argsSize :: u32
  ra_tilingAddrOffset :: u32
  ra_tilingDataOffset :: u32
  ra_hasTiling :: bool

definition ReportOpMallocInfo_rt ::
  "op_env \<Rightarrow> rtArgsEx option \<Rightarrow> OpMemInfo \<Rightarrow> 'd hook_state \<Rightarrow> (OpMemInfo \<times> 'd hook_state) option" where
  "ReportOpMallocInfo_rt env argsInfo om s =
     (case argsInfo of
        None \<Rightarrow> Some (om, s)
      | Some ai \<Rightarrow>
          (case ra_args ai of
             None \<Rightarrow> Some (om, s)
           | Some ws \<Rightarrow>
               let sub = (\<lambda>it. it\<lparr>ai_paramsNo := ai_paramsNo it -
                      ucast (om_skipNum om + (if oe_mc2Ctx env then 1 else 0))\<rparr>) in
               (case report_tensors env ws sub (ParseSecondPtrAddrs_rt ws (ra_hostInputs ai)) om s of
                  None \<Rightarrow> None
                | Some (om1, s1) \<Rightarrow>
                    if \<not> ra_hasTiling ai then Some (om1, s1)
                    else (case word_at ws (unat (ra_tilingAddrOffset ai) div 8) of
                        None \<Rightarrow> None
                      | Some tilingAddr \<Rightarrow>
                          if ra_argsSize ai < ra_tilingDataOffset ai then Some (om1, s1)
                          else let tilingSize = ceil32 (max (ucast (ra_argsSize ai - ra_tilingDataOffset ai)) (om_tilingDataSize om1))
                               in Some (om1\<lparr>om_unique := \<lparr>ai_addr = tilingAddr, ai_length = tilingSize, ai_src = BYPASS,
                                          ai_desc = TILING, ai_paramsNo = 0\<rparr> # om_unique om1\<rparr>,
                                        report_tiling tilingAddr tilingSize s1)))))"

text \<open>\<open>lp_placeHolders\<close> is the array with its element count; \<open>None\<close> for a null pointer.\<close>

record AclrtLaunchArgsInfo =
  lp_hostArgs :: "u64 list option"
  lp_argsSize :: u64
  lp_placeHolders :: "(u32 \<times> u32) list option"
  lp_placeHolderNum :: u64

definition NeedOverflowStatus :: "string \<Rightarrow> bool" where
  "NeedOverflowStatus socVersion \<longleftrightarrow> str_contains socVersion ''Ascend310P'' \<or> str_contains socVersion ''Ascend310p''"

text \<open>The placeholder with the largest address offset is the tiling one.\<close>

definition tiling_offsets :: "(u32 \<times> u32) list \<Rightarrow> u32 \<times> u32" where
  "tiling_offsets hs = fold (\<lambda>(ao, do) (tao, tdo). if ao > tao then (ao, do) else (tao, tdo)) hs (0, 0)"

definition ReportOpMallocInfo ::
  "op_env \<Rightarrow> AclrtLaunchArgsInfo \<Rightarrow> OpMemInfo \<Rightarrow> 'd hook_state \<Rightarrow> (OpMemInfo \<times> 'd hook_state) option" where
  "ReportOpMallocInfo env la om s =
     (case lp_hostArgs la of
        None \<Rightarrow> Some (om, s)
      | Some ws \<Rightarrow>
          (case report_tensors env ws (\<lambda>it. it) (ParseSecondPtrAddrs ws (lp_placeHolders la)) om s of
             None \<Rightarrow> None
           | Some (om1, s1) \<Rightarrow>
               if lp_placeHolderNum la = 0 then Some (om1, s1)
               else (case lp_placeHolders la of
                   None \<Rightarrow> None
                 | Some hs \<Rightarrow>
                     let (tao, tdo) = tiling_offsets hs in
                     (case word_at ws (unat tao div 8) of
                        None \<Rightarrow> None
                      | Some tilingAddr \<Rightarrow>
                          let argsSize = lp_argsSize la - ucast tdo - (if NeedOverflowStatus (oe_socVersion env) then 8 else 0);
                              tilingSize = ceil32 (max argsSize (om_tilingDataSize om1))
                          in Some (om1\<lparr>om_unique := \<lparr>ai_addr = tilingAddr, ai_length = tilingSize, ai_src = BYPASS,
                                     ai_desc = DEFAULT, ai_paramsNo = 0\<rparr> # om_unique om1\<rparr>,
                                   report_tiling tilingAddr tilingSize s1)))))"

definition ReportOpFreeInfo :: "OpMemInfo \<Rightarrow> 'd hook_state \<Rightarrow> OpMemInfo \<times> 'd hook_state" where
  "ReportOpFreeInfo om s =
     (let s1 = fold (\<lambda>it. ReportFree (ai_addr it) (ai_src it) (ai_desc it) (ai_paramsNo it)) (om_unique om) s
      in (OpMemInfo_Clear om, s1\<lparr>hs_mem := UpdateMemoryOp (hs_mem s1)\<rparr>))"

section \<open>Sections\<close>

definition section_item :: "u64 \<Rightarrow> Elf64_Shdr \<Rightarrow> item" where
  "section_item pc h = (pc + sh_addr h, BYPASS, sh_size h)"

lemma sections_malloc_mem: "hs_mem (fold (section_malloc pc) hs s) = fold item_malloc (map (section_item pc) hs) (hs_mem s)"
  by (induction hs arbitrary: s) (simp_all add: section_malloc_def Let_def item_malloc_def section_item_def)

lemma sections_free_mem:
  "\<forall>h \<in> set hs. pc \<le> UINT64_MAX - sh_addr h \<Longrightarrow>
   hs_mem (fold (section_free pc) hs s) = fold item_free (map (section_item pc) hs) (hs_mem s)"
  by (induction hs arbitrary: s) (simp_all add: section_free_def Let_def item_free_def section_item_def leD)

definition section_record :: "MemOpType \<Rightarrow> u64 \<Rightarrow> u64 \<Rightarrow> dest \<times> u8 list" where
  "section_record op addr len = (LocalDev, memory_message (empty_record\<lparr>hr_type := op, hr_infoSrc := BYPASS,
     hr_dstAddr := addr, hr_memSize := len, hr_infoDesc := SECTION\<rparr>))"

lemma sections_malloc_sent: "hs_sent (fold (section_malloc pc) hs s) = hs_sent s @
    concat (map (\<lambda>h. [section_record MALLOC (pc + sh_addr h) (sh_size h), section_record STORE (pc + sh_addr h) (sh_size h)]) hs)"
  by (induction hs arbitrary: s) (simp_all add: section_malloc_def Let_def section_record_def empty_record_def)

lemma sections_free_sent:
  "\<forall>h \<in> set hs. pc \<le> UINT64_MAX - sh_addr h \<Longrightarrow>
   hs_sent (fold (section_free pc) hs s) = hs_sent s @ map (\<lambda>h. section_record FREE (pc + sh_addr h) 0) hs"
  by (induction hs arbitrary: s) (simp_all add: section_free_def Let_def section_record_def empty_record_def leD)

section \<open>Tensors\<close>

definition info_item :: "AddrInfo \<Rightarrow> item" where
  "info_item it = (ai_addr it, ai_src it, ai_length it)"

lemma report_tensors_mem: "hs_mem (fold report_tensor its s) = fold item_malloc (map info_item its) (hs_mem s)"
  by (induction its arbitrary: s)
    (simp_all add: report_tensor_def ReportMemset_def ReportMalloc_def item_malloc_def info_item_def)

lemma report_frees_mem:
  "hs_mem (fold (\<lambda>it. ReportFree (ai_addr it) (ai_src it) (ai_desc it) (ai_paramsNo it)) its s) =
   fold item_free (map info_item its) (hs_mem s)"
  by (induction its arbitrary: s) (simp_all add: ReportFree_def item_free_def info_item_def)

lemma report_tiling_mem: "hs_mem (report_tiling a n s) = item_malloc (a, BYPASS, n) (hs_mem s)"
  by (simp add: report_tiling_def ReportMemset_def ReportMalloc_def item_malloc_def)

text \<open>The tensors' part reports what it lists; the tiling entry comes first in the list and last in the reports.\<close>

lemma second_ptrs_of_unique: "second_ptrs_of mk ws hs om i = Some om1 \<Longrightarrow> om_unique om1 = om_unique om"
  by (auto simp: second_ptrs_of_def split: option.splits)

lemma op_inputs_loop_unique:
  assumes "\<And>om i om1. second om i = Some om1 \<Longrightarrow> om_unique om1 = om_unique om"
  shows "op_inputs_loop env ws fn second i its seen om t = Some (om1, t1) \<Longrightarrow> om_unique om1 = om_unique om"
proof (induction its arbitrary: i seen om t)
  case (Cons it its)
  then obtain om' where "second om i = Some om'" "om_unique om1 = om_unique om'"
    by (auto simp: Let_def split: option.splits prod.splits)
  then show ?case using assms by simp
qed auto

lemma report_tensors_unique:
  assumes "report_tensors env ws fn (second_ptrs_of mk ws hs) om s = Some (om1, s1)"
  shows "s1 = fold report_tensor (om_unique om1) s"
  using assms by (auto simp: report_tensors_def Let_def split: option.splits prod.splits)

lemma ReportOpMallocInfo_cases:
  assumes "ReportOpMallocInfo env la om s = Some (om1, s1)"
  obtains (null) "om1 = om" and "s1 = s" and "lp_hostArgs la = None"
    | (tensors) ws where "lp_hostArgs la = Some ws" and "s1 = fold report_tensor (om_unique om1) s"
    | (tiling) ws ts a n where "lp_hostArgs la = Some ws"
        and "om_unique om1 = \<lparr>ai_addr = a, ai_length = n, ai_src = BYPASS, ai_desc = DEFAULT, ai_paramsNo = 0\<rparr> # ts"
        and "s1 = report_tiling a n (fold report_tensor ts s)"
proof (cases "lp_hostArgs la")
  case None
  then show ?thesis using assms null by (simp add: ReportOpMallocInfo_def)
next
  case (Some ws)
  then obtain om' s' where r: "report_tensors env ws (\<lambda>it. it) (ParseSecondPtrAddrs ws (lp_placeHolders la)) om s = Some (om', s')"
    using assms by (auto simp: ReportOpMallocInfo_def split: option.splits)
  have s': "s' = fold report_tensor (om_unique om') s"
    using report_tensors_unique r unfolding ParseSecondPtrAddrs_def by blast
  show ?thesis
  proof (cases "lp_placeHolderNum la = 0")
    case True
    then show ?thesis using assms Some r s' by (auto simp: ReportOpMallocInfo_def intro: tensors)
  next
    case False
    then show ?thesis using assms Some r s'
      by (auto simp: ReportOpMallocInfo_def Let_def split: option.splits prod.splits intro!: tiling [OF Some])
  qed
qed

section \<open>Balance of the reports around a launch\<close>

lemma section_item_apart:
  "sh_addr h \<noteq> sh_addr h' \<Longrightarrow> apart (section_item pc h) (section_item pc h')"
  by (auto simp: apart_def item_hits_def item_record_def section_item_def)

lemma section_items_apart: "distinct (map sh_addr hs) \<Longrightarrow> sorted_wrt apart (map (section_item pc) hs)"
proof (induction hs)
  case (Cons h hs)
  then show ?case using section_item_apart by fastforce
qed simp

lemma IsSame_BYPASS: "IsSameMemInfoSrc k BYPASS \<longleftrightarrow> k = BYPASS"
  by (auto simp: IsSameMemInfoSrc_def)

text \<open>
  Reporting the sections of a kernel before a launch and releasing them after it restores the allocation
  cache, and the device is sent an allocation and a write for every section in table order, then the frees in
  the same order, provided the section addresses are distinct, do not wrap and are not in the cache.
\<close>

lemma sections_balanced:
  assumes "sorted_wrt AddrInfo_less (mm_infos (hs_mem s))" and "pc \<noteq> 0" and "distinct (map sh_addr hs)"
    and "\<forall>h \<in> set hs. pc \<le> UINT64_MAX - sh_addr h"
    and "\<forall>h \<in> set hs. \<forall>it \<in> set (mm_infos (hs_mem s)). ai_addr it = pc + sh_addr h \<longrightarrow> ai_src it \<noteq> BYPASS"
  shows "hs_mem (ReportSectionsFree pc hs (ReportSectionsMalloc pc hs s)) = hs_mem s \<and>
         hs_sent (ReportSectionsFree pc hs (ReportSectionsMalloc pc hs s)) = hs_sent s @
           concat (map (\<lambda>h. [section_record MALLOC (pc + sh_addr h) (sh_size h),
                             section_record STORE (pc + sh_addr h) (sh_size h)]) hs) @
           map (\<lambda>h. section_record FREE (pc + sh_addr h) 0) hs"
proof
  note ap = section_items_apart [OF assms(3), of pc]
  have "\<forall>i \<in> set (map (section_item pc) hs). \<forall>it \<in> set (mm_infos (hs_mem s)). \<not> item_hits i it"
    using assms(5) by (auto simp: item_hits_def section_item_def IsSame_BYPASS)
  then have "fold item_free (map (section_item pc) hs) (fold item_malloc (map (section_item pc) hs) (hs_mem s)) = hs_mem s"
    by (intro items_balanced [OF assms(1) _ ap ap refl refl])
  then show "hs_mem (ReportSectionsFree pc hs (ReportSectionsMalloc pc hs s)) = hs_mem s"
    using assms(2) by (simp add: ReportSectionsFree_def ReportSectionsMalloc_def sections_free_mem [OF assms(4)] sections_malloc_mem)
qed (use assms(2) in \<open>simp add: ReportSectionsFree_def ReportSectionsMalloc_def sections_free_sent [OF assms(4)] sections_malloc_sent\<close>)

definition demo_header :: "u64 \<Rightarrow> u64 \<Rightarrow> Elf64_Shdr" where
  "demo_header a n = \<lparr>sh_name = 0, sh_type = 1, sh_flags = 2, sh_addr = a, sh_offset = 0, sh_size = n,
     sh_link = 0, sh_info = 0, sh_addralign = 0, sh_entsize = 0\<rparr>"

lemma info_items_apart:
  "sorted_wrt (\<lambda>i j. ai_addr i = ai_addr j \<longrightarrow> \<not> IsSameMemInfoSrc (ai_src i) (ai_src j)) its \<Longrightarrow>
   sorted_wrt apart (map info_item its)"
proof (induction its)
  case (Cons it its)
  have "IsSameMemInfoSrc a b = IsSameMemInfoSrc b a" for a b by (auto simp: IsSameMemInfoSrc_def)
  then show ?case using Cons by (auto simp: apart_def item_hits_def item_record_def info_item_def)
qed simp

text \<open>
  C17: What \<open>ReportOpMallocInfo\<close> records for a launch \<open>ReportOpFreeInfo\<close> takes back: after both the allocation
  cache is the one before the launch, less its empty entries, when the reported blocks are not confused with
  each other or with earlier ones.
\<close>

theorem op_report_balanced:
  assumes "ReportOpMallocInfo env la om s = Some (om1, s1)" and "lp_hostArgs la \<noteq> None"
    and "sorted_wrt AddrInfo_less (mm_infos (hs_mem s))"
    and "\<forall>it \<in> set (om_unique om1). \<forall>x \<in> set (mm_infos (hs_mem s)).
           ai_addr x = ai_addr it \<longrightarrow> \<not> IsSameMemInfoSrc (ai_src x) (ai_src it)"
    and "sorted_wrt (\<lambda>i j. ai_addr i = ai_addr j \<longrightarrow> \<not> IsSameMemInfoSrc (ai_src i) (ai_src j)) (om_unique om1)"
  shows "hs_mem (snd (ReportOpFreeInfo om1 s1)) = UpdateMemoryOp (hs_mem s)"
proof -
  let ?items = "map info_item (om_unique om1)"
  note ap = info_items_apart [OF assms(5)]
  have nh: "\<forall>i \<in> set ?items. \<forall>it \<in> set (mm_infos (hs_mem s)). \<not> item_hits i it"
    using assms(4) by (auto simp: item_hits_def info_item_def)
  have "\<exists>items. sorted_wrt apart items \<and> set items = set ?items \<and> length items = length ?items \<and>
      hs_mem s1 = fold item_malloc items (hs_mem s)"
    using assms(1)
  proof (cases rule: ReportOpMallocInfo_cases)
    case null
    then show ?thesis using assms(2) by simp
  next
    case (tensors ws)
    then show ?thesis using ap by (intro exI [of _ ?items]) (simp add: report_tensors_mem)
  next
    case (tiling ws ts a n)
    show ?thesis
      by (rule exI [of _ "map info_item ts @ [(a, BYPASS, n)]"])
        (use ap tiling(2,3) in \<open>auto simp: sorted_apart_rotate report_tiling_mem report_tensors_mem info_item_def\<close>)
  qed
  then obtain items where items: "sorted_wrt apart items" "set items = set ?items" "length items = length ?items"
      "hs_mem s1 = fold item_malloc items (hs_mem s)" by blast
  have "fold item_free ?items (hs_mem s1) = hs_mem s"
    unfolding items(4) by (rule items_balanced [OF assms(3) _ items(1) ap]) (use nh items(2,3) in simp_all)
  then show ?thesis by (simp add: ReportOpFreeInfo_def Let_def report_frees_mem)
qed

definition demo_launch :: AclrtLaunchArgsInfo where
  "demo_launch = \<lparr>lp_hostArgs = Some [0x1000, 0x2000, 0x1000], lp_argsSize = 24, lp_placeHolders = None, lp_placeHolderNum = 0\<rparr>"

definition demo_tensor :: "u64 \<Rightarrow> AddrInfo" where
  "demo_tensor n = \<lparr>ai_addr = 0, ai_length = n, ai_src = EXTRA, ai_desc = INPUT, ai_paramsNo = 0\<rparr>"

definition demo_op :: OpMemInfo where
  "demo_op = empty_OpMemInfo\<lparr>om_inputs := [demo_tensor 32, demo_tensor 64, demo_tensor 96]\<rparr>"

definition demo_op_env :: op_env where
  "demo_op_env = \<lparr>oe_mc2Ctx = False, oe_throughAdump = False, oe_deviceId = 0, oe_readCtx = Map.empty, oe_socVersion = ''Ascend910B''\<rparr>"

definition demo_unique :: "AddrInfo list" where
  "demo_unique = [(demo_tensor 96)\<lparr>ai_addr := 0x1000\<rparr>, (demo_tensor 64)\<lparr>ai_addr := 0x2000\<rparr>]"

lemma demo_op_report:
  "\<exists>om1. ReportOpMallocInfo demo_op_env demo_launch demo_op demo_hooks = Some (om1, fold report_tensor demo_unique demo_hooks) \<and>
     om_unique om1 = demo_unique"
  by (simp add: ReportOpMallocInfo_def demo_launch_def demo_op_def demo_op_env_def report_tensors_def Let_def
      empty_OpMemInfo_def demo_tensor_def word_at_def ParseSecondPtrAddrs_def second_ptrs_of_def ProcessMc2CtxAddr_def
      updateAddrInfos_def unique_infos_def demo_unique_def)

theorem op_report_balanced_witness:
  "\<exists>om1 s1. ReportOpMallocInfo demo_op_env demo_launch demo_op demo_hooks = Some (om1, s1) \<and> length (om_unique om1) = 2 \<and>
     hs_mem (snd (ReportOpFreeInfo om1 s1)) = UpdateMemoryOp (hs_mem demo_hooks)"
proof -
  obtain om1 where om1: "ReportOpMallocInfo demo_op_env demo_launch demo_op demo_hooks = Some (om1, fold report_tensor demo_unique demo_hooks)"
    and u: "om_unique om1 = demo_unique" using demo_op_report by blast
  have "hs_mem (snd (ReportOpFreeInfo om1 (fold report_tensor demo_unique demo_hooks))) = UpdateMemoryOp (hs_mem demo_hooks)"
    by (rule op_report_balanced [OF om1])
      (simp_all add: u demo_unique_def demo_tensor_def demo_launch_def demo_hooks_def init_memory_manage_def)
  with om1 u show ?thesis by (auto simp: demo_unique_def)
qed

section \<open>The deduplicated list\<close>

text \<open>The distinct elements in order of first appearance.\<close>

definition firsts :: "'a list \<Rightarrow> 'a list" where
  "firsts xs = rev (remdups (rev xs))"

lemma firsts_snoc: "firsts (xs @ [x]) = (if x \<in> set xs then firsts xs else firsts xs @ [x])"
  by (simp add: firsts_def)

lemma set_firsts [simp]: "set (firsts xs) = set xs"
  by (simp add: firsts_def)

lemma distinct_firsts [simp]: "distinct (firsts xs)"
  by (simp add: firsts_def)

text \<open>The entry reported for an address: the first one listed, with the greatest length listed.\<close>

definition longest_at :: "AddrInfo list \<Rightarrow> u64 \<Rightarrow> AddrInfo" where
  "longest_at xs a = (let ys = filter (\<lambda>x. ai_addr x = a) xs
     in (hd ys)\<lparr>ai_length := fold max (map ai_length ys) 0\<rparr>)"

definition table_of :: "AddrInfo list \<Rightarrow> addr_table" where
  "table_of xs = (firsts (map ai_addr xs), (\<lambda>a. if a \<in> set (map ai_addr xs) then Some (longest_at xs a) else None))"

lemma AddrInfo_noop [simp]: "ai_length x = n \<Longrightarrow> x\<lparr>ai_length := n\<rparr> = x" "ai_addr x = a \<Longrightarrow> x\<lparr>ai_addr := a\<rparr> = x"
  for x :: AddrInfo
  by (cases x; simp)+

lemma longest_at_other: "ai_addr x \<noteq> a \<Longrightarrow> longest_at (xs @ [x]) a = longest_at xs a"
  by (simp add: longest_at_def)

lemma filter_hd: "a \<in> ai_addr ` set xs \<Longrightarrow>
  filter (\<lambda>x. ai_addr x = a) xs \<noteq> [] \<and> hd (filter (\<lambda>x. ai_addr x = a) xs) \<in> set (filter (\<lambda>x. ai_addr x = a) xs)"
  by (metis (mono_tags, lifting) filter_empty_conv hd_in_set imageE)

lemma longest_at_addr: "a \<in> ai_addr ` set xs \<Longrightarrow> ai_addr (longest_at xs a) = a"
  using filter_hd [of a xs] by (simp add: longest_at_def Let_def)

lemma longest_at_new: "ai_addr x \<notin> ai_addr ` set xs \<Longrightarrow> longest_at (xs @ [x]) (ai_addr x) = x"
proof -
  assume "ai_addr x \<notin> ai_addr ` set xs"
  then have "filter (\<lambda>y. ai_addr y = ai_addr x) xs = []" by (metis (mono_tags, lifting) filter_False image_eqI)
  then show ?thesis by (simp add: longest_at_def)
qed

lemma longest_at_old:
  "a \<in> ai_addr ` set xs \<Longrightarrow>
   longest_at (xs @ [x]) a =
     (if ai_addr x = a then (longest_at xs a)\<lparr>ai_length := max (ai_length x) (ai_length (longest_at xs a))\<rparr>
      else longest_at xs a)"
  using filter_hd [of a xs] by (simp add: longest_at_def Let_def)

lemma table_of_snoc: "updateAddrInfos x (table_of xs) = table_of (xs @ [x])"
proof (cases "ai_addr x \<in> ai_addr ` set xs")
  case True
  have "(if ai_length x > ai_length (longest_at xs (ai_addr x))
      then (snd (table_of xs))(ai_addr x \<mapsto> (longest_at xs (ai_addr x))\<lparr>ai_length := ai_length x\<rparr>)
      else snd (table_of xs)) a = snd (table_of (xs @ [x])) a" for a
    using True by (cases "a \<in> ai_addr ` set xs") (auto simp: table_of_def longest_at_old max_def)
  then have "(if ai_length x > ai_length (longest_at xs (ai_addr x))
      then (snd (table_of xs))(ai_addr x \<mapsto> (longest_at xs (ai_addr x))\<lparr>ai_length := ai_length x\<rparr>)
      else snd (table_of xs)) = snd (table_of (xs @ [x]))" by (rule ext)
  moreover have "snd (table_of xs) (ai_addr x) = Some (longest_at xs (ai_addr x))" using True by (simp add: table_of_def)
  moreover have "fst (table_of (xs @ [x])) = fst (table_of xs)" using True by (simp add: table_of_def firsts_snoc)
  ultimately show ?thesis by (simp add: updateAddrInfos_def split_beta Let_def prod_eq_iff)
next
  case False
  have "((snd (table_of xs))(ai_addr x \<mapsto> x)) a = snd (table_of (xs @ [x])) a" for a
    using False longest_at_new [OF False] longest_at_other [of x a xs] by (cases "a = ai_addr x") (auto simp: table_of_def)
  then have "(snd (table_of xs))(ai_addr x \<mapsto> x) = snd (table_of (xs @ [x]))" by (rule ext)
  moreover have "snd (table_of xs) (ai_addr x) = None" using False by (simp add: table_of_def)
  moreover have "fst (table_of (xs @ [x])) = fst (table_of xs) @ [ai_addr x]" using False by (simp add: table_of_def firsts_snoc)
  ultimately show ?thesis by (simp add: updateAddrInfos_def split_beta Let_def prod_eq_iff)
qed

lemma fold_updateAddrInfos: "fold updateAddrInfos xs ([], Map.empty) = table_of xs"
proof (induction xs rule: rev_induct)
  case Nil
  show ?case by (simp add: table_of_def firsts_def)
next
  case (snoc x xs)
  then show ?case by (simp add: table_of_snoc)
qed

text \<open>
  C20: The deduplication reports, for every address that is not null, one entry in the order of first
  appearance: the first entry listed at the address, with the greatest of the lengths listed there, and
  leaves out addresses all of whose lengths are 0.
\<close>

theorem dedup_keeps_longest:
  "unique_infos (fold updateAddrInfos xs ([], Map.empty)) =
     map (longest_at xs) (filter (\<lambda>a. a \<noteq> 0 \<and> ai_length (longest_at xs a) \<noteq> 0) (firsts (map ai_addr xs)))"
proof -
  have "a \<in> set (firsts (map ai_addr xs)) \<Longrightarrow> ai_addr (longest_at xs a) = a" for a
    using longest_at_addr by simp
  then show ?thesis
    unfolding fold_updateAddrInfos unique_infos_def table_of_def Let_def
    by (auto intro!: map_cong filter_cong split: if_splits simp: image_iff)
qed

section \<open>The layout of second-level pointers\<close>

text \<open>
  A pointer to a tensor: the word with its dimension count in the low half, its dimensions, and the address.
\<close>

type_synonym second_ptr = "u64 \<times> u64 list \<times> u64"

definition ptr_dims :: "second_ptr \<Rightarrow> u64 list" where
  "ptr_dims p = fst p # fst (snd p)"

definition ptr_addr :: "second_ptr \<Rightarrow> u64" where
  "ptr_addr p = snd (snd p)"

definition ptr_ok :: "second_ptr \<Rightarrow> bool" where
  "ptr_ok p \<longleftrightarrow> unat (fst p AND 0xFFFFFFFF) = length (fst (snd p))"

definition ptr_block :: "second_ptr list \<Rightarrow> u64 list" where
  "ptr_block ps = word_of_nat (8 * (1 + length (concat (map ptr_dims ps)))) # concat (map ptr_dims ps) @ map ptr_addr ps"

lemma ptr_dims_simp [simp]: "ptr_dims (c, sh, a) = c # sh"
  by (simp add: ptr_dims_def)

lemma ptr_addr_simp [simp]: "ptr_addr (c, sh, a) = a"
  by (simp add: ptr_addr_def)

lemma word_at_mid: "word_at (xs @ y # ys) (length xs) = Some y"
  by (simp add: word_at_def)

lemma shape_product_mid:
  "shape_product (xs @ ds @ ys) (length xs) (length ds) acc = Some (fold (*) ds acc)"
proof (induction ds arbitrary: xs acc)
  case (Cons d ds)
  show ?case using Cons [of "xs @ [d]" "acc * d"] word_at_mid [of xs d "ds @ ys"]
    by (simp add: mult.commute)
qed simp

lemma second_ptr_loop_block:
  assumes "\<forall>p \<in> set ps. ptr_ok p" and "off = 1 + length (concat (map ptr_dims (front @ ps)))"
    and "ws = pre @ w # concat (map ptr_dims (front @ ps)) @ map ptr_addr (front @ ps) @ post"
  shows "second_ptr_loop mk ws (length pre) off (length (concat (map ptr_dims front))) (length front) vec =
     Some (vec @ map (\<lambda>(i, p). mk (ptr_addr p) (fold (*) (fst (snd p)) 1) i) (enumerate (length front) ps))"
  using assms
proof (induction ps arbitrary: front vec)
  case Nil
  then show ?case by (subst second_ptr_loop.simps) simp
next
  case (Cons p ps)
  let ?d = "length (concat (map ptr_dims front))"
  obtain c sh a where p: "p = (c, sh, a)" by (cases p)
  have sh: "unat (c AND 0xFFFFFFFF) = length sh" using Cons.prems(1) by (simp add: ptr_ok_def p)
  have off: "0 < off" "?d < off - 1" using Cons.prems(2) by (simp_all add: p)
  have w1: "word_at ws (length pre + 1 + ?d) = Some c"
    using word_at_mid [of "pre @ w # concat (map ptr_dims front)" c
        "sh @ concat (map ptr_dims ps) @ map ptr_addr (front @ p # ps) @ post"]
    by (simp add: Cons.prems(3) p add.commute)
  have w2: "shape_product ws (length pre + 1 + (?d + 1)) (length sh) 1 = Some (fold (*) sh 1)"
    using shape_product_mid [of "pre @ w # concat (map ptr_dims front) @ [c]" sh
        "concat (map ptr_dims ps) @ map ptr_addr (front @ p # ps) @ post" 1]
    by (simp add: Cons.prems(3) p add.commute)
  have w3: "word_at ws (length pre + (off + length front)) = Some a"
    using word_at_mid [of "pre @ w # concat (map ptr_dims (front @ p # ps)) @ map ptr_addr front" a
        "map ptr_addr ps @ post"]
    by (simp add: Cons.prems(2,3) p add.assoc add.commute add.left_commute)
  have IH: "second_ptr_loop mk ws (length pre) off (length (concat (map ptr_dims (front @ [p])))) (length (front @ [p]))
        (vec @ [mk a (fold (*) sh 1) (length front)]) =
     Some ((vec @ [mk a (fold (*) sh 1) (length front)]) @
       map (\<lambda>(i, p). mk (ptr_addr p) (fold (*) (fst (snd p)) 1) i) (enumerate (length (front @ [p])) ps))"
    by (rule Cons.IH) (use Cons.prems in simp_all)
  have d': "length (concat (map ptr_dims (front @ [p]))) = ?d + 1 + length sh" by (simp add: p)
  show ?case
    by (subst second_ptr_loop.simps) (use IH off w1 w2 w3 d' sh in \<open>simp add: p\<close>)
qed

text \<open>
  A block of second-level pointers in the layout the launcher writes (the offset of the pointers, the
  shapes, the pointers) is read back in order: each pointer with the product of its shape times the size of
  an element, appended to the entries known for the input.
\<close>

lemma second_ptr_roundtrip:
  assumes "\<forall>p \<in> set ps. ptr_ok p" and "8 * (1 + length (concat (map ptr_dims ps))) < 2 ^ 64"
    and "map_of (om_secondPtr om) (word_of_nat index) = Some info"
    and "unat addrOffset div 8 = index" and "unat dataOffset div 8 = length pre"
  shows "ParseSecondPtrAddrs (pre @ ptr_block ps @ post) (Some [(addrOffset, dataOffset)]) om index =
     Some (om\<lparr>om_secondPtr := omap_put (word_of_nat index)
       (info\<lparr>sp_addrInfoVec := sp_addrInfoVec info @
          map (\<lambda>p. \<lparr>ai_addr = ptr_addr p, ai_length = fold (*) (fst (snd p)) 1 * sp_dtypeBytes info,
                    ai_src = EXTRA, ai_desc = DEFAULT, ai_paramsNo = 0\<rparr>) ps\<rparr>) (om_secondPtr om)\<rparr>)"
proof -
  let ?off = "1 + length (concat (map ptr_dims ps))"
  let ?ws = "pre @ ptr_block ps @ post"
  have off: "unat (word_of_nat (8 * ?off) :: u64) div 8 = ?off"
    using assms(2) by (simp add: unsigned_of_nat take_bit_nat_eq_self del: of_nat_mult of_nat_add of_nat_Suc)
  have w: "word_at ?ws (length pre) = Some (word_of_nat (8 * ?off))"
    unfolding ptr_block_def using word_at_mid [of pre "word_of_nat (8 * ?off)"] by simp
  note L = second_ptr_loop_block [where front = "[]" and off = ?off and ws = ?ws and pre = pre
      and w = "word_of_nat (8 * ?off)" and post = post, OF assms(1)]
  have en: "map (\<lambda>(i, p). f p) (enumerate n ps) = map f ps" for f :: "second_ptr \<Rightarrow> AddrInfo" and n
    by (induction ps arbitrary: n) simp_all
  have scan: "second_ptr_scan mk ?ws index [(addrOffset, dataOffset)] vec =
      Some (vec @ map (\<lambda>(i, p). mk (ptr_addr p) (fold (*) (fst (snd p)) 1) i) (enumerate 0 ps))" for mk vec
    using L [of mk vec] w off assms(4,5) by (simp add: ptr_block_def)
  show ?thesis
    unfolding ParseSecondPtrAddrs_def second_ptrs_of_def
    using assms(3) by (simp add: scan en del: second_ptr_scan.simps)
qed

end
