(* ===== verification/MarkerHooks.thy ===== *)
theory MarkerHooks
  imports MsTx OpReport
begin

text \<open>
  The sanitizer's handlers of the marker interface, in \<open>csrc/bind/BindSanitizer.cpp\<close>: they keep the tables of
  \<open>MsTx\<close>, record heaps and regions in the allocation cache, and notify the device of a range. The state is
  the marker tables and the state of the memory hooks.
\<close>

section \<open>Handlers\<close>

definition IsAddrInRange_san :: "HostMemRecord \<Rightarrow> u64 \<Rightarrow> u64 \<Rightarrow> bool" where
  "IsAddrInRange_san r thresholdAddr thresholdSize \<longleftrightarrow>
     (let addr = hr_dstAddr r; len = hr_memSize r
      in addr \<ge> thresholdAddr \<and> thresholdSize \<ge> len \<and> addr - thresholdAddr \<le> thresholdSize - len)"

definition IsInvalidMemInfo :: "HostMemRecord \<Rightarrow> bool" where
  "IsInvalidMemInfo r \<longleftrightarrow>
     (hr_type r = MALLOC \<and> (hr_dstAddr r = 0 \<or> hr_memSize r = 0)) \<or> (hr_type r = FREE \<and> hr_dstAddr r = 0)"

text \<open>\<open>LocalDevice::GetInstance(static_cast<int32_t>(deviceId))\<close>\<close>

definition of_device :: "u32 \<Rightarrow> dest" where
  "of_device d = OfDevice (sint d)"

definition notify_record :: "dest \<Rightarrow> HostMemRecord \<Rightarrow> 'd hook_state \<Rightarrow> 'd hook_state" where
  "notify_record target r = Notify target (memory_message r)"

definition MstxMemHeapRegister_san ::
  "ptr \<Rightarrow> ptr \<Rightarrow> MemHeapDesc option \<Rightarrow> mstx \<times> 'd hook_state \<Rightarrow> ptr \<times> (mstx \<times> 'd hook_state)" where
  "MstxMemHeapRegister_san new domain desc st =
     (let (ret, mx) = MstxMemHeapRegister new domain desc (fst st) in
      if ret = 0 then (0, (mx, snd st))
      else let rng = the (md_specific (the desc));
               record = empty_record\<lparr>hr_type := MALLOC, hr_infoSrc := MSTX_HEAP, hr_dstAddr := vr_ptr rng, hr_memSize := vr_size rng\<rparr>
           in if IsInvalidMemInfo record then (ret, (mx, snd st))
              else (ret, (mx, notify_record (of_device (vr_deviceId rng)) record
                                (cache_malloc (hr_dstAddr record) MSTX_HEAP (hr_memSize record) (snd st)))))"

definition MstxMemHeapUnregister_san :: "ptr \<Rightarrow> ptr \<Rightarrow> mstx \<times> 'd hook_state \<Rightarrow> mstx \<times> 'd hook_state" where
  "MstxMemHeapUnregister_san domain heap st =
     (let (ret, mx) = MstxMemHeapUnregister domain heap (fst st) in
      case ret of
        None \<Rightarrow> (mx, snd st)
      | Some desc \<Rightarrow>
          let rng = hd_range desc;
              record = empty_record\<lparr>hr_type := FREE, hr_infoSrc := MSTX_HEAP, hr_dstAddr := vr_ptr rng\<rparr>
          in if IsInvalidMemInfo record then (mx, snd st)
             else (mx, notify_record (of_device (vr_deviceId rng)) record (cache_free (hr_dstAddr record) MSTX_HEAP (snd st))))"

text \<open>One round of the loop over the ranges of a batch; \<open>heap\<close> is the batch's heap and \<open>info\<close> its range.\<close>

definition region_malloc :: "ptr \<Rightarrow> MemRegionsBelongInfo \<Rightarrow> MemVirtualRangeDesc \<Rightarrow> 'd hook_state \<Rightarrow> 'd hook_state" where
  "region_malloc heap info rng s =
     (let record = empty_record\<lparr>hr_type := MALLOC, hr_infoSrc := MSTX_REGION, hr_rootAddr := bi_addr info,
            hr_dstAddr := vr_ptr rng, hr_memSize := vr_size rng\<rparr>
      in if IsInvalidMemInfo record then s
         else if heap = 0 \<or> IsAddrInRange_san record (bi_addr info) (bi_size info) then
           let s1 = cache_malloc (hr_dstAddr record) MSTX_REGION (hr_memSize record) s;
               s2 = notify_record (of_device (vr_deviceId rng)) record s1
           in notify_record (of_device (vr_deviceId rng)) (record\<lparr>hr_type := STORE\<rparr>) s2
         else s)"

definition MstxMemRegionsRegister_san ::
  "ptr list \<Rightarrow> ptr \<Rightarrow> MemRegionsRegisterBatch option \<Rightarrow> mstx \<times> 'd hook_state \<Rightarrow> ptr list \<times> (mstx \<times> 'd hook_state)" where
  "MstxMemRegionsRegister_san news domain desc st =
     (let ((info, handles), mx) = MstxMemRegionsRegister news domain desc (fst st) in
      if bi_success info
      then (handles, (mx, fold (region_malloc (rb_heap (the desc)) info) (the (rb_descs (the desc))) (snd st)))
      else (handles, (mx, snd st)))"

definition region_free :: "MemVirtualRangeDesc \<Rightarrow> 'd hook_state \<Rightarrow> 'd hook_state" where
  "region_free rng s =
     (let record = empty_record\<lparr>hr_type := FREE, hr_infoSrc := MSTX_REGION, hr_dstAddr := vr_ptr rng, hr_memSize := vr_size rng\<rparr>
      in if IsInvalidMemInfo record then s
         else notify_record (of_device (vr_deviceId rng)) record (cache_free (hr_dstAddr record) MSTX_REGION s))"

definition pointer_free :: "MemRegionRef \<Rightarrow> 'd hook_state \<Rightarrow> 'd hook_state" where
  "pointer_free r s =
     (case r of
        HandleRef h \<Rightarrow> s
      | PointerRef p \<Rightarrow>
          let record = empty_record\<lparr>hr_type := FREE, hr_infoSrc := MSTX_REGION, hr_dstAddr := p, hr_memSize := 0\<rparr>
          in if IsInvalidMemInfo record then s
             else notify_record LocalDev record (cache_free (hr_dstAddr record) MSTX_REGION s))"

definition MstxMemRegionsUnregister_san ::
  "ptr \<Rightarrow> MemRegionRef list option \<Rightarrow> mstx \<times> 'd hook_state \<Rightarrow> mstx \<times> 'd hook_state" where
  "MstxMemRegionsUnregister_san domain refs st =
     (let ((ok, ranges), mx) = MstxMemRegionsUnregister domain refs (fst st) in
      if \<not> ok then (mx, snd st)
      else (mx, fold pointer_free (the refs) (fold region_free ranges (snd st))))"

record MemRegionPermissionDesc =
  rp_addr :: u64
  rp_size :: u64
  rp_deviceId :: u32
  rp_flags :: u32

definition MemRegionPermissionDesc_bytes :: "MemRegionPermissionDesc \<Rightarrow> u8 list" where
  "MemRegionPermissionDesc_bytes d =
     le_bytes 8 (unat (rp_addr d)) @ le_bytes 8 (unat (rp_size d)) @
     le_bytes 4 (unat (rp_deviceId d)) @ le_bytes 4 (unat (rp_flags d))"

definition notify_permission :: "MemVirtualRangeDesc \<times> u32 \<Rightarrow> 'd hook_state \<Rightarrow> 'd hook_state" where
  "notify_permission rf =
     (let (rng, flags) = rf;
          desc = \<lparr>rp_addr = vr_ptr rng, rp_size = vr_size rng, rp_deviceId = vr_deviceId rng, rp_flags = flags\<rparr>
      in Notify (of_device (vr_deviceId rng))
           (Serialize [PacketHead_bytes MEM_REGION_PERMISSION, MemRegionPermissionDesc_bytes desc]))"

text \<open>\<open>desc\<close> is the array of region references with their flags.\<close>

definition MstxMemPermissionsAssign_san ::
  "ptr \<Rightarrow> (MemRegionRef \<times> u32) list option \<Rightarrow> mstx \<times> 'd hook_state \<Rightarrow> mstx \<times> 'd hook_state" where
  "MstxMemPermissionsAssign_san domain desc st =
     (let (ok, ranges) = MstxMemPermissionsAssign domain (map_option (map fst) desc) (fst st) in
      if \<not> ok then st
      else (fst st, fold notify_permission (zip ranges (map snd (the desc))) (snd st)))"

definition sanitizer_report_malloc :: "u64 \<Rightarrow> u64 \<Rightarrow> 'd hook_state \<Rightarrow> 'd hook_state" where
  "sanitizer_report_malloc addr len s = ReportMemset addr len MANUAL DEFAULT 0 (ReportMalloc addr len MANUAL DEFAULT 0 s)"

definition sanitizer_report_free :: "u64 \<Rightarrow> 'd hook_state \<Rightarrow> 'd hook_state" where
  "sanitizer_report_free addr s = ReportFree addr MANUAL DEFAULT 0 s"

section \<open>The range test\<close>

lemma IsAddrInRange_san_iff:
  "IsAddrInRange_san r t n \<longleftrightarrow>
     unat t \<le> unat (hr_dstAddr r) \<and> unat (hr_dstAddr r) + unat (hr_memSize r) \<le> unat t + unat n"
proof (cases "t \<le> hr_dstAddr r \<and> hr_memSize r \<le> n")
  case True
  then have "unat (hr_dstAddr r - t) = unat (hr_dstAddr r) - unat t" "unat (n - hr_memSize r) = unat n - unat (hr_memSize r)"
    by (simp_all add: unat_sub)
  with True show ?thesis by (auto simp: IsAddrInRange_san_def Let_def word_le_nat_alt)
next
  case False
  then show ?thesis by (auto simp: IsAddrInRange_san_def Let_def word_le_nat_alt)
qed

text \<open>The test of \<open>MemoryDataCollect.cpp\<close> adds instead of subtracting; both agree when neither range wraps.\<close>

lemma IsAddrInRange_agree:
  assumes "unat (hr_dstAddr r) + unat (hr_memSize r) < 2 ^ 64" and "unat t + unat n < 2 ^ 64"
  shows "IsAddrInRange (hr_dstAddr r) (hr_memSize r) t n \<longleftrightarrow> IsAddrInRange_san r t n"
proof -
  have "unat (hr_dstAddr r + hr_memSize r) = unat (hr_dstAddr r) + unat (hr_memSize r)" "unat (t + n) = unat t + unat n"
    using assms by (simp_all add: unat_add_lem [THEN iffD1])
  then show ?thesis by (auto simp: IsAddrInRange_san_iff IsAddrInRange_def word_le_nat_alt)
qed

section \<open>Batches of regions\<close>

definition region_item :: "MemVirtualRangeDesc \<Rightarrow> item" where
  "region_item d = (vr_ptr d, MSTX_REGION, vr_size d)"

definition region_record :: "MemOpType \<Rightarrow> u64 \<Rightarrow> MemVirtualRangeDesc \<Rightarrow> dest \<times> u8 list" where
  "region_record op root d = (of_device (vr_deviceId d), memory_message (empty_record\<lparr>hr_type := op,
     hr_infoSrc := MSTX_REGION, hr_rootAddr := root, hr_dstAddr := vr_ptr d, hr_memSize := vr_size d\<rparr>))"

text \<open>
  The range of the heap a batch names, if it names one, and the ranges that are recorded and announced: those with an
  address and a size that lie inside it.
\<close>

definition batch_heap :: "mstx \<Rightarrow> ptr \<Rightarrow> ptr \<Rightarrow> MemVirtualRangeDesc option \<Rightarrow> bool" where
  "batch_heap mx domain heap r \<longleftrightarrow>
     (case map_of (mx_heapDesc mx) (domain, heap) of
        None \<Rightarrow> heap = 0 \<and> r = None
      | Some h \<Rightarrow> heap \<noteq> 0 \<and> r = Some (hd_range h))"

definition announced :: "MemVirtualRangeDesc option \<Rightarrow> MemVirtualRangeDesc \<Rightarrow> bool" where
  "announced r d \<longleftrightarrow> vr_ptr d \<noteq> 0 \<and> vr_size d \<noteq> 0 \<and>
     (case r of
        None \<Rightarrow> True
      | Some h \<Rightarrow> unat (vr_ptr h) \<le> unat (vr_ptr d) \<and>
          unat (vr_ptr d) + unat (vr_size d) \<le> unat (vr_ptr h) + unat (vr_size h))"

definition heap_root :: "MemVirtualRangeDesc option \<Rightarrow> u64" where
  "heap_root r = (case r of None \<Rightarrow> 0 | Some h \<Rightarrow> vr_ptr h)"

definition heap_info :: "MemVirtualRangeDesc option \<Rightarrow> MemRegionsBelongInfo" where
  "heap_info r = \<lparr>bi_addr = heap_root r, bi_size = (case r of None \<Rightarrow> 0 | Some h \<Rightarrow> vr_size h), bi_success = True\<rparr>"

lemma region_malloc_announced:
  assumes "batch_heap mx domain heap r"
  shows "hs_mem (region_malloc heap (heap_info r) d s) = (if announced r d then item_malloc (region_item d) (hs_mem s) else hs_mem s)"
    and "hs_sent (region_malloc heap (heap_info r) d s) = hs_sent s @
      (if announced r d then [region_record MALLOC (heap_root r) d, region_record STORE (heap_root r) d] else [])"
proof -
  have h: "heap = 0 \<longleftrightarrow> r = None" using assms by (auto simp: batch_heap_def split: option.splits)
  show "hs_mem (region_malloc heap (heap_info r) d s) = (if announced r d then item_malloc (region_item d) (hs_mem s) else hs_mem s)"
    and "hs_sent (region_malloc heap (heap_info r) d s) = hs_sent s @
      (if announced r d then [region_record MALLOC (heap_root r) d, region_record STORE (heap_root r) d] else [])"
    using h
    by (cases r; auto simp: region_malloc_def Let_def IsInvalidMemInfo_def notify_record_def Notify_def cache_malloc_def
        item_malloc_def region_item_def region_record_def empty_record_def announced_def heap_info_def heap_root_def IsAddrInRange_san_iff)+
qed

lemma regions_malloc_steps:
  assumes "batch_heap mx domain heap r"
  shows "hs_mem (fold (region_malloc heap (heap_info r)) ds s) = fold item_malloc (map region_item (filter (announced r) ds)) (hs_mem s)"
    and "hs_sent (fold (region_malloc heap (heap_info r)) ds s) = hs_sent s @
      concat (map (\<lambda>d. [region_record MALLOC (heap_root r) d, region_record STORE (heap_root r) d]) (filter (announced r) ds))"
  by (induction ds arbitrary: s) (simp_all add: region_malloc_announced [OF assms])

lemma regions_free_steps:
  "hs_mem (fold region_free ds s) = fold item_free (map region_item (filter (\<lambda>d. vr_ptr d \<noteq> 0) ds)) (hs_mem s)"
  "hs_sent (fold region_free ds s) = hs_sent s @ map (region_record FREE 0) (filter (\<lambda>d. vr_ptr d \<noteq> 0) ds)"
  by (induction ds arbitrary: s)
    (simp_all add: region_free_def Let_def IsInvalidMemInfo_def notify_record_def Notify_def cache_free_def
      item_free_def region_item_def region_record_def empty_record_def)

text \<open>Releasing what is not in the cache changes nothing.\<close>

lemma item_free_absent: "\<forall>it \<in> set (mm_infos m). \<not> item_hits i it \<Longrightarrow> item_free i m = m"
proof -
  assume "\<forall>it \<in> set (mm_infos m). \<not> item_hits i it"
  then have "find (\<lambda>it. ai_addr it = fst i \<and> IsSameMemInfoSrc (ai_src it) (fst (snd i))) (mm_infos m) = None"
    by (auto simp: find_None_iff item_hits_def)
  then show ?thesis by (simp add: item_free_def CacheMemory_FREE_def)
qed

lemma item_free_subset: "set (mm_infos (item_free i m)) \<subseteq> set (mm_infos m)"
proof -
  have "set (oset_erase AddrInfo_less it xs) \<subseteq> set xs" for it xs by (auto simp: oset_erase_def)
  then show ?thesis by (auto simp: item_free_def CacheMemory_FREE_def split: option.split)
qed

lemma items_free_absent:
  "\<forall>x \<in> set xs. \<not> P x \<longrightarrow> (\<forall>it \<in> set (mm_infos m). \<not> item_hits (f x) it) \<Longrightarrow>
   fold item_free (map f xs) m = fold item_free (map f (filter P xs)) m"
proof (induction xs arbitrary: m)
  case (Cons x xs)
  have "\<forall>y \<in> set xs. \<not> P y \<longrightarrow> (\<forall>it \<in> set (mm_infos (item_free (f x) m)). \<not> item_hits (f y) it)"
    using Cons.prems item_free_subset [of "f x" m] by auto
  from Cons.IH [OF this] show ?case using Cons item_free_absent by simp
qed simp

lemma pointer_free_handles: "fold pointer_free (map HandleRef hs) s = s"
  by (induction hs) (simp_all add: pointer_free_def)

lemma region_items_apart: "distinct (map vr_ptr ds) \<Longrightarrow> sorted_wrt apart (map region_item ds)"
proof (induction ds)
  case (Cons d ds)
  have "apart (region_item d) (region_item d')" if "d' \<in> set ds" for d'
  proof -
    have "vr_ptr d' \<noteq> vr_ptr d" using that Cons.prems by (metis distinct.simps(2) image_eqI list.set_map list.simps(9))
    then show ?thesis by (simp add: apart_def item_hits_def item_record_def region_item_def)
  qed
  then show ?case using Cons by simp
qed simp

lemma IsSame_REGION: "IsSameMemInfoSrc k MSTX_REGION \<longleftrightarrow> k = MSTX_REGION"
  by (auto simp: IsSameMemInfoSrc_def)

text \<open>
  C19: A batch of regions at different addresses, registered in a heap or outside every heap and unregistered by its handles:
  the allocation cache is the one before. The devices were told of an allocation and a write of exactly the ranges that have
  an address and a size and, when the batch names a heap, lie inside it, and then of a release of every range with an
  address, in the order of the batch. (So a range that exceeds its heap is released without ever having been announced.)
\<close>

theorem marker_regions_balanced:
  assumes "IsDomainExist domain mx" and "rb_descs b = Some ds" and "\<not> rb_outNull b" and "batch_heap mx domain (rb_heap b) r"
    and "okeys (mx_regionDesc mx)" and "okeys (mx_regions mx)"
    and "length news = length ds" and "distinct news" and "\<forall>p \<in> set news. map_of (mx_regionDesc mx) p = None"
    and "distinct (map vr_ptr ds)" and "sorted_wrt AddrInfo_less (mm_infos (hs_mem s))"
    and "\<forall>d \<in> set ds. \<forall>it \<in> set (mm_infos (hs_mem s)). ai_addr it = vr_ptr d \<longrightarrow> ai_src it \<noteq> MSTX_REGION"
  shows "case MstxMemRegionsRegister_san news domain (Some b) (mx, s) of (handles, st) \<Rightarrow>
     (case MstxMemRegionsUnregister_san domain (Some (map HandleRef handles)) st of (mx1, s1) \<Rightarrow>
        hs_mem s1 = hs_mem s \<and> map_of (mx_regionDesc mx1) = map_of (mx_regionDesc mx) \<and>
        hs_sent s1 = hs_sent s @
          concat (map (\<lambda>d. [region_record MALLOC (heap_root r) d, region_record STORE (heap_root r) d]) (filter (announced r) ds)) @
          map (region_record FREE 0) (filter (\<lambda>d. vr_ptr d \<noteq> 0) ds))"
proof -
  have found: "rb_heap b \<noteq> 0 \<longrightarrow> map_of (mx_heapDesc mx) (domain, rb_heap b) \<noteq> None"
    using assms(4) by (auto simp: batch_heap_def split: option.splits)
  have info: "(case map_of (mx_heapDesc mx) (domain, rb_heap b) of
        None \<Rightarrow> \<lparr>bi_addr = 0, bi_size = 0, bi_success = True\<rparr>
      | Some h \<Rightarrow> \<lparr>bi_addr = vr_ptr (hd_range h), bi_size = vr_size (hd_range h), bi_success = True\<rparr>) = heap_info r"
    using assms(4) by (auto simp: batch_heap_def heap_info_def heap_root_def split: option.splits)
  obtain mx1 where reg: "MstxMemRegionsRegister news domain (Some b) mx = ((heap_info r, news), mx1)"
    using assms(1-3,7) found info by (auto simp: MstxMemRegionsRegister_def Let_def)
  obtain mx2 where unreg: "MstxMemRegionsUnregister domain (Some (map HandleRef news)) mx1 = ((True, ds), mx2)"
    and desc: "map_of (mx_regionDesc mx2) = map_of (mx_regionDesc mx)"
    using regions_there_and_back [OF assms(1-3) found assms(5-9)] by (auto simp: reg prod_eq_iff)
  let ?in = "map region_item (filter (announced r) ds)"
  let ?s1 = "fold (region_malloc (rb_heap b) (heap_info r)) ds s"
  have ap: "sorted_wrt apart ?in" using assms(10) by (intro region_items_apart) (simp add: distinct_map_filter)
  have absent: "\<not> item_hits (region_item d) it" if "d \<in> set ds" "it \<in> set (mm_infos (hs_mem s))" for d it
    using assms(12) that by (auto simp: item_hits_def region_item_def IsSame_REGION)
  have new: "set (mm_infos (fold item_malloc ?in (hs_mem s))) = item_record ` set ?in \<union> set (mm_infos (hs_mem s))"
    using items_malloc_holds [of "hs_mem s" "set (mm_infos (hs_mem s))" "mm_count (hs_mem s)" ?in] ap absent assms(11)
    by (auto simp: cache_holds_def)
  have "\<not> item_hits (region_item d) it"
    if d: "d \<in> set ds" "\<not> announced r d" and it: "it \<in> set (mm_infos (fold item_malloc ?in (hs_mem s)))" for d it
  proof (cases "it \<in> set (mm_infos (hs_mem s))")
    case False
    then obtain e where e: "e \<in> set ds" "announced r e" "it = item_record (region_item e)" using it new by auto
    then have "vr_ptr e \<noteq> vr_ptr d" using assms(10) d by (metis distinct_map inj_onD)
    then show ?thesis by (simp add: e item_hits_def item_record_def region_item_def)
  qed (use absent d in blast)
  then have "fold item_free (map region_item (filter (\<lambda>d. vr_ptr d \<noteq> 0) ds)) (fold item_malloc ?in (hs_mem s)) =
      fold item_free (map region_item (filter (announced r) (filter (\<lambda>d. vr_ptr d \<noteq> 0) ds))) (fold item_malloc ?in (hs_mem s))"
    by (intro items_free_absent) auto
  also have "filter (announced r) (filter (\<lambda>d. vr_ptr d \<noteq> 0) ds) = filter (announced r) ds"
    by (auto simp: announced_def intro: filter_cong)
  also have "fold item_free ?in (fold item_malloc ?in (hs_mem s)) = hs_mem s"
    by (rule items_balanced [OF assms(11) _ ap ap refl refl]) (use absent in auto)
  finally have mem: "hs_mem (fold region_free ds ?s1) = hs_mem s"
    by (simp add: regions_free_steps regions_malloc_steps [OF assms(4)])
  have "MstxMemRegionsRegister_san news domain (Some b) (mx, s) = (news, (mx1, ?s1))"
    using assms(2) by (simp add: MstxMemRegionsRegister_san_def reg heap_info_def)
  moreover have "MstxMemRegionsUnregister_san domain (Some (map HandleRef news)) (mx1, ?s1) = (mx2, fold region_free ds ?s1)"
    by (simp add: MstxMemRegionsUnregister_san_def unreg pointer_free_handles)
  ultimately show ?thesis
    by (simp add: desc mem regions_free_steps(2) regions_malloc_steps(2) [OF assms(4)])
qed

definition demo_heap :: mstx where
  "demo_heap = snd (MstxMemHeapRegister 8 0 (Some \<lparr>md_usage = 0, md_type = 0, md_specific = Some (demo_rng 0x1000)\<rparr>) empty_mstx)"

theorem marker_regions_balanced_witness:
  "case MstxMemRegionsRegister_san [16, 24] 0
      (Some \<lparr>rb_heap = 8, rb_descs = Some [demo_rng 0x1000, demo_rng 0x1080], rb_outNull = False\<rparr>) (demo_heap, demo_hooks) of
     (handles, st) \<Rightarrow>
     (case MstxMemRegionsUnregister_san 0 (Some (map HandleRef handles)) st of (mx1, s1) \<Rightarrow>
        hs_mem s1 = hs_mem demo_hooks \<and> map_of (mx_regionDesc mx1) = map_of (mx_regionDesc demo_heap) \<and>
        hs_sent s1 = hs_sent demo_hooks @
          [region_record MALLOC 0x1000 (demo_rng 0x1000), region_record STORE 0x1000 (demo_rng 0x1000)] @
          map (region_record FREE 0) [demo_rng 0x1000, demo_rng 0x1080])"
proof -
  let ?r = "Some (demo_rng 0x1000)" and ?ds = "[demo_rng 0x1000, demo_rng 0x1080]"
  have h: "batch_heap demo_heap 0 8 ?r" "IsDomainExist 0 demo_heap" "mx_regionDesc demo_heap = []" "mx_regions demo_heap = []"
    by (simp_all add: batch_heap_def demo_heap_def MstxMemHeapRegister_def IsDomainExist_def empty_mstx_def Let_def)
  have f: "filter (announced ?r) ?ds = [demo_rng 0x1000]" "heap_root ?r = 0x1000" "filter (\<lambda>d. vr_ptr d \<noteq> 0) ?ds = ?ds"
    by (simp_all add: announced_def demo_rng_def heap_root_def)
  show ?thesis
    using marker_regions_balanced [of 0 demo_heap "\<lparr>rb_heap = 8, rb_descs = Some ?ds, rb_outNull = False\<rparr>" ?ds ?r "[16, 24]" demo_hooks]
    unfolding f by (simp add: h) (simp add: demo_rng_def demo_hooks_def init_memory_manage_def)
qed

section \<open>Regions of a heap\<close>

definition in_heap :: "MemVirtualRangeDesc \<Rightarrow> AddrInfo \<Rightarrow> bool" where
  "in_heap h it \<longleftrightarrow> unat (vr_ptr h) \<le> unat (ai_addr it) \<and>
     unat (ai_addr it) + unat (ai_length it) \<le> unat (vr_ptr h) + unat (vr_size h)"

lemma cache_malloc_infos:
  "set (mm_infos (hs_mem (cache_malloc a k n s))) \<subseteq>
     insert \<lparr>ai_addr = a, ai_length = n, ai_src = k, ai_desc = DEFAULT, ai_paramsNo = 0\<rparr> (set (mm_infos (hs_mem s)))"
  using ai_order.oset_insert_subset by (simp add: cache_malloc_def CacheMemory_MALLOC_def)

lemma region_malloc_infos:
  assumes "h \<noteq> 0" and "it \<in> set (mm_infos (hs_mem (region_malloc h info d s)))" and "it \<notin> set (mm_infos (hs_mem s))"
  shows "ai_src it = MSTX_REGION \<and> ai_addr it \<noteq> 0 \<and>
    in_heap \<lparr>vr_deviceId = dev, vr_ptr = bi_addr info, vr_size = bi_size info\<rparr> it"
  using assms cache_malloc_infos [of "vr_ptr d" MSTX_REGION "vr_size d" s]
  by (auto simp: region_malloc_def Let_def IsInvalidMemInfo_def IsAddrInRange_san_iff in_heap_def notify_record_def
      Notify_def empty_record_def split: if_splits)

lemma regions_malloc_infos:
  assumes "h \<noteq> 0" and "it \<in> set (mm_infos (hs_mem (fold (region_malloc h info) ds s)))" and "it \<notin> set (mm_infos (hs_mem s))"
  shows "ai_src it = MSTX_REGION \<and> ai_addr it \<noteq> 0 \<and>
    in_heap \<lparr>vr_deviceId = dev, vr_ptr = bi_addr info, vr_size = bi_size info\<rparr> it"
  using assms(2,3)
proof (induction ds arbitrary: s)
  case (Cons d ds)
  then show ?case using region_malloc_infos [OF assms(1), of it info d s dev] by (cases "it \<in> set (mm_infos (hs_mem (region_malloc h info d s)))") auto
qed simp

text \<open>
  Whatever batch of regions a program registers in a heap, the records the handler adds to the allocation
  cache are region records that lie inside the heap, even when addresses and sizes wrap.
\<close>

lemma regions_stay_in_heap:
  assumes "rb_heap b \<noteq> 0" and "map_of (mx_heapDesc mx) (domain, rb_heap b) = Some h"
    and "it \<in> set (mm_infos (hs_mem (snd (snd (MstxMemRegionsRegister_san news domain (Some b) (mx, s))))))"
    and "it \<notin> set (mm_infos (hs_mem s))"
  shows "ai_src it = MSTX_REGION \<and> ai_addr it \<noteq> 0 \<and> in_heap (hd_range h) it"
proof -
  obtain info handles mx1 where reg: "MstxMemRegionsRegister news domain (Some b) mx = ((info, handles), mx1)"
    by (cases "MstxMemRegionsRegister news domain (Some b) mx") (auto)
  have "bi_success info" using assms(3,4) reg by (auto simp: MstxMemRegionsRegister_san_def split: if_splits)
  then have i: "bi_addr info = vr_ptr (hd_range h)" "bi_size info = vr_size (hd_range h)"
    using reg assms(1,2) by (auto simp: MstxMemRegionsRegister_def Let_def no_belong_def split: if_splits)
  have "it \<in> set (mm_infos (hs_mem (fold (region_malloc (rb_heap b) info) (the (rb_descs b)) s)))"
    using assms(3) reg \<open>bi_success info\<close> by (simp add: MstxMemRegionsRegister_san_def)
  from regions_malloc_infos [OF assms(1) this assms(4)] show ?thesis by (simp add: i in_heap_def)
qed

end
