(* ===== verification/IpcHooks.thy ===== *)
theory IpcHooks
  imports MemHooks Ustring
begin

text \<open>
  Shared memory between processes: the hooks of the runtime's and the ACL's IPC calls
  (\<open>csrc/runtime/HijackedFuncOfIpc*.cpp\<close>, \<open>csrc/acl_rt_impl/HijackedFuncOfAclrtIpcMem*.cpp\<close>), the table of
  the keys this process takes part in (\<open>IPCMemManager.h\<close>) and the request and response with the checker
  (\<open>InteractHelper.h\<close>, \<open>InteractHelper.cpp\<close>). A key is its bytes in memory; the reply the checker sends
  in time is a parameter, empty when there is none.
\<close>

section \<open>Records\<close>

datatype IPCOperationType = SET_INFO | DESTROY_INFO | MAP_INFO | UNMAP_INFO

primrec IPCOperationType_code :: "IPCOperationType \<Rightarrow> u32" where
  "IPCOperationType_code SET_INFO = 0"
| "IPCOperationType_code DESTROY_INFO = 1"
| "IPCOperationType_code MAP_INFO = 2"
| "IPCOperationType_code UNMAP_INFO = 3"

text \<open>The record with the member of its union that its type selects.\<close>

datatype IPCMemRecord =
    SetInfo u64 u64 string
  | DestroyInfo string
  | MapInfo u64 string
  | UnmapInfo u64

primrec ipc_type :: "IPCMemRecord \<Rightarrow> IPCOperationType" where
  "ipc_type (SetInfo a n k) = SET_INFO"
| "ipc_type (DestroyInfo k) = DESTROY_INFO"
| "ipc_type (MapInfo a k) = MAP_INFO"
| "ipc_type (UnmapInfo a) = UNMAP_INFO"

definition IPC_NAME_SIZE :: u64 where
  "IPC_NAME_SIZE = 64"

text \<open>A name array is zeroed before the name is copied to it.\<close>

definition name_bytes :: "string \<Rightarrow> u8 list" where
  "name_bytes k = take 64 (bytes_of_str k @ replicate 64 0)"

primrec ipc_payload :: "IPCMemRecord \<Rightarrow> u8 list" where
  "ipc_payload (SetInfo a n k) = le_bytes 8 (unat a) @ le_bytes 8 (unat n) @ name_bytes k"
| "ipc_payload (DestroyInfo k) = name_bytes k"
| "ipc_payload (MapInfo a k) = le_bytes 8 (unat a) @ name_bytes k"
| "ipc_payload (UnmapInfo a) = le_bytes 8 (unat a)"

text \<open>Four bytes of type, four of padding, and the union, which is as long as its longest member.\<close>

definition IPCMemRecord_bytes :: "IPCMemRecord \<Rightarrow> u8 list" where
  "IPCMemRecord_bytes r =
     le_bytes 4 (unat (IPCOperationType_code (ipc_type r))) @ [0, 0, 0, 0] @ take 80 (ipc_payload r @ replicate 80 0)"

record IPCResponse =
  rs_type :: u32
  rs_status :: u32

definition empty_response :: IPCResponse where
  "empty_response = \<lparr>rs_type = 0, rs_status = 0\<rparr>"

definition IPCResponse_bytes :: "IPCResponse \<Rightarrow> u8 list" where
  "IPCResponse_bytes r = le_bytes 4 (unat (rs_type r)) @ le_bytes 4 (unat (rs_status r))"

definition IPCResponse_of :: "u8 list \<Rightarrow> IPCResponse" where
  "IPCResponse_of bs =
     \<lparr>rs_type = word_of_nat (le_val (take 4 bs)), rs_status = word_of_nat (le_val (take 4 (drop 4 bs)))\<rparr>"

section \<open>Request and response\<close>

definition QueryResponsePacketType :: "PacketType \<Rightarrow> PacketType" where
  "QueryResponsePacketType t =
     (case map_of [(IPC_RECORD, IPC_RESPONSE), (KERNEL_RECORD, KERNEL_RECORD_RESPONSE)] t of
        None \<Rightarrow> INVALID_PACKET
      | Some r \<Rightarrow> r)"

definition ipc_message :: "IPCMemRecord \<Rightarrow> u8 list" where
  "ipc_message r = Serialize [PacketHead_bytes IPC_RECORD, IPCMemRecord_bytes r]"

text \<open>
  \<open>Interact\<close>: notify and wait. \<open>reply\<close> is what \<open>Wait\<close> put in the message; a type that is not the expected
  one is a failure, a response that is too short is not.
\<close>

definition Interact :: "PacketType \<Rightarrow> u8 list \<Rightarrow> u8 list \<Rightarrow> IPCResponse \<Rightarrow> 'd hook_state \<Rightarrow> (bool \<times> IPCResponse) \<times> 'd hook_state" where
  "Interact packetType record_bytes reply response s =
     (let s1 = Notify LocalDev (Serialize [PacketHead_bytes packetType, record_bytes]) s in
      if length reply = 0 then ((False, response), s1)
      else let (ok, ty) = Deserialize reply (replicate 4 0) in
        if \<not> ok then ((False, response), s1)
        else if le_val ty \<noteq> PacketType_code (QueryResponsePacketType packetType) then ((False, response), s1)
        else let (ok2, bs) = Deserialize (drop 4 reply) (IPCResponse_bytes response)
             in ((True, if ok2 then IPCResponse_of bs else response), s1))"

text \<open>What \<open>IPCInteract\<close> logs.\<close>

datatype ipc_outcome = NoResponse | MismatchedResponse | FailureResponse | Succeeded

definition IPCInteract :: "IPCMemRecord \<Rightarrow> u8 list \<Rightarrow> 'd hook_state \<Rightarrow> ipc_outcome \<times> 'd hook_state" where
  "IPCInteract record reply s =
     (let ((ok, response), s1) = Interact IPC_RECORD (IPCMemRecord_bytes record) reply empty_response s in
      (if \<not> ok then NoResponse
       else if rs_type response \<noteq> IPCOperationType_code (ipc_type record) then MismatchedResponse
       else if rs_status response \<noteq> 0 then FailureResponse
       else Succeeded, s1))"

definition valid_name :: "string \<Rightarrow> u64 \<Rightarrow> string" where
  "valid_name key maxLen = take (unat (GetValidLength key maxLen)) key"

section \<open>Runtime hooks\<close>

text \<open>
  The hooks of the runtime replace \<open>Call\<close>. \<open>origin\<close> is the original function applied to the caller's
  arguments; it returns what it stores through its pointer arguments (the name, the address) beside its
  result. A null original function ends the call.
\<close>

definition IpcSetMemoryName_Call ::
  "'d hook_env \<Rightarrow> ('d hook_state \<Rightarrow> (rtError \<times> string) \<times> 'd hook_state) option \<Rightarrow> ptr \<Rightarrow> u64 \<Rightarrow> u32 \<Rightarrow> u8 list \<Rightarrow>
   'd hook_state \<Rightarrow> rtError \<times> 'd hook_state" where
  "IpcSetMemoryName_Call env origin p byteCount len reply s =
     (case origin of
        None \<Rightarrow> (RT_ERROR_RESERVED, s)
      | Some f \<Rightarrow>
          let ((ret, name), s1) = f s in
          if ret \<noteq> RT_ERROR_NONE then (ret, s1)
          else if sanitizing env
          then (ret, snd (IPCInteract (SetInfo p byteCount (valid_name name (min (ucast len) IPC_NAME_SIZE))) reply s1))
          else (ret, s1))"

definition IpcDestroyMemoryName_Call ::
  "'d hook_env \<Rightarrow> ('d hook_state \<Rightarrow> rtError \<times> 'd hook_state) option \<Rightarrow> string \<Rightarrow> u8 list \<Rightarrow>
   'd hook_state \<Rightarrow> rtError \<times> 'd hook_state" where
  "IpcDestroyMemoryName_Call env origin name reply s =
     (case origin of
        None \<Rightarrow> (RT_ERROR_RESERVED, s)
      | Some f \<Rightarrow>
          let (ret, s1) = f s in
          if ret \<noteq> RT_ERROR_NONE then (ret, s1)
          else if sanitizing env
          then (ret, snd (IPCInteract (DestroyInfo (valid_name name IPC_NAME_SIZE)) reply s1))
          else (ret, s1))"

text \<open>The opened address is \<open>None\<close> when the caller's pointer is null.\<close>

definition IpcOpenMemory_Call ::
  "'d hook_env \<Rightarrow> ('d hook_state \<Rightarrow> (rtError \<times> ptr option) \<times> 'd hook_state) option \<Rightarrow> string \<Rightarrow> u8 list \<Rightarrow>
   'd hook_state \<Rightarrow> rtError \<times> 'd hook_state" where
  "IpcOpenMemory_Call env origin name reply s =
     (case origin of
        None \<Rightarrow> (RT_ERROR_RESERVED, s)
      | Some f \<Rightarrow>
          let ((ret, out), s1) = f s in
          if ret \<noteq> RT_ERROR_NONE then (ret, s1)
          else if sanitizing env then
            (case out of
               None \<Rightarrow> (ret, s1)
             | Some p \<Rightarrow> (ret, snd (IPCInteract (MapInfo p (valid_name name IPC_NAME_SIZE)) reply s1)))
          else (ret, s1))"

definition IpcCloseMemory_Call ::
  "'d hook_env \<Rightarrow> ('d hook_state \<Rightarrow> rtError \<times> 'd hook_state) option \<Rightarrow> ptr \<Rightarrow> u8 list \<Rightarrow>
   'd hook_state \<Rightarrow> rtError \<times> 'd hook_state" where
  "IpcCloseMemory_Call env origin p reply s =
     (case origin of
        None \<Rightarrow> (RT_ERROR_RESERVED, s)
      | Some f \<Rightarrow>
          let (ret, s1) = f s in
          if ret \<noteq> RT_ERROR_NONE then (ret, s1)
          else if sanitizing env then (ret, snd (IPCInteract (UnmapInfo p) reply s1))
          else (ret, s1))"

section \<open>ACL hooks\<close>

datatype IPCMemActor = SHARER | SHAREE

record IPCMemInfo =
  im_actor :: IPCMemActor
  im_devPtr :: ptr

type_synonym ipc_map = "(string \<times> IPCMemInfo) list"

definition AclrtIpcMemGetExportKey_Post ::
  "'d hook_env \<Rightarrow> ptr \<Rightarrow> u64 \<Rightarrow> string option \<Rightarrow> u64 \<Rightarrow> u8 list \<Rightarrow> aclError \<Rightarrow> ipc_map \<times> 'd hook_state \<Rightarrow>
   aclError \<times> (ipc_map \<times> 'd hook_state)" where
  "AclrtIpcMemGetExportKey_Post env devPtr len0 key len reply ret st =
     (if ret \<noteq> ACL_ERROR_NONE then (ret, st)
      else if sanitizing env then
        (case key of
           None \<Rightarrow> (ret, st)
         | Some key_ \<Rightarrow>
             let k = valid_name key_ (min len IPC_NAME_SIZE) in
             (ret, (omap_insert k \<lparr>im_actor = SHARER, im_devPtr = devPtr\<rparr> (fst st),
                    snd (IPCInteract (SetInfo devPtr len0 k) reply (snd st)))))
      else (ret, st))"

definition AclrtIpcMemImportByKey_Post ::
  "'d hook_env \<Rightarrow> ptr option \<Rightarrow> string option \<Rightarrow> u8 list \<Rightarrow> aclError \<Rightarrow> ipc_map \<times> 'd hook_state \<Rightarrow>
   aclError \<times> (ipc_map \<times> 'd hook_state)" where
  "AclrtIpcMemImportByKey_Post env devPtr key reply ret st =
     (if sanitizing env then
        (case key of
           None \<Rightarrow> (ret, st)
         | Some key_ \<Rightarrow>
             let k = valid_name key_ IPC_NAME_SIZE in
             (case devPtr of
                None \<Rightarrow> (ret, st)
              | Some p \<Rightarrow>
                  (ret, (omap_insert k \<lparr>im_actor = SHAREE, im_devPtr = p\<rparr> (fst st),
                         snd (IPCInteract (MapInfo p k) reply (snd st))))))
      else (ret, st))"

definition AclrtIpcMemClose_Post ::
  "'d hook_env \<Rightarrow> string option \<Rightarrow> u8 list \<Rightarrow> aclError \<Rightarrow> ipc_map \<times> 'd hook_state \<Rightarrow>
   aclError \<times> (ipc_map \<times> 'd hook_state)" where
  "AclrtIpcMemClose_Post env key reply ret st =
     (if sanitizing env then
        (case key of
           None \<Rightarrow> (ret, st)
         | Some key_ \<Rightarrow>
             let k = valid_name key_ IPC_NAME_SIZE in
             (case map_of (fst st) k of
                None \<Rightarrow> (ret, st)
              | Some info \<Rightarrow>
                  let record = (if im_actor info = SHARER then DestroyInfo k else UnmapInfo (im_devPtr info))
                  in (ret, (omap_erase k (fst st), snd (IPCInteract record reply (snd st))))))
      else (ret, st))"

section \<open>Entry points\<close>

text \<open>A runtime entry point; \<open>origin\<close> also returns what it stores through pointers, which \<open>ret\<close> leaves out.\<close>

definition only_ret :: "('s \<Rightarrow> ('r \<times> 'a) \<times> 's) \<Rightarrow> 's \<Rightarrow> 'r \<times> 's" where
  "only_ret f s = (let ((ret, out), s1) = f s in (ret, s1))"

definition ipc_entry ::
  "string \<Rightarrow> ('d hook_state \<Rightarrow> rtError \<times> 'd hook_state) option \<Rightarrow> ('d hook_state \<Rightarrow> rtError \<times> 'd hook_state) \<Rightarrow>
   'd hook_state \<Rightarrow> rtError \<times> 'd hook_state" where
  "ipc_entry func origin call s =
     (if ParentInCallStack (hs_layers s) func
      then (case origin of None \<Rightarrow> (RT_ERROR_RESERVED, s) | Some f \<Rightarrow> f s)
      else call s)"

definition rtIpcSetMemoryName ::
  "'d hook_env \<Rightarrow> ('d hook_state \<Rightarrow> (rtError \<times> string) \<times> 'd hook_state) option \<Rightarrow> ptr \<Rightarrow> u64 \<Rightarrow> u32 \<Rightarrow> u8 list \<Rightarrow>
   'd hook_state \<Rightarrow> rtError \<times> 'd hook_state" where
  "rtIpcSetMemoryName env origin p byteCount len reply =
     ipc_entry ''rtIpcSetMemoryName'' (map_option only_ret origin) (IpcSetMemoryName_Call env origin p byteCount len reply)"

definition rtIpcDestroyMemoryName ::
  "'d hook_env \<Rightarrow> ('d hook_state \<Rightarrow> rtError \<times> 'd hook_state) option \<Rightarrow> string \<Rightarrow> u8 list \<Rightarrow>
   'd hook_state \<Rightarrow> rtError \<times> 'd hook_state" where
  "rtIpcDestroyMemoryName env origin name reply =
     ipc_entry ''rtIpcDestroyMemoryName'' origin (IpcDestroyMemoryName_Call env origin name reply)"

definition rtIpcOpenMemory ::
  "'d hook_env \<Rightarrow> ('d hook_state \<Rightarrow> (rtError \<times> ptr option) \<times> 'd hook_state) option \<Rightarrow> string \<Rightarrow> u8 list \<Rightarrow>
   'd hook_state \<Rightarrow> rtError \<times> 'd hook_state" where
  "rtIpcOpenMemory env origin name reply =
     ipc_entry ''rtIpcOpenMemory'' (map_option only_ret origin) (IpcOpenMemory_Call env origin name reply)"

definition rtIpcCloseMemory ::
  "'d hook_env \<Rightarrow> ('d hook_state \<Rightarrow> rtError \<times> 'd hook_state) option \<Rightarrow> ptr \<Rightarrow> u8 list \<Rightarrow>
   'd hook_state \<Rightarrow> rtError \<times> 'd hook_state" where
  "rtIpcCloseMemory env origin p reply =
     ipc_entry ''rtIpcCloseMemory'' origin (IpcCloseMemory_Call env origin p reply)"

text \<open>The ACL's entry points push their name on the layer stack for the time of the call.\<close>

definition acl_ipc_entry ::
  "string \<Rightarrow> ('a, 'r, ipc_map \<times> 'd hook_state) hijacked_func \<Rightarrow> 'a \<Rightarrow> ipc_map \<times> 'd hook_state \<Rightarrow>
   'r \<times> (ipc_map \<times> 'd hook_state)" where
  "acl_ipc_entry func h args st =
     (let (r, (m, s1)) = hijacked_Call h args (fst st, (snd st)\<lparr>hs_layers := layer_Push func (hs_layers (snd st))\<rparr>)
      in (r, (m, s1\<lparr>hs_layers := layer_Pop (hs_layers s1)\<rparr>)))"

definition with_out ::
  "('a \<Rightarrow> aclError \<Rightarrow> 's \<Rightarrow> aclError \<times> 's) \<Rightarrow> aclError \<times> 'a \<Rightarrow> 's \<Rightarrow> (aclError \<times> 'a) \<times> 's" where
  "with_out post r s = (let (ret, s1) = post (snd r) (fst r) s in ((ret, snd r), s1))"

definition aclrtIpcMemGetExportKeyImpl where
  "aclrtIpcMemGetExportKeyImpl env origin devPtr len0 len reply =
     acl_ipc_entry ''aclrtIpcMemGetExportKeyImpl''
       (hook origin (\<lambda>_ s. s)
         (with_out (\<lambda>key. AclrtIpcMemGetExportKey_Post env devPtr len0 key len reply)) (ACL_ERROR_INTERNAL_ERROR, None))
       (devPtr, len0, len)"

definition aclrtIpcMemImportByKeyImpl where
  "aclrtIpcMemImportByKeyImpl env origin key reply =
     acl_ipc_entry ''aclrtIpcMemImportByKeyImpl''
       (hook origin (\<lambda>_ s. s)
         (with_out (\<lambda>devPtr. AclrtIpcMemImportByKey_Post env devPtr key reply)) (ACL_ERROR_INTERNAL_ERROR, None)) key"

definition aclrtIpcMemCloseImpl where
  "aclrtIpcMemCloseImpl env origin key reply =
     acl_ipc_entry ''aclrtIpcMemCloseImpl''
       (hook origin (\<lambda>_ s. s) (AclrtIpcMemClose_Post env key reply) ACL_ERROR_INTERNAL_ERROR) key"

section \<open>The state of the interaction does not depend on the replies\<close>

lemma IPCInteract_state [simp]: "snd (IPCInteract r reply s) = Notify LocalDev (ipc_message r) s"
  by (simp add: IPCInteract_def Interact_def ipc_message_def Let_def split: prod.split)

lemma length_name_bytes [simp]: "length (name_bytes k) = 64"
  by (simp add: name_bytes_def)

lemma length_ipc_payload: "length (ipc_payload r) \<le> 80"
  by (cases r) simp_all

lemma length_ipc_message: "length (ipc_message r) = 92"
  using length_ipc_payload [of r] by (simp add: ipc_message_def IPCMemRecord_bytes_def Serialize_def)

lemma unat_GetValidLength: "unat (GetValidLength k IPC_NAME_SIZE) \<le> 63"
proof -
  have "GetValidLength k IPC_NAME_SIZE \<le> 63" by (simp add: GetValidLength_def IPC_NAME_SIZE_def Let_def)
  then show ?thesis by (simp add: word_le_nat_alt)
qed

text \<open>
  The name put in a record is shorter than its array, has no NUL and is a prefix of the key, and a
  record's message has the length the checker reads: the copy and the NUL after it stay inside the array.
\<close>

lemma ipc_name_fits:
  "unat (GetValidLength key IPC_NAME_SIZE) < 64 \<and> CHR 0x00 \<notin> set (valid_name key IPC_NAME_SIZE) \<and>
   (\<exists>rest. key = valid_name key IPC_NAME_SIZE @ rest) \<and>
   drop 63 (name_bytes (valid_name key IPC_NAME_SIZE)) = [0] \<and> length (ipc_message r) = 92"
proof -
  have a: "unat (GetValidLength key IPC_NAME_SIZE) < 64"
    using unat_GetValidLength [of key] by simp
  define tw where "tw = takeWhile (\<lambda>c. c \<noteq> CHR 0x00) (take 64 key)"
  have "length tw \<le> 64" unfolding tw_def using length_takeWhile_le [of _ "take 64 key"] by (rule order_trans) simp
  then have n: "unat (word_of_nat (length tw) :: u64) = length tw" by (simp add: unsigned_of_nat take_bit_nat_eq_self)
  have "GetValidLength key IPC_NAME_SIZE \<le> word_of_nat (length tw)"
    by (simp add: GetValidLength_def IPC_NAME_SIZE_def Let_def tw_def)
  then have le: "unat (GetValidLength key IPC_NAME_SIZE) \<le> length tw" by (simp only: word_le_nat_alt n)
  have split: "take 64 key = tw @ dropWhile (\<lambda>c. c \<noteq> CHR 0x00) (take 64 key)" by (simp add: tw_def)
  have "take m key = take m tw" if "m < 64" and "m \<le> length tw" for m
  proof -
    have "take m key = take m (take 64 key)" using that(1) by (simp add: min_def)
    also have "\<dots> = take m tw" by (subst split) (use that(2) in simp)
    finally show ?thesis .
  qed
  then have "valid_name key IPC_NAME_SIZE = take (unat (GetValidLength key IPC_NAME_SIZE)) tw"
    using le a by (simp add: valid_name_def)
  then have b: "CHR 0x00 \<notin> set (valid_name key IPC_NAME_SIZE)"
    unfolding tw_def by (metis (mono_tags, lifting) in_set_takeD set_takeWhileD)
  have "length (valid_name key IPC_NAME_SIZE) < 64" using a by (simp add: valid_name_def)
  then have d: "drop 63 (name_bytes (valid_name key IPC_NAME_SIZE)) = [0]"
    by (simp add: name_bytes_def bytes_of_str_def drop_take Suc_diff_le flip: replicate_Suc) simp
  show ?thesis using a b d length_ipc_message by (metis append_take_drop_id valid_name_def)
qed

section \<open>The checker's view of the shared memory\<close>














section \<open>The program's view\<close>

























end
