(* ===== verification/Communication.thy ===== *)
theory Communication
  imports Prelude
begin

text \<open>
  The channel between the program and the tool: \<open>csrc/core/DomainSocket.cpp\<close> over the socket calls of the
  operating system, \<open>Communication.cpp\<close> (the in-memory channel, the socket server and client, and the
  wrappers that choose between them) and the process ends \<open>LocalProcess.cpp\<close> and \<open>RemoteProcess.cpp\<close>.
  The socket calls are a record of functions on a state of their own: \<open>None\<close> is the result \<open>-1\<close>. Loops that
  depend on them need not end, so they are partial functions whose value is \<open>None\<close> when they do not.
\<close>

section \<open>Socket calls\<close>

datatype sockopt = RCVTIMEO | PASSCRED

record 'o sock_api =
  sk_socket :: "'o \<Rightarrow> nat option \<times> 'o"
  sk_setsockopt :: "nat \<Rightarrow> sockopt \<Rightarrow> 'o \<Rightarrow> bool \<times> 'o"
  sk_bind :: "nat \<Rightarrow> string \<Rightarrow> 'o \<Rightarrow> bool \<times> 'o"
  sk_listen :: "nat \<Rightarrow> nat \<Rightarrow> 'o \<Rightarrow> bool \<times> 'o"
  sk_accept :: "nat \<Rightarrow> 'o \<Rightarrow> nat option \<times> 'o"
  sk_peercred :: "nat \<Rightarrow> 'o \<Rightarrow> (nat \<times> nat) option \<times> 'o"
  sk_ids :: "nat \<times> nat"
  sk_connect :: "nat \<Rightarrow> string \<Rightarrow> 'o \<Rightarrow> bool \<times> 'o"
  sk_read :: "nat \<Rightarrow> nat \<Rightarrow> 'o \<Rightarrow> string option \<times> 'o"
  sk_write :: "nat \<Rightarrow> string \<Rightarrow> 'o \<Rightarrow> nat option \<times> 'o"
  sk_close :: "nat \<Rightarrow> 'o \<Rightarrow> 'o"

section \<open>Domain sockets\<close>

text \<open>An abstract address: \<open>sun_path\<close> has 108 bytes, the first of which stays 0.\<close>

definition socket_address :: "string \<Rightarrow> string" where
  "socket_address path = CHR 0x00 # take (108 - 2) path"

text \<open>The descriptor is stored before the options are set, and a failure does not close it.\<close>

definition CreateSocket :: "'o sock_api \<Rightarrow> 'o \<Rightarrow> (bool \<times> nat option) \<times> 'o" where
  "CreateSocket api o0 =
     (let (sfd, o1) = sk_socket api o0 in
      case sfd of
        None \<Rightarrow> ((False, None), o1)
      | Some fd \<Rightarrow>
          let (ok1, o2) = sk_setsockopt api fd RCVTIMEO o1 in
          if \<not> ok1 then ((False, Some fd), o2)
          else let (ok2, o3) = sk_setsockopt api fd PASSCRED o2 in ((ok2, Some fd), o3))"

record sock_server =
  ss_path :: string
  ss_fd :: "nat option"
  ss_max :: nat
  ss_cfds :: "nat list"

definition new_sock_server :: "string \<Rightarrow> nat \<Rightarrow> sock_server" where
  "new_sock_server path n = \<lparr>ss_path = path, ss_fd = None, ss_max = n, ss_cfds = []\<rparr>"

definition ListenAndBind :: "'o sock_api \<Rightarrow> sock_server \<times> 'o \<Rightarrow> bool \<times> (sock_server \<times> 'o)" where
  "ListenAndBind api st =
     (let (srv, o0) = st;
          ((ok, sfd), o1) = CreateSocket api o0;
          srv1 = srv\<lparr>ss_fd := sfd\<rparr>
      in case sfd of
           None \<Rightarrow> (False, (srv1, o1))
         | Some fd \<Rightarrow>
             if \<not> ok then (False, (srv1, o1))
             else let (b, o2) = sk_bind api fd (socket_address (ss_path srv)) o1 in
               if \<not> b then (False, (srv1, o2))
               else let (l, o3) = sk_listen api fd (ss_max srv) o2 in (l, (srv1, o3)))"

definition Accept :: "'o sock_api \<Rightarrow> sock_server \<times> 'o \<Rightarrow> nat option \<times> (sock_server \<times> 'o)" where
  "Accept api st =
     (let (srv, o0) = st in
      if length (ss_cfds srv) \<ge> ss_max srv then (None, st)
      else case ss_fd srv of
        None \<Rightarrow> (None, st)
      | Some sfd \<Rightarrow>
          let (acc, o1) = sk_accept api sfd o0 in
          (case acc of
             None \<Rightarrow> (None, (srv, o1))
           | Some cfd \<Rightarrow>
               let (ok, o2) = sk_setsockopt api cfd RCVTIMEO o1 in
               if \<not> ok then (None, (srv, sk_close api cfd o2))
               else let (cred, o3) = sk_peercred api cfd o2 in
                 (case cred of
                    None \<Rightarrow> (None, (srv, o3))
                  | Some c \<Rightarrow>
                      if c \<noteq> sk_ids api then (None, (srv, o3))
                      else (Some (length (ss_cfds srv)), (srv\<lparr>ss_cfds := ss_cfds srv @ [cfd]\<rparr>, o3)))))"

definition GetClientNum :: "sock_server \<Rightarrow> nat" where
  "GetClientNum srv = length (ss_cfds srv)"

definition cfd_of :: "sock_server \<Rightarrow> nat \<Rightarrow> nat option" where
  "cfd_of srv i = (if i < length (ss_cfds srv) then Some (ss_cfds srv ! i) else None)"

text \<open>The message is assigned only when something was read.\<close>

definition DomainSocketServer_Read ::
  "'o sock_api \<Rightarrow> sock_server \<Rightarrow> nat \<Rightarrow> string \<Rightarrow> nat \<Rightarrow> 'o \<Rightarrow> (nat option \<times> string) \<times> 'o" where
  "DomainSocketServer_Read api srv i message maxBytes o0 =
     (case cfd_of srv i of
        None \<Rightarrow> ((None, message), o0)
      | Some cfd \<Rightarrow>
          let (r, o1) = sk_read api cfd maxBytes o0 in
          (case r of
             None \<Rightarrow> ((None, message), o1)
           | Some d \<Rightarrow> ((Some (length d), if length d > 0 then d else message), o1)))"

partial_function (option) write_loop ::
  "'o sock_api \<Rightarrow> nat \<Rightarrow> string \<Rightarrow> nat \<Rightarrow> 'o \<Rightarrow> ((bool \<times> nat) \<times> 'o) option" where
  "write_loop api fd buffer sent o0 =
     (if buffer = [] then Some ((True, sent), o0)
      else case sk_write api fd buffer o0 of
        (None, o1) \<Rightarrow> Some ((False, sent), o1)
      | (Some n, o1) \<Rightarrow> write_loop api fd (drop n buffer) (sent + n) o1)"

definition DomainSocketServer_Write ::
  "'o sock_api \<Rightarrow> sock_server \<Rightarrow> nat \<Rightarrow> string \<Rightarrow> 'o \<Rightarrow> ((bool \<times> nat) \<times> 'o) option" where
  "DomainSocketServer_Write api srv i message o0 =
     (case cfd_of srv i of None \<Rightarrow> Some ((False, 0), o0) | Some cfd \<Rightarrow> write_loop api cfd message 0 o0)"

record sock_client =
  sc_path :: string
  sc_fd :: "nat option"

text \<open>Every attempt creates a socket; the descriptor of an earlier one is overwritten.\<close>

definition DomainSocketClient_Connect :: "'o sock_api \<Rightarrow> sock_client \<times> 'o \<Rightarrow> bool \<times> (sock_client \<times> 'o)" where
  "DomainSocketClient_Connect api st =
     (let (cl, o0) = st;
          ((ok, sfd), o1) = CreateSocket api o0;
          cl1 = cl\<lparr>sc_fd := sfd\<rparr>
      in case sfd of
           None \<Rightarrow> (False, (cl1, o1))
         | Some fd \<Rightarrow>
             if \<not> ok then (False, (cl1, o1))
             else let (c, o2) = sk_connect api fd (socket_address (sc_path cl)) o1 in (c, (cl1, o2)))"

definition DomainSocketClient_Read ::
  "'o sock_api \<Rightarrow> sock_client \<Rightarrow> string \<Rightarrow> nat \<Rightarrow> 'o \<Rightarrow> (nat option \<times> string) \<times> 'o" where
  "DomainSocketClient_Read api cl message maxBytes o0 =
     (case sc_fd cl of
        None \<Rightarrow> ((None, message), o0)
      | Some fd \<Rightarrow>
          let (r, o1) = sk_read api fd maxBytes o0 in
          (case r of
             None \<Rightarrow> ((None, message), o1)
           | Some d \<Rightarrow> ((Some (length d), if length d > 0 then d else message), o1)))"

definition DomainSocketClient_Write :: "'o sock_api \<Rightarrow> sock_client \<Rightarrow> string \<Rightarrow> 'o \<Rightarrow> ((bool \<times> nat) \<times> 'o) option" where
  "DomainSocketClient_Write api cl message o0 =
     (case sc_fd cl of None \<Rightarrow> Some ((False, 0), o0) | Some fd \<Rightarrow> write_loop api fd message 0 o0)"

section \<open>The in-memory channel\<close>

record LocalComm =
  lc_s2c :: "string list"
  lc_c2s :: "string list"

definition LocalComm_Clear :: "LocalComm \<Rightarrow> LocalComm" where
  "LocalComm_Clear c = c\<lparr>lc_s2c := [], lc_c2s := []\<rparr>"

definition LocalComm_Read :: "string \<Rightarrow> string \<Rightarrow> LocalComm \<Rightarrow> (int \<times> string) \<times> LocalComm" where
  "LocalComm_Read flag msg c =
     (if flag = ''s'' \<and> lc_c2s c \<noteq> []
      then ((int (length (hd (lc_c2s c))), hd (lc_c2s c)), c\<lparr>lc_c2s := tl (lc_c2s c)\<rparr>)
      else if flag = ''c'' \<and> lc_s2c c \<noteq> []
      then ((int (length (hd (lc_s2c c))), hd (lc_s2c c)), c\<lparr>lc_s2c := tl (lc_s2c c)\<rparr>)
      else ((0, msg), c))"

definition LocalComm_Write :: "string \<Rightarrow> string \<Rightarrow> LocalComm \<Rightarrow> int \<times> LocalComm" where
  "LocalComm_Write flag msg c =
     (if flag = ''s'' then (int (length msg), c\<lparr>lc_s2c := lc_s2c c @ [msg]\<rparr>)
      else if flag = ''c'' then (int (length msg), c\<lparr>lc_c2s := lc_c2s c @ [msg]\<rparr>)
      else (0, c))"

section \<open>Server and client\<close>

datatype CommType = MEMORY | SOCKET | MAX

definition RECV_BUFF_SIZE :: nat where
  "RECV_BUFF_SIZE = 1024"

text \<open>The socket of a server is dropped when it cannot be bound.\<close>

record server =
  sv_type :: CommType
  sv_socket :: "sock_server option"

definition maxClientNum :: nat where
  "maxClientNum = 256"

definition new_server :: "CommType \<Rightarrow> string \<Rightarrow> server" where
  "new_server type path =
     \<lparr>sv_type = type, sv_socket = (if type = SOCKET then Some (new_sock_server path maxClientNum) else None)\<rparr>"

definition Server_Start :: "'o sock_api \<Rightarrow> server \<times> 'o \<Rightarrow> bool \<times> (server \<times> 'o)" where
  "Server_Start api st =
     (let (srv, o0) = st in
      if sv_type srv = MEMORY then (True, st)
      else if sv_type srv = SOCKET then
        (case sv_socket srv of
           None \<Rightarrow> (False, st)
         | Some ss \<Rightarrow>
             let (ok, (ss1, o1)) = ListenAndBind api (ss, o0)
             in (ok, (srv\<lparr>sv_socket := (if ok then Some ss1 else None)\<rparr>, o1)))
      else (False, st))"

definition Server_Read ::
  "'o sock_api \<Rightarrow> server \<Rightarrow> nat \<Rightarrow> string \<Rightarrow> LocalComm \<times> 'o \<Rightarrow> (int \<times> string) \<times> (LocalComm \<times> 'o)" where
  "Server_Read api srv i msg w =
     (if sv_type srv = MEMORY then
        (let (r, c) = LocalComm_Read ''s'' msg (fst w) in (r, (c, snd w)))
      else if sv_type srv = SOCKET then
        (case sv_socket srv of
           None \<Rightarrow> ((-1, msg), w)
         | Some ss \<Rightarrow>
             let ((r, msg1), o1) = DomainSocketServer_Read api ss i msg 1024 (snd w)
             in ((case r of None \<Rightarrow> -1 | Some n \<Rightarrow> int n, msg1), (fst w, o1)))
      else ((0, msg), w))"

definition Server_Write :: "'o sock_api \<Rightarrow> server \<Rightarrow> nat \<Rightarrow> string \<Rightarrow> LocalComm \<times> 'o \<Rightarrow> (int \<times> (LocalComm \<times> 'o)) option" where
  "Server_Write api srv i msg w =
     (if sv_type srv = MEMORY then
        (let (n, c) = LocalComm_Write ''s'' msg (fst w) in Some (n, (c, snd w)))
      else if sv_type srv = SOCKET then
        (case sv_socket srv of
           None \<Rightarrow> Some (-1, w)
         | Some ss \<Rightarrow>
             (case DomainSocketServer_Write api ss i msg (snd w) of
                None \<Rightarrow> None
              | Some ((ok, n), o1) \<Rightarrow> Some (if ok then int n else -1, (fst w, o1))))
      else Some (0, w))"

text \<open>
  One round of the thread that accepts clients, and what it starts: a reader when there is a message handler,
  and the connection handler. One round of a reader calls the handler with what it read.
\<close>

datatype server_event = StartReader nat | ClientConnected nat | MessageFrom nat string

definition accept_round ::
  "'o sock_api \<Rightarrow> bool \<Rightarrow> bool \<Rightarrow> sock_server \<times> 'o \<Rightarrow> server_event list \<times> (sock_server \<times> 'o)" where
  "accept_round api msgHook connectHook st =
     (if GetClientNum (fst st) < ss_max (fst st) then
        (case Accept api st of
           (None, st1) \<Rightarrow> ([], st1)
         | (Some i, st1) \<Rightarrow>
             ((if msgHook then [StartReader i] else []) @ (if connectHook then [ClientConnected i] else []), st1))
      else ([], st))"

definition listen_round :: "'o sock_api \<Rightarrow> sock_server \<Rightarrow> nat \<Rightarrow> string \<Rightarrow> 'o \<Rightarrow> (server_event list \<times> string) \<times> 'o" where
  "listen_round api srv i msg o0 =
     (let ((r, msg1), o1) = DomainSocketServer_Read api srv i msg 1024 o0 in
      case r of
        None \<Rightarrow> (([], msg1), o1)
      | Some n \<Rightarrow> ((if n \<le> 0 then [] else [MessageFrom i msg1], msg1), o1))"

text \<open>The client's path comes from the environment, empty when it is not set.\<close>

record client =
  cl_type :: CommType
  cl_socket :: "sock_client option"

definition new_client :: "CommType \<Rightarrow> string \<Rightarrow> client" where
  "new_client type envPath =
     \<lparr>cl_type = type,
      cl_socket = (if type = SOCKET \<and> envPath \<noteq> [] then Some \<lparr>sc_path = envPath, sc_fd = None\<rparr> else None)\<rparr>"

definition Client_Connect :: "'o sock_api \<Rightarrow> client \<times> 'o \<Rightarrow> bool \<times> (client \<times> 'o)" where
  "Client_Connect api st =
     (let (cl, o0) = st in
      if cl_type cl = MEMORY then (True, st)
      else if cl_type cl = SOCKET then
        (case cl_socket cl of
           None \<Rightarrow> (False, st)
         | Some sc \<Rightarrow>
             let (ok, (sc1, o1)) = DomainSocketClient_Connect api (sc, o0)
             in (ok, (cl\<lparr>cl_socket := Some sc1\<rparr>, o1)))
      else (False, st))"

definition Client_Read ::
  "'o sock_api \<Rightarrow> client \<Rightarrow> string \<Rightarrow> LocalComm \<times> 'o \<Rightarrow> (int \<times> string) \<times> (LocalComm \<times> 'o)" where
  "Client_Read api cl msg w =
     (if cl_type cl = MEMORY then
        (let (r, c) = LocalComm_Read ''c'' msg (fst w) in (r, (c, snd w)))
      else if cl_type cl = SOCKET then
        (case cl_socket cl of
           None \<Rightarrow> ((-1, msg), w)
         | Some sc \<Rightarrow>
             let ((r, msg1), o1) = DomainSocketClient_Read api sc msg RECV_BUFF_SIZE (snd w)
             in ((case r of None \<Rightarrow> -1 | Some n \<Rightarrow> int n, msg1), (fst w, o1)))
      else ((0, msg), w))"

definition Client_Write :: "'o sock_api \<Rightarrow> client \<Rightarrow> string \<Rightarrow> LocalComm \<times> 'o \<Rightarrow> (int \<times> (LocalComm \<times> 'o)) option" where
  "Client_Write api cl msg w =
     (if cl_type cl = MEMORY then
        (let (n, c) = LocalComm_Write ''c'' msg (fst w) in Some (n, (c, snd w)))
      else if cl_type cl = SOCKET then
        (case cl_socket cl of
           None \<Rightarrow> Some (-1, w)
         | Some sc \<Rightarrow>
             (case DomainSocketClient_Write api sc msg (snd w) of
                None \<Rightarrow> None
              | Some ((ok, n), o1) \<Rightarrow> Some (if ok then int n else -1, (fst w, o1))))
      else Some (0, w))"

section \<open>The processes' ends\<close>

definition retryLimit :: nat where
  "retryLimit = 50"

text \<open>The loop of the constructor ends connected, or after the retries; the result is with the retry count.\<close>

function connect_loop :: "'o sock_api \<Rightarrow> nat \<Rightarrow> client \<times> 'o \<Rightarrow> (bool \<times> nat) \<times> (client \<times> 'o)" where
  "connect_loop api retryTimes st =
     (let (ok, st1) = Client_Connect api st in
      if \<not> ok \<and> retryTimes \<le> retryLimit then connect_loop api (retryTimes + 1) st1
      else ((ok, retryTimes), st1))"
  by pat_completeness auto
termination
  by (relation "measure (\<lambda>(api, n, st). Suc retryLimit - n)") auto

declare connect_loop.simps [simp del]

text \<open>Also whether the constructor logs a failure.\<close>

definition new_LocalProcess :: "'o sock_api \<Rightarrow> CommType \<Rightarrow> string \<Rightarrow> 'o \<Rightarrow> (bool \<times> bool) \<times> (client \<times> 'o)" where
  "new_LocalProcess api type envPath o0 =
     (let ((ok, n), st) = connect_loop api 0 (new_client type envPath, o0)
      in ((ok, n > retryLimit), st))"



partial_function (option) wait_loop ::
  "'o sock_api \<Rightarrow> client \<Rightarrow> nat \<Rightarrow> nat \<Rightarrow> int \<Rightarrow> string \<Rightarrow> string \<Rightarrow> LocalComm \<times> 'o \<Rightarrow> (string \<times> (LocalComm \<times> 'o)) option" where
  "wait_loop api cl timeOut cnt len recvMsg msg w =
     (if msg = [] \<or> len = int RECV_BUFF_SIZE then
        (case Client_Read api cl recvMsg w of
           ((len1, recvMsg1), w1) \<Rightarrow>
             if len1 > 0 then wait_loop api cl timeOut cnt len1 recvMsg1 (msg @ recvMsg1) w1
             else if timeOut > 0 then
               (if cnt \<ge> timeOut then Some (msg, w1)
                else wait_loop api cl timeOut (cnt + 1) len1 recvMsg1 msg w1)
             else wait_loop api cl timeOut cnt len1 recvMsg1 msg w1)
      else Some (msg, w))"

definition LocalProcess_Wait ::
  "'o sock_api \<Rightarrow> client \<Rightarrow> nat \<Rightarrow> LocalComm \<times> 'o \<Rightarrow> ((int \<times> string) \<times> (LocalComm \<times> 'o)) option" where
  "LocalProcess_Wait api cl timeOut w =
     (case wait_loop api cl timeOut 0 0 [] [] w of
        None \<Rightarrow> None
      | Some (msg, w1) \<Rightarrow> Some ((int (length msg), msg), w1))"

datatype LogLevel = DEBUG | INFO | WARN | ERROR

primrec level_str :: "LogLevel \<Rightarrow> string" where
  "level_str DEBUG = ''[LOG][DEBUG]''"
| "level_str INFO = ''[LOG][INFO]''"
| "level_str WARN = ''[LOG][WARN]''"
| "level_str ERROR = ''[LOG][ERROR]''"

definition LocalProcess_Log :: "'o sock_api \<Rightarrow> client \<Rightarrow> LogLevel \<Rightarrow> string \<Rightarrow> LocalComm \<times> 'o \<Rightarrow> (LocalComm \<times> 'o) option" where
  "LocalProcess_Log api cl level msg w = map_option snd (Client_Write api cl (level_str level @ '' '' @ msg @ '';'') w)"

definition RemoteProcess_Wait ::
  "'o sock_api \<Rightarrow> server \<Rightarrow> nat \<Rightarrow> string \<Rightarrow> LocalComm \<times> 'o \<Rightarrow> (int \<times> string) \<times> (LocalComm \<times> 'o)" where
  "RemoteProcess_Wait api srv i msg w = Server_Read api srv i msg w"

definition RemoteProcess_Notify ::
  "'o sock_api \<Rightarrow> server \<Rightarrow> nat \<Rightarrow> string \<Rightarrow> LocalComm \<times> 'o \<Rightarrow> (int \<times> (LocalComm \<times> 'o)) option" where
  "RemoteProcess_Notify api srv i msg w = Server_Write api srv i msg w"

section \<open>First in, first out\<close>

locale fifo =
  fixes push :: "'m \<Rightarrow> 's \<Rightarrow> 's"
    and pop :: "'s \<Rightarrow> 'm option \<times> 's"
    and queue :: "'s \<Rightarrow> 'm list"
  assumes push_queue: "queue (push m s) = queue s @ [m]"
    and pop_empty: "queue s = [] \<Longrightarrow> pop s = (None, s)"
    and pop_front: "queue s = m # ms \<Longrightarrow> fst (pop s) = Some m \<and> queue (snd (pop s)) = ms"
begin

fun pops :: "nat \<Rightarrow> 's \<Rightarrow> 'm list \<times> 's" where
  "pops 0 s = ([], s)"
| "pops (Suc n) s =
     (case pop s of
        (None, s1) \<Rightarrow> pops n s1
      | (Some m, s1) \<Rightarrow> let (ms, s2) = pops n s1 in (m # ms, s2))"

lemma pops_queue: "length (queue s) \<le> n \<Longrightarrow> fst (pops n s) = queue s \<and> queue (snd (pops n s)) = []"
proof (induction n arbitrary: s)
  case (Suc n)
  show ?case
  proof (cases "queue s")
    case Nil
    then show ?thesis using Suc by (simp add: pop_empty)
  next
    case (Cons m ms)
    obtain s1 where "pop s = (Some m, s1)" "queue s1 = ms" using pop_front [OF Cons] by (metis prod.collapse)
    with Cons Suc show ?thesis by (simp add: split_beta)
  qed
qed simp

lemma pushes_queue: "queue (fold push ms s) = queue s @ ms"
  by (induction ms arbitrary: s) (simp_all add: push_queue)

lemma delivered_in_order:
  "queue s = [] \<Longrightarrow> length ms \<le> n \<Longrightarrow> fst (pops n (fold push ms s)) = ms"
  using pops_queue [of "fold push ms s" n] by (simp add: pushes_queue)

end

definition comm_pop :: "string \<Rightarrow> LocalComm \<Rightarrow> string option \<times> LocalComm" where
  "comm_pop flag c =
     (if (flag = ''s'' \<and> lc_c2s c \<noteq> []) \<or> (flag = ''c'' \<and> lc_s2c c \<noteq> [])
      then (let ((n, m), c1) = LocalComm_Read flag [] c in (Some m, c1)) else (None, c))"

interpretation to_server: fifo "\<lambda>m c. snd (LocalComm_Write ''c'' m c)" "comm_pop ''s''" lc_c2s
  by unfold_locales (auto simp: LocalComm_Write_def comm_pop_def LocalComm_Read_def)

interpretation to_client: fifo "\<lambda>m c. snd (LocalComm_Write ''s'' m c)" "comm_pop ''c''" lc_s2c
  by unfold_locales (auto simp: LocalComm_Write_def comm_pop_def LocalComm_Read_def)

section \<open>Sending\<close>



definition connected_client :: "client \<Rightarrow> nat \<Rightarrow> bool" where
  "connected_client cl fd \<longleftrightarrow> cl_type cl = SOCKET \<and> (\<exists>sc. cl_socket cl = Some sc \<and> sc_fd sc = Some fd)"





definition pipe_client :: client where
  "pipe_client = \<lparr>cl_type = SOCKET, cl_socket = Some \<lparr>sc_path = ''p'', sc_fd = Some 3\<rparr>\<rparr>"


lemma pipe_connected: "connected_client pipe_client 3"
  by (simp add: connected_client_def pipe_client_def)


section \<open>Receiving\<close>

text \<open>
  The reads a process makes one after the other: what the read number \<open>i\<close> gives, nothing when it fails (a read that times
  out after a second, or one at the end of the stream), and the state after the first \<open>n\<close> of them. A read that fails says
  nothing of the later ones.
\<close>

primrec after_reads :: "'o sock_api \<Rightarrow> nat \<Rightarrow> nat \<Rightarrow> 'o \<Rightarrow> 'o" where
  "after_reads api fd 0 o0 = o0"
| "after_reads api fd (Suc n) o0 = snd (sk_read api fd RECV_BUFF_SIZE (after_reads api fd n o0))"

definition read_at :: "'o sock_api \<Rightarrow> nat \<Rightarrow> 'o \<Rightarrow> nat \<Rightarrow> string" where
  "read_at api fd o0 i = (case fst (sk_read api fd RECV_BUFF_SIZE (after_reads api fd i o0)) of None \<Rightarrow> [] | Some d \<Rightarrow> d)"

definition reads_bounded :: "'o sock_api \<Rightarrow> nat \<Rightarrow> bool" where
  "reads_bounded api fd \<longleftrightarrow> (\<forall>o0 d. fst (sk_read api fd RECV_BUFF_SIZE o0) = Some d \<longrightarrow> length d \<le> RECV_BUFF_SIZE)"

text \<open>The next read of a client on a socket.\<close>

lemma Client_Read_at:
  assumes "connected_client cl fd"
  obtains len msg1 where
    "Client_Read api cl old (c, after_reads api fd n o0) = ((len, msg1), (c, after_reads api fd (Suc n) o0))"
    and "if read_at api fd o0 n = [] then len \<le> 0 else len = int (length (read_at api fd o0 n)) \<and> msg1 = read_at api fd o0 n"
proof -
  obtain r o1 where r: "sk_read api fd RECV_BUFF_SIZE (after_reads api fd n o0) = (r, o1)" by fastforce
  show thesis
  proof (cases "read_at api fd o0 n = []")
    case True
    obtain len msg1 where "Client_Read api cl old (c, after_reads api fd n o0) = ((len, msg1), (c, o1))" "len \<le> 0"
      using assms r True
      by (cases r) (auto simp: connected_client_def Client_Read_def DomainSocketClient_Read_def read_at_def)
    then show thesis using True r by (intro that) simp_all
  next
    case False
    then have "r = Some (read_at api fd o0 n)" using r by (cases r) (simp_all add: read_at_def)
    then have "Client_Read api cl old (c, after_reads api fd n o0) =
        ((int (length (read_at api fd o0 n)), read_at api fd o0 n), (c, o1))"
      using assms r False by (auto simp: connected_client_def Client_Read_def DomainSocketClient_Read_def)
    then show thesis using False r by (intro that) simp_all
  qed
qed

abbreviation received :: "'o sock_api \<Rightarrow> nat \<Rightarrow> 'o \<Rightarrow> nat \<Rightarrow> nat \<Rightarrow> string" where
  "received api fd o0 k n \<equiv> concat (map (read_at api fd o0) [k..<n])"

text \<open>Once something has been received, only full reads go on, up to the next read \<open>j\<close> that is not full.\<close>

lemma wait_loop_rest:
  assumes "connected_client cl fd" and "timeOut > 0" and "msg \<noteq> []" and "length (read_at api fd o0 j) < RECV_BUFF_SIZE"
  shows "n \<le> j \<Longrightarrow> \<forall>i. n \<le> i \<and> i < j \<longrightarrow> length (read_at api fd o0 i) = RECV_BUFF_SIZE \<Longrightarrow>
    wait_loop api cl timeOut cnt (int RECV_BUFF_SIZE) old msg (c, after_reads api fd n o0) =
      Some (msg @ received api fd o0 n (Suc j), (c, after_reads api fd (Suc j) o0))"
  using assms(3)
proof (induction "j - n" arbitrary: n old msg)
  case 0
  then have n: "n = j" by simp
  obtain len msg1 where r: "Client_Read api cl old (c, after_reads api fd n o0) = ((len, msg1), (c, after_reads api fd (Suc n) o0))"
    "if read_at api fd o0 n = [] then len \<le> 0 else len = int (length (read_at api fd o0 n)) \<and> msg1 = read_at api fd o0 n"
    by (rule Client_Read_at [OF assms(1), of api old c n o0])
  have fin: "wait_loop api cl timeOut k l m1 m w = Some (m, w)" if "m \<noteq> []" "l \<noteq> int RECV_BUFF_SIZE" for k l m1 m w
    using that by (subst wait_loop.simps) simp
  have l: "len \<noteq> int RECV_BUFF_SIZE"
    using r(2) assms(4) n by (auto simp: RECV_BUFF_SIZE_def split: if_splits)
  show ?case
    using r l n 0(4) assms(2) fin [of _ len] by (subst wait_loop.simps) (auto split: if_splits)
next
  case (Suc x)
  then have n: "n < j" and f: "length (read_at api fd o0 n) = RECV_BUFF_SIZE" by simp_all
  then have ne: "read_at api fd o0 n \<noteq> []" by (auto simp: RECV_BUFF_SIZE_def)
  obtain len msg1 where r: "Client_Read api cl old (c, after_reads api fd n o0) = ((len, msg1), (c, after_reads api fd (Suc n) o0))"
    "if read_at api fd o0 n = [] then len \<le> 0 else len = int (length (read_at api fd o0 n)) \<and> msg1 = read_at api fd o0 n"
    by (rule Client_Read_at [OF assms(1), of api old c n o0])
  then have r1: "len = int RECV_BUFF_SIZE" "msg1 = read_at api fd o0 n" using ne f by simp_all
  have "wait_loop api cl timeOut cnt (int RECV_BUFF_SIZE) msg1 (msg @ msg1) (c, after_reads api fd (Suc n) o0) =
      Some ((msg @ msg1) @ received api fd o0 (Suc n) (Suc j), (c, after_reads api fd (Suc j) o0))"
    using Suc.hyps(2) Suc.prems n by (intro Suc.hyps(1)) auto
  moreover have "received api fd o0 n (Suc j) = msg1 @ received api fd o0 (Suc n) (Suc j)"
    using n r1(2) by (simp only: upt_conv_Cons [of n "Suc j"] less_SucI) simp
  ultimately show ?case using r(1) r1(1) by (subst wait_loop.simps) (simp add: RECV_BUFF_SIZE_def)
qed

text \<open>Until then, failed reads are counted.\<close>

lemma wait_loop_first:
  assumes "connected_client cl fd" and "timeOut > 0" and "reads_bounded api fd"
    and "\<forall>k. \<exists>j \<ge> k. length (read_at api fd o0 j) < RECV_BUFF_SIZE"
  shows "n \<le> timeOut \<Longrightarrow> len \<noteq> int RECV_BUFF_SIZE \<Longrightarrow> \<forall>i < n. read_at api fd o0 i = [] \<Longrightarrow>
    \<exists>n1. wait_loop api cl timeOut n len old [] (c, after_reads api fd n o0) =
        Some (received api fd o0 0 n1, (c, after_reads api fd n1 o0)) \<and>
      (n1 = Suc timeOut \<and> (\<forall>i < n1. read_at api fd o0 i = []) \<or>
       (\<exists>k < n1. k \<le> timeOut \<and> (\<forall>i < k. read_at api fd o0 i = []) \<and> read_at api fd o0 k \<noteq> [] \<and>
          (\<forall>i. k \<le> i \<and> Suc i < n1 \<longrightarrow> length (read_at api fd o0 i) = RECV_BUFF_SIZE) \<and>
          length (read_at api fd o0 (n1 - 1)) < RECV_BUFF_SIZE))"
proof (induction "timeOut - n" arbitrary: n len old rule: less_induct)
  case less
  let ?d = "read_at api fd o0"
  obtain len1 msg1 where r: "Client_Read api cl old (c, after_reads api fd n o0) = ((len1, msg1), (c, after_reads api fd (Suc n) o0))"
    "if ?d n = [] then len1 \<le> 0 else len1 = int (length (?d n)) \<and> msg1 = ?d n"
    by (rule Client_Read_at [OF assms(1), of api old c n o0])
  have none: "received api fd o0 0 n = []" using less.prems(3) by simp
  show ?case
  proof (cases "?d n = []")
    case True
    have e: "\<forall>i < Suc n. ?d i = []" using less.prems(3) True by (simp add: less_Suc_eq)
    show ?thesis
    proof (cases "n = timeOut")
      case T: True
      have "wait_loop api cl timeOut n len old [] (c, after_reads api fd n o0) = Some ([], (c, after_reads api fd (Suc n) o0))"
        using r True T assms(2) by (subst wait_loop.simps) simp
      moreover have "received api fd o0 0 (Suc n) = []" using e by simp
      ultimately show ?thesis using T e by (intro exI [of _ "Suc n"]) simp
    next
      case F: False
      have l1: "len1 \<noteq> int RECV_BUFF_SIZE" using r(2) True by (simp add: RECV_BUFF_SIZE_def)
      have step: "wait_loop api cl timeOut n len old [] (c, after_reads api fd n o0) =
          wait_loop api cl timeOut (Suc n) len1 msg1 [] (c, after_reads api fd (Suc n) o0)"
        using r True F less.prems(1) assms(2) by (subst wait_loop.simps) simp
      have "timeOut - Suc n < timeOut - n" "Suc n \<le> timeOut" using F less.prems(1) by simp_all
      from less.hyps [OF this l1 e] show ?thesis unfolding step .
    qed
  next
    case False
    then have r1: "len1 = int (length (?d n))" "msg1 = ?d n" "len1 > 0" using r(2) by simp_all
    have step: "wait_loop api cl timeOut n len old [] (c, after_reads api fd n o0) =
        wait_loop api cl timeOut n len1 (?d n) (?d n) (c, after_reads api fd (Suc n) o0)"
      using r(1) r1 by (subst wait_loop.simps) simp
    have b: "length (?d n) \<le> RECV_BUFF_SIZE" using assms(3) by (auto simp: reads_bounded_def read_at_def split: option.splits)
    show ?thesis
    proof (cases "length (?d n) = RECV_BUFF_SIZE")
      case True
      define j where "j = (LEAST j. Suc n \<le> j \<and> length (?d j) < RECV_BUFF_SIZE)"
      have j: "Suc n \<le> j" "length (?d j) < RECV_BUFF_SIZE"
        using LeastI_ex [of "\<lambda>j. Suc n \<le> j \<and> length (?d j) < RECV_BUFF_SIZE"] assms(4) by (auto simp: j_def)
      have full: "length (?d i) = RECV_BUFF_SIZE" if "Suc n \<le> i" "i < j" for i
      proof -
        have "\<not> length (?d i) < RECV_BUFF_SIZE" using not_less_Least [of i] that unfolding j_def by blast
        moreover have "length (?d i) \<le> RECV_BUFF_SIZE"
          using assms(3) by (auto simp: reads_bounded_def read_at_def split: option.splits)
        ultimately show ?thesis by simp
      qed
      have w: "wait_loop api cl timeOut n (int RECV_BUFF_SIZE) (?d n) (?d n) (c, after_reads api fd (Suc n) o0) =
          Some (?d n @ received api fd o0 (Suc n) (Suc j), (c, after_reads api fd (Suc j) o0))"
        by (rule wait_loop_rest [OF assms(1,2) False j(2,1)]) (use full in auto)
      have "received api fd o0 0 (Suc j) = received api fd o0 0 n @ received api fd o0 n (Suc j)"
      proof -
        have "[0..<Suc j] = [0..<n] @ [n..<Suc j]"
          using upt_add_eq_append [of 0 n "Suc j - n"] j(1) by (simp del: upt_Suc)
        then show ?thesis by (simp only: map_append concat_append)
      qed
      also have "received api fd o0 n (Suc j) = ?d n @ received api fd o0 (Suc n) (Suc j)"
        using j(1) by (simp only: upt_conv_Cons [of n "Suc j"]) simp
      finally have "received api fd o0 0 (Suc j) = ?d n @ received api fd o0 (Suc n) (Suc j)" using none by simp
      moreover have "\<forall>i. n \<le> i \<and> Suc i < Suc j \<longrightarrow> length (?d i) = RECV_BUFF_SIZE"
        using full True by (metis Suc_leI Suc_less_eq le_neq_implies_less)
      ultimately show ?thesis
        using w r1(1) True less.prems(1,3) False j unfolding step
        by (intro exI [of _ "Suc j"] conjI disjI2 exI [of _ n]) auto
    next
      case F: False
      have "wait_loop api cl timeOut n len1 (?d n) (?d n) (c, after_reads api fd (Suc n) o0) =
          Some (?d n, (c, after_reads api fd (Suc n) o0))"
        using False F r1(1) by (subst wait_loop.simps) simp
      moreover have "received api fd o0 0 (Suc n) = ?d n" using none by simp
      ultimately show ?thesis
        using F b less.prems(1,3) False unfolding step
        by (intro exI [of _ "Suc n"] conjI disjI2 exI [of _ n]) auto
    qed
  qed
qed

text \<open>
  C26: With a timeout, \<open>Wait\<close> always returns, as long as the peer does not send full buffers for ever, and what it
  returns is all that the reads it made have given. Either it made one read more than the timeout and all of them failed; or
  at most that many failed reads were followed by data, the reads after it were full, and the last one was not: a shorter
  read or a failed one. A read that fails may be followed by one that gives data.
\<close>

theorem wait_takes_next:
  assumes "connected_client cl fd" and "timeOut > 0" and "reads_bounded api fd"
    and "\<forall>k. \<exists>j \<ge> k. length (read_at api fd o0 j) < RECV_BUFF_SIZE"
  shows "\<exists>m n. LocalProcess_Wait api cl timeOut (c, o0) = Some ((int (length m), m), (c, after_reads api fd n o0)) \<and>
     m = concat (map (read_at api fd o0) [0..<n]) \<and>
     (n = timeOut + 1 \<and> (\<forall>i < n. read_at api fd o0 i = []) \<or>
      (\<exists>k < n. k \<le> timeOut \<and> (\<forall>i < k. read_at api fd o0 i = []) \<and> read_at api fd o0 k \<noteq> [] \<and>
         (\<forall>i. k \<le> i \<and> i + 1 < n \<longrightarrow> length (read_at api fd o0 i) = RECV_BUFF_SIZE) \<and>
         length (read_at api fd o0 (n - 1)) < RECV_BUFF_SIZE))"
proof -
  have len: "(0 :: int) \<noteq> int RECV_BUFF_SIZE" by (simp add: RECV_BUFF_SIZE_def)
  have "\<forall>i < 0. read_at api fd o0 i = []" by simp
  from wait_loop_first [OF assms le0 len this, of "[]" c, unfolded after_reads.simps(1) Suc_eq_plus1]
  obtain n where w: "wait_loop api cl timeOut 0 0 [] [] (c, o0) = Some (received api fd o0 0 n, (c, after_reads api fd n o0))"
    and n: "n = timeOut + 1 \<and> (\<forall>i < n. read_at api fd o0 i = []) \<or>
      (\<exists>k < n. k \<le> timeOut \<and> (\<forall>i < k. read_at api fd o0 i = []) \<and> read_at api fd o0 k \<noteq> [] \<and>
         (\<forall>i. k \<le> i \<and> i + 1 < n \<longrightarrow> length (read_at api fd o0 i) = RECV_BUFF_SIZE) \<and>
         length (read_at api fd o0 (n - 1)) < RECV_BUFF_SIZE)" by (elim exE conjE) (rule that)
  have "LocalProcess_Wait api cl timeOut (c, o0) =
      Some ((int (length (received api fd o0 0 n)), received api fd o0 0 n), (c, after_reads api fd n o0))"
    using w by (simp add: LocalProcess_Wait_def)
  then show ?thesis using n by (intro exI conjI) (assumption | rule refl)+
qed

text \<open>A socket whose state is the reads to come.\<close>

definition slow_api :: "string option list sock_api" where
  "slow_api =
     \<lparr>sk_socket = (\<lambda>s. (Some 3, s)), sk_setsockopt = (\<lambda>fd k s. (True, s)), sk_bind = (\<lambda>fd p s. (True, s)),
      sk_listen = (\<lambda>fd n s. (True, s)), sk_accept = (\<lambda>fd s. (Some 4, s)), sk_peercred = (\<lambda>fd s. (Some (0, 0), s)),
      sk_ids = (0, 0), sk_connect = (\<lambda>fd p s. (True, s)),
      sk_read = (\<lambda>fd n s. case s of [] \<Rightarrow> (None, []) | r # rs \<Rightarrow> (map_option (take n) r, rs)),
      sk_write = (\<lambda>fd b s. (Some (length b), s)), sk_close = (\<lambda>fd s. s)\<rparr>"

lemma slow_reads: "after_reads slow_api 3 n s = drop n s"
proof (induction n)
  case (Suc n)
  have "snd (sk_read slow_api 3 RECV_BUFF_SIZE t) = tl t" for t by (cases t) (simp_all add: slow_api_def)
  then show ?case using Suc by (simp add: drop_Suc tl_drop)
qed simp

lemma slow_read_at: "read_at slow_api 3 s i = (if i < length s then case s ! i of None \<Rightarrow> [] | Some d \<Rightarrow> take RECV_BUFF_SIZE d else [])"
proof (cases "i < length s")
  case True
  then have "drop i s = s ! i # drop (Suc i) s" by (simp add: Cons_nth_drop_Suc)
  then show ?thesis using True by (cases "s ! i") (simp_all add: read_at_def slow_reads, simp_all add: slow_api_def)
next
  case False
  then show ?thesis by (simp add: read_at_def slow_reads) (simp add: slow_api_def)
qed

theorem wait_takes_next_witness:
  "\<exists>m n. LocalProcess_Wait slow_api pipe_client 2 (\<lparr>lc_s2c = [], lc_c2s = []\<rparr>, [None, None, Some ''late'', Some ''more'']) =
       Some ((int (length m), m), (\<lparr>lc_s2c = [], lc_c2s = []\<rparr>, drop n [None, None, Some ''late'', Some ''more''])) \<and> m = ''late''"
proof -
  let ?s = "[None, None, Some ''late'', Some ''more'']"
  have b: "reads_bounded slow_api 3" by (auto simp: reads_bounded_def slow_api_def split: list.splits)
  have e: "\<exists>j \<ge> k. length (read_at slow_api 3 ?s j) < RECV_BUFF_SIZE" for k
    by (intro exI [of _ "k + 4"]) (simp add: slow_read_at RECV_BUFF_SIZE_def)
  obtain m n where w: "LocalProcess_Wait slow_api pipe_client 2 (\<lparr>lc_s2c = [], lc_c2s = []\<rparr>, ?s) =
      Some ((int (length m), m), (\<lparr>lc_s2c = [], lc_c2s = []\<rparr>, after_reads slow_api 3 n ?s))"
    "m = concat (map (read_at slow_api 3 ?s) [0..<n])"
    "n = 2 + 1 \<and> (\<forall>i < n. read_at slow_api 3 ?s i = []) \<or>
      (\<exists>k < n. k \<le> 2 \<and> (\<forall>i < k. read_at slow_api 3 ?s i = []) \<and> read_at slow_api 3 ?s k \<noteq> [] \<and>
         (\<forall>i. k \<le> i \<and> i + 1 < n \<longrightarrow> length (read_at slow_api 3 ?s i) = RECV_BUFF_SIZE) \<and>
         length (read_at slow_api 3 ?s (n - 1)) < RECV_BUFF_SIZE)"
    using wait_takes_next [OF pipe_connected _ b, of 2 ?s "\<lparr>lc_s2c = [], lc_c2s = []\<rparr>"] e by auto
  have r: "read_at slow_api 3 ?s 0 = []" "read_at slow_api 3 ?s 1 = []" "read_at slow_api 3 ?s 2 = ''late''"
    by (simp_all add: slow_read_at RECV_BUFF_SIZE_def)
  have "n = 3"
  proof -
    from w(3) show ?thesis
    proof (elim disjE exE conjE)
      fix k assume k: "k < n" "k \<le> 2" "read_at slow_api 3 ?s k \<noteq> []"
        "\<forall>i. k \<le> i \<and> i + 1 < n \<longrightarrow> length (read_at slow_api 3 ?s i) = RECV_BUFF_SIZE"
      have "k = 2" using k(2,3) r by (metis One_nat_def le_SucE le_zero_eq numeral_2_eq_2)
      moreover have "\<not> k + 1 < n" using k(4) r(3) \<open>k = 2\<close> by (auto simp: RECV_BUFF_SIZE_def)
      ultimately show ?thesis using k(1) by simp
    qed simp
  qed
  then have "m = ''late''" using w(2) r by (simp add: upt_rec numeral_2_eq_2 numeral_3_eq_3)
  then show ?thesis using w(1) slow_reads by (metis (no_types, lifting))
qed

section \<open>Clients of a server\<close>

fun accepts :: "'o sock_api \<Rightarrow> nat \<Rightarrow> sock_server \<times> 'o \<Rightarrow> sock_server \<times> 'o" where
  "accepts api 0 st = st"
| "accepts api (Suc n) st = accepts api n (snd (Accept api st))"

definition checked :: "'o sock_api \<Rightarrow> nat \<Rightarrow> bool" where
  "checked api fd \<longleftrightarrow> (\<exists>o0 o1. sk_peercred api fd o0 = (Some (sk_ids api), o1))"

lemma Accept_checked:
  "ss_max (fst (snd (Accept api st))) = ss_max (fst st) \<and>
   (ss_cfds (fst (snd (Accept api st))) = ss_cfds (fst st) \<or>
    (\<exists>cfd. ss_cfds (fst (snd (Accept api st))) = ss_cfds (fst st) @ [cfd] \<and> checked api cfd \<and>
       length (ss_cfds (fst st)) < ss_max (fst st) \<and> fst (Accept api st) = Some (length (ss_cfds (fst st)))))"
  by (cases st) (auto simp: Accept_def checked_def Let_def split: option.splits prod.splits if_splits)

text \<open>
  After any number of attempts to accept, a server has no more clients than its limit, every new client is one
  whose credentials the operating system gave as those of this process, and the clients it had keep their ids.
\<close>

lemma accepted_clients_checked:
  "ss_max (fst (accepts api n st)) = ss_max (fst st) \<and>
   length (ss_cfds (fst (accepts api n st))) \<le> max (ss_max (fst st)) (length (ss_cfds (fst st))) \<and>
   (\<exists>new. ss_cfds (fst (accepts api n st)) = ss_cfds (fst st) @ new \<and> list_all (checked api) new)"
proof (induction n arbitrary: st)
  case (Suc n)
  have "length (ss_cfds (fst (snd (Accept api st)))) \<le> max (ss_max (fst st)) (length (ss_cfds (fst st)))"
    using Accept_checked [of api st] by auto
  moreover have "\<exists>new. ss_cfds (fst (snd (Accept api st))) = ss_cfds (fst st) @ new \<and> list_all (checked api) new"
    using Accept_checked [of api st] by (auto intro: exI [of _ "[]"])
  ultimately show ?case
    using Suc [of "snd (Accept api st)"] Accept_checked [of api st] by fastforce
qed simp

end
