(* ===== verification/FileSystem.thy ===== *)
theory FileSystem
  imports PathModel
begin

text \<open>
  \<open>csrc/utils/FileSystem.h\<close> and \<open>csrc/utils/FileSystem.cpp\<close>: the checks of paths, permissions and sizes, the
  creation of directories, and reading and writing whole files. The system calls are a record of functions on a
  state of the file system.
\<close>

section \<open>System calls\<close>

text \<open>The members of \<open>struct stat\<close> the code reads; \<open>None\<close> is an error.\<close>

record stat_info =
  st_mode :: u32
  st_uid :: u32
  st_size :: u64

record 'f os =
  os_stat :: "string \<Rightarrow> 'f \<Rightarrow> stat_info option"
  os_lstat :: "string \<Rightarrow> 'f \<Rightarrow> stat_info option"
  os_realpath :: "string \<Rightarrow> 'f \<Rightarrow> string option"
  os_mkdir :: "string \<Rightarrow> u32 \<Rightarrow> 'f \<Rightarrow> bool \<times> 'f"
  os_chmod :: "string \<Rightarrow> u32 \<Rightarrow> 'f \<Rightarrow> bool \<times> 'f"
  os_read :: "string \<Rightarrow> nat \<Rightarrow> 'f \<Rightarrow> u8 list option"
  os_create :: "string \<Rightarrow> 'f \<Rightarrow> bool \<times> 'f"
  os_write :: "string \<Rightarrow> u8 list \<Rightarrow> 'f \<Rightarrow> bool \<times> 'f"
  os_cwd :: "string option"
  os_uid :: u32
  os_getenv :: "string \<Rightarrow> string option"
  os_walk :: "(char \<times> string) list"

definition S_IRUSR :: u32 where "S_IRUSR = 0x100"
definition S_IWUSR :: u32 where "S_IWUSR = 0x80"
definition S_IXUSR :: u32 where "S_IXUSR = 0x40"
definition S_IWGRP :: u32 where "S_IWGRP = 0x10"
definition S_IWOTH :: u32 where "S_IWOTH = 0x2"
definition S_IFMT :: u32 where "S_IFMT = 0xF000"
definition S_IFDIR :: u32 where "S_IFDIR = 0x4000"
definition S_IFREG :: u32 where "S_IFREG = 0x8000"
definition S_IFLNK :: u32 where "S_IFLNK = 0xA000"

definition S_ISREG :: "u32 \<Rightarrow> bool" where
  "S_ISREG mode \<longleftrightarrow> mode AND S_IFMT = S_IFREG"

definition DIR_DEFAULT_MOD :: u32 where "DIR_DEFAULT_MOD = 0x1E8"
definition SAVE_DATA_FILE_AUTHORITY :: u32 where "SAVE_DATA_FILE_AUTHORITY = 0x1A0"
definition DIR_NAME_LENGTH_LIMIT :: nat where "DIR_NAME_LENGTH_LIMIT = 2048"
definition FILE_NAME_LENGTH_LIMIT :: nat where "FILE_NAME_LENGTH_LIMIT = 255"
definition MAX_MEM_BYTE_SIZE :: u64 where "MAX_MEM_BYTE_SIZE = 32212254720"

text \<open>A file has a mode bit.\<close>

definition mode_has :: "'f os \<Rightarrow> u32 \<Rightarrow> string \<Rightarrow> 'f \<Rightarrow> bool" where
  "mode_has os bits path fs = (case os_stat os path fs of None \<Rightarrow> False | Some st \<Rightarrow> st_mode st AND bits \<noteq> 0)"

definition IsReadable :: "'f os \<Rightarrow> string \<Rightarrow> 'f \<Rightarrow> bool" where
  "IsReadable os path fs = mode_has os S_IRUSR path fs"

definition IsWritable :: "'f os \<Rightarrow> string \<Rightarrow> 'f \<Rightarrow> bool" where
  "IsWritable os path fs = mode_has os S_IWUSR path fs"

definition IsExecutable :: "'f os \<Rightarrow> string \<Rightarrow> 'f \<Rightarrow> bool" where
  "IsExecutable os path fs = mode_has os S_IXUSR path fs"

definition IsDir :: "'f os \<Rightarrow> string \<Rightarrow> 'f \<Rightarrow> bool" where
  "IsDir os path fs = mode_has os S_IFDIR path fs"

definition IsExist :: "'f os \<Rightarrow> string \<Rightarrow> 'f \<Rightarrow> bool" where
  "IsExist os path fs \<longleftrightarrow> os_stat os path fs \<noteq> None"

definition IsSoftLink :: "'f os \<Rightarrow> string \<Rightarrow> 'f \<Rightarrow> bool" where
  "IsSoftLink os path fs =
     (case os_lstat os path fs of None \<Rightarrow> False | Some st \<Rightarrow> S_IFMT AND st_mode st = S_IFLNK)"

definition Realpath :: "'f os \<Rightarrow> string \<Rightarrow> 'f \<Rightarrow> string" where
  "Realpath os path fs = (case os_realpath os path fs of None \<Rightarrow> [] | Some p \<Rightarrow> p)"

definition JoinPath :: "string list \<Rightarrow> string" where
  "JoinPath parts = Join parts [PATH_SEP]"

text \<open>The index of the last separator.\<close>

definition last_sep :: "string \<Rightarrow> nat option" where
  "last_sep s = (let r = dropWhile (\<lambda>c. c \<noteq> PATH_SEP) (rev s) in if r = [] then None else Some (length r - 1))"

definition GetLastFile :: "string \<Rightarrow> string option" where
  "GetLastFile p =
     (if p = [] then None
      else if last_sep p = Some (length p - 1) then Some []
      else case last_sep p of None \<Rightarrow> None | Some left \<Rightarrow> Some (drop (left + 1) p))"

primrec rollback_loop :: "nat \<Rightarrow> string \<Rightarrow> string option" where
  "rollback_loop 0 = (\<lambda>tmp. Some tmp)"
| "rollback_loop (Suc n) = (\<lambda>tmp.
     (case last_sep tmp of
        None \<Rightarrow> None
      | Some found \<Rightarrow>
          let tmp1 = take found tmp;
              kept = length (dropWhile (\<lambda>c. c = PATH_SEP) (rev tmp1))
          in rollback_loop n (if kept > 0 then take kept tmp1 else tmp1)))"

definition RollbackPath :: "string \<Rightarrow> nat \<Rightarrow> string option" where
  "RollbackPath path rollNum = map_option (\<lambda>tmp. if tmp = [] then ''/'' else tmp) (rollback_loop rollNum path)"

section \<open>Checks\<close>

text \<open>The mode bits a file of a type must have, and whether its owner is checked.\<close>

definition GetFilePermission :: "(string \<times> (u32 \<times> bool)) list" where
  "GetFilePermission =
     [(''json'', (S_IRUSR, True)), (''cpp'', (S_IRUSR, False)), (''bin'', (S_IRUSR, True)), (''kernel'', (S_IRUSR, True)),
      (''dump'', (S_IRUSR, True)), (''dir'', (S_IRUSR, True)), (''so'', (S_IRUSR, False)),
      (''exe'', (S_IXUSR OR S_IRUSR, True))]"

definition CheckPathPermission :: "'f os \<Rightarrow> string \<Rightarrow> u32 \<Rightarrow> 'f \<Rightarrow> bool" where
  "CheckPathPermission os path fileMode fs =
     (if fileMode AND S_IRUSR \<noteq> 0 \<and> \<not> IsReadable os path fs then False
      else if fileMode AND S_IWUSR \<noteq> 0 \<and> \<not> IsWritable os path fs then False
      else if fileMode AND S_IXUSR \<noteq> 0 \<and> \<not> IsExecutable os path fs then False
      else True)"

definition GetFileSize :: "'f os \<Rightarrow> string \<Rightarrow> 'f \<Rightarrow> u64" where
  "GetFileSize os path fs =
     (if \<not> IsExist os path fs then 0
      else case os_stat os path fs of
        None \<Rightarrow> 0
      | Some st \<Rightarrow> if \<not> S_ISREG (st_mode st) then 0 else st_size st)"

definition CheckFileSizeValid :: "'f os \<Rightarrow> string \<Rightarrow> u64 \<Rightarrow> 'f \<Rightarrow> bool" where
  "CheckFileSizeValid os path threshold fs =
     (case os_stat os path fs of
        None \<Rightarrow> False
      | Some st \<Rightarrow>
          if \<not> S_ISREG (st_mode st) then False
          else let fileSize = GetFileSize os path fs in fileSize = 0 \<or> fileSize \<le> threshold)"

text \<open>The result is with the message, which is only set on some paths.\<close>

definition CheckOwnerPermission :: "'f os \<Rightarrow> string \<Rightarrow> 'f \<Rightarrow> bool \<times> string option" where
  "CheckOwnerPermission os path fs =
     (case os_stat os path fs of
        None \<Rightarrow> (False, Some (''get file'' @ path @ ''permission error.''))
      | Some st \<Rightarrow>
          if os_uid os = 0 then (True, None)
          else
            let msg = (if st_mode st AND (S_IWOTH OR S_IWGRP) \<noteq> 0
                       then Some (path @ '' is writable by any other users or group users, which may cause security problems.'')
                       else None)
            in if st_uid st = 0 \<or> st_uid st = os_uid os then (True, msg)
               else (True, Some (path @ '' is not owned by the current user, which may cause security problems.'')))"

definition PathLenCheckValid :: "string \<Rightarrow> bool" where
  "PathLenCheckValid p \<longleftrightarrow>
     length p \<le> DIR_NAME_LENGTH_LIMIT \<and> (\<forall>d \<in> set (SplitString p PATH_SEP). length d \<le> FILE_NAME_LENGTH_LIMIT)"

text \<open>The loop over the components with the path built so far; \<open>first\<close> is the first round.\<close>

fun soft_link_loop :: "'f os \<Rightarrow> bool \<Rightarrow> string \<Rightarrow> string list \<Rightarrow> 'f \<Rightarrow> bool" where
  "soft_link_loop os first current [] fs = False"
| "soft_link_loop os first current (d # ds) fs =
     (let current1 = (if first then d else current @ [PATH_SEP] @ d) in
      if d = ''.'' \<or> d = ''..'' \<or> d = [] then soft_link_loop os False current1 ds fs
      else if IsSoftLink os current1 fs then True
      else soft_link_loop os False current1 ds fs)"

definition IsSoftLinkRecursively :: "'f os \<Rightarrow> string \<Rightarrow> 'f \<Rightarrow> bool" where
  "IsSoftLinkRecursively os path fs =
     soft_link_loop os True [] (SplitString (rev (dropWhile (\<lambda>c. c = PATH_SEP) (rev path))) PATH_SEP) fs"

definition CheckInputFileValid :: "'f os \<Rightarrow> string \<Rightarrow> string \<Rightarrow> u64 \<Rightarrow> 'f \<Rightarrow> bool" where
  "CheckInputFileValid os path fileType threshold fs =
     (let absPath = ToString (Resolved (os_cwd os) (mk_path path)) in
      if absPath = [] then False
      else if \<not> fst (IsStringCharValid (os_walk os) absPath) then False
      else if \<not> PathLenCheckValid absPath then False
      else if \<not> IsExist os absPath fs then False
      else if (fileType = ''dir'') \<noteq> IsDir os absPath fs then False
      else case map_of GetFilePermission fileType of
        None \<Rightarrow> False
      | Some (fileMode, owner) \<Rightarrow>
          if \<not> CheckPathPermission os absPath fileMode fs then False
          else if owner \<and> \<not> fst (CheckOwnerPermission os absPath fs) then False
          else if fileType \<noteq> ''dir'' \<and> fileMode = S_IRUSR \<and> \<not> CheckFileSizeValid os absPath threshold fs then False
          else True)"

text \<open>\<open>None\<close> for a path that is refused, otherwise the path to write to.\<close>

definition CheckWriteFilePathValid :: "'f os \<Rightarrow> string \<Rightarrow> 'f \<Rightarrow> string option" where
  "CheckWriteFilePathValid os path fs =
     (let full = (if PATH_SEP \<notin> set path then map_option (\<lambda>cwd. JoinPath [cwd, path]) (os_cwd os) else Some path) in
      case full of
        None \<Rightarrow> None
      | Some p \<Rightarrow>
          (case RollbackPath p 1 of
             None \<Rightarrow> None
           | Some fileDir \<Rightarrow>
               (case GetLastFile p of
                  None \<Rightarrow> None
                | Some file \<Rightarrow>
                    let real = Realpath os fileDir fs
                    in if real = [] then None else Some (JoinPath [real, file]))))"

section \<open>Whole files\<close>

text \<open>The buffer before and after: a short file leaves its tail alone.\<close>

definition fs_ReadFile :: "'f os \<Rightarrow> string \<Rightarrow> u8 list \<Rightarrow> bool \<Rightarrow> 'f \<Rightarrow> bool \<times> u8 list" where
  "fs_ReadFile os path buffer checkSize fs =
     (if \<not> CheckInputFileValid os path ''bin'' MAX_MEM_BYTE_SIZE fs then (False, buffer)
      else if buffer = [] then (False, buffer)
      else let fileSize = unat (GetFileSize os path fs) in
        if checkSize \<and> fileSize \<noteq> length buffer then (False, buffer)
        else case os_read os path (min fileSize (length buffer)) fs of
          None \<Rightarrow> (False, buffer)
        | Some bs \<Rightarrow> (True, bs @ drop (length bs) buffer))"

definition ReadBinary :: "'f os \<Rightarrow> string \<Rightarrow> 'f \<Rightarrow> nat \<times> u8 list" where
  "ReadBinary os filename fs =
     (let fileSize = unat (GetFileSize os filename fs);
          (ok, data) = fs_ReadFile os filename (replicate fileSize 0) False fs
      in (if ok then fileSize else 0, data))"

definition WriteBinary :: "'f os \<Rightarrow> string \<Rightarrow> u8 list \<Rightarrow> 'f \<Rightarrow> nat \<times> 'f" where
  "WriteBinary os filename bs fs =
     (case CheckWriteFilePathValid os filename fs of
        None \<Rightarrow> (0, fs)
      | Some real \<Rightarrow>
          let (opened, fs1) = os_create os real fs in
          if \<not> opened then (0, fs1)
          else let (ok, fs2) = os_chmod os real SAVE_DATA_FILE_AUTHORITY fs1 in
            if \<not> ok then (0, fs2)
            else let (written, fs3) = os_write os real bs fs2 in
              (if written then length bs else 0, fs3))"

fun mkdir_loop :: "'f os \<Rightarrow> u32 \<Rightarrow> bool \<Rightarrow> string \<Rightarrow> string list \<Rightarrow> 'f \<Rightarrow> bool \<times> 'f" where
  "mkdir_loop os mode first current [] fs = (True, fs)"
| "mkdir_loop os mode first current (d # ds) fs =
     (let current1 = (if first then d else current @ [PATH_SEP] @ d) in
      if d = [] then mkdir_loop os mode False current1 ds fs
      else if IsDir os current1 fs then mkdir_loop os mode False current1 ds fs
      else let (made, fs1) = os_mkdir os current1 mode fs in
        if made then mkdir_loop os mode False current1 ds fs1
        else if IsDir os current1 fs1 \<and> fst (CheckOwnerPermission os current1 fs1)
             then mkdir_loop os mode False current1 ds fs1
        else (False, fs1))"

definition MkdirRecusively :: "'f os \<Rightarrow> string \<Rightarrow> u32 \<Rightarrow> 'f \<Rightarrow> bool \<times> 'f" where
  "MkdirRecusively os path mode fs =
     (if path = [] then (False, fs)
      else let dirs = SplitString (ToString (Resolved (os_cwd os) (mk_path path))) PATH_SEP in
        if dirs = [] then (False, fs)
        else if IsDir os path fs then (True, fs)
        else mkdir_loop os mode True [] dirs fs)"

section \<open>Environment\<close>

text \<open>The values read so far stay what they were.\<close>

definition GetEnv :: "'f os \<Rightarrow> string \<Rightarrow> (string \<times> string) list \<Rightarrow> string \<times> (string \<times> string) list" where
  "GetEnv os key m =
     (case map_of m key of
        Some v \<Rightarrow> (v, m)
      | None \<Rightarrow> let env = (case os_getenv os key of None \<Rightarrow> [] | Some v \<Rightarrow> v) in (env, omap_put key env m))"

fun so_loop :: "'f os \<Rightarrow> string \<Rightarrow> string list \<Rightarrow> 'f \<Rightarrow> string" where
  "so_loop os soName [] fs = []"
| "so_loop os soName (p # ps) fs =
     (let real = Realpath os (JoinPath [p, soName]) fs in if real = [] then so_loop os soName ps fs else real)"

definition GetSoFromEnvVar :: "'f os \<Rightarrow> string \<Rightarrow> 'f \<Rightarrow> string" where
  "GetSoFromEnvVar os soName fs =
     (case os_getenv os ''LD_LIBRARY_PATH'' of
        None \<Rightarrow> []
      | Some v \<Rightarrow> so_loop os soName (SplitString v CHR '':'') fs)"

section \<open>Paths as strings\<close>

definition abs_string :: "string list \<Rightarrow> string" where
  "abs_string rs = concat (map ((#) PATH_SEP) rs)"

lemma abs_string_simps [simp]:
  "abs_string [] = []" "abs_string (r # rs) = PATH_SEP # r @ abs_string rs"
  "abs_string (rs @ ss) = abs_string rs @ abs_string ss"
  by (simp_all add: abs_string_def)

lemma abs_string_Join: "rs \<noteq> [] \<Longrightarrow> abs_string rs = PATH_SEP # Join rs [PATH_SEP]"
  by (induction rs "[PATH_SEP]" rule: Join.induct) auto

lemma ToString_abs: "p_absolute p \<Longrightarrow> ToString p = (if p_route p = [] then ''/'' else abs_string (p_route p))"
  by (simp add: ToString_def abs_string_Join)

lemma last_sep_append: "PATH_SEP \<notin> set c \<Longrightarrow> last_sep (xs @ PATH_SEP # c) = Some (length xs)"
proof -
  assume "PATH_SEP \<notin> set c"
  then have "dropWhile (\<lambda>x. x \<noteq> PATH_SEP) (rev c @ PATH_SEP # rev xs) = PATH_SEP # rev xs"
    by (subst dropWhile_append2) auto
  then show ?thesis by (simp add: last_sep_def)
qed

lemma rollback_loop_abs:
  assumes "list_all wf_comp rs"
  shows "rollback_loop n (abs_string rs) = (if n \<le> length rs then Some (abs_string (take (length rs - n) rs)) else None)"
  using assms
proof (induction n arbitrary: rs)
  case (Suc n)
  show ?case
  proof (cases rs rule: rev_cases)
    case Nil
    then show ?thesis by (simp add: last_sep_def)
  next
    case (snoc rs' c)
    then have wf: "list_all wf_comp rs'" "PATH_SEP \<notin> set c" using Suc.prems by (simp, simp add: wf_comp_def)
    have kept: "length (dropWhile (\<lambda>x. x = PATH_SEP) (rev (abs_string rs'))) = length (abs_string rs')"
    proof (cases rs' rule: rev_cases)
      case (snoc ss d)
      then obtain y ys where "rev d = y # ys" "y \<noteq> PATH_SEP"
        using wf(1) by (cases "rev d") (auto simp: wf_comp_def)
      then show ?thesis by (simp add: snoc)
    qed simp
    then show ?thesis
      using snoc wf Suc.IH [OF wf(1)] last_sep_append [OF wf(2), of "abs_string rs'"] by (auto simp: Let_def)
  qed
qed simp

lemma Parent_iter: "(Parent ^^ n) p = p\<lparr>p_route := take (length (p_route p) - n) (p_route p)\<rparr>"
proof (induction n)
  case (Suc n)
  then show ?case by (simp add: Parent_def butlast_take) 
qed simp

lemma rollback_path_parent:
  assumes "p_absolute p" and "p_route p \<noteq> []" and "list_all wf_comp (p_route p)"
  shows "RollbackPath (ToString p) n =
    (if n \<le> length (p_route p) then Some (ToString ((Parent ^^ n) p)) else None)"
proof -
  have "abs_string (take (length (p_route p) - n) (p_route p)) = [] \<longleftrightarrow> take (length (p_route p) - n) (p_route p) = []"
    by (cases "take (length (p_route p) - n) (p_route p)") auto
  then show ?thesis
    using assms by (simp add: RollbackPath_def ToString_abs rollback_loop_abs Parent_iter)
qed

section \<open>Properties\<close>

text \<open>
  \<open>RollbackPath\<close>, which cuts the string from its end, goes to the parent as often as it is told, the root
  included, and refuses to go further.
\<close>

lemma rollback_is_parent:
  assumes "p_absolute p" and "p_route p \<noteq> []" and "list_all wf_comp (p_route p)"
  shows "RollbackPath (ToString p) n =
    (if n \<le> length (p_route p) then Some (ToString ((Parent ^^ n) p)) else None)"
  using assms by (rule rollback_path_parent)

lemma resolve_stack_subset: "set (resolve_stack st rs) \<subseteq> set st \<union> set rs"
  by (induction st rs rule: resolve_stack.induct) (auto dest: in_set_butlastD)

lemma wf_Resolved: "list_all wf_comp (p_route (Resolved cwd (mk_path path)))"
proof -
  have "list_all wf_comp (p_route (Absolute cwd (mk_path path)))"
    using wf_mk_path by (auto simp: Absolute_def path_join_def split: option.split)
  then show ?thesis
    using resolve_stack_subset [of "[]" "p_route (Absolute cwd (mk_path path))"]
    by (auto simp: route_Resolved list_all_iff)
qed

lemma split_abs_string:
  assumes "list_all wf_comp rs" and "rs \<noteq> []"
  shows "SplitString (abs_string rs) PATH_SEP = [] # rs"
proof -
  have "SplitString (Join ([] # rs) [PATH_SEP]) PATH_SEP = [] # rs"
    by (rule SplitString_Join) (use assms in \<open>auto simp: wf_comp_def list_all_iff\<close>)
  then show ?thesis using assms(2) by (simp add: abs_string_Join [OF assms(2)] neq_Nil_conv) (use assms(2) in \<open>cases rs; simp\<close>)
qed

text \<open>What the code relies on of \<open>mkdir\<close>: it makes a directory and takes none away.\<close>

definition mkdir_works :: "'f os \<Rightarrow> u32 \<Rightarrow> bool" where
  "mkdir_works os mode \<longleftrightarrow>
     (\<forall>q fs. (fst (os_mkdir os q mode fs) \<longrightarrow> IsDir os q (snd (os_mkdir os q mode fs))) \<and>
       (\<forall>r. IsDir os r fs \<longrightarrow> IsDir os r (snd (os_mkdir os q mode fs))))"

lemma mkdir_worksD:
  assumes "mkdir_works os mode" and "os_mkdir os q mode fs = (made, fs1)"
  shows "made \<Longrightarrow> IsDir os q fs1" "IsDir os r fs \<Longrightarrow> IsDir os r fs1"
proof -
  have "(fst (os_mkdir os q mode fs) \<longrightarrow> IsDir os q (snd (os_mkdir os q mode fs))) \<and>
      (IsDir os r fs \<longrightarrow> IsDir os r (snd (os_mkdir os q mode fs)))"
    using assms(1) unfolding mkdir_works_def by blast
  then show "made \<Longrightarrow> IsDir os q fs1" "IsDir os r fs \<Longrightarrow> IsDir os r fs1" by (simp_all add: assms(2))
qed

lemma mkdir_loop_keeps:
  "mkdir_works os mode \<Longrightarrow> IsDir os r fs \<Longrightarrow> IsDir os r (snd (mkdir_loop os mode first current ds fs))"
proof (induction ds arbitrary: first current fs)
  case (Cons d ds)
  obtain c where c: "(if first then d else current @ [PATH_SEP] @ d) = c" by blast
  obtain made fs1 where m: "os_mkdir os c mode fs = (made, fs1)" by fastforce
  have r: "IsDir os r fs1" using mkdir_worksD(2) [OF Cons.prems(1) m Cons.prems(2)] .
  note ih = Cons.IH [OF Cons.prems(1) r, of False c] Cons.IH [OF Cons.prems, of False c]
  show ?case
    unfolding mkdir_loop.simps Let_def c m prod.case using ih r by simp
qed simp

lemma mkdir_loop_makes:
  assumes "mkdir_works os mode" and "list_all wf_comp ds" and "mkdir_loop os mode False current ds fs = (True, fs')"
    and "k < length ds"
  shows "IsDir os (current @ abs_string (take (Suc k) ds)) fs'"
  using assms
proof (induction ds arbitrary: current fs k)
  case (Cons d ds)
  let ?c = "current @ [PATH_SEP] @ d"
  have d: "d \<noteq> []" "list_all wf_comp ds" using Cons.prems(2) by (simp add: wf_comp_def, simp)
  obtain fs1 where here: "IsDir os ?c fs1" and rest: "mkdir_loop os mode False ?c ds fs1 = (True, fs')"
  proof (cases "IsDir os ?c fs")
    case True
    then show ?thesis using that [of fs] d Cons.prems(3) by simp
  next
    case False
    obtain made fs1 where m: "os_mkdir os ?c mode fs = (made, fs1)" by fastforce
    have "made \<Longrightarrow> IsDir os ?c fs1" using mkdir_worksD(1) [OF Cons.prems(1) m] .
    then show ?thesis using that [of fs1] d False m Cons.prems(3) by (auto simp: Let_def split: if_splits)
  qed
  show ?case
  proof (cases k)
    case 0
    then show ?thesis using mkdir_loop_keeps [OF Cons.prems(1) here, of False ?c ds] rest by simp
  next
    case (Suc j)
    then show ?thesis using Cons.IH [OF Cons.prems(1) d(2) rest, of j] Cons.prems(4) by simp
  qed
qed simp

text \<open>
  When \<open>MkdirRecusively\<close> reports success and the path was no directory before, every directory on the way to
  the normalised path exists afterwards, and every directory there was still does.
\<close>

lemma mkdir_makes_path:
  assumes "mkdir_works os mode" and "p_absolute (Absolute (os_cwd os) (mk_path path))"
    and "MkdirRecusively os path mode fs = (True, fs')" and "\<not> IsDir os path fs"
    and "k < length (p_route (Resolved (os_cwd os) (mk_path path)))"
  shows "IsDir os (abs_string (take (Suc k) (p_route (Resolved (os_cwd os) (mk_path path))))) fs' \<and>
    (\<forall>r. IsDir os r fs \<longrightarrow> IsDir os r fs')"
proof -
  let ?p = "Resolved (os_cwd os) (mk_path path)"
  have ne: "p_route ?p \<noteq> []" using assms(5) by auto
  have wf: "list_all wf_comp (p_route ?p)" by (rule wf_Resolved)
  have "SplitString (ToString ?p) PATH_SEP = [] # p_route ?p"
    using split_abs_string [OF wf ne] ne assms(2) by (simp add: ToString_abs absolute_Resolved)
  then have run: "mkdir_loop os mode True [] ([] # p_route ?p) fs = (True, fs')"
    using assms(3,4) by (simp add: MkdirRecusively_def split: if_splits)
  then have loop: "mkdir_loop os mode False [] (p_route ?p) fs = (True, fs')" by simp
  have "IsDir os r fs'" if "IsDir os r fs" for r
    using mkdir_loop_keeps [OF assms(1) that, of False "[]" "p_route ?p"] loop by simp
  with mkdir_loop_makes [OF assms(1) wf loop assms(5)] show ?thesis by simp
qed

text \<open>A file system that is the list of its files, newest first.\<close>

definition dir_stat :: stat_info where
  "dir_stat = \<lparr>st_mode = S_IFDIR OR 0x1ED, st_uid = 0, st_size = 4096\<rparr>"

definition demo_os :: "(string \<times> stat_info) list os" where
  "demo_os = \<lparr>os_stat = \<lambda>p fs. map_of fs p, os_lstat = \<lambda>p fs. map_of fs p, os_realpath = \<lambda>p fs. Some p,
     os_mkdir = \<lambda>p mode fs. (True, (p, dir_stat) # fs), os_chmod = \<lambda>p mode fs. (True, fs),
     os_read = \<lambda>p n fs. Some (replicate n 1), os_create = \<lambda>p fs. (True, fs), os_write = \<lambda>p bs fs. (True, fs),
     os_cwd = Some ''/home'', os_uid = 0, os_getenv = \<lambda>k. None, os_walk = GetInvalidChar\<rparr>"

lemma demo_os_mkdir: "mkdir_works demo_os mode"
  by (auto simp: mkdir_works_def demo_os_def IsDir_def mode_has_def dir_stat_def S_IFDIR_def)

text \<open>
  C35: A file whose type is not \<open>dir\<close> or \<open>exe\<close> is accepted for reading only when its normalised path names a regular
  file the owner may read, no larger than the limit; the path has no parent segment, no control character of the
  table, and is within the length limits.
\<close>

theorem accepted_input_is_safe:
  assumes "CheckInputFileValid os path fileType threshold fs" and "fileType \<noteq> ''dir''" and "fileType \<noteq> ''exe''"
    and "set (os_walk os) = set GetInvalidChar" and "p_absolute (Absolute (os_cwd os) (mk_path path))"
  shows "\<exists>st. os_stat os (ToString (Resolved (os_cwd os) (mk_path path))) fs = Some st \<and>
    S_ISREG (st_mode st) \<and> st_mode st AND S_IRUSR \<noteq> 0 \<and> st_size st \<le> threshold \<and>
    ''..'' \<notin> set (p_route (Resolved (os_cwd os) (mk_path path))) \<and>
    (\<forall>c \<in> set (ToString (Resolved (os_cwd os) (mk_path path))). map_of GetInvalidChar c = None) \<and>
    length (ToString (Resolved (os_cwd os) (mk_path path))) \<le> 2048 \<and>
    (\<forall>d \<in> set (p_route (Resolved (os_cwd os) (mk_path path))). length d \<le> 255)"
proof -
  let ?p = "Resolved (os_cwd os) (mk_path path)"
  let ?a = "ToString ?p"
  obtain mode owner where perm: "map_of GetFilePermission fileType = Some (mode, owner)"
    using assms(1) by (auto simp: CheckInputFileValid_def Let_def split: if_splits option.splits)
  then have m: "mode = S_IRUSR" using assms(2,3) by (auto simp: GetFilePermission_def split: if_splits)
  have chk: "fst (IsStringCharValid (os_walk os) ?a)" "PathLenCheckValid ?a" "IsReadable os ?a fs"
      "CheckFileSizeValid os ?a threshold fs"
    using assms(1,2) perm m
    by (auto simp: CheckInputFileValid_def CheckPathPermission_def S_IRUSR_def Let_def split: if_splits)
  then obtain st where st: "os_stat os ?a fs = Some st" by (auto simp: CheckFileSizeValid_def split: option.splits)
  have "set (p_route ?p) \<subseteq> set (SplitString ?a PATH_SEP)"
  proof (cases "p_route ?p = []")
    case False
    then show ?thesis
      using split_abs_string [OF wf_Resolved False] assms(5) by (auto simp: ToString_abs absolute_Resolved)
  qed simp
  moreover have "''..'' \<notin> set (p_route ?p)" by (simp add: route_Resolved resolve_stack_no_parent)
  ultimately show ?thesis
    using chk st IsStringCharValid_iff [OF assms(4), of ?a]
    by (auto simp: CheckFileSizeValid_def IsReadable_def mode_has_def GetFileSize_def IsExist_def PathLenCheckValid_def
        DIR_NAME_LENGTH_LIMIT_def FILE_NAME_LENGTH_LIMIT_def Let_def split: if_splits)
qed

definition demo_files :: "(string \<times> stat_info) list" where
  "demo_files = [(''/a/b'', \<lparr>st_mode = 0x81A4, st_uid = 0, st_size = 10\<rparr>)]"

theorem accepted_input_is_safe_witness:
  "CheckInputFileValid demo_os ''/a/./b'' ''bin'' 100 demo_files \<and>
   (\<exists>st. os_stat demo_os ''/a/b'' demo_files = Some st \<and> S_ISREG (st_mode st) \<and> st_size st \<le> 100)"
proof -
  have p: "Resolved (os_cwd demo_os) (mk_path ''/a/./b'') = \<lparr>p_absolute = True, p_route = [''a'', ''b'']\<rparr>"
    by (simp add: demo_os_def Resolved_def Absolute_def mk_path_def Strip_def path_join_def resolve_loop.simps)
  then have abs: "p_absolute (Absolute (os_cwd demo_os) (mk_path ''/a/./b''))"
    by (metis absolute_Resolved path.select_convs(1))
  have d: "SplitString ''/a/b'' PATH_SEP = [[], ''a'', ''b'']"
    using split_abs_string [of "[''a'', ''b'']"] by (simp add: wf_comp_def)
  have walk: "set (os_walk demo_os) = set GetInvalidChar" by (simp add: demo_os_def)
  have st: "os_stat demo_os ''/a/b'' demo_files = Some \<lparr>st_mode = 0x81A4, st_uid = 0, st_size = 10\<rparr>"
    by (simp add: demo_os_def demo_files_def)
  have ok: "CheckInputFileValid demo_os ''/a/./b'' ''bin'' 100 demo_files"
    unfolding CheckInputFileValid_def p
    using IsStringCharValid_iff [OF walk, of "''/a/b''"]
    by (simp add: ToString_def GetInvalidChar_def PathLenCheckValid_def d st IsExist_def IsDir_def mode_has_def S_IFDIR_def
        GetFilePermission_def CheckPathPermission_def IsReadable_def S_IRUSR_def S_IWUSR_def S_IXUSR_def
        CheckOwnerPermission_def CheckFileSizeValid_def GetFileSize_def S_ISREG_def S_IFMT_def S_IFREG_def
        DIR_NAME_LENGTH_LIMIT_def FILE_NAME_LENGTH_LIMIT_def)
  show ?thesis
    using accepted_input_is_safe [OF ok _ _ walk abs] ok unfolding p by (auto simp: ToString_def)
qed

text \<open>The directory bit is tested alone, and a block device has it too.\<close>

lemma block_device_is_dir:
  "os_stat os path fs = Some \<lparr>st_mode = 0x61B0, st_uid = 0, st_size = 0\<rparr> \<Longrightarrow> IsDir os path fs"
  by (simp add: IsDir_def mode_has_def S_IFDIR_def)

lemma GetLastFile_abs: "PATH_SEP \<notin> set c \<Longrightarrow> c \<noteq> [] \<Longrightarrow> GetLastFile (xs @ PATH_SEP # c) = Some c"
  by (simp add: GetLastFile_def last_sep_append)

text \<open>
  A file given by its absolute path is written under its own name in the real directory of its parent, and not at
  all when that directory does not exist.
\<close>

lemma written_in_real_parent:
  assumes "p_absolute p" and "p_route p \<noteq> []" and "list_all wf_comp (p_route p)"
  shows "CheckWriteFilePathValid os (ToString p) fs =
    (let real = Realpath os (ToString (Parent p)) fs in if real = [] then None else Some (JoinPath [real, Name p]))"
proof -
  obtain rs c where rs: "p_route p = rs @ [c]" using assms(2) by (metis rev_exhaust)
  have c: "PATH_SEP \<notin> set c" "c \<noteq> []" using assms(3) rs by (auto simp: wf_comp_def)
  have s: "ToString p = abs_string rs @ PATH_SEP # c" using rs assms(1) by (simp add: ToString_abs)
  have "RollbackPath (ToString p) 1 = Some (ToString (Parent p))"
    using rollback_path_parent [OF assms, of 1] assms(2) by (cases "p_route p") auto
  moreover have "GetLastFile (ToString p) = Some c" unfolding s by (rule GetLastFile_abs [OF c])
  moreover have "PATH_SEP \<in> set (ToString p)" by (simp add: s)
  ultimately show ?thesis using rs by (simp add: CheckWriteFilePathValid_def Name_def Let_def)
qed

end
