(* ===== verification/KernelConfig.thy ===== *)
theory KernelConfig
  imports FileSystem
begin

text \<open>
  The file by which a recorded launch reaches the launcher: \<open>DumperContext::ToJson\<close>
  (\<open>csrc/runtime/inject_helpers/ArgsContext.cpp\<close>) writes it and \<open>KernelConfigParser\<close>
  (\<open>csrc/tools/kernel_launcher/KernelConfigParser.cpp\<close>) reads it. A JSON object is the list of its members
  in key order, as the JSON library keeps it; reading and writing its text is left to that library.
\<close>

section \<open>Writing\<close>

record DumperContext =
  dc_binPath :: string
  dc_blockDim :: u32
  dc_visibleDevId :: int
  dc_devId :: int
  dc_isFFTS :: bool
  dc_inputPathList :: "string list"
  dc_inputSizeList :: "u64 list"
  dc_kernelName :: string
  dc_magic :: u32
  dc_tilingDataPath :: string
  dc_tilingDataSize :: u32
  dc_tilingKey :: u64
  dc_hasTilingKey :: bool
  dc_isAclNew :: bool

definition rtDevBinaryMagicElf :: u32 where "rtDevBinaryMagicElf = 0x43554245"
definition rtDevBinaryMagicElfAivec :: u32 where "rtDevBinaryMagicElfAivec = 0x41415246"
definition rtDevBinaryMagicElfAicube :: u32 where "rtDevBinaryMagicElfAicube = 0x41494343"

text \<open>\<open>std::to_string\<close> of a signed value.\<close>

definition int_string :: "int \<Rightarrow> string" where
  "int_string i = (if i < 0 then CHR ''-'' # to_string (nat (- i)) else to_string (nat i))"

text \<open>A member's value: the parser can only use strings.\<close>

datatype json_value = JString string | JOther

type_synonym json_object = "(string \<times> json_value) list"

definition json_set :: "string \<Rightarrow> string \<Rightarrow> json_object \<Rightarrow> json_object" where
  "json_set k v = omap_put k (JString v)"

definition magic_name :: "u32 \<Rightarrow> string option" where
  "magic_name m =
     (if m = rtDevBinaryMagicElfAivec then Some ''RT_DEV_BINARY_MAGIC_ELF_AIVEC''
      else if m = rtDevBinaryMagicElfAicube then Some ''RT_DEV_BINARY_MAGIC_ELF_AICUBE''
      else if m = rtDevBinaryMagicElf then Some ''RT_DEV_BINARY_MAGIC_ELF''
      else None)"

definition ToJson :: "DumperContext \<Rightarrow> json_object \<Rightarrow> bool \<times> json_object" where
  "ToJson c j =
     (let j1 = (if dc_isAclNew c then json_set ''old_mode'' ''0'' j else j);
          j2 = json_set ''bin_path'' (dc_binPath c) j1;
          j3 = json_set ''block_dim'' (to_string (unat (dc_blockDim c))) j2;
          j4 = json_set ''device_id'' (int_string (dc_devId c)) j3;
          j5 = json_set ''ffts'' (if dc_isFFTS c then ''Y'' else ''N'') j4;
          j6 = json_set ''input_path'' (Join (dc_inputPathList c) '';'') j5;
          j7 = json_set ''input_size'' (Join (map (to_string \<circ> unat) (dc_inputSizeList c)) '';'') j6;
          j8 = json_set ''kernel_name'' (dc_kernelName c) j7
      in case magic_name (dc_magic c) of
           None \<Rightarrow> (False, j8)
         | Some magic \<Rightarrow>
             let j9 = json_set ''magic'' magic j8;
                 j10 = (if dc_tilingDataPath c \<noteq> []
                        then json_set ''tiling_data_path''
                               (Join [dc_tilingDataPath c, to_string (unat (dc_tilingDataSize c))] '';'') j9
                        else j9);
                 j11 = (if dc_hasTilingKey c then json_set ''tiling_key'' (to_string (unat (dc_tilingKey c))) j10 else j10)
             in (True, j11))"

section \<open>Reading\<close>

text \<open>A member that is not assigned has no value.\<close>

record Param =
  pa_type :: string
  pa_name :: string
  pa_dType :: string
  pa_dataSize :: "u64 option"
  pa_dataPath :: string
  pa_isRequired :: "bool option"

definition new_param :: "string \<Rightarrow> Param" where
  "new_param type =
     \<lparr>pa_type = type, pa_name = [], pa_dType = [], pa_dataSize = None, pa_dataPath = [], pa_isRequired = None\<rparr>"

record KernelConfig =
  kc_hasTilingKey :: bool
  kc_isOldVersion :: bool
  kc_tilingKey :: u64
  kc_blockDim :: int
  kc_deviceID :: int
  kc_kernelName :: string
  kc_kernelBinaryPath :: string
  kc_magic :: string
  kc_outputDir :: string
  kc_params :: "Param list"

definition empty_config :: KernelConfig where
  "empty_config =
     \<lparr>kc_hasTilingKey = False, kc_isOldVersion = True, kc_tilingKey = 0, kc_blockDim = 0, kc_deviceID = 0,
      kc_kernelName = [], kc_kernelBinaryPath = [], kc_magic = [], kc_outputDir = [], kc_params = []\<rparr>"

record parser =
  ps_config :: KernelConfig
  ps_inputCount :: u32
  ps_outputCount :: u32

definition new_parser :: parser where
  "new_parser = \<lparr>ps_config = empty_config, ps_inputCount = 0, ps_outputCount = 0\<rparr>"

definition on_config :: "(KernelConfig \<Rightarrow> KernelConfig) \<Rightarrow> parser \<Rightarrow> parser" where
  "on_config f p = p\<lparr>ps_config := f (ps_config p)\<rparr>"

definition add_params :: "Param list \<Rightarrow> parser \<Rightarrow> parser" where
  "add_params ps = on_config (\<lambda>k. k\<lparr>kc_params := kc_params k @ ps\<rparr>)"

definition MAGICS :: "string list" where
  "MAGICS = [''RT_DEV_BINARY_MAGIC_ELF_AIVEC'', ''RT_DEV_BINARY_MAGIC_ELF_AICUBE'', ''RT_DEV_BINARY_MAGIC_ELF'']"

type_synonym setter = "string \<Rightarrow> parser \<Rightarrow> bool \<times> parser"

definition SetKernelName :: setter where
  "SetKernelName arg p =
     (if \<not> CheckInputStringValid arg FILE_NAME_LENGTH_LIMIT then (False, p)
      else (True, on_config (\<lambda>k. k\<lparr>kc_kernelName := arg\<rparr>) p))"

definition SetBinPath :: setter where
  "SetBinPath arg p = (True, on_config (\<lambda>k. k\<lparr>kc_kernelBinaryPath := arg\<rparr>) p)"

definition SetBlockDim :: setter where
  "SetBlockDim arg p =
     (case StringToNum_signed 32 arg of
        None \<Rightarrow> (False, p)
      | Some n \<Rightarrow> (True, on_config (\<lambda>k. k\<lparr>kc_blockDim := n\<rparr>) p))"

definition SetDeviceId :: setter where
  "SetDeviceId arg p =
     (case StringToNum_signed 32 arg of
        None \<Rightarrow> (False, p)
      | Some n \<Rightarrow> (True, on_config (\<lambda>k. k\<lparr>kc_deviceID := n\<rparr>) p))"

definition SetMagic :: setter where
  "SetMagic arg p =
     (let p1 = on_config (\<lambda>k. k\<lparr>kc_magic := arg\<rparr>) p in (arg \<in> set MAGICS, p1))"

definition SetFfts :: setter where
  "SetFfts arg p =
     (True, if arg \<noteq> [] \<and> hd arg = CHR ''Y''
            then add_params [(new_param ''fftsAddr'')\<lparr>pa_dataSize := Some 64\<rparr>] p else p)"

definition input_param :: "string \<Rightarrow> Param" where
  "input_param path =
     (new_param ''input'')\<lparr>pa_dType := ''int8'', pa_dataPath := path, pa_isRequired := Some (path \<noteq> ''n'')\<rparr>"

definition SetInputPath :: setter where
  "SetInputPath arg p =
     (let sizeVec = SplitString arg CHR '';'' in
      if sizeVec = [] then (False, p)
      else (True, add_params (map input_param sizeVec) (p\<lparr>ps_inputCount := word_of_nat (length sizeVec)\<rparr>)))"

text \<open>
  The loop over the parameters of one type; it stops at the first size that is not a number, and an index past
  the end of the sizes is \<open>None\<close>.
\<close>

fun set_sizes :: "string \<Rightarrow> Param list \<Rightarrow> string list \<Rightarrow> (bool \<times> Param list) option" where
  "set_sizes type [] sizes = Some (True, [])"
| "set_sizes type (pa # ps) sizes =
     (if pa_type pa \<noteq> type then map_option (map_prod id ((#) pa)) (set_sizes type ps sizes)
      else case sizes of
        [] \<Rightarrow> None
      | sz # rest \<Rightarrow>
          (case StringToNum_unsigned 64 sz of
             None \<Rightarrow> Some (False, pa # ps)
           | Some n \<Rightarrow>
               map_option (map_prod id ((#) (pa\<lparr>pa_dataSize := Some (word_of_nat n)\<rparr>))) (set_sizes type ps rest)))"

definition set_param_sizes :: "string \<Rightarrow> string list \<Rightarrow> parser \<Rightarrow> (bool \<times> parser) option" where
  "set_param_sizes type sizes p =
     map_option (map_prod id (\<lambda>ps. on_config (\<lambda>k. k\<lparr>kc_params := ps\<rparr>) p))
       (set_sizes type (kc_params (ps_config p)) sizes)"

definition SetInputSize :: "string \<Rightarrow> parser \<Rightarrow> (bool \<times> parser) option" where
  "SetInputSize arg p =
     (let sizeVec = SplitString arg CHR '';'' in
      if ps_inputCount p = 0 then Some (False, p)
      else if length sizeVec \<noteq> unat (ps_inputCount p) then Some (False, p)
      else set_param_sizes ''input'' sizeVec p)"

definition SetOutputSize :: "string \<Rightarrow> parser \<Rightarrow> (bool \<times> parser) option" where
  "SetOutputSize arg p =
     (let sizeVec = SplitString arg CHR '';'' in
      if ps_outputCount p = 0 \<and> length sizeVec \<noteq> 0 then Some (True, p)
      else if unat (ps_outputCount p) \<noteq> length sizeVec then Some (False, p)
      else set_param_sizes ''output'' sizeVec p)"

fun workspace_params :: "string list \<Rightarrow> Param list option" where
  "workspace_params [] = Some []"
| "workspace_params (s # ss) =
     (case StringToNum_unsigned 64 s of
        None \<Rightarrow> None
      | Some n \<Rightarrow> map_option ((#) ((new_param ''workspace'')\<lparr>pa_dataSize := Some (word_of_nat n)\<rparr>)) (workspace_params ss))"

definition SetWorkspaceSize :: setter where
  "SetWorkspaceSize arg p =
     (case workspace_params (SplitString arg CHR '';'') of
        None \<Rightarrow> (False, p)
      | Some ps \<Rightarrow> (True, add_params ps p))"

definition SetOutputDir :: setter where
  "SetOutputDir arg p = (True, on_config (\<lambda>k. k\<lparr>kc_outputDir := arg\<rparr>) p)"

definition SetOldMode :: setter where
  "SetOldMode arg p = (True, on_config (\<lambda>k. k\<lparr>kc_isOldVersion := (arg = ''1'')\<rparr>) p)"

definition SetOutputName :: setter where
  "SetOutputName arg p =
     (let nameVec = SplitString arg CHR '';'' in
      (True, (add_params (map (\<lambda>n. (new_param ''output'')\<lparr>pa_name := n\<rparr>) nameVec) p)
               \<lparr>ps_outputCount := word_of_nat (length nameVec)\<rparr>))"

text \<open>The first part of a value that is not empty exists.\<close>

definition SetTilingDataPath :: setter where
  "SetTilingDataPath arg p =
     (if arg = [] then (True, p)
      else let sizeVec = SplitString arg CHR '';'' in
        if length sizeVec < 2 then (False, p)
        else case StringToNum_unsigned 64 (sizeVec ! 1) of
          None \<Rightarrow> (False, p)
        | Some n \<Rightarrow>
            (True, add_params [(new_param ''tiling'')\<lparr>pa_dataPath := sizeVec ! 0, pa_dataSize := Some (word_of_nat n)\<rparr>] p))"

definition SetTilingKey :: setter where
  "SetTilingKey arg p =
     (if arg = [] then (True, p)
      else case StringToNum_unsigned 64 arg of
        None \<Rightarrow> (False, p)
      | Some n \<Rightarrow> (True, on_config (\<lambda>k. k\<lparr>kc_tilingKey := word_of_nat n, kc_hasTilingKey := True\<rparr>) p))"

definition parserFuncs :: "(string \<times> (string \<Rightarrow> parser \<Rightarrow> (bool \<times> parser) option)) list" where
  "parserFuncs =
     [(''kernel_name'', \<lambda>a p. Some (SetKernelName a p)), (''bin_path'', \<lambda>a p. Some (SetBinPath a p)),
      (''block_dim'', \<lambda>a p. Some (SetBlockDim a p)), (''device_id'', \<lambda>a p. Some (SetDeviceId a p)),
      (''magic'', \<lambda>a p. Some (SetMagic a p)), (''ffts'', \<lambda>a p. Some (SetFfts a p)),
      (''input_path'', \<lambda>a p. Some (SetInputPath a p)), (''input_size'', SetInputSize),
      (''tiling_data_path'', \<lambda>a p. Some (SetTilingDataPath a p)), (''tiling_key'', \<lambda>a p. Some (SetTilingKey a p)),
      (''output_size'', SetOutputSize), (''workspace_size'', \<lambda>a p. Some (SetWorkspaceSize a p)),
      (''output_dir'', \<lambda>a p. Some (SetOutputDir a p)), (''output_name'', \<lambda>a p. Some (SetOutputName a p)),
      (''old_mode'', \<lambda>a p. Some (SetOldMode a p))]"

definition ARGS_ORDERS :: "(string \<times> nat) list" where
  "ARGS_ORDERS =
     [(''bin_path'', 0), (''block_dim'', 1), (''device_id'', 2), (''ffts'', 3), (''input_path'', 4),
      (''input_size'', 5), (''kernel_name'', 6), (''magic'', 7), (''output_dir'', 8), (''output_name'', 9),
      (''output_size'', 10), (''workspace_size'', 11), (''tiling_data_path'', 12), (''tiling_key'', 13), (''old_mode'', 14)]"

definition Cmp :: "string \<times> 'v \<Rightarrow> string \<times> 'v \<Rightarrow> bool" where
  "Cmp lhs rhs =
     (case (map_of ARGS_ORDERS (fst lhs), map_of ARGS_ORDERS (fst rhs)) of
        (Some a, Some b) \<Rightarrow> a < b
      | _ \<Rightarrow> True)"

text \<open>
  \<open>std::sort\<close> with \<open>Cmp\<close>: on known keys, which an object has once each, the order is total and the result is the
  sorted list; a key that is not known breaks the requirements of \<open>std::sort\<close>, so the result is open.
\<close>

definition sort_items :: "(string \<times> 'v) list \<Rightarrow> (string \<times> 'v) list option" where
  "sort_items items =
     (if length items \<le> 1 then Some items
      else if list_all (\<lambda>it. map_of ARGS_ORDERS (fst it) \<noteq> None) items
      then Some (sort_key (\<lambda>it. the (map_of ARGS_ORDERS (fst it))) items)
      else None)"

text \<open>
  The result of reading a file: the configuration with the success flag, an exception (a member that is not a
  string), or nothing the language defines.
\<close>

datatype config_result = Parsed KernelConfig bool | Thrown | Undefined

fun parse_items :: "(string \<times> string) list \<Rightarrow> parser \<Rightarrow> config_result" where
  "parse_items [] p = Parsed (ps_config p) True"
| "parse_items ((k, v) # items) p =
     (case map_of parserFuncs k of
        None \<Rightarrow> parse_items items p
      | Some f \<Rightarrow>
          (case f v p of
             None \<Rightarrow> Undefined
           | Some (ok, p1) \<Rightarrow> if ok then parse_items items p1 else Parsed (ps_config p1) False))"

fun string_items :: "json_object \<Rightarrow> (string \<times> string) list option" where
  "string_items [] = Some []"
| "string_items ((k, JString v) # j) = map_option ((#) (k, v)) (string_items j)"
| "string_items ((k, JOther) # j) = None"

text \<open>\<open>None\<close> for a file that cannot be read or is not JSON.\<close>

definition GetKernelConfig :: "json_object option \<Rightarrow> parser \<Rightarrow> config_result" where
  "GetKernelConfig file p =
     (case file of
        None \<Rightarrow> Parsed (ps_config p) False
      | Some j \<Rightarrow>
          (case string_items j of
             None \<Rightarrow> Thrown
           | Some items \<Rightarrow> (case sort_items items of None \<Rightarrow> Undefined | Some its \<Rightarrow> parse_items its p)))"

section \<open>Round trip\<close>

lemma StringToNum_int_string:
  assumes "- (2 ^ 31) \<le> i" and "i < 2 ^ 31"
  shows "StringToNum_signed 32 (int_string i) = Some i"
proof (cases "i < 0")
  case True
  have "length (to_string (nat (- i))) \<le> 10" using assms(1) by (intro to_string_length) simp_all
  then have "IsDigit (CHR ''-'' # to_string (nat (- i)))"
    using to_string_digits [of "nat (- i)"] by (simp add: IsDigit_def)
  then show ?thesis using True assms by (simp add: int_string_def StringToNum_signed_def sign_digits_def)
next
  case False
  then show ?thesis using assms StringToNum_signed_to_string [of "nat i"] by (simp add: int_string_def)
qed

text \<open>What the launcher is meant to learn from a recorded launch.\<close>

definition launcher_params :: "DumperContext \<Rightarrow> Param list" where
  "launcher_params c =
     (if dc_isFFTS c then [(new_param ''fftsAddr'')\<lparr>pa_dataSize := Some 64\<rparr>] else []) @
     map (\<lambda>(path, n). (input_param path)\<lparr>pa_dataSize := Some n\<rparr>) (zip (dc_inputPathList c) (dc_inputSizeList c)) @
     (if dc_tilingDataPath c \<noteq> []
      then [(new_param ''tiling'')\<lparr>pa_dataPath := dc_tilingDataPath c, pa_dataSize := Some (ucast (dc_tilingDataSize c))\<rparr>]
      else [])"

definition launcher_config :: "DumperContext \<Rightarrow> string \<Rightarrow> KernelConfig" where
  "launcher_config c magic =
     \<lparr>kc_hasTilingKey = dc_hasTilingKey c, kc_isOldVersion = (\<not> dc_isAclNew c),
      kc_tilingKey = (if dc_hasTilingKey c then dc_tilingKey c else 0),
      kc_blockDim = uint (dc_blockDim c), kc_deviceID = dc_devId c, kc_kernelName = dc_kernelName c,
      kc_kernelBinaryPath = dc_binPath c, kc_magic = magic, kc_outputDir = [], kc_params = launcher_params c\<rparr>"

text \<open>The members in the order the launcher visits them.\<close>

definition recorded_items :: "DumperContext \<Rightarrow> string \<Rightarrow> (string \<times> string) list" where
  "recorded_items c magic =
     [(''bin_path'', dc_binPath c), (''block_dim'', to_string (unat (dc_blockDim c))),
      (''device_id'', int_string (dc_devId c)), (''ffts'', if dc_isFFTS c then ''Y'' else ''N''),
      (''input_path'', Join (dc_inputPathList c) '';''),
      (''input_size'', Join (map (to_string \<circ> unat) (dc_inputSizeList c)) '';''),
      (''kernel_name'', dc_kernelName c), (''magic'', magic)] @
     (if dc_tilingDataPath c \<noteq> []
      then [(''tiling_data_path'', dc_tilingDataPath c @ CHR '';'' # to_string (unat (dc_tilingDataSize c)))] else []) @
     (if dc_hasTilingKey c then [(''tiling_key'', to_string (unat (dc_tilingKey c)))] else []) @
     (if dc_isAclNew c then [(''old_mode'', ''0'')] else [])"

lemma ToJson_items:
  assumes "magic_name (dc_magic c) = Some magic"
  shows "\<exists>j items. ToJson c [] = (True, j) \<and> string_items j = Some items \<and> sort_items items = Some (recorded_items c magic)"
  using assms
  by (cases "dc_isAclNew c"; cases "dc_tilingDataPath c = []"; cases "dc_hasTilingKey c")
    (simp_all add: ToJson_def json_set_def recorded_items_def sort_items_def ARGS_ORDERS_def Let_def)

lemma to_string_no_sep: "CHR '';'' \<notin> set (to_string n)"
  using to_string_digits [of n] by (auto simp: list_all_iff is_digit_def)

lemma sizes_split: "SplitString (Join (map (to_string \<circ> unat) (ns :: u64 list)) '';'') CHR '';'' = map (to_string \<circ> unat) ns"
proof (rule SplitString_Join)
  show "\<forall>t \<in> set (map (to_string \<circ> unat) ns). CHR '';'' \<notin> set t" using to_string_no_sep by auto
  show "map (to_string \<circ> unat) ns \<noteq> [] \<longrightarrow> last (map (to_string \<circ> unat) ns) \<noteq> []" by (simp add: last_map)
qed

lemma set_sizes_other: "\<forall>p \<in> set pre. pa_type p \<noteq> type \<Longrightarrow>
   set_sizes type (pre @ ps) sizes = map_option (map_prod id ((@) pre)) (set_sizes type ps sizes)"
  by (induction pre; cases "set_sizes type ps sizes") auto

lemma set_sizes_inputs: "length ns = length paths \<Longrightarrow>
   set_sizes ''input'' (map input_param paths) (map (to_string \<circ> unat) (ns :: u64 list)) =
     Some (True, map (\<lambda>(path, n). (input_param path)\<lparr>pa_dataSize := Some n\<rparr>) (zip paths ns))"
proof (induction paths arbitrary: ns)
  case (Cons p ps)
  then obtain n ns' where ns: "ns = n # ns'" "length ns' = length ps" by (cases ns) auto
  have "StringToNum_unsigned 64 (to_string (unat n)) = Some (unat n)"
    using unsigned_less [of n] by (intro StringToNum_to_string) simp
  with Cons.IH [OF ns(2)] ns(1) show ?case by (simp add: input_param_def new_param_def)
qed simp

lemma tiling_split:
  assumes "path \<noteq> []" and "CHR '';'' \<notin> set path"
  shows "SplitString (path @ CHR '';'' # to_string n) CHR '';'' = [path, to_string n]"
  using SplitString_step [OF assms(2)] SplitString_last [OF to_string_no_sep to_string_nonempty] by simp

lemma recorded_launch_loads:
  assumes "magic_name (dc_magic c) = Some magic"
    and "CheckInputStringValid (dc_kernelName c) FILE_NAME_LENGTH_LIMIT"
    and "unat (dc_blockDim c) < 2 ^ 31" and "- (2 ^ 31) \<le> dc_devId c" and "dc_devId c < 2 ^ 31"
    and "dc_inputPathList c \<noteq> []" and "last (dc_inputPathList c) \<noteq> []"
    and "\<forall>p \<in> set (dc_inputPathList c). CHR '';'' \<notin> set p"
    and "length (dc_inputSizeList c) = length (dc_inputPathList c)" and "length (dc_inputPathList c) < 2 ^ 32"
    and "CHR '';'' \<notin> set (dc_tilingDataPath c)"
  shows "\<exists>j. ToJson c [] = (True, j) \<and> GetKernelConfig (Some j) new_parser = Parsed (launcher_config c magic) True"
proof -
  obtain j items where j: "ToJson c [] = (True, j)" "string_items j = Some items"
      "sort_items items = Some (recorded_items c magic)" using ToJson_items [OF assms(1)] by blast
  have m: "magic \<in> set MAGICS" using assms(1) by (auto simp: magic_name_def MAGICS_def split: if_splits)
  have paths: "SplitString (Join (dc_inputPathList c) '';'') CHR '';'' = dc_inputPathList c"
    by (rule SplitString_Join) (use assms(7,8) in simp_all)
  have cnt: "unat (word_of_nat (length (dc_inputPathList c)) :: u32) = length (dc_inputPathList c)"
    using assms(10) by (simp add: unsigned_of_nat take_bit_nat_eq_self)
  then have cnt0: "(word_of_nat (length (dc_inputPathList c)) :: u32) \<noteq> 0" using assms(6) by (metis length_0_conv unsigned_0)
  let ?ffts = "if dc_isFFTS c then [(new_param ''fftsAddr'')\<lparr>pa_dataSize := Some 64\<rparr>] else []"
  have sizes: "set_sizes ''input'' (?ffts @ map input_param (dc_inputPathList c)) (map (to_string \<circ> unat) (dc_inputSizeList c)) =
      Some (True, ?ffts @ map (\<lambda>(path, n). (input_param path)\<lparr>pa_dataSize := Some n\<rparr>) (zip (dc_inputPathList c) (dc_inputSizeList c)))"
    using set_sizes_other [of ?ffts "''input''"] set_sizes_inputs [OF assms(9)] by (simp add: new_param_def)
  have tn: "StringToNum_unsigned 64 (to_string (unat (dc_tilingDataSize c))) = Some (unat (dc_tilingDataSize c))"
    by (intro StringToNum_to_string order_less_le_trans [OF unsigned_less]) simp
  have tk: "StringToNum_unsigned 64 (to_string (unat (dc_tilingKey c))) = Some (unat (dc_tilingKey c))"
    using unsigned_less [of "dc_tilingKey c"] by (intro StringToNum_to_string) simp
  have bd: "StringToNum_signed 32 (to_string (unat (dc_blockDim c))) = Some (uint (dc_blockDim c))"
    using StringToNum_signed_to_string [OF assms(3)] by simp
  note setters = SetKernelName_def SetBinPath_def SetBlockDim_def SetDeviceId_def SetMagic_def SetFfts_def SetInputPath_def
    SetInputSize_def set_param_sizes_def SetTilingDataPath_def SetTilingKey_def SetOldMode_def on_config_def add_params_def
  have "parse_items (recorded_items c magic) new_parser = Parsed (launcher_config c magic) True"
    using sizes
    by (cases "dc_isAclNew c"; cases "dc_tilingDataPath c = []"; cases "dc_hasTilingKey c"; cases "dc_isFFTS c")
      (simp_all add: recorded_items_def parserFuncs_def setters new_parser_def empty_config_def launcher_config_def
        launcher_params_def assms(2,6,9) bd StringToNum_int_string [OF assms(4,5)] m paths cnt cnt0 sizes_split Let_def
        tiling_split [OF _ assms(11)] tn tk)
  with j show ?thesis by (simp add: GetKernelConfig_def)
qed

text \<open>
  C22: A launch the library records is read back by the launcher: the binary, the kernel, the block dimension, the
  device, the inputs with their sizes in order, the tiling data and the tiling key are those of the record.
\<close>

theorem config_roundtrip:
  assumes "magic_name (dc_magic c) = Some magic"
    and "CheckInputStringValid (dc_kernelName c) FILE_NAME_LENGTH_LIMIT"
    and "unat (dc_blockDim c) < 2 ^ 31" and "- (2 ^ 31) \<le> dc_devId c" and "dc_devId c < 2 ^ 31"
    and "dc_inputPathList c \<noteq> []" and "last (dc_inputPathList c) \<noteq> []"
    and "\<forall>p \<in> set (dc_inputPathList c). CHR '';'' \<notin> set p"
    and "length (dc_inputSizeList c) = length (dc_inputPathList c)" and "length (dc_inputPathList c) < 2 ^ 32"
    and "CHR '';'' \<notin> set (dc_tilingDataPath c)"
  shows "\<exists>j. ToJson c [] = (True, j) \<and> GetKernelConfig (Some j) new_parser = Parsed (launcher_config c magic) True"
  using assms by (rule recorded_launch_loads)

definition demo_context :: DumperContext where
  "demo_context = \<lparr>dc_binPath = ''/tmp/k.o'', dc_blockDim = 8, dc_visibleDevId = 0, dc_devId = 1, dc_isFFTS = True,
     dc_inputPathList = [''n'', ''/tmp/input_1.bin''], dc_inputSizeList = [0, 512], dc_kernelName = ''add_custom'',
     dc_magic = rtDevBinaryMagicElfAivec, dc_tilingDataPath = ''/tmp/input_tiling.bin'', dc_tilingDataSize = 16,
     dc_tilingKey = 1, dc_hasTilingKey = True, dc_isAclNew = True\<rparr>"

theorem config_roundtrip_witness:
  "\<exists>j. ToJson demo_context [] = (True, j) \<and>
     GetKernelConfig (Some j) new_parser = Parsed (launcher_config demo_context ''RT_DEV_BINARY_MAGIC_ELF_AIVEC'') True"
  by (rule config_roundtrip)
    (simp_all add: demo_context_def magic_name_def CheckInputStringValid_def FILE_NAME_LENGTH_LIMIT_def is_alnum_def)

end
