(* ===== verification/Args.thy ===== *)
theory Args
  imports OpReport KernelConfig
begin

text \<open>
  The arguments of a kernel launch: \<open>ArgsRawContext\<close> (a block of bytes with placeholders),
  \<open>ArgsHandleContext\<close> (a list of recorded parameters), the dump of inputs and tiling data of
  \<open>ArgsContext.cpp\<close>, and the dump information of \<open>ArgsManager\<close>, all under
  \<open>csrc/runtime/inject_helpers\<close>. Host memory is its bytes; device memory and the file system are parameters.
\<close>

section \<open>Raw arguments\<close>

text \<open>
  The copy from a device pointer, the device allocation, the copy to a device pointer and the release; \<open>None\<close> and
  \<open>False\<close> are error codes.
\<close>

record 'd args_api =
  ga_toHost :: "ptr \<Rightarrow> nat \<Rightarrow> 'd \<Rightarrow> u8 list option \<times> 'd"
  ga_malloc :: "nat \<Rightarrow> 'd \<Rightarrow> ptr option \<times> 'd"
  ga_toDevice :: "ptr \<Rightarrow> u8 list \<Rightarrow> 'd \<Rightarrow> bool \<times> 'd"
  ga_free :: "ptr \<Rightarrow> 'd \<Rightarrow> 'd"
  ga_hostMalloc :: "nat \<Rightarrow> 'd \<Rightarrow> bool \<times> 'd"

datatype args_loc = NullArgs | HostArgs "u8 list" | DeviceArgs ptr

text \<open>
  A placeholder is its address offset and its data offset. \<open>rw_own\<close> says that the host arguments are the context's own
  buffer, to which an expansion moves them.
\<close>

record raw_args =
  rw_args :: args_loc
  rw_argsSize :: u32
  rw_isDevice :: bool
  rw_needFree :: bool
  rw_own :: bool
  rw_placeHolders :: "(u32 \<times> u32) list"

definition new_raw_args :: "args_loc \<Rightarrow> u32 \<Rightarrow> bool \<Rightarrow> raw_args" where
  "new_raw_args args n isDevice =
     \<lparr>rw_args = args, rw_argsSize = n, rw_isDevice = isDevice, rw_needFree = False, rw_own = False, rw_placeHolders = []\<rparr>"

definition new_raw_args_placeholders :: "args_loc \<Rightarrow> u32 \<Rightarrow> (u32 \<times> u32) list \<Rightarrow> raw_args" where
  "new_raw_args_placeholders args n hs =
     \<lparr>rw_args = args, rw_argsSize = n, rw_isDevice = False, rw_needFree = False, rw_own = False, rw_placeHolders = hs\<rparr>"

definition MAX_ALL_PARAM_SIZE :: nat where
  "MAX_ALL_PARAM_SIZE = 1024 * 1024 * 1024"

definition read_bytes :: "args_loc \<Rightarrow> nat \<Rightarrow> nat \<Rightarrow> u8 list option" where
  "read_bytes loc off n =
     (case loc of HostArgs bs \<Rightarrow> if off + n \<le> length bs then Some (take n (drop off bs)) else None | _ \<Rightarrow> None)"

text \<open>\<open>data\<close> comes in with the size to fill; a read outside the arguments is \<open>None\<close>.\<close>

definition raw_GetTilingData :: "raw_args \<Rightarrow> u8 list \<Rightarrow> (bool \<times> u8 list) option" where
  "raw_GetTilingData c data =
     (if rw_placeHolders c = [] \<or> data = [] then Some (False, data)
      else let (tao, tdo) = tiling_offsets (rw_placeHolders c)
           in map_option (Pair True) (read_bytes (rw_args c) (unat tdo) (length data)))"

definition last_addr_offset :: "(u32 \<times> u32) list \<Rightarrow> u32" where
  "last_addr_offset hs = fold (\<lambda>(ao, dof) m. max m ao) hs 0"

definition param_offset :: "string \<Rightarrow> (u32 \<times> u32) list \<Rightarrow> u32" where
  "param_offset soc hs = last_addr_offset hs + 8 + (if NeedOverflowStatus soc then 8 else 0)"

definition FreeArgs :: "'d args_api \<Rightarrow> raw_args \<times> 'd \<Rightarrow> raw_args \<times> 'd" where
  "FreeArgs api st =
     (let (c, d) = st in
      if rw_needFree c \<and> rw_args c \<noteq> NullArgs
      then (c\<lparr>rw_args := NullArgs, rw_needFree := False\<rparr>,
            (case rw_args c of DeviceArgs p \<Rightarrow> ga_free api p d | _ \<Rightarrow> d))
      else st)"

text \<open>
  The copy to the local buffer, whose result the code does not test. The buffer is filled with zeros first, and with it the
  arguments when they are in it already.
\<close>

definition local_args :: "'d args_api \<Rightarrow> raw_args \<Rightarrow> 'd \<Rightarrow> u8 list \<times> 'd" where
  "local_args api c d =
     (let n = unat (CeilByAlignSize 8 (rw_argsSize c));
          fill = (\<lambda>bs. take n (take (unat (rw_argsSize c)) bs @ replicate n 0))
      in case rw_args c of
           HostArgs bs \<Rightarrow> (if rw_own c then replicate n 0 else fill bs, d)
         | DeviceArgs p \<Rightarrow>
             let (r, d1) = ga_toHost api p (unat (rw_argsSize c)) d
             in (case r of None \<Rightarrow> replicate n 0 | Some bs \<Rightarrow> fill bs, d1)
         | NullArgs \<Rightarrow> (replicate n 0, d))"

definition insert_at :: "nat \<Rightarrow> 'b list \<Rightarrow> 'b list \<Rightarrow> 'b list" where
  "insert_at i xs ys = take i ys @ xs @ drop i ys"

text \<open>
  The result is with the offset of the parameter; an insertion past the end is \<open>None\<close>, and so is resizing the own buffer to
  more than it holds, which may move it away from under the arguments.
\<close>

definition raw_ExpandArgs ::
  "'d args_api \<Rightarrow> string \<Rightarrow> u8 list \<Rightarrow> u32 \<Rightarrow> raw_args \<times> 'd \<Rightarrow> ((bool \<times> u32) \<times> (raw_args \<times> 'd)) option" where
  "raw_ExpandArgs api soc param paramOffset st =
     (let (c, d) = st in
      if unat (rw_argsSize c) > MAX_ALL_PARAM_SIZE then Some ((False, paramOffset), st)
      else
        let (buf, d1) = local_args api c d;
            off = (if rw_placeHolders c = [] then word_of_nat (length buf) else param_offset soc (rw_placeHolders c));
            hs = map (\<lambda>(ao, dof). (ao, dof + word_of_nat (length param))) (rw_placeHolders c);
            buf1 = insert_at (unat off) param buf;
            c1 = c\<lparr>rw_placeHolders := hs, rw_argsSize := word_of_nat (length buf1)\<rparr>
        in if unat off > length buf \<or> rw_own c \<and> length buf \<noteq> unat (rw_argsSize c) then None
           else if \<not> rw_isDevice c then Some ((True, off), (c1\<lparr>rw_args := HostArgs buf1, rw_own := True\<rparr>, d1))
           else
             let (c2, d2) = FreeArgs api (c1, d1);
                 (m, d3) = ga_malloc api (length buf1) d2
             in case m of
                  None \<Rightarrow> Some ((False, off), (c2, d3))
                | Some p \<Rightarrow>
                    let (ok, d4) = ga_toDevice api p buf1 d3
                    in Some ((ok, off), (c2\<lparr>rw_args := DeviceArgs p, rw_needFree := True\<rparr>, d4)))"

definition GetLastParamOffset :: "string \<Rightarrow> raw_args \<Rightarrow> u32" where
  "GetLastParamOffset soc c =
     (if unat (rw_argsSize c) > MAX_ALL_PARAM_SIZE then 0
      else if rw_placeHolders c = [] then CeilByAlignSize 8 (rw_argsSize c)
      else param_offset soc (rw_placeHolders c))"

section \<open>Dumping\<close>

text \<open>
  The host allocation, the copy from device memory and \<open>WriteBinary\<close>, which returns the bytes written.
\<close>

record dump_env =
  de_hostMalloc :: "u64 \<Rightarrow> bool"
  de_read :: "u64 \<Rightarrow> u64 \<Rightarrow> u8 list option"
  de_write :: "string \<Rightarrow> u8 list \<Rightarrow> nat"

definition MAX_MEM_SIZE :: u64 where
  "MAX_MEM_SIZE = 10 * 1024 * 1024 * 1024"

definition input_path_of :: "string \<Rightarrow> nat \<Rightarrow> string" where
  "input_path_of outputDir i = outputDir @ ''/input_'' @ to_string i @ ''.bin''"

fun dump_inputs :: "dump_env \<Rightarrow> string \<Rightarrow> nat \<Rightarrow> AddrInfo list \<Rightarrow> DumperContext \<Rightarrow> bool \<times> DumperContext" where
  "dump_inputs env dir i [] c = (True, c)"
| "dump_inputs env dir i (it # its) c =
     (let c1 = c\<lparr>dc_inputSizeList := dc_inputSizeList c @ [ai_length it]\<rparr> in
      if ai_length it = 0
      then dump_inputs env dir (i + 1) its (c1\<lparr>dc_inputPathList := dc_inputPathList c @ [''n'']\<rparr>)
      else if ai_length it > MAX_MEM_SIZE then (False, c1)
      else if \<not> de_hostMalloc env (ai_length it) then (False, c1)
      else if ai_addr it = 0 then (False, c1)
      else case de_read env (ai_addr it) (ai_length it) of
             None \<Rightarrow> (False, c1)
           | Some bytes \<Rightarrow>
               let c2 = c1\<lparr>dc_inputPathList := dc_inputPathList c @ [input_path_of dir i]\<rparr> in
               if de_write env (input_path_of dir i) bytes \<noteq> unat (ai_length it) then (False, c2)
               else dump_inputs env dir (i + 1) its c2)"

definition DumpInputData :: "dump_env \<Rightarrow> string \<Rightarrow> AddrInfo list \<Rightarrow> DumperContext \<Rightarrow> bool \<times> DumperContext" where
  "DumpInputData env outputDir its c = (if its = [] then (False, c) else dump_inputs env outputDir 0 its c)"

definition DumpTilingData :: "dump_env \<Rightarrow> string \<Rightarrow> u8 list \<Rightarrow> DumperContext \<Rightarrow> bool \<times> DumperContext" where
  "DumpTilingData env outputDir tilingData c =
     (if tilingData = [] then (True, c)
      else let path = outputDir @ ''/input_tiling.bin'';
               c1 = c\<lparr>dc_tilingDataPath := path, dc_tilingDataSize := word_of_nat (length tilingData)\<rparr>
           in (de_write env path tilingData = length tilingData, c1))"

text \<open>The word of the arguments with an index.\<close>

definition arg_word :: "u8 list \<Rightarrow> nat \<Rightarrow> u64 option" where
  "arg_word bs i = (if 8 * i + 8 \<le> length bs then Some (word_of_nat (le_val (take 8 (drop (8 * i) bs)))) else None)"

fun set_input_addrs :: "u8 list \<Rightarrow> nat \<Rightarrow> AddrInfo list \<Rightarrow> AddrInfo list option" where
  "set_input_addrs bs i [] = Some []"
| "set_input_addrs bs i (it # its) =
     (case arg_word bs i of
        None \<Rightarrow> None
      | Some w \<Rightarrow> map_option ((#) (it\<lparr>ai_addr := w\<rparr>)) (set_input_addrs bs (i + 1) its))"

definition raw_Save ::
  "'d args_api \<Rightarrow> dump_env \<Rightarrow> string \<Rightarrow> OpMemInfo \<Rightarrow> DumperContext \<Rightarrow> raw_args \<times> 'd \<Rightarrow>
   ((bool \<times> OpMemInfo \<times> DumperContext) \<times> 'd) option" where
  "raw_Save api env outputPath om config st =
     (let (c, d) = st;
          (bytes, d1) = (case rw_args c of
             HostArgs bs \<Rightarrow> (Some bs, d)
           | NullArgs \<Rightarrow> (None, d)
           | DeviceArgs p \<Rightarrow>
               let (ok, d') = ga_hostMalloc api (unat (rw_argsSize c)) d
               in if ok then ga_toHost api p (unat (rw_argsSize c)) d' else (None, d'))
      in if rw_args c = NullArgs \<and> \<not> rw_isDevice c then None
         else case bytes of
           None \<Rightarrow> Some ((False, om, config), d1)
         | Some bs \<Rightarrow>
             (case set_input_addrs bs (unat (om_skipNum om)) (om_inputs om) of
                None \<Rightarrow> None
              | Some its \<Rightarrow>
                  let om1 = om\<lparr>om_inputs := its\<rparr>;
                      (ok, config1) = DumpInputData env outputPath its config
                  in if \<not> ok then Some ((False, om1, config1), d1)
                     else case raw_GetTilingData c (replicate (unat (om_tilingDataSize om)) 0) of
                            None \<Rightarrow> None
                          | Some (got, tiling) \<Rightarrow>
                              if \<not> got then Some ((True, om1, config1), d1)
                              else let (ok2, config2) = DumpTilingData env outputPath tiling config1
                                   in Some ((ok2, om1, config2), d1)))"

section \<open>Recorded parameters\<close>

datatype ParamType = NORMAL | PLACEHOLDER

record ParamData =
  pd_paramHandle :: ptr
  pd_param :: "u8 list"
  pd_type :: ParamType
  pd_srcBuffer :: ptr

record handle_args =
  ha_funcHandle :: ptr
  ha_argsHandle :: ptr
  ha_params :: "ParamData list"
  ha_finalized :: bool

definition new_handle_args :: "ptr \<Rightarrow> ptr \<Rightarrow> handle_args" where
  "new_handle_args func args = \<lparr>ha_funcHandle = func, ha_argsHandle = args, ha_params = [], ha_finalized = False\<rparr>"

definition MAX_SINGLE_PARAM_SIZE :: nat where
  "MAX_SINGLE_PARAM_SIZE = 4096"

definition CacheArgsAppendOp :: "u8 list \<Rightarrow> ptr \<Rightarrow> handle_args \<Rightarrow> handle_args" where
  "CacheArgsAppendOp param h c =
     (if length param > MAX_SINGLE_PARAM_SIZE then c
      else c\<lparr>ha_params := ha_params c @ [\<lparr>pd_paramHandle = h, pd_param = param, pd_type = NORMAL, pd_srcBuffer = 0\<rparr>]\<rparr>)"

definition handle_ExpandArgs :: "u8 list \<Rightarrow> handle_args \<Rightarrow> bool \<times> handle_args" where
  "handle_ExpandArgs param c = (True, CacheArgsAppendOp param 0 c)"

definition CacheArgsAppendPlaceholderOp :: "ptr \<Rightarrow> handle_args \<Rightarrow> handle_args" where
  "CacheArgsAppendPlaceholderOp h c =
     c\<lparr>ha_params := ha_params c @ [\<lparr>pd_paramHandle = h, pd_param = [], pd_type = PLACEHOLDER, pd_srcBuffer = 0\<rparr>]\<rparr>"

text \<open>The first parameter with the handle is changed.\<close>

fun update_first :: "('b \<Rightarrow> bool) \<Rightarrow> ('b \<Rightarrow> 'b) \<Rightarrow> 'b list \<Rightarrow> 'b list" where
  "update_first P f [] = []"
| "update_first P f (x # xs) = (if P x then f x # xs else x # update_first P f xs)"

definition CacheArgsParaUpdateOp :: "ptr \<Rightarrow> u8 list \<Rightarrow> handle_args \<Rightarrow> handle_args" where
  "CacheArgsParaUpdateOp h param c =
     c\<lparr>ha_params := update_first (\<lambda>p. pd_paramHandle p = h) (\<lambda>p. p\<lparr>pd_param := param\<rparr>) (ha_params c)\<rparr>"

text \<open>\<open>resize\<close> keeps the bytes there are and fills with zeros.\<close>

definition resize :: "nat \<Rightarrow> u8 list \<Rightarrow> u8 list" where
  "resize n bs = take n (bs @ replicate n 0)"

definition CacheArgsGetPlaceholderBufferOp :: "ptr \<Rightarrow> nat \<Rightarrow> ptr \<Rightarrow> handle_args \<Rightarrow> handle_args" where
  "CacheArgsGetPlaceholderBufferOp h dataSize buffer c =
     c\<lparr>ha_params := update_first (\<lambda>p. pd_paramHandle p = h)
        (\<lambda>p. p\<lparr>pd_srcBuffer := buffer, pd_param := resize dataSize (pd_param p)\<rparr>) (ha_params c)\<rparr>"

text \<open>\<open>mem\<close> is the host memory the program filled through the placeholders' buffers.\<close>

definition handle_Finalize :: "(ptr \<Rightarrow> nat \<Rightarrow> u8 list) \<Rightarrow> handle_args \<Rightarrow> handle_args" where
  "handle_Finalize mem c =
     c\<lparr>ha_params := map (\<lambda>p. if pd_type p = PLACEHOLDER then p\<lparr>pd_param := mem (pd_srcBuffer p) (length (pd_param p))\<rparr> else p)
         (ha_params c),
       ha_finalized := True\<rparr>"

definition CalcUserArgsSize :: "handle_args \<Rightarrow> nat" where
  "CalcUserArgsSize c = sum_list (map (\<lambda>p. length (pd_param p)) (ha_params c))"

definition handle_GetTilingData :: "handle_args \<Rightarrow> u8 list option" where
  "handle_GetTilingData c =
     (if \<not> ha_finalized c then None
      else map_option pd_param (find (\<lambda>p. pd_type p = PLACEHOLDER) (ha_params c)))"

definition flatten_param :: "ParamData \<Rightarrow> ParamData list" where
  "flatten_param p =
     (if pd_type p \<noteq> NORMAL then [p]
      else map (\<lambda>j. \<lparr>pd_paramHandle = 0, pd_param = take 8 (drop (8 * j) (pd_param p)), pd_type = NORMAL, pd_srcBuffer = 0\<rparr>)
             [0..<length (pd_param p) div 8])"

definition GetFlattenedParams :: "ParamData list \<Rightarrow> ParamData list" where
  "GetFlattenedParams ps = concat (map flatten_param ps)"

fun set_handle_addrs :: "ParamData list \<Rightarrow> AddrInfo list \<Rightarrow> bool \<times> AddrInfo list" where
  "set_handle_addrs ps [] = (True, [])"
| "set_handle_addrs [] (it # its) = (False, it # its)"
| "set_handle_addrs (p # ps) (it # its) =
     (if length (pd_param p) \<noteq> 8 then (False, it # its)
      else let (ok, its1) = set_handle_addrs ps its in (ok, it\<lparr>ai_addr := word_of_nat (le_val (pd_param p))\<rparr> # its1))"

definition UpdateNormalTaskArgsAddr :: "handle_args \<Rightarrow> OpMemInfo \<Rightarrow> bool \<times> OpMemInfo" where
  "UpdateNormalTaskArgsAddr c om =
     (let flat = GetFlattenedParams (ha_params c) in
      if length flat < length (om_inputs om) then (False, om)
      else let (ok, its) = set_handle_addrs flat (om_inputs om) in (ok, om\<lparr>om_inputs := its\<rparr>))"

definition handle_Save ::
  "dump_env \<Rightarrow> string \<Rightarrow> OpMemInfo \<Rightarrow> DumperContext \<Rightarrow> handle_args \<Rightarrow> bool \<times> OpMemInfo \<times> DumperContext" where
  "handle_Save env outputPath om config c =
     (let (ok, om1) = UpdateNormalTaskArgsAddr c om in
      if \<not> ok then (False, om1, config)
      else let (ok1, config1) = DumpInputData env outputPath (om_inputs om1) config in
        if \<not> ok1 then (False, om1, config1)
        else case handle_GetTilingData c of
               None \<Rightarrow> (True, om1, config1)
             | Some tiling \<Rightarrow>
                 let (ok2, config2) = DumpTilingData env outputPath tiling config1 in (ok2, om1, config2))"

text \<open>
  The calls that build an argument handle: the sizes, the initialisation, appending a parameter or a placeholder (which
  give a handle), a placeholder's buffer, writing it, and the end.
\<close>

record 'h handle_api =
  hk_memSize :: "ptr \<Rightarrow> nat \<Rightarrow> 'h \<Rightarrow> nat option \<times> 'h"
  hk_handleMemSize :: "ptr \<Rightarrow> 'h \<Rightarrow> nat option \<times> 'h"
  hk_init :: "ptr \<Rightarrow> nat \<Rightarrow> nat \<Rightarrow> 'h \<Rightarrow> bool \<times> 'h"
  hk_append :: "u8 list \<Rightarrow> 'h \<Rightarrow> ptr option \<times> 'h"
  hk_appendPlaceHolder :: "'h \<Rightarrow> ptr option \<times> 'h"
  hk_placeHolderBuffer :: "ptr \<Rightarrow> nat \<Rightarrow> 'h \<Rightarrow> ptr option \<times> 'h"
  hk_store :: "ptr \<Rightarrow> u8 list \<Rightarrow> 'h \<Rightarrow> 'h"
  hk_finalize :: "'h \<Rightarrow> bool \<times> 'h"

fun replay_append :: "'h handle_api \<Rightarrow> ParamData list \<Rightarrow> 'h \<Rightarrow> ptr list option \<times> 'h" where
  "replay_append api [] h = (Some [], h)"
| "replay_append api (p # ps) h =
     (let (r, h1) = (if pd_type p = NORMAL then hk_append api (pd_param p) h else hk_appendPlaceHolder api h) in
      case r of
        None \<Rightarrow> (None, h1)
      | Some q \<Rightarrow> let (rs, h2) = replay_append api ps h1 in (map_option ((#) q) rs, h2))"

fun replay_buffers :: "'h handle_api \<Rightarrow> (ParamData \<times> ptr) list \<Rightarrow> 'h \<Rightarrow> bool \<times> 'h" where
  "replay_buffers api [] h = (True, h)"
| "replay_buffers api ((p, q) # ps) h =
     (if pd_type p \<noteq> PLACEHOLDER then replay_buffers api ps h
      else let (r, h1) = hk_placeHolderBuffer api q (length (pd_param p)) h in
        case r of
          None \<Rightarrow> (False, h1)
        | Some b \<Rightarrow> replay_buffers api ps (hk_store api b (pd_param p) h1))"

definition ReplayArgs :: "'h handle_api \<Rightarrow> handle_args \<Rightarrow> 'h \<Rightarrow> bool \<times> 'h" where
  "ReplayArgs api c h =
     (let (qs, h1) = replay_append api (ha_params c) h in
      case qs of
        None \<Rightarrow> (False, h1)
      | Some qs \<Rightarrow> replay_buffers api (zip (ha_params c) qs) h1)"

definition GenerateArgsHandle :: "'h handle_api \<Rightarrow> handle_args \<Rightarrow> 'h \<Rightarrow> bool \<times> 'h" where
  "GenerateArgsHandle api c h =
     (let (m, h1) = hk_memSize api (ha_funcHandle c) (CalcUserArgsSize c) h in
      case m of
        None \<Rightarrow> (False, h1)
      | Some actual \<Rightarrow>
          let (n, h2) = hk_handleMemSize api (ha_funcHandle c) h1 in
          (case n of
             None \<Rightarrow> (False, h2)
           | Some handleSize \<Rightarrow>
               let (ok, h3) = hk_init api (ha_funcHandle c) handleSize actual h2 in
               if \<not> ok then (False, h3)
               else let (ok2, h4) = ReplayArgs api c h3 in
                 if \<not> ok2 then (False, h4) else hk_finalize api h4))"

section \<open>Dump information\<close>

text \<open>An address with the number of sizes behind it; the address is 0 when there is none.\<close>

type_synonym AdumpInfo = "ptr \<times> u32"

datatype args_context = RawContext raw_args | HandleContext handle_args

record args_manager =
  am_contexts :: "(ptr \<times> args_context) list"
  am_adump :: "(u64 \<times> AdumpInfo) list"
  am_latest :: u64
  am_through :: bool
  am_argsSize :: u32

definition new_args_manager :: args_manager where
  "new_args_manager = \<lparr>am_contexts = [], am_adump = [], am_latest = 0, am_through = True, am_argsSize = 0\<rparr>"

definition CreateContext_handle :: "ptr \<Rightarrow> ptr \<Rightarrow> args_manager \<Rightarrow> handle_args option \<times> args_manager" where
  "CreateContext_handle func args am =
     (if func = 0 \<or> args = 0 then (None, am)
      else let c = new_handle_args func args
           in (Some c, am\<lparr>am_contexts := omap_put args (HandleContext c) (am_contexts am)\<rparr>))"

text \<open>\<open>key\<close> is the address of the arguments, \<open>loc\<close> where they are.\<close>

definition CreateContext_raw :: "ptr \<Rightarrow> args_loc \<Rightarrow> u32 \<Rightarrow> bool \<Rightarrow> args_manager \<Rightarrow> raw_args option \<times> args_manager" where
  "CreateContext_raw key loc n isDevice am =
     (if key = 0 \<or> n = 0 then (None, am)
      else let c = new_raw_args loc n isDevice
           in (Some c, am\<lparr>am_argsSize := n, am_contexts := omap_put key (RawContext c) (am_contexts am)\<rparr>))"

definition CreateContext_placeholders ::
  "ptr \<Rightarrow> args_loc \<Rightarrow> u32 \<Rightarrow> (u32 \<times> u32) list \<Rightarrow> args_manager \<Rightarrow> raw_args option \<times> args_manager" where
  "CreateContext_placeholders key loc n hs am =
     (if key = 0 \<or> n = 0 then (None, am)
      else let c = new_raw_args_placeholders loc n hs
           in (Some c, am\<lparr>am_argsSize := n, am_contexts := omap_put key (RawContext c) (am_contexts am)\<rparr>))"

definition GetContext :: "ptr \<Rightarrow> args_manager \<Rightarrow> args_context option" where
  "GetContext args am = map_of (am_contexts am) args"

definition AddAdumpInfo :: "u64 \<Rightarrow> AdumpInfo \<Rightarrow> args_manager \<Rightarrow> args_manager" where
  "AddAdumpInfo index info am = am\<lparr>am_adump := omap_put index info (am_adump am), am_latest := index\<rparr>"

definition HasAdumpInfo :: "args_manager \<Rightarrow> bool" where
  "HasAdumpInfo am \<longleftrightarrow> am_adump am \<noteq> []"

text \<open>\<open>at\<close> throws when the index is not there.\<close>

definition GetLatestAdumpInfo :: "args_manager \<Rightarrow> AdumpInfo option" where
  "GetLatestAdumpInfo am = map_of (am_adump am) (am_latest am)"

definition META_MAGIC_NUM :: u64 where
  "META_MAGIC_NUM = 0xA5A5A5A500000000"

definition le_at :: "u8 list \<Rightarrow> nat \<Rightarrow> nat \<Rightarrow> u64" where
  "le_at bs i n = word_of_nat (le_val (take n (drop i bs)))"

text \<open>The scan for the magic prefix; \<open>cnt\<close> counts the prefix bytes that end before \<open>i\<close>.\<close>

function adump_scan :: "(u64 \<rightharpoonup> AdumpInfo) \<Rightarrow> u8 list \<Rightarrow> nat \<Rightarrow> nat \<Rightarrow> nat \<Rightarrow> AdumpInfo option" where
  "adump_scan look bs n i cnt =
     (if i < n then
        let cnt1 = (if bs ! i = 0xA5 then cnt + 1 else 0) in
        if cnt1 \<noteq> 4 \<or> i < 7 then adump_scan look bs n (i + 1) cnt1
        else case look (META_MAGIC_NUM OR le_at bs (i - 7) 4) of
               Some info \<Rightarrow> Some info
             | None \<Rightarrow> adump_scan look bs n (i + 1) (cnt1 - 1)
      else None)"
  by pat_completeness auto
termination
  by (relation "measure (\<lambda>(look, bs, n, i, cnt). n - i)") auto

declare adump_scan.simps [simp del]

definition no_adump :: AdumpInfo where
  "no_adump = (0, 0)"

definition GetAdumpInfoFromTilingData :: "args_manager \<Rightarrow> u8 list \<Rightarrow> OpMemInfo \<Rightarrow> AdumpInfo" where
  "GetAdumpInfoFromTilingData am tilingData om =
     (let n = unat (om_tilingDataSize om);
          scan = (case adump_scan (map_of (am_adump am)) tilingData n 4 0 of None \<Rightarrow> no_adump | Some info \<Rightarrow> info)
      in if om_isTik om then scan
         else if n < 8 then no_adump
         else case map_of (am_adump am) (le_at tilingData (n - 8) 8) of Some info \<Rightarrow> info | None \<Rightarrow> scan)"

definition GetAdumpInfo :: "args_manager \<Rightarrow> OpMemInfo \<Rightarrow> u8 list \<Rightarrow> AdumpInfo \<times> args_manager" where
  "GetAdumpInfo am om tilingData =
     (if \<not> HasAdumpInfo am then (no_adump, am\<lparr>am_through := False\<rparr>)
      else let am1 = am\<lparr>am_through := True\<rparr> in
        if om_tilingDataSize om = 0 then (no_adump, am1)
        else if length tilingData < unat (om_tilingDataSize om) then (no_adump, am1)
        else (GetAdumpInfoFromTilingData am1 tilingData om, am1))"

definition RefreshMc2CtxInfo :: "bool \<Rightarrow> u32 \<Rightarrow> OpMemInfo \<Rightarrow> OpMemInfo" where
  "RefreshMc2CtxInfo hasMc2Ctx skipNum om =
     om\<lparr>om_inputs := om_inputs om @ [\<lparr>ai_addr = 0, ai_length = sizeof_HcclCombinOpParam, ai_src = BYPASS,
          ai_desc = DEFAULT, ai_paramsNo = 0\<rparr>],
        om_hasMc2Ctx := hasMc2Ctx, om_skipNum := skipNum\<rparr>"

text \<open>\<open>sizes\<close> are the words behind an address; the context's own entry is at index 0.\<close>

definition adump_lengths :: "bool \<Rightarrow> nat \<Rightarrow> (nat \<Rightarrow> u64) \<Rightarrow> AddrInfo list \<Rightarrow> AddrInfo list" where
  "adump_lengths hasMc2Ctx space sizes its =
     map (\<lambda>(i, it). if i < space
                    then it\<lparr>ai_length := (if hasMc2Ctx \<and> i = 0 then sizeof_HcclCombinOpParam else sizes i)\<rparr>
                    else it) (enumerate 0 its)"

definition UpdateInputSizeWithTilingData ::
  "(ptr \<Rightarrow> nat \<Rightarrow> u64) \<Rightarrow> u8 list \<Rightarrow> OpMemInfo \<Rightarrow> args_manager \<Rightarrow> OpMemInfo \<times> args_manager" where
  "UpdateInputSizeWithTilingData mem tilingData om am =
     (let (info, am1) = GetAdumpInfo am om tilingData in
      if fst info = 0 then
        (let om1 = OpMemInfo_Clear om
         in (if om_hasMc2Ctx om then RefreshMc2CtxInfo (om_hasMc2Ctx om) (om_skipNum om) om1 else om1, am1))
      else (om\<lparr>om_inputs := adump_lengths (om_hasMc2Ctx om) (unat (snd info)) (mem (fst info)) (om_inputs om)\<rparr>, am1))"


section \<open>Expansion keeps what was there\<close>

lemma insert_at_before:
  assumes "i + n \<le> k" and "k \<le> length ys"
  shows "take n (drop i (insert_at k xs ys)) = take n (drop i ys)"
proof -
  have "take n (drop i (insert_at k xs ys)) = take n (drop i (take k ys))"
    using assms by (simp add: insert_at_def)
  then show ?thesis using assms(1) by (simp add: drop_take min_def)
qed

lemma insert_at_inserted: "k \<le> length ys \<Longrightarrow> take (length xs) (drop k (insert_at k xs ys)) = xs"
  by (simp add: insert_at_def)

lemma insert_at_after: "k \<le> i \<Longrightarrow> k \<le> length ys \<Longrightarrow> drop (i + length xs) (insert_at k xs ys) = drop i ys"
  by (simp add: insert_at_def)

lemma insert_at_length [simp]: "length (insert_at k xs ys) = length xs + length ys"
  by (simp add: insert_at_def)

lemma last_addr_offset_acc: "fold (\<lambda>(ao, dof) m. max m ao) hs m = max m (fold (\<lambda>(ao, dof) m. max m ao) hs (0 :: u32))"
proof (induction hs arbitrary: m)
  case (Cons h hs)
  obtain ao dof where "h = (ao, dof)" by fastforce
  then show ?case using Cons.IH [of "max m ao"] Cons.IH [of "max 0 ao"] by (simp add: max.assoc)
qed simp

lemma last_addr_offset_Cons: "last_addr_offset ((ao, dof) # hs) = max ao (last_addr_offset hs)"
  using last_addr_offset_acc [of hs "max 0 ao"] by (simp add: last_addr_offset_def)

lemma last_addr_offset_ge: "(ao, dof) \<in> set hs \<Longrightarrow> ao \<le> last_addr_offset hs"
  by (induction hs) (auto simp: last_addr_offset_Cons le_max_iff_disj)

lemma last_addr_offset_in: "hs \<noteq> [] \<Longrightarrow> last_addr_offset hs \<in> fst ` set hs"
proof (induction hs)
  case (Cons h hs)
  obtain ao dof where h: "h = (ao, dof)" by fastforce
  show ?case
  proof (cases "hs = []")
    case True
    then show ?thesis by (simp add: h last_addr_offset_def)
  next
    case False
    with Cons.IH show ?thesis by (auto simp: h last_addr_offset_Cons max_def)
  qed
qed simp

text \<open>Where the expanded arguments keep a byte range of the old ones.\<close>

definition room :: "string \<Rightarrow> nat" where
  "room soc = (if NeedOverflowStatus soc then 16 else 8)"

lemma room_bounds: "8 \<le> room soc" "room soc \<le> 16"
  by (simp_all add: room_def)

lemma param_offset_nat:
  assumes "hs \<noteq> []" and "\<forall>(ao, dof) \<in> set hs. unat ao + 16 \<le> n" and "n < 2 ^ 32"
  shows "unat (param_offset soc hs) = unat (last_addr_offset hs) + room soc" "unat (param_offset soc hs) \<le> n"
proof -
  have b: "unat (last_addr_offset hs) + 16 \<le> n" using last_addr_offset_in [OF assms(1)] assms(2) by auto
  then show e: "unat (param_offset soc hs) = unat (last_addr_offset hs) + room soc"
    using assms(3) by (simp add: param_offset_def room_def unat_word_ariths)
  show "unat (param_offset soc hs) \<le> n" using b room_bounds(2) [of soc] e by linarith
qed

lemma aligned_size:
  assumes "unat n \<le> MAX_ALL_PARAM_SIZE"
  shows "unat (CeilByAlignSize 8 n) = (unat n + 7) div 8 * 8" "unat n \<le> unat (CeilByAlignSize 8 n)"
    "unat (CeilByAlignSize 8 n) < unat n + 8"
proof -
  show e: "unat (CeilByAlignSize 8 n) = (unat n + 7) div 8 * 8"
    using CeilByAlignSize_nat [of 8 n] assms by (simp add: MAX_ALL_PARAM_SIZE_def)
  show "unat n \<le> unat (CeilByAlignSize 8 n)" "unat (CeilByAlignSize 8 n) < unat n + 8"
    unfolding e by presburger+
qed

text \<open>The arguments as the copy gives them.\<close>

definition raw_bytes :: "'d args_api \<Rightarrow> raw_args \<Rightarrow> 'd \<Rightarrow> u8 list option \<times> 'd" where
  "raw_bytes api c d =
     (case rw_args c of
        HostArgs bs \<Rightarrow> (Some bs, d)
      | DeviceArgs p \<Rightarrow> ga_toHost api p (unat (rw_argsSize c)) d
      | NullArgs \<Rightarrow> (None, d))"

lemma local_args_copied:
  assumes "raw_bytes api c d = (Some bs, d1)" and "\<not> rw_own c" and "length bs = unat (rw_argsSize c)"
    and "unat (rw_argsSize c) \<le> MAX_ALL_PARAM_SIZE"
  shows "local_args api c d = (bs @ replicate (unat (CeilByAlignSize 8 (rw_argsSize c)) - length bs) 0, d1)"
proof (cases "rw_args c")
  case (DeviceArgs p)
  then show ?thesis
    using assms aligned_size(2) [OF assms(4)] by (simp add: local_args_def raw_bytes_def Let_def min_def)
qed (use assms aligned_size(2) [OF assms(4)] in \<open>simp_all add: local_args_def raw_bytes_def Let_def min_def\<close>)

text \<open>The choice of the tiling placeholder: a last address offset that is not zero decides it.\<close>

abbreviation tiling_step :: "u32 \<times> u32 \<Rightarrow> u32 \<times> u32 \<Rightarrow> u32 \<times> u32" where
  "tiling_step \<equiv> \<lambda>(ao, dof) (tao, tdo). if ao > tao then (ao, dof) else (tao, tdo)"

lemma tiling_step_shift:
  assumes "b' = b + k \<or> (\<exists>h \<in> set hs. fst h > a)"
  shows "fold tiling_step (map (\<lambda>(ao, dof). (ao, dof + k)) hs) (a, b') =
    (\<lambda>(ao, dof). (ao, dof + k)) (fold tiling_step hs (a, b))"
  using assms
proof (induction hs arbitrary: a b b')
  case (Cons h hs)
  obtain ao dof where h: "h = (ao, dof)" by fastforce
  show ?case
  proof (cases "ao > a")
    case True
    then show ?thesis using Cons.IH [of "dof + k" dof ao] by (simp add: h)
  next
    case False
    then show ?thesis using Cons.IH [of b' b a] Cons.prems by (simp add: h)
  qed
qed simp

lemma tiling_step_in:
  assumes "\<exists>h \<in> set hs. fst h > a"
  shows "fold tiling_step hs (a, b) \<in> set hs"
  using assms
proof (induction hs arbitrary: a b)
  case (Cons h hs)
  obtain ao dof where h: "h = (ao, dof)" by fastforce
  have keep: "fold tiling_step xs (a', b') \<in> insert (a', b') (set xs)" for xs a' b'
  proof (induction xs arbitrary: a' b')
    case (Cons x xs)
    obtain xa xb where x: "x = (xa, xb)" by fastforce
    show ?case
    proof (cases "xa > a'")
      case True
      then show ?thesis using Cons.IH [of xa xb] by (simp add: x)
    next
      case False
      then show ?thesis using Cons.IH [of a' b'] by (auto simp: x)
    qed
  qed simp
  show ?case
  proof (cases "ao > a")
    case True
    then show ?thesis using keep [of hs ao dof] by (simp add: h)
  next
    case False
    then show ?thesis using Cons.IH [of a b] Cons.prems by (simp add: h)
  qed
qed simp

lemma tiling_offsets_shift:
  assumes "last_addr_offset hs \<noteq> 0"
  shows "tiling_offsets (map (\<lambda>(ao, dof). (ao, dof + k)) hs) = (\<lambda>(ao, dof). (ao, dof + k)) (tiling_offsets hs)"
    "tiling_offsets hs \<in> set hs"
proof -
  have "hs \<noteq> []" using assms by (auto simp: last_addr_offset_def)
  then obtain h where "h \<in> set hs" "fst h = last_addr_offset hs" using last_addr_offset_in by fastforce
  then have "\<exists>h \<in> set hs. fst h > 0" using assms by (metis word_neq_0_conv)
  then show "tiling_offsets (map (\<lambda>(ao, dof). (ao, dof + k)) hs) = (\<lambda>(ao, dof). (ao, dof + k)) (tiling_offsets hs)"
    "tiling_offsets hs \<in> set hs"
    unfolding tiling_offsets_def using tiling_step_shift [of 0 0 k hs 0] tiling_step_in [of hs 0 0] by simp_all
qed

text \<open>Where the parameter goes.\<close>

lemma expand_offset:
  assumes "unat (rw_argsSize c) \<le> MAX_ALL_PARAM_SIZE"
    and "\<forall>(ao, dof) \<in> set (rw_placeHolders c). unat ao + 16 \<le> unat (rw_argsSize c)"
  shows "unat (GetLastParamOffset soc c) \<le> (unat (rw_argsSize c) + 7) div 8 * 8"
    and "(if rw_placeHolders c = [] then word_of_nat ((unat (rw_argsSize c) + 7) div 8 * 8) else param_offset soc (rw_placeHolders c)) =
      GetLastParamOffset soc c"
proof -
  note a = aligned_size [OF assms(1)]
  have "unat (GetLastParamOffset soc c) \<le> (unat (rw_argsSize c) + 7) div 8 * 8 \<and>
    (if rw_placeHolders c = [] then word_of_nat ((unat (rw_argsSize c) + 7) div 8 * 8) else param_offset soc (rw_placeHolders c)) =
      GetLastParamOffset soc c"
  proof (cases "rw_placeHolders c = []")
    case True
    then show ?thesis using assms(1) by (simp add: GetLastParamOffset_def a(1) [symmetric])
  next
    case False
    have "unat (rw_argsSize c) < 2 ^ 32" using assms(1) by (simp add: MAX_ALL_PARAM_SIZE_def)
    from param_offset_nat(2) [OF False assms(2) this, of soc] show ?thesis
      using False assms(1) a(1,2) by (simp add: GetLastParamOffset_def)
  qed
  then show "unat (GetLastParamOffset soc c) \<le> (unat (rw_argsSize c) + 7) div 8 * 8"
    and "(if rw_placeHolders c = [] then word_of_nat ((unat (rw_argsSize c) + 7) div 8 * 8) else param_offset soc (rw_placeHolders c)) =
      GetLastParamOffset soc c" by simp_all
qed

text \<open>The same tiling data behind the parameter.\<close>

lemma tiling_data_moved:
  assumes "rw_args c = HostArgs bs" and "rw_placeHolders c = [] \<or> last_addr_offset (rw_placeHolders c) \<noteq> 0"
    and "\<forall>(ao, dof) \<in> set (rw_placeHolders c). off \<le> unat dof \<and> unat dof + length data \<le> length bs"
    and "rw_args c' = HostArgs (insert_at off param (bs @ rest))"
    and "rw_placeHolders c' = map (\<lambda>(ao, dof). (ao, dof + word_of_nat (length param))) (rw_placeHolders c)"
    and "length bs + length param < 2 ^ 32"
  shows "raw_GetTilingData c' data = raw_GetTilingData c data"
proof (cases "rw_placeHolders c = []")
  case True
  then show ?thesis using assms(5) by (simp add: raw_GetTilingData_def)
next
  case False
  let ?hs = "rw_placeHolders c" and ?k = "word_of_nat (length param) :: u32"
  have nz: "last_addr_offset ?hs \<noteq> 0" using assms(2) False by simp
  obtain tao tdo where t: "tiling_offsets ?hs = (tao, tdo)" by fastforce
  then have b: "off \<le> unat tdo" "unat tdo + length data \<le> length bs"
    using tiling_offsets_shift(2) [OF nz] assms(3) by auto
  have ts: "unat (tdo + ?k) = unat tdo + length param"
    using b(2) assms(6) by (simp add: unat_word_ariths unsigned_of_nat take_bit_nat_eq_self)
  have "read_bytes (rw_args c') (unat (tdo + ?k)) (length data) = read_bytes (rw_args c) (unat tdo) (length data)"
    using b insert_at_after [of off "unat tdo" "bs @ rest" param] by (simp add: read_bytes_def assms(1,4) ts)
  then show ?thesis
    using False t tiling_offsets_shift(1) [OF nz, of ?k] assms(5) by (simp add: raw_GetTilingData_def)
qed

lemma raw_ExpandArgs_first:
  assumes "\<not> rw_own c" and "unat (rw_argsSize c) \<le> MAX_ALL_PARAM_SIZE" and "local_args api c d = (buf, d1)"
    and "(if rw_placeHolders c = [] then word_of_nat (length buf) else param_offset soc (rw_placeHolders c)) = GetLastParamOffset soc c"
    and "off \<le> length buf" and "off = unat (GetLastParamOffset soc c)"
  shows "raw_ExpandArgs api soc param off0 (c, d) =
    (let buf1 = insert_at off param buf;
         c1 = c\<lparr>rw_placeHolders := map (\<lambda>(ao, dof). (ao, dof + word_of_nat (length param))) (rw_placeHolders c),
           rw_argsSize := word_of_nat (length buf1)\<rparr>
     in if \<not> rw_isDevice c then Some ((True, GetLastParamOffset soc c), (c1\<lparr>rw_args := HostArgs buf1, rw_own := True\<rparr>, d1))
        else case ga_malloc api (length buf1) (snd (FreeArgs api (c1, d1))) of
               (None, d3) \<Rightarrow> Some ((False, GetLastParamOffset soc c), (fst (FreeArgs api (c1, d1)), d3))
             | (Some p, d3) \<Rightarrow> (case ga_toDevice api p buf1 d3 of (ok, d4) \<Rightarrow>
                 Some ((ok, GetLastParamOffset soc c), ((fst (FreeArgs api (c1, d1)))\<lparr>rw_args := DeviceArgs p, rw_needFree := True\<rparr>, d4))))"
proof -
  have n: "(unat (rw_argsSize c) > MAX_ALL_PARAM_SIZE) = False"
    "(unat (GetLastParamOffset soc c) > length buf \<or> rw_own c \<and> length buf \<noteq> unat (rw_argsSize c)) = False"
    using assms(1,2,5,6) by simp_all
  show ?thesis
    unfolding raw_ExpandArgs_def Let_def prod.case assms(3) assms(4) n if_False assms(6) [symmetric]
    using assms(1,5) by (simp add: case_prod_beta split: option.split)
qed

text \<open>
  C21: Expanding the arguments of a launch for the first time, when the copy of them works, on the host or on the device, with
  placeholders (whose slots lie inside the arguments) or without: the new bytes are the old ones, padded to a multiple of 8,
  with the parameter in them where \<open>GetLastParamOffset\<close> says; every byte before it stays in its place and every byte behind
  it moves by the parameter's length. On the host the context then has these bytes and the same address offsets, and the same
  tiling data is read from it, provided some address offset is not 0 (or there is no placeholder) and the data lie behind the
  parameter; on the device it has a block the new bytes were copied to, when the allocation and the copy work. (A second
  expansion on the host loses the arguments: \<open>second_expansion_zeroes\<close>.)
\<close>

theorem expand_preserves:
  assumes "raw_bytes api c d = (Some bs, d1)" and "\<not> rw_own c" and "length bs = unat (rw_argsSize c)"
    and "unat (rw_argsSize c) \<le> MAX_ALL_PARAM_SIZE" and "length param \<le> MAX_ALL_PARAM_SIZE"
    and "\<forall>(ao, dof) \<in> set (rw_placeHolders c). unat ao + 16 \<le> unat (rw_argsSize c)"
    and "off = unat (GetLastParamOffset soc c)" and "n = (unat (rw_argsSize c) + 7) div 8 * 8"
  shows "\<exists>bs'. length bs' = n + length param \<and> take (length param) (drop off bs') = param \<and>
    take off bs' = take off (bs @ replicate (n - length bs) 0) \<and>
    drop (off + length param) bs' = drop off (bs @ replicate (n - length bs) 0) \<and>
    (if \<not> rw_isDevice c
     then \<exists>c'. raw_ExpandArgs api soc param off0 (c, d) = Some ((True, GetLastParamOffset soc c), (c', d1)) \<and>
       rw_args c' = HostArgs bs' \<and> unat (rw_argsSize c') = length bs' \<and>
       map fst (rw_placeHolders c') = map fst (rw_placeHolders c) \<and>
       (rw_args c = HostArgs bs \<and> (rw_placeHolders c = [] \<or> last_addr_offset (rw_placeHolders c) \<noteq> 0) \<and>
        (\<forall>(ao, dof) \<in> set (rw_placeHolders c). off \<le> unat dof \<and> unat dof + length data \<le> length bs) \<longrightarrow>
          raw_GetTilingData c' data = raw_GetTilingData c data)
     else \<forall>p d2 d3. ga_malloc api (length bs') (snd (FreeArgs api (c, d1))) = (Some p, d2) \<longrightarrow> ga_toDevice api p bs' d2 = (True, d3) \<longrightarrow>
       (\<exists>c'. raw_ExpandArgs api soc param off0 (c, d) = Some ((True, GetLastParamOffset soc c), (c', d3)) \<and>
          rw_args c' = DeviceArgs p \<and> unat (rw_argsSize c') = length bs'))"
proof -
  define pad where "pad = bs @ replicate (n - length bs) (0 :: u8)"
  define bs' where "bs' = insert_at off param pad"
  have pad: "local_args api c d = (pad, d1)" "length pad = n" "length bs \<le> n"
    using local_args_copied [OF assms(1-4)] aligned_size(1,2) [OF assms(4)] assms(3,8) by (simp_all add: pad_def)
  note o = expand_offset [OF assms(4,6), of soc, folded assms(7,8)]
  have len: "length bs' = n + length param" "length bs' < 2 ^ 32"
    using pad(2) aligned_size(1,3) [OF assms(4)] assms(4,5,8) by (simp_all add: bs'_def MAX_ALL_PARAM_SIZE_def)
  have w: "unat (word_of_nat (length bs') :: u32) = length bs'" using len(2) by (simp add: unsigned_of_nat take_bit_nat_eq_self)
  have bytes: "take (length param) (drop off bs') = param" "take off bs' = take off pad" "drop (off + length param) bs' = drop off pad"
    using insert_at_inserted [of off pad param] insert_at_before [of 0 off off pad param] insert_at_after [of off off pad param] o(1) pad(2)
    by (simp_all add: bs'_def)
  note run = raw_ExpandArgs_first [OF assms(2,4) pad(1) o(2) [folded pad(2)] o(1) [folded pad(2)] assms(7),
      of param off0, folded bs'_def, unfolded Let_def]
  show ?thesis
  proof (cases "rw_isDevice c")
    case False
    define c' where "c' = c\<lparr>rw_placeHolders := map (\<lambda>(ao, dof). (ao, dof + word_of_nat (length param))) (rw_placeHolders c),
      rw_argsSize := word_of_nat (length bs'), rw_args := HostArgs bs', rw_own := True\<rparr>"
    have "raw_ExpandArgs api soc param off0 (c, d) = Some ((True, GetLastParamOffset soc c), (c', d1))"
      using run False by (simp add: c'_def)
    moreover have "raw_GetTilingData c' data = raw_GetTilingData c data"
      if "rw_args c = HostArgs bs \<and> (rw_placeHolders c = [] \<or> last_addr_offset (rw_placeHolders c) \<noteq> 0) \<and>
        (\<forall>(ao, dof) \<in> set (rw_placeHolders c). off \<le> unat dof \<and> unat dof + length data \<le> length bs)"
    proof (rule tiling_data_moved)
      show "length bs + length param < 2 ^ 32" using assms(3-5) by (simp add: MAX_ALL_PARAM_SIZE_def)
      show "rw_args c' = HostArgs (insert_at off param (bs @ replicate (n - length bs) 0))" by (simp add: c'_def bs'_def pad_def)
    qed (use that in \<open>simp_all add: c'_def\<close>)
    moreover have "rw_args c' = HostArgs bs'" "unat (rw_argsSize c') = length bs'" "map fst (rw_placeHolders c') = map fst (rw_placeHolders c)"
      by (simp_all add: c'_def w del: of_nat_add) (simp add: case_prod_beta comp_def)
    ultimately have host: "\<exists>c'. raw_ExpandArgs api soc param off0 (c, d) = Some ((True, GetLastParamOffset soc c), (c', d1)) \<and>
       rw_args c' = HostArgs bs' \<and> unat (rw_argsSize c') = length bs' \<and>
       map fst (rw_placeHolders c') = map fst (rw_placeHolders c) \<and>
       (rw_args c = HostArgs bs \<and> (rw_placeHolders c = [] \<or> last_addr_offset (rw_placeHolders c) \<noteq> 0) \<and>
        (\<forall>(ao, dof) \<in> set (rw_placeHolders c). off \<le> unat dof \<and> unat dof + length data \<le> length bs) \<longrightarrow>
          raw_GetTilingData c' data = raw_GetTilingData c data)" by blast
    show ?thesis
      by (intro exI [of _ bs'] conjI len(1) bytes [unfolded pad_def]) (subst if_P [OF False], rule host)
  next
    case True
    have keep: "\<exists>c'. raw_ExpandArgs api soc param off0 (c, d) = Some ((True, GetLastParamOffset soc c), (c', d3)) \<and>
        rw_args c' = DeviceArgs p \<and> unat (rw_argsSize c') = length bs'"
      if "ga_malloc api (length bs') (snd (FreeArgs api (c, d1))) = (Some p, d2)" "ga_toDevice api p bs' d2 = (True, d3)" for p d2 d3
      using run True that w by (auto simp: FreeArgs_def split: if_splits)
    show ?thesis
      using True keep by (intro exI [of _ bs'] conjI len(1) bytes [unfolded pad_def]) simp
  qed
qed

text \<open>Arguments that are in the context's own buffer already are overwritten with zeros by the next expansion.\<close>

lemma second_expansion_zeroes:
  assumes "rw_args c = HostArgs bs" and "rw_own c" and "unat (rw_argsSize c) \<le> MAX_ALL_PARAM_SIZE" and "8 dvd unat (rw_argsSize c)"
    and "rw_placeHolders c = []" and "\<not> rw_isDevice c"
  shows "\<exists>off c'. raw_ExpandArgs api soc param off0 (c, d) = Some ((True, off), (c', d)) \<and>
    rw_args c' = HostArgs (replicate (unat (rw_argsSize c)) 0 @ param)"
proof -
  have a: "unat (CeilByAlignSize 8 (rw_argsSize c)) = unat (rw_argsSize c)"
    using aligned_size(1) [OF assms(3)] assms(4) by (auto elim: dvdE)
  then have "local_args api c d = (replicate (unat (rw_argsSize c)) 0, d)"
    using assms(1,2) by (simp add: local_args_def)
  then show ?thesis using assms by (simp add: raw_ExpandArgs_def Let_def insert_at_def)
qed

text \<open>A launch of 40 bytes: an address slot and its placeholder, and 8 bytes of tiling data at 32.\<close>

definition demo_args_api :: "unit args_api" where
  "demo_args_api = \<lparr>ga_toHost = \<lambda>p n d. (Some (replicate n 0), d), ga_malloc = \<lambda>n d. (Some 4096, d),
     ga_toDevice = \<lambda>p bs d. (True, d), ga_free = \<lambda>p d. d, ga_hostMalloc = \<lambda>n d. (True, d)\<rparr>"

definition demo_raw_args :: raw_args where
  "demo_raw_args = new_raw_args_placeholders (HostArgs (replicate 32 1 @ [1, 2, 3, 4, 5, 6, 7, 8])) 40 [(8, 32)]"

theorem expand_preserves_witness:
  "\<exists>c'. raw_ExpandArgs demo_args_api ''Ascend910B'' [9, 9, 9, 9, 9, 9, 9, 9] 0 (demo_raw_args, ()) = Some ((True, 16), (c', ())) \<and>
     raw_GetTilingData c' (replicate 8 0) = Some (True, [1, 2, 3, 4, 5, 6, 7, 8])"
proof -
  let ?bs = "replicate 32 1 @ [1, 2, 3, 4, 5, 6, 7, 8] :: u8 list"
  have o: "GetLastParamOffset ''Ascend910B'' demo_raw_args = 16"
    by (simp add: GetLastParamOffset_def demo_raw_args_def new_raw_args_placeholders_def MAX_ALL_PARAM_SIZE_def
        param_offset_def last_addr_offset_def NeedOverflowStatus_def str_contains_def)
  have t: "raw_GetTilingData demo_raw_args (replicate 8 0) = Some (True, [1, 2, 3, 4, 5, 6, 7, 8])"
    by (simp add: raw_GetTilingData_def demo_raw_args_def new_raw_args_placeholders_def tiling_offsets_def read_bytes_def)
  have f: "rw_args demo_raw_args = HostArgs ?bs" "\<not> rw_own demo_raw_args" "rw_argsSize demo_raw_args = 40"
    "rw_placeHolders demo_raw_args = [(8, 32)]" "\<not> rw_isDevice demo_raw_args" "last_addr_offset [(8, 32)] = 8"
    by (simp_all add: demo_raw_args_def new_raw_args_placeholders_def last_addr_offset_def)
  have a: "raw_bytes demo_args_api demo_raw_args () = (Some ?bs, ())" "length ?bs = unat (rw_argsSize demo_raw_args)"
    "unat (rw_argsSize demo_raw_args) \<le> MAX_ALL_PARAM_SIZE" "length [9, 9, 9, 9, 9, 9, 9, 9 :: u8] \<le> MAX_ALL_PARAM_SIZE"
    "\<forall>(ao, dof) \<in> set (rw_placeHolders demo_raw_args). unat ao + 16 \<le> unat (rw_argsSize demo_raw_args)"
    by (simp_all add: raw_bytes_def f MAX_ALL_PARAM_SIZE_def)
  from expand_preserves [OF a(1) f(2) a(2-5) refl refl, of "''Ascend910B''" 0 "replicate 8 0"] show ?thesis
    by (auto simp: f o t)
qed

section \<open>The search for dump information\<close>

text \<open>The \<open>k\<close> bytes before an index, none of them before index 4, are the prefix byte.\<close>

fun prefix_run :: "u8 list \<Rightarrow> nat \<Rightarrow> nat \<Rightarrow> bool" where
  "prefix_run bs 0 i = True"
| "prefix_run bs (Suc k) 0 = False"
| "prefix_run bs (Suc k) (Suc i) \<longleftrightarrow> 4 \<le> i \<and> bs ! i = 0xA5 \<and> prefix_run bs k i"

text \<open>The reference: an index number is a word whose high half is the prefix and whose low half is the number.\<close>

definition magic_ends_at :: "u8 list \<Rightarrow> nat \<Rightarrow> bool" where
  "magic_ends_at bs i \<longleftrightarrow> bs ! (i - 3) = 0xA5 \<and> bs ! (i - 2) = 0xA5 \<and> bs ! (i - 1) = 0xA5 \<and> bs ! i = 0xA5"

definition adump_index :: "u8 list \<Rightarrow> nat \<Rightarrow> u64" where
  "adump_index bs i = META_MAGIC_NUM OR le_at bs (i - 7) 4"

definition first_registered :: "(u64 \<rightharpoonup> AdumpInfo) \<Rightarrow> u8 list \<Rightarrow> nat \<Rightarrow> nat \<Rightarrow> AdumpInfo option" where
  "first_registered look bs from n =
     Option.bind (find (\<lambda>i. 7 \<le> i \<and> magic_ends_at bs i \<and> look (adump_index bs i) \<noteq> None) [from..<n])
       (\<lambda>i. look (adump_index bs i))"

lemma prefix_run_magic: "7 \<le> i \<Longrightarrow> prefix_run bs 4 (Suc i) \<longleftrightarrow> magic_ends_at bs i"
proof -
  assume "7 \<le> i"
  then obtain m where "i = Suc (Suc (Suc m))" "4 \<le> m" by (intro that [of "i - 3"]) simp_all
  then show ?thesis by (auto simp: numeral_eq_Suc magic_ends_at_def)
qed

lemma prefix_run_bound: "prefix_run bs k i \<Longrightarrow> 0 < k \<Longrightarrow> k + 4 \<le> i"
proof (induction bs k i rule: prefix_run.induct)
  case (3 bs k i)
  then show ?case by (cases k) auto
qed auto

lemma adump_scan_reference:
  assumes "cnt \<le> 3" and "\<forall>k \<le> 3. k \<le> cnt \<longleftrightarrow> prefix_run bs k i" and "4 \<le> i"
  shows "adump_scan look bs n i cnt = first_registered look bs i n"
  using assms
proof (induction look bs n i cnt rule: adump_scan.induct)
  case (1 look bs n i cnt)
  show ?case
  proof (cases "i < n")
    case False
    then show ?thesis by (subst adump_scan.simps) (simp add: first_registered_def)
  next
    case True
    define cnt1 where "cnt1 = (if bs ! i = 0xA5 then cnt + 1 else 0)"
    define cnt2 where "cnt2 = (if cnt1 = 4 then 3 else cnt1)"
    have run4: "cnt1 = 4 \<longleftrightarrow> prefix_run bs 4 (Suc i)"
    proof -
      have "cnt = 3 \<longleftrightarrow> prefix_run bs 3 i" using "1.prems"(1,2) by force
      then show ?thesis using "1.prems"(1,3) by (auto simp: cnt1_def numeral_eq_Suc)
    qed
    have inv: "cnt2 \<le> 3" "\<forall>k \<le> 3. k \<le> cnt2 \<longleftrightarrow> prefix_run bs k (Suc i)"
    proof -
      show "cnt2 \<le> 3" using "1.prems"(1) by (auto simp: cnt1_def cnt2_def)
      show "\<forall>k \<le> 3. k \<le> cnt2 \<longleftrightarrow> prefix_run bs k (Suc i)"
      proof (intro allI impI)
        fix k :: nat
        assume k: "k \<le> 3"
        show "k \<le> cnt2 \<longleftrightarrow> prefix_run bs k (Suc i)"
        proof (cases k)
          case (Suc m)
          then have "m \<le> cnt \<longleftrightarrow> prefix_run bs m i" using "1.prems"(2) k by simp
          then show ?thesis using Suc k "1.prems"(1,3) by (auto simp: cnt1_def cnt2_def)
        qed simp
      qed
    qed
    have big: "7 \<le> i" if "cnt1 = 4" using prefix_run_bound [of bs 4 "Suc i"] run4 that by simp
    have hit: "magic_ends_at bs i \<longleftrightarrow> cnt1 = 4" if "7 \<le> i" using prefix_run_magic [OF that] run4 by simp
    have skip: "first_registered look bs i n = first_registered look bs (Suc i) n"
      if "\<not> (cnt1 = 4 \<and> look (adump_index bs i) \<noteq> None)"
      using that True hit by (auto simp: first_registered_def upt_conv_Cons)
    show ?thesis
    proof (cases "cnt1 = 4")
      case False
      then have "adump_scan look bs n i cnt = adump_scan look bs n (i + 1) cnt2"
        using True by (subst adump_scan.simps) (auto simp: cnt1_def cnt2_def Let_def)
      also have "\<dots> = first_registered look bs (Suc i) n"
        using "1.IH"(1) [OF True refl] False inv "1.prems"(3) by (simp add: cnt1_def cnt2_def)
      finally show ?thesis using skip False by simp
    next
      case four: True
      show ?thesis
      proof (cases "look (adump_index bs i)")
        case None
        then have "adump_scan look bs n i cnt = adump_scan look bs n (i + 1) cnt2"
          using True four big by (subst adump_scan.simps) (auto simp: cnt1_def cnt2_def Let_def adump_index_def)
        also have "\<dots> = first_registered look bs (Suc i) n"
          using "1.IH"(2) [OF True refl] None four big inv "1.prems"(3)
          by (simp add: cnt1_def cnt2_def adump_index_def)
        finally show ?thesis using skip None by simp
      next
        case (Some info)
        then have "adump_scan look bs n i cnt = Some info"
          using True four big by (subst adump_scan.simps) (auto simp: cnt1_def Let_def adump_index_def)
        moreover have "first_registered look bs i n = Some info"
          using Some True four big hit by (simp add: first_registered_def upt_conv_Cons)
        ultimately show ?thesis by simp
      qed
    qed
  qed
qed

text \<open>
  The one pass over the tiling data with its counter finds what the definition asks for: the first position where
  the four prefix bytes end an index number that was registered, overlapping runs of prefix bytes included.
\<close>

lemma adump_scan_finds_first:
  "adump_scan look tilingData n 4 0 = first_registered look tilingData 4 n"
  by (rule adump_scan_reference) (simp_all add: numeral_eq_Suc le_Suc_eq)

end
