(* ===== verification/SavedLaunch.thy ===== *)
theory SavedLaunch
  imports Args
begin

text \<open>
  The way of a recorded launch to the launcher: what \<open>ArgsRawContext::Save\<close> and \<open>ArgsHandleContext::Save\<close>
  (\<open>csrc/runtime/inject_helpers\<close>) take from the arguments, what the configuration file says of it, and what
  \<open>KernelConfigParser\<close> makes of the file. Composes \<open>Args\<close> with \<open>KernelConfig\<close>.
\<close>

section \<open>A saved launch reaches the launcher\<close>

definition input_path_for :: "string \<Rightarrow> nat \<times> AddrInfo \<Rightarrow> string" where
  "input_path_for dir = (\<lambda>(i, it). if ai_length it = 0 then ''n'' else input_path_of dir i)"

text \<open>An input the library can dump: empty, or of a size it accepts in readable memory.\<close>

definition dumpable :: "dump_env \<Rightarrow> AddrInfo \<Rightarrow> bool" where
  "dumpable env it \<longleftrightarrow> ai_length it = 0 \<or>
     (ai_length it \<le> MAX_MEM_SIZE \<and> de_hostMalloc env (ai_length it) \<and> ai_addr it \<noteq> 0 \<and>
      (case de_read env (ai_addr it) (ai_length it) of None \<Rightarrow> False | Some bytes \<Rightarrow> length bytes = unat (ai_length it)))"

lemma dump_inputs_all:
  assumes "\<forall>it \<in> set its. dumpable env it" and "\<forall>p bs. de_write env p bs = length bs"
  shows "dump_inputs env dir i its c =
    (True, c\<lparr>dc_inputPathList := dc_inputPathList c @ map (input_path_for dir) (enumerate i its),
             dc_inputSizeList := dc_inputSizeList c @ map ai_length its\<rparr>)"
  using assms
proof (induction env dir i its c rule: dump_inputs.induct)
  case (2 env dir i it its c)
  show ?case
  proof (cases "ai_length it = 0")
    case True
    then show ?thesis using 2 by (simp add: Let_def input_path_for_def)
  next
    case False
    then obtain bytes where d: "ai_length it \<le> MAX_MEM_SIZE" "de_hostMalloc env (ai_length it)" "ai_addr it \<noteq> 0"
        "de_read env (ai_addr it) (ai_length it) = Some bytes" "length bytes = unat (ai_length it)"
      using 2(3) by (auto simp: dumpable_def split: option.splits)
    then show ?thesis using False 2 by (simp add: Let_def input_path_for_def not_less)
  qed
qed simp

lemma set_input_addrs_keeps:
  "set_input_addrs bs i its = Some its' \<Longrightarrow>
     map ai_length its' = map ai_length its \<and> map (Some \<circ> ai_addr) its' = map (arg_word bs) [i..<i + length its]"
proof (induction bs i its arbitrary: its' rule: set_input_addrs.induct)
  case (2 bs i it its)
  obtain w rest where w: "arg_word bs i = Some w" "set_input_addrs bs (i + 1) its = Some rest"
      "its' = it\<lparr>ai_addr := w\<rparr> # rest"
    using 2(2) by (auto split: option.splits)
  have "[i..<i + length (it # its)] = i # [i + 1..<i + 1 + length its]" by (simp add: upt_rec [of i] Suc_le_eq)
  then show ?case using 2(1) [OF w(1,2)] w(1,3) by simp
qed simp

lemma input_paths_from_lengths:
  "map ai_length its' = map ai_length its \<Longrightarrow> map (input_path_for dir) (enumerate i its') = map (input_path_for dir) (enumerate i its)"
proof (induction its' arbitrary: i its)
  case (Cons it' its')
  then obtain it rest where "its = it # rest" by (cases its) auto
  with Cons show ?case by (simp add: input_path_for_def)
qed simp

lemma filter_input_params:
  "filter (\<lambda>p. pa_type p = ''input'') (launcher_params c) =
     map (\<lambda>(path, n). (input_param path)\<lparr>pa_dataSize := Some n\<rparr>) (zip (dc_inputPathList c) (dc_inputSizeList c))"
proof -
  have "filter (\<lambda>p. pa_type p = ''input'') (map (\<lambda>(path, n). (input_param path)\<lparr>pa_dataSize := Some n\<rparr>) xs) =
      map (\<lambda>(path, n). (input_param path)\<lparr>pa_dataSize := Some n\<rparr>) xs" for xs :: "(string \<times> u64) list"
    by (rule filter_True) (auto simp: input_param_def new_param_def)
  then show ?thesis by (simp add: launcher_params_def) (simp add: new_param_def)
qed

lemma dumped_inputs:
  "map (\<lambda>(path, n). (input_param path)\<lparr>pa_dataSize := Some n\<rparr>)
     (zip (map (input_path_for dir) (enumerate i its)) (map ai_length its)) =
   map (\<lambda>(k, it). (input_param (input_path_for dir (k, it)))\<lparr>pa_dataSize := Some (ai_length it)\<rparr>) (enumerate i its)"
  by (induction its arbitrary: i) simp_all

lemma input_path_no_sep: "CHR '';'' \<notin> set dir \<Longrightarrow> CHR '';'' \<notin> set (input_path_for dir x)"
  using to_string_no_sep [of "fst x"] by (cases x) (simp add: input_path_for_def input_path_of_def)

lemma input_path_nonempty: "input_path_for dir x \<noteq> []"
  by (cases x) (simp add: input_path_for_def input_path_of_def)

lemma raw_Save_runs:
  assumes "rw_args c = HostArgs bs" and "set_input_addrs bs (unat (om_skipNum om)) (om_inputs om) = Some its"
    and "its \<noteq> []" and "\<forall>it \<in> set its. dumpable env it" and "\<forall>p b. de_write env p b = length b"
    and "raw_GetTilingData c (replicate (unat (om_tilingDataSize om)) 0) = Some (got, tiling)"
    and "dc_inputPathList config = []" and "dc_inputSizeList config = []"
  obtains config' where
    "raw_Save api env dir om config (c, d) = Some ((True, om\<lparr>om_inputs := its\<rparr>, config'), d)"
    "config' = (config\<lparr>dc_inputPathList := map (input_path_for dir) (enumerate 0 its), dc_inputSizeList := map ai_length its\<rparr>)
       \<lparr>dc_tilingDataPath := (if got \<and> tiling \<noteq> [] then dir @ ''/input_tiling.bin'' else dc_tilingDataPath config),
        dc_tilingDataSize := (if got \<and> tiling \<noteq> [] then word_of_nat (length tiling) else dc_tilingDataSize config)\<rparr>"
proof (rule that [OF _ refl])
  have "DumpInputData env dir its config =
      (True, config\<lparr>dc_inputPathList := map (input_path_for dir) (enumerate 0 its), dc_inputSizeList := map ai_length its\<rparr>)"
    using dump_inputs_all [OF assms(4,5)] assms(3,7,8) by (simp add: DumpInputData_def)
  then show "raw_Save api env dir om config (c, d) = Some ((True, om\<lparr>om_inputs := its\<rparr>,
      (config\<lparr>dc_inputPathList := map (input_path_for dir) (enumerate 0 its), dc_inputSizeList := map ai_length its\<rparr>)
       \<lparr>dc_tilingDataPath := (if got \<and> tiling \<noteq> [] then dir @ ''/input_tiling.bin'' else dc_tilingDataPath config),
        dc_tilingDataSize := (if got \<and> tiling \<noteq> [] then word_of_nat (length tiling) else dc_tilingDataSize config)\<rparr>), d)"
    using assms(1,2,5,6) by (cases got; cases "tiling = []") (simp_all add: raw_Save_def DumpTilingData_def Let_def)
qed

text \<open>
  A launch saved from host arguments is launched again with the same inputs: the input addresses are the words of
  the arguments behind the skipped ones, every input is given to the launcher in its order with the file it was
  dumped to (\<open>n\<close> when it is empty) and its length, and the rest of the configuration is that of the record.
\<close>

lemma saved_launch_loads:
  assumes "rw_args c = HostArgs bs" and "set_input_addrs bs (unat (om_skipNum om)) (om_inputs om) = Some its"
    and "its \<noteq> []" and "length its < 2 ^ 32"
    and "\<forall>it \<in> set its. dumpable env it" and "\<forall>p b. de_write env p b = length b"
    and "raw_GetTilingData c (replicate (unat (om_tilingDataSize om)) 0) = Some (got, tiling)"
    and "dc_inputPathList config = []" and "dc_inputSizeList config = []" and "dc_tilingDataPath config = []"
    and "magic_name (dc_magic config) = Some magic"
    and "CheckInputStringValid (dc_kernelName config) FILE_NAME_LENGTH_LIMIT"
    and "unat (dc_blockDim config) < 2 ^ 31" and "- (2 ^ 31) \<le> dc_devId config" and "dc_devId config < 2 ^ 31"
    and "CHR '';'' \<notin> set dir"
  shows "\<exists>config' j kc.
    raw_Save api env dir om config (c, d) = Some ((True, om\<lparr>om_inputs := its\<rparr>, config'), d) \<and>
    ToJson config' [] = (True, j) \<and> GetKernelConfig (Some j) new_parser = Parsed kc True \<and>
    map (Some \<circ> ai_addr) its = map (arg_word bs) [unat (om_skipNum om)..<unat (om_skipNum om) + length (om_inputs om)] \<and>
    filter (\<lambda>p. pa_type p = ''input'') (kc_params kc) =
      map (\<lambda>(i, it). (input_param (if ai_length it = 0 then ''n'' else input_path_of dir i))\<lparr>pa_dataSize := Some (ai_length it)\<rparr>)
        (enumerate 0 (om_inputs om)) \<and>
    kc_kernelName kc = dc_kernelName config \<and> kc_kernelBinaryPath kc = dc_binPath config \<and>
    kc_blockDim kc = uint (dc_blockDim config) \<and> kc_deviceID kc = dc_devId config"
proof -
  obtain config' where save: "raw_Save api env dir om config (c, d) = Some ((True, om\<lparr>om_inputs := its\<rparr>, config'), d)"
    and c': "config' = (config\<lparr>dc_inputPathList := map (input_path_for dir) (enumerate 0 its), dc_inputSizeList := map ai_length its\<rparr>)
       \<lparr>dc_tilingDataPath := (if got \<and> tiling \<noteq> [] then dir @ ''/input_tiling.bin'' else dc_tilingDataPath config),
        dc_tilingDataSize := (if got \<and> tiling \<noteq> [] then word_of_nat (length tiling) else dc_tilingDataSize config)\<rparr>"
    by (rule raw_Save_runs [OF assms(1-3,5-9)])
  note keep = set_input_addrs_keeps [OF assms(2)]
  have ne: "enumerate 0 its \<noteq> []" using assms(3) by (metis length_0_conv length_enumerate)
  have load: "\<exists>j. ToJson config' [] = (True, j) \<and> GetKernelConfig (Some j) new_parser = Parsed (launcher_config config' magic) True"
  proof (rule recorded_launch_loads)
    show "\<forall>p \<in> set (dc_inputPathList config'). CHR '';'' \<notin> set p"
      using input_path_no_sep [OF assms(16)] by (auto simp: c')
    show "CHR '';'' \<notin> set (dc_tilingDataPath config')" using assms(10,16) by (simp add: c')
    show "last (dc_inputPathList config') \<noteq> []" using ne input_path_nonempty by (simp add: c' last_map)
  qed (use ne assms(4,11-15) in \<open>simp_all add: c'\<close>)
  have "filter (\<lambda>p. pa_type p = ''input'') (kc_params (launcher_config config' magic)) =
      map (\<lambda>(k, it). (input_param (input_path_for dir (k, it)))\<lparr>pa_dataSize := Some (ai_length it)\<rparr>) (enumerate 0 (om_inputs om))"
    using input_paths_from_lengths [of its "om_inputs om" dir 0] keep dumped_inputs [of dir 0 "om_inputs om"]
    by (simp add: launcher_config_def filter_input_params c')
  with save load keep show ?thesis
    by (intro exI [of _ config']) (auto simp: launcher_config_def c' input_path_for_def)
qed

definition demo_dump_env :: dump_env where
  "demo_dump_env = \<lparr>de_hostMalloc = \<lambda>n. True, de_read = \<lambda>a n. Some (replicate (unat n) 7), de_write = \<lambda>p b. length b\<rparr>"

definition demo_launch_info :: OpMemInfo where
  "demo_launch_info = empty_OpMemInfo\<lparr>om_skipNum := 1, om_tilingDataSize := 8,
     om_inputs := [\<lparr>ai_addr = 0, ai_length = 16, ai_src = BYPASS, ai_desc = DEFAULT, ai_paramsNo = 0\<rparr>]\<rparr>"

text \<open>The saved launch of 40 bytes above: one input of 16 bytes whose address is the second word, and 8 bytes of tiling data.\<close>

definition demo_record :: DumperContext where
  "demo_record = demo_context\<lparr>dc_inputPathList := [], dc_inputSizeList := [], dc_tilingDataPath := []\<rparr>"

section \<open>Recorded parameters are a block of words\<close>

lemma flatten_param_words:
  assumes "pd_type p = NORMAL" and "8 dvd length (pd_param p)"
  shows "\<forall>q \<in> set (flatten_param p). length (pd_param q) = 8" "concat (map pd_param (flatten_param p)) = pd_param p"
proof -
  obtain k where k: "length (pd_param p) = 8 * k" using assms(2) by (elim dvdE)
  show "\<forall>q \<in> set (flatten_param p). length (pd_param q) = 8" using assms(1) k by (auto simp: flatten_param_def)
  have "concat (map (\<lambda>j. take 8 (drop (8 * j) xs)) [0..<m]) = take (8 * m) xs" for m and xs :: "u8 list"
    by (induction m) (simp_all add: take_add [symmetric] add.commute)
  then show "concat (map pd_param (flatten_param p)) = pd_param p"
    using assms(1) k by (simp add: flatten_param_def comp_def)
qed

lemma GetFlattenedParams_words:
  assumes "\<forall>p \<in> set ps. pd_type p = NORMAL \<and> 8 dvd length (pd_param p)"
  shows "\<forall>q \<in> set (GetFlattenedParams ps). length (pd_param q) = 8"
    "concat (map pd_param (GetFlattenedParams ps)) = concat (map pd_param ps)"
proof -
  show "\<forall>q \<in> set (GetFlattenedParams ps). length (pd_param q) = 8"
    using assms flatten_param_words(1) by (fastforce simp: GetFlattenedParams_def)
  show "concat (map pd_param (GetFlattenedParams ps)) = concat (map pd_param ps)"
    using assms by (induction ps) (simp_all add: GetFlattenedParams_def flatten_param_words(2))
qed

lemma words_length: "\<forall>w \<in> set ws. length w = 8 \<Longrightarrow> length (concat ws) = 8 * length ws"
  by (induction ws) auto

lemma arg_word_of_words:
  assumes "\<forall>w \<in> set ws. length w = 8" and "length w = 8"
  shows "arg_word (concat ws @ w @ rest) (length ws) = Some (word_of_nat (le_val w))"
  using words_length [OF assms(1)] assms(2) by (simp add: arg_word_def)

lemma set_handle_addrs_words:
  assumes "\<forall>w \<in> set ws. length w = 8" and "\<forall>p \<in> set ps. length (pd_param p) = 8" and "length its \<le> length ps"
  shows "\<exists>its'. set_handle_addrs ps its = (True, its') \<and>
    set_input_addrs (concat ws @ concat (map pd_param ps)) (length ws) its = Some its'"
  using assms
proof (induction ps its arbitrary: ws rule: set_handle_addrs.induct)
  case (3 p ps it its)
  obtain its' where "set_handle_addrs ps its = (True, its')"
    "set_input_addrs (concat (ws @ [pd_param p]) @ concat (map pd_param ps)) (length (ws @ [pd_param p])) its = Some its'"
    using 3(1) [of "ws @ [pd_param p]"] 3(2-4) by auto
  then show ?case using 3(3) arg_word_of_words [OF 3(2), of "pd_param p"] by simp
qed simp_all

text \<open>
  The two ways to record a launch agree on its inputs: when the recorded parameters are whole words, the addresses
  read from them are those read from the block of their bytes, and every input gets one.
\<close>

lemma handle_addrs_as_raw:
  assumes "\<forall>p \<in> set (ha_params c). pd_type p = NORMAL \<and> 8 dvd length (pd_param p)"
    and "8 * length (om_inputs om) \<le> CalcUserArgsSize c"
  shows "\<exists>its. UpdateNormalTaskArgsAddr c om = (True, om\<lparr>om_inputs := its\<rparr>) \<and>
    set_input_addrs (concat (map pd_param (ha_params c))) 0 (om_inputs om) = Some its"
proof -
  let ?flat = "GetFlattenedParams (ha_params c)"
  note w = GetFlattenedParams_words [OF assms(1)]
  have "8 * length ?flat = length (concat (map pd_param ?flat))" using words_length [of "map pd_param ?flat"] w(1) by simp
  also have "\<dots> = CalcUserArgsSize c" unfolding w(2) by (simp add: CalcUserArgsSize_def length_concat comp_def)
  finally have n: "length (om_inputs om) \<le> length ?flat" using assms(2) by simp
  then obtain its where "set_handle_addrs ?flat (om_inputs om) = (True, its)"
    "set_input_addrs (concat (map pd_param (ha_params c))) 0 (om_inputs om) = Some its"
    using set_handle_addrs_words [of "[]" ?flat "om_inputs om"] w by auto
  then show ?thesis using n by (simp add: UpdateNormalTaskArgsAddr_def Let_def)
qed

definition demo_handle :: handle_args where
  "demo_handle = CacheArgsAppendOp [0, 1, 0, 0, 0, 0, 0, 0, 0, 2, 0, 0, 0, 0, 0, 0] 7 (new_handle_args 1 2)"

end
