(* ===== verification/Registration.thy ===== *)
theory Registration
  imports ElfLoader MetaData FileSystem
begin

text \<open>
  Registered kernel binaries: \<open>RegisterContext\<close> and \<open>RegisterManager\<close> (\<open>csrc/runtime/inject_helpers\<close>), which keep the
  image of a binary with its symbol table, find kernels by name and by tiling key, and read the meta data of a kernel
  out of the image. The disassembler, the loader of the runtime and the system calls are parameters.
\<close>

section \<open>Symbols\<close>

text \<open>Whitespace separated words, as \<open>istream_iterator\<close> reads them.\<close>

definition is_space :: "char \<Rightarrow> bool" where
  "is_space c \<longleftrightarrow> c \<in> {CHR '' '', CHR 0x09, CHR 0x0A, CHR 0x0B, CHR 0x0C, CHR 0x0D}"

function words_of :: "string \<Rightarrow> string list" where
  "words_of s =
     (let t = dropWhile is_space s in
      if t = [] then [] else takeWhile (\<lambda>c. \<not> is_space c) t # words_of (dropWhile (\<lambda>c. \<not> is_space c) t))"
  by pat_completeness auto
termination
proof (relation "measure length")
  fix s t :: string
  assume t: "t = dropWhile is_space s" "t \<noteq> []"
  then have "\<not> is_space (hd t)" using hd_dropWhile by metis
  with t(2) have "length (dropWhile (\<lambda>c. \<not> is_space c) t) < length t"
    by (cases t) (simp_all add: le_imp_less_Suc length_dropWhile_le)
  also have "\<dots> \<le> length s" using t(1) length_dropWhile_le by metis
  finally show "(dropWhile (\<lambda>c. \<not> is_space c) t, s) \<in> measure length" by simp
qed simp

declare words_of.simps [simp del]

definition hex_digit :: "char \<Rightarrow> nat option" where
  "hex_digit c =
     (let v = of_char c in
      if 48 \<le> v \<and> v \<le> 57 then Some (v - 48)
      else if 97 \<le> v \<and> v \<le> 102 then Some (v - 87)
      else if 65 \<le> v \<and> v \<le> 70 then Some (v - 55)
      else None)"

definition hex_val :: "string \<Rightarrow> nat" where
  "hex_val ds = foldl (\<lambda>acc c. 16 * acc + the (hex_digit c)) 0 ds"

text \<open>The extraction \<open>>> std::hex\<close> of a 64-bit value: a sign, a prefix, and the digits there are.\<close>

definition stream_hex :: "string \<Rightarrow> u64 option" where
  "stream_hex s =
     (let neg = (s \<noteq> [] \<and> hd s = CHR ''-'');
          t = (if s \<noteq> [] \<and> (hd s = CHR ''-'' \<or> hd s = CHR ''+'') then tl s else s);
          t1 = (if take 2 t = ''0x'' \<or> take 2 t = ''0X'' then drop 2 t else t);
          ds = takeWhile (\<lambda>c. hex_digit c \<noteq> None) t1
      in if ds = [] \<or> hex_val ds \<ge> 2 ^ 64 then None
         else Some (if neg then - word_of_nat (hex_val ds) else word_of_nat (hex_val ds)))"

text \<open>The symbol of a line, when it names a global function; a line with a bad offset is skipped like any other.\<close>

definition sym_of_line :: "string \<Rightarrow> (string \<times> u64) option" where
  "sym_of_line line =
     (let w = words_of line in
      if length w = 6 \<and> w ! 1 = ''g'' \<and> w ! 2 = ''F'' \<and> w ! 3 = ''.text''
      then map_option (Pair (w ! 5)) (stream_hex (w ! 0)) else None)"

record 'f reg_env =
  re_os :: "'f os"
  re_objdump :: "u8 list \<Rightarrow> string option"
  re_grep :: "string \<Rightarrow> string option"
  re_copyFile :: "string \<Rightarrow> string \<Rightarrow> 'f \<Rightarrow> bool \<times> 'f"
  re_soc :: string

definition GetObjdumpOutput :: "'f reg_env \<Rightarrow> u8 list \<Rightarrow> string option" where
  "GetObjdumpOutput env binaryData =
     (case re_objdump env binaryData of
        None \<Rightarrow> None
      | Some objdumpOutput \<Rightarrow>
          (case re_grep env objdumpOutput of None \<Rightarrow> Some objdumpOutput | Some output \<Rightarrow> Some output))"

text \<open>An empty vector has a null pointer. The symbols come with their offsets, in the order of the lines.\<close>

definition GetSymInfoFromBinary :: "'f reg_env \<Rightarrow> u8 list \<Rightarrow> (string \<times> u64) list option" where
  "GetSymInfoFromBinary env bs =
     (if bs = [] then None
      else map_option (\<lambda>output. List.map_filter sym_of_line (SplitString output CHR 0x0A)) (GetObjdumpOutput env bs))"

definition is_simt_line :: "string \<Rightarrow> bool" where
  "is_simt_line line \<longleftrightarrow>
     (let w = words_of line in
      length w = 5 \<and> w ! 1 = ''l'' \<and> w ! 2 = ''.text'' \<and> StartsWith (w ! 4) ''$t'')"

definition GetSimtSymbolFromBinary :: "'f reg_env \<Rightarrow> u8 list \<Rightarrow> bool" where
  "GetSimtSymbolFromBinary env bs =
     (if bs = [] then False
      else case re_objdump env bs of
        None \<Rightarrow> False
      | Some output \<Rightarrow> list_ex is_simt_line (SplitString output CHR 0x0A))"

section \<open>Sections\<close>

text \<open>\<open>None\<close> stands for a read outside the image.\<close>

definition GetSectionHeaders :: "u8 list \<Rightarrow> sections option option" where
  "GetSectionHeaders bs =
     (case FromBuffer bs of Inr h \<Rightarrow> Some (Some h) | Inl Rejected \<Rightarrow> Some None | Inl OutOfBounds \<Rightarrow> None)"

definition has_section :: "string \<Rightarrow> u8 list \<Rightarrow> bool option" where
  "has_section name bs =
     map_option (\<lambda>r. case r of None \<Rightarrow> False | Some h \<Rightarrow> map_of h name \<noteq> None) (GetSectionHeaders bs)"

definition HasStaticStub :: "u8 list \<Rightarrow> bool option" where
  "HasStaticStub bs = has_section ''.init_array_sanitizer_file_mapping'' bs"

definition HasDebugLine :: "u8 list \<Rightarrow> bool option" where
  "HasDebugLine bs = has_section ''.debug_line'' bs"

text \<open>The bound is tested on the sum, which wraps.\<close>

definition GetMetaSection :: "u8 list \<Rightarrow> string \<Rightarrow> u8 list option" where
  "GetMetaSection bs kernelName =
     (case GetSectionHeaders bs of
        None \<Rightarrow> None
      | Some None \<Rightarrow> Some []
      | Some (Some headers) \<Rightarrow>
          (case map_of headers (''.ascend.meta.'' @ kernelName) of
             None \<Rightarrow> Some []
           | Some sh \<Rightarrow>
               if sh_offset sh + sh_size sh > vsize bs then Some []
               else case copy_from bs (sh_offset sh) (sh_size sh) of Inl e \<Rightarrow> None | Inr data \<Rightarrow> Some data))"

section \<open>Kinds of binaries\<close>

definition RT_DEV_BINARY_MAGIC_ELF_AICPU :: u32 where "RT_DEV_BINARY_MAGIC_ELF_AICPU = 0x41415243"
definition RT_DEV_BINARY_MAGIC_ELF_AIVEC :: u32 where "RT_DEV_BINARY_MAGIC_ELF_AIVEC = 0x41415246"
definition RT_DEV_BINARY_MAGIC_ELF_AICUBE :: u32 where "RT_DEV_BINARY_MAGIC_ELF_AICUBE = 0x41494343"
definition FLAG_A2_AIV :: u32 where "FLAG_A2_AIV = 0x930000"
definition FLAG_A2_AIC :: u32 where "FLAG_A2_AIC = 0x940000"
definition FLAG_DEFAULT_VALUE :: u32 where "FLAG_DEFAULT_VALUE = 0x810000"

definition IsA2Version :: "string \<Rightarrow> bool" where
  "IsA2Version soc = str_contains soc ''Ascend910B''"

definition GetFlagByMagic :: "string \<Rightarrow> u32 \<Rightarrow> u32" where
  "GetFlagByMagic soc magic =
     (if IsA2Version soc then
        (if magic = RT_DEV_BINARY_MAGIC_ELF_AIVEC then FLAG_A2_AIV
         else if magic = RT_DEV_BINARY_MAGIC_ELF_AICUBE \<or> magic = RT_DEV_BINARY_MAGIC_ELF then FLAG_A2_AIC
         else 0)
      else 0)"

datatype KernelType = AICPU | AIVEC | AICUBE | MIX | INVALID

definition MagicToKernelType :: "u32 \<Rightarrow> KernelType" where
  "MagicToKernelType magic =
     (if magic = RT_DEV_BINARY_MAGIC_ELF_AIVEC then AIVEC
      else if magic = RT_DEV_BINARY_MAGIC_ELF_AICUBE then AICUBE
      else if magic = RT_DEV_BINARY_MAGIC_ELF then MIX
      else if magic = RT_DEV_BINARY_MAGIC_ELF_AICPU then AICPU
      else INVALID)"

definition ParseMagicStr :: "string \<Rightarrow> u32 option" where
  "ParseMagicStr s =
     map_of [(''RT_DEV_BINARY_MAGIC_ELF_AIVEC'', RT_DEV_BINARY_MAGIC_ELF_AIVEC),
       (''RT_DEV_BINARY_MAGIC_ELF_AICUBE'', RT_DEV_BINARY_MAGIC_ELF_AICUBE),
       (''RT_DEV_BINARY_MAGIC_ELF'', RT_DEV_BINARY_MAGIC_ELF),
       (''RT_DEV_BINARY_MAGIC_ELF_AICPU'', RT_DEV_BINARY_MAGIC_ELF_AICPU)] s"

section \<open>Contexts\<close>

record load_option =
  lo_type :: u32
  lo_value :: "u32 list"

record load_options =
  ls_options :: "load_option list option"
  ls_numOpt :: nat

text \<open>The options point at the data the parameter owns, and nowhere when there is none.\<close>

record RegisterParam =
  rp_regId :: nat
  rp_magic :: u32
  rp_numOpt :: nat
  rp_optionData :: "load_option list"
  rp_needUnload :: bool
  rp_optionsIsNull :: bool

definition new_RegisterParam :: "nat \<Rightarrow> u32 \<Rightarrow> load_options option \<Rightarrow> bool \<Rightarrow> bool \<Rightarrow> RegisterParam" where
  "new_RegisterParam regId magic op needUnload optionsIsNull =
     (let p = \<lparr>rp_regId = regId, rp_magic = magic, rp_numOpt = 0, rp_optionData = [], rp_needUnload = needUnload,
               rp_optionsIsNull = optionsIsNull\<rparr>
      in case op of
           None \<Rightarrow> p
         | Some o1 \<Rightarrow>
             if ls_numOpt o1 = 0 then p
             else let p1 = p\<lparr>rp_numOpt := ls_numOpt o1\<rparr> in
               (case ls_options o1 of None \<Rightarrow> p1 | Some opts \<Rightarrow> p1\<lparr>rp_optionData := take (ls_numOpt o1) opts\<rparr>))"

definition rp_options :: "RegisterParam \<Rightarrow> load_options" where
  "rp_options p =
     \<lparr>ls_options = (if rp_optionData p = [] then None else Some (rp_optionData p)), ls_numOpt = rp_numOpt p\<rparr>"

definition BINARY_TYPE_NONE :: u32 where "BINARY_TYPE_NONE = 10000"

record register_context =
  rc_binPath :: string
  rc_elfData :: "u8 list"
  rc_symbols :: "(string \<times> u64) list"
  rc_param :: RegisterParam
  rc_hasStaticStub :: bool
  rc_hasDebugLine :: bool
  rc_hdl :: ptr
  rc_isFromFile :: bool
  rc_hasSimt :: bool
  rc_type :: u32

definition new_register_context :: register_context where
  "new_register_context =
     \<lparr>rc_binPath = [], rc_elfData = [], rc_symbols = [], rc_param = new_RegisterParam 0 0 None False False,
      rc_hasStaticStub = False, rc_hasDebugLine = False, rc_hdl = 0, rc_isFromFile = False, rc_hasSimt = False,
      rc_type = BINARY_TYPE_NONE\<rparr>"

definition reg_Init ::
  "'f reg_env \<Rightarrow> u8 list \<Rightarrow> ptr \<Rightarrow> RegisterParam \<Rightarrow> register_context \<Rightarrow> (bool \<times> register_context) option" where
  "reg_Init env elfData binHandle param c =
     (let c1 = c\<lparr>rc_elfData := elfData, rc_param := param\<rparr> in
      case GetSymInfoFromBinary env elfData of
        None \<Rightarrow> Some (False, c1)
      | Some syms \<Rightarrow>
          let c2 = c1\<lparr>rc_symbols := rc_symbols c @ syms, rc_hasSimt := GetSimtSymbolFromBinary env elfData\<rparr> in
          (case (HasStaticStub elfData, HasDebugLine elfData) of
             (Some stub, Some line) \<Rightarrow>
               Some (True, c2\<lparr>rc_hasStaticStub := stub, rc_hasDebugLine := line, rc_hdl := binHandle\<rparr>)
           | _ \<Rightarrow> None))"

definition reg_Init_file ::
  "'f reg_env \<Rightarrow> string \<Rightarrow> ptr \<Rightarrow> RegisterParam \<Rightarrow> register_context \<Rightarrow> 'f \<Rightarrow> (bool \<times> register_context) option" where
  "reg_Init_file env binPath binHandle param c fs =
     (let (n, elfData) = ReadBinary (re_os env) binPath fs in
      if n = 0 then Some (False, c)
      else let c1 = (case ls_options (rp_options param) of
                       Some (opt # opts) \<Rightarrow> c\<lparr>rc_type := lo_type opt\<rparr>
                     | _ \<Rightarrow> c)
           in reg_Init env elfData binHandle param (c1\<lparr>rc_binPath := binPath, rc_isFromFile := True\<rparr>))"

text \<open>The image that is written: its header gets the flags of the kernel type when it was built without a target.\<close>

definition saved_image :: "string \<Rightarrow> u32 \<Rightarrow> Elf64_Ehdr \<Rightarrow> u8 list \<Rightarrow> u8 list" where
  "saved_image soc magic header bs =
     (if e_flags header = FLAG_DEFAULT_VALUE \<and> GetFlagByMagic soc magic > 0
      then Ehdr_bytes (header\<lparr>e_flags := GetFlagByMagic soc magic\<rparr>) @ drop 64 bs
      else bs)"

definition reg_Save :: "'f reg_env \<Rightarrow> string \<Rightarrow> register_context \<Rightarrow> 'f \<Rightarrow> (bool \<times> 'f) option" where
  "reg_Save env outputPath c fs =
     (case LoadHeader (rc_elfData c) of
        Inl Rejected \<Rightarrow> Some (False, fs)
      | Inl OutOfBounds \<Rightarrow> None
      | Inr header \<Rightarrow>
          let bs = saved_image (re_soc env) (rp_magic (rc_param c)) header (rc_elfData c);
              (written, fs1) = WriteBinary (re_os env) outputPath bs fs
          in Some (written = length bs, fs1))"

definition MIX_AIC_TAIL :: string where "MIX_AIC_TAIL = ''_mix_aic''"
definition MIX_AIV_TAIL :: string where "MIX_AIV_TAIL = ''_mix_aiv''"

definition GetKernelOffsetByName :: "register_context \<Rightarrow> string \<Rightarrow> u64" where
  "GetKernelOffsetByName c kernelName =
     (let off = (case find (\<lambda>(s, v). kernelName = s \<or> kernelName @ MIX_AIC_TAIL = s \<or> kernelName @ MIX_AIV_TAIL = s)
                   (rc_symbols c) of None \<Rightarrow> - 1 | Some (s, v) \<Rightarrow> v)
      in if off = - 1 then 0 else off)"

definition key_suffixes :: "u64 \<Rightarrow> string list" where
  "key_suffixes tilingKey =
     (let nameSuffix = ''_'' @ to_string (unat tilingKey)
      in [nameSuffix, nameSuffix @ MIX_AIC_TAIL, nameSuffix @ MIX_AIV_TAIL])"

definition reg_GetKernelName :: "register_context \<Rightarrow> u64 \<Rightarrow> string" where
  "reg_GetKernelName c tilingKey =
     (case find (\<lambda>name. list_ex (EndsWith name) (key_suffixes tilingKey)) (map fst (rc_symbols c)) of
        None \<Rightarrow> [] | Some name \<Rightarrow> name)"

definition EndsWithMixAivOrAic :: "string \<Rightarrow> bool" where
  "EndsWithMixAivOrAic kernelName =
     (if kernelName = [] then False
      else if length kernelName < length MIX_AIC_TAIL then False
      else let endPart = drop (length kernelName - length MIX_AIC_TAIL) kernelName
           in endPart = MIX_AIC_TAIL \<or> endPart = MIX_AIV_TAIL)"

definition KernelSymbolNameIsMix :: "register_context \<Rightarrow> string \<Rightarrow> bool" where
  "KernelSymbolNameIsMix c kernelName =
     (if EndsWithMixAivOrAic kernelName then True
      else list_ex (\<lambda>s. EndsWithMixAivOrAic s \<and> take (length s - length MIX_AIC_TAIL) s = kernelName)
             (map fst (rc_symbols c)))"

text \<open>\<open>Fault\<close> is a read outside the image or its meta data.\<close>

definition ParseMetaData :: "'f reg_env \<Rightarrow> register_context \<Rightarrow> string \<Rightarrow> OpMemInfo \<Rightarrow> (bool \<times> OpMemInfo) outcome" where
  "ParseMetaData env c kernelName memInfo =
     (case GetMetaSection (rc_elfData c) kernelName of
        None \<Rightarrow> Fault
      | Some metaData \<Rightarrow>
          if metaData = [] then Done (False, memInfo)
          else case Parse (re_soc env) metaData of
            Done (ok, m) \<Rightarrow> Done (if ok then (True, m) else (False, memInfo))
          | Fault \<Rightarrow> Fault
          | OutOfFuel \<Rightarrow> OutOfFuel)"

text \<open>The calls of the runtime that load and unload a binary, with the options or a null pointer.\<close>

record 'l load_api =
  la_loadData :: "u8 list \<Rightarrow> load_options option \<Rightarrow> 'l \<Rightarrow> ptr option \<times> 'l"
  la_loadFile :: "string \<Rightarrow> load_options option \<Rightarrow> 'l \<Rightarrow> ptr option \<times> 'l"
  la_unload :: "ptr \<Rightarrow> 'l \<Rightarrow> 'l"

definition reg_destroy :: "'l load_api \<Rightarrow> register_context \<Rightarrow> 'l \<Rightarrow> 'l" where
  "reg_destroy api c l = (if rp_needUnload (rc_param c) then la_unload api (rc_hdl c) l else l)"

text \<open>The new context of a clone dies at once, with its parameter set, when its initialisation fails.\<close>

definition finish_clone ::
  "'l load_api \<Rightarrow> (bool \<times> register_context) option \<Rightarrow> 'l \<Rightarrow> (register_context option \<times> 'l) option" where
  "finish_clone api r l =
     map_option (\<lambda>(ok, c). if ok then (Some c, l) else (None, reg_destroy api c l)) r"

definition reg_CloneFromBin ::
  "'f reg_env \<Rightarrow> 'l load_api \<Rightarrow> string \<Rightarrow> register_context \<Rightarrow> 'f \<Rightarrow> 'l \<Rightarrow> (register_context option \<times> 'l) option" where
  "reg_CloneFromBin env api newBinPath c fs l =
     (let (n, bs) = ReadBinary (re_os env) newBinPath fs; p = rc_param c in
      if n = 0 then Some (None, l)
      else let (h, l1) = la_loadData api bs (if rp_optionsIsNull p then None else Some (rp_options p)) l in
        case h of
          None \<Rightarrow> Some (None, l1)
        | Some binHandle \<Rightarrow>
            finish_clone api
              (reg_Init env bs binHandle
                (new_RegisterParam (rp_regId p) (rp_magic p) (Some (rp_options p)) True (rp_optionsIsNull p))
                new_register_context) l1)"

definition reg_Clone ::
  "'f reg_env \<Rightarrow> 'l load_api \<Rightarrow> string \<Rightarrow> register_context \<Rightarrow> 'f \<Rightarrow> 'l \<Rightarrow>
   ((register_context option \<times> 'l) \<times> 'f) option" where
  "reg_Clone env api newBinPath c fs l =
     (if \<not> rc_isFromFile c then map_option (\<lambda>r. (r, fs)) (reg_CloneFromBin env api newBinPath c fs l)
      else
        let curJsonPath = butlast (rc_binPath c) @ ''json'';
            targetJsonPath = butlast newBinPath @ ''json'';
            p = rc_param c;
            (copied, fs1) = (if IsExist (re_os env) curJsonPath fs
                             then re_copyFile env curJsonPath targetJsonPath fs else (True, fs))
        in if \<not> copied then Some ((None, l), fs1)
           else let (h, l1) = la_loadFile api newBinPath (if rp_optionsIsNull p then None else Some (rp_options p)) l in
             case h of
               None \<Rightarrow> Some ((None, l1), fs1)
             | Some binHandle \<Rightarrow>
                 map_option (\<lambda>r. (r, fs1))
                   (finish_clone api
                     (reg_Init_file env newBinPath binHandle
                       (new_RegisterParam (rp_regId p) (rp_magic p) (Some (rp_options p)) True (rp_optionsIsNull p))
                       new_register_context fs1) l1))"

section \<open>The manager\<close>

record register_manager =
  gm_contexts :: "(ptr \<times> register_context) list"
  gm_elf :: "(ptr \<times> u8 list) list"
  gm_currentRegId :: nat

definition new_register_manager :: register_manager where
  "new_register_manager = \<lparr>gm_contexts = [], gm_elf = [], gm_currentRegId = 0\<rparr>"

definition manager_param :: "register_manager \<Rightarrow> u32 \<Rightarrow> load_options option \<Rightarrow> RegisterParam" where
  "manager_param gm magic op = new_RegisterParam (gm_currentRegId gm) magic op False (op = None)"

definition add_context ::
  "ptr \<Rightarrow> register_manager \<Rightarrow> (bool \<times> register_context) option \<Rightarrow> (register_context option \<times> register_manager) option" where
  "add_context binHandle gm r =
     map_option (\<lambda>(ok, c). if \<not> ok then (None, gm)
       else (Some c, gm\<lparr>gm_contexts := omap_put binHandle c (gm_contexts gm),
                        gm_currentRegId := gm_currentRegId gm + 1\<rparr>)) r"

definition CreateContext_file ::
  "'f reg_env \<Rightarrow> string \<Rightarrow> ptr \<Rightarrow> u32 \<Rightarrow> load_options option \<Rightarrow> 'f \<Rightarrow> register_manager \<Rightarrow>
   (register_context option \<times> register_manager) option" where
  "CreateContext_file env binPath binHandle magic op fs gm =
     add_context binHandle gm (reg_Init_file env binPath binHandle (manager_param gm magic op) new_register_context fs)"

text \<open>The lookup inserts an empty image when there is none.\<close>

definition CreateContext_binary ::
  "'f reg_env \<Rightarrow> ptr \<Rightarrow> ptr \<Rightarrow> u32 \<Rightarrow> load_options option \<Rightarrow> register_manager \<Rightarrow>
   (register_context option \<times> register_manager) option" where
  "CreateContext_binary env bin binHandle magic op gm =
     (let bs = (case map_of (gm_elf gm) bin of None \<Rightarrow> [] | Some b \<Rightarrow> b);
          gm1 = gm\<lparr>gm_elf := omap_put bin bs (gm_elf gm)\<rparr>
      in if bs = [] then Some (None, gm1)
         else add_context binHandle gm1 (reg_Init env bs binHandle (manager_param gm1 magic op) new_register_context))"

definition CreateContext_data ::
  "'f reg_env \<Rightarrow> u8 list \<Rightarrow> ptr \<Rightarrow> u32 \<Rightarrow> load_options option \<Rightarrow> register_manager \<Rightarrow>
   (register_context option \<times> register_manager) option" where
  "CreateContext_data env bs binHandle magic op gm =
     add_context binHandle gm (reg_Init env bs binHandle (manager_param gm magic op) new_register_context)"

definition gm_GetContext :: "ptr \<Rightarrow> register_manager \<Rightarrow> register_context option" where
  "gm_GetContext key gm = map_of (gm_contexts gm) key"

definition CacheElfData :: "ptr \<Rightarrow> u8 list \<Rightarrow> register_manager \<Rightarrow> register_manager" where
  "CacheElfData bin bs gm =
     (if length bs > unat MAX_MEM_BYTE_SIZE then gm else gm\<lparr>gm_elf := omap_put bin bs (gm_elf gm)\<rparr>)"

section \<open>Reading the symbol table\<close>

lemma words_of_Nil [simp]: "words_of [] = []"
  by (subst words_of.simps) simp

lemma words_of_space: "is_space c \<Longrightarrow> words_of (c # s) = words_of s"
  by (subst (1 2) words_of.simps) simp

lemma words_of_word:
  assumes "w \<noteq> []" and "\<forall>c \<in> set w. \<not> is_space c" and "s = [] \<or> is_space (hd s)"
  shows "words_of (w @ s) = w # words_of s"
proof -
  have d: "dropWhile is_space (w @ s) = w @ s" using assms(1,2) by (cases w) auto
  have t: "takeWhile (\<lambda>c. \<not> is_space c) (w @ s) = w" "dropWhile (\<lambda>c. \<not> is_space c) (w @ s) = s"
    using assms(2,3) by (cases s; simp add: takeWhile_append dropWhile_append)+
  show ?thesis using assms(1) by (subst words_of.simps) (simp add: d t)
qed

lemma words_of_last: "w \<noteq> [] \<Longrightarrow> \<forall>c \<in> set w. \<not> is_space c \<Longrightarrow> words_of w = [w]"
  using words_of_word [of w "[]"] by simp

definition is_hex :: "char \<Rightarrow> bool" where
  "is_hex c \<longleftrightarrow> hex_digit c \<noteq> None"

lemma hex_char_digit: "d < 16 \<Longrightarrow> hex_digit (hex_char d) = Some d"
  by (simp add: hex_digit_def hex_char_def Let_def)

lemma hex_char_is_hex: "d < 16 \<Longrightarrow> is_hex (hex_char d)"
  by (simp add: is_hex_def hex_char_digit)

lemma hex_string_digits: "list_all is_hex (hex_string n)"
proof (induction n rule: hex_string.induct)
  case (1 n)
  then show ?case by (subst hex_string.simps) (simp add: hex_char_is_hex)
qed

lemma hex_val_snoc: "hex_val (ds @ [c]) = 16 * hex_val ds + the (hex_digit c)"
  by (simp add: hex_val_def)

lemma hex_val_string: "hex_val (hex_string n) = n"
proof (induction n rule: hex_string.induct)
  case (1 n)
  show ?case
  proof (cases "n < 16")
    case True
    then show ?thesis by (subst hex_string.simps) (simp add: hex_val_def hex_char_digit)
  next
    case False
    with 1 show ?thesis by (subst hex_string.simps) (simp add: hex_val_snoc hex_char_digit)
  qed
qed

lemma hex_string_nonempty [simp]: "hex_string n \<noteq> []"
  by (subst hex_string.simps) simp

text \<open>An address as the disassembler prints it, with leading zeros.\<close>

definition hex16 :: "u64 \<Rightarrow> string" where
  "hex16 v = replicate (16 - length (hex_string (unat v))) CHR ''0'' @ hex_string (unat v)"

lemma hex_val_zeros: "hex_val (replicate k CHR ''0'' @ ds) = hex_val ds"
  by (induction k) (simp_all add: hex_val_def hex_digit_def)

lemma hex16_digits: "list_all is_hex (hex16 v)"
proof -
  have "is_hex CHR ''0''" by (simp add: is_hex_def hex_digit_def)
  then show ?thesis using hex_string_digits [of "unat v"] by (auto simp: hex16_def list_all_iff)
qed

lemma is_hex_plain:
  assumes "is_hex c"
  shows "\<not> is_space c" "c \<noteq> CHR ''-''" "c \<noteq> CHR ''+''" "c \<noteq> CHR ''x''" "c \<noteq> CHR ''X''"
  using assms by (auto simp: is_hex_def hex_digit_def is_space_def)

lemma stream_hex16: "stream_hex (hex16 v) = Some v"
proof -
  have ne: "hex16 v \<noteq> []" by (simp add: hex16_def)
  then obtain c cs where s: "hex16 v = c # cs" by (cases "hex16 v") auto
  have all: "is_hex c" "list_all is_hex cs" using hex16_digits [of v] by (simp_all add: s)
  have sign: "c \<noteq> CHR ''-''" "c \<noteq> CHR ''+''" using is_hex_plain [OF all(1)] by simp_all
  have px: "take 2 (c # cs) \<noteq> ''0x''" "take 2 (c # cs) \<noteq> ''0X''"
  proof -
    have "cs = [] \<or> is_hex (hd cs)" using all(2) by (cases cs) auto
    then show "take 2 (c # cs) \<noteq> ''0x''" "take 2 (c # cs) \<noteq> ''0X''"
      using is_hex_plain(4,5) by (cases cs; auto simp: numeral_2_eq_2)+
  qed
  have tw: "takeWhile (\<lambda>c. hex_digit c \<noteq> None) (c # cs) = c # cs"
    using all by (auto simp: takeWhile_eq_all_conv is_hex_def list_all_iff)
  have val: "hex_val (c # cs) = unat v"
    using hex_val_zeros hex_val_string unfolding s [symmetric] hex16_def by simp
  have big: "\<not> 2 ^ 64 \<le> unat v" using unsigned_less [of v] by (simp add: not_le)
  have no_sign: "(c # cs \<noteq> [] \<and> (hd (c # cs) = CHR ''-'' \<or> hd (c # cs) = CHR ''+'')) = False"
    "(c # cs \<noteq> [] \<and> hd (c # cs) = CHR ''-'') = False" "(take 2 (c # cs) = ''0x'' \<or> take 2 (c # cs) = ''0X'') = False"
    using sign px by (simp_all del: take_Suc_Cons)
  show ?thesis
    unfolding s stream_hex_def Let_def no_sign if_False tw val using big by (simp del: not_le)
qed

definition symbol_line :: "string \<times> u64 \<Rightarrow> u64 \<Rightarrow> string" where
  "symbol_line sy n = hex16 (snd sy) @ '' g     F .text'' @ [CHR 0x09] @ hex16 n @ '' '' @ fst sy"

definition wf_symbol :: "string \<Rightarrow> bool" where
  "wf_symbol s \<longleftrightarrow> s \<noteq> [] \<and> (\<forall>c \<in> set s. \<not> is_space c)"

lemma words_symbol_line:
  assumes "wf_symbol (fst sy)"
  shows "words_of (symbol_line sy n) = [hex16 (snd sy), ''g'', ''F'', ''.text'', hex16 n, fst sy]"
proof -
  have h: "hex16 v \<noteq> []" "\<forall>c \<in> set (hex16 v). \<not> is_space c" for v
    using hex16_digits [of v] is_hex_plain(1) by (simp add: hex16_def, simp add: list_all_iff)
  have sp: "is_space CHR '' ''" "is_space CHR 0x09" by (simp_all add: is_space_def)
  have w: "words_of (hex16 v @ CHR '' '' # s) = hex16 v # words_of s" for v s
    using words_of_word [OF h, of "CHR '' '' # s"] sp by (simp add: words_of_space)
  have g: "words_of (CHR ''g'' # CHR '' '' # s) = ''g'' # words_of s" for s
    using words_of_word [of "''g''" "CHR '' '' # s"] sp by (simp add: words_of_space is_space_def)
  have f: "words_of (CHR ''F'' # CHR '' '' # s) = ''F'' # words_of s" for s
    using words_of_word [of "''F''" "CHR '' '' # s"] sp by (simp add: words_of_space is_space_def)
  have t: "words_of (CHR ''.'' # CHR ''t'' # CHR ''e'' # CHR ''x'' # CHR ''t'' # CHR 0x09 # s) = ''.text'' # words_of s" for s
    using words_of_word [of "''.text''" "CHR 0x09 # s"] sp by (simp add: words_of_space is_space_def)
  have l: "words_of (fst sy) = [fst sy]" using assms by (intro words_of_last) (simp_all add: wf_symbol_def)
  show ?thesis by (simp add: symbol_line_def w g f t l words_of_space sp)
qed

lemma sym_of_symbol_line: "wf_symbol (fst sy) \<Longrightarrow> sym_of_line (symbol_line sy n) = Some sy"
  by (simp add: sym_of_line_def words_symbol_line stream_hex16)

lemma symbol_line_no_newline: "wf_symbol (fst sy) \<Longrightarrow> CHR 0x0A \<notin> set (symbol_line sy n)"
proof -
  have "is_space CHR 0x0A" by (simp add: is_space_def)
  moreover have "\<forall>c \<in> set (hex16 v). \<not> is_space c" for v
    using hex16_digits [of v] is_hex_plain(1) by (simp add: list_all_iff)
  ultimately show "wf_symbol (fst sy) \<Longrightarrow> CHR 0x0A \<notin> set (symbol_line sy n)"
    by (auto simp: symbol_line_def wf_symbol_def)
qed

lemma map_filter_all: "(\<And>x. x \<in> set xs \<Longrightarrow> f (g x) = Some (h x)) \<Longrightarrow> List.map_filter f (map g xs) = map h xs"
  by (induction xs) (simp_all add: map_filter_simps)

section \<open>Properties\<close>

text \<open>
  The symbols the disassembler prints are read back, all of them in their order, with their names and offsets.
\<close>

lemma symbol_table_roundtrip:
  assumes "re_objdump env bs = Some out" and "bs \<noteq> []"
    and "re_grep env out = Some (Join (map (\<lambda>(s, n). symbol_line s n) syms) [CHR 0x0A])"
    and "\<forall>(s, n) \<in> set syms. wf_symbol (fst s)"
  shows "GetSymInfoFromBinary env bs = Some (map fst syms)"
proof -
  let ?ls = "map (\<lambda>(s, n). symbol_line s n) syms"
  have ne: "symbol_line s n \<noteq> []" for s n by (simp add: symbol_line_def)
  have "SplitString (Join ?ls [CHR 0x0A]) CHR 0x0A = ?ls"
  proof (rule SplitString_Join)
    show "\<forall>t \<in> set ?ls. CHR 0x0A \<notin> set t" using assms(4) symbol_line_no_newline by auto
    have "\<forall>t \<in> set ?ls. t \<noteq> []" using ne by auto
    then show "?ls \<noteq> [] \<longrightarrow> last ?ls \<noteq> []" using last_in_set by blast
  qed
  moreover have "List.map_filter sym_of_line ?ls = map fst syms"
    by (rule map_filter_all) (use assms(4) sym_of_symbol_line in auto)
  ultimately show ?thesis using assms(1-3) by (simp add: GetSymInfoFromBinary_def GetObjdumpOutput_def)
qed

definition demo_reg_env :: "(string \<times> stat_info) list reg_env" where
  "demo_reg_env = \<lparr>re_os = demo_os, re_objdump = \<lambda>bs. Some ''dump'',
     re_grep = \<lambda>out. Some (Join [symbol_line (''add_1_mix_aic'', 0x80) 24, symbol_line (''add_2'', 0) 128] [CHR 0x0A]),
     re_copyFile = \<lambda>a b fs. (True, fs), re_soc = ''Ascend910B1''\<rparr>"

text \<open>The section of a kernel's meta data in an image.\<close>

definition meta_section :: "u8 list \<Rightarrow> Elf64_Shdr \<Rightarrow> u8 list \<Rightarrow> bool" where
  "meta_section bs sh data \<longleftrightarrow>
     unat (sh_offset sh) + unat (sh_size sh) \<le> length bs \<and> data = take (unat (sh_size sh)) (drop (unat (sh_offset sh)) bs)"

lemma FromBuffer_lookup:
  assumes "elf_image bs h tab names" and "distinct (map fst tab)" and "(n, sh) \<in> set tab"
  shows "\<exists>secs. FromBuffer bs = Inr secs \<and> map_of secs n = Some sh"
  using FromBuffer_exact [OF assms(1)] fold_omap_put [of "[]" tab] assms(2,3)
  by (auto simp: map_of_eq_Some_iff rev_map [symmetric])

lemma GetMetaSection_image:
  assumes "elf_image bs h tab names" and "distinct (map fst tab)" and "(''.ascend.meta.'' @ kname, sh) \<in> set tab"
    and "meta_section bs sh data"
  shows "GetMetaSection bs kname = Some data"
proof -
  obtain secs where secs: "FromBuffer bs = Inr secs" "map_of secs (''.ascend.meta.'' @ kname) = Some sh"
    using FromBuffer_lookup [OF assms(1-3)] by blast
  have len: "length bs < 2 ^ 63" using assms(1) by (simp add: elf_image_def)
  have "no_wrap (sh_offset sh) (sh_size sh)" using assms(4) len by (simp add: no_wrap_def meta_section_def)
  from unat_add_no_wrap [OF this] have "\<not> sh_offset sh + sh_size sh > vsize bs"
    using assms(4) len by (simp add: word_less_nat_alt unat_of_nat meta_section_def)
  then show ?thesis
    using secs assms(4) by (simp add: GetMetaSection_def GetSectionHeaders_def copy_from_def meta_section_def)
qed

text \<open>
  C5: The tensor lengths the compiler put in the image of a binary for a kernel are what \<open>ParseMetaData\<close> gives for that
  kernel: the ELF reader and the meta data parser together find the right section and decode it.
\<close>

theorem metadata_from_image:
  assumes "elf_image (rc_elfData c) h tab names" and "distinct (map fst tab)"
    and "(''.ascend.meta.'' @ kname, sh) \<in> set tab" and "meta_section (rc_elfData c) sh (dfx_block args)"
    and "\<forall>a \<in> set args. tensor_arg a" and "args \<noteq> []" and "length (concat (map arg_bytes args)) < 65536"
  shows "ParseMetaData env c kname m = Done (True, empty_OpMemInfo\<lparr>om_inputs := inputs_from 0 args\<rparr>)"
proof -
  have "dfx_block args \<noteq> []" by (simp add: dfx_block_def Let_def)
  then show ?thesis
    using GetMetaSection_image [OF assms(1-4)] Parse_dfx_block [OF assms(5-7)] by (simp add: ParseMetaData_def)
qed

lemma LoadHeader_long:
  assumes "64 \<le> length bs" and "length bs < 2 ^ 63"
  shows "LoadHeader bs = Inr (Ehdr_of_bytes (take 64 bs))"
  using assms by (simp add: LoadHeader_def ReadValueFromBuffer_def copy_from_def word_less_nat_alt unat_of_nat)

lemma elf_image_flags:
  assumes "elf_image bs h tab names" and "64 \<le> unat (e_shoff h)"
    and "64 \<le> unat (sh_offset (snd (tab ! unat (e_shstrndx h))))"
  shows "elf_image (Ehdr_bytes (h\<lparr>e_flags := f\<rparr>) @ drop 64 bs) (h\<lparr>e_flags := f\<rparr>) tab names"
proof -
  let ?h = "h\<lparr>e_flags := f\<rparr>"
  have off: "unat (e_shoff h) < 2 ^ 63" and len: "length bs < 2 ^ 63" and k: "unat (e_shstrndx h) < length tab"
    and sec: "\<forall>i < length tab. section_at bs h names i (snd (tab ! i)) (fst (tab ! i))" and n: "length tab = unat (e_shnum h)"
    using assms(1) by (simp_all add: elf_image_def)
  have at: "64 \<le> unat (section_offset h i)" if "i < length tab" for i
  proof -
    have "unat (e_shnum h) < 2 ^ 16" using unsigned_less [of "e_shnum h"] by simp
    then show ?thesis using section_offset_nat(1) [OF off, of i] that n assms(2) by simp
  qed
  have long: "64 \<le> length bs"
  proof -
    have "0 < length tab" using k by linarith
    then have "unat (section_offset h 0) + 64 \<le> length bs" using sec [rule_format, of 0] by (simp add: section_at_def)
    then show ?thesis by simp
  qed
  have "h = Ehdr_of_bytes (take 64 bs)" using LoadHeader_long [OF long len] assms(1) by (simp add: elf_image_def)
  then have "length (e_ident h) = 16" using long by (simp add: Ehdr_of_bytes_def)
  then have E: "length (Ehdr_bytes ?h) = 64" "Ehdr_of_bytes (Ehdr_bytes ?h) = ?h" by simp_all
  define new where "new = Ehdr_bytes ?h @ drop 64 bs"
  have same: "drop m new = drop m bs" if "64 \<le> m" for m using that E(1) by (simp add: new_def)
  have L: "length new = length bs" using E(1) long by (simp add: new_def)
  have "LoadHeader new = Inr ?h" using LoadHeader_long [of new] E long len L by (simp add: new_def)
  moreover have "section_at new ?h names i (snd (tab ! i)) (fst (tab ! i))" if "i < length tab" for i
    using sec that same [OF at [OF that]] L by (simp add: section_at_def section_offset_def)
  moreover have "ValidateElfHeader ?h = ValidateElfHeader h" "ValidateElfHeaderSafety ?h n = ValidateElfHeaderSafety h n" for n
    by (simp_all add: ValidateElfHeader_def ValidateElfHeaderSafety_def)
  ultimately have "elf_image new ?h tab names"
    using assms(1) same [OF assms(3)] by (simp add: elf_image_def L Let_def)
  then show ?thesis by (simp add: new_def)
qed

lemma elf_image_head:
  assumes "elf_image bs h tab names"
  shows "64 \<le> length bs" and "length (e_ident h) = 16" and "LoadHeader bs = Inr h"
proof -
  have l: "LoadHeader bs = Inr h" and n: "length bs < 2 ^ 63" using assms by (simp_all add: elf_image_def)
  show long: "64 \<le> length bs"
  proof (rule ccontr)
    assume "\<not> 64 \<le> length bs"
    then show False
      using l n by (auto simp: LoadHeader_def ReadValueFromBuffer_def copy_from_def word_less_nat_alt unat_of_nat split: if_splits)
  qed
  have "h = Ehdr_of_bytes (take 64 bs)" using LoadHeader_long [OF long n] l by simp
  then show "length (e_ident h) = 16" using long by (simp add: Ehdr_of_bytes_def)
  show "LoadHeader bs = Inr h" by (rule l)
qed

text \<open>The flags of a saved image: those of the kernel type when they were the default ones, on a device of the A2 series.\<close>

definition expected_flags :: "string \<Rightarrow> u32 \<Rightarrow> u32 \<Rightarrow> u32" where
  "expected_flags soc magic flags =
     (if flags \<noteq> FLAG_DEFAULT_VALUE \<or> \<not> IsA2Version soc then flags
      else if magic = RT_DEV_BINARY_MAGIC_ELF_AIVEC then FLAG_A2_AIV
      else if magic = RT_DEV_BINARY_MAGIC_ELF_AICUBE \<or> magic = RT_DEV_BINARY_MAGIC_ELF then FLAG_A2_AIC
      else flags)"

text \<open>
  C34: When saving the binary of a registration succeeds and its image is well-formed with its section table and its section
  names behind the header, the file that was written is an image with the same sections, the same bytes behind the header and
  the same header, but for the flags: on a device of the A2 series the default flags of a vector, cube or mixed kernel are
  replaced by those of its kind. On other devices, for other kinds and for other flags the file is the image as it was.
\<close>

theorem saved_image_sections:
  assumes "reg_Save env outputPath c fs = Some (True, fs1)" and "elf_image (rc_elfData c) h tab names"
    and "64 \<le> unat (e_shoff h)" and "64 \<le> unat (sh_offset (snd (tab ! unat (e_shstrndx h))))"
  shows "\<exists>image real fs0. CheckWriteFilePathValid (re_os env) outputPath fs = Some real \<and>
    os_write (re_os env) real image fs0 = (True, fs1) \<and> FromBuffer image = FromBuffer (rc_elfData c) \<and>
    LoadHeader image = Inr (h\<lparr>e_flags := expected_flags (re_soc env) (rp_magic (rc_param c)) (e_flags h)\<rparr>) \<and>
    drop 64 image = drop 64 (rc_elfData c) \<and>
    (expected_flags (re_soc env) (rp_magic (rc_param c)) (e_flags h) = e_flags h \<longrightarrow> image = rc_elfData c)"
proof -
  let ?bs = "rc_elfData c" and ?soc = "re_soc env" and ?magic = "rp_magic (rc_param c)"
  let ?image = "saved_image ?soc ?magic h ?bs"
  note head = elf_image_head [OF assms(2)] and img = elf_image_flags [OF assms(2-4), of "GetFlagByMagic ?soc ?magic"]
  have w: "fst (WriteBinary (re_os env) outputPath ?image fs) = length ?image" "snd (WriteBinary (re_os env) outputPath ?image fs) = fs1"
    using assms(1) by (auto simp: reg_Save_def head(3) Let_def split: prod.splits)
  have len: "64 \<le> length ?image" using head(1,2) by (simp add: saved_image_def)
  obtain real fs0 where written: "CheckWriteFilePathValid (re_os env) outputPath fs = Some real" "os_write (re_os env) real ?image fs0 = (True, fs1)"
    using w len by (auto simp: WriteBinary_def Let_def split: option.splits prod.splits if_splits)
  have "FromBuffer ?image = FromBuffer ?bs"
    using FromBuffer_exact [OF img] FromBuffer_exact [OF assms(2)] by (simp add: saved_image_def)
  moreover have "LoadHeader (Ehdr_bytes (h\<lparr>e_flags := GetFlagByMagic ?soc ?magic\<rparr>) @ drop 64 ?bs) =
      Inr (h\<lparr>e_flags := GetFlagByMagic ?soc ?magic\<rparr>)"
    by (rule elf_image_head(3) [OF img])
  then have "LoadHeader ?image = Inr (h\<lparr>e_flags := expected_flags ?soc ?magic (e_flags h)\<rparr>)"
    using head(3) by (auto simp: saved_image_def expected_flags_def GetFlagByMagic_def FLAG_A2_AIV_def FLAG_A2_AIC_def)
  moreover have "drop 64 ?image = drop 64 ?bs" using head(2) by (simp add: saved_image_def)
  moreover have "?image = ?bs" if "expected_flags ?soc ?magic (e_flags h) = e_flags h"
    using that by (auto simp: saved_image_def expected_flags_def GetFlagByMagic_def FLAG_A2_AIV_def FLAG_A2_AIC_def
        FLAG_DEFAULT_VALUE_def split: if_splits)
  ultimately show ?thesis using written by blast
qed

text \<open>An image with a name section and the meta data of the kernel \<open>k\<close>.\<close>

definition meta_ehdr :: Elf64_Ehdr where
  "meta_ehdr = demo_ehdr\<lparr>e_shnum := 2, e_flags := FLAG_DEFAULT_VALUE\<rparr>"

definition names_shdr :: Elf64_Shdr where
  "names_shdr = demo_shdr\<lparr>sh_offset := 192, sh_size := 18\<rparr>"

definition meta_shdr :: Elf64_Shdr where
  "meta_shdr = demo_shdr\<lparr>sh_name := 2, sh_offset := 210, sh_size := 24\<rparr>"

definition meta_names :: "u8 list" where
  "meta_names = bytes_of_str ''n'' @ [0] @ bytes_of_str ''.ascend.meta.k'' @ [0, 0]"

definition meta_args :: "meta_arg list" where
  "meta_args = [\<lparr>ma_type = INPUT_TENSOR, ma_length = 4096, ma_words = 0, ma_rest = []\<rparr>]"

definition meta_elf :: "u8 list" where
  "meta_elf = Ehdr_bytes meta_ehdr @ Shdr_bytes names_shdr @ Shdr_bytes meta_shdr @ meta_names @ dfx_block meta_args"

lemma c_string_after: "0 \<notin> set (bytes_of_str t) \<Longrightarrow> c_string_at (pre @ bytes_of_str t @ 0 # post) (length pre) = Inr t"
proof -
  assume "0 \<notin> set (bytes_of_str t)"
  then have "takeWhile (\<lambda>b. b \<noteq> 0) (bytes_of_str t @ 0 # post) = bytes_of_str t"
    by (subst takeWhile_append2) (auto intro: ccontr)
  then show ?thesis by (simp add: c_string_at_def)
qed

lemma meta_elf_image: "elf_image meta_elf meta_ehdr [(''n'', names_shdr), (''.ascend.meta.k'', meta_shdr)] meta_names"
proof -
  have i: "length (e_ident meta_ehdr) = 16" by (simp add: meta_ehdr_def demo_ehdr_def)
  have n: "length meta_names = 18" by (simp add: meta_names_def)
  have b: "length (dfx_block meta_args) = 24"
    by (simp add: dfx_block_def meta_args_def arg_bytes_def be16_bytes_def Let_def)
  have l: "length meta_elf = 234" using i n b by (simp add: meta_elf_def)
  have h: "LoadHeader meta_elf = Inr meta_ehdr"
    using LoadHeader_long [of meta_elf] l i by (simp add: meta_elf_def)
  have off: "unat (section_offset meta_ehdr 0) = 64" "unat (section_offset meta_ehdr 1) = 128"
    by (simp_all add: section_offset_def meta_ehdr_def demo_ehdr_def)
  have t: "take 64 (drop 64 meta_elf) = Shdr_bytes names_shdr" "take 64 (drop 128 meta_elf) = Shdr_bytes meta_shdr"
    using i by (simp_all add: meta_elf_def)
  have "0 \<notin> set (bytes_of_str ''n'')" "0 \<notin> set (bytes_of_str ''.ascend.meta.k'')" by (simp_all add: bytes_of_str_def)
  then have s: "c_string_at meta_names 0 = Inr ''n''" "c_string_at meta_names 2 = Inr ''.ascend.meta.k''"
    using c_string_after [of "''n''" "[]" "bytes_of_str ''.ascend.meta.k'' @ [0, 0]"]
      c_string_after [of "''.ascend.meta.k''" "bytes_of_str ''n'' @ [0]" "[0]"]
    by (simp_all add: meta_names_def numeral_2_eq_2)
  have f: "unat (sh_name names_shdr) = 0" "unat (sh_name meta_shdr) = 2" "unat (sh_offset names_shdr) = 192"
    "unat (sh_size names_shdr) = 18" "unat (e_shnum meta_ehdr) = 2" "unat (e_shstrndx meta_ehdr) = 0" "unat (e_shoff meta_ehdr) = 64"
    by (simp_all add: names_shdr_def meta_shdr_def demo_shdr_def meta_ehdr_def demo_ehdr_def)
  have nm: "take 18 (drop 192 meta_elf) = meta_names" using i n by (simp add: meta_elf_def)
  have v: "ValidateElfHeader meta_ehdr" "ValidateElfHeaderSafety meta_ehdr (vsize meta_elf)"
    by (simp_all add: ValidateElfHeader_def ValidateElfHeaderSafety_def l) (simp_all add: meta_ehdr_def demo_ehdr_def)
  have "\<forall>i < 2. section_at meta_elf meta_ehdr meta_names i
      (snd ([(''n'', names_shdr), (''.ascend.meta.k'', meta_shdr)] ! i)) (fst ([(''n'', names_shdr), (''.ascend.meta.k'', meta_shdr)] ! i))"
    using off t s f l by (auto simp: section_at_def less_2_cases_iff)
  then show ?thesis using h v f l nm by (simp add: elf_image_def numeral_2_eq_2 [symmetric])
qed

definition meta_context :: register_context where
  "meta_context = new_register_context\<lparr>rc_elfData := meta_elf\<rparr>"

theorem metadata_from_image_witness:
  "ParseMetaData demo_reg_env meta_context ''k'' empty_OpMemInfo =
     Done (True, empty_OpMemInfo\<lparr>om_inputs := [\<lparr>ai_addr = 0, ai_length = 4096, ai_src = EXTRA, ai_desc = INPUT, ai_paramsNo = 1\<rparr>]\<rparr>)"
proof -
  have e: "rc_elfData meta_context = meta_elf" by (simp add: meta_context_def)
  have i: "length (e_ident meta_ehdr) = 16" by (simp add: meta_ehdr_def demo_ehdr_def)
  have b: "length (dfx_block meta_args) = 24"
    by (simp add: dfx_block_def meta_args_def arg_bytes_def be16_bytes_def Let_def)
  have m: "meta_section (rc_elfData meta_context) meta_shdr (dfx_block meta_args)"
    unfolding e using i b by (simp add: meta_section_def meta_elf_def meta_names_def meta_shdr_def)
  have d: "distinct (map fst [(''n'', names_shdr), (''.ascend.meta.k'', meta_shdr)])" by simp
  have k: "(''.ascend.meta.'' @ ''k'', meta_shdr) \<in> set [(''n'', names_shdr), (''.ascend.meta.k'', meta_shdr)]" by simp
  have a: "\<forall>a \<in> set meta_args. tensor_arg a" "meta_args \<noteq> []" "length (concat (map arg_bytes meta_args)) < 65536"
    by (simp_all add: meta_args_def tensor_arg_def arg_bytes_def be16_bytes_def)
  have "inputs_from 0 meta_args =
      [\<lparr>ai_addr = 0, ai_length = 4096, ai_src = EXTRA, ai_desc = INPUT, ai_paramsNo = 1\<rparr>]"
    by (simp add: meta_args_def)
  then show ?thesis
    using metadata_from_image [OF _ d k m a, of meta_ehdr meta_names demo_reg_env empty_OpMemInfo] meta_elf_image by (simp add: e)
qed

definition saved_context :: register_context where
  "saved_context = meta_context\<lparr>rc_param := (rc_param meta_context)\<lparr>rp_magic := RT_DEV_BINARY_MAGIC_ELF_AIVEC\<rparr>\<rparr>"

theorem saved_image_sections_witness:
  "\<exists>image real fs0. os_write demo_os real image fs0 = (True, []) \<and> FromBuffer image = FromBuffer meta_elf \<and>
     LoadHeader image = Inr (meta_ehdr\<lparr>e_flags := FLAG_A2_AIV\<rparr>)"
proof -
  have e: "rc_elfData saved_context = meta_elf" "rp_magic (rc_param saved_context) = RT_DEV_BINARY_MAGIC_ELF_AIVEC"
    "re_soc demo_reg_env = ''Ascend910B1''" "re_os demo_reg_env = demo_os" "e_flags meta_ehdr = FLAG_DEFAULT_VALUE"
    by (simp_all add: saved_context_def meta_context_def demo_reg_env_def meta_ehdr_def)
  have "CheckWriteFilePathValid demo_os ''/tmp/k.o'' [] \<noteq> None"
    by (simp add: CheckWriteFilePathValid_def RollbackPath_def GetLastFile_def last_sep_def Realpath_def Let_def) (simp add: demo_os_def)
  then have "WriteBinary demo_os ''/tmp/k.o'' bs [] = (length bs, [])" for bs
    by (auto simp: WriteBinary_def) (simp add: demo_os_def)
  then have r: "reg_Save demo_reg_env ''/tmp/k.o'' saved_context [] = Some (True, [])"
    by (simp add: reg_Save_def e elf_image_head(3) [OF meta_elf_image] Let_def)
  have x: "expected_flags ''Ascend910B1'' RT_DEV_BINARY_MAGIC_ELF_AIVEC FLAG_DEFAULT_VALUE = FLAG_A2_AIV"
    by (simp add: expected_flags_def IsA2Version_def str_contains_def)
  have o: "64 \<le> unat (e_shoff meta_ehdr)"
    "64 \<le> unat (sh_offset (snd ([(''n'', names_shdr), (''.ascend.meta.k'', meta_shdr)] ! unat (e_shstrndx meta_ehdr))))"
    by (simp_all add: meta_ehdr_def demo_ehdr_def names_shdr_def)
  from saved_image_sections [OF r meta_elf_image [folded e(1)] o] show ?thesis unfolding e x by blast
qed

section \<open>Kernels by tiling key\<close>

text \<open>A symbol of a kernel with tiling keys: its base name, the key, and the tail of a kernel of two core types.\<close>

definition keyed_symbol :: "string \<times> nat \<times> string \<Rightarrow> string" where
  "keyed_symbol = (\<lambda>(b, k, t). b @ ''_'' @ to_string k @ t)"

definition wf_tail :: "string \<Rightarrow> bool" where
  "wf_tail t \<longleftrightarrow> t \<in> {[], MIX_AIC_TAIL, MIX_AIV_TAIL}"

lemma EndsWith_ex: "EndsWith x y \<longleftrightarrow> (\<exists>p. x = p @ y)"
proof
  assume e: "EndsWith x y"
  then have "take (length y) (drop (length x - length y) x) = y" "length y \<le> length x"
    by (simp_all add: EndsWith_def split: if_splits)
  then have "x = take (length x - length y) x @ y" by (metis append_take_drop_id diff_diff_cancel length_drop order_refl take_all)
  then show "\<exists>p. x = p @ y" by blast
qed (auto simp: EndsWith_def)

lemma key_split:
  assumes "b @ ''_'' @ ds = p @ ''_'' @ ds'" and "CHR ''_'' \<notin> set ds" and "CHR ''_'' \<notin> set ds'"
  shows "ds = ds'"
proof -
  have tw: "takeWhile (\<lambda>c. c \<noteq> CHR ''_'') (rev xs @ CHR ''_'' # r) = rev xs" if "CHR ''_'' \<notin> set xs" for xs r :: string
    using that by (subst takeWhile_append2) auto
  have "rev ds @ CHR ''_'' # rev b = rev ds' @ CHR ''_'' # rev p" using arg_cong [OF assms(1), of rev] by simp
  then have "rev ds = rev ds'" using tw [OF assms(2), of "rev b"] tw [OF assms(3), of "rev p"] by simp
  then show ?thesis by simp
qed

lemma to_string_no_underscore: "CHR ''_'' \<notin> set (to_string n)"
  using to_string_digits [of n] by (auto simp: list_all_iff is_digit_def)

lemma to_string_last_digit: "is_digit (last (to_string n))"
  using to_string_digits [of n] last_in_set [OF to_string_nonempty] by (auto simp: list_all_iff)

lemma EndsWith_keyed:
  assumes "wf_tail t" and "wf_tail t'"
  shows "EndsWith (keyed_symbol (b, k, t)) (''_'' @ to_string k' @ t') \<longleftrightarrow> k = k' \<and> t = t'"
proof
  assume "EndsWith (keyed_symbol (b, k, t)) (''_'' @ to_string k' @ t')"
  then obtain p where e: "b @ ''_'' @ to_string k @ t = p @ ''_'' @ to_string k' @ t'"
    by (auto simp: EndsWith_ex keyed_symbol_def)
  have "last (b @ ''_'' @ to_string k @ t) = last (p @ ''_'' @ to_string k' @ t')" by (simp only: e)
  then have "(if t = [] then last (to_string k) else last t) = (if t' = [] then last (to_string k') else last t')"
    by (auto simp: last_append)
  moreover have "\<not> is_digit CHR ''c''" "\<not> is_digit CHR ''v''" by (simp_all add: is_digit_def)
  then have "last (to_string n) \<noteq> CHR ''c''" "last (to_string n) \<noteq> CHR ''v''" for n
    using to_string_last_digit [of n] by metis+
  ultimately have t: "t = t'"
    using assms by (auto simp: wf_tail_def MIX_AIC_TAIL_def MIX_AIV_TAIL_def split: if_splits)
      (metis (no_types))+
  then have "b @ ''_'' @ to_string k = p @ ''_'' @ to_string k'" using e by (metis append.assoc append_same_eq)
  then have "to_string k = to_string k'" by (rule key_split [OF _ to_string_no_underscore to_string_no_underscore])
  with t show "k = k' \<and> t = t'" using to_string_inj by blast
qed (auto simp: EndsWith_ex keyed_symbol_def)

lemma keyed_symbol_matches:
  assumes "wf_tail t"
  shows "list_ex (EndsWith (keyed_symbol (b, k, t))) (key_suffixes tilingKey) \<longleftrightarrow> k = unat tilingKey"
proof -
  have w: "wf_tail []" "wf_tail MIX_AIC_TAIL" "wf_tail MIX_AIV_TAIL" by (simp_all add: wf_tail_def)
  show ?thesis
    using EndsWith_keyed [OF assms w(1), of b k "unat tilingKey"] EndsWith_keyed [OF assms w(2), of b k "unat tilingKey"]
      EndsWith_keyed [OF assms w(3), of b k "unat tilingKey"] assms
    by (auto simp: key_suffixes_def wf_tail_def)
qed

lemma find_map_cong: "(\<And>x. x \<in> set xs \<Longrightarrow> P (f x) = Q x) \<Longrightarrow> find P (map f xs) = map_option f (find Q xs)"
  by (induction xs) auto

text \<open>
  A kernel found by its tiling key is the first symbol of that key: a key that ends in the same digits, or the tail
  of a kernel of two core types, is never taken for it.
\<close>

lemma kernel_name_of_key:
  assumes "map fst (rc_symbols c) = map keyed_symbol ks" and "\<forall>(b, k, t) \<in> set ks. wf_tail t"
  shows "reg_GetKernelName c tilingKey =
    (case find (\<lambda>(b, k, t). k = unat tilingKey) ks of None \<Rightarrow> [] | Some x \<Rightarrow> keyed_symbol x)"
proof -
  have "find (\<lambda>name. list_ex (EndsWith name) (key_suffixes tilingKey)) (map keyed_symbol ks) =
      map_option keyed_symbol (find (\<lambda>(b, k, t). k = unat tilingKey) ks)"
    by (rule find_map_cong) (use assms(2) keyed_symbol_matches in auto)
  then show ?thesis by (simp add: reg_GetKernelName_def assms(1) split: option.splits)
qed

end
