(* ===== verification/Launches.thy ===== *)
theory Launches
  imports Registration SavedLaunch
begin

text \<open>
  Functions and launches: \<open>FuncContext\<close> with its two kinds, \<open>FuncManager\<close>, \<open>LaunchContext\<close> and \<open>LaunchManager\<close>
  (\<open>csrc/runtime/inject_helpers\<close>). A launch context ties a function of a registered binary to its arguments; saving it
  writes the image, the inputs and the configuration the launcher reads.
\<close>

section \<open>Functions\<close>

text \<open>The queries of the runtime: the two entry addresses, the type attribute, and the handle by name or by entry.\<close>

record func_api =
  fa_functionAddr :: "ptr \<Rightarrow> (u64 \<times> u64) option"
  fa_functionType :: "ptr \<Rightarrow> int option"
  fa_getFunction :: "ptr \<Rightarrow> string \<Rightarrow> ptr option"
  fa_getFunctionByEntry :: "ptr \<Rightarrow> u64 \<Rightarrow> ptr option"

datatype func_kind = StubFunc | TilingFunc u64

record func_context =
  fn_handle :: ptr
  fn_reg :: register_context
  fn_kernelName :: string
  fn_kind :: func_kind

definition new_StubFuncContext :: "register_context \<Rightarrow> string \<Rightarrow> ptr \<Rightarrow> func_context" where
  "new_StubFuncContext reg kernelName h =
     \<lparr>fn_handle = h, fn_reg = reg, fn_kernelName = kernelName, fn_kind = StubFunc\<rparr>"

definition new_TilingFuncContext :: "register_context \<Rightarrow> u64 \<Rightarrow> ptr \<Rightarrow> func_context" where
  "new_TilingFuncContext reg funcEntry h =
     \<lparr>fn_handle = h, fn_reg = reg, fn_kernelName = reg_GetKernelName reg funcEntry, fn_kind = TilingFunc funcEntry\<rparr>"

definition GetTilingKey :: "func_context \<Rightarrow> u64 option" where
  "GetTilingKey f = (case fn_kind f of StubFunc \<Rightarrow> None | TilingFunc k \<Rightarrow> Some k)"

definition base_GetKernelPC :: "func_api \<Rightarrow> func_context \<Rightarrow> u64" where
  "base_GetKernelPC api f =
     (case fa_functionAddr api (fn_handle f) of
        None \<Rightarrow> 0
      | Some (aicAddr, aivAddr) \<Rightarrow> if aicAddr \<noteq> 0 then aicAddr else if aivAddr \<noteq> 0 then aivAddr else 0)"

text \<open>Both kinds override it in the same way.\<close>

definition GetKernelPC :: "func_api \<Rightarrow> func_context \<Rightarrow> u64" where
  "GetKernelPC api f = (if fn_handle f \<noteq> 0 then base_GetKernelPC api f else 0)"

definition base_GetStartPC :: "func_api \<Rightarrow> func_context \<Rightarrow> u64" where
  "base_GetStartPC api f =
     (let pcStartAddr = GetKernelPC api f in
      if pcStartAddr = 0 then pcStartAddr
      else let kernelOffset = GetKernelOffsetByName (fn_reg f) (fn_kernelName f)
           in if pcStartAddr < kernelOffset then 0 else pcStartAddr - kernelOffset)"

definition GetStartPC :: "func_api \<Rightarrow> func_context \<Rightarrow> u64" where
  "GetStartPC api f = (if fn_handle f \<noteq> 0 then base_GetStartPC api f else 0)"

definition AclrtKernelTypeTrans :: "int \<Rightarrow> KernelType" where
  "AclrtKernelTypeTrans t =
     (if t = 0 \<or> t = 3 then MIX else if t = 2 then AIVEC else if t = 1 then AICUBE else if t = 100 then AICPU else AIVEC)"

definition GetKernelTypeFromRuntime :: "func_api \<Rightarrow> func_context \<Rightarrow> KernelType" where
  "GetKernelTypeFromRuntime api f =
     (case fa_functionType api (fn_handle f) of None \<Rightarrow> INVALID | Some v \<Rightarrow> AclrtKernelTypeTrans v)"

definition GetKernelType :: "func_api \<Rightarrow> func_context \<Rightarrow> KernelType" where
  "GetKernelType api f =
     (let kernelType = MagicToKernelType (rp_magic (rc_param (fn_reg f))) in
      if kernelType \<noteq> MIX then kernelType
      else let t = GetKernelTypeFromRuntime api f in if t = INVALID then AICUBE else t)"

definition func_Clone :: "func_api \<Rightarrow> register_context \<Rightarrow> func_context \<Rightarrow> func_context option" where
  "func_Clone api reg f =
     (if fn_handle f = 0 then None
      else case fn_kind f of
        StubFunc \<Rightarrow>
          map_option (new_StubFuncContext reg (fn_kernelName f)) (fa_getFunction api (rc_hdl reg) (fn_kernelName f))
      | TilingFunc key \<Rightarrow>
          map_option (new_TilingFuncContext reg key) (fa_getFunctionByEntry api (rc_hdl reg) key))"

record func_manager =
  fm_contexts :: "(ptr \<times> func_context) list"
  fm_fakeFuncHandleTable :: "((ptr \<times> u64) \<times> ptr) list"

definition new_func_manager :: func_manager where
  "new_func_manager = \<lparr>fm_contexts = [], fm_fakeFuncHandleTable = []\<rparr>"

definition CreateContext_stub ::
  "register_manager \<Rightarrow> ptr \<Rightarrow> string \<Rightarrow> ptr \<Rightarrow> func_manager \<Rightarrow> func_context option \<times> func_manager" where
  "CreateContext_stub gm binHandle kernelName funcHandle fm =
     (case gm_GetContext binHandle gm of
        None \<Rightarrow> (None, fm)
      | Some reg \<Rightarrow>
          let f = new_StubFuncContext reg kernelName funcHandle
          in (Some f, fm\<lparr>fm_contexts := omap_put funcHandle f (fm_contexts fm)\<rparr>))"

definition CreateContext_entry ::
  "register_manager \<Rightarrow> ptr \<Rightarrow> u64 \<Rightarrow> ptr \<Rightarrow> func_manager \<Rightarrow> func_context option \<times> func_manager" where
  "CreateContext_entry gm binHandle funcEntry funcHandle fm =
     (case gm_GetContext binHandle gm of
        None \<Rightarrow> (None, fm)
      | Some reg \<Rightarrow>
          let f = new_TilingFuncContext reg funcEntry funcHandle
          in (Some f, fm\<lparr>fm_contexts := omap_put funcHandle f (fm_contexts fm)\<rparr>))"

definition fm_GetContext :: "ptr \<Rightarrow> func_manager \<Rightarrow> func_context option" where
  "fm_GetContext funcHandle fm = map_of (fm_contexts fm) funcHandle"

definition fm_GetContext_entry :: "ptr \<Rightarrow> u64 \<Rightarrow> func_manager \<Rightarrow> func_context option" where
  "fm_GetContext_entry binHandle funcEntry fm =
     (case map_of (fm_fakeFuncHandleTable fm) (binHandle, funcEntry) of
        None \<Rightarrow> None | Some h \<Rightarrow> map_of (fm_contexts fm) h)"

section \<open>Launches\<close>

text \<open>A configuration is the first attribute behind its pointer, if there is one.\<close>

record launch_attr =
  at_id :: u32
  at_localMemorySize :: u32

type_synonym launch_cfg = "launch_attr option"

record LaunchParam =
  lp_blockDim :: u32
  lp_stream :: ptr
  lp_isSink :: bool
  lp_launchId :: nat
  lp_cfg :: "launch_cfg option"

text \<open>The arguments are shared with their manager: \<open>lc_args\<close> says which object they are.\<close>

record launch_context =
  lc_func :: func_context
  lc_args :: nat
  lc_param :: LaunchParam

record StreamInfo =
  si_binded :: bool
  si_subscribed :: bool

record launch_manager =
  lm_contexts :: "launch_context list"
  lm_memInfo :: OpMemInfo
  lm_history :: "OpMemInfo list"
  lm_simtUb :: u32

type_synonym stream_infos = "(ptr \<times> StreamInfo) list"

definition new_launch_manager :: launch_manager where
  "new_launch_manager = \<lparr>lm_contexts = [], lm_memInfo = empty_OpMemInfo, lm_history = [], lm_simtUb = 0\<rparr>"

text \<open>One manager for each device.\<close>

definition lm_Local :: "int \<Rightarrow> (int \<times> launch_manager) list \<Rightarrow> launch_manager" where
  "lm_Local deviceId insts = (case map_of insts deviceId of None \<Rightarrow> new_launch_manager | Some lm \<Rightarrow> lm)"

definition GetOrCreateStreamInfo :: "ptr \<Rightarrow> stream_infos \<Rightarrow> StreamInfo \<times> stream_infos" where
  "GetOrCreateStreamInfo stm infos =
     (let i = (case map_of infos stm of None \<Rightarrow> \<lparr>si_binded = False, si_subscribed = False\<rparr> | Some i \<Rightarrow> i)
      in (i, omap_put stm i infos))"

definition ArchiveMemInfo :: "launch_manager \<Rightarrow> launch_manager" where
  "ArchiveMemInfo lm = lm\<lparr>lm_history := lm_history lm @ [lm_memInfo lm]\<rparr>"

definition simt_size :: "launch_cfg option \<Rightarrow> u32" where
  "simt_size cfg = (case cfg of Some (Some a) \<Rightarrow> at_localMemorySize a | _ \<Rightarrow> 0)"

text \<open>With the arguments looked up: the function and the arguments must both be known.\<close>

definition CreateContext_launch ::
  "bool \<Rightarrow> func_manager \<Rightarrow> ptr \<Rightarrow> u32 \<Rightarrow> ptr \<Rightarrow> launch_cfg option \<Rightarrow> nat option \<Rightarrow> stream_infos \<times> launch_manager \<Rightarrow>
   launch_context option \<times> stream_infos \<times> launch_manager" where
  "CreateContext_launch isSanitizer fm funcHandle blockDim stream cfg argsCtx st =
     (let (infos, lm) = st;
          (info, infos1) = GetOrCreateStreamInfo stream infos;
          param = \<lparr>lp_blockDim = blockDim, lp_stream = stream, lp_isSink = si_binded info,
                   lp_launchId = length (lm_contexts lm), lp_cfg = cfg\<rparr>
      in case (argsCtx, fm_GetContext funcHandle fm) of
           (Some a, Some f) \<Rightarrow>
             let c = \<lparr>lc_func = f, lc_args = a, lc_param = param\<rparr>;
                 lm1 = lm\<lparr>lm_contexts := lm_contexts lm @ [c]\<rparr>
             in (Some c, infos1, if isSanitizer then lm1\<lparr>lm_simtUb := simt_size cfg\<rparr> else lm1)
         | _ \<Rightarrow> (None, infos1, lm))"

definition CreateContext_launch_handle ::
  "(ptr \<Rightarrow> nat option) \<Rightarrow> bool \<Rightarrow> func_manager \<Rightarrow> ptr \<Rightarrow> u32 \<Rightarrow> ptr \<Rightarrow> launch_cfg option \<Rightarrow> ptr \<Rightarrow>
   stream_infos \<times> launch_manager \<Rightarrow> launch_context option \<times> stream_infos \<times> launch_manager" where
  "CreateContext_launch_handle argsOf isSanitizer fm funcHandle blockDim stream cfg argsHandle st =
     CreateContext_launch isSanitizer fm funcHandle blockDim stream cfg (argsOf argsHandle) st"

definition lm_GetContext :: "nat \<Rightarrow> launch_manager \<Rightarrow> launch_context option" where
  "lm_GetContext launchId lm =
     (if launchId \<ge> length (lm_contexts lm) then None else Some (lm_contexts lm ! launchId))"

definition lm_GetLastContext :: "launch_manager \<Rightarrow> launch_context option" where
  "lm_GetLastContext lm = (if lm_contexts lm = [] then None else Some (last (lm_contexts lm)))"

section \<open>Saving a launch\<close>

definition KERNEL_CONFIG_NAME :: string where "KERNEL_CONFIG_NAME = ''kernel_config.bin''"
definition KERNEL_BIN_NAME :: string where "KERNEL_BIN_NAME = ''aicore_binary.o''"

definition empty_DumperContext :: DumperContext where
  "empty_DumperContext =
     \<lparr>dc_binPath = [], dc_blockDim = 0, dc_visibleDevId = 0, dc_devId = 0, dc_isFFTS = False, dc_inputPathList = [],
      dc_inputSizeList = [], dc_kernelName = [], dc_magic = 0, dc_tilingDataPath = [], dc_tilingDataSize = 0,
      dc_tilingKey = 0, dc_hasTilingKey = False, dc_isAclNew = False\<rparr>"

text \<open>The arguments' own part, and the text of a JSON object.\<close>

record ('f, 'd) save_env =
  se_reg :: "'f reg_env"
  se_args :: "'d args_api"
  se_dump :: dump_env
  se_json :: "json_object \<Rightarrow> u8 list"
  se_devId :: int
  se_visibleDevId :: int

definition DumpConfig :: "('f, 'd) save_env \<Rightarrow> string \<Rightarrow> DumperContext \<Rightarrow> 'f \<Rightarrow> bool \<times> 'f" where
  "DumpConfig env outputDir config fs =
     (let (ok, j) = ToJson config [] in
      if \<not> ok then (False, fs)
      else let content = se_json env j;
               (written, fs1) = WriteBinary (re_os (se_reg env)) (JoinPath [outputDir, KERNEL_CONFIG_NAME]) content fs
           in (written = length content, fs1))"

definition args_Save ::
  "('f, 'd) save_env \<Rightarrow> string \<Rightarrow> OpMemInfo \<Rightarrow> DumperContext \<Rightarrow> args_context \<Rightarrow> 'd \<Rightarrow>
   ((bool \<times> OpMemInfo \<times> DumperContext) \<times> 'd) option" where
  "args_Save env outputPath om config args d =
     (case args of
        RawContext c \<Rightarrow> raw_Save (se_args env) (se_dump env) outputPath om config (c, d)
      | HandleContext c \<Rightarrow> Some (handle_Save (se_dump env) outputPath om config c, d))"

definition args_GetTilingData :: "args_context \<Rightarrow> u8 list \<Rightarrow> (bool \<times> u8 list) option" where
  "args_GetTilingData args data =
     (case args of
        RawContext c \<Rightarrow> raw_GetTilingData c data
      | HandleContext c \<Rightarrow> Some (case handle_GetTilingData c of None \<Rightarrow> (False, data) | Some t \<Rightarrow> (True, t)))"

text \<open>The configuration of a launch, from what the arguments put there.\<close>

definition launch_config :: "('f, 'd) save_env \<Rightarrow> string \<Rightarrow> launch_context \<Rightarrow> OpMemInfo \<Rightarrow> DumperContext \<Rightarrow> DumperContext" where
  "launch_config env outputPath lc om config =
     (let f = lc_func lc in
      config\<lparr>dc_isFFTS := om_isFFTS om, dc_magic := rp_magic (rc_param (fn_reg f)), dc_blockDim := lp_blockDim (lc_param lc),
        dc_kernelName := RemoveSuffix (fn_kernelName f) [MIX_AIC_TAIL, MIX_AIV_TAIL],
        dc_tilingKey := (case GetTilingKey f of None \<Rightarrow> 0 | Some k \<Rightarrow> k),
        dc_binPath := JoinPath [outputPath, KERNEL_BIN_NAME], dc_hasTilingKey := (GetTilingKey f \<noteq> None),
        dc_devId := se_devId env, dc_visibleDevId := se_visibleDevId env, dc_isAclNew := True\<rparr>)"

definition LaunchContext_Save ::
  "('f, 'd) save_env \<Rightarrow> (nat \<Rightarrow> args_context) \<Rightarrow> string \<Rightarrow> launch_context \<Rightarrow> launch_manager \<Rightarrow> 'f \<times> 'd \<Rightarrow>
   (bool \<times> launch_manager \<times> 'f \<times> 'd) option" where
  "LaunchContext_Save env argsAt outputPath lc lm st =
     (let (fs, d) = st; launchId = lp_launchId (lc_param lc) in
      case reg_Save (se_reg env) (JoinPath [outputPath, KERNEL_BIN_NAME]) (fn_reg (lc_func lc)) fs of
        None \<Rightarrow> None
      | Some (saved, fs1) \<Rightarrow>
          if \<not> saved then Some (False, lm, fs1, d)
          else if launchId \<ge> length (lm_history lm) then Some (False, lm, fs1, d)
          else case args_Save env outputPath (lm_history lm ! launchId) empty_DumperContext (argsAt (lc_args lc)) d of
            None \<Rightarrow> None
          | Some ((ok, om, config), d1) \<Rightarrow>
              let lm1 = lm\<lparr>lm_history := (lm_history lm)[launchId := om]\<rparr> in
              if \<not> ok then Some (False, lm1, fs1, d1)
              else let (ok2, fs2) = DumpConfig env outputPath (launch_config env outputPath lc om config) fs1
                   in Some (ok2, lm1, fs2, d1))"

definition UpdateOpMemInfoByAdump ::
  "'f reg_env \<Rightarrow> (ptr \<Rightarrow> nat \<Rightarrow> u64) \<Rightarrow> args_context \<Rightarrow> launch_context \<Rightarrow> OpMemInfo \<times> args_manager \<Rightarrow>
   (OpMemInfo \<times> args_manager) outcome" where
  "UpdateOpMemInfoByAdump env mem args lc st =
     (let (om, am) = st; reg = fn_reg (lc_func lc); magic = rp_magic (rc_param reg) in
      if om_isForSetException om then Done ((SetFftsInfo (re_soc env) magic om)\<lparr>om_isForSetException := False\<rparr>, am)
      else let om1 = OpMemInfo_Clear om in
        case ParseMetaData env reg (fn_kernelName (lc_func lc)) om1 of
          Fault \<Rightarrow> Fault
        | OutOfFuel \<Rightarrow> OutOfFuel
        | Done (ok, om2) \<Rightarrow>
            if \<not> ok then Done (om2, am)
            else let om3 = SetFftsInfo (re_soc env) magic
                       (om2\<lparr>om_hasOverflowAddr := om_hasOverflowAddr om1, om_overflowAddr := om_overflowAddr om1\<rparr>)
                 in case args_GetTilingData args (replicate (unat (om_tilingDataSize om3)) 0) of
                      None \<Rightarrow> Fault
                    | Some (got, tilingData) \<Rightarrow>
                        Done (if got then UpdateInputSizeWithTilingData mem tilingData om3 am else (om3, am)))"

section \<open>Program counters\<close>

text \<open>The symbol of a kernel, under one of the names it can have.\<close>

definition names_kernel :: "string \<Rightarrow> string \<Rightarrow> bool" where
  "names_kernel kernelName s \<longleftrightarrow> s \<in> {kernelName, kernelName @ MIX_AIC_TAIL, kernelName @ MIX_AIV_TAIL}"

lemma GetKernelOffsetByName_first:
  assumes "rc_symbols c = pre @ (s, off) # post" and "names_kernel kernelName s" and "\<forall>(t, v) \<in> set pre. \<not> names_kernel kernelName t"
    and "off \<noteq> - 1"
  shows "GetKernelOffsetByName c kernelName = off"
proof -
  have p: "(\<lambda>(s, v). kernelName = s \<or> kernelName @ MIX_AIC_TAIL = s \<or> kernelName @ MIX_AIV_TAIL = s) =
      (\<lambda>x :: string \<times> u64. names_kernel kernelName (fst x))"
    by (rule ext) (auto simp: names_kernel_def)
  have "find (\<lambda>x. names_kernel kernelName (fst x)) pre = None" using assms(3) by (auto simp: find_None_iff)
  then have "find (\<lambda>x. names_kernel kernelName (fst x)) (rc_symbols c) = Some (s, off)"
    unfolding assms(1) using assms(2) by (induction pre) (auto split: if_splits)
  then show ?thesis unfolding GetKernelOffsetByName_def p using assms(4) by simp
qed

text \<open>
  When the runtime put a binary at a base address, the start the tools compute for any of its kernels is that base:
  the entry address less the offset of the kernel's symbol.
\<close>

lemma start_pc_is_base:
  assumes "fn_handle f \<noteq> 0" and "fa_functionAddr api (fn_handle f) = Some (aicAddr, aivAddr)"
    and "(if aicAddr \<noteq> 0 then aicAddr else aivAddr) = base + off" and "no_wrap base off" and "base + off \<noteq> 0"
    and "rc_symbols (fn_reg f) = pre @ (s, off) # post" and "names_kernel (fn_kernelName f) s"
    and "\<forall>(t, v) \<in> set pre. \<not> names_kernel (fn_kernelName f) t" and "off \<noteq> - 1"
  shows "GetStartPC api f = base"
proof -
  have "GetKernelPC api f = base + off"
    using assms(1-3,5) by (auto simp: GetKernelPC_def base_GetKernelPC_def split: if_splits)
  moreover have "\<not> base + off < off"
    using unat_add_no_wrap [OF assms(4)] by (simp add: word_less_nat_alt)
  ultimately show ?thesis
    using assms(1,5) GetKernelOffsetByName_first [OF assms(6-9)]
    by (simp add: GetStartPC_def base_GetStartPC_def Let_def)
qed

definition demo_func_api :: func_api where
  "demo_func_api = \<lparr>fa_functionAddr = \<lambda>h. Some (0, 0x1080), fa_functionType = \<lambda>h. Some 2,
     fa_getFunction = \<lambda>b n. Some 7, fa_getFunctionByEntry = \<lambda>b k. Some 7\<rparr>"

definition demo_registered :: register_context where
  "demo_registered = meta_context\<lparr>rc_symbols := [(''add_2'', 0), (''add_1_mix_aiv'', 0x80)],
     rc_param := new_RegisterParam 0 RT_DEV_BINARY_MAGIC_ELF_AIVEC None False True, rc_hdl := 5\<rparr>"

section \<open>What a saved launch holds\<close>

lemma dump_inputs_success:
  "dump_inputs env dir i its c = (True, c') \<Longrightarrow>
     c' = c\<lparr>dc_inputPathList := dc_inputPathList c @ map (input_path_for dir) (enumerate i its),
            dc_inputSizeList := dc_inputSizeList c @ map ai_length its\<rparr>"
proof (induction env dir i its c rule: dump_inputs.induct)
  case (2 env dir i it its c)
  show ?case
  proof (cases "ai_length it = 0")
    case True
    then show ?thesis using 2(1) [OF refl] 2(3) by (simp add: Let_def input_path_for_def)
  next
    case False
    then show ?thesis using 2(2) [OF refl] 2(3) by (auto simp: Let_def input_path_for_def split: if_splits option.splits)
  qed
qed simp

lemma DumpInputData_success:
  "DumpInputData env dir its c = (True, c') \<Longrightarrow> its \<noteq> [] \<and>
     c' = c\<lparr>dc_inputPathList := dc_inputPathList c @ map (input_path_for dir) (enumerate 0 its),
            dc_inputSizeList := dc_inputSizeList c @ map ai_length its\<rparr>"
  using dump_inputs_success [of env dir 0 its c c'] by (auto simp: DumpInputData_def split: if_splits)

lemma DumpTilingData_config:
  "snd (DumpTilingData env dir t c) = c\<lparr>dc_tilingDataPath := dc_tilingDataPath (snd (DumpTilingData env dir t c)),
     dc_tilingDataSize := dc_tilingDataSize (snd (DumpTilingData env dir t c))\<rparr>"
  "dc_tilingDataPath (snd (DumpTilingData env dir t c)) \<in> {dc_tilingDataPath c, dir @ ''/input_tiling.bin''}"
  by (simp_all add: DumpTilingData_def Let_def)

text \<open>The inputs of a successful dump, with the tiling data that may come after them.\<close>

definition dumped :: "string \<Rightarrow> OpMemInfo \<Rightarrow> DumperContext \<Rightarrow> bool" where
  "dumped dir om c \<longleftrightarrow> om_inputs om \<noteq> [] \<and>
     c = (empty_DumperContext\<lparr>dc_inputPathList := map (input_path_for dir) (enumerate 0 (om_inputs om)),
            dc_inputSizeList := map ai_length (om_inputs om)\<rparr>)
         \<lparr>dc_tilingDataPath := dc_tilingDataPath c, dc_tilingDataSize := dc_tilingDataSize c\<rparr> \<and>
     dc_tilingDataPath c \<in> {[], dir @ ''/input_tiling.bin''}"

lemma dumped_inputs_only:
  "DumpInputData env dir (om_inputs om) empty_DumperContext = (True, c) \<Longrightarrow> dumped dir om c"
  using DumpInputData_success [of env dir "om_inputs om" empty_DumperContext c]
  by (simp add: dumped_def empty_DumperContext_def)

lemma dumped_tiling:
  assumes "dumped dir om c" and "dc_tilingDataPath c = []" and "DumpTilingData env dir t c = (ok, c')"
  shows "dumped dir om c'"
proof (cases "t = []")
  case True
  then show ?thesis using assms by (simp add: DumpTilingData_def)
next
  case False
  then have c': "c' = c\<lparr>dc_tilingDataPath := dir @ ''/input_tiling.bin'', dc_tilingDataSize := word_of_nat (length t)\<rparr>"
    using assms(3) by (simp add: DumpTilingData_def Let_def)
  show ?thesis using assms(1) unfolding dumped_def c' by (cases c) (simp add: empty_DumperContext_def)
qed

lemma dumped_inputs_no_tiling:
  "DumpInputData env dir (om_inputs om) empty_DumperContext = (True, c) \<Longrightarrow> dc_tilingDataPath c = []"
  using DumpInputData_success [of env dir "om_inputs om" empty_DumperContext c] by (simp add: empty_DumperContext_def)

lemma args_Save_dumped:
  assumes "args_Save env dir om empty_DumperContext args d = Some ((True, om', c), d')"
  shows "dumped dir om' c"
proof (cases args)
  case (RawContext rc)
  have save: "raw_Save (se_args env) (se_dump env) dir om empty_DumperContext (rc, d) = Some ((True, om', c), d')"
    using assms RawContext by (simp add: args_Save_def)
  then obtain its c1 where i: "DumpInputData (se_dump env) dir its empty_DumperContext = (True, c1)"
      "om' = om\<lparr>om_inputs := its\<rparr>"
      "c = c1 \<or> (\<exists>t. DumpTilingData (se_dump env) dir t c1 = (True, c))"
    by (auto simp: raw_Save_def Let_def split: option.splits if_splits prod.splits)
  then show ?thesis
    using dumped_inputs_only [of "se_dump env" dir om' c1] dumped_inputs_no_tiling [of "se_dump env" dir om' c1]
      dumped_tiling by fastforce
next
  case (HandleContext hc)
  have save: "handle_Save (se_dump env) dir om empty_DumperContext hc = (True, om', c)"
    using assms HandleContext by (simp add: args_Save_def)
  then obtain c1 where i: "DumpInputData (se_dump env) dir (om_inputs om') empty_DumperContext = (True, c1)"
      "c = c1 \<or> (\<exists>t. DumpTilingData (se_dump env) dir t c1 = (True, c))"
    by (auto simp: handle_Save_def Let_def split: option.splits if_splits prod.splits)
  then show ?thesis
    using dumped_inputs_only [OF i(1)] dumped_inputs_no_tiling [OF i(1)] dumped_tiling by fastforce
qed

lemma dumpedD:
  assumes "dumped dir om c"
  shows "dc_inputPathList c = map (input_path_for dir) (enumerate 0 (om_inputs om))"
    "dc_inputSizeList c = map ai_length (om_inputs om)" "om_inputs om \<noteq> []"
    "dc_tilingDataPath c \<in> {[], dir @ ''/input_tiling.bin''}"
proof -
  have "\<exists>tp tn. c = (empty_DumperContext\<lparr>dc_inputPathList := map (input_path_for dir) (enumerate 0 (om_inputs om)),
      dc_inputSizeList := map ai_length (om_inputs om)\<rparr>)\<lparr>dc_tilingDataPath := tp, dc_tilingDataSize := tn\<rparr>"
    using assms unfolding dumped_def by blast
  then show "dc_inputPathList c = map (input_path_for dir) (enumerate 0 (om_inputs om))"
    "dc_inputSizeList c = map ai_length (om_inputs om)" by auto
  show "om_inputs om \<noteq> []" "dc_tilingDataPath c \<in> {[], dir @ ''/input_tiling.bin''}"
    using assms unfolding dumped_def by blast+
qed

text \<open>A configuration with the inputs of a successful dump, as the launcher reads it.\<close>

lemma dumped_config_loads:
  assumes "dumped dir om c" and "fst (ToJson cfg [])"
    and "dc_inputPathList cfg = dc_inputPathList c" and "dc_inputSizeList cfg = dc_inputSizeList c"
    and "dc_tilingDataPath cfg = dc_tilingDataPath c"
    and "CheckInputStringValid (dc_kernelName cfg) FILE_NAME_LENGTH_LIMIT" and "unat (dc_blockDim cfg) < 2 ^ 31"
    and "- (2 ^ 31) \<le> dc_devId cfg" and "dc_devId cfg < 2 ^ 31" and "CHR '';'' \<notin> set dir" and "length (om_inputs om) < 2 ^ 32"
  shows "\<exists>j magic. ToJson cfg [] = (True, j) \<and> GetKernelConfig (Some j) new_parser = Parsed (launcher_config cfg magic) True \<and>
    filter (\<lambda>p. pa_type p = ''input'') (kc_params (launcher_config cfg magic)) =
      map (\<lambda>(i, it). (input_param (if ai_length it = 0 then ''n'' else input_path_of dir i))\<lparr>pa_dataSize := Some (ai_length it)\<rparr>)
        (enumerate 0 (om_inputs om))"
proof -
  have lists: "dc_inputPathList cfg = map (input_path_for dir) (enumerate 0 (om_inputs om))"
      "dc_inputSizeList cfg = map ai_length (om_inputs om)" "om_inputs om \<noteq> []"
      "dc_tilingDataPath cfg \<in> {[], dir @ ''/input_tiling.bin''}"
    using dumpedD [OF assms(1)] assms(3-5) by simp_all
  obtain magic where m: "magic_name (dc_magic cfg) = Some magic"
    using assms(2) by (auto simp: ToJson_def Let_def split: option.splits)
  have ne: "enumerate 0 (om_inputs om) \<noteq> []" using lists(3) by (metis length_0_conv length_enumerate)
  have "\<exists>j. ToJson cfg [] = (True, j) \<and> GetKernelConfig (Some j) new_parser = Parsed (launcher_config cfg magic) True"
  proof (rule recorded_launch_loads [OF m])
    show "\<forall>p \<in> set (dc_inputPathList cfg). CHR '';'' \<notin> set p"
      using input_path_no_sep [OF assms(10)] by (auto simp: lists)
    show "CHR '';'' \<notin> set (dc_tilingDataPath cfg)" using lists(4) assms(10) by auto
    show "last (dc_inputPathList cfg) \<noteq> []" using ne input_path_nonempty by (simp add: lists last_map)
    show "dc_inputPathList cfg \<noteq> []" "length (dc_inputSizeList cfg) = length (dc_inputPathList cfg)"
      "length (dc_inputPathList cfg) < 2 ^ 32" using ne assms(11) by (simp_all add: lists)
  qed (use assms(6-9) in simp_all)
  moreover have "filter (\<lambda>p. pa_type p = ''input'') (kc_params (launcher_config cfg magic)) =
      map (\<lambda>(k, it). (input_param (input_path_for dir (k, it)))\<lparr>pa_dataSize := Some (ai_length it)\<rparr>) (enumerate 0 (om_inputs om))"
    using dumped_inputs [of dir 0 "om_inputs om"] by (simp add: launcher_config_def filter_input_params lists)
  ultimately show ?thesis by (auto simp: input_path_for_def)
qed

text \<open>
  C4: What a successful \<open>LaunchContext::Save\<close> leaves in its directory is the launch: the file \<open>kernel_config.bin\<close> holds an
  object from which the launcher takes the binary next to it, the kernel without its core type, the block dimension,
  the tiling key, the device, and the inputs in order with the lengths the library knows.
\<close>

theorem saved_launch_runs:
  assumes "LaunchContext_Save env argsAt dir lc lm (fs, d) = Some (True, lm', fs', d')"
    and "CheckInputStringValid (RemoveSuffix (fn_kernelName (lc_func lc)) [MIX_AIC_TAIL, MIX_AIV_TAIL]) FILE_NAME_LENGTH_LIMIT"
    and "unat (lp_blockDim (lc_param lc)) < 2 ^ 31" and "- (2 ^ 31) \<le> se_devId env" and "se_devId env < 2 ^ 31"
    and "CHR '';'' \<notin> set dir" and "length (om_inputs (lm_history lm' ! lp_launchId (lc_param lc))) < 2 ^ 32"
  shows "\<exists>j kc fs1.
    WriteBinary (re_os (se_reg env)) (JoinPath [dir, KERNEL_CONFIG_NAME]) (se_json env j) fs1 = (length (se_json env j), fs') \<and>
    GetKernelConfig (Some j) new_parser = Parsed kc True \<and>
    kc_kernelBinaryPath kc = JoinPath [dir, KERNEL_BIN_NAME] \<and>
    kc_kernelName kc = RemoveSuffix (fn_kernelName (lc_func lc)) [MIX_AIC_TAIL, MIX_AIV_TAIL] \<and>
    kc_blockDim kc = uint (lp_blockDim (lc_param lc)) \<and> kc_deviceID kc = se_devId env \<and> \<not> kc_isOldVersion kc \<and>
    (if kc_hasTilingKey kc then Some (kc_tilingKey kc) else None) = GetTilingKey (lc_func lc) \<and>
    filter (\<lambda>p. pa_type p = ''input'') (kc_params kc) =
      map (\<lambda>(i, it). (input_param (if ai_length it = 0 then ''n'' else input_path_of dir i))\<lparr>pa_dataSize := Some (ai_length it)\<rparr>)
        (enumerate 0 (om_inputs (lm_history lm' ! lp_launchId (lc_param lc))))"
proof -
  let ?id = "lp_launchId (lc_param lc)"
  obtain fs1 om c where id: "?id < length (lm_history lm)"
    and args: "args_Save env dir (lm_history lm ! ?id) empty_DumperContext (argsAt (lc_args lc)) d = Some ((True, om, c), d')"
    and lm': "lm' = lm\<lparr>lm_history := (lm_history lm)[?id := om]\<rparr>"
    and dump: "DumpConfig env dir (launch_config env dir lc om c) fs1 = (True, fs')"
    using assms(1) by (auto simp: LaunchContext_Save_def Let_def split: option.splits prod.splits if_splits)
  have h: "lm_history lm' ! ?id = om" using lm' id by simp
  let ?cfg = "launch_config env dir lc om c"
  have json: "fst (ToJson ?cfg [])" using dump by (auto simp: DumpConfig_def Let_def split: prod.splits if_splits)
  have cfg: "dc_inputPathList ?cfg = dc_inputPathList c" "dc_inputSizeList ?cfg = dc_inputSizeList c"
      "dc_tilingDataPath ?cfg = dc_tilingDataPath c"
      "CheckInputStringValid (dc_kernelName ?cfg) FILE_NAME_LENGTH_LIMIT" "unat (dc_blockDim ?cfg) < 2 ^ 31"
      "- (2 ^ 31) \<le> dc_devId ?cfg" "dc_devId ?cfg < 2 ^ 31" "length (om_inputs om) < 2 ^ 32"
    using assms(2-5,7) h by (simp_all add: launch_config_def Let_def)
  obtain j magic where j: "ToJson ?cfg [] = (True, j)" "GetKernelConfig (Some j) new_parser = Parsed (launcher_config ?cfg magic) True"
      "filter (\<lambda>p. pa_type p = ''input'') (kc_params (launcher_config ?cfg magic)) =
        map (\<lambda>(i, it). (input_param (if ai_length it = 0 then ''n'' else input_path_of dir i))\<lparr>pa_dataSize := Some (ai_length it)\<rparr>)
          (enumerate 0 (om_inputs om))"
    using dumped_config_loads [OF args_Save_dumped [OF args] json cfg(1-7) assms(6) cfg(8)] by blast
  have w: "WriteBinary (re_os (se_reg env)) (JoinPath [dir, KERNEL_CONFIG_NAME]) (se_json env j) fs1 = (length (se_json env j), fs')"
    using dump j(1) by (auto simp: DumpConfig_def Let_def split: prod.splits)
  show ?thesis
    using j(2,3) w h
    by (intro exI [of _ j] exI [of _ "launcher_config ?cfg magic"] exI [of _ fs1])
      (auto simp: launcher_config_def launch_config_def Let_def)
qed

definition demo_save_env :: "((string \<times> stat_info) list, unit) save_env" where
  "demo_save_env = \<lparr>se_reg = demo_reg_env, se_args = demo_args_api, se_dump = demo_dump_env, se_json = \<lambda>j. [1, 2],
     se_devId = 1, se_visibleDevId = 1\<rparr>"

definition demo_launch :: launch_context where
  "demo_launch = \<lparr>lc_func = new_StubFuncContext demo_registered ''add_1_mix_aiv'' 7, lc_args = 0,
     lc_param = \<lparr>lp_blockDim = 8, lp_stream = 3, lp_isSink = False, lp_launchId = 0, lp_cfg = None\<rparr>\<rparr>"

definition demo_manager :: launch_manager where
  "demo_manager = new_launch_manager\<lparr>lm_contexts := [demo_launch], lm_history := [demo_launch_info]\<rparr>"

definition demo_input :: AddrInfo where
  "demo_input = \<lparr>ai_addr = 0x0101010101010101, ai_length = 16, ai_src = BYPASS, ai_desc = DEFAULT, ai_paramsNo = 0\<rparr>"

lemma demo_os_writes:
  "CheckWriteFilePathValid demo_os path fs \<noteq> None \<Longrightarrow> WriteBinary demo_os path bs fs = (length bs, fs)"
  by (auto simp: WriteBinary_def) (simp add: demo_os_def)

lemma demo_paths:
  "CheckWriteFilePathValid demo_os (JoinPath [''/tmp'', KERNEL_BIN_NAME]) fs \<noteq> None"
  "CheckWriteFilePathValid demo_os (JoinPath [''/tmp'', KERNEL_CONFIG_NAME]) fs \<noteq> None"
  by (simp_all add: CheckWriteFilePathValid_def RollbackPath_def GetLastFile_def last_sep_def JoinPath_def
      KERNEL_BIN_NAME_def KERNEL_CONFIG_NAME_def Realpath_def Let_def) (simp_all add: demo_os_def)

lemma demo_args_Save:
  "\<exists>c. args_Save demo_save_env ''/tmp'' demo_launch_info empty_DumperContext (RawContext demo_raw_args) () =
     Some ((True, demo_launch_info\<lparr>om_inputs := [demo_input]\<rparr>, c), ())"
proof -
  have t: "raw_GetTilingData demo_raw_args (replicate (unat (om_tilingDataSize demo_launch_info)) 0) =
      Some (True, [1, 2, 3, 4, 5, 6, 7, 8])"
    by (simp add: raw_GetTilingData_def demo_raw_args_def new_raw_args_placeholders_def tiling_offsets_def read_bytes_def
        demo_launch_info_def)
  have a: "set_input_addrs (replicate 32 1 @ [1, 2, 3, 4, 5, 6, 7, 8]) (unat (om_skipNum demo_launch_info))
      (om_inputs demo_launch_info) = Some [demo_input]"
  proof -
    have "replicate 8 (1 :: u8) = [1, 1, 1, 1, 1, 1, 1, 1]" by (simp add: eval_nat_numeral)
    then have "le_val (replicate 8 1) = 0x0101010101010101" by simp
    then show ?thesis by (simp add: demo_launch_info_def arg_word_def demo_input_def)
  qed
  have h: "rw_args demo_raw_args = HostArgs (replicate 32 1 @ [1, 2, 3, 4, 5, 6, 7, 8])" "[demo_input] \<noteq> []"
    "\<forall>it \<in> set [demo_input]. dumpable demo_dump_env it" "\<forall>p b. de_write demo_dump_env p b = length b"
    "dc_inputPathList empty_DumperContext = []" "dc_inputSizeList empty_DumperContext = []"
    by (simp_all add: demo_raw_args_def new_raw_args_placeholders_def demo_dump_env_def dumpable_def MAX_MEM_SIZE_def
        demo_input_def empty_DumperContext_def)
  obtain c where "raw_Save demo_args_api demo_dump_env ''/tmp'' demo_launch_info empty_DumperContext (demo_raw_args, ()) =
      Some ((True, demo_launch_info\<lparr>om_inputs := [demo_input]\<rparr>, c), ())"
    by (rule raw_Save_runs [OF h(1) a h(2-4) t h(5,6)])
  then show ?thesis by (auto simp: args_Save_def demo_save_env_def)
qed

lemma demo_launch_saved:
  "LaunchContext_Save demo_save_env (\<lambda>i. RawContext demo_raw_args) ''/tmp'' demo_launch demo_manager (demo_files, ()) =
     Some (True, demo_manager\<lparr>lm_history := [demo_launch_info\<lparr>om_inputs := [demo_input]\<rparr>]\<rparr>, demo_files, ())"
proof -
  obtain c where a: "args_Save demo_save_env ''/tmp'' demo_launch_info empty_DumperContext (RawContext demo_raw_args) () =
      Some ((True, demo_launch_info\<lparr>om_inputs := [demo_input]\<rparr>, c), ())" using demo_args_Save by blast
  have os: "re_os (se_reg demo_save_env) = demo_os" by (simp add: demo_save_env_def demo_reg_env_def)
  have l: "LoadHeader (rc_elfData (fn_reg (lc_func demo_launch))) = Inr meta_ehdr"
    using meta_elf_image by (simp add: elf_image_def demo_launch_def new_StubFuncContext_def demo_registered_def meta_context_def)
  have r: "reg_Save (se_reg demo_save_env) (JoinPath [''/tmp'', KERNEL_BIN_NAME]) (fn_reg (lc_func demo_launch)) demo_files =
      Some (True, demo_files)"
    by (simp add: reg_Save_def l os demo_os_writes [OF demo_paths(1)] Let_def)
  have m: "fst (ToJson (launch_config demo_save_env ''/tmp'' demo_launch om c) [])" for om
    by (simp add: ToJson_def Let_def launch_config_def demo_launch_def new_StubFuncContext_def demo_registered_def
        new_RegisterParam_def magic_name_def rtDevBinaryMagicElfAivec_def RT_DEV_BINARY_MAGIC_ELF_AIVEC_def)
  have d: "DumpConfig demo_save_env ''/tmp'' (launch_config demo_save_env ''/tmp'' demo_launch om c) demo_files = (True, demo_files)" for om
  proof -
    obtain j where j: "ToJson (launch_config demo_save_env ''/tmp'' demo_launch om c) [] = (True, j)"
      using m [of om] by (cases "ToJson (launch_config demo_save_env ''/tmp'' demo_launch om c) []") auto
    show ?thesis by (simp add: DumpConfig_def j os demo_os_writes [OF demo_paths(2)] Let_def)
  qed
  have i: "lp_launchId (lc_param demo_launch) = 0" "lm_history demo_manager = [demo_launch_info]"
    by (simp_all add: demo_launch_def demo_manager_def)
  show ?thesis by (simp add: LaunchContext_Save_def r i a d)
qed

theorem saved_launch_runs_witness:
  "\<exists>j kc. GetKernelConfig (Some j) new_parser = Parsed kc True \<and> kc_kernelName kc = ''add_1'' \<and>
     kc_kernelBinaryPath kc = ''/tmp/aicore_binary.o'' \<and>
     filter (\<lambda>p. pa_type p = ''input'') (kc_params kc) = [(input_param ''/tmp/input_0.bin'')\<lparr>pa_dataSize := Some 16\<rparr>]"
proof -
  have k: "RemoveSuffix (fn_kernelName (lc_func demo_launch)) [MIX_AIC_TAIL, MIX_AIV_TAIL] = ''add_1''"
    by (simp add: demo_launch_def new_StubFuncContext_def RemoveSuffix_def MIX_AIC_TAIL_def MIX_AIV_TAIL_def)
  have v: "CheckInputStringValid ''add_1'' FILE_NAME_LENGTH_LIMIT" "unat (lp_blockDim (lc_param demo_launch)) < 2 ^ 31"
    "- (2 ^ 31) \<le> se_devId demo_save_env" "se_devId demo_save_env < 2 ^ 31" "CHR '';'' \<notin> set ''/tmp''"
    by (simp_all add: CheckInputStringValid_def FILE_NAME_LENGTH_LIMIT_def is_alnum_def demo_launch_def demo_save_env_def)
  have h: "lm_history (demo_manager\<lparr>lm_history := [demo_launch_info\<lparr>om_inputs := [demo_input]\<rparr>]\<rparr>) ! lp_launchId (lc_param demo_launch) =
      demo_launch_info\<lparr>om_inputs := [demo_input]\<rparr>"
    by (simp add: demo_launch_def)
  have b: "JoinPath [''/tmp'', KERNEL_BIN_NAME] = ''/tmp/aicore_binary.o''" by (simp add: JoinPath_def KERNEL_BIN_NAME_def)
  have p: "map (\<lambda>(i, it). (input_param (if ai_length it = 0 then ''n'' else input_path_of ''/tmp'' i))\<lparr>pa_dataSize := Some (ai_length it)\<rparr>)
      (enumerate 0 (om_inputs (demo_launch_info\<lparr>om_inputs := [demo_input]\<rparr>))) = [(input_param ''/tmp/input_0.bin'')\<lparr>pa_dataSize := Some 16\<rparr>]"
    by (simp add: demo_input_def input_path_of_def to_string.simps digit_char_def char_of_def bit_Suc_0_iff)
  have n: "length (om_inputs (demo_launch_info\<lparr>om_inputs := [demo_input]\<rparr>)) < 2 ^ 32" by simp
  show ?thesis
    using saved_launch_runs [OF demo_launch_saved, unfolded k h p b, OF v n] by blast
qed

end
