(* ===== verification/KernelEvents.thy ===== *)
theory KernelEvents
  imports Launches MsTx
begin

text \<open>
  Kernels of the runtime's own interface: \<open>KernelContext\<close> (\<open>csrc/runtime/inject_helpers/KernelContext.{h,cpp}\<close>). Registered
  binaries and functions are shared; the launches, their memory description and its history belong to a device.
  A launch number or register number \<open>None\<close> is \<open>UINT64_MAX\<close>.
\<close>

section \<open>Tables\<close>

text \<open>A null pointer and an image without bytes are both the empty list.\<close>

record rtDevBinary =
  db_magic :: u32
  db_version :: u32
  db_data :: "u8 list"

record RegisterEvent =
  ev_hdl :: ptr
  ev_bin :: rtDevBinary
  ev_stubBin :: "rtDevBinary option"
  ev_symbols :: "(string \<times> u64) list"
  ev_isKernelWithDBI :: bool
  ev_hasDebugLine :: bool

text \<open>The copied part of \<open>rtArgsEx_t\<close> that is read again when a launch is saved; the arguments stay where they are.\<close>

record rt_args =
  kr_args :: ptr
  kr_argsSize :: u32
  kr_tilingAddrOffset :: u32
  kr_tilingDataOffset :: u32

definition null_args :: rt_args where
  "null_args = \<lparr>kr_args = 0, kr_argsSize = 0, kr_tilingAddrOffset = 0, kr_tilingDataOffset = 0\<rparr>"

record LaunchEvent =
  le_launchWithHandle :: bool
  le_stubFunc :: ptr
  le_hdl :: ptr
  le_hasTilingKey :: bool
  le_tilingKey :: u64
  le_pcStartAddr :: u64
  le_blockDim :: u32
  le_kernelName :: string
  le_argsInfo :: rt_args
  le_isSink :: bool

record StubFuncInfo =
  sf_hdl :: ptr
  sf_kernelName :: string
  sf_kernelInfoExt :: string
  sf_funcMode :: u32

datatype launch_args = StubFuncArgs ptr ptr | KernelHandleArgs ptr ptr u64

text \<open>What the runtime is asked for an address: a function, or a binary with a tiling key.\<close>

datatype kernel_key = OfStub ptr | OfHandle ptr u64

record kernel_device =
  kd_memInfo :: OpMemInfo
  kd_memInfoHistory :: "OpMemInfo list"
  kd_launchEvents :: "LaunchEvent list"
  kd_isMC2 :: bool
  kd_isLccl :: bool
  kd_listening :: bool

definition new_kernel_device :: kernel_device where
  "new_kernel_device = \<lparr>kd_memInfo = empty_OpMemInfo, kd_memInfoHistory = [], kd_launchEvents = [], kd_isMC2 = False,
     kd_isLccl = False, kd_listening = False\<rparr>"

record kernel_context =
  kx_registerEvents :: "RegisterEvent list"
  kx_stubInfo :: "(ptr \<times> StubFuncInfo) list"
  kx_hdlToRegId :: "(ptr \<times> nat) list"
  kx_devices :: "(int \<times> kernel_device) list"
  kx_hasSimt :: bool

definition new_kernel_context :: kernel_context where
  "new_kernel_context =
     \<lparr>kx_registerEvents = [], kx_stubInfo = [], kx_hdlToRegId = [], kx_devices = [], kx_hasSimt = False\<rparr>"

text \<open>
  The surroundings: the runtime's addresses, host memory by words and bytes, words of device memory, the lengths behind a
  dump address, the current device, and what saving needs.
\<close>

record 'f kernel_env =
  ke_save :: "('f, unit) save_env"
  ke_kernelAddr :: "kernel_key \<Rightarrow> ptr option"
  ke_hostWord :: "ptr \<Rightarrow> u64 option"
  ke_hostBytes :: "ptr \<Rightarrow> nat \<Rightarrow> u8 list option"
  ke_devWord :: "ptr \<Rightarrow> u64 option"
  ke_adump :: "ptr \<Rightarrow> nat \<Rightarrow> u64"
  ke_deviceId :: int
  ke_threadId :: string
  ke_subscribe :: "nat \<Rightarrow> ptr \<Rightarrow> bool"

abbreviation kreg :: "'f kernel_env \<Rightarrow> 'f reg_env" where
  "kreg env \<equiv> se_reg (ke_save env)"

definition GetDeviceContext :: "'f kernel_env \<Rightarrow> kernel_context \<Rightarrow> kernel_device" where
  "GetDeviceContext env k = (case map_of (kx_devices k) (ke_deviceId env) of None \<Rightarrow> new_kernel_device | Some d \<Rightarrow> d)"

definition put_device :: "'f kernel_env \<Rightarrow> kernel_device \<Rightarrow> kernel_context \<Rightarrow> kernel_context" where
  "put_device env d k = k\<lparr>kx_devices := omap_put (ke_deviceId env) d (kx_devices k)\<rparr>"

section \<open>Names and keys\<close>

text \<open>
  The extraction \<open>>>\<close> of a 64-bit value: nothing is read from a text of spaces, the value is 0 without digits and the
  largest one when it is too large.
\<close>

definition stream_dec :: "string \<Rightarrow> u64 \<Rightarrow> u64" where
  "stream_dec s old =
     (let t = dropWhile is_space s in
      if t = [] then old
      else let neg = (hd t = CHR ''-'');
               t1 = (if hd t = CHR ''-'' \<or> hd t = CHR ''+'' then tl t else t);
               ds = takeWhile is_digit t1; v = dec_val ds
           in if ds = [] then 0 else if v \<ge> 2 ^ 64 then - 1
              else if neg then - word_of_nat v else word_of_nat v)"

text \<open>The key, and whether the name has one; \<open>old\<close> is what the variable holds before.\<close>

definition GetTilingKeyFromName :: "string \<Rightarrow> u64 \<Rightarrow> bool \<times> u64" where
  "GetTilingKeyFromName kernelName old =
     (let name = (if EndsWith kernelName MIX_AIC_TAIL \<or> EndsWith kernelName MIX_AIV_TAIL
                  then take (length kernelName - 8) kernelName else kernelName);
          items = SplitString name CHR ''_''
      in if length items < 2 then (False, old) else (True, stream_dec (last items) old))"

fun GetKernelOffsetByTilingKey :: "(string \<times> u64) list \<Rightarrow> u64 \<Rightarrow> u64 \<Rightarrow> u64 option" where
  "GetKernelOffsetByTilingKey [] tilingKey fromName = None"
| "GetKernelOffsetByTilingKey ((name, off) # syms) tilingKey fromName =
     (let (ok, key) = GetTilingKeyFromName name fromName in
      if ok \<and> key = tilingKey then Some off else GetKernelOffsetByTilingKey syms tilingKey key)"

definition GetNameByTilingKey :: "kernel_context \<Rightarrow> ptr \<Rightarrow> u64 \<Rightarrow> string" where
  "GetNameByTilingKey k h tilingKey =
     (case map_of (kx_hdlToRegId k) h of
        None \<Rightarrow> []
      | Some regId \<Rightarrow>
          let names = map fst (ev_symbols (kx_registerEvents k ! regId)) in
          if length names = 1 then last names
          else case find (\<lambda>name. list_ex (EndsWith name) (key_suffixes tilingKey)) names of
                 None \<Rightarrow> [] | Some name \<Rightarrow> name)"

definition MAX_KERNEL_NAME_LENGTH :: u64 where "MAX_KERNEL_NAME_LENGTH = 1023"

definition GetFullKernelName :: "string option \<Rightarrow> string list \<Rightarrow> string" where
  "GetFullKernelName name fullNames =
     (case name of
        None \<Rightarrow> []
      | Some n \<Rightarrow>
          let subName = take (unat (GetValidLength n MAX_KERNEL_NAME_LENGTH)) n in
          (case find (\<lambda>full. full = subName \<or> str_contains full (subName @ MIX_AIC_TAIL) \<or>
                       str_contains full (subName @ MIX_AIV_TAIL)) fullNames of
             None \<Rightarrow> [] | Some full \<Rightarrow> full))"

section \<open>Binaries\<close>

definition GetDevBinary_handle :: "kernel_context \<Rightarrow> ptr \<Rightarrow> bool \<Rightarrow> rtDevBinary option" where
  "GetDevBinary_handle k h getStubBin =
     (case map_of (kx_hdlToRegId k) h of
        None \<Rightarrow> None
      | Some regId \<Rightarrow>
          let e = kx_registerEvents k ! regId in if getStubBin then ev_stubBin e else Some (ev_bin e))"

definition GetStubFuncInfo :: "kernel_context \<Rightarrow> ptr \<Rightarrow> StubFuncInfo option" where
  "GetStubFuncInfo k stubFunc = map_of (kx_stubInfo k) stubFunc"

definition GetDevBinary_stub :: "kernel_context \<Rightarrow> ptr \<Rightarrow> bool \<Rightarrow> rtDevBinary option" where
  "GetDevBinary_stub k stubFunc getStubBin =
     (case map_of (kx_stubInfo k) stubFunc of
        None \<Rightarrow> None | Some info \<Rightarrow> GetDevBinary_handle k (sf_hdl info) getStubBin)"

definition GetRegisterId :: "kernel_context \<Rightarrow> ptr \<Rightarrow> bool \<Rightarrow> nat option" where
  "GetRegisterId k key withHandle =
     (if withHandle then map_of (kx_hdlToRegId k) key
      else case map_of (kx_stubInfo k) key of None \<Rightarrow> None | Some info \<Rightarrow> map_of (kx_hdlToRegId k) (sf_hdl info))"

definition GetRegisterEvent :: "kernel_context \<Rightarrow> nat option \<Rightarrow> RegisterEvent option" where
  "GetRegisterEvent k regId =
     (case regId of
        None \<Rightarrow> None
      | Some r \<Rightarrow> if r < length (kx_registerEvents k) then Some (kx_registerEvents k ! r) else None)"

text \<open>\<open>None\<close> is a read outside the image.\<close>

definition AddHdlRegisterEvent ::
  "'f kernel_env \<Rightarrow> ptr \<Rightarrow> rtDevBinary option \<Rightarrow> rtDevBinary option \<Rightarrow> kernel_context \<Rightarrow> kernel_context option" where
  "AddHdlRegisterEvent env h bin stubBin k =
     (case bin of
        None \<Rightarrow> Some k
      | Some b \<Rightarrow>
          if h = 0 \<or> length (db_data b) \<ge> unat MAX_MEM_BYTE_SIZE then Some k
          else case (HasStaticStub (db_data b), HasDebugLine (db_data b)) of
            (Some stub, Some line) \<Rightarrow>
              let event = \<lparr>ev_hdl = h, ev_bin = b, ev_stubBin = stubBin,
                    ev_symbols = (case GetSymInfoFromBinary (kreg env) (db_data b) of None \<Rightarrow> [] | Some syms \<Rightarrow> syms),
                    ev_isKernelWithDBI = (\<not> stub), ev_hasDebugLine = line\<rparr>
              in Some (k\<lparr>kx_hasSimt := GetSimtSymbolFromBinary (kreg env) (db_data b),
                         kx_hdlToRegId := omap_put h (length (kx_registerEvents k)) (kx_hdlToRegId k),
                         kx_registerEvents := kx_registerEvents k @ [event]\<rparr>)
          | _ \<Rightarrow> None)"

text \<open>A function that is known already keeps what it was first registered with.\<close>

definition AddFuncRegisterEvent ::
  "ptr \<Rightarrow> ptr \<Rightarrow> string option \<Rightarrow> string option \<Rightarrow> u32 \<Rightarrow> kernel_context \<Rightarrow> kernel_context" where
  "AddFuncRegisterEvent binHdl stubFunc stubName kernelInfoExt funcMode k =
     (let plain = (case stubName of None \<Rightarrow> ''anonymous'' | Some n \<Rightarrow> n);
          name = (case map_of (kx_hdlToRegId k) binHdl of
             None \<Rightarrow> plain
           | Some regId \<Rightarrow>
               (case GetRegisterEvent k (Some regId) of
                  None \<Rightarrow> plain
                | Some event \<Rightarrow>
                    let names = map fst (ev_symbols event); byStub = GetFullKernelName stubName names;
                        byExt = GetFullKernelName kernelInfoExt names
                    in if byStub \<noteq> [] then byStub else if byExt \<noteq> [] then byExt else plain));
          info = \<lparr>sf_hdl = binHdl, sf_kernelName = name,
                  sf_kernelInfoExt = (case kernelInfoExt of None \<Rightarrow> [] | Some e \<Rightarrow> e), sf_funcMode = funcMode\<rparr>
      in if map_of (kx_stubInfo k) stubFunc \<noteq> None then k
         else k\<lparr>kx_stubInfo := omap_put stubFunc info (kx_stubInfo k)\<rparr>)"

definition SetDbiBinary :: "'f kernel_env \<Rightarrow> nat \<Rightarrow> rtDevBinary \<Rightarrow> kernel_context \<Rightarrow> bool \<times> kernel_context" where
  "SetDbiBinary env registerId bin k =
     (if registerId \<ge> length (kx_registerEvents k) then (False, k)
      else let e = kx_registerEvents k ! registerId;
               syms = (case GetSymInfoFromBinary (kreg env) (db_data bin) of None \<Rightarrow> [] | Some s \<Rightarrow> s)
           in (True, k\<lparr>kx_registerEvents :=
                 (kx_registerEvents k)[registerId := e\<lparr>ev_stubBin := Some bin, ev_symbols := syms\<rparr>]\<rparr>))"

definition DumpKernelObject :: "'f kernel_env \<Rightarrow> kernel_context \<Rightarrow> nat option \<Rightarrow> string \<Rightarrow> 'f \<Rightarrow> (bool \<times> 'f) option" where
  "DumpKernelObject env k regId outputPath fs =
     (case GetRegisterEvent k regId of
        None \<Rightarrow> Some (False, fs)
      | Some e \<Rightarrow>
          (case LoadHeader (db_data (ev_bin e)) of
             Inl Rejected \<Rightarrow> Some (False, fs)
           | Inl OutOfBounds \<Rightarrow> None
           | Inr header \<Rightarrow>
               let bs = saved_image (re_soc (kreg env)) (db_magic (ev_bin e)) header (db_data (ev_bin e));
                   (written, fs1) = WriteBinary (re_os (kreg env)) outputPath bs fs
               in Some (written = length bs, fs1)))"

definition DumpKernelObject_handle ::
  "'f kernel_env \<Rightarrow> kernel_context \<Rightarrow> ptr \<Rightarrow> string \<Rightarrow> string \<Rightarrow> 'f \<Rightarrow> (bool \<times> 'f) option" where
  "DumpKernelObject_handle env k h outputDir savedFileName fs =
     (case map_of (kx_hdlToRegId k) h of
        None \<Rightarrow> Some (False, fs)
      | Some regId \<Rightarrow>
          let (made, fs1) = (if IsExist (re_os (kreg env)) outputDir fs then (True, fs)
                             else MkdirRecusively (re_os (kreg env)) outputDir DIR_DEFAULT_MOD fs)
          in if \<not> made then Some (False, fs1)
             else DumpKernelObject env k (Some regId) (JoinPath [outputDir, savedFileName]) fs1)"

definition ReportKernelBinary :: "rtDevBinary option \<Rightarrow> 'd hook_state \<Rightarrow> 'd hook_state" where
  "ReportKernelBinary bin s =
     (case bin of
        None \<Rightarrow> s
      | Some b \<Rightarrow> Notify LocalDev
          (Serialize [PacketHead_bytes KERNEL_BINARY, le_bytes 8 (length (db_data b))] @ db_data b) s)"

section \<open>Launch addresses\<close>

definition GetKernelAddr :: "'f kernel_env \<Rightarrow> launch_args \<Rightarrow> u64 option" where
  "GetKernelAddr env args =
     (case args of
        StubFuncArgs origin dbi \<Rightarrow> ke_kernelAddr env (OfStub (if dbi \<noteq> 0 then dbi else origin))
      | KernelHandleArgs origin dbi tilingKey \<Rightarrow> ke_kernelAddr env (OfHandle (if dbi \<noteq> 0 then dbi else origin) tilingKey))"

definition GetKernelOffset :: "kernel_context \<Rightarrow> launch_args \<Rightarrow> u64 option" where
  "GetKernelOffset k args =
     (case args of
        StubFuncArgs origin dbi \<Rightarrow>
          (case GetStubFuncInfo k origin of
             None \<Rightarrow> None
           | Some info \<Rightarrow>
               (case GetRegisterEvent k (GetRegisterId k (sf_hdl info) True) of
                  None \<Rightarrow> None
                | Some e \<Rightarrow> map_of (ev_symbols e) (sf_kernelName info)))
      | KernelHandleArgs origin dbi tilingKey \<Rightarrow>
          (case GetRegisterEvent k (GetRegisterId k origin True) of
             None \<Rightarrow> None
           | Some e \<Rightarrow> GetKernelOffsetByTilingKey (ev_symbols e) tilingKey 0))"

definition GetPcStartAddr :: "'f kernel_env \<Rightarrow> kernel_context \<Rightarrow> launch_args \<Rightarrow> u64 option" where
  "GetPcStartAddr env k args =
     (case GetKernelAddr env args of
        None \<Rightarrow> None
      | Some kernelAddr \<Rightarrow>
          (case GetKernelOffset k args of
             None \<Rightarrow> None
           | Some kernelOffset \<Rightarrow> if kernelAddr < kernelOffset then None else Some (kernelAddr - kernelOffset)))"

text \<open>For a binary the key is that of its first symbol.\<close>

definition GetPcStartAddr_handle :: "'f kernel_env \<Rightarrow> kernel_context \<Rightarrow> ptr \<Rightarrow> u64 option" where
  "GetPcStartAddr_handle env k h =
     (case map_of (kx_hdlToRegId k) h of
        None \<Rightarrow> None
      | Some regId \<Rightarrow>
          (case ev_symbols (kx_registerEvents k ! regId) of
             [] \<Rightarrow> None
           | (name, off) # syms \<Rightarrow>
               let (ok, tilingKey) = GetTilingKeyFromName name 0
               in if \<not> ok then None else GetPcStartAddr env k (KernelHandleArgs h 0 tilingKey)))"

section \<open>Launches\<close>

definition add_launch :: "'f kernel_env \<Rightarrow> LaunchEvent \<Rightarrow> kernel_context \<Rightarrow> kernel_context" where
  "add_launch env e k =
     (let d = GetDeviceContext env k in put_device env (d\<lparr>kd_launchEvents := kd_launchEvents d @ [e]\<rparr>) k)"

definition pc_or_0 :: "u64 option \<Rightarrow> u64" where
  "pc_or_0 pc = (case pc of None \<Rightarrow> 0 | Some p \<Rightarrow> p)"

definition copied_args :: "rt_args option \<Rightarrow> rt_args" where
  "copied_args argsInfo = (case argsInfo of None \<Rightarrow> null_args | Some a \<Rightarrow> a)"

definition AddLaunchEvent_stub ::
  "'f kernel_env \<Rightarrow> ptr \<Rightarrow> u32 \<Rightarrow> rt_args option \<Rightarrow> ptr \<Rightarrow> stream_infos \<times> kernel_context \<Rightarrow> stream_infos \<times> kernel_context" where
  "AddLaunchEvent_stub env stubFunc blockDim argsInfo stm st =
     (let (infos, k) = st in
      case map_of (kx_stubInfo k) stubFunc of
        None \<Rightarrow> st
      | Some info \<Rightarrow>
          let pcStartAddr = pc_or_0 (GetPcStartAddr env k (StubFuncArgs stubFunc 0));
              (stmInfo, infos1) = GetOrCreateStreamInfo stm infos
          in (infos1, add_launch env
                \<lparr>le_launchWithHandle = False, le_stubFunc = stubFunc, le_hdl = sf_hdl info, le_hasTilingKey = False,
                 le_tilingKey = 0, le_pcStartAddr = pcStartAddr, le_blockDim = blockDim,
                 le_kernelName = sf_kernelName info, le_argsInfo = copied_args argsInfo, le_isSink = si_binded stmInfo\<rparr> k))"

definition AddLaunchEvent_handle ::
  "'f kernel_env \<Rightarrow> ptr \<Rightarrow> u64 \<Rightarrow> u32 \<Rightarrow> rt_args option \<Rightarrow> ptr \<Rightarrow> stream_infos \<times> kernel_context \<Rightarrow>
   stream_infos \<times> kernel_context" where
  "AddLaunchEvent_handle env h tilingKey blockDim argsInfo stm st =
     (let (infos, k) = st;
          kernelName = GetNameByTilingKey k h tilingKey;
          pcStartAddr = pc_or_0 (GetPcStartAddr env k (KernelHandleArgs h 0 tilingKey));
          (stmInfo, infos1) = GetOrCreateStreamInfo stm infos
      in (infos1, add_launch env
            \<lparr>le_launchWithHandle = True, le_stubFunc = 0, le_hdl = h, le_hasTilingKey = True, le_tilingKey = tilingKey,
             le_pcStartAddr = pcStartAddr, le_blockDim = blockDim, le_kernelName = kernelName,
             le_argsInfo = copied_args argsInfo, le_isSink = si_binded stmInfo\<rparr> k))"

definition GetLaunchId :: "kernel_device \<Rightarrow> nat option" where
  "GetLaunchId d = (if kd_launchEvents d = [] then None else Some (length (kd_launchEvents d) - 1))"

text \<open>The launch a number stands for: the last one for \<open>UINT64_MAX\<close>.\<close>

definition launch_no :: "kernel_device \<Rightarrow> nat option \<Rightarrow> nat option" where
  "launch_no d launchId = (if launchId = None then GetLaunchId d else launchId)"

definition GetLaunchEvent :: "kernel_device \<Rightarrow> nat option \<Rightarrow> LaunchEvent option" where
  "GetLaunchEvent d launchId =
     (case launchId of
        None \<Rightarrow> None | Some i \<Rightarrow> if i < length (kd_launchEvents d) then Some (kd_launchEvents d ! i) else None)"

definition GetLastLaunchEvent :: "kernel_device \<Rightarrow> LaunchEvent option" where
  "GetLastLaunchEvent d = (if kd_launchEvents d = [] then None else Some (last (kd_launchEvents d)))"

definition GetLaunchName :: "kernel_device \<Rightarrow> nat option \<Rightarrow> string" where
  "GetLaunchName d launchId =
     (case GetLaunchEvent d (launch_no d launchId) of None \<Rightarrow> ''invalid_launch_id'' | Some e \<Rightarrow> le_kernelName e)"

definition GetBlockId :: "kernel_device \<Rightarrow> u32" where
  "GetBlockId d =
     (case GetLaunchId d of None \<Rightarrow> - 1 | Some i \<Rightarrow> le_blockDim (kd_launchEvents d ! i))"

definition GetRegisterId_launch :: "kernel_context \<Rightarrow> kernel_device \<Rightarrow> nat option \<Rightarrow> nat option" where
  "GetRegisterId_launch k d launchId =
     (case GetLaunchEvent d launchId of None \<Rightarrow> None | Some e \<Rightarrow> GetRegisterId k (le_hdl e) True)"

definition UpdatePcStartAddrByDbi ::
  "'f kernel_env \<Rightarrow> nat option \<Rightarrow> launch_args \<Rightarrow> kernel_context \<Rightarrow> bool \<times> kernel_context" where
  "UpdatePcStartAddrByDbi env launchId args k =
     (let d = GetDeviceContext env k in
      case launchId of
        None \<Rightarrow> (False, k)
      | Some i \<Rightarrow>
          if i \<ge> length (kd_launchEvents d) then (False, k)
          else case GetPcStartAddr env k args of
            None \<Rightarrow> (False, k)
          | Some pc \<Rightarrow>
              (True, put_device env (d\<lparr>kd_launchEvents :=
                 (kd_launchEvents d)[i := (kd_launchEvents d ! i)\<lparr>le_pcStartAddr := pc\<rparr>]\<rparr>) k))"

definition kx_ArchiveMemInfo :: "'f kernel_env \<Rightarrow> kernel_context \<Rightarrow> kernel_context" where
  "kx_ArchiveMemInfo env k =
     (let d = GetDeviceContext env k
      in put_device env (d\<lparr>kd_memInfoHistory := kd_memInfoHistory d @ [kd_memInfo d]\<rparr>) k)"

definition ClearArgsInfo :: "'f kernel_env \<Rightarrow> kernel_context \<Rightarrow> kernel_context" where
  "ClearArgsInfo env k =
     (let d = GetDeviceContext env k in put_device env (d\<lparr>kd_memInfo := OpMemInfo_Clear (kd_memInfo d)\<rparr>) k)"

section \<open>What a launch reads and writes\<close>

text \<open>
  \<open>words\<close> is what \<open>infoAddr\<close> points at: the number of inputs and skipped arguments in the second word, then a word for
  each input with the kind of its pointer in the high byte.
\<close>

fun args_size_inputs :: "u64 list \<Rightarrow> nat list \<Rightarrow> AddrInfo list \<Rightarrow> AddrInfo list option" where
  "args_size_inputs ws [] its = Some its"
| "args_size_inputs ws (i # is) its =
     (case word_at ws (2 + i) of
        None \<Rightarrow> None
      | Some w \<Rightarrow>
          let ptrType = drop_bit 56 w AND 0xff; primaryPtrNum = w AND 0xffffffffffffff in
          args_size_inputs ws is
            (if ptrType = 0
             then its @ [\<lparr>ai_addr = 0, ai_length = primaryPtrNum, ai_src = EXTRA, ai_desc = INPUT,
                          ai_paramsNo = word_of_nat (i + 1)\<rparr>]
             else its))"

definition args_size_info :: "u64 list \<Rightarrow> OpMemInfo \<Rightarrow> OpMemInfo option" where
  "args_size_info ws om =
     (case word_at ws 1 of
        None \<Rightarrow> None
      | Some w \<Rightarrow>
          let om1 = (OpMemInfo_Clear om)\<lparr>om_isForSetException := True, om_inputNum := ucast (w AND 0xffffffff),
                      om_skipNum := ucast (drop_bit 32 w AND 0xffffffff)\<rparr>
          in map_option (\<lambda>its. om1\<lparr>om_inputs := its, om_isFFTS := (om_skipNum om1 \<noteq> 0)\<rparr>)
               (args_size_inputs ws [0..<unat (om_inputNum om1)] []))"

definition SetArgsSize :: "'f kernel_env \<Rightarrow> u64 list option option \<Rightarrow> kernel_context \<Rightarrow> kernel_context option" where
  "SetArgsSize env sizeInfo k =
     (case sizeInfo of
        Some (Some ws) \<Rightarrow>
          let d = GetDeviceContext env k
          in map_option (\<lambda>om. put_device env (d\<lparr>kd_memInfo := om\<rparr>) k) (args_size_info ws (kd_memInfo d))
      | _ \<Rightarrow> Some k)"

definition off8 :: "u32 \<Rightarrow> u64" where
  "off8 off = 8 * (ucast off div 8)"

text \<open>Where the tiling data is, 0 for a null pointer; the word is read even when it is not used.\<close>

definition tiling_buffer :: "'f kernel_env \<Rightarrow> rt_args \<Rightarrow> ptr option" where
  "tiling_buffer env ai =
     (let atData = (if kr_tilingDataOffset ai = 0 then 0 else kr_args ai + off8 (kr_tilingDataOffset ai));
          atAddr = (if kr_tilingAddrOffset ai = 0 then Some 0
                    else ke_hostWord env (kr_args ai + off8 (kr_tilingAddrOffset ai)))
      in map_option (\<lambda>a. if atData \<noteq> 0 then atData else a) atAddr)"

definition CompleteInputData ::
  "'f kernel_env \<Rightarrow> rt_args \<Rightarrow> OpMemInfo \<Rightarrow> args_manager \<Rightarrow> (OpMemInfo \<times> args_manager) outcome" where
  "CompleteInputData env ai om am =
     (case tiling_buffer env ai of
        None \<Rightarrow> Fault
      | Some p \<Rightarrow>
          if p \<noteq> 0 \<and> om_tilingDataSize om > 0 then
            (case ke_hostBytes env p (unat (om_tilingDataSize om)) of
               None \<Rightarrow> Fault
             | Some bs \<Rightarrow> Done (UpdateInputSizeWithTilingData (ke_adump env) bs om am))
          else Done (om, am))"

definition parsed_mem_info ::
  "'f kernel_env \<Rightarrow> rtDevBinary \<Rightarrow> string \<Rightarrow> rt_args option \<Rightarrow> OpMemInfo \<Rightarrow> args_manager \<Rightarrow>
   (OpMemInfo \<times> args_manager) outcome" where
  "parsed_mem_info env bin kernelName argsInfo om am =
     (let soc = re_soc (kreg env) in
      if om_isForSetException om
      then Done ((SetFftsInfo soc (db_magic bin) om)\<lparr>om_isForSetException := False\<rparr>, am)
      else let om1 = OpMemInfo_Clear om in
        case GetMetaSection (db_data bin) kernelName of
          None \<Rightarrow> Fault
        | Some metaData \<Rightarrow>
            if metaData = [] then Done (om1, am)
            else case Parse soc metaData of
              Fault \<Rightarrow> Fault
            | OutOfFuel \<Rightarrow> OutOfFuel
            | Done (ok, m) \<Rightarrow>
                if \<not> ok then Done (om1, am)
                else let om2 = SetFftsInfo soc (db_magic bin)
                           (m\<lparr>om_hasOverflowAddr := om_hasOverflowAddr om1, om_overflowAddr := om_overflowAddr om1\<rparr>)
                     in (case argsInfo of None \<Rightarrow> Done (om2, am) | Some ai \<Rightarrow> CompleteInputData env ai om2 am))"

definition ParseMetaDataFromBinary ::
  "'f kernel_env \<Rightarrow> rtDevBinary \<Rightarrow> rt_args option \<Rightarrow> kernel_context \<times> args_manager \<Rightarrow>
   (kernel_context \<times> args_manager) outcome" where
  "ParseMetaDataFromBinary env bin argsInfo st =
     (let (k, am) = st; d = GetDeviceContext env k in
      case parsed_mem_info env bin (GetLaunchName d None) argsInfo (kd_memInfo d) am of
        Fault \<Rightarrow> Fault
      | OutOfFuel \<Rightarrow> OutOfFuel
      | Done (om, am1) \<Rightarrow> Done (put_device env (d\<lparr>kd_memInfo := om\<rparr>) k, am1))"

section \<open>Saving\<close>

text \<open>The words of the arguments in host memory; \<open>None\<close> is a read that fails.\<close>

fun host_addrs :: "'f kernel_env \<Rightarrow> ptr \<Rightarrow> AddrInfo list \<Rightarrow> AddrInfo list option" where
  "host_addrs env p [] = Some []"
| "host_addrs env p (it # its) =
     (case ke_hostWord env p of
        None \<Rightarrow> None | Some w \<Rightarrow> map_option ((#) (it\<lparr>ai_addr := w\<rparr>)) (host_addrs env (p + 8) its))"

text \<open>The words of arguments on the device, as far as they can be copied and are no null pointer of a real input.\<close>

fun sink_addrs :: "'f kernel_env \<Rightarrow> ptr \<Rightarrow> AddrInfo list \<Rightarrow> bool \<times> AddrInfo list" where
  "sink_addrs env p [] = (True, [])"
| "sink_addrs env p (it # its) =
     (case ke_devWord env p of
        None \<Rightarrow> (False, it # its)
      | Some w \<Rightarrow>
          if w = 0 \<and> ai_length it > 0 then (False, it # its)
          else let (ok, its1) = sink_addrs env (p + 8) its in (ok, it\<lparr>ai_addr := w\<rparr> # its1))"

definition args_at :: "ptr \<Rightarrow> OpMemInfo \<Rightarrow> ptr" where
  "args_at args om = args + 8 * ucast (om_skipNum om)"

definition UpdateSinkTaskArgsAddr :: "'f kernel_env \<Rightarrow> ptr \<Rightarrow> OpMemInfo \<Rightarrow> bool \<times> OpMemInfo" where
  "UpdateSinkTaskArgsAddr env args om =
     (let (ok, its) = sink_addrs env (args_at args om) (om_inputs om) in (ok, om\<lparr>om_inputs := its\<rparr>))"

definition kx_UpdateNormalTaskArgsAddr :: "'f kernel_env \<Rightarrow> ptr \<Rightarrow> OpMemInfo \<Rightarrow> OpMemInfo option" where
  "kx_UpdateNormalTaskArgsAddr env args om =
     map_option (\<lambda>its. om\<lparr>om_inputs := its\<rparr>) (host_addrs env (args_at args om) (om_inputs om))"

definition kx_DumpTilingData ::
  "'f kernel_env \<Rightarrow> rt_args \<Rightarrow> string \<Rightarrow> DumperContext \<Rightarrow> (bool \<times> DumperContext) option" where
  "kx_DumpTilingData env ai outputDir config =
     (case tiling_buffer env ai of
        None \<Rightarrow> None
      | Some p \<Rightarrow>
          if p = 0 then Some (True, config)
          else if kr_argsSize ai \<le> kr_tilingDataOffset ai then Some (False, config)
          else let n = kr_argsSize ai - kr_tilingDataOffset ai; dump = se_dump (ke_save env) in
            if \<not> de_hostMalloc dump (ucast n) then Some (False, config)
            else case de_read dump p (ucast n) of
              None \<Rightarrow> Some (False, config)
            | Some bs \<Rightarrow>
                let path = outputDir @ ''/input_tiling.bin'';
                    config1 = config\<lparr>dc_tilingDataPath := path, dc_tilingDataSize := ucast n\<rparr>
                in Some (de_write dump path bs = unat n, config1))"

definition DumpKernelArgs ::
  "'f kernel_env \<Rightarrow> string \<Rightarrow> nat \<Rightarrow> DumperContext \<Rightarrow> kernel_device \<Rightarrow> (bool \<times> DumperContext \<times> kernel_device) option" where
  "DumpKernelArgs env outputDir i config d =
     (if i \<ge> length (kd_launchEvents d) \<or> i \<ge> length (kd_memInfoHistory d) then Some (False, config, d)
      else let e = kd_launchEvents d ! i; ai = le_argsInfo e; om = kd_memInfoHistory d ! i;
               keep = (\<lambda>om'. d\<lparr>kd_memInfoHistory := (kd_memInfoHistory d)[i := om']\<rparr>);
               dump = se_dump (ke_save env)
        in if kr_args ai = 0 then Some (False, config, d)
           else if le_isSink e \<and> kr_tilingDataOffset ai = 0 then
             (let (ok, om1) = UpdateSinkTaskArgsAddr env (kr_args ai) om in
              if \<not> ok then Some (False, config, keep om1)
              else let (ok1, config1) = DumpInputData dump outputDir (om_inputs om1) config in Some (ok1, config1, keep om1))
           else (case kx_UpdateNormalTaskArgsAddr env (kr_args ai) om of
                   None \<Rightarrow> None
                 | Some om1 \<Rightarrow>
                     let (ok1, config1) = DumpInputData dump outputDir (om_inputs om1) config in
                     if \<not> ok1 then Some (False, config1, keep om1)
                     else map_option (\<lambda>(ok2, config2). (ok2, config2, keep om1)) (kx_DumpTilingData env ai outputDir config1)))"

definition SaveAicore :: "'f kernel_env \<Rightarrow> kernel_context \<Rightarrow> string \<Rightarrow> nat option \<Rightarrow> 'f \<Rightarrow> (bool \<times> 'f) option" where
  "SaveAicore env k outputDir launchId fs =
     (let d = GetDeviceContext env k in
      case GetLaunchEvent d (launch_no d launchId) of
        None \<Rightarrow> Some (False, fs)
      | Some e \<Rightarrow>
          let regId = GetRegisterId k (le_hdl e) True in
          if GetRegisterEvent k regId = None then Some (False, fs)
          else DumpKernelObject env k regId (JoinPath [outputDir, KERNEL_BIN_NAME]) fs)"

definition event_config :: "'f kernel_env \<Rightarrow> string \<Rightarrow> RegisterEvent \<Rightarrow> LaunchEvent \<Rightarrow> bool \<Rightarrow> DumperContext \<Rightarrow> DumperContext" where
  "event_config env outputDir reg e isFFTS config =
     config\<lparr>dc_isFFTS := isFFTS, dc_magic := db_magic (ev_bin reg), dc_blockDim := le_blockDim e,
       dc_kernelName := le_kernelName e, dc_tilingKey := le_tilingKey e, dc_binPath := JoinPath [outputDir, KERNEL_BIN_NAME],
       dc_hasTilingKey := le_hasTilingKey e, dc_devId := se_devId (ke_save env), dc_visibleDevId := se_visibleDevId (ke_save env)\<rparr>"

definition kx_Save ::
  "'f kernel_env \<Rightarrow> string \<Rightarrow> nat option \<Rightarrow> kernel_context \<times> 'f \<Rightarrow> (bool \<times> kernel_context \<times> 'f) option" where
  "kx_Save env outputDir launchId st =
     (let (k, fs) = st; d = GetDeviceContext env k; no = launch_no d launchId in
      case SaveAicore env k outputDir no fs of
        None \<Rightarrow> None
      | Some (ok, fs1) \<Rightarrow>
          if \<not> ok then Some (False, k, fs1)
          else case no of
            None \<Rightarrow> Some (False, k, fs1)
          | Some i \<Rightarrow>
              (case DumpKernelArgs env outputDir i empty_DumperContext d of
                 None \<Rightarrow> None
               | Some (ok1, config, d1) \<Rightarrow>
                   let k1 = put_device env d1 k in
                   if \<not> ok1 then Some (False, k1, fs1)
                   else case GetLaunchEvent d1 (Some i) of
                     None \<Rightarrow> Some (False, k1, fs1)
                   | Some e \<Rightarrow>
                       (case GetRegisterEvent k1 (GetRegisterId k1 (le_hdl e) True) of
                          None \<Rightarrow> Some (False, k1, fs1)
                        | Some reg \<Rightarrow>
                            let (ok2, fs2) = DumpConfig (ke_save env) outputDir
                                  (event_config env outputDir reg e (om_isFFTS (kd_memInfoHistory d1 ! i)) config) fs1
                            in Some (ok2, k1, fs2))))"

section \<open>Flags and callbacks\<close>

definition MC2_AICPU_SUFFIX :: string where "MC2_AICPU_SUFFIX = ''Mc2AicpuKernel''"

definition SetMC2Flag :: "'f kernel_env \<Rightarrow> string \<Rightarrow> bool \<Rightarrow> launch_manager \<Rightarrow> kernel_context \<Rightarrow> kernel_context" where
  "SetMC2Flag env aiCpuKernelName isValid lm k =
     (let aiCoreKernelName = (case lm_GetLastContext lm of None \<Rightarrow> ''invalid_kernel_name'' | Some c \<Rightarrow> fn_kernelName (lc_func c));
          kernelName = take (length aiCpuKernelName - length MC2_AICPU_SUFFIX) aiCpuKernelName;
          isMC2 = (EndsWith aiCpuKernelName MC2_AICPU_SUFFIX \<and> isValid \<and>
            (aiCoreKernelName = kernelName \<or> StartsWith aiCoreKernelName (kernelName @ ''_'')));
          d = GetDeviceContext env k
      in put_device env (d\<lparr>kd_isMC2 := isMC2\<rparr>) k)"

definition SetLcclFlag :: "'f kernel_env \<Rightarrow> bool \<Rightarrow> kernel_context \<Rightarrow> kernel_context" where
  "SetLcclFlag env isLccl k = (let d = GetDeviceContext env k in put_device env (d\<lparr>kd_isLccl := isLccl\<rparr>) k)"

text \<open>The thread that runs the callbacks is started once; a stream is subscribed once.\<close>

definition SubscribeReport ::
  "'f kernel_env \<Rightarrow> ptr \<Rightarrow> stream_infos \<times> kernel_context \<Rightarrow> bool \<times> stream_infos \<times> kernel_context" where
  "SubscribeReport env stm st =
     (let (infos, k) = st; (info, infos1) = GetOrCreateStreamInfo stm infos in
      if si_subscribed info then (True, infos1, k)
      else let d = GetDeviceContext env k; k1 = put_device env (d\<lparr>kd_listening := True\<rparr>) k in
        case StringToNum_unsigned 64 (ke_threadId env) of
          None \<Rightarrow> (False, infos1, k1)
        | Some tid \<Rightarrow>
            if \<not> ke_subscribe env tid stm then (False, infos1, k1)
            else (True, omap_put stm (info\<lparr>si_subscribed := True\<rparr>) infos1, k1))"

section \<open>The tables stay consistent\<close>

text \<open>Every operation that changes the tables, in any surroundings.\<close>

inductive kx_step :: "'f kernel_env \<Rightarrow> kernel_context \<Rightarrow> kernel_context \<Rightarrow> bool" for env where
  binary: "AddHdlRegisterEvent env h bin stubBin k = Some k' \<Longrightarrow> kx_step env k k'"
| func: "kx_step env k (AddFuncRegisterEvent h stubFunc stubName ext mode k)"
| launch_stub: "AddLaunchEvent_stub env stubFunc blockDim args stm (infos, k) = (infos', k') \<Longrightarrow> kx_step env k k'"
| launch_handle: "AddLaunchEvent_handle env h key blockDim args stm (infos, k) = (infos', k') \<Longrightarrow> kx_step env k k'"
| dbi_binary: "SetDbiBinary env r bin k = (ok, k') \<Longrightarrow> kx_step env k k'"
| dbi_pc: "UpdatePcStartAddrByDbi env no args k = (ok, k') \<Longrightarrow> kx_step env k k'"
| args_size: "SetArgsSize env info k = Some k' \<Longrightarrow> kx_step env k k'"
| meta: "ParseMetaDataFromBinary env bin args (k, am) = Done (k', am') \<Longrightarrow> kx_step env k k'"
| archive: "kx_step env k (kx_ArchiveMemInfo env k)"
| clear: "kx_step env k (ClearArgsInfo env k)"
| mc2: "kx_step env k (SetMC2Flag env name valid lm k)"
| lccl: "kx_step env k (SetLcclFlag env flag k)"
| subscribe: "SubscribeReport env stm (infos, k) = (ok, infos', k') \<Longrightarrow> kx_step env k k'"
| save: "kx_Save env dir no (k, fs) = Some (ok, k', fs') \<Longrightarrow> kx_step env k k'"

definition kx_runs :: "'f kernel_env set \<Rightarrow> kernel_context \<Rightarrow> kernel_context \<Rightarrow> bool" where
  "kx_runs E = (\<lambda>k k'. \<exists>env \<in> E. kx_step env k k')\<^sup>*\<^sup>*"

text \<open>A launch is of one of two kinds; one by function is of a function that is still known under the same data.\<close>

definition launch_typed :: "(ptr \<times> StubFuncInfo) list \<Rightarrow> LaunchEvent \<Rightarrow> bool" where
  "launch_typed stubs e \<longleftrightarrow>
     (if le_launchWithHandle e then le_hasTilingKey e \<and> le_stubFunc e = 0
      else \<not> le_hasTilingKey e \<and> le_tilingKey e = 0 \<and>
        (\<exists>info. map_of stubs (le_stubFunc e) = Some info \<and> le_hdl e = sf_hdl info \<and> le_kernelName e = sf_kernelName info))"

definition device_typed :: "(ptr \<times> StubFuncInfo) list \<Rightarrow> kernel_device \<Rightarrow> bool" where
  "device_typed stubs d \<longleftrightarrow> (\<forall>e \<in> set (kd_launchEvents d). launch_typed stubs e)"

definition kernel_typed :: "kernel_context \<Rightarrow> bool" where
  "kernel_typed k \<longleftrightarrow> okeys (kx_stubInfo k) \<and> okeys (kx_hdlToRegId k) \<and> okeys (kx_devices k) \<and>
     (\<forall>(h, r) \<in> set (kx_hdlToRegId k). r < length (kx_registerEvents k) \<and> ev_hdl (kx_registerEvents k ! r) = h) \<and>
     (\<forall>(i, d) \<in> set (kx_devices k). device_typed (kx_stubInfo k) d)"

lemma kernel_typed_new [simp]: "kernel_typed new_kernel_context"
  by (simp add: kernel_typed_def new_kernel_context_def)

lemma put_device_tables [simp]:
  "kx_stubInfo (put_device env d k) = kx_stubInfo k" "kx_hdlToRegId (put_device env d k) = kx_hdlToRegId k"
  "kx_registerEvents (put_device env d k) = kx_registerEvents k"
  "kx_devices (put_device env d k) = omap_put (ke_deviceId env) d (kx_devices k)"
  by (simp_all add: put_device_def)

lemma put_device_typed: "kernel_typed k \<Longrightarrow> device_typed (kx_stubInfo k) d \<Longrightarrow> kernel_typed (put_device env d k)"
  using omap_put_subset [of "ke_deviceId env" d "kx_devices k"]
  by (auto simp: kernel_typed_def omap_put_sorted)

lemma GetDeviceContext_typed:
  assumes "kernel_typed k"
  shows "device_typed (kx_stubInfo k) (GetDeviceContext env k)"
proof (cases "map_of (kx_devices k) (ke_deviceId env)")
  case None
  then show ?thesis by (simp add: GetDeviceContext_def device_typed_def new_kernel_device_def)
next
  case (Some d)
  then show ?thesis using assms map_of_SomeD [OF Some] by (auto simp: GetDeviceContext_def kernel_typed_def)
qed

text \<open>An operation that leaves the launches of its device alone keeps the tables.\<close>

lemma same_launches_typed:
  "kernel_typed k \<Longrightarrow> kd_launchEvents d = kd_launchEvents (GetDeviceContext env k) \<Longrightarrow> kernel_typed (put_device env d k)"
  using GetDeviceContext_typed [of k env] by (intro put_device_typed) (simp_all add: device_typed_def)

lemma add_launch_typed: "kernel_typed k \<Longrightarrow> launch_typed (kx_stubInfo k) e \<Longrightarrow> kernel_typed (add_launch env e k)"
  using GetDeviceContext_typed [of k env] by (auto simp: add_launch_def Let_def device_typed_def intro!: put_device_typed)

lemma AddHdlRegisterEvent_typed:
  assumes "kernel_typed k" and "AddHdlRegisterEvent env h bin stubBin k = Some k'"
  shows "kernel_typed k'"
proof -
  have "k' = k \<or> (\<exists>e simt. ev_hdl e = h \<and> k' = k\<lparr>kx_hasSimt := simt,
      kx_hdlToRegId := omap_put h (length (kx_registerEvents k)) (kx_hdlToRegId k),
      kx_registerEvents := kx_registerEvents k @ [e]\<rparr>)"
    using assms(2) unfolding AddHdlRegisterEvent_def Let_def
    by (auto split: option.splits if_splits intro!: exI)
  then show ?thesis
  proof
    assume "\<exists>e simt. ev_hdl e = h \<and> k' = k\<lparr>kx_hasSimt := simt,
      kx_hdlToRegId := omap_put h (length (kx_registerEvents k)) (kx_hdlToRegId k),
      kx_registerEvents := kx_registerEvents k @ [e]\<rparr>"
    then show ?thesis
      using assms(1) omap_put_subset [of h "length (kx_registerEvents k)" "kx_hdlToRegId k"]
      by (fastforce simp: kernel_typed_def omap_put_sorted nth_append)
  qed (use assms(1) in simp)
qed

lemma AddFuncRegisterEvent_typed:
  assumes "kernel_typed k"
  shows "kernel_typed (AddFuncRegisterEvent h stubFunc stubName ext mode k)"
proof (cases "map_of (kx_stubInfo k) stubFunc")
  case None
  then obtain info where k': "AddFuncRegisterEvent h stubFunc stubName ext mode k =
      k\<lparr>kx_stubInfo := omap_put stubFunc info (kx_stubInfo k)\<rparr>"
    by (simp add: AddFuncRegisterEvent_def Let_def)
  have ok: "okeys (kx_stubInfo k)" using assms by (simp add: kernel_typed_def)
  have "launch_typed (omap_put stubFunc info (kx_stubInfo k)) e" if "launch_typed (kx_stubInfo k) e" for e
    using that None by (auto simp: launch_typed_def map_of_omap_put [OF ok] split: if_splits)
  then show ?thesis
    using assms unfolding k' by (fastforce simp: kernel_typed_def device_typed_def omap_put_sorted)
qed (use assms in \<open>simp add: AddFuncRegisterEvent_def Let_def\<close>)

lemma SetDbiBinary_typed:
  assumes "kernel_typed k" and "SetDbiBinary env r bin k = (ok, k')"
  shows "kernel_typed k'"
proof -
  have "k' = k \<or> (\<exists>bin syms. k' = k\<lparr>kx_registerEvents := (kx_registerEvents k)[r :=
      (kx_registerEvents k ! r)\<lparr>ev_stubBin := bin, ev_symbols := syms\<rparr>]\<rparr>)"
    using assms(2) by (auto simp: SetDbiBinary_def Let_def split: if_splits)
  moreover have "ev_hdl ((kx_registerEvents k)[r := (kx_registerEvents k ! r)\<lparr>ev_stubBin := bin, ev_symbols := syms\<rparr>] ! i) =
      ev_hdl (kx_registerEvents k ! i)" for bin syms i
    by (cases "i = r"; cases "r < length (kx_registerEvents k)") (simp_all add: list_update_beyond)
  ultimately show ?thesis using assms(1) by (auto simp: kernel_typed_def)
qed

definition with_pc :: "kernel_device \<Rightarrow> nat \<Rightarrow> u64 \<Rightarrow> kernel_device" where
  "with_pc d i pc = d\<lparr>kd_launchEvents := (kd_launchEvents d)[i := (kd_launchEvents d ! i)\<lparr>le_pcStartAddr := pc\<rparr>]\<rparr>"

lemma UpdatePcStartAddrByDbi_device:
  "UpdatePcStartAddrByDbi env no args k = (ok, k') \<Longrightarrow>
     k' = k \<or> (\<exists>i pc. i < length (kd_launchEvents (GetDeviceContext env k)) \<and> k' = put_device env (with_pc (GetDeviceContext env k) i pc) k)"
  by (cases no; cases "GetPcStartAddr env k args") (auto simp: UpdatePcStartAddrByDbi_def Let_def with_pc_def not_le split: if_splits)

lemma UpdatePcStartAddrByDbi_typed:
  assumes "kernel_typed k" and "UpdatePcStartAddrByDbi env no args k = (ok, k')"
  shows "kernel_typed k'"
proof (cases "k' = k")
  case False
  let ?d = "GetDeviceContext env k"
  obtain i pc where i: "i < length (kd_launchEvents ?d)" and k': "k' = put_device env (with_pc ?d i pc) k"
    using UpdatePcStartAddrByDbi_device [OF assms(2)] False by blast
  have t: "device_typed (kx_stubInfo k) ?d" by (rule GetDeviceContext_typed [OF assms(1)])
  then have "launch_typed (kx_stubInfo k) (kd_launchEvents ?d ! i)" using i by (simp add: device_typed_def)
  then have "launch_typed (kx_stubInfo k) ((kd_launchEvents ?d ! i)\<lparr>le_pcStartAddr := pc\<rparr>)" by (simp add: launch_typed_def)
  then have "device_typed (kx_stubInfo k) (with_pc ?d i pc)"
    using t set_update_subset_insert [of "kd_launchEvents ?d" i] by (auto simp: device_typed_def with_pc_def)
  then show ?thesis unfolding k' by (rule put_device_typed [OF assms(1)])
qed (use assms in simp)

lemma DumpKernelArgs_launches:
  "DumpKernelArgs env dir i c d = Some (ok, c', d') \<Longrightarrow> kd_launchEvents d' = kd_launchEvents d"
  by (auto simp: DumpKernelArgs_def Let_def split: if_splits option.splits prod.splits)

lemma kx_Save_device:
  "kx_Save env dir no (k, fs) = Some (ok, k', fs') \<Longrightarrow>
     k' = k \<or> (\<exists>d. k' = put_device env d k \<and> kd_launchEvents d = kd_launchEvents (GetDeviceContext env k))"
  by (auto simp: kx_Save_def Let_def split: if_splits option.splits prod.splits dest!: DumpKernelArgs_launches)

text \<open>Every other step changes at most its device, and not the launches there.\<close>

inductive_cases kx_stepE: "kx_step env k k'"

lemma kx_step_typed:
  assumes "kx_step env k k'" and "kernel_typed k"
  shows "kernel_typed k'"
  using assms(1)
proof cases
  case binary
  then show ?thesis using AddHdlRegisterEvent_typed assms(2) by blast
next
  case func
  then show ?thesis using AddFuncRegisterEvent_typed assms(2) by simp
next
  case launch_stub
  then show ?thesis
    using assms(2) by (auto simp: AddLaunchEvent_stub_def Let_def launch_typed_def split: option.splits prod.splits intro!: add_launch_typed)
next
  case launch_handle
  then show ?thesis
    using assms(2) by (auto simp: AddLaunchEvent_handle_def Let_def launch_typed_def split: prod.splits intro!: add_launch_typed)
next
  case dbi_binary
  then show ?thesis using SetDbiBinary_typed assms(2) by blast
next
  case dbi_pc
  then show ?thesis using UpdatePcStartAddrByDbi_typed assms(2) by blast
next
  case save
  then show ?thesis using kx_Save_device same_launches_typed assms(2) by metis
next
  case subscribe
  then show ?thesis
    using assms(2) by (auto simp: SubscribeReport_def Let_def split: option.splits prod.splits if_splits intro!: same_launches_typed)
qed (use assms(2) in \<open>auto simp: SetArgsSize_def ParseMetaDataFromBinary_def kx_ArchiveMemInfo_def ClearArgsInfo_def SetMC2Flag_def
  SetLcclFlag_def Let_def split: option.splits outcome.splits intro!: same_launches_typed\<close>)

lemma kx_runs_typed: "kx_runs E k k' \<Longrightarrow> kernel_typed k \<Longrightarrow> kernel_typed k'"
  unfolding kx_runs_def by (induction rule: rtranclp_induct) (auto dest: kx_step_typed)

text \<open>
  C36: The tables are well typed after any sequence of operations on any devices: every register number they give is that
  of a registered binary, the one with that handle, and every launch by function is of a function that is still
  registered with the binary and the name the launch has.
\<close>

theorem kernel_tables_typed:
  assumes "kx_runs E new_kernel_context k"
  shows "(GetRegisterId k key withHandle = Some r \<longrightarrow>
       (\<exists>e. GetRegisterEvent k (Some r) = Some e \<and> (withHandle \<longrightarrow> ev_hdl e = key))) \<and>
     (\<forall>(i, d) \<in> set (kx_devices k). \<forall>e \<in> set (kd_launchEvents d). launch_typed (kx_stubInfo k) e)"
proof -
  have t: "kernel_typed k" by (rule kx_runs_typed [OF assms]) simp
  then have "\<forall>h r. map_of (kx_hdlToRegId k) h = Some r \<longrightarrow>
      r < length (kx_registerEvents k) \<and> ev_hdl (kx_registerEvents k ! r) = h"
    unfolding kernel_typed_def by (auto dest: map_of_SomeD)
  then have "GetRegisterId k key withHandle = Some r \<longrightarrow>
       (\<exists>e. GetRegisterEvent k (Some r) = Some e \<and> (withHandle \<longrightarrow> ev_hdl e = key))"
    by (auto simp: GetRegisterId_def GetRegisterEvent_def split: if_splits option.splits)
  moreover have "\<forall>(i, d) \<in> set (kx_devices k). \<forall>e \<in> set (kd_launchEvents d). launch_typed (kx_stubInfo k) e"
    using t by (auto simp: kernel_typed_def device_typed_def)
  ultimately show ?thesis by blast
qed

section \<open>Launches keep their numbers\<close>

definition launch_at :: "kernel_context \<Rightarrow> int \<Rightarrow> nat \<Rightarrow> LaunchEvent option" where
  "launch_at k i no = (case map_of (kx_devices k) i of None \<Rightarrow> None | Some d \<Rightarrow> GetLaunchEvent d (Some no))"

definition keeps_launches :: "kernel_device \<Rightarrow> kernel_device \<Rightarrow> bool" where
  "keeps_launches d d' \<longleftrightarrow> (\<forall>no e. GetLaunchEvent d (Some no) = Some e \<longrightarrow>
     (\<exists>pc. GetLaunchEvent d' (Some no) = Some (e\<lparr>le_pcStartAddr := pc\<rparr>)))"

lemma keeps_launchesI:
  assumes "\<And>no e. GetLaunchEvent d (Some no) = Some e \<Longrightarrow> GetLaunchEvent d' (Some no) = Some e"
  shows "keeps_launches d d'"
  unfolding keeps_launches_def
proof (intro allI impI)
  fix no e
  assume "GetLaunchEvent d (Some no) = Some e"
  from assms [OF this] show "\<exists>pc. GetLaunchEvent d' (Some no) = Some (e\<lparr>le_pcStartAddr := pc\<rparr>)"
    by (intro exI [of _ "le_pcStartAddr e"]) simp
qed

lemma keeps_same: "kd_launchEvents d' = kd_launchEvents d \<Longrightarrow> keeps_launches d d'"
  by (rule keeps_launchesI) (simp add: GetLaunchEvent_def split: if_splits)

lemma keeps_append: "kd_launchEvents d' = kd_launchEvents d @ es \<Longrightarrow> keeps_launches d d'"
  by (rule keeps_launchesI) (auto simp: GetLaunchEvent_def nth_append split: if_splits)

lemma keeps_with_pc: "keeps_launches d (with_pc d i pc)"
  unfolding keeps_launches_def
proof (intro allI impI)
  fix no e
  assume "GetLaunchEvent d (Some no) = Some e"
  then show "\<exists>pc'. GetLaunchEvent (with_pc d i pc) (Some no) = Some (e\<lparr>le_pcStartAddr := pc'\<rparr>)"
    by (intro exI [of _ "if no = i then pc else le_pcStartAddr e"]) (auto simp: GetLaunchEvent_def with_pc_def split: if_splits)
qed

lemma put_device_keeps:
  assumes "okeys (kx_devices k)" and "keeps_launches (GetDeviceContext env k) d" and "launch_at k i no = Some e"
  shows "\<exists>pc. launch_at (put_device env d k) i no = Some (e\<lparr>le_pcStartAddr := pc\<rparr>)"
proof (cases "i = ke_deviceId env")
  case True
  with assms(3) have "GetLaunchEvent (GetDeviceContext env k) (Some no) = Some e"
    by (auto simp: launch_at_def GetDeviceContext_def split: option.splits)
  then show ?thesis
    using assms(2) True by (simp add: keeps_launches_def launch_at_def map_of_omap_put [OF assms(1)])
next
  case False
  then show ?thesis
    using assms(3) by (intro exI [of _ "le_pcStartAddr e"]) (simp add: launch_at_def map_of_omap_put [OF assms(1)])
qed

text \<open>A step changes no device, or one, where the launches are kept.\<close>

definition device_step :: "'f kernel_env \<Rightarrow> kernel_context \<Rightarrow> kernel_context \<Rightarrow> bool" where
  "device_step env k k' \<longleftrightarrow> kx_devices k' = kx_devices k \<or>
     (\<exists>d. keeps_launches (GetDeviceContext env k) d \<and> kx_devices k' = kx_devices (put_device env d k))"

lemma device_step_none: "kx_devices k' = kx_devices k \<Longrightarrow> device_step env k k'"
  by (simp add: device_step_def)

lemma device_step_put: "keeps_launches (GetDeviceContext env k) d \<Longrightarrow> device_step env k (put_device env d k)"
  unfolding device_step_def by (intro disjI2 exI [of _ d]) simp

lemma device_step_add: "device_step env k (add_launch env e k)"
  unfolding add_launch_def Let_def by (rule device_step_put) (simp add: keeps_append)

lemmas device_steps = device_step_put device_step_add keeps_same

lemma kx_step_device:
  assumes "kx_step env k k'"
  shows "device_step env k k'"
  using assms
proof cases
  case launch_stub
  then show ?thesis by (auto simp: AddLaunchEvent_stub_def Let_def split: option.splits prod.splits intro!: device_steps intro: device_step_none)
next
  case launch_handle
  then show ?thesis by (auto simp: AddLaunchEvent_handle_def Let_def split: prod.splits intro!: device_steps intro: device_step_none)
next
  case dbi_pc
  then show ?thesis using UpdatePcStartAddrByDbi_device keeps_with_pc device_step_put device_step_none by metis
next
  case save
  then show ?thesis using kx_Save_device keeps_same device_step_put device_step_none by metis
qed (auto simp: AddHdlRegisterEvent_def AddFuncRegisterEvent_def SetDbiBinary_def SetArgsSize_def ParseMetaDataFromBinary_def
  kx_ArchiveMemInfo_def ClearArgsInfo_def SetMC2Flag_def SetLcclFlag_def SubscribeReport_def Let_def
  split: option.splits outcome.splits prod.splits if_splits intro!: device_steps intro: device_step_none)

lemma kx_step_keeps:
  assumes "kx_step env k k'" and "kernel_typed k" and "launch_at k i no = Some e"
  shows "\<exists>pc. launch_at k' i no = Some (e\<lparr>le_pcStartAddr := pc\<rparr>)"
proof -
  consider "kx_devices k' = kx_devices k"
    | d where "keeps_launches (GetDeviceContext env k) d" "kx_devices k' = kx_devices (put_device env d k)"
    using kx_step_device [OF assms(1)] unfolding device_step_def by blast
  then show ?thesis
  proof cases
    case 1
    then show ?thesis using assms(3) by (intro exI [of _ "le_pcStartAddr e"]) (simp add: launch_at_def)
  next
    case 2
    have "okeys (kx_devices k)" using assms(2) by (simp add: kernel_typed_def)
    from put_device_keeps [OF this 2(1) assms(3)] show ?thesis using 2(2) by (simp add: launch_at_def)
  qed
qed

text \<open>
  C37: A launch keeps its number and its data: whatever is registered, launched, instrumented or saved afterwards, on any
  device, the launch found under a device and a number is the same but for its start address.
\<close>

theorem launches_kept:
  assumes "kx_runs E new_kernel_context k" and "kx_runs E k k'" and "launch_at k i no = Some e"
  shows "\<exists>pc. launch_at k' i no = Some (e\<lparr>le_pcStartAddr := pc\<rparr>)"
proof -
  have t: "kernel_typed k" by (rule kx_runs_typed [OF assms(1)]) simp
  have "kernel_typed k' \<and> (\<exists>pc. launch_at k' i no = Some (e\<lparr>le_pcStartAddr := pc\<rparr>))"
    using assms(2) unfolding kx_runs_def
  proof (induction rule: rtranclp_induct)
    case base
    then show ?case using t assms(3) by (auto intro!: exI [of _ "le_pcStartAddr e"])
  next
    case (step k1 k2)
    then obtain env pc where "env \<in> E" and s: "kx_step env k1 k2" "kernel_typed k1" "launch_at k1 i no = Some (e\<lparr>le_pcStartAddr := pc\<rparr>)"
      by blast
    from kx_step_keeps [OF s] kx_step_typed [OF s(1,2)] show ?case by auto
  qed
  then show ?thesis by blast
qed

section \<open>Kernels by tiling key, twice\<close>

lemma SplitString_end:
  "d \<notin> set ds \<Longrightarrow> ds \<noteq> [] \<Longrightarrow> \<exists>ts. ts \<noteq> [] \<and> SplitString (b @ d # ds) d = ts @ [ds]"
proof (induction "length b" arbitrary: b rule: less_induct)
  case less
  show ?case
  proof (cases "d \<in> set b")
    case False
    then show ?thesis using less.prems by (intro exI [of _ "[b]"]) (simp add: SplitString_step SplitString_last)
  next
    case True
    then obtain b1 b2 where b: "b = b1 @ d # b2" "d \<notin> set b1" by (metis split_list_first)
    then obtain ts where "ts \<noteq> []" "SplitString (b2 @ d # ds) d = ts @ [ds]"
      using less.hyps [of b2] less.prems by auto
    then show ?thesis using b by (intro exI [of _ "b1 # ts"]) (simp add: SplitString_step)
  qed
qed

lemma stream_dec_to_string:
  assumes "n < 2 ^ 64"
  shows "stream_dec (to_string n) old = word_of_nat n"
proof -
  have d: "list_all is_digit (to_string n)" by (rule to_string_digits)
  obtain c cs where c: "to_string n = c # cs" using to_string_nonempty [of n] by (cases "to_string n") auto
  have "\<not> is_space c" using d by (auto simp: c is_digit_def is_space_def)
  then have dw: "dropWhile is_space (to_string n) = to_string n" by (simp add: c)
  have tw: "takeWhile is_digit (to_string n) = to_string n" using d by (auto simp: list_all_iff takeWhile_eq_all_conv)
  have hd: "(hd (to_string n) = CHR ''-'') = False" "(hd (to_string n) = CHR ''+'') = False"
    using to_string_hd_no_sign [of n] by simp_all
  show ?thesis using assms unfolding stream_dec_def Let_def dw hd simp_thms if_False tw by simp
qed

lemma GetTilingKeyFromName_keyed:
  assumes "wf_tail t" and "n < 2 ^ 64"
  shows "GetTilingKeyFromName (keyed_symbol (b, n, t)) old = (True, word_of_nat n)"
proof -
  let ?ds = "to_string n"
  have "last (b @ ''_'' @ ?ds) \<noteq> CHR ''c''" "last (b @ ''_'' @ ?ds) \<noteq> CHR ''v''"
    using to_string_last_digit [of n] by (auto simp: last_append is_digit_def)
  then have no: "\<not> EndsWith (b @ ''_'' @ ?ds) MIX_AIC_TAIL" "\<not> EndsWith (b @ ''_'' @ ?ds) MIX_AIV_TAIL"
    by (auto simp: EndsWith_ex MIX_AIC_TAIL_def MIX_AIV_TAIL_def dest: arg_cong [where f = last])
  have name: "(if EndsWith (keyed_symbol (b, n, t)) MIX_AIC_TAIL \<or> EndsWith (keyed_symbol (b, n, t)) MIX_AIV_TAIL
      then take (length (keyed_symbol (b, n, t)) - 8) (keyed_symbol (b, n, t)) else keyed_symbol (b, n, t)) = b @ CHR ''_'' # ?ds"
  proof (cases "t = []")
    case True
    then show ?thesis using no by (simp add: keyed_symbol_def)
  next
    case False
    then have t: "t = MIX_AIC_TAIL \<or> t = MIX_AIV_TAIL" "length t = 8"
      using assms(1) by (auto simp: wf_tail_def MIX_AIC_TAIL_def MIX_AIV_TAIL_def)
    then have "EndsWith (keyed_symbol (b, n, t)) MIX_AIC_TAIL \<or> EndsWith (keyed_symbol (b, n, t)) MIX_AIV_TAIL"
      by (auto simp: EndsWith_ex keyed_symbol_def)
    then show ?thesis using t(2) by (simp add: keyed_symbol_def)
  qed
  obtain ts where "ts \<noteq> []" "SplitString (b @ CHR ''_'' # ?ds) CHR ''_'' = ts @ [?ds]"
    using SplitString_end [OF to_string_no_underscore to_string_nonempty] by blast
  then show ?thesis
    unfolding GetTilingKeyFromName_def name Let_def using stream_dec_to_string [OF assms(2)] by (cases ts) simp_all
qed

text \<open>A symbol without a key: the part behind its last underscore, less the tail, starts with a letter or the like.\<close>

definition untailed :: "string \<Rightarrow> string" where
  "untailed s = (if EndsWith s MIX_AIC_TAIL \<or> EndsWith s MIX_AIV_TAIL then take (length s - 8) s else s)"

definition last_part :: "string \<Rightarrow> string" where
  "last_part s = rev (takeWhile (\<lambda>c. c \<noteq> CHR ''_'') (rev s))"

definition plain_symbol :: "string \<Rightarrow> bool" where
  "plain_symbol s \<longleftrightarrow>
     (case last_part (untailed s) of
        [] \<Rightarrow> False
      | c # w \<Rightarrow> \<not> is_digit c \<and> \<not> is_space c \<and> c \<noteq> CHR ''-'' \<and> c \<noteq> CHR ''+'')"

lemma last_part_end: "CHR ''_'' \<notin> set w \<Longrightarrow> last_part (b @ CHR ''_'' # w) = w"
proof -
  assume "CHR ''_'' \<notin> set w"
  then have "takeWhile (\<lambda>c. c \<noteq> CHR ''_'') (rev w @ CHR ''_'' # rev b) = rev w" by (subst takeWhile_append2) auto
  then show ?thesis by (simp add: last_part_def)
qed

lemma last_part_cases:
  obtains "CHR ''_'' \<notin> set s" | b where "s = b @ CHR ''_'' # last_part s" "CHR ''_'' \<notin> set (last_part s)"
proof (cases "CHR ''_'' \<in> set s")
  case True
  then obtain xs ys where "rev s = ys @ CHR ''_'' # xs" "CHR ''_'' \<notin> set ys" by (metis set_rev split_list_first)
  then have "rev (rev s) = rev xs @ CHR ''_'' # rev ys" and n: "CHR ''_'' \<notin> set (rev ys)" by simp_all
  then have s: "s = rev xs @ CHR ''_'' # rev ys" by simp
  show thesis using that(2) [of "rev xs"] last_part_end [OF n, of "rev xs"] s n by simp
qed (use that(1) in blast)

lemma stream_dec_plain:
  "w = c # cs \<Longrightarrow> \<not> is_digit c \<Longrightarrow> \<not> is_space c \<Longrightarrow> c \<noteq> CHR ''-'' \<Longrightarrow> c \<noteq> CHR ''+'' \<Longrightarrow> stream_dec w old = 0"
  by (simp add: stream_dec_def Let_def)

lemma GetTilingKeyFromName_plain:
  assumes "plain_symbol s"
  shows "GetTilingKeyFromName s old \<in> {(False, old), (True, 0)}"
proof (cases rule: last_part_cases [of "untailed s"])
  case 1
  then have "length (SplitString (untailed s) CHR ''_'') < 2" by (cases "untailed s = []") (simp_all add: SplitString_last SplitString.simps [of "[]"] getline_def)
  then show ?thesis by (simp add: GetTilingKeyFromName_def untailed_def [symmetric] Let_def)
next
  case (2 b)
  obtain c w where w: "last_part (untailed s) = c # w" "\<not> is_digit c" "\<not> is_space c" "c \<noteq> CHR ''-''" "c \<noteq> CHR ''+''"
    using assms by (auto simp: plain_symbol_def split: list.splits)
  obtain ts where "ts \<noteq> []" "SplitString (untailed s) CHR ''_'' = ts @ [c # w]"
    using SplitString_end [OF 2(2), of b] w(1) 2(1) by auto
  then show ?thesis
    using stream_dec_plain [OF refl w(2-5)] by (cases ts) (simp_all add: GetTilingKeyFromName_def untailed_def [symmetric] Let_def)
qed

lemma plain_symbol_matches_none:
  assumes "plain_symbol s"
  shows "\<not> list_ex (EndsWith s) (key_suffixes key)"
proof -
  let ?k = "to_string (unat key)"
  have last: "last_part (p @ ''_'' @ ?k) = ?k" for p
    using last_part_end [OF to_string_no_underscore] by simp
  have digit: "\<exists>c w. ?k = c # w \<and> is_digit c"
    using to_string_digits [of "unat key"] to_string_nonempty [of "unat key"] by (cases ?k) auto
  have no: False if "untailed s = p @ ''_'' @ ?k" for p
    using assms last [of p] digit by (auto simp: plain_symbol_def that)
  have "untailed (p @ ''_'' @ ?k) = p @ ''_'' @ ?k" for p
  proof -
    have "last (p @ ''_'' @ ?k) \<noteq> CHR ''c''" "last (p @ ''_'' @ ?k) \<noteq> CHR ''v''"
      using to_string_last_digit [of "unat key"] by (auto simp: last_append is_digit_def)
    then have "\<not> EndsWith (p @ ''_'' @ ?k) MIX_AIC_TAIL" "\<not> EndsWith (p @ ''_'' @ ?k) MIX_AIV_TAIL"
      by (auto simp: EndsWith_ex MIX_AIC_TAIL_def MIX_AIV_TAIL_def dest: arg_cong [where f = last])
    then show ?thesis by (simp add: untailed_def)
  qed
  moreover have "untailed (p @ ''_'' @ ?k @ t) = p @ ''_'' @ ?k" if "t = MIX_AIC_TAIL \<or> t = MIX_AIV_TAIL" for p t
  proof -
    have "EndsWith (p @ ''_'' @ ?k @ t) t" "length t = 8" using that by (auto simp: EndsWith_ex MIX_AIC_TAIL_def MIX_AIV_TAIL_def)
    then show ?thesis using that by (auto simp: untailed_def)
  qed
  ultimately show ?thesis using no by (auto simp: key_suffixes_def EndsWith_ex)
qed

text \<open>Symbols with and without tiling keys, and the first one of a key.\<close>

definition is_symbol :: "(string \<times> nat \<times> string) option \<Rightarrow> string \<Rightarrow> bool" where
  "is_symbol x s = (case x of None \<Rightarrow> plain_symbol s | Some (b, n, t) \<Rightarrow> s = keyed_symbol (b, n, t) \<and> wf_tail t \<and> n < 2 ^ 64)"

definition has_key :: "u64 \<Rightarrow> (string \<times> nat \<times> string) option \<Rightarrow> bool" where
  "has_key key x = (case x of None \<Rightarrow> False | Some (b, n, t) \<Rightarrow> n = unat key)"

definition first_of_key :: "u64 \<Rightarrow> (string \<times> u64) list \<Rightarrow> (string \<times> nat \<times> string) option list \<Rightarrow> (string \<times> u64) option" where
  "first_of_key key syms ks = map_option fst (find (\<lambda>(s, x). has_key key x) (zip syms ks))"

lemma offset_of_key:
  "list_all2 (\<lambda>x s. is_symbol x (fst s)) ks syms \<Longrightarrow> key \<noteq> 0 \<or> None \<notin> set ks \<Longrightarrow>
     GetKernelOffsetByTilingKey syms key old = map_option snd (first_of_key key syms ks)"
proof (induction syms arbitrary: ks old)
  case Nil
  then show ?case by (simp add: first_of_key_def)
next
  case (Cons s syms)
  obtain x ks' where ks: "ks = x # ks'" using Cons.prems(1) by (cases ks) auto
  obtain name off where s: "s = (name, off)" by fastforce
  have x: "is_symbol x name" and k: "list_all2 (\<lambda>x s. is_symbol x (fst s)) ks' syms" "key \<noteq> 0 \<or> None \<notin> set ks'"
    using Cons.prems by (auto simp: ks s)
  show ?case
  proof (cases x)
    case None
    then have "key \<noteq> 0" "plain_symbol name" using Cons.prems(2) x by (auto simp: ks is_symbol_def)
    then show ?thesis
      using GetTilingKeyFromName_plain [of name old] Cons.IH [OF k] None
      by (auto simp: s ks first_of_key_def has_key_def)
  next
    case (Some y)
    obtain b n t where y: "y = (b, n, t)" by (cases y)
    have n: "name = keyed_symbol (b, n, t)" "wf_tail t" "n < 2 ^ 64" using x by (simp_all add: Some y is_symbol_def)
    have e: "(word_of_nat n = key) = (n = unat key)" using n(3) by (auto simp: unat_of_nat take_bit_nat_eq_self)
    show ?thesis
      using Cons.IH [OF k] e by (simp add: s ks n(1) Some y GetTilingKeyFromName_keyed [OF n(2,3)] first_of_key_def has_key_def)
  qed
qed

lemma name_of_key:
  "list_all2 (\<lambda>x s. is_symbol x (fst s)) ks syms \<Longrightarrow>
     find (\<lambda>name. list_ex (EndsWith name) (key_suffixes key)) (map fst syms) = map_option fst (first_of_key key syms ks)"
proof (induction syms arbitrary: ks)
  case Nil
  then show ?case by (simp add: first_of_key_def)
next
  case (Cons s syms)
  obtain x ks' where ks: "ks = x # ks'" using Cons.prems(1) by (cases ks) auto
  have x: "is_symbol x (fst s)" and k: "list_all2 (\<lambda>x s. is_symbol x (fst s)) ks' syms" using Cons.prems by (auto simp: ks)
  have "list_ex (EndsWith (fst s)) (key_suffixes key) \<longleftrightarrow> has_key key x"
  proof (cases x)
    case None
    then show ?thesis using x plain_symbol_matches_none by (simp add: is_symbol_def has_key_def)
  next
    case (Some y)
    then show ?thesis using x keyed_symbol_matches by (cases y) (simp add: is_symbol_def has_key_def)
  qed
  then show ?case using Cons.IH [OF k] by (simp add: ks first_of_key_def)
qed

text \<open>
  C38: A launch with a tiling key is located twice, by comparing the ends of symbol names and by reading the key out of
  them. When every symbol of the binary ends in a key (with or without the tail of a kernel of two core types) or in a part
  that starts with a letter, and the key is not 0 unless all of them end in a key, both find the same symbol, the first of
  that key: the launch gets that symbol's name and, when the runtime put the binary at a base address, that base. (For key
  0 the second way also takes a symbol without a key.)
\<close>

theorem handle_launch_located:
  assumes "kernel_typed k" and "map_of (kx_hdlToRegId k) h = Some r" and "syms = ev_symbols (kx_registerEvents k ! r)"
    and "list_all2 (\<lambda>x s. is_symbol x (fst s)) ks syms" and "key \<noteq> 0 \<or> None \<notin> set ks"
    and "first_of_key key syms ks = Some (name, off)"
    and "ke_kernelAddr env (OfHandle h key) = Some (base + off)" and "no_wrap base off"
  shows "\<exists>e. GetLastLaunchEvent (GetDeviceContext env (snd (AddLaunchEvent_handle env h key blockDim args stm (infos, k)))) = Some e \<and>
    le_hdl e = h \<and> le_tilingKey e = key \<and> le_kernelName e = name \<and> le_pcStartAddr e = base"
proof -
  have r: "r < length (kx_registerEvents k)" and ok: "okeys (kx_devices k)"
    using assms(1) map_of_SomeD [OF assms(2)] by (auto simp: kernel_typed_def)
  have one: "last (map fst syms) = name" if "length syms = 1"
  proof -
    have "\<exists>s. syms = [s]" using that by (simp add: length_Suc_conv)
    then obtain s where s: "syms = [s]" ..
    then have "s = (name, off)" using assms(6) by (cases ks) (auto simp: first_of_key_def split: if_splits)
    then show ?thesis by (simp add: s)
  qed
  then have n: "GetNameByTilingKey k h key = name"
    using name_of_key [OF assms(4), of key] assms(2,6) by (simp add: GetNameByTilingKey_def assms(3) [symmetric] Let_def)
  have "\<not> base + off < off" using unat_add_no_wrap [OF assms(8)] by (simp add: word_less_nat_alt)
  then have pc: "GetPcStartAddr env k (KernelHandleArgs h 0 key) = Some base"
    using offset_of_key [OF assms(4,5), of 0] assms(2,3,6,7) r
    by (simp add: GetPcStartAddr_def GetKernelAddr_def GetKernelOffset_def GetRegisterEvent_def GetRegisterId_def)
  show ?thesis
    by (simp add: AddLaunchEvent_handle_def n pc pc_or_0_def add_launch_def Let_def GetLastLaunchEvent_def GetDeviceContext_def [of env]
        map_of_omap_put [OF ok] split: prod.split)
qed

section \<open>Saved launches\<close>

lemma kx_DumpTilingData_config:
  assumes "dumped dir om c" and "dc_tilingDataPath c = []" and "kx_DumpTilingData env ai dir c = Some (ok, c')"
  shows "dumped dir om c'"
proof -
  have "c' = c \<or> (\<exists>n. c' = c\<lparr>dc_tilingDataPath := dir @ ''/input_tiling.bin'', dc_tilingDataSize := n\<rparr>)"
    using assms(3) by (auto simp: kx_DumpTilingData_def Let_def split: option.splits if_splits)
  then show ?thesis using assms(1) by (cases c) (auto simp: dumped_def empty_DumperContext_def)
qed

lemma DumpKernelArgs_dumped:
  assumes "DumpKernelArgs env dir i empty_DumperContext d = Some (True, c, d')"
  shows "dumped dir (kd_memInfoHistory d' ! i) c \<and> kd_launchEvents d' = kd_launchEvents d \<and> i < length (kd_launchEvents d)"
proof -
  have i: "i < length (kd_launchEvents d)" "i < length (kd_memInfoHistory d)"
    using assms by (auto simp: DumpKernelArgs_def split: if_splits)
  obtain om c1 where om: "DumpInputData (se_dump (ke_save env)) dir (om_inputs om) empty_DumperContext = (True, c1)"
      "d' = d\<lparr>kd_memInfoHistory := (kd_memInfoHistory d)[i := om]\<rparr>"
      "c = c1 \<or> kx_DumpTilingData env (le_argsInfo (kd_launchEvents d ! i)) dir c1 = Some (True, c)"
    using assms i unfolding DumpKernelArgs_def Let_def by (auto split: option.splits if_splits prod.splits)
  have d: "dumped dir om c"
    using dumped_inputs_only [OF om(1)] om(3) kx_DumpTilingData_config [OF _ dumped_inputs_no_tiling [OF om(1)]] by blast
  then show ?thesis using om(2) i by simp
qed

text \<open>
  C39: What a successful \<open>KernelContext::Save\<close> of a recorded launch (the one with the given number, or the last one when no
  number is given) leaves is that launch: next to the binary that was registered for its handle, an object from which the
  launcher takes that binary's path, the kernel and block dimension the launch was recorded with, its tiling key, the device,
  and the inputs with their lengths. (The kernel's name must pass the launcher's check, the block dimension fit 31 bits and the
  directory contain no semicolon.)
\<close>

theorem saved_event_runs:
  assumes "kx_Save env dir launchId (k, fs) = Some (True, k', fs')"
    and "i = (case launchId of None \<Rightarrow> length (kd_launchEvents (GetDeviceContext env k)) - 1 | Some n \<Rightarrow> n)"
    and "e = kd_launchEvents (GetDeviceContext env k) ! i" and "okeys (kx_devices k)"
    and "CheckInputStringValid (le_kernelName e) FILE_NAME_LENGTH_LIMIT" and "unat (le_blockDim e) < 2 ^ 31"
    and "- (2 ^ 31) \<le> se_devId (ke_save env)" and "se_devId (ke_save env) < 2 ^ 31" and "CHR '';'' \<notin> set dir"
    and "om = kd_memInfoHistory (GetDeviceContext env k') ! i" and "length (om_inputs om) < 2 ^ 32"
  shows "i < length (kd_launchEvents (GetDeviceContext env k)) \<and>
    (\<exists>fs1. DumpKernelObject env k (GetRegisterId k (le_hdl e) True) (JoinPath [dir, KERNEL_BIN_NAME]) fs = Some (True, fs1)) \<and>
    (\<exists>j kc. GetKernelConfig (Some j) new_parser = Parsed kc True \<and>
      (\<exists>fs1. WriteBinary (re_os (kreg env)) (JoinPath [dir, KERNEL_CONFIG_NAME]) (se_json (ke_save env) j) fs1 =
         (length (se_json (ke_save env) j), fs')) \<and>
      kc_kernelBinaryPath kc = JoinPath [dir, KERNEL_BIN_NAME] \<and> kc_kernelName kc = le_kernelName e \<and>
      kc_blockDim kc = uint (le_blockDim e) \<and> kc_deviceID kc = se_devId (ke_save env) \<and>
      (if kc_hasTilingKey kc then Some (kc_tilingKey kc) else None) = (if le_hasTilingKey e then Some (le_tilingKey e) else None) \<and>
      filter (\<lambda>p. pa_type p = ''input'') (kc_params kc) =
        map (\<lambda>(i, it). (input_param (if ai_length it = 0 then ''n'' else input_path_of dir i))\<lparr>pa_dataSize := Some (ai_length it)\<rparr>)
          (enumerate 0 (om_inputs om)))"
proof -
  let ?d = "GetDeviceContext env k" and ?i = i
  obtain saved where saved: "SaveAicore env k dir (launch_no ?d launchId) fs = Some (True, saved)"
    using assms(1) by (auto simp: kx_Save_def Let_def split: option.splits if_splits)
  then obtain e1 where e1: "GetLaunchEvent ?d (launch_no ?d (launch_no ?d launchId)) = Some e1"
    by (auto simp: SaveAicore_def Let_def split: option.splits)
  then have no: "launch_no ?d launchId = Some ?i"
    using assms(2) by (auto simp: launch_no_def GetLaunchId_def GetLaunchEvent_def split: if_splits option.splits)
  have last: "e = kd_launchEvents ?d ! ?i" and i: "?i < length (kd_launchEvents ?d)" and ev: "e1 = e"
    using e1 assms(3) unfolding no by (auto simp: launch_no_def GetLaunchEvent_def split: if_splits)
  have bin: "DumpKernelObject env k (GetRegisterId k (le_hdl e) True) (JoinPath [dir, KERNEL_BIN_NAME]) fs = Some (True, saved)"
    using saved e1 unfolding no by (auto simp: SaveAicore_def ev Let_def split: if_splits)
  obtain fs1 c d1 reg where args: "DumpKernelArgs env dir ?i empty_DumperContext ?d = Some (True, c, d1)"
    and k': "k' = put_device env d1 k"
    and dump: "DumpConfig (ke_save env) dir (event_config env dir reg (kd_launchEvents d1 ! ?i)
        (om_isFFTS (kd_memInfoHistory d1 ! ?i)) c) fs1 = (True, fs')"
    using assms(1) no by (auto simp: kx_Save_def Let_def GetLaunchEvent_def split: option.splits prod.splits if_splits)
  note d = DumpKernelArgs_dumped [OF args]
  have e: "kd_launchEvents d1 ! ?i = e" using d last by simp
  have om: "om = kd_memInfoHistory d1 ! ?i"
    using assms(10) k' by (simp add: GetDeviceContext_def map_of_omap_put [OF assms(4)])
  let ?cfg = "event_config env dir reg e (om_isFFTS om) c"
  have dump': "DumpConfig (ke_save env) dir ?cfg fs1 = (True, fs')" using dump by (simp only: e om)
  have json: "fst (ToJson ?cfg [])" using dump' by (auto simp: DumpConfig_def Let_def split: prod.splits if_splits)
  have cfg: "dc_inputPathList ?cfg = dc_inputPathList c" "dc_inputSizeList ?cfg = dc_inputSizeList c"
      "dc_tilingDataPath ?cfg = dc_tilingDataPath c"
      "CheckInputStringValid (dc_kernelName ?cfg) FILE_NAME_LENGTH_LIMIT" "unat (dc_blockDim ?cfg) < 2 ^ 31"
      "- (2 ^ 31) \<le> dc_devId ?cfg" "dc_devId ?cfg < 2 ^ 31"
    using assms(5-8) by (simp_all add: event_config_def)
  have "dumped dir om c" using d om by simp
  from dumped_config_loads [OF this json cfg assms(9,11)] obtain j magic where j: "ToJson ?cfg [] = (True, j)"
      "GetKernelConfig (Some j) new_parser = Parsed (launcher_config ?cfg magic) True"
      "filter (\<lambda>p. pa_type p = ''input'') (kc_params (launcher_config ?cfg magic)) =
        map (\<lambda>(i, it). (input_param (if ai_length it = 0 then ''n'' else input_path_of dir i))\<lparr>pa_dataSize := Some (ai_length it)\<rparr>)
          (enumerate 0 (om_inputs om))" by blast
  have w: "WriteBinary (re_os (kreg env)) (JoinPath [dir, KERNEL_CONFIG_NAME]) (se_json (ke_save env) j) fs1 =
      (length (se_json (ke_save env) j), fs')"
    using dump' j(1) by (auto simp: DumpConfig_def Let_def split: prod.splits)
  show ?thesis
    by (rule conjI [OF i], rule conjI, rule exI [of _ saved], rule bin, rule exI [of _ j], rule exI [of _ "launcher_config ?cfg magic"])
      (use w j(2,3) in \<open>auto simp: launcher_config_def event_config_def\<close>)
qed

section \<open>Runs on an example\<close>

definition demo_kernel_env :: "(string \<times> stat_info) list kernel_env" where
  "demo_kernel_env = \<lparr>ke_save = demo_save_env, ke_kernelAddr = \<lambda>q. Some 0x1080, ke_hostWord = \<lambda>p. Some 0x0101010101010101,
     ke_hostBytes = \<lambda>p n. Some (replicate n 0), ke_devWord = \<lambda>p. None, ke_adump = \<lambda>p i. 0, ke_deviceId = 0,
     ke_threadId = ''1'', ke_subscribe = \<lambda>t p. True\<rparr>"

definition demo_register_event :: RegisterEvent where
  "demo_register_event = \<lparr>ev_hdl = 5, ev_bin = \<lparr>db_magic = RT_DEV_BINARY_MAGIC_ELF_AIVEC, db_version = 0, db_data = rc_elfData meta_context\<rparr>,
     ev_stubBin = None, ev_symbols = [(''add_1_mix_aiv'', 0x80), (''add_2'', 0)], ev_isKernelWithDBI = True, ev_hasDebugLine = False\<rparr>"

definition demo_registered_kernel :: kernel_context where
  "demo_registered_kernel = new_kernel_context\<lparr>kx_registerEvents := [demo_register_event], kx_hdlToRegId := [(5, 0)]\<rparr>"

definition demo_launch_event :: LaunchEvent where
  "demo_launch_event = \<lparr>le_launchWithHandle = True, le_stubFunc = 0, le_hdl = 5, le_hasTilingKey = True, le_tilingKey = 1,
     le_pcStartAddr = 0x1000, le_blockDim = 8, le_kernelName = ''add_1_mix_aiv'',
     le_argsInfo = null_args\<lparr>kr_args := 0x5000, kr_argsSize := 8\<rparr>, le_isSink = False\<rparr>"

definition demo_launched_kernel :: kernel_context where
  "demo_launched_kernel = demo_registered_kernel\<lparr>kx_devices := [(0, new_kernel_device\<lparr>kd_launchEvents := [demo_launch_event],
     kd_memInfoHistory := [demo_launch_info]\<rparr>)]\<rparr>"

lemma demo_kernel_typed: "kernel_typed demo_registered_kernel"
  by (simp add: kernel_typed_def demo_registered_kernel_def new_kernel_context_def demo_register_event_def)

theorem kernel_tables_typed_witness:
  "\<exists>k e. kx_runs {demo_kernel_env} new_kernel_context k \<and> GetRegisterEvent k (GetRegisterId k 5 True) = Some e \<and> ev_hdl e = 5"
proof -
  let ?bin = "\<lparr>db_magic = 0, db_version = 0, db_data = []\<rparr> :: rtDevBinary"
  have f: "FromBuffer [] = Inl Rejected" by (simp add: FromBuffer_def LoadHeader_def ReadValueFromBuffer_def)
  obtain k where k: "AddHdlRegisterEvent demo_kernel_env 5 (Some ?bin) None new_kernel_context = Some k" "kx_hdlToRegId k = [(5, 0)]"
    by (simp add: AddHdlRegisterEvent_def HasStaticStub_def HasDebugLine_def has_section_def GetSectionHeaders_def f
        MAX_MEM_BYTE_SIZE_def new_kernel_context_def)
  have run: "kx_runs {demo_kernel_env} new_kernel_context k"
    unfolding kx_runs_def by (rule r_into_rtranclp) (use kx_step.binary [OF k(1)] in simp)
  have id: "GetRegisterId k 5 True = Some 0" using k(2) by (simp add: GetRegisterId_def)
  then obtain e where "GetRegisterEvent k (Some 0) = Some e" "ev_hdl e = 5"
    using kernel_tables_typed [OF run, of 5 True 0] by auto
  then show ?thesis using run id by auto
qed

theorem launches_kept_witness:
  "\<exists>k pc. kx_runs {demo_kernel_env} new_kernel_context k \<and> map_option le_blockDim (launch_at k 0 0) = Some 8 \<and>
     launch_at (kx_ArchiveMemInfo demo_kernel_env k) 0 0 = map_option (\<lambda>e. e\<lparr>le_pcStartAddr := pc\<rparr>) (launch_at k 0 0)"
proof -
  obtain infos k where k: "AddLaunchEvent_handle demo_kernel_env 5 1 8 None 3 ([], new_kernel_context) = (infos, k)" by fastforce
  have run: "kx_runs {demo_kernel_env} new_kernel_context k"
    unfolding kx_runs_def by (rule r_into_rtranclp) (use kx_step.launch_handle [OF k] in simp)
  have more: "kx_runs {demo_kernel_env} k (kx_ArchiveMemInfo demo_kernel_env k)"
    unfolding kx_runs_def by (rule r_into_rtranclp) (use kx_step.archive in simp)
  have dev: "ke_deviceId demo_kernel_env = 0" by (simp add: demo_kernel_env_def)
  obtain e where e: "launch_at k 0 0 = Some e" "le_blockDim e = 8"
    using k by (auto simp: AddLaunchEvent_handle_def add_launch_def Let_def launch_at_def GetLaunchEvent_def GetDeviceContext_def
        new_kernel_context_def new_kernel_device_def put_device_def dev split: prod.splits)
  from launches_kept [OF run more e(1)] obtain pc where
    "launch_at (kx_ArchiveMemInfo demo_kernel_env k) 0 0 = Some (e\<lparr>le_pcStartAddr := pc\<rparr>)" by blast
  then show ?thesis using run e by (intro exI [of _ k] exI [of _ pc]) simp
qed

theorem handle_launch_located_witness:
  "\<exists>e. GetLastLaunchEvent (GetDeviceContext demo_kernel_env (snd (AddLaunchEvent_handle demo_kernel_env 5 1 8 None 3
      ([], demo_registered_kernel)))) = Some e \<and> le_hdl e = 5 \<and> le_tilingKey e = 1 \<and> le_kernelName e = ''add_1_mix_aiv'' \<and>
    le_pcStartAddr e = 0x1000"
proof (rule handle_launch_located [OF demo_kernel_typed])
  let ?ks = "[Some (''add'', 1, MIX_AIV_TAIL), Some (''add'', 2, [])] :: (string \<times> nat \<times> string) option list"
  show "map_of (kx_hdlToRegId demo_registered_kernel) 5 = Some 0"
    by (simp add: demo_registered_kernel_def)
  show s: "[(''add_1_mix_aiv'', 0x80), (''add_2'', 0)] = ev_symbols (kx_registerEvents demo_registered_kernel ! 0)"
    by (simp add: demo_registered_kernel_def demo_register_event_def)
  have d: "to_string 1 = ''1''" "to_string 2 = ''2''"
    by (simp_all add: to_string.simps digit_char_def char_of_def bit_Suc_0_iff)
  show "list_all2 (\<lambda>x s. is_symbol x (fst s)) ?ks [(''add_1_mix_aiv'', 0x80), (''add_2'', 0)]"
    using d by (simp add: is_symbol_def keyed_symbol_def wf_tail_def MIX_AIV_TAIL_def)
  show "first_of_key 1 [(''add_1_mix_aiv'', 0x80), (''add_2'', 0)] ?ks = Some (''add_1_mix_aiv'', 0x80)"
    by (simp add: first_of_key_def has_key_def)
qed (simp_all add: demo_kernel_env_def no_wrap_def)

definition demo_saved_kernel :: kernel_context where
  "demo_saved_kernel = put_device demo_kernel_env (new_kernel_device\<lparr>kd_launchEvents := [demo_launch_event],
     kd_memInfoHistory := [demo_launch_info\<lparr>om_inputs := [demo_input]\<rparr>]\<rparr>) demo_launched_kernel"

lemma demo_event_saved:
  "kx_Save demo_kernel_env ''/tmp'' (Some 0) (demo_launched_kernel, demo_files) = Some (True, demo_saved_kernel, demo_files)"
proof -
  let ?env = demo_kernel_env and ?k = demo_launched_kernel and ?om = "demo_launch_info\<lparr>om_inputs := [demo_input]\<rparr>"
  let ?d = "new_kernel_device\<lparr>kd_launchEvents := [demo_launch_event], kd_memInfoHistory := [demo_launch_info]\<rparr>"
  have env: "ke_save ?env = demo_save_env" "kreg ?env = demo_reg_env" "re_os demo_reg_env = demo_os"
      "se_dump demo_save_env = demo_dump_env" "se_reg demo_save_env = demo_reg_env" "ke_hostWord ?env = (\<lambda>p. Some 0x0101010101010101)"
    by (simp_all add: demo_kernel_env_def demo_save_env_def demo_reg_env_def)
  have dev: "GetDeviceContext ?env ?k = ?d" by (simp add: GetDeviceContext_def demo_launched_kernel_def demo_kernel_env_def)
  have reg: "GetRegisterEvent ?k (GetRegisterId ?k (le_hdl demo_launch_event) True) = Some demo_register_event"
    by (simp add: GetRegisterEvent_def GetRegisterId_def demo_launched_kernel_def demo_registered_kernel_def demo_launch_event_def)
  have reg1: "GetRegisterEvent (put_device e d ?k) (GetRegisterId (put_device e d ?k) (le_hdl demo_launch_event) True) =
      Some demo_register_event" for e :: "(string \<times> stat_info) list kernel_env" and d
    using reg by (auto simp: GetRegisterEvent_def GetRegisterId_def split: option.splits if_splits)
  have l: "LoadHeader (db_data (ev_bin demo_register_event)) = Inr meta_ehdr"
    using meta_elf_image by (simp add: elf_image_def demo_register_event_def meta_context_def)
  have aicore: "SaveAicore ?env ?k ''/tmp'' (Some 0) demo_files = Some (True, demo_files)"
    using reg by (simp add: SaveAicore_def dev launch_no_def GetLaunchEvent_def DumpKernelObject_def l env
        demo_os_writes [OF demo_paths(1)] Let_def)
  have inputs: "DumpInputData demo_dump_env ''/tmp'' [demo_input] empty_DumperContext =
      (True, empty_DumperContext\<lparr>dc_inputPathList := [''/tmp/input_0.bin''], dc_inputSizeList := [16]\<rparr>)"
  proof -
    have "dumpable demo_dump_env demo_input"
      by (simp add: demo_dump_env_def dumpable_def MAX_MEM_SIZE_def demo_input_def)
    then show ?thesis
      using dump_inputs_all [of "[demo_input]" demo_dump_env "''/tmp''" 0 empty_DumperContext]
      by (simp add: DumpInputData_def demo_dump_env_def input_path_for_def input_path_of_def demo_input_def empty_DumperContext_def
          to_string.simps digit_char_def char_of_def bit_Suc_0_iff)
  qed
  let ?c = "empty_DumperContext\<lparr>dc_inputPathList := [''/tmp/input_0.bin''], dc_inputSizeList := [16 :: u64]\<rparr>"
  have addrs: "kx_UpdateNormalTaskArgsAddr ?env p demo_launch_info = Some ?om" for p
    by (simp add: kx_UpdateNormalTaskArgsAddr_def demo_launch_info_def env demo_input_def)
  have tiling: "kx_DumpTilingData ?env (le_argsInfo demo_launch_event) dir c = Some (True, c)" for dir c
    by (simp add: kx_DumpTilingData_def tiling_buffer_def demo_launch_event_def null_args_def)
  have args: "DumpKernelArgs ?env ''/tmp'' 0 empty_DumperContext ?d =
      Some (True, ?c, ?d\<lparr>kd_memInfoHistory := [?om]\<rparr>)"
  proof -
    have "le_argsInfo demo_launch_event = null_args\<lparr>kr_args := 0x5000, kr_argsSize := 8\<rparr>" "\<not> le_isSink demo_launch_event"
      by (simp_all add: demo_launch_event_def)
    then show ?thesis
      using tiling by (simp add: DumpKernelArgs_def env addrs inputs Let_def)
  qed
  have dump: "DumpConfig demo_save_env ''/tmp'' (event_config ?env ''/tmp'' demo_register_event demo_launch_event b ?c) demo_files =
      (True, demo_files)" for b
  proof -
    let ?cfg = "event_config ?env ''/tmp'' demo_register_event demo_launch_event b ?c"
    have "fst (ToJson ?cfg [])"
      by (simp add: ToJson_def Let_def event_config_def demo_register_event_def magic_name_def rtDevBinaryMagicElfAivec_def
          RT_DEV_BINARY_MAGIC_ELF_AIVEC_def)
    then obtain j where j: "ToJson ?cfg [] = (True, j)" by (cases "ToJson ?cfg []") auto
    show ?thesis by (simp add: DumpConfig_def j env demo_os_writes [OF demo_paths(2)] Let_def)
  qed
  have no: "launch_no ?d (Some 0) = Some 0" by (simp add: launch_no_def)
  show ?thesis
    by (simp add: kx_Save_def dev no aicore args GetLaunchEvent_def reg1 env dump demo_saved_kernel_def Let_def)
qed

theorem saved_event_runs_witness:
  "\<exists>j kc. GetKernelConfig (Some j) new_parser = Parsed kc True \<and> kc_kernelBinaryPath kc = ''/tmp/aicore_binary.o'' \<and>
     kc_kernelName kc = ''add_1_mix_aiv'' \<and> kc_blockDim kc = 8 \<and> kc_hasTilingKey kc \<and> kc_tilingKey kc = 1 \<and>
     map pa_dataSize (filter (\<lambda>p. pa_type p = ''input'') (kc_params kc)) = [Some 16]"
proof -
  let ?om = "demo_launch_info\<lparr>om_inputs := [demo_input]\<rparr>"
  have dev: "GetDeviceContext demo_kernel_env demo_launched_kernel = new_kernel_device\<lparr>kd_launchEvents := [demo_launch_event],
      kd_memInfoHistory := [demo_launch_info]\<rparr>"
    by (simp add: GetDeviceContext_def demo_launched_kernel_def demo_kernel_env_def)
  have e: "demo_launch_event = kd_launchEvents (GetDeviceContext demo_kernel_env demo_launched_kernel) ! 0" by (simp add: dev)
  have h: "okeys (kx_devices demo_launched_kernel)" "CheckInputStringValid (le_kernelName demo_launch_event) FILE_NAME_LENGTH_LIMIT"
      "unat (le_blockDim demo_launch_event) < 2 ^ 31" "- (2 ^ 31) \<le> se_devId (ke_save demo_kernel_env)"
      "se_devId (ke_save demo_kernel_env) < 2 ^ 31" "CHR '';'' \<notin> set ''/tmp''"
    by (simp_all add: demo_launched_kernel_def demo_launch_event_def CheckInputStringValid_def FILE_NAME_LENGTH_LIMIT_def is_alnum_def
        demo_kernel_env_def demo_save_env_def)
  have om: "?om = kd_memInfoHistory (GetDeviceContext demo_kernel_env demo_saved_kernel) ! 0"
    by (simp add: GetDeviceContext_def demo_saved_kernel_def demo_launched_kernel_def demo_kernel_env_def)
  have n: "length (om_inputs ?om) < 2 ^ 32" by simp
  obtain j kc where "GetKernelConfig (Some j) new_parser = Parsed kc True"
      "kc_kernelBinaryPath kc = JoinPath [''/tmp'', KERNEL_BIN_NAME]" "kc_kernelName kc = le_kernelName demo_launch_event"
      "kc_blockDim kc = uint (le_blockDim demo_launch_event)"
      "(if kc_hasTilingKey kc then Some (kc_tilingKey kc) else None) =
        (if le_hasTilingKey demo_launch_event then Some (le_tilingKey demo_launch_event) else None)"
      "filter (\<lambda>p. pa_type p = ''input'') (kc_params kc) =
        map (\<lambda>(i, it). (input_param (if ai_length it = 0 then ''n'' else input_path_of ''/tmp'' i))\<lparr>pa_dataSize := Some (ai_length it)\<rparr>)
          (enumerate 0 (om_inputs ?om))"
    using saved_event_runs [OF demo_event_saved _ e h om n] by auto
  then show ?thesis
    by (intro exI [of _ j] exI [of _ kc])
      (simp add: JoinPath_def KERNEL_BIN_NAME_def demo_launch_event_def demo_input_def split: if_splits)
qed

end
