(* ===== verification/LaunchArgs.thy ===== *)
theory LaunchArgs
  imports Args
begin

text \<open>
  Launch arguments of the runtime's own interface: \<open>csrc/runtime/inject_helpers/LaunchArgs.cpp\<close>. A pointer to the record
  buffer is put behind the parameters of the kernel, and what comes after them (tiling data, host inputs) moves back.
  Sizes and offsets are 32 bits wide and wrap; \<open>None\<close> is a read outside the arguments.
\<close>

section \<open>Sizes\<close>

definition GetAlignSize :: "u32 \<Rightarrow> u32" where
  "GetAlignSize s = (s + 8 - 1) div 8 * 8"

definition PTR_SIZE :: u32 where "PTR_SIZE = 8"

text \<open>\<open>rtArgsEx_t\<close>: the bytes of the arguments and the array of host inputs (address offset, data offset).\<close>

record ex_args =
  xa_args :: "u8 list option"
  xa_hostInput :: "(u32 \<times> u32) list option"
  xa_argsSize :: u32
  xa_tilingAddrOffset :: u32
  xa_tilingDataOffset :: u32
  xa_hostInputInfoNum :: u16
  xa_hasTiling :: bool
  xa_isNoNeedH2DCopy :: u8

definition first_data_offset :: "(u32 \<times> u32) list \<Rightarrow> u32 option" where
  "first_data_offset hs = (case hs of [] \<Rightarrow> None | (ao, dof) # hs' \<Rightarrow> Some dof)"

definition GetKernelParamNum_ex :: "ex_args option \<Rightarrow> u32 option" where
  "GetKernelParamNum_ex argsInfo =
     (case argsInfo of
        None \<Rightarrow> Some 0
      | Some a \<Rightarrow>
          if \<not> xa_hasTiling a then
            (case xa_hostInput a of
               Some hs \<Rightarrow> map_option (\<lambda>dof. dof div 8) (first_data_offset hs)
             | None \<Rightarrow> Some (GetAlignSize (xa_argsSize a) div 8))
          else Some (xa_tilingAddrOffset a div 8 + 1))"

definition GetKernelParamNum :: "u32 \<Rightarrow> u32" where
  "GetKernelParamNum argsSize = GetAlignSize argsSize div 8"

definition tiling_head :: "bool \<Rightarrow> ex_args \<Rightarrow> u32" where
  "tiling_head overflow a = xa_tilingAddrOffset a + PTR_SIZE + (if overflow then PTR_SIZE else 0)"

definition GetArgsSize :: "bool \<Rightarrow> ex_args \<Rightarrow> u32 option" where
  "GetArgsSize overflow a =
     (if \<not> xa_hasTiling a then
        (case xa_hostInput a of
           Some hs \<Rightarrow> map_option GetAlignSize (first_data_offset hs)
         | None \<Rightarrow> Some (GetAlignSize (xa_argsSize a)))
      else Some (GetAlignSize (tiling_head overflow a)))"

section \<open>Expansion\<close>

text \<open>The new arguments and where the pointer is in them; \<open>Some None\<close> is a refusal.\<close>

definition FillArgsWithMemInfo :: "ex_args \<Rightarrow> u8 list \<Rightarrow> ptr \<Rightarrow> u32 \<Rightarrow> (u8 list \<times> u32) option option" where
  "FillArgsWithMemInfo a bs memInfo headSize =
     (if headSize > xa_argsSize a then Some None
      else let alignHeadSize = GetAlignSize headSize; n = unat (xa_argsSize a); k = unat headSize
        in if length bs < n then None
           else Some (Some (take k bs @ replicate (unat alignHeadSize - k) 0 @ le_bytes 8 (unat memInfo) @ take (n - k) (drop k bs),
                            alignHeadSize)))"

definition ExpandArgs_ex ::
  "bool \<Rightarrow> ptr \<Rightarrow> ex_args \<Rightarrow> (ex_args \<times> u32) option option" where
  "ExpandArgs_ex overflow memInfo a =
     (if memInfo = 0 then Some None
      else case xa_args a of
        None \<Rightarrow> Some None
      | Some bs \<Rightarrow>
          if xa_isNoNeedH2DCopy a = 1 \<or> unat (xa_argsSize a) > MAX_ALL_PARAM_SIZE then Some None
          else
            let filled =
              (if \<not> xa_hasTiling a then
                 (case xa_hostInput a of
                    Some hs \<Rightarrow>
                      (case first_data_offset hs of
                         None \<Rightarrow> None | Some headSize \<Rightarrow> FillArgsWithMemInfo a bs memInfo headSize)
                  | None \<Rightarrow>
                      let alignArgsSize = GetAlignSize (xa_argsSize a); n = unat (xa_argsSize a) in
                      if length bs < n then None
                      else Some (Some (take n bs @ replicate (unat alignArgsSize - n) 0 @ le_bytes 8 (unat memInfo), alignArgsSize)))
               else FillArgsWithMemInfo a bs memInfo (tiling_head overflow a));
              num = unat (xa_hostInputInfoNum a)
            in case filled of
                 None \<Rightarrow> None
               | Some None \<Rightarrow> Some None
               | Some (Some (bs1, memInfoOffset)) \<Rightarrow>
                   (case xa_hostInput a of
                      Some hs \<Rightarrow>
                        if length hs < num then None
                        else Some (Some (a\<lparr>xa_args := Some bs1, xa_argsSize := word_of_nat (length bs1),
                               xa_tilingDataOffset := xa_tilingDataOffset a + (if xa_hasTiling a then PTR_SIZE else 0),
                               xa_hostInput := Some (map (\<lambda>(ao, dof). (ao, dof + PTR_SIZE)) (take num hs))\<rparr>, memInfoOffset))
                    | None \<Rightarrow>
                        Some (Some (a\<lparr>xa_args := Some bs1, xa_argsSize := word_of_nat (length bs1),
                               xa_tilingDataOffset := xa_tilingDataOffset a + (if xa_hasTiling a then PTR_SIZE else 0),
                               xa_hostInput := Some (replicate num (0, 0))\<rparr>, memInfoOffset))))"

definition ExpandArgs :: "ptr \<Rightarrow> u8 list \<Rightarrow> u32 \<Rightarrow> (u8 list \<times> u32) option option" where
  "ExpandArgs memInfo args argsSize =
     (if memInfo = 0 \<or> unat argsSize > MAX_ALL_PARAM_SIZE then Some None
      else let alignArgsSize = GetAlignSize argsSize; n = unat argsSize in
        if length args < n then None
        else let bs = take n args @ replicate (unat alignArgsSize - n) 0 @ le_bytes 8 (unat memInfo)
             in Some (Some (bs, word_of_nat (length bs))))"

section \<open>What expansion keeps\<close>

lemma GetAlignSize_unat:
  assumes "unat s \<le> MAX_ALL_PARAM_SIZE + 8"
  shows "unat (GetAlignSize s) = (unat s + 7) div 8 * 8" "unat s \<le> unat (GetAlignSize s)" "unat (GetAlignSize s) < unat s + 8"
proof -
  have b: "unat s + 7 < 2 ^ 32" using assms by (simp add: MAX_ALL_PARAM_SIZE_def)
  have e: "s + 8 - 1 = s + 7" by simp
  have "unat (s + 7) = unat s + 7" using b by (simp add: unat_word_ariths)
  then have "unat ((s + 7) div 8 * 8) = (unat s + 7) div 8 * 8"
    using b by (simp add: unat_word_ariths unat_div)
  then show u: "unat (GetAlignSize s) = (unat s + 7) div 8 * 8" by (simp add: GetAlignSize_def e)
  show "unat s \<le> unat (GetAlignSize s)" "unat (GetAlignSize s) < unat s + 8" unfolding u by presburger+
qed

text \<open>
  The first \<open>n\<close> of the arguments with a pointer put in: it stands at \<open>off\<close>, a multiple of 8, less than 8 bytes behind the
  \<open>k\<close> bytes that stay in front, and what came after those follows it.
\<close>

definition pointer_at :: "u8 list \<Rightarrow> nat \<Rightarrow> u8 list \<Rightarrow> nat \<Rightarrow> ptr \<Rightarrow> bool" where
  "pointer_at bs n new off p \<longleftrightarrow> 8 dvd off \<and> take 8 (drop off new) = le_bytes 8 (unat p) \<and>
     (\<exists>k \<le> n. k \<le> off \<and> off < k + 8 \<and> take k new = take k bs \<and> drop (off + 8) new = take (n - k) (drop k bs))"

lemma pointer_at_put:
  assumes "k \<le> n" and "n \<le> length bs" and "unat s = k" and "k \<le> MAX_ALL_PARAM_SIZE"
  shows "pointer_at bs n (take k bs @ replicate (unat (GetAlignSize s) - k) 0 @ le_bytes 8 (unat p) @ take (n - k) (drop k bs))
    (unat (GetAlignSize s)) p"
proof -
  have "unat s \<le> MAX_ALL_PARAM_SIZE + 8" using assms(3,4) by simp
  note a = GetAlignSize_unat [OF this, unfolded assms(3)]
  have "8 dvd unat (GetAlignSize s)" unfolding a(1) by simp
  moreover have "min (length bs) k = k" using assms(1,2) by simp
  ultimately show ?thesis
    using a(2,3) assms(1,2) by (auto simp: pointer_at_def intro!: exI [of _ k])
qed

lemma FillArgsWithMemInfo_layout:
  assumes "FillArgsWithMemInfo a bs p headSize = Some (Some (new, off))" and "unat (xa_argsSize a) \<le> MAX_ALL_PARAM_SIZE"
  shows "off = GetAlignSize headSize \<and> pointer_at bs (unat (xa_argsSize a)) new (unat off) p"
proof -
  have h: "unat headSize \<le> unat (xa_argsSize a)" "unat (xa_argsSize a) \<le> length bs" "off = GetAlignSize headSize"
    "new = take (unat headSize) bs @ replicate (unat (GetAlignSize headSize) - unat headSize) 0 @ le_bytes 8 (unat p) @
       take (unat (xa_argsSize a) - unat headSize) (drop (unat headSize) bs)"
    using assms(1) by (auto simp: FillArgsWithMemInfo_def Let_def word_less_nat_alt not_less split: if_splits)
  then show ?thesis using pointer_at_put [OF h(1,2) refl] assms(2) by simp
qed

text \<open>
  C40: When the arguments of a launch are expanded, the offset the instrumentation is told (\<open>GetArgsSize\<close>) is the one the
  expansion returns, in every layout of the arguments, and at that offset of the new arguments stand the bytes of the
  pointer: in front of it, but for less than 8 bytes of padding, the same bytes as before, and behind it the rest of them.
\<close>

theorem instrumented_offset_agrees:
  assumes "ExpandArgs_ex overflow memInfo a = Some (Some (a', off))"
  shows "GetArgsSize overflow a = Some off \<and>
    (\<exists>bs new. xa_args a = Some bs \<and> xa_args a' = Some new \<and> pointer_at bs (unat (xa_argsSize a)) new (unat off) memInfo)"
proof -
  obtain bs where bs: "xa_args a = Some bs" and sz: "unat (xa_argsSize a) \<le> MAX_ALL_PARAM_SIZE"
    using assms by (auto simp: ExpandArgs_ex_def split: if_splits option.splits)
  let ?n = "unat (xa_argsSize a)"
  have told: "GetArgsSize overflow a = Some off"
    using assms by (auto simp: ExpandArgs_ex_def GetArgsSize_def FillArgsWithMemInfo_def Let_def split: if_splits option.splits)
  have "\<exists>new. xa_args a' = Some new \<and> pointer_at bs ?n new (unat off) memInfo"
  proof (cases "\<not> xa_hasTiling a \<and> xa_hostInput a = None")
    case True
    then have e: "xa_args a' = Some (take ?n bs @ replicate (unat (GetAlignSize (xa_argsSize a)) - ?n) 0 @ le_bytes 8 (unat memInfo))"
      "off = GetAlignSize (xa_argsSize a)" "?n \<le> length bs"
      using assms bs by (auto simp: ExpandArgs_ex_def Let_def split: if_splits option.splits)
    then show ?thesis using pointer_at_put [OF order_refl e(3) refl sz, of memInfo] by simp
  next
    case False
    then obtain headSize new where "FillArgsWithMemInfo a bs memInfo headSize = Some (Some (new, off))" "xa_args a' = Some new"
      using assms bs by (auto simp: ExpandArgs_ex_def Let_def split: if_splits option.splits)
    then show ?thesis using FillArgsWithMemInfo_layout [OF _ sz] by blast
  qed
  with told bs show ?thesis by blast
qed

definition demo_bs :: "u8 list" where
  "demo_bs = [1, 2, 3, 4, 5, 6, 7, 8, 9, 10, 11, 12, 13, 14, 15, 16, 17, 18]"

definition demo_ex_args :: "u32 \<Rightarrow> u32 \<Rightarrow> ex_args" where
  "demo_ex_args tilingAddr tilingData = \<lparr>xa_args = Some demo_bs, xa_hostInput = None,
     xa_argsSize = 18, xa_tilingAddrOffset = tilingAddr, xa_tilingDataOffset = tilingData, xa_hostInputInfoNum = 0,
     xa_hasTiling = True, xa_isNoNeedH2DCopy = 0\<rparr>"

definition demo_expanded :: ex_args where
  "demo_expanded = (demo_ex_args 8 16)\<lparr>xa_args := Some (take 16 demo_bs @
     [64, 0, 0, 0, 0, 0, 0, 0] @ [17, 18]), xa_argsSize := 26, xa_tilingDataOffset := 24, xa_hostInput := Some []\<rparr>"

lemma demo_bytes: "le_bytes 8 64 = [64, 0, 0, 0, 0, 0, 0, 0]" "replicate 4 (0 :: u8) = [0, 0, 0, 0]"
proof -
  have "8 = Suc (Suc (Suc (Suc (Suc (Suc (Suc (Suc 0)))))))" by simp
  then show "le_bytes 8 64 = [64, 0, 0, 0, 0, 0, 0, 0]" by (simp only: le_bytes.simps) simp
  have "4 = Suc (Suc (Suc (Suc 0)))" by simp
  then show "replicate 4 (0 :: u8) = [0, 0, 0, 0]" by (simp only: replicate.simps)
qed

lemma demo_split: "take 16 demo_bs = [1, 2, 3, 4, 5, 6, 7, 8, 9, 10, 11, 12, 13, 14, 15, 16]" "drop 16 demo_bs = [17, 18]"
  "length demo_bs = 18"
  by (simp_all add: demo_bs_def)

lemma demo_align: "GetAlignSize 16 = 16"
  by (simp add: GetAlignSize_def)

lemma demo_nats: "unat (16 :: u32) = 16" "unat (18 :: u32) = 18" "unat (64 :: ptr) = 64" "18 - 16 = (2 :: nat)"
  "take 2 [17, 18 :: u8] = [17, 18]" "\<not> (16 :: u32) > 18" "\<not> (18 :: nat) < 18"
  by simp_all

lemma demo_fill: "FillArgsWithMemInfo (demo_ex_args 8 16) demo_bs 64 16 =
    Some (Some (take 16 demo_bs @ [64, 0, 0, 0, 0, 0, 0, 0] @ [17, 18], 16))"
proof -
  have s: "xa_argsSize (demo_ex_args 8 16) = 18" by (simp add: demo_ex_args_def)
  show ?thesis
    unfolding FillArgsWithMemInfo_def s Let_def demo_align demo_nats demo_split
    by (simp add: demo_bytes)
qed

lemma demo_expansion: "ExpandArgs_ex False 64 (demo_ex_args 8 16) = Some (Some (demo_expanded, 16))"
proof -
  have "tiling_head False (demo_ex_args 8 16) = 16" "xa_tilingDataOffset (demo_ex_args 8 16) = 16"
    by (simp_all add: demo_ex_args_def tiling_head_def PTR_SIZE_def)
  then show ?thesis
    unfolding ExpandArgs_ex_def demo_expanded_def using demo_fill
    by (simp add: demo_ex_args_def MAX_ALL_PARAM_SIZE_def PTR_SIZE_def demo_split)
qed

theorem instrumented_offset_agrees_witness:
  "GetArgsSize False (demo_ex_args 8 16) = Some 16 \<and>
   (\<exists>new. xa_args demo_expanded = Some new \<and> take 8 (drop 16 new) = le_bytes 8 64)"
  using instrumented_offset_agrees [OF demo_expansion] by (auto simp: pointer_at_def demo_nats)

text \<open>
  Expansion puts the pointer at the offset it returns, keeps every byte in front of the parameters' end, and keeps what
  comes after: when the parameters end at a multiple of 8, the tiling data is found at the new offset as it was at the
  old one, and so is the data of every host input.
\<close>

lemma expansion_keeps_data:
  assumes "ExpandArgs_ex overflow memInfo a = Some (Some (a', off))" and "xa_hasTiling a" and "xa_args a = Some bs"
    and "length bs = unat (xa_argsSize a)" and "8 dvd unat (tiling_head overflow a)"
    and "tiling_head overflow a \<le> xa_tilingDataOffset a" and "unat (xa_tilingDataOffset a) + n \<le> length bs"
  shows "\<exists>bs'. xa_args a' = Some bs' \<and> length bs' = length bs + 8 \<and> take 8 (drop (unat off) bs') = le_bytes 8 (unat memInfo) \<and>
    take (unat off) bs' = take (unat off) bs \<and>
    take n (drop (unat (xa_tilingDataOffset a')) bs') = take n (drop (unat (xa_tilingDataOffset a)) bs)"
proof -
  let ?h = "tiling_head overflow a"
  have sz: "unat (xa_argsSize a) \<le> MAX_ALL_PARAM_SIZE" and h: "?h \<le> xa_argsSize a"
    using assms(1-3) by (auto simp: ExpandArgs_ex_def FillArgsWithMemInfo_def Let_def split: if_splits option.splits)
  have hn: "unat ?h \<le> unat (xa_argsSize a)" using h by (simp add: word_le_nat_alt)
  have al: "unat (GetAlignSize ?h) = unat ?h"
    using GetAlignSize_unat [of ?h] hn sz assms(5) by (auto elim!: dvdE)
  let ?bs = "take (unat ?h) bs @ le_bytes 8 (unat memInfo) @ drop (unat ?h) bs"
  have a': "xa_args a' = Some ?bs" "off = GetAlignSize ?h" "xa_tilingDataOffset a' = xa_tilingDataOffset a + 8"
    using assms(1-4) h al
    by (auto simp: ExpandArgs_ex_def FillArgsWithMemInfo_def Let_def PTR_SIZE_def split: if_splits option.splits)
  have t: "unat (xa_tilingDataOffset a + 8) = unat (xa_tilingDataOffset a) + 8"
    using assms(4,7) sz by (simp add: unat_word_ariths MAX_ALL_PARAM_SIZE_def)
  have hl: "unat ?h \<le> length bs" using hn assms(4) by simp
  have th: "unat ?h \<le> unat (xa_tilingDataOffset a)" using assms(6) by (simp add: word_le_nat_alt)
  have "drop (unat (xa_tilingDataOffset a) + 8) ?bs = drop (unat (xa_tilingDataOffset a)) bs"
    using hl th by simp
  then show ?thesis
    using a' al t hl by simp
qed

text \<open>
  With the end of the parameters at an offset that is no multiple of 8, the tiling data moves by more than the offset does:
  the kernel reads it from the wrong place.
\<close>

lemma unaligned_tiling_data_lost:
  "\<exists>a' bs'. ExpandArgs_ex False 64 (demo_ex_args 4 12) = Some (Some (a', 16)) \<and> xa_args a' = Some bs' \<and>
     drop 12 demo_bs = drop 24 bs' \<and> xa_tilingDataOffset a' = 20"
  by (simp add: ExpandArgs_ex_def FillArgsWithMemInfo_def demo_ex_args_def tiling_head_def PTR_SIZE_def
      GetAlignSize_def MAX_ALL_PARAM_SIZE_def demo_bytes demo_bs_def)

end
