(* ===== verification/Platform.thy ===== *)
theory Platform
  imports Prelude
begin

text \<open>
  Chips and devices: \<open>csrc/core/PlatformConfig.h\<close>. The names of the chips, their series (the enumeration value with its low
  eight bits cleared) and the kinds of device, which decide how many sub-blocks a block has and what the record buffer
  holds.
\<close>

section \<open>Enumerations\<close>

datatype (plugins only: size) ChipProductType =
    ALL_PRODUCT_TYPE | UNKNOWN_PRODUCT_TYPE | ASCEND310P_SERIES | ASCEND310P1 | ASCEND310P2 | ASCEND310P3 |
    ASCEND310P4 | ASCEND310P5 | ASCEND310P7 | ASCEND310B_SERIES | ASCEND310B1 | ASCEND310B2 | ASCEND310B3 |
    ASCEND310B4 | ASCEND910B_SERIES | ASCEND910B1 | ASCEND910B2 | ASCEND910B3 | ASCEND910B4 | ASCEND910B2C |
    ASCEND910B4_1 | ASCEND910_93_SERIES | ASCEND910_9391 | ASCEND910_9392 | ASCEND910_9381 | ASCEND910_9382 |
    ASCEND910_9372 | ASCEND910_9362 | ASCEND310_SERIES | ASCEND310 | ASCEND910A_SERIES | ASCEND910A | ASCEND910B |
    ASCEND910PROA | ASCEND910PROB | ASCEND910PREMIUMA | ASCEND610_SERIES | ASCEND615_SERIES | ASCEND950_SERIES |
    ASCEND950DT_950X | ASCEND950DT_950Y | ASCEND950DT_9571 | ASCEND950DT_9572 | ASCEND950DT_9573 | ASCEND950DT_9574 |
    ASCEND950DT_9575 | ASCEND950DT_9576 | ASCEND950DT_9577 | ASCEND950DT_9578 | ASCEND950DT_9581 | ASCEND950DT_9582 |
    ASCEND950DT_9583 | ASCEND950DT_9584 | ASCEND950DT_9585 | ASCEND950DT_9586 | ASCEND950DT_9587 | ASCEND950DT_9588 |
    ASCEND950DT_9591 | ASCEND950DT_9592 | ASCEND950DT_9595 | ASCEND950DT_9596 | ASCEND950DT_95A1 | ASCEND950DT_95A2 |
    ASCEND950PR_950Z | ASCEND950PR_9579 | ASCEND950PR_957B | ASCEND950PR_957C | ASCEND950PR_957D | ASCEND950PR_9589 |
    ASCEND950PR_958B | ASCEND950PR_9599

primrec ChipProductType_code :: "ChipProductType \<Rightarrow> nat" where
  "ChipProductType_code ALL_PRODUCT_TYPE = 0" | "ChipProductType_code UNKNOWN_PRODUCT_TYPE = 1" |
  "ChipProductType_code ASCEND310P_SERIES = 256" | "ChipProductType_code ASCEND310P1 = 257" |
  "ChipProductType_code ASCEND310P2 = 258" | "ChipProductType_code ASCEND310P3 = 259" |
  "ChipProductType_code ASCEND310P4 = 260" | "ChipProductType_code ASCEND310P5 = 261" |
  "ChipProductType_code ASCEND310P7 = 262" | "ChipProductType_code ASCEND310B_SERIES = 512" |
  "ChipProductType_code ASCEND310B1 = 513" | "ChipProductType_code ASCEND310B2 = 514" |
  "ChipProductType_code ASCEND310B3 = 515" | "ChipProductType_code ASCEND310B4 = 516" |
  "ChipProductType_code ASCEND910B_SERIES = 768" | "ChipProductType_code ASCEND910B1 = 769" |
  "ChipProductType_code ASCEND910B2 = 770" | "ChipProductType_code ASCEND910B3 = 771" |
  "ChipProductType_code ASCEND910B4 = 772" | "ChipProductType_code ASCEND910B2C = 773" |
  "ChipProductType_code ASCEND910B4_1 = 774" | "ChipProductType_code ASCEND910_93_SERIES = 1024" |
  "ChipProductType_code ASCEND910_9391 = 1025" | "ChipProductType_code ASCEND910_9392 = 1026" |
  "ChipProductType_code ASCEND910_9381 = 1027" | "ChipProductType_code ASCEND910_9382 = 1028" |
  "ChipProductType_code ASCEND910_9372 = 1029" | "ChipProductType_code ASCEND910_9362 = 1030" |
  "ChipProductType_code ASCEND310_SERIES = 1280" | "ChipProductType_code ASCEND310 = 1281" |
  "ChipProductType_code ASCEND910A_SERIES = 1536" | "ChipProductType_code ASCEND910A = 1537" |
  "ChipProductType_code ASCEND910B = 1538" | "ChipProductType_code ASCEND910PROA = 1539" |
  "ChipProductType_code ASCEND910PROB = 1540" | "ChipProductType_code ASCEND910PREMIUMA = 1541" |
  "ChipProductType_code ASCEND610_SERIES = 1792" | "ChipProductType_code ASCEND615_SERIES = 2048" |
  "ChipProductType_code ASCEND950_SERIES = 2304" | "ChipProductType_code ASCEND950DT_950X = 2305" |
  "ChipProductType_code ASCEND950DT_950Y = 2306" | "ChipProductType_code ASCEND950DT_9571 = 2307" |
  "ChipProductType_code ASCEND950DT_9572 = 2308" | "ChipProductType_code ASCEND950DT_9573 = 2309" |
  "ChipProductType_code ASCEND950DT_9574 = 2310" | "ChipProductType_code ASCEND950DT_9575 = 2311" |
  "ChipProductType_code ASCEND950DT_9576 = 2312" | "ChipProductType_code ASCEND950DT_9577 = 2313" |
  "ChipProductType_code ASCEND950DT_9578 = 2314" | "ChipProductType_code ASCEND950DT_9581 = 2315" |
  "ChipProductType_code ASCEND950DT_9582 = 2316" | "ChipProductType_code ASCEND950DT_9583 = 2317" |
  "ChipProductType_code ASCEND950DT_9584 = 2318" | "ChipProductType_code ASCEND950DT_9585 = 2319" |
  "ChipProductType_code ASCEND950DT_9586 = 2320" | "ChipProductType_code ASCEND950DT_9587 = 2321" |
  "ChipProductType_code ASCEND950DT_9588 = 2322" | "ChipProductType_code ASCEND950DT_9591 = 2323" |
  "ChipProductType_code ASCEND950DT_9592 = 2324" | "ChipProductType_code ASCEND950DT_9595 = 2325" |
  "ChipProductType_code ASCEND950DT_9596 = 2326" | "ChipProductType_code ASCEND950DT_95A1 = 2327" |
  "ChipProductType_code ASCEND950DT_95A2 = 2328" | "ChipProductType_code ASCEND950PR_950Z = 2329" |
  "ChipProductType_code ASCEND950PR_9579 = 2330" | "ChipProductType_code ASCEND950PR_957B = 2331" |
  "ChipProductType_code ASCEND950PR_957C = 2332" | "ChipProductType_code ASCEND950PR_957D = 2333" |
  "ChipProductType_code ASCEND950PR_9589 = 2334" | "ChipProductType_code ASCEND950PR_958B = 2335" |
  "ChipProductType_code ASCEND950PR_9599 = 2336"

text \<open>\<open>ASCEND_910B_START\<close> and its like are markers inside the enumeration, no device has them.\<close>

datatype (plugins only: size) DeviceType =
    ASCEND_910_PREMIUM_A | ASCEND_910B_START | ASCEND_910B1 | ASCEND_910B2 | ASCEND_910B3 | ASCEND_910B4 |
    ASCEND_910B_END | ASCEND_310P | ASCEND_950_START | ASCEND_950DT_950x | ASCEND_950DT_950y | ASCEND_950DT_9571 |
    ASCEND_950DT_9572 | ASCEND_950DT_9573 | ASCEND_950DT_9574 | ASCEND_950DT_9575 | ASCEND_950DT_9576 |
    ASCEND_950DT_9577 | ASCEND_950DT_9578 | ASCEND_950DT_9581 | ASCEND_950DT_9582 | ASCEND_950DT_9583 |
    ASCEND_950DT_9584 | ASCEND_950DT_9585 | ASCEND_950DT_9586 | ASCEND_950DT_9587 | ASCEND_950DT_9588 |
    ASCEND_950DT_9591 | ASCEND_950DT_9592 | ASCEND_950DT_9595 | ASCEND_950DT_9596 | ASCEND_950DT_95A1 |
    ASCEND_950DT_95A2 | ASCEND_950PR_950z | ASCEND_950PR_9579 | ASCEND_950PR_957b | ASCEND_950PR_957c |
    ASCEND_950PR_957d | ASCEND_950PR_9589 | ASCEND_950PR_958b | ASCEND_950PR_9599 | ASCEND_950_END | INVALID_DEVICE

primrec DeviceType_code :: "DeviceType \<Rightarrow> nat" where
  "DeviceType_code ASCEND_910_PREMIUM_A = 0" | "DeviceType_code ASCEND_910B_START = 1" |
  "DeviceType_code ASCEND_910B1 = 2" | "DeviceType_code ASCEND_910B2 = 3" | "DeviceType_code ASCEND_910B3 = 4" |
  "DeviceType_code ASCEND_910B4 = 5" | "DeviceType_code ASCEND_910B_END = 6" | "DeviceType_code ASCEND_310P = 7" |
  "DeviceType_code ASCEND_950_START = 10" | "DeviceType_code ASCEND_950DT_950x = 11" |
  "DeviceType_code ASCEND_950DT_950y = 12" | "DeviceType_code ASCEND_950DT_9571 = 13" |
  "DeviceType_code ASCEND_950DT_9572 = 14" | "DeviceType_code ASCEND_950DT_9573 = 15" |
  "DeviceType_code ASCEND_950DT_9574 = 16" | "DeviceType_code ASCEND_950DT_9575 = 17" |
  "DeviceType_code ASCEND_950DT_9576 = 18" | "DeviceType_code ASCEND_950DT_9577 = 19" |
  "DeviceType_code ASCEND_950DT_9578 = 20" | "DeviceType_code ASCEND_950DT_9581 = 21" |
  "DeviceType_code ASCEND_950DT_9582 = 22" | "DeviceType_code ASCEND_950DT_9583 = 23" |
  "DeviceType_code ASCEND_950DT_9584 = 24" | "DeviceType_code ASCEND_950DT_9585 = 25" |
  "DeviceType_code ASCEND_950DT_9586 = 26" | "DeviceType_code ASCEND_950DT_9587 = 27" |
  "DeviceType_code ASCEND_950DT_9588 = 28" | "DeviceType_code ASCEND_950DT_9591 = 29" |
  "DeviceType_code ASCEND_950DT_9592 = 30" | "DeviceType_code ASCEND_950DT_9595 = 31" |
  "DeviceType_code ASCEND_950DT_9596 = 32" | "DeviceType_code ASCEND_950DT_95A1 = 33" |
  "DeviceType_code ASCEND_950DT_95A2 = 34" | "DeviceType_code ASCEND_950PR_950z = 35" |
  "DeviceType_code ASCEND_950PR_9579 = 36" | "DeviceType_code ASCEND_950PR_957b = 37" |
  "DeviceType_code ASCEND_950PR_957c = 38" | "DeviceType_code ASCEND_950PR_957d = 39" |
  "DeviceType_code ASCEND_950PR_9589 = 40" | "DeviceType_code ASCEND_950PR_958b = 41" |
  "DeviceType_code ASCEND_950PR_9599 = 42" | "DeviceType_code ASCEND_950_END = 43" |
  "DeviceType_code INVALID_DEVICE = 4294967295"

section \<open>Tables\<close>

definition SOC_STRING_TO_CHIP_PRODUCT :: "(string \<times> ChipProductType) list" where
  "SOC_STRING_TO_CHIP_PRODUCT =
    [(''Ascend910B1'', ASCEND910B1), (''Ascend910B2'', ASCEND910B2), (''Ascend910B3'', ASCEND910B3),
     (''Ascend910B4'', ASCEND910B4), (''Ascend910B2C'', ASCEND910B2C), (''Ascend910B4-1'', ASCEND910B4_1),
     (''Ascend910_9391'', ASCEND910_9391), (''Ascend910_9392'', ASCEND910_9392),
     (''Ascend910_9381'', ASCEND910_9381), (''Ascend910_9382'', ASCEND910_9382),
     (''Ascend910_9372'', ASCEND910_9372), (''Ascend910_9362'', ASCEND910_9362), (''Ascend310B1'', ASCEND310B1),
     (''Ascend310B2'', ASCEND310B2), (''Ascend310B3'', ASCEND310B3), (''Ascend310B4'', ASCEND310B4),
     (''Ascend310P1'', ASCEND310P1), (''Ascend310P2'', ASCEND310P2), (''Ascend310P3'', ASCEND310P3),
     (''Ascend310P4'', ASCEND310P4), (''Ascend310P5'', ASCEND310P5), (''Ascend310P7'', ASCEND310P7),
     (''Ascend310'', ASCEND310), (''Ascend910A'', ASCEND910A), (''Ascend910B'', ASCEND910B),
     (''Ascend910ProA'', ASCEND910PROA), (''Ascend910ProB'', ASCEND910PROB), (''AscendPremiumA'', ASCEND910PREMIUMA),
     (''Ascend950DT_950x'', ASCEND950DT_950X), (''Ascend950DT_950y'', ASCEND950DT_950Y),
     (''Ascend950DT_9571'', ASCEND950DT_9571), (''Ascend950DT_9572'', ASCEND950DT_9572),
     (''Ascend950DT_9573'', ASCEND950DT_9573), (''Ascend950DT_9574'', ASCEND950DT_9574),
     (''Ascend950DT_9575'', ASCEND950DT_9575), (''Ascend950DT_9576'', ASCEND950DT_9576),
     (''Ascend950DT_9577'', ASCEND950DT_9577), (''Ascend950DT_9578'', ASCEND950DT_9578),
     (''Ascend950DT_9581'', ASCEND950DT_9581), (''Ascend950DT_9582'', ASCEND950DT_9582),
     (''Ascend950DT_9583'', ASCEND950DT_9583), (''Ascend950DT_9584'', ASCEND950DT_9584),
     (''Ascend950DT_9585'', ASCEND950DT_9585), (''Ascend950DT_9586'', ASCEND950DT_9586),
     (''Ascend950DT_9587'', ASCEND950DT_9587), (''Ascend950DT_9588'', ASCEND950DT_9588),
     (''Ascend950DT_9591'', ASCEND950DT_9591), (''Ascend950DT_9592'', ASCEND950DT_9592),
     (''Ascend950DT_9595'', ASCEND950DT_9595), (''Ascend950DT_9596'', ASCEND950DT_9596),
     (''Ascend950DT_95A1'', ASCEND950DT_95A1), (''Ascend950DT_95A2'', ASCEND950DT_95A2),
     (''Ascend950PR_950z'', ASCEND950PR_950Z), (''Ascend950PR_9579'', ASCEND950PR_9579),
     (''Ascend950PR_957b'', ASCEND950PR_957B), (''Ascend950PR_957c'', ASCEND950PR_957C),
     (''Ascend950PR_957d'', ASCEND950PR_957D), (''Ascend950PR_9589'', ASCEND950PR_9589),
     (''Ascend950PR_958b'', ASCEND950PR_958B), (''Ascend950PR_9599'', ASCEND950PR_9599)]"

definition CHIP_PRODUCT_TO_DEVICE_TYPE :: "(ChipProductType \<times> DeviceType) list" where
  "CHIP_PRODUCT_TO_DEVICE_TYPE =
    [(ASCEND910PREMIUMA, ASCEND_910_PREMIUM_A), (ASCEND910B1, ASCEND_910B1), (ASCEND910B2, ASCEND_910B2),
     (ASCEND910B2C, ASCEND_910B2), (ASCEND910B3, ASCEND_910B3), (ASCEND910B4, ASCEND_910B4),
     (ASCEND910B4_1, ASCEND_910B4), (ASCEND910_9391, ASCEND_910B1), (ASCEND910_9392, ASCEND_910B1),
     (ASCEND910_9381, ASCEND_910B2), (ASCEND910_9382, ASCEND_910B2), (ASCEND910_9372, ASCEND_910B3),
     (ASCEND910_9362, ASCEND_910B4), (ASCEND310P1, ASCEND_310P), (ASCEND310P3, ASCEND_310P),
     (ASCEND310P5, ASCEND_310P), (ASCEND310P7, ASCEND_310P), (ASCEND950DT_950X, ASCEND_950DT_950x),
     (ASCEND950DT_950Y, ASCEND_950DT_950y), (ASCEND950DT_9571, ASCEND_950DT_9571),
     (ASCEND950DT_9572, ASCEND_950DT_9572), (ASCEND950DT_9573, ASCEND_950DT_9573),
     (ASCEND950DT_9574, ASCEND_950DT_9574), (ASCEND950DT_9575, ASCEND_950DT_9575),
     (ASCEND950DT_9576, ASCEND_950DT_9576), (ASCEND950DT_9577, ASCEND_950DT_9577),
     (ASCEND950DT_9578, ASCEND_950DT_9578), (ASCEND950DT_9581, ASCEND_950DT_9581),
     (ASCEND950DT_9582, ASCEND_950DT_9582), (ASCEND950DT_9583, ASCEND_950DT_9583),
     (ASCEND950DT_9584, ASCEND_950DT_9584), (ASCEND950DT_9585, ASCEND_950DT_9585),
     (ASCEND950DT_9586, ASCEND_950DT_9586), (ASCEND950DT_9587, ASCEND_950DT_9587),
     (ASCEND950DT_9588, ASCEND_950DT_9588), (ASCEND950DT_9591, ASCEND_950DT_9591),
     (ASCEND950DT_9592, ASCEND_950DT_9592), (ASCEND950DT_9595, ASCEND_950DT_9595),
     (ASCEND950DT_9596, ASCEND_950DT_9596), (ASCEND950DT_95A1, ASCEND_950DT_95A1),
     (ASCEND950DT_95A2, ASCEND_950DT_95A2), (ASCEND950PR_950Z, ASCEND_950PR_950z),
     (ASCEND950PR_9579, ASCEND_950PR_9579), (ASCEND950PR_957B, ASCEND_950PR_957b),
     (ASCEND950PR_957C, ASCEND_950PR_957c), (ASCEND950PR_957D, ASCEND_950PR_957d),
     (ASCEND950PR_9589, ASCEND_950PR_9589), (ASCEND950PR_958B, ASCEND_950PR_958b),
     (ASCEND950PR_9599, ASCEND_950PR_9599)]"

section \<open>Series and devices\<close>

text \<open>Series are enumerators themselves, written here as their values.\<close>

definition GetProductSeriesType :: "ChipProductType \<Rightarrow> nat" where
  "GetProductSeriesType t = ChipProductType_code t div 2 ^ 8 * 2 ^ 8"

definition IsChipSeriesTypeValid :: "ChipProductType \<Rightarrow> ChipProductType \<Rightarrow> bool" where
  "IsChipSeriesTypeValid inputType requiredType =
     (if requiredType = ALL_PRODUCT_TYPE then True
      else GetProductSeriesType inputType = ChipProductType_code requiredType)"

definition GetProductTypeBySocVersion :: "string \<Rightarrow> ChipProductType" where
  "GetProductTypeBySocVersion socVersion =
     (case map_of SOC_STRING_TO_CHIP_PRODUCT socVersion of None \<Rightarrow> UNKNOWN_PRODUCT_TYPE | Some t \<Rightarrow> t)"

definition GetProductSeriesType_soc :: "string \<Rightarrow> nat" where
  "GetProductSeriesType_soc socVersion =
     (let t = GetProductTypeBySocVersion socVersion in
      if t = UNKNOWN_PRODUCT_TYPE then ChipProductType_code t else GetProductSeriesType t)"

definition GetDeviceTypeBySocVersion :: "string \<Rightarrow> DeviceType" where
  "GetDeviceTypeBySocVersion socVersion =
     (case map_of CHIP_PRODUCT_TO_DEVICE_TYPE (GetProductTypeBySocVersion socVersion) of
        None \<Rightarrow> INVALID_DEVICE | Some d \<Rightarrow> d)"

section \<open>Architectures\<close>

definition IsC220Arch :: "DeviceType \<Rightarrow> bool" where
  "IsC220Arch d \<longleftrightarrow> DeviceType_code d > DeviceType_code ASCEND_910B_START \<and>
     DeviceType_code d < DeviceType_code ASCEND_910B_END"

definition IsC310Arch :: "DeviceType \<Rightarrow> bool" where
  "IsC310Arch d \<longleftrightarrow> DeviceType_code d > DeviceType_code ASCEND_950_START \<and>
     DeviceType_code d < DeviceType_code ASCEND_950_END"

definition HasSubBlocks :: "DeviceType \<Rightarrow> bool" where
  "HasSubBlocks d \<longleftrightarrow> IsC220Arch d \<or> IsC310Arch d"

definition SupportSimt :: "DeviceType \<Rightarrow> bool" where
  "SupportSimt d \<longleftrightarrow> IsC310Arch d"


section \<open>The device fits the series\<close>

text \<open>What the launch code derives from the kind of device, it could as well derive from the series of the chip.\<close>

definition series_sub_blocks :: "nat \<Rightarrow> bool" where
  "series_sub_blocks s \<longleftrightarrow> s = ChipProductType_code ASCEND910B_SERIES \<or> s = ChipProductType_code ASCEND910_93_SERIES \<or>
     s = ChipProductType_code ASCEND950_SERIES"

definition device_fits :: "ChipProductType \<Rightarrow> bool" where
  "device_fits t \<longleftrightarrow>
     (let d = (case map_of CHIP_PRODUCT_TO_DEVICE_TYPE t of None \<Rightarrow> INVALID_DEVICE | Some d \<Rightarrow> d);
          s = (if t = UNKNOWN_PRODUCT_TYPE then ChipProductType_code t else GetProductSeriesType t)
      in (HasSubBlocks d \<longleftrightarrow> series_sub_blocks s) \<and> (SupportSimt d \<longleftrightarrow> s = ChipProductType_code ASCEND950_SERIES))"

lemma listed_chips_fit: "list_all (\<lambda>(n, t). device_fits t) SOC_STRING_TO_CHIP_PRODUCT"
  by (simp add: SOC_STRING_TO_CHIP_PRODUCT_def device_fits_def CHIP_PRODUCT_TO_DEVICE_TYPE_def HasSubBlocks_def SupportSimt_def
      IsC220Arch_def IsC310Arch_def series_sub_blocks_def GetProductSeriesType_def)

lemma unknown_chip_fits: "device_fits UNKNOWN_PRODUCT_TYPE"
  by (simp add: device_fits_def CHIP_PRODUCT_TO_DEVICE_TYPE_def HasSubBlocks_def SupportSimt_def
      IsC220Arch_def IsC310Arch_def series_sub_blocks_def)

text \<open>
  For every chip name, known or not, the kind of device has sub-blocks exactly when the chip is of the 910B, the 910_93 or
  the 950 series, and runs threads exactly when it is of the 950 series: the two tables agree.
\<close>

lemma device_fits_series:
  "(HasSubBlocks (GetDeviceTypeBySocVersion soc) \<longleftrightarrow> series_sub_blocks (GetProductSeriesType_soc soc)) \<and>
   (SupportSimt (GetDeviceTypeBySocVersion soc) \<longleftrightarrow> GetProductSeriesType_soc soc = ChipProductType_code ASCEND950_SERIES)"
proof -
  have "device_fits (GetProductTypeBySocVersion soc)"
    using listed_chips_fit unknown_chip_fits map_of_SomeD [of SOC_STRING_TO_CHIP_PRODUCT soc]
    by (auto simp: GetProductTypeBySocVersion_def list_all_iff split: option.splits)
  then show ?thesis
    by (simp add: device_fits_def GetDeviceTypeBySocVersion_def GetProductSeriesType_soc_def Let_def)
qed

text \<open>Two chips of the 310P series are listed by name but have no kind of device.\<close>

lemma chips_without_device:
  "GetDeviceTypeBySocVersion ''Ascend310P2'' = INVALID_DEVICE" "GetDeviceTypeBySocVersion ''Ascend310P4'' = INVALID_DEVICE"
  "GetDeviceTypeBySocVersion ''Ascend310P3'' = ASCEND_310P"
  by (simp_all add: GetDeviceTypeBySocVersion_def GetProductTypeBySocVersion_def SOC_STRING_TO_CHIP_PRODUCT_def
      CHIP_PRODUCT_TO_DEVICE_TYPE_def)

end
