(* ===== verification/RecordLayout.thy ===== *)
theory RecordLayout
  imports Platform Protocol MemoryManage Registration "HOL-Library.Signed_Division"
begin

text \<open>
  The record buffer a checked kernel writes to: its heads (\<open>csrc/utils/Protocol.h\<close>) and the sizes and offsets
  \<open>csrc/runtime/inject_helpers/LaunchInitFinalize.cpp\<close> computes for them. The buffer holds a global head and then, for
  each block, a head with the host ranges, the records, the records of the threads and the shadow memory. Sizes and
  offsets keep their widths (offsets are 32 bits wide, \<open>GetBlockSize\<close> returns 32 bits).
\<close>

section \<open>Heads\<close>

definition MB_TO_BYTES :: u64 where "MB_TO_BYTES = 1024 * 1024"
definition MAX_RECORD_BUF_SIZE_EACH_BLOCK :: u64 where "MAX_RECORD_BUF_SIZE_EACH_BLOCK = 8 * 1024"
definition MAX_RECORD_BUF_SIZE_ALL_BLOCK :: u64 where "MAX_RECORD_BUF_SIZE_ALL_BLOCK = 24 * 1024"
definition SINGLE_CHECK_OTHER_BLOCK_CACHE_SIZE :: u64 where "SINGLE_CHECK_OTHER_BLOCK_CACHE_SIZE = 1"
definition CHECK_ALL_BLOCK :: u16 where "CHECK_ALL_BLOCK = - 1"
definition RECORD_HEAD_SECURITY_VALUE :: u64 where "RECORD_HEAD_SECURITY_VALUE = 0x5a5a5a5a5a5a5a5a"
definition SIMT_THREAD_MAX_SIZE :: u64 where "SIMT_THREAD_MAX_SIZE = 2048"
definition SHADOW_MEM_MIN_BYTE_SIZE :: u64 where "SHADOW_MEM_MIN_BYTE_SIZE = 12 * 1024 * 1024"
definition ILLEGAL_ADDR :: u64 where "ILLEGAL_ADDR = - 1"

text \<open>
  The settings a launch reads. \<open>checkBlockId\<close> is a signed 16-bit value. The registers of the 75 cores are their bytes.
\<close>

record CheckParmsInfo =
  cp_cacheSize :: u32
  cp_checkBlockId :: u16
  cp_defaultcheck :: bool
  cp_racecheck :: bool
  cp_initcheck :: bool
  cp_synccheck :: bool
  cp_registerCheck :: bool

record KernelInfo =
  ki_totalBlockDim :: u64
  ki_totalCacheSize :: u64
  ki_kernelParamNum :: u32
  ki_kernelType :: KernelType
  ki_l2CacheOffset :: u64

record ProtocolOffsetInfo =
  oi_blockHeadSize :: u32
  oi_threadByteSize :: u32
  oi_simtHeadOffset :: u32
  oi_shadowMemoryByteSize :: u32
  oi_shadowMemoryOffset :: u32

record RecordGlobalHead =
  gh_securityVal :: u64
  gh_checkParms :: CheckParmsInfo
  gh_kernelInfo :: KernelInfo
  gh_offsetInfo :: ProtocolOffsetInfo
  gh_ubDynamicSize :: u32
  gh_supportSimt :: bool
  gh_registers :: "u8 list"

record BlockInfo =
  bi_simtSyncThreadCount :: u64
  bi_blockId :: u16
  bi_threadXDim :: u16
  bi_threadYDim :: u16
  bi_threadZDim :: u16
  bi_blockType :: u8
  bi_vecSubBlockDim :: u8

record ParaBaseRegister =
  pb_addr :: u64
  pb_size :: u64

record RecordBlockHead =
  bh_recordCount :: u64
  bh_recordWriteCount :: u64
  bh_offset :: u64
  bh_writeOffset :: u64
  bh_blockInfo :: BlockInfo
  bh_hostMemoryNum :: u32
  bh_hostMemoryInfoPtr :: ptr
  bh_mstxFuseScopeDepth :: u32
  bh_extraWriteSuccess :: bool
  bh_paraBase :: ParaBaseRegister

definition new_RecordBlockHead :: RecordBlockHead where
  "new_RecordBlockHead = \<lparr>bh_recordCount = 0, bh_recordWriteCount = 0, bh_offset = 0, bh_writeOffset = 0,
     bh_blockInfo = \<lparr>bi_simtSyncThreadCount = 0, bi_blockId = 0, bi_threadXDim = 0, bi_threadYDim = 0, bi_threadZDim = 0,
       bi_blockType = 0, bi_vecSubBlockDim = 0\<rparr>, bh_hostMemoryNum = 0, bh_hostMemoryInfoPtr = 0, bh_mstxFuseScopeDepth = 0,
     bh_extraWriteSuccess = False, bh_paraBase = \<lparr>pb_addr = ILLEGAL_ADDR, pb_size = 0\<rparr>\<rparr>"

text \<open>The lengths of the heads' bytes; those of \<open>SimtRecordBlockHead\<close> and \<open>ShadowMemoryHeapHead\<close> are 64.\<close>

definition global_head_size :: u64 where "global_head_size = 38528"
definition block_head_size :: u64 where "block_head_size = 128"
definition simt_head_size :: u64 where "simt_head_size = 64"
definition heap_head_size :: u64 where "heap_head_size = 64"
definition registers_size :: u64 where "registers_size = 75 * 512"

primrec KernelType_code :: "KernelType \<Rightarrow> nat" where
  "KernelType_code AICPU = 0" | "KernelType_code AIVEC = 1" | "KernelType_code AICUBE = 2" | "KernelType_code MIX = 3"
| "KernelType_code INVALID = 4"

definition KernelType_of :: "nat \<Rightarrow> KernelType" where
  "KernelType_of n = (if n = 0 then AICPU else if n = 1 then AIVEC else if n = 2 then AICUBE else if n = 3 then MIX else INVALID)"

definition bool_byte :: "bool \<Rightarrow> u8" where
  "bool_byte b = (if b then 1 else 0)"

definition GlobalHead_bytes :: "RecordGlobalHead \<Rightarrow> u8 list" where
  "GlobalHead_bytes h =
     (let p = gh_checkParms h; k = gh_kernelInfo h; i = gh_offsetInfo h in
      le_bytes 8 (unat (gh_securityVal h)) @ le_bytes 4 (unat (cp_cacheSize p)) @ le_bytes 2 (unat (cp_checkBlockId p)) @
      map bool_byte [cp_defaultcheck p, cp_racecheck p, cp_initcheck p, cp_synccheck p, cp_registerCheck p] @ replicate 5 0 @
      le_bytes 8 (unat (ki_totalBlockDim k)) @ le_bytes 8 (unat (ki_totalCacheSize k)) @ le_bytes 4 (unat (ki_kernelParamNum k)) @
      le_bytes 1 (KernelType_code (ki_kernelType k)) @ replicate 3 0 @ le_bytes 8 (unat (ki_l2CacheOffset k)) @
      le_bytes 4 (unat (oi_blockHeadSize i)) @ le_bytes 4 (unat (oi_threadByteSize i)) @ le_bytes 4 (unat (oi_simtHeadOffset i)) @
      le_bytes 4 (unat (oi_shadowMemoryByteSize i)) @ le_bytes 4 (unat (oi_shadowMemoryOffset i)) @
      le_bytes 4 (unat (gh_ubDynamicSize h)) @ [bool_byte (gh_supportSimt h)] @ replicate 7 0 @ gh_registers h @ replicate 40 0)"

definition bool_at :: "nat \<Rightarrow> u8 list \<Rightarrow> bool" where
  "bool_at i bs \<longleftrightarrow> bs ! i \<noteq> 0"

definition GlobalHead_of :: "u8 list \<Rightarrow> RecordGlobalHead" where
  "GlobalHead_of bs =
     \<lparr>gh_securityVal = field 8 0 bs,
      gh_checkParms = \<lparr>cp_cacheSize = field 4 8 bs, cp_checkBlockId = field 2 12 bs, cp_defaultcheck = bool_at 14 bs,
        cp_racecheck = bool_at 15 bs, cp_initcheck = bool_at 16 bs, cp_synccheck = bool_at 17 bs, cp_registerCheck = bool_at 18 bs\<rparr>,
      gh_kernelInfo = \<lparr>ki_totalBlockDim = field 8 24 bs, ki_totalCacheSize = field 8 32 bs, ki_kernelParamNum = field 4 40 bs,
        ki_kernelType = KernelType_of (le_val (take 1 (drop 44 bs))), ki_l2CacheOffset = field 8 48 bs\<rparr>,
      gh_offsetInfo = \<lparr>oi_blockHeadSize = field 4 56 bs, oi_threadByteSize = field 4 60 bs, oi_simtHeadOffset = field 4 64 bs,
        oi_shadowMemoryByteSize = field 4 68 bs, oi_shadowMemoryOffset = field 4 72 bs\<rparr>,
      gh_ubDynamicSize = field 4 76 bs, gh_supportSimt = bool_at 80 bs, gh_registers = take (unat registers_size) (drop 88 bs)\<rparr>"

definition BlockHead_bytes :: "RecordBlockHead \<Rightarrow> u8 list" where
  "BlockHead_bytes h =
     (let i = bh_blockInfo h; p = bh_paraBase h in
      le_bytes 8 (unat (bh_recordCount h)) @ le_bytes 8 (unat (bh_recordWriteCount h)) @ le_bytes 8 (unat (bh_offset h)) @
      le_bytes 8 (unat (bh_writeOffset h)) @ le_bytes 8 (unat (bi_simtSyncThreadCount i)) @ le_bytes 2 (unat (bi_blockId i)) @
      le_bytes 2 (unat (bi_threadXDim i)) @ le_bytes 2 (unat (bi_threadYDim i)) @ le_bytes 2 (unat (bi_threadZDim i)) @
      [bi_blockType i, bi_vecSubBlockDim i] @ replicate 6 0 @ le_bytes 4 (unat (bh_hostMemoryNum h)) @ replicate 4 0 @
      le_bytes 8 (unat (bh_hostMemoryInfoPtr h)) @ le_bytes 4 (unat (bh_mstxFuseScopeDepth h)) @
      [bool_byte (bh_extraWriteSuccess h)] @ replicate 3 0 @ le_bytes 8 (unat (pb_addr p)) @ le_bytes 8 (unat (pb_size p)) @
      replicate 32 0)"

definition BlockHead_of :: "u8 list \<Rightarrow> RecordBlockHead" where
  "BlockHead_of bs =
     \<lparr>bh_recordCount = field 8 0 bs, bh_recordWriteCount = field 8 8 bs, bh_offset = field 8 16 bs, bh_writeOffset = field 8 24 bs,
      bh_blockInfo = \<lparr>bi_simtSyncThreadCount = field 8 32 bs, bi_blockId = field 2 40 bs, bi_threadXDim = field 2 42 bs,
        bi_threadYDim = field 2 44 bs, bi_threadZDim = field 2 46 bs, bi_blockType = bs ! 48, bi_vecSubBlockDim = bs ! 49\<rparr>,
      bh_hostMemoryNum = field 4 56 bs, bh_hostMemoryInfoPtr = field 8 64 bs, bh_mstxFuseScopeDepth = field 4 72 bs,
      bh_extraWriteSuccess = bool_at 76 bs, bh_paraBase = \<lparr>pb_addr = field 8 80 bs, pb_size = field 8 88 bs\<rparr>\<rparr>"

definition HostMemoryInfo_bytes :: "HostMemoryInfo \<Rightarrow> u8 list" where
  "HostMemoryInfo_bytes m = le_bytes 8 (unat (hm_addr m)) @ le_bytes 8 (unat (hm_size m))"

lemma KernelType_roundtrip [simp]: "KernelType_of (KernelType_code t) = t"
  by (cases t) (simp_all add: KernelType_of_def)

lemma bool_byte_zero [simp]: "bool_byte b = 0 \<longleftrightarrow> \<not> b"
  by (simp add: bool_byte_def)

lemma kernel_type_byte [simp]: "unat (word_of_nat (KernelType_code t mod 256) :: u8) = KernelType_code t"
  by (cases t) simp_all

lemma field_word [simp]:
  "field 8 0 (le_bytes 8 (unat (d :: u64)) @ r) = d" "field 4 0 (le_bytes 4 (unat (c :: u32)) @ r) = c"
  "field 2 0 (le_bytes 2 (unat (b :: u16)) @ r) = b"
  by (simp_all add: field_def)

lemma field_skip: "length xs \<le> off \<Longrightarrow> field n off (xs @ ys) = field n (off - length xs) ys"
  by (simp add: field_def)

lemma field_Cons: "0 < off \<Longrightarrow> field n off (x # xs) = field n (off - 1) xs"
  by (cases off) (simp_all add: field_def)

lemma length_GlobalHead_bytes:
  "length (gh_registers h) = 38400 \<Longrightarrow> length (GlobalHead_bytes h) = unat global_head_size"
  by (simp add: GlobalHead_bytes_def global_head_size_def Let_def)

lemma length_BlockHead_bytes [simp]: "length (BlockHead_bytes h) = 128"
  by (simp add: BlockHead_bytes_def Let_def)

lemma GlobalHead_roundtrip:
  assumes "length (gh_registers h) = 38400"
  shows "GlobalHead_of (GlobalHead_bytes h @ rest) = h"
  using assms
  by (cases h, cases "gh_checkParms h", cases "gh_kernelInfo h", cases "gh_offsetInfo h")
    (simp add: GlobalHead_of_def GlobalHead_bytes_def Let_def field_skip field_Cons bool_at_def nth_append registers_size_def)

lemma BlockHead_roundtrip: "BlockHead_of (BlockHead_bytes h @ rest) = h"
  by (cases h, cases "bh_blockInfo h", cases "bh_paraBase h")
    (simp add: BlockHead_of_def BlockHead_bytes_def Let_def field_skip field_Cons bool_at_def nth_append)

section \<open>Sizes and offsets\<close>

definition GetAllThreadSize :: "RecordGlobalHead \<Rightarrow> u64" where
  "GetAllThreadSize h = (ucast (oi_threadByteSize (gh_offsetInfo h)) + simt_head_size) * SIMT_THREAD_MAX_SIZE"

definition GetRecordHeadSize :: "u32 \<Rightarrow> u64" where
  "GetRecordHeadSize hostMemoryNum = ucast (CeilByAlignSize 64 (ucast (block_head_size + ucast hostMemoryNum * 16)))"

definition AssignMemSize :: "RecordGlobalHead \<Rightarrow> u64 \<Rightarrow> DeviceType \<Rightarrow> bool \<times> RecordGlobalHead" where
  "AssignMemSize head blockDim deviceType =
     (let singleBlockSize = ucast (cp_cacheSize (gh_checkParms head)) :: u64;
          all = (cp_checkBlockId (gh_checkParms head) = CHECK_ALL_BLOCK);
          (totalBlockDim, totalCacheSize) =
            (if HasSubBlocks deviceType then
               let t = 3 * blockDim in
               (t, if all then singleBlockSize * t
                   else singleBlockSize * 2 + SINGLE_CHECK_OTHER_BLOCK_CACHE_SIZE * (t - 2))
             else
               (blockDim, if all then blockDim * singleBlockSize
                          else singleBlockSize + SINGLE_CHECK_OTHER_BLOCK_CACHE_SIZE * (blockDim - 1)));
          head' = head\<lparr>gh_kernelInfo := (gh_kernelInfo head)\<lparr>ki_totalBlockDim := totalBlockDim, ki_totalCacheSize := totalCacheSize\<rparr>\<rparr>
      in (\<not> (singleBlockSize = 0 \<or> singleBlockSize > MAX_RECORD_BUF_SIZE_EACH_BLOCK \<or>
             totalCacheSize > MAX_RECORD_BUF_SIZE_ALL_BLOCK), head'))"

text \<open>The block to check is given by its number among the cores; of a core with sub-blocks that is a vector and a cube block.\<close>

definition IsTargetBlockIdx :: "DeviceType \<Rightarrow> u16 \<Rightarrow> u64 \<Rightarrow> bool" where
  "IsTargetBlockIdx deviceType checkBlockId blockIdx =
     (let i = sint checkBlockId in
      if HasSubBlocks deviceType then
        blockIdx = word_of_int (i sdiv 2 * 3 + i smod 2) \<or> blockIdx = word_of_int (i * 3 + 2)
      else blockIdx = word_of_int i)"

definition GetBlockSize :: "DeviceType \<Rightarrow> RecordGlobalHead \<Rightarrow> u64 \<Rightarrow> u32" where
  "GetBlockSize deviceType h blockIdx =
     (let id = cp_checkBlockId (gh_checkParms h) in
      if id = CHECK_ALL_BLOCK \<or> IsTargetBlockIdx deviceType id blockIdx
      then ucast (ucast (oi_blockHeadSize (gh_offsetInfo h)) + ucast (cp_cacheSize (gh_checkParms h)) * MB_TO_BYTES)
      else ucast (ucast (oi_blockHeadSize (gh_offsetInfo h)) + SINGLE_CHECK_OTHER_BLOCK_CACHE_SIZE * MB_TO_BYTES))"

text \<open>
  Single-precision arithmetic, for values far inside the exponent range: a natural number rounded to 24 significant bits,
  to the nearest and ties to even. A constant is \<open>m / 2 ^ e\<close>: \<open>0.1f\<close> is \<open>13421773 / 2 ^ 27\<close>, and \<open>1 - 0.1f - 0.5f\<close> is
  \<open>6710886 / 2 ^ 24\<close> after the rounding of the first subtraction. The division by the number of threads is exact.
\<close>

fun float_shift :: "nat \<Rightarrow> nat" where
  "float_shift p = (if p < 2 ^ 24 then 0 else Suc (float_shift (p div 2)))"

declare float_shift.simps [simp del]

definition to_float :: "nat \<Rightarrow> nat" where
  "to_float p =
     (let k = float_shift p; q = p div 2 ^ k; r = p mod 2 ^ k
      in (if 2 * r > 2 ^ k \<or> 2 * r = 2 ^ k \<and> odd q then q + 1 else q) * 2 ^ k)"

definition float_part :: "u64 \<Rightarrow> nat \<Rightarrow> nat \<Rightarrow> nat" where
  "float_part v m e = to_float (to_float (unat v) * m) div 2 ^ e"

definition simt_thread_bytes :: "u64 \<Rightarrow> u64" where
  "simt_thread_bytes v = word_of_nat (float_part v 13421773 (27 + 11))"

definition simt_head_bytes :: "u64 \<Rightarrow> u64" where
  "simt_head_bytes v = word_of_nat (float_part v 6710886 24)"

definition shadow_bytes :: "u64 \<Rightarrow> u64" where
  "shadow_bytes v = word_of_nat (float_part v 1 1)"

text \<open>The offsets of the thread records and the shadow memory; \<open>None\<close> when a thread has no room for its head.\<close>

definition simt_offsets :: "u32 \<Rightarrow> RecordGlobalHead \<Rightarrow> RecordGlobalHead option" where
  "simt_offsets cacheSize h =
     (let v = ucast cacheSize * MB_TO_BYTES; threadByteSize = simt_thread_bytes v in
      if threadByteSize < simt_head_size then None
      else
        let info = gh_offsetInfo h;
            info1 = info\<lparr>oi_threadByteSize := ucast (AlignDownSize 64 (threadByteSize - simt_head_size))\<rparr>;
            info2 = info1\<lparr>oi_simtHeadOffset :=
              ucast (AlignDownSize 64 (simt_head_bytes v) + ucast (oi_blockHeadSize info1))\<rparr>;
            shadow = shadow_bytes v
        in if shadow < SHADOW_MEM_MIN_BYTE_SIZE
           then Some (h\<lparr>gh_offsetInfo := info2\<lparr>oi_shadowMemoryOffset := 0, oi_shadowMemoryByteSize := 0\<rparr>\<rparr>)
           else Some (h\<lparr>gh_offsetInfo := info2
             \<lparr>oi_shadowMemoryOffset := ucast (AlignDownSize 64 (ucast (oi_simtHeadOffset info2) +
                GetAllThreadSize (h\<lparr>gh_offsetInfo := info2\<rparr>) + 64 - 1)),
              oi_shadowMemoryByteSize := ucast shadow\<rparr>\<rparr>))"

section \<open>Rounding\<close>

lemma float_shift_upper: "p < 2 ^ (24 + float_shift p)"
proof (induction p rule: float_shift.induct)
  case (1 p)
  show ?case
  proof (cases "p < 2 ^ 24")
    case True
    then show ?thesis by (simp add: float_shift.simps [of p])
  next
    case False
    with 1 have "p div 2 < 2 ^ (24 + float_shift (p div 2))" by simp
    then have "p < 2 * 2 ^ (24 + float_shift (p div 2))" by linarith
    with False show ?thesis by (simp add: float_shift.simps [of p] power_add)
  qed
qed

lemma float_shift_lower: "float_shift p \<noteq> 0 \<Longrightarrow> 2 ^ (23 + float_shift p) \<le> p"
proof (induction p rule: float_shift.induct)
  case (1 p)
  show ?case
  proof (cases "p < 2 ^ 24")
    case True
    then show ?thesis using 1 by (simp add: float_shift.simps [of p])
  next
    case False
    show ?thesis
    proof (cases "float_shift (p div 2) = 0")
      case True
      with False show ?thesis by (simp add: float_shift.simps [of p])
    next
      case nz: False
      with 1 False have "2 ^ (23 + float_shift (p div 2)) \<le> p div 2" by simp
      then have "2 * 2 ^ (23 + float_shift (p div 2)) \<le> p" by linarith
      with False show ?thesis by (simp add: float_shift.simps [of p] power_add)
    qed
  qed
qed

lemma to_float_small: "p < 2 ^ 24 \<Longrightarrow> to_float p = p"
  by (simp add: to_float_def float_shift.simps [of p])

lemma to_float_upper: "2 ^ 24 * to_float p \<le> (2 ^ 24 + 1) * p"
proof -
  define k where "k = float_shift p"
  define q r where "q = p div 2 ^ k" and "r = p mod 2 ^ k"
  have p: "p = q * 2 ^ k + r" unfolding q_def r_def by (rule div_mult_mod_eq [symmetric])
  show ?thesis
  proof (cases "2 * r > 2 ^ k \<or> 2 * r = 2 ^ k \<and> odd q")
    case False
    then have "to_float p = q * 2 ^ k" by (simp add: to_float_def Let_def k_def q_def r_def)
    then show ?thesis using p by simp
  next
    case True
    then have t: "to_float p = q * 2 ^ k + 2 ^ k" by (simp add: to_float_def Let_def k_def q_def r_def)
    have "k \<noteq> 0" using True by (auto simp: r_def intro!: gr0I)
    then have l: "2 ^ (23 + k) \<le> p" using float_shift_lower [of p] by (simp add: k_def)
    have "2 ^ 24 * (2 ^ k :: nat) = 2 * 2 ^ (23 + k)" by (simp add: power_add)
    moreover have "(2 :: nat) ^ k \<le> 2 * r" using True by linarith
    ultimately have "2 ^ 24 * (2 ^ k :: nat) \<le> 2 ^ 24 * r + 2 ^ (23 + k)" by simp
    then show ?thesis unfolding t using p l by (simp add: algebra_simps)
  qed
qed

lemma to_float_scaled:
  assumes m: "m < 2 ^ 24"
  shows "to_float (m * 2 ^ j) = m * 2 ^ j"
proof (cases "m = 0")
  case True
  then show ?thesis by (simp add: to_float_small)
next
  case False
  define k where "k = float_shift (m * 2 ^ j)"
  have "k \<le> j"
  proof (cases "k = 0")
    case False
    then have "2 ^ (23 + k) \<le> m * 2 ^ j" using float_shift_lower [of "m * 2 ^ j"] by (simp add: k_def)
    also have "\<dots> < 2 ^ 24 * 2 ^ j" using m by simp
    finally have "23 + k < 24 + j" by (simp only: power_add [symmetric] power_strict_increasing_iff)
    then show ?thesis by simp
  qed simp
  then have "2 ^ k dvd m * 2 ^ j" by (simp add: le_imp_power_dvd)
  then show ?thesis by (simp add: to_float_def Let_def k_def [symmetric] mod_eq_0_iff_dvd [THEN iffD2])
qed

section \<open>The head of a launch\<close>

datatype DemangleMode = FULL_DEMANGLED_NAME | SIMPLE_DEMANGLED_NAME | MANGLED_NAME

record SanitizerConfig =
  sc_defaultCheck :: bool
  sc_memCheck :: bool
  sc_raceCheck :: bool
  sc_initCheck :: bool
  sc_syncCheck :: bool
  sc_registerCheck :: bool
  sc_checkDeviceHeap :: bool
  sc_checkCannHeap :: bool
  sc_leakCheck :: bool
  sc_checkUnusedMemory :: bool
  sc_checkCrossNpuRaces :: bool
  sc_isPrintFullStack :: bool
  sc_checkBlockId :: u16
  sc_cacheSize :: u32
  sc_demangleMode :: DemangleMode
  sc_pluginPath :: string
  sc_kernelName :: string
  sc_dumpPath :: string

text \<open>
  What \<open>AssignGlobalHead\<close> reads: the settings, the device, the registers the kernel before left (and whether their copy
  succeeds), the answer about the cache offset, and what is known of the launch.
\<close>

record launch_input =
  li_config :: SanitizerConfig
  li_deviceType :: DeviceType
  li_registers :: "u8 list"
  li_registersCopied :: bool
  li_l2CacheOffset :: "u64 option"
  li_kernelType :: KernelType
  li_kernelParamNum :: u32
  li_ubDynamicSize :: u32
  li_hostMemoryNum :: u32
  li_blockDim :: u64

definition empty_offsets :: ProtocolOffsetInfo where
  "empty_offsets = \<lparr>oi_blockHeadSize = 0, oi_threadByteSize = 0, oi_simtHeadOffset = 0, oi_shadowMemoryByteSize = 0,
     oi_shadowMemoryOffset = 0\<rparr>"

definition launch_head :: "launch_input \<Rightarrow> u64 \<Rightarrow> RecordGlobalHead" where
  "launch_head li l2 =
     (let c = li_config li in
      \<lparr>gh_securityVal = RECORD_HEAD_SECURITY_VALUE,
       gh_checkParms = \<lparr>cp_cacheSize = sc_cacheSize c, cp_checkBlockId = sc_checkBlockId c, cp_defaultcheck = sc_defaultCheck c,
         cp_racecheck = sc_raceCheck c, cp_initcheck = sc_initCheck c, cp_synccheck = sc_syncCheck c,
         cp_registerCheck = sc_registerCheck c\<rparr>,
       gh_kernelInfo = \<lparr>ki_totalBlockDim = 0, ki_totalCacheSize = 0, ki_kernelParamNum = li_kernelParamNum li,
         ki_kernelType = li_kernelType li, ki_l2CacheOffset = l2\<rparr>,
       gh_offsetInfo = empty_offsets\<lparr>oi_blockHeadSize := ucast (GetRecordHeadSize (li_hostMemoryNum li))\<rparr>,
       gh_ubDynamicSize = 0, gh_supportSimt = SupportSimt (li_deviceType li), gh_registers = li_registers li\<rparr>)"

definition AssignGlobalHead :: "launch_input \<Rightarrow> RecordGlobalHead option" where
  "AssignGlobalHead li =
     (if \<not> li_registersCopied li then None
      else case (if IsC220Arch (li_deviceType li) then li_l2CacheOffset li else Some 0) of
        None \<Rightarrow> None
      | Some l2 \<Rightarrow>
          (let h = launch_head li l2;
               simt = (if gh_supportSimt h
                       then map_option (\<lambda>h1. h1\<lparr>gh_ubDynamicSize := CeilByAlignSize 128 (li_ubDynamicSize li)\<rparr>)
                              (simt_offsets (sc_cacheSize (li_config li)) h)
                       else Some h)
           in case simt of
                None \<Rightarrow> None
              | Some h1 \<Rightarrow>
                  let (ok, h2) = AssignMemSize h1 (li_blockDim li) (li_deviceType li) in if ok then Some h2 else None))"

text \<open>The buffer \<open>Process\<close> asks for, and where the blocks lie in it.\<close>

definition record_buffer_size :: "RecordGlobalHead \<Rightarrow> u64" where
  "record_buffer_size h =
     ki_totalCacheSize (gh_kernelInfo h) * MB_TO_BYTES + global_head_size +
     ki_totalBlockDim (gh_kernelInfo h) * ucast (oi_blockHeadSize (gh_offsetInfo h))"

definition block_pos :: "DeviceType \<Rightarrow> RecordGlobalHead \<Rightarrow> nat \<Rightarrow> nat" where
  "block_pos dt h n = unat global_head_size + (\<Sum>i<n. unat (GetBlockSize dt h (word_of_nat i)))"

section \<open>The blocks fit the buffer\<close>

text \<open>The size of a block with a full cache fits 32 bits: \<open>GetBlockSize\<close> does not wrap.\<close>

definition cache_fits :: "RecordGlobalHead \<Rightarrow> bool" where
  "cache_fits h \<longleftrightarrow>
     unat (oi_blockHeadSize (gh_offsetInfo h)) + unat (cp_cacheSize (gh_checkParms h)) * 2 ^ 20 < 2 ^ 32"

lemma cache_fits_small: "cache_fits h \<Longrightarrow> unat (cp_cacheSize (gh_checkParms h)) < 4096"
  by (simp add: cache_fits_def)

definition full_block :: "RecordGlobalHead \<Rightarrow> nat" where
  "full_block h = unat (oi_blockHeadSize (gh_offsetInfo h)) + unat (cp_cacheSize (gh_checkParms h)) * 2 ^ 20"

definition checked_block :: "DeviceType \<Rightarrow> RecordGlobalHead \<Rightarrow> u64 \<Rightarrow> bool" where
  "checked_block dt h i \<longleftrightarrow> cp_checkBlockId (gh_checkParms h) = CHECK_ALL_BLOCK \<or>
     IsTargetBlockIdx dt (cp_checkBlockId (gh_checkParms h)) i"

lemma unat_u32_u64 [simp]: "unat (ucast (x :: u32) :: u64) = unat x"
proof -
  have "unat x < 2 ^ 32" using unsigned_less [of x] by simp
  then have "unat x < 2 ^ 64" by simp
  then show ?thesis by (simp add: unsigned_ucast_eq take_bit_nat_eq_self)
qed

lemma unat_sum_u64:
  assumes "unat (a :: u32) + unat (c :: u32) * 2 ^ 20 < 2 ^ 32"
  shows "unat (ucast (ucast a + ucast c * MB_TO_BYTES :: u64) :: u32) = unat a + unat c * 2 ^ 20"
proof -
  have "unat (ucast a + ucast c * MB_TO_BYTES :: u64) = unat a + unat c * 2 ^ 20"
    using assms by (simp add: unat_word_ariths MB_TO_BYTES_def unsigned_ucast_eq take_bit_nat_eq_self)
  then show ?thesis using assms by (simp add: unsigned_ucast_eq take_bit_nat_eq_self)
qed

lemma GetBlockSize_unat:
  assumes "cache_fits h" and "cp_cacheSize (gh_checkParms h) \<noteq> 0"
  shows "unat (GetBlockSize dt h i) =
     (if checked_block dt h i then full_block h else unat (oi_blockHeadSize (gh_offsetInfo h)) + 2 ^ 20)"
proof -
  have c: "1 \<le> unat (cp_cacheSize (gh_checkParms h))" using assms(2) by (simp add: Suc_le_eq unat_gt_0)
  have b: "unat (oi_blockHeadSize (gh_offsetInfo h)) + unat (1 :: u32) * 2 ^ 20 < 2 ^ 32"
    using assms(1) c by (simp add: cache_fits_def)
  have o: "ucast (oi_blockHeadSize (gh_offsetInfo h)) + SINGLE_CHECK_OTHER_BLOCK_CACHE_SIZE * MB_TO_BYTES =
      (ucast (oi_blockHeadSize (gh_offsetInfo h)) + ucast (1 :: u32) * MB_TO_BYTES :: u64)"
    by (simp add: SINGLE_CHECK_OTHER_BLOCK_CACHE_SIZE_def)
  show ?thesis
    using unat_sum_u64 [OF b] unat_sum_u64 [of "oi_blockHeadSize (gh_offsetInfo h)" "cp_cacheSize (gh_checkParms h)"] assms(1)
    unfolding GetBlockSize_def o by (simp add: checked_block_def full_block_def cache_fits_def Let_def)
qed

text \<open>With one block to check, at most two blocks have a full cache, and at most one when blocks have no sub-blocks.\<close>

lemma targets_few:
  "card {i. i < n \<and> IsTargetBlockIdx dt cid (word_of_nat i)} \<le> (if HasSubBlocks dt then 2 else 1)" if "n \<le> 2 ^ 64"
proof -
  have inj: "i = unat w" if "i < n" and "word_of_nat i = (w :: u64)" for i w
    using that \<open>n \<le> 2 ^ 64\<close> by (auto simp: unat_of_nat take_bit_nat_eq_self)
  define a b where "a = unat (word_of_int (sint cid sdiv 2 * 3 + sint cid smod 2) :: u64)"
    and "b = unat (word_of_int (sint cid * 3 + 2) :: u64)"
  show ?thesis
  proof (cases "HasSubBlocks dt")
    case True
    have "{i. i < n \<and> IsTargetBlockIdx dt cid (word_of_nat i)} \<subseteq> {a, b}"
      using True inj by (auto simp: IsTargetBlockIdx_def a_def b_def Let_def)
    then have "card {i. i < n \<and> IsTargetBlockIdx dt cid (word_of_nat i)} \<le> card {a, b}" by (rule card_mono [rotated]) simp
    also have "\<dots> \<le> 2" by (simp add: card_insert_if)
    finally show ?thesis using True by simp
  next
    case False
    have "{i. i < n \<and> IsTargetBlockIdx dt cid (word_of_nat i)} \<subseteq> {unat (word_of_int (sint cid) :: u64)}"
      using False inj by (auto simp: IsTargetBlockIdx_def Let_def)
    then have "card {i. i < n \<and> IsTargetBlockIdx dt cid (word_of_nat i)} \<le> card {unat (word_of_int (sint cid) :: u64)}"
      by (rule card_mono [rotated]) simp
    then show ?thesis using False by simp
  qed
qed

lemma more_large_ones:
  fixes t :: nat
  assumes "t \<le> k" and "k \<le> n" and "d \<le> c"
  shows "t * c + (n - t) * d \<le> k * c + (n - k) * d"
proof -
  obtain j m e where "k = t + j" "n = t + j + m" "c = d + e"
    using assms le_Suc_ex by metis
  then show ?thesis by (simp add: algebra_simps)
qed

lemma sum_of_two_sizes:
  fixes P :: "nat \<Rightarrow> bool" and c d :: nat
  assumes "card {i. i < n \<and> P i} \<le> k" and "k \<le> n" and "d \<le> c"
  shows "(\<Sum>i<n. if P i then c else d) \<le> k * c + (n - k) * d"
proof -
  let ?t = "card {i. i < n \<and> P i}"
  have t: "?t \<le> n" using card_mono [of "{..<n}" "{i. i < n \<and> P i}"] by auto
  have "(\<Sum>i<n. if P i then c else d) = (\<Sum>i \<in> {i. i < n \<and> P i}. c) + (\<Sum>i \<in> {i. i < n \<and> \<not> P i}. d)"
  proof -
    have "{..<n} \<inter> Collect P = {i. i < n \<and> P i}" "{..<n} \<inter> - Collect P = {i. i < n \<and> \<not> P i}" by auto
    then show ?thesis by (simp add: sum.If_cases)
  qed
  also have "card {i. i < n \<and> \<not> P i} = n - ?t"
  proof -
    have "{i. i < n \<and> \<not> P i} = {..<n} - {i. i < n \<and> P i}" by auto
    then show ?thesis by (simp add: card_Diff_subset subset_eq)
  qed
  then have "(\<Sum>i \<in> {i. i < n \<and> P i}. c) + (\<Sum>i \<in> {i. i < n \<and> \<not> P i}. d) = ?t * c + (n - ?t) * d" by simp
  also have "\<dots> \<le> k * c + (n - k) * d"
    by (rule more_large_ones [OF assms(1-3)])
  finally show ?thesis .
qed


lemma block_pos_bound:
  assumes fits: "cache_fits h" and nz: "cp_cacheSize (gh_checkParms h) \<noteq> 0" and n: "n \<le> 2 ^ 64"
    and few: "(if HasSubBlocks dt then 2 else 1) \<le> n"
  shows "block_pos dt h n \<le> unat global_head_size + n * unat (oi_blockHeadSize (gh_offsetInfo h)) +
     (if cp_checkBlockId (gh_checkParms h) = CHECK_ALL_BLOCK then n * unat (cp_cacheSize (gh_checkParms h))
      else let k = if HasSubBlocks dt then 2 else 1 in k * unat (cp_cacheSize (gh_checkParms h)) + (n - k)) * 2 ^ 20"
proof -
  let ?b = "unat (oi_blockHeadSize (gh_offsetInfo h))" and ?c = "unat (cp_cacheSize (gh_checkParms h))"
  have sizes: "(\<Sum>i<n. unat (GetBlockSize dt h (word_of_nat i))) =
      n * ?b + (\<Sum>i<n. if checked_block dt h (word_of_nat i) then ?c * 2 ^ 20 else 2 ^ 20)"
  proof -
    have "unat (GetBlockSize dt h i) = ?b + (if checked_block dt h i then ?c * 2 ^ 20 else 2 ^ 20)" for i
      by (simp add: GetBlockSize_unat [OF fits nz] full_block_def)
    then show ?thesis by (simp only: sum.distrib) simp
  qed
  show ?thesis
  proof (cases "cp_checkBlockId (gh_checkParms h) = CHECK_ALL_BLOCK")
    case True
    then show ?thesis unfolding block_pos_def sizes by (simp add: checked_block_def)
  next
    case False
    let ?k = "if HasSubBlocks dt then 2 else 1 :: nat"
    have "card {i. i < n \<and> checked_block dt h (word_of_nat i)} \<le> ?k"
      using targets_few [OF n, of dt "cp_checkBlockId (gh_checkParms h)"] False by (simp add: checked_block_def)
    moreover have "1 \<le> ?c" using nz by (simp add: Suc_le_eq unat_gt_0)
    ultimately have "(\<Sum>i<n. if checked_block dt h (word_of_nat i) then ?c * 2 ^ 20 else 2 ^ 20) \<le> ?k * (?c * 2 ^ 20) + (n - ?k) * 2 ^ 20"
      by (intro sum_of_two_sizes few) simp_all
    then show ?thesis using False unfolding block_pos_def sizes Let_def by (simp add: algebra_simps)
  qed
qed


lemma assigned_head:
  assumes "AssignGlobalHead li = Some h" and "li_blockDim li \<noteq> 0" and "unat (li_blockDim li) < 2 ^ 32"
  shows "cp_cacheSize (gh_checkParms h) = sc_cacheSize (li_config li)" "cp_checkBlockId (gh_checkParms h) = sc_checkBlockId (li_config li)"
    "gh_supportSimt h = SupportSimt (li_deviceType li)" "cp_cacheSize (gh_checkParms h) \<noteq> 0"
    "unat (ki_totalBlockDim (gh_kernelInfo h)) = (if HasSubBlocks (li_deviceType li) then 3 else 1) * unat (li_blockDim li)"
    "unat (ki_totalCacheSize (gh_kernelInfo h)) = (let n = unat (ki_totalBlockDim (gh_kernelInfo h));
       c = unat (cp_cacheSize (gh_checkParms h)); k = if HasSubBlocks (li_deviceType li) then 2 else 1
       in if cp_checkBlockId (gh_checkParms h) = CHECK_ALL_BLOCK then n * c else k * c + (n - k))"
    "unat (ki_totalCacheSize (gh_kernelInfo h)) \<le> 24 * 1024"
proof -
  obtain h1 where h1: "AssignMemSize h1 (li_blockDim li) (li_deviceType li) = (True, h)"
    and p: "cp_cacheSize (gh_checkParms h1) = sc_cacheSize (li_config li)" "cp_checkBlockId (gh_checkParms h1) = sc_checkBlockId (li_config li)"
    "gh_supportSimt h1 = SupportSimt (li_deviceType li)"
    using assms(1)
    by (auto simp: AssignGlobalHead_def launch_head_def simt_offsets_def Let_def split: if_splits option.splits prod.splits)
  have d: "0 < unat (li_blockDim li)" using assms(2) by (simp add: unat_gt_0)
  have keep: "gh_checkParms h = gh_checkParms h1" "gh_supportSimt h = gh_supportSimt h1"
    and nz: "cp_cacheSize (gh_checkParms h1) \<noteq> 0" and c: "ucast (cp_cacheSize (gh_checkParms h1)) \<le> MAX_RECORD_BUF_SIZE_EACH_BLOCK"
    and all: "ki_totalCacheSize (gh_kernelInfo h) \<le> MAX_RECORD_BUF_SIZE_ALL_BLOCK"
    using h1 by (auto simp: AssignMemSize_def Let_def split: if_splits)
  show "cp_cacheSize (gh_checkParms h) = sc_cacheSize (li_config li)" "cp_checkBlockId (gh_checkParms h) = sc_checkBlockId (li_config li)"
    "gh_supportSimt h = SupportSimt (li_deviceType li)" "cp_cacheSize (gh_checkParms h) \<noteq> 0"
    using keep p nz by simp_all
  have cn: "unat (cp_cacheSize (gh_checkParms h1)) \<le> 8192"
    using c by (simp add: MAX_RECORD_BUF_SIZE_EACH_BLOCK_def word_le_nat_alt)
  show "unat (ki_totalCacheSize (gh_kernelInfo h)) \<le> 24 * 1024"
    using all by (simp add: MAX_RECORD_BUF_SIZE_ALL_BLOCK_def word_le_nat_alt)
  have t3: "unat (3 * li_blockDim li) = 3 * unat (li_blockDim li)" using assms(3) by (simp add: unat_word_ariths)
  have ki: "gh_kernelInfo h = (gh_kernelInfo h1)\<lparr>ki_totalBlockDim := ki_totalBlockDim (gh_kernelInfo h),
      ki_totalCacheSize := ki_totalCacheSize (gh_kernelInfo h)\<rparr>"
    using h1 by (auto simp: AssignMemSize_def Let_def split: if_splits)
  have tb: "ki_totalBlockDim (gh_kernelInfo h) = (if HasSubBlocks (li_deviceType li) then 3 * li_blockDim li else li_blockDim li)"
    using h1 by (auto simp: AssignMemSize_def Let_def split: if_splits)
  then show tn: "unat (ki_totalBlockDim (gh_kernelInfo h)) = (if HasSubBlocks (li_deviceType li) then 3 else 1) * unat (li_blockDim li)"
    using t3 by simp
  define w where "w = ki_totalBlockDim (gh_kernelInfo h)"
  define k where "k = (if HasSubBlocks (li_deviceType li) then 2 else 1 :: u64)"
  have wn: "unat k \<le> unat w" "unat w < 3 * 2 ^ 32" using tn d assms(3) by (auto simp: w_def k_def)
  have tc: "ki_totalCacheSize (gh_kernelInfo h) =
      (if cp_checkBlockId (gh_checkParms h1) = CHECK_ALL_BLOCK then w * ucast (cp_cacheSize (gh_checkParms h1))
       else k * ucast (cp_cacheSize (gh_checkParms h1)) + (w - k))"
    using h1 unfolding w_def k_def tb
    by (auto simp: AssignMemSize_def Let_def SINGLE_CHECK_OTHER_BLOCK_CACHE_SIZE_def mult.commute split: if_splits)
  have cu: "unat (ucast (cp_cacheSize (gh_checkParms h1)) :: u64) = unat (cp_cacheSize (gh_checkParms h1))"
    by simp
  have "unat w * unat (cp_cacheSize (gh_checkParms h1)) \<le> 3 * 2 ^ 32 * 8192"
    using wn(2) cn by (intro mult_le_mono) simp_all
  then have m: "unat (w * ucast (cp_cacheSize (gh_checkParms h1))) = unat w * unat (cp_cacheSize (gh_checkParms h1))"
    by (simp add: unat_word_ariths cu)
  have kn: "unat k \<le> 2" by (simp add: k_def)
  then have "unat k * unat (cp_cacheSize (gh_checkParms h1)) \<le> 2 * 8192" using cn by (rule mult_le_mono)
  then have o: "unat (k * ucast (cp_cacheSize (gh_checkParms h1)) + (w - k)) =
      unat k * unat (cp_cacheSize (gh_checkParms h1)) + (unat w - unat k)"
    using wn by (simp add: unat_word_ariths cu unat_sub word_le_nat_alt)
  show "unat (ki_totalCacheSize (gh_kernelInfo h)) = (let n = unat (ki_totalBlockDim (gh_kernelInfo h));
       c = unat (cp_cacheSize (gh_checkParms h)); k = if HasSubBlocks (li_deviceType li) then 2 else 1
       in if cp_checkBlockId (gh_checkParms h) = CHECK_ALL_BLOCK then n * c else k * c + (n - k))"
    unfolding tc keep(1) Let_def w_def [symmetric] using m o by (simp add: k_def)
qed

lemma AlignDown_64: "unat (AlignDownSize 64 (v :: u64)) = 64 * (unat v div 64)"
proof -
  have "unat (v mod 64) = unat v mod 64" by (simp add: unat_mod)
  moreover have "v mod 64 \<le> v" by (simp add: word_le_nat_alt unat_mod)
  then have "unat (v - v mod 64) = unat v - unat (v mod 64)" by (rule unat_sub)
  moreover have "AlignDownSize 64 v = v - v mod 64" by (simp only: AlignDownSize_def) simp
  ultimately show ?thesis by (simp only: minus_mod_eq_mult_div)
qed

text \<open>The three shares of a cache of \<open>c\<close> megabytes, rounding included: at most 4/10, 1/10 (by whole lines per thread) and 1/2.\<close>

lemma cache_to_float: "c < 2 ^ 12 \<Longrightarrow> to_float (c * 2 ^ 20) = c * 2 ^ 20"
  by (rule to_float_scaled) simp

lemma simt_head_share:
  assumes "unat v = c * 2 ^ 20" and "c < 2 ^ 12"
  shows "10 * float_part v 6710886 24 \<le> 4 * (c * 2 ^ 20)"
proof -
  let ?p = "c * 2 ^ 20 * 6710886"
  have "to_float (unat v) = c * 2 ^ 20" unfolding assms(1) by (rule cache_to_float [OF assms(2)])
  then have "float_part v 6710886 24 = to_float ?p div 2 ^ 24" by (simp add: float_part_def)
  moreover have "to_float ?p div 2 ^ 24 * 2 ^ 24 \<le> to_float ?p" by (rule div_times_less_eq_dividend)
  moreover have "2 ^ 24 * to_float ?p \<le> (2 ^ 24 + 1) * ?p" by (rule to_float_upper)
  ultimately show ?thesis by simp
qed

lemma simt_thread_share:
  assumes "unat v = c * 2 ^ 20" and "c < 2 ^ 12"
  shows "10 * (float_part v 13421773 (27 + 11) div 64 * 64 * 2048) \<le> c * 2 ^ 20"
proof -
  let ?p = "c * 2 ^ 20 * 13421773" and ?x = "float_part v 13421773 (27 + 11) div 64"
  have "to_float (unat v) = c * 2 ^ 20" unfolding assms(1) by (rule cache_to_float [OF assms(2)])
  then have "float_part v 13421773 (27 + 11) = to_float ?p div 2 ^ 38" by (simp add: float_part_def)
  moreover have "to_float ?p div 2 ^ 38 * 2 ^ 38 \<le> to_float ?p" by (rule div_times_less_eq_dividend)
  moreover have "2 ^ 24 * to_float ?p \<le> (2 ^ 24 + 1) * ?p" by (rule to_float_upper)
  moreover have "?x * 64 \<le> float_part v 13421773 (27 + 11)" by (rule div_times_less_eq_dividend)
  ultimately have "2 ^ 24 * (?x * 64 * 2 ^ 38) \<le> (2 ^ 24 + 1) * ?p" by simp
  with assms(2) have "5 * ?x \<le> 4 * c" by simp
  then show ?thesis by simp
qed

lemma shadow_share:
  assumes "unat v = c * 2 ^ 20" and "c < 2 ^ 12"
  shows "2 * float_part v 1 1 \<le> c * 2 ^ 20"
proof -
  have "to_float (unat v) = c * 2 ^ 20" unfolding assms(1) by (rule cache_to_float [OF assms(2)])
  moreover have "to_float (c * 2 ^ 20) = c * 2 ^ 20" by (rule cache_to_float [OF assms(2)])
  ultimately show ?thesis by (simp add: float_part_def)
qed

lemma ucast_u32_u64: "ucast (ucast (x :: u32) :: u64) = x"
  by (rule bit_word_eqI) (auto simp: bit_simps)

lemma blockHeadSize_aligned: "64 dvd unat (ucast (GetRecordHeadSize n) :: u32)"
proof -
  have "(ucast (GetRecordHeadSize n) :: u32) = CeilByAlignSize 64 (ucast (block_head_size + ucast n * 16))"
    unfolding GetRecordHeadSize_def by (rule ucast_u32_u64)
  moreover have "64 dvd unat (CeilByAlignSize 64 x)" for x
    by (simp add: CeilByAlignSize_def unat_word_ariths dvd_mod)
  ultimately show ?thesis by simp
qed

lemma simt_offsets_fit:
  assumes run: "simt_offsets cacheSize h = Some h'" and al: "64 dvd unat (oi_blockHeadSize (gh_offsetInfo h))"
    and fit: "unat (oi_blockHeadSize (gh_offsetInfo h)) + unat cacheSize * 2 ^ 20 < 2 ^ 32"
  shows "unat (oi_blockHeadSize (gh_offsetInfo h')) \<le> unat (oi_simtHeadOffset (gh_offsetInfo h')) \<and>
    oi_blockHeadSize (gh_offsetInfo h') = oi_blockHeadSize (gh_offsetInfo h) \<and>
    10 * (unat (oi_simtHeadOffset (gh_offsetInfo h')) + unat (GetAllThreadSize h')) \<le>
      10 * unat (oi_blockHeadSize (gh_offsetInfo h)) + 5 * (unat cacheSize * 2 ^ 20) \<and>
    (oi_shadowMemoryByteSize (gh_offsetInfo h') \<noteq> 0 \<longrightarrow>
      unat (oi_shadowMemoryOffset (gh_offsetInfo h')) = unat (oi_simtHeadOffset (gh_offsetInfo h')) + unat (GetAllThreadSize h') \<and>
      2 * unat (oi_shadowMemoryByteSize (gh_offsetInfo h')) \<le> unat cacheSize * 2 ^ 20)"
proof -
  define b c v where "b = oi_blockHeadSize (gh_offsetInfo h)" and "c = unat cacheSize" and "v = ucast cacheSize * MB_TO_BYTES"
  have c: "c < 2 ^ 12" "unat b + c * 2 ^ 20 < 2 ^ 32" using fit by (simp_all add: b_def c_def)
  have v: "unat v = c * 2 ^ 20" using c(1) by (simp add: v_def c_def MB_TO_BYTES_def unat_word_ariths)
  define t s m where "t = simt_thread_bytes v" and "s = simt_head_bytes v" and "m = shadow_bytes v"
  have tb: "10 * (unat t div 64 * 64 * 2048) \<le> c * 2 ^ 20"
  proof -
    have "float_part v 13421773 (27 + 11) < 2 ^ 64"
      using simt_thread_share [OF v c(1)] c(1) by simp
    then have "unat t = float_part v 13421773 (27 + 11)"
      by (simp add: t_def simt_thread_bytes_def unat_of_nat take_bit_nat_eq_self)
    then show ?thesis using simt_thread_share [OF v c(1)] by simp
  qed
  have sb: "10 * unat s \<le> 4 * (c * 2 ^ 20)"
  proof -
    have "float_part v 6710886 24 < 2 ^ 64" using simt_head_share [OF v c(1)] c(1) by simp
    then have "unat s = float_part v 6710886 24" by (simp add: s_def simt_head_bytes_def unat_of_nat take_bit_nat_eq_self)
    then show ?thesis using simt_head_share [OF v c(1)] by simp
  qed
  have mb: "2 * unat m \<le> c * 2 ^ 20"
  proof -
    have "float_part v 1 1 < 2 ^ 64" using shadow_share [OF v c(1)] c(1) by simp
    then have "unat m = float_part v 1 1" by (simp add: m_def shadow_bytes_def unat_of_nat take_bit_nat_eq_self)
    then show ?thesis using shadow_share [OF v c(1)] by simp
  qed
  have t64: "64 \<le> unat t" using run
    by (auto simp: simt_offsets_def Let_def t_def v_def simt_head_size_def word_less_nat_alt split: if_splits)
  define tbs where "tbs = (ucast (AlignDownSize 64 (t - simt_head_size)) :: u32)"
  define so where "so = (ucast (AlignDownSize 64 s + ucast b) :: u32)"
  have "unat (t - simt_head_size) = unat t - 64" using t64 by (simp add: simt_head_size_def unat_sub word_le_nat_alt)
  then have "unat (AlignDownSize 64 (t - simt_head_size)) = 64 * (unat t div 64) - 64"
    using t64 div_add_self1 [of 64 "unat t - 64"] by (simp add: AlignDown_64)
  moreover have "unat t div 64 * 64 \<le> 2 ^ 31" using tb c(1) by simp
  ultimately have tbs: "unat tbs + 64 = 64 * (unat t div 64)"
    using t64 by (simp add: tbs_def unsigned_ucast_eq take_bit_nat_eq_self) 
  have ads: "unat (AlignDownSize 64 s) = 64 * (unat s div 64)" by (rule AlignDown_64)
  have "64 * (unat s div 64) \<le> unat s" by simp
  then have so: "unat so = 64 * (unat s div 64) + unat b" "64 dvd unat so"
    using sb c al by (simp_all add: so_def unsigned_ucast_eq take_bit_nat_eq_self unat_word_ariths ads b_def dvd_mod)
  define i where "i = gh_offsetInfo h'"
  have i: "oi_blockHeadSize i = b" "oi_threadByteSize i = tbs" "oi_simtHeadOffset i = so"
    and shadow: "oi_shadowMemoryByteSize i = 0 \<or> oi_shadowMemoryByteSize i = ucast m \<and>
      oi_shadowMemoryOffset i = ucast (AlignDownSize 64 (ucast so + GetAllThreadSize h' + 64 - 1))"
    using run
    by (auto simp: i_def simt_offsets_def Let_def b_def tbs_def so_def t_def s_def m_def v_def GetAllThreadSize_def split: if_splits)
  have all: "unat (GetAllThreadSize h') = unat t div 64 * 64 * 2048"
  proof -
    define x where "x = (ucast tbs + simt_head_size :: u64)"
    have "unat x = 64 * (unat t div 64)"
      using tbs tb c(1) by (simp add: x_def unat_word_ariths simt_head_size_def)
    moreover have "GetAllThreadSize h' = x * 2048"
      by (simp only: GetAllThreadSize_def i_def [symmetric] i x_def SIMT_THREAD_MAX_SIZE_def)
    ultimately show ?thesis using tb c(1) by (simp add: unat_word_ariths)
  qed
  have room: "10 * (unat so + unat (GetAllThreadSize h')) \<le> 10 * unat b + 5 * (c * 2 ^ 20)"
    using so(1) sb tb unfolding all by simp
  have off: "unat (ucast (AlignDownSize 64 (ucast so + GetAllThreadSize h' + 64 - 1)) :: u32) = unat so + unat (GetAllThreadSize h')"
  proof -
    have e: "ucast so + GetAllThreadSize h' + 64 - 1 = ucast so + GetAllThreadSize h' + 63" by simp
    have "unat (ucast so + GetAllThreadSize h' + 63 :: u64) = unat so + unat (GetAllThreadSize h') + 63"
      using room c by (simp add: unat_word_ariths)
    moreover have "64 dvd unat so + unat (GetAllThreadSize h')" using so(2) by (simp add: all)
    then have "64 * ((unat so + unat (GetAllThreadSize h') + 63) div 64) = unat so + unat (GetAllThreadSize h')"
      by (auto elim!: dvdE)
    ultimately have "unat (AlignDownSize 64 (ucast so + GetAllThreadSize h' + 63 :: u64)) = unat so + unat (GetAllThreadSize h')"
      by (simp only: AlignDown_64)
    then show ?thesis using room c unfolding e by (simp add: unsigned_ucast_eq take_bit_nat_eq_self)
  qed
  have sm: "unat (ucast m :: u32) = unat m" using mb c by (simp add: unsigned_ucast_eq take_bit_nat_eq_self)
  show ?thesis
    unfolding i_def [symmetric] i b_def [symmetric] c_def [symmetric]
    using so(1) room shadow off sm mb by auto
qed

lemma assigned_offsets:
  assumes "AssignGlobalHead li = Some h" and "gh_supportSimt h"
  obtains h0 h1 where "simt_offsets (sc_cacheSize (li_config li)) h0 = Some h1" "gh_offsetInfo h = gh_offsetInfo h1"
    "64 dvd unat (oi_blockHeadSize (gh_offsetInfo h0))" "cp_cacheSize (gh_checkParms h) = sc_cacheSize (li_config li)"
    "GetAllThreadSize h = GetAllThreadSize h1"
proof -
  obtain l2 h1 where "simt_offsets (sc_cacheSize (li_config li)) (launch_head li l2) = Some h1"
    "gh_offsetInfo h = gh_offsetInfo h1" "cp_cacheSize (gh_checkParms h) = sc_cacheSize (li_config li)"
    using assms
    by (auto simp: AssignGlobalHead_def AssignMemSize_def launch_head_def simt_offsets_def Let_def GetAllThreadSize_def
        split: if_splits option.splits prod.splits)
  moreover have "64 dvd unat (oi_blockHeadSize (gh_offsetInfo (launch_head li l2)))"
    using blockHeadSize_aligned by (simp add: launch_head_def Let_def)
  ultimately show ?thesis by (intro that) (auto simp: GetAllThreadSize_def)
qed

text \<open>
  C15: When the head of a launch is accepted and a block with its cache fits 32 bits, the blocks of the launch lie one after the
  other inside the buffer that is asked for, whatever device it is, whichever blocks are checked and whether the block to
  check exists or not.
\<close>

theorem blocks_fit_buffer:
  assumes "AssignGlobalHead li = Some h" and "li_blockDim li \<noteq> 0" and "unat (li_blockDim li) < 2 ^ 32" and "cache_fits h"
  shows "block_pos (li_deviceType li) h (unat (ki_totalBlockDim (gh_kernelInfo h))) \<le> unat (record_buffer_size h)"
proof -
  define n c b t where "n = unat (ki_totalBlockDim (gh_kernelInfo h))" and "c = unat (cp_cacheSize (gh_checkParms h))"
    and "b = unat (oi_blockHeadSize (gh_offsetInfo h))" and "t = unat (ki_totalCacheSize (gh_kernelInfo h))"
  note f = assigned_head [OF assms(1-3)]
  have d: "0 < unat (li_blockDim li)" using assms(2) by (simp add: unat_gt_0)
  have few: "(if HasSubBlocks (li_deviceType li) then 2 else 1) \<le> n" using f(5) d by (auto simp: n_def)
  have c: "1 \<le> c" using f(4) by (simp add: c_def Suc_le_eq unat_gt_0)
  have t: "t = (if cp_checkBlockId (gh_checkParms h) = CHECK_ALL_BLOCK then n * c
      else let k = if HasSubBlocks (li_deviceType li) then 2 else 1 in k * c + (n - k))" "t \<le> 24 * 1024"
    using f(6,7) by (simp_all add: Let_def n_def c_def t_def)
  have "n \<le> t" using t(1) c few by (auto simp: Let_def)
  then have n: "n \<le> 24 * 1024" using t(2) by simp
  have "b < 2 ^ 32" using unsigned_less [of "oi_blockHeadSize (gh_offsetInfo h)"] by (simp add: b_def)
  then have "n * b \<le> 24 * 1024 * 2 ^ 32" using n by (intro mult_le_mono) simp_all
  then have s: "unat (record_buffer_size h) = t * 2 ^ 20 + 38528 + n * b"
    using t(2) by (simp add: record_buffer_size_def MB_TO_BYTES_def global_head_size_def unat_word_ariths n_def [symmetric]
        b_def [symmetric] t_def [symmetric])
  have "block_pos (li_deviceType li) h n \<le> 38528 + n * b + t * 2 ^ 20"
    using block_pos_bound [OF assms(4) f(4) _ few] n
    by (simp add: global_head_size_def b_def [symmetric] c_def [symmetric] t(1) Let_def split: if_splits)
  then show ?thesis by (simp add: s n_def [symmetric])
qed

text \<open>
  C16: On a device with threads, when a block with its cache fits 32 bits (caches below 4096 MB less the head), the parts of
  a checked block, which has the whole cache, lie in their order without overlap, and the last of them ends inside it: the
  head, the thread records, the shadow memory. The rounding of the three single-precision shares never makes them exceed the
  whole. (For larger caches, which the configuration admits, the 32-bit sizes wrap.)
\<close>

theorem simt_areas_fit:
  assumes "AssignGlobalHead li = Some h" and "gh_supportSimt h" and "cache_fits h"
  shows "unat (oi_blockHeadSize (gh_offsetInfo h)) \<le> unat (oi_simtHeadOffset (gh_offsetInfo h)) \<and>
    unat (oi_simtHeadOffset (gh_offsetInfo h)) + unat (GetAllThreadSize h) \<le> full_block h \<and>
    (oi_shadowMemoryByteSize (gh_offsetInfo h) \<noteq> 0 \<longrightarrow>
      unat (oi_simtHeadOffset (gh_offsetInfo h)) + unat (GetAllThreadSize h) \<le> unat (oi_shadowMemoryOffset (gh_offsetInfo h)) \<and>
      unat (oi_shadowMemoryOffset (gh_offsetInfo h)) + unat (oi_shadowMemoryByteSize (gh_offsetInfo h)) \<le> full_block h)"
proof -
  obtain h0 h1 where h1: "simt_offsets (sc_cacheSize (li_config li)) h0 = Some h1" "gh_offsetInfo h = gh_offsetInfo h1"
    "64 dvd unat (oi_blockHeadSize (gh_offsetInfo h0))" "cp_cacheSize (gh_checkParms h) = sc_cacheSize (li_config li)"
    "GetAllThreadSize h = GetAllThreadSize h1"
    by (rule assigned_offsets [OF assms(1,2)])
  have "oi_blockHeadSize (gh_offsetInfo h1) = oi_blockHeadSize (gh_offsetInfo h0)"
    using h1(1) by (auto simp: simt_offsets_def Let_def split: if_splits)
  then have "unat (oi_blockHeadSize (gh_offsetInfo h0)) + unat (sc_cacheSize (li_config li)) * 2 ^ 20 < 2 ^ 32"
    using assms(3) by (simp add: cache_fits_def h1)
  from simt_offsets_fit [OF h1(1,3) this] show ?thesis
    by (auto simp: h1 full_block_def)
qed

definition demo_launch :: "DeviceType \<Rightarrow> u16 \<Rightarrow> launch_input" where
  "demo_launch dt block = \<lparr>li_config = \<lparr>sc_defaultCheck = True, sc_memCheck = True, sc_raceCheck = False, sc_initCheck = False,
       sc_syncCheck = False, sc_registerCheck = False, sc_checkDeviceHeap = False, sc_checkCannHeap = False, sc_leakCheck = False,
       sc_checkUnusedMemory = False, sc_checkCrossNpuRaces = False, sc_isPrintFullStack = False, sc_checkBlockId = block,
       sc_cacheSize = 100, sc_demangleMode = FULL_DEMANGLED_NAME, sc_pluginPath = [], sc_kernelName = [], sc_dumpPath = []\<rparr>,
     li_deviceType = dt, li_registers = replicate 38400 0, li_registersCopied = True, li_l2CacheOffset = Some 0,
     li_kernelType = MIX, li_kernelParamNum = 2, li_ubDynamicSize = 0, li_hostMemoryNum = 2, li_blockDim = 4\<rparr>"

definition demo_head :: "u16 \<Rightarrow> RecordGlobalHead" where
  "demo_head block = snd (AssignMemSize (launch_head (demo_launch ASCEND_910B1 block) 0) 4 ASCEND_910B1)"

lemma demo_head_size: "GetRecordHeadSize 2 = 192"
  by (simp add: GetRecordHeadSize_def CeilByAlignSize_def block_head_size_def)

lemma demo_head_assigned: "AssignGlobalHead (demo_launch ASCEND_910B1 0) = Some (demo_head 0)"
  by (simp add: demo_launch_def demo_head_def AssignGlobalHead_def launch_head_def IsC220Arch_def SupportSimt_def IsC310Arch_def
      AssignMemSize_def HasSubBlocks_def CHECK_ALL_BLOCK_def SINGLE_CHECK_OTHER_BLOCK_CACHE_SIZE_def Let_def
      MAX_RECORD_BUF_SIZE_EACH_BLOCK_def MAX_RECORD_BUF_SIZE_ALL_BLOCK_def)

lemma demo_head_fits: "cache_fits (demo_head 0)"
  by (simp add: cache_fits_def demo_head_def AssignMemSize_def launch_head_def demo_launch_def demo_head_size Let_def
      empty_offsets_def)

theorem blocks_fit_buffer_witness:
  "block_pos ASCEND_910B1 (demo_head 0) (unat (ki_totalBlockDim (gh_kernelInfo (demo_head 0)))) \<le> unat (record_buffer_size (demo_head 0))"
  using blocks_fit_buffer [OF demo_head_assigned _ _ demo_head_fits]
  by (simp add: demo_launch_def)

definition demo_simt_head :: RecordGlobalHead where
  "demo_simt_head = the (AssignGlobalHead (demo_launch ASCEND_950DT_9571 0))"

lemma demo_threads: "simt_thread_bytes 104857600 = 5120"
  by (simp add: simt_thread_bytes_def float_part_def to_float_def float_shift.simps)

lemma simt_offsets_keeps: "simt_offsets cs h = Some h1 \<Longrightarrow> gh_checkParms h1 = gh_checkParms h"
  by (auto simp: simt_offsets_def Let_def split: if_splits)

lemma demo_simt_assigned: "AssignGlobalHead (demo_launch ASCEND_950DT_9571 0) = Some demo_simt_head"
proof -
  have "simt_offsets 100 h \<noteq> None" for h
    by (simp add: simt_offsets_def Let_def demo_threads MB_TO_BYTES_def simt_head_size_def)
  then obtain h1 where h1: "simt_offsets 100 (launch_head (demo_launch ASCEND_950DT_9571 0) 0) = Some h1" by blast
  then have p: "gh_checkParms h1 = gh_checkParms (launch_head (demo_launch ASCEND_950DT_9571 0) 0)"
    by (rule simt_offsets_keeps)
  have s: "gh_supportSimt (launch_head (demo_launch ASCEND_950DT_9571 0) 0)"
    by (simp add: demo_launch_def launch_head_def SupportSimt_def IsC310Arch_def)
  have d: "sc_cacheSize (li_config (demo_launch ASCEND_950DT_9571 0)) = 100" "li_registersCopied (demo_launch ASCEND_950DT_9571 0)"
    "li_deviceType (demo_launch ASCEND_950DT_9571 0) = ASCEND_950DT_9571" "li_blockDim (demo_launch ASCEND_950DT_9571 0) = 4"
    by (simp_all add: demo_launch_def)
  have p2: "cp_cacheSize (gh_checkParms h1) = 100" "cp_checkBlockId (gh_checkParms h1) = 0"
    by (simp_all add: p launch_head_def demo_launch_def)
  have "AssignGlobalHead (demo_launch ASCEND_950DT_9571 0) \<noteq> None"
    by (simp add: AssignGlobalHead_def d s h1 Let_def AssignMemSize_def p2 HasSubBlocks_def IsC310Arch_def
        IsC220Arch_def CHECK_ALL_BLOCK_def SINGLE_CHECK_OTHER_BLOCK_CACHE_SIZE_def MAX_RECORD_BUF_SIZE_EACH_BLOCK_def
        MAX_RECORD_BUF_SIZE_ALL_BLOCK_def)
  then show ?thesis by (auto simp: demo_simt_head_def)
qed


lemma assigned_block_head:
  assumes "AssignGlobalHead li = Some h"
  shows "oi_blockHeadSize (gh_offsetInfo h) = ucast (GetRecordHeadSize (li_hostMemoryNum li)) \<and>
    cp_cacheSize (gh_checkParms h) = sc_cacheSize (li_config li) \<and> gh_supportSimt h = SupportSimt (li_deviceType li)"
  using assms
  by (auto simp: AssignGlobalHead_def AssignMemSize_def simt_offsets_def launch_head_def Let_def split: if_splits option.splits)

lemma demo_simt_fits: "gh_supportSimt demo_simt_head" "cache_fits demo_simt_head"
proof -
  have "SupportSimt ASCEND_950DT_9571" by (simp add: SupportSimt_def IsC310Arch_def)
  then show "gh_supportSimt demo_simt_head" "cache_fits demo_simt_head"
    using assigned_block_head [OF demo_simt_assigned] by (simp_all add: demo_launch_def demo_head_size cache_fits_def)
qed

theorem simt_areas_fit_witness:
  "unat (oi_simtHeadOffset (gh_offsetInfo demo_simt_head)) + unat (GetAllThreadSize demo_simt_head) \<le> full_block demo_simt_head"
  using simt_areas_fit [OF demo_simt_assigned demo_simt_fits] by blast

text \<open>
  The limits admit a cache of 4096 MB and more, whose size in bytes does not fit the 32 bits \<open>GetBlockSize\<close> returns: the
  blocks are then laid out as if they had no cache at all.
\<close>

lemma large_cache_wraps:
  assumes "cp_cacheSize (gh_checkParms h) = 4096" and "cp_checkBlockId (gh_checkParms h) = CHECK_ALL_BLOCK"
  shows "GetBlockSize dt h i = oi_blockHeadSize (gh_offsetInfo h)"
proof -
  have "ucast (ucast (x :: u32) + 4294967296 :: u64) = x" for x
  proof -
    have "unat x < 2 ^ 32" using unsigned_less [of x] by simp
    then show ?thesis by (simp add: word_unat_eq_iff unsigned_ucast_eq take_bit_eq_mod unat_word_ariths)
  qed
  then show ?thesis using assms by (simp add: GetBlockSize_def MB_TO_BYTES_def ucast_u32_u64)
qed

end
