(* ===== verification/ShadowMemory.thy ===== *)
theory ShadowMemory
  imports RecordLayout "HOL-Library.Signed_Division"
begin

text \<open>
  The shadow memory a kernel with threads leaves behind: the three-level table of
  \<open>csrc/runtime/inject_helpers/LaunchInitFinalize.cpp\<close> (\<open>ParseSmTable\<close> and what it calls) and the records made of it. A
  cell stands for a byte of memory; neighbouring cells of the same access become one record. \<open>None\<close> is a read outside the
  bytes that were copied from the device.
\<close>

section \<open>Records\<close>

datatype AccessType = ACCESS_READ | ACCESS_WRITE | ACCESS_MEMCPY_BLOCKS

datatype AddressSpace = PRIVATE | GM | L1 | L0A | L0B | L0C | UB | BT | FB | INVALID_SPACE

record SimtThreadLocation =
  tl_idX :: u16
  tl_idY :: u16
  tl_idZ :: u16

record Location =
  sl_fileNo :: u64
  sl_lineNo :: u64
  sl_pc :: u64
  sl_blockId :: u16

record ShadowMemoryRecord =
  sr_addr :: u64
  sr_size :: u64
  sr_location :: Location
  sr_threadLoc :: SimtThreadLocation
  sr_space :: AddressSpace
  sr_accessType :: AccessType

definition ONLINE_GLOBAL_MEM_MASK :: u64 where "ONLINE_GLOBAL_MEM_MASK = 0xFFFFFFFFFFFF"
definition ONLINE_LOCAL_MEM_MASK :: u64 where "ONLINE_LOCAL_MEM_MASK = 0xFFFFFFFF"
definition ONLINE_ONE_SM_STAND_FOR_BYTE :: u64 where "ONLINE_ONE_SM_STAND_FOR_BYTE = 0xFFFF + 1"
definition LOCKED_BY_OTHER_THREADS :: u64 where "LOCKED_BY_OTHER_THREADS = 1"
definition UNALLOCATABLE :: u64 where "UNALLOCATABLE = - 1"

text \<open>The state of a cell: the program counter from bit 32, the kind of memory in bit 30, the status from bit 11, the thread.\<close>

definition cell_status :: "u64 \<Rightarrow> u64" where "cell_status st = drop_bit 11 st AND 0xF"
definition cell_memory_type :: "u64 \<Rightarrow> u64" where "cell_memory_type st = drop_bit 30 st AND 1"
definition cell_pc :: "u64 \<Rightarrow> u64" where "cell_pc st = drop_bit 32 st AND 0xFFFF"
definition cell_thread :: "u64 \<Rightarrow> u16" where "cell_thread st = ucast (st AND 0x7FF)"

text \<open>The statuses \<open>READ\<close> (1) and \<open>GLOBAL_READ\<close> (2); 0 is \<open>DEFAULT\<close>, 3 \<open>WRITE\<close>, 4 \<open>RACE\<close>. Memory types: 0 \<open>GM\<close>, 1 \<open>UB\<close>.\<close>

definition IsReadStatus :: "u64 \<Rightarrow> bool" where
  "IsReadStatus memStatus \<longleftrightarrow> memStatus = 2 \<or> memStatus = 1"

text \<open>
  Thread numbers count x fastest, then y, then z. The 16-bit dimensions are promoted to \<open>int\<close>, in which they are multiplied
  (the product is read as two's complement) and divided.
\<close>

definition DecomposeThreadId :: "u16 \<Rightarrow> RecordBlockHead \<Rightarrow> SimtThreadLocation" where
  "DecomposeThreadId threadId head =
     (let x = bi_threadXDim (bh_blockInfo head); y = bi_threadYDim (bh_blockInfo head) in
      if x = 0 \<or> y = 0 then \<lparr>tl_idX = 0, tl_idY = 0, tl_idZ = 0\<rparr>
      else let t = uint threadId; xy = sint (ucast x * ucast y :: u32)
        in \<lparr>tl_idX = word_of_int (t smod uint x), tl_idY = word_of_int ((t smod xy) sdiv uint x), tl_idZ = word_of_int (t sdiv xy)\<rparr>)"

definition cell_record :: "u64 \<Rightarrow> u64 \<Rightarrow> RecordBlockHead \<Rightarrow> ShadowMemoryRecord" where
  "cell_record status addr head =
     \<lparr>sr_addr = addr, sr_size = 1,
      sr_location = \<lparr>sl_fileNo = 0, sl_lineNo = 0, sl_pc = cell_pc status, sl_blockId = bi_blockId (bh_blockInfo head)\<rparr>,
      sr_threadLoc = DecomposeThreadId (cell_thread status) head,
      sr_space = (if cell_memory_type status = 0 then GM else UB),
      sr_accessType = (if IsReadStatus (cell_status status) then ACCESS_READ else ACCESS_WRITE)\<rparr>"

definition mergeable :: "ShadowMemoryRecord \<Rightarrow> ShadowMemoryRecord \<Rightarrow> bool" where
  "mergeable back r \<longleftrightarrow> sr_location back = sr_location r \<and> sr_accessType back = sr_accessType r \<and> sr_space back = sr_space r \<and>
     sr_threadLoc back = sr_threadLoc r \<and> sr_addr back + sr_size back = sr_addr r"

definition MergeSmRecord :: "ShadowMemoryRecord list \<Rightarrow> u64 \<Rightarrow> u64 \<Rightarrow> RecordBlockHead \<Rightarrow> ShadowMemoryRecord list" where
  "MergeSmRecord records status addr head =
     (let r = cell_record status addr head in
      if records = [] then [r]
      else if mergeable (last records) r
           then butlast records @ [(last records)\<lparr>sr_size := sr_size (last records) + sr_size r\<rparr>]
           else records @ [r])"

section \<open>The table\<close>

text \<open>The loop clears the lowest bit that is set; the count is eight bits wide.\<close>

lemma clear_lowest_less: "n \<noteq> 0 \<Longrightarrow> n AND (n - 1) < (n :: 'a::len word)"
proof -
  assume n: "n \<noteq> 0"
  have "n AND (n - 1) \<le> n - 1" by (rule word_and_le1)
  also have "n - 1 < n" using n by (metis measure_unat word_less_nat_alt)
  finally show ?thesis .
qed

function count_loop :: "u64 \<Rightarrow> u8 \<Rightarrow> u8" where
  "count_loop number count = (if number = 0 then count else count_loop (number AND (number - 1)) (count + 1))"
  by auto
termination
  by (relation "measure (\<lambda>(n, c). unat n)") (auto simp: clear_lowest_less simp flip: word_less_nat_alt)

declare count_loop.simps [simp del]

definition CountOneBits :: "u64 \<Rightarrow> u8" where
  "CountOneBits number = count_loop number 0"

definition sm_word :: "u8 list \<Rightarrow> nat \<Rightarrow> u64 option" where
  "sm_word host off = (if off + 8 \<le> length host then Some (field 8 off host) else None)"

definition no_table :: "u64 \<Rightarrow> bool" where
  "no_table e \<longleftrightarrow> e = 0 \<or> e = UNALLOCATABLE \<or> e = LOCKED_BY_OTHER_THREADS"

definition cell_accessed :: "u64 \<Rightarrow> bool" where
  "cell_accessed st \<longleftrightarrow> cell_status st \<noteq> 0 \<and> (cell_memory_type st = 0 \<or> cell_memory_type st = 1)"

definition cell_addr :: "nat \<Rightarrow> nat \<Rightarrow> nat \<Rightarrow> u64" where
  "cell_addr l0 l1 l2 =
     push_bit (unat (CountOneBits ONLINE_LOCAL_MEM_MASK)) (word_of_nat l0) OR
     push_bit (unat (CountOneBits (ONLINE_ONE_SM_STAND_FOR_BYTE - 1))) (word_of_nat l1) OR word_of_nat l2"

definition l2_table_num :: nat where "l2_table_num = unat ONLINE_ONE_SM_STAND_FOR_BYTE"
definition l1_table_num :: nat where
  "l1_table_num = unat ((ONLINE_LOCAL_MEM_MASK + ONLINE_ONE_SM_STAND_FOR_BYTE - 1) div ONLINE_ONE_SM_STAND_FOR_BYTE)"
definition l0_table_num :: nat where
  "l0_table_num = unat ((ONLINE_GLOBAL_MEM_MASK + ONLINE_LOCAL_MEM_MASK - 1) div ONLINE_LOCAL_MEM_MASK)"

text \<open>A loop over the indices of a table, with the records made so far; \<open>f\<close> reads one entry.\<close>

primrec sm_loop :: "(nat \<Rightarrow> 'r \<Rightarrow> 'r option) \<Rightarrow> nat list \<Rightarrow> 'r \<Rightarrow> 'r option" where
  "sm_loop f [] rs = Some rs"
| "sm_loop f (i # js) rs = (case f i rs of None \<Rightarrow> None | Some rs' \<Rightarrow> sm_loop f js rs')"

definition ParseSmL2Table ::
  "u8 list \<Rightarrow> nat \<Rightarrow> nat \<Rightarrow> nat \<Rightarrow> RecordBlockHead \<Rightarrow> ShadowMemoryRecord list \<Rightarrow> ShadowMemoryRecord list option" where
  "ParseSmL2Table host l2Tbl l0Idx l1Idx head =
     sm_loop (\<lambda>l2Idx rs.
       case sm_word host (l2Tbl + 8 * l2Idx) of
         None \<Rightarrow> None
       | Some status \<Rightarrow>
           if cell_accessed status then Some (MergeSmRecord rs status (cell_addr l0Idx l1Idx l2Idx) head) else Some rs)
       [0..<l2_table_num]"

definition ParseSmL1Table ::
  "u8 list \<Rightarrow> u64 \<Rightarrow> RecordBlockHead \<Rightarrow> nat \<Rightarrow> ShadowMemoryRecord list \<Rightarrow> ShadowMemoryRecord list option" where
  "ParseSmL1Table host smBaseAddr head l0Idx rs0 =
     (case sm_word host (unat heap_head_size + 8 * l0Idx) of
        None \<Rightarrow> None
      | Some l0 \<Rightarrow>
          let l1Tbl = unat (l0 - smBaseAddr) in
          sm_loop (\<lambda>l1Idx rs.
            case sm_word host (l1Tbl + 8 * l1Idx) of
              None \<Rightarrow> None
            | Some l1 \<Rightarrow>
                if no_table l1 then Some rs else ParseSmL2Table host (unat (l1 - smBaseAddr)) l0Idx l1Idx head rs)
            [0..<l1_table_num] rs0)"

definition ParseSmTable :: "u8 list \<Rightarrow> u64 \<Rightarrow> RecordBlockHead \<Rightarrow> ShadowMemoryRecord list option" where
  "ParseSmTable host smBaseAddr head =
     sm_loop (\<lambda>l0Idx rs.
       case sm_word host (unat heap_head_size + 8 * l0Idx) of
         None \<Rightarrow> None
       | Some l0 \<Rightarrow> if no_table l0 then Some rs else ParseSmL1Table host smBaseAddr head l0Idx rs)
       [0..<l0_table_num] []"

definition ShadowMemoryRecord_bytes :: "ShadowMemoryRecord \<Rightarrow> u8 list" where
  "ShadowMemoryRecord_bytes r =
     (let l = sr_location r; t = sr_threadLoc r;
          space = (case sr_space r of PRIVATE \<Rightarrow> 0 | GM \<Rightarrow> 1 | L1 \<Rightarrow> 2 | L0A \<Rightarrow> 3 | L0B \<Rightarrow> 4 | L0C \<Rightarrow> 5 | UB \<Rightarrow> 6 | BT \<Rightarrow> 7
            | FB \<Rightarrow> 8 | INVALID_SPACE \<Rightarrow> 0xFFFFFFFF);
          access = (case sr_accessType r of ACCESS_READ \<Rightarrow> 0 | ACCESS_WRITE \<Rightarrow> 1 | ACCESS_MEMCPY_BLOCKS \<Rightarrow> 2)
      in le_bytes 8 (unat (sr_addr r)) @ le_bytes 8 (unat (sr_size r)) @ le_bytes 8 (unat (sl_fileNo l)) @
         le_bytes 8 (unat (sl_lineNo l)) @ le_bytes 8 (unat (sl_pc l)) @ le_bytes 2 (unat (sl_blockId l)) @ replicate 6 0 @
         le_bytes 2 (unat (tl_idX t)) @ le_bytes 2 (unat (tl_idY t)) @ le_bytes 2 (unat (tl_idZ t)) @ replicate 2 0 @
         le_bytes 4 space @ le_bytes 1 access @ replicate 3 0)"

definition ShadowMemoryRecordHead_bytes :: "nat \<Rightarrow> u8 list" where
  "ShadowMemoryRecordHead_bytes recordCount = le_bytes 4 80000 @ replicate 4 0 @ le_bytes 8 recordCount"

section \<open>The records say what the table says\<close>

type_synonym access = "u64 \<times> Location \<times> SimtThreadLocation \<times> AddressSpace \<times> AccessType"

text \<open>A record spread out over its bytes, and the cells of the table in the order of their indices.\<close>

definition spread :: "ShadowMemoryRecord \<Rightarrow> access list" where
  "spread r = map (\<lambda>i. (sr_addr r + word_of_nat i, sr_location r, sr_threadLoc r, sr_space r, sr_accessType r)) [0..<unat (sr_size r)]"

definition cell_access :: "RecordBlockHead \<Rightarrow> u64 \<times> u64 \<Rightarrow> access" where
  "cell_access head c =
     (let (addr, st) = c; r = cell_record st addr head
      in (addr, sr_location r, sr_threadLoc r, sr_space r, sr_accessType r))"

definition entries :: "(u64 \<Rightarrow> nat \<Rightarrow> 'a list) \<Rightarrow> u8 list \<Rightarrow> nat \<Rightarrow> nat \<Rightarrow> 'a list" where
  "entries g host tbl n =
     concat (map (\<lambda>i. case sm_word host (tbl + 8 * i) of None \<Rightarrow> [] | Some e \<Rightarrow> g e i) [0..<n])"

definition l2_cells :: "u8 list \<Rightarrow> nat \<Rightarrow> nat \<Rightarrow> nat \<Rightarrow> (u64 \<times> u64) list" where
  "l2_cells host l2Tbl l0 l1 =
     entries (\<lambda>st l2. if cell_accessed st then [(cell_addr l0 l1 l2, st)] else []) host l2Tbl l2_table_num"

definition table_cells :: "u8 list \<Rightarrow> u64 \<Rightarrow> (u64 \<times> u64) list" where
  "table_cells host base =
     entries (\<lambda>e0 l0. if no_table e0 then [] else
       entries (\<lambda>e1 l1. if no_table e1 then [] else l2_cells host (unat (e1 - base)) l0 l1) host (unat (e0 - base)) l1_table_num)
       host (unat heap_head_size) l0_table_num"

definition merge_cell :: "RecordBlockHead \<Rightarrow> u64 \<times> u64 \<Rightarrow> ShadowMemoryRecord list \<Rightarrow> ShadowMemoryRecord list" where
  "merge_cell head c rs = MergeSmRecord rs (snd c) (fst c) head"

lemma sm_loop_fold:
  assumes "\<And>i rs rs'. i \<in> set js \<Longrightarrow> f i rs = Some rs' \<Longrightarrow> rs' = fold m (g i) rs"
  shows "sm_loop f js rs = Some rs' \<Longrightarrow> rs' = fold m (concat (map g js)) rs"
  using assms
proof (induction js arbitrary: rs)
  case Nil
  then show ?case by simp
next
  case (Cons j js)
  then obtain rs1 where "f j rs = Some rs1" "sm_loop f js rs1 = Some rs'" by (auto split: option.splits)
  with Cons show ?case by fastforce
qed

lemma ParseSmL2Table_fold:
  "ParseSmL2Table host l2Tbl l0 l1 head rs = Some rs' \<Longrightarrow> rs' = fold (merge_cell head) (l2_cells host l2Tbl l0 l1) rs"
  unfolding ParseSmL2Table_def l2_cells_def entries_def
  by (erule sm_loop_fold [rotated]) (auto simp: merge_cell_def split: option.splits if_splits)

lemma ParseSmL1Table_fold:
  assumes "ParseSmL1Table host base head l0 rs = Some rs'" and "sm_word host (unat heap_head_size + 8 * l0) = Some e0"
  shows "rs' = fold (merge_cell head)
    (entries (\<lambda>e1 l1. if no_table e1 then [] else l2_cells host (unat (e1 - base)) l0 l1) host (unat (e0 - base)) l1_table_num) rs"
  using assms unfolding ParseSmL1Table_def entries_def
  by (simp add: Let_def) (erule sm_loop_fold [rotated], auto dest: ParseSmL2Table_fold split: option.splits if_splits)

lemma ParseSmTable_fold:
  "ParseSmTable host base head = Some rs \<Longrightarrow> rs = fold (merge_cell head) (table_cells host base) []"
  unfolding ParseSmTable_def table_cells_def entries_def [of _ _ "unat heap_head_size"]
  by (erule sm_loop_fold [rotated]) (auto dest: ParseSmL1Table_fold split: option.splits if_splits)

lemma length_spread [simp]: "length (spread r) = unat (sr_size r)"
  by (simp add: spread_def)

lemma merge_spread:
  assumes "length (concat (map spread rs)) < 2 ^ 64 - 1"
  shows "concat (map spread (merge_cell head c rs)) = concat (map spread rs) @ [cell_access head c]"
proof -
  obtain a st where c: "c = (a, st)" by fastforce
  let ?r = "cell_record st a head"
  have one: "spread ?r = [cell_access head c]"
    by (simp add: spread_def cell_record_def cell_access_def c Let_def)
  show ?thesis
  proof (cases "rs = [] \<or> \<not> mergeable (last rs) ?r")
    case True
    then show ?thesis using one by (auto simp: merge_cell_def MergeSmRecord_def c Let_def)
  next
    case False
    define b where "b = last rs"
    have rs: "rs = butlast rs @ [b]" using False by (simp add: b_def)
    have eq: "sr_location b = sr_location ?r" "sr_accessType b = sr_accessType ?r" "sr_space b = sr_space ?r"
      "sr_threadLoc b = sr_threadLoc ?r" "sr_addr b + sr_size b = a"
      using False by (auto simp: mergeable_def b_def cell_record_def)
    have "unat (sr_size b) < 2 ^ 64 - 1"
      using assms by (subst (asm) rs) simp
    then have "unat (sr_size b + 1) = unat (sr_size b) + 1" by (simp add: unat_word_ariths)
    then have "spread (b\<lparr>sr_size := sr_size b + 1\<rparr>) = spread b @ [cell_access head c]"
      by (simp add: spread_def cell_access_def c eq(1-4) Let_def) (simp add: eq(5) [symmetric] cell_record_def)
    moreover have "merge_cell head c rs = butlast rs @ [b\<lparr>sr_size := sr_size b + 1\<rparr>]"
      using False by (simp add: merge_cell_def MergeSmRecord_def c b_def Let_def) (simp add: cell_record_def)
    ultimately show ?thesis by (subst (2) rs) simp
  qed
qed

lemma merge_separate:
  assumes "successively (\<lambda>x y. \<not> mergeable x y) rs"
  shows "successively (\<lambda>x y. \<not> mergeable x y) (merge_cell head c rs)"
proof -
  obtain a st where c: "c = (a, st)" by fastforce
  let ?r = "cell_record st a head"
  show ?thesis
  proof (cases "rs = [] \<or> \<not> mergeable (last rs) ?r")
    case True
    then show ?thesis using assms by (auto simp: merge_cell_def MergeSmRecord_def c Let_def successively_append_iff)
  next
    case False
    define b where "b = last rs"
    have rs: "rs = butlast rs @ [b]" using False by (simp add: b_def)
    have "merge_cell head c rs = butlast rs @ [b\<lparr>sr_size := sr_size b + 1\<rparr>]"
      using False by (simp add: merge_cell_def MergeSmRecord_def c b_def Let_def) (simp add: cell_record_def)
    moreover have "successively (\<lambda>x y. \<not> mergeable x y) (butlast rs @ [b])" using assms rs by simp
    ultimately show ?thesis by (auto simp: successively_append_iff mergeable_def)
  qed
qed

lemma fold_merge:
  assumes "length (concat (map spread rs)) + length cs < 2 ^ 64" and "successively (\<lambda>x y. \<not> mergeable x y) rs"
  shows "concat (map spread (fold (merge_cell head) cs rs)) = concat (map spread rs) @ map (cell_access head) cs \<and>
    successively (\<lambda>x y. \<not> mergeable x y) (fold (merge_cell head) cs rs)"
  using assms
proof (induction cs arbitrary: rs)
  case Nil
  then show ?case by simp
next
  case (Cons c cs)
  have m: "concat (map spread (merge_cell head c rs)) = concat (map spread rs) @ [cell_access head c]"
    using Cons.prems(1) by (intro merge_spread) simp
  then show ?case using Cons.IH [OF _ merge_separate [OF Cons.prems(2)], of head c] Cons.prems(1) by simp
qed

lemma entries_length:
  assumes "\<And>e i. length (g e i) \<le> k"
  shows "length (entries g host tbl n) \<le> n * k"
proof -
  have "length (entries g host tbl n) \<le> (\<Sum>i<n. k)"
    unfolding entries_def length_concat map_map comp_def interv_sum_list_conv_sum_set_nat atLeast_upt
    using assms by (intro sum_mono) (auto split: option.splits)
  then show ?thesis by simp
qed

lemma table_nums: "l2_table_num = 65536" "l1_table_num = 65536" "l0_table_num = 65537"
  by (simp_all add: l2_table_num_def l1_table_num_def l0_table_num_def ONLINE_ONE_SM_STAND_FOR_BYTE_def
      ONLINE_LOCAL_MEM_MASK_def ONLINE_GLOBAL_MEM_MASK_def)

lemma table_cells_length: "length (table_cells host base) < 2 ^ 64"
proof -
  have l2: "length (l2_cells host t l0 l1) \<le> l2_table_num" for t l0 l1
    using entries_length [of "\<lambda>st l2. if cell_accessed st then [(cell_addr l0 l1 l2, st)] else []" 1 host t l2_table_num]
    by (simp add: l2_cells_def)
  have l1: "length (entries (\<lambda>e1 l1. if no_table e1 then [] else l2_cells host (unat (e1 - base)) l0 l1) host t l1_table_num)
      \<le> l1_table_num * l2_table_num" for t l0
    by (rule entries_length) (simp add: l2)
  have "length (table_cells host base) \<le> l0_table_num * (l1_table_num * l2_table_num)"
    unfolding table_cells_def by (rule entries_length) (simp add: l1)
  then show ?thesis by (simp add: table_nums)
qed

section \<open>The order of the cells\<close>

lemma bit_counts: "CountOneBits ONLINE_LOCAL_MEM_MASK = 32" "CountOneBits (ONLINE_ONE_SM_STAND_FOR_BYTE - 1) = 16"
  by (simp_all add: CountOneBits_def ONLINE_LOCAL_MEM_MASK_def ONLINE_ONE_SM_STAND_FOR_BYTE_def count_loop.simps)

lemma low_bits: "l < 2 ^ k \<Longrightarrow> bit (word_of_nat l :: u64) n \<Longrightarrow> n < k"
proof (rule ccontr)
  assume "l < 2 ^ k" "bit (word_of_nat l :: u64) n" "\<not> n < k"
  then have "bit l n" by (simp add: bit_simps)
  then have "2 ^ n \<le> l" by (simp add: bit_iff_odd) (metis div_less even_zero not_le)
  moreover have "(2 :: nat) ^ k \<le> 2 ^ n" using \<open>\<not> n < k\<close> by simp
  ultimately show False using \<open>l < 2 ^ k\<close> by linarith
qed

lemma cell_addr_nat:
  assumes "l0 < l0_table_num" "l1 < l1_table_num" "l2 < l2_table_num"
  shows "unat (cell_addr l0 l1 l2) = l0 * 2 ^ 32 + l1 * 2 ^ 16 + l2"
proof -
  have l: "l1 < 2 ^ 16" "l2 < 2 ^ 16" "l0 \<le> 2 ^ 16" using assms by (simp_all add: table_nums)
  define a b c where "a = push_bit 32 (word_of_nat l0 :: u64)" and "b = push_bit 16 (word_of_nat l1 :: u64)"
    and "c = (word_of_nat l2 :: u64)"
  have bc: "b OR c = b + c"
    using low_bits [OF l(2)] by (intro disjunctive_add [symmetric]) (fastforce simp: b_def c_def bit_simps)
  have abc: "a OR (b OR c) = a + (b OR c)"
    using low_bits [OF l(1)] low_bits [OF l(2)] by (intro disjunctive_add [symmetric]) (fastforce simp: a_def b_def c_def bit_simps)
  have "unat a = l0 * 2 ^ 32" "unat b = l1 * 2 ^ 16" "unat c = l2"
    using l by (simp_all add: a_def b_def c_def push_bit_eq_mult unat_word_ariths unat_of_nat)
  then have "unat (a + (b + c)) = l0 * 2 ^ 32 + l1 * 2 ^ 16 + l2" using l by (simp add: unat_word_ariths)
  moreover have "cell_addr l0 l1 l2 = a OR (b OR c)" by (simp add: cell_addr_def bit_counts a_def b_def c_def)
  ultimately show ?thesis by (simp only: bc abc [unfolded bc])
qed

lemma entries_sorted:
  fixes key :: "'a \<Rightarrow> nat"
  assumes "\<And>e i. i < n \<Longrightarrow> sorted_wrt (<) (map key (g e i)) \<and> (\<forall>x \<in> set (g e i). low + i * k \<le> key x \<and> key x < low + (i + 1) * k)"
  shows "sorted_wrt (<) (map key (entries g host tbl n)) \<and>
    (\<forall>x \<in> set (entries g host tbl n). low \<le> key x \<and> key x < low + n * k)"
  using assms
proof (induction n)
  case 0
  then show ?case by (simp add: entries_def)
next
  case (Suc n)
  define es where "es = (case sm_word host (tbl + 8 * n) of None \<Rightarrow> [] | Some e \<Rightarrow> g e n)"
  have es: "sorted_wrt (<) (map key es)" "\<forall>x \<in> set es. low + n * k \<le> key x \<and> key x < low + (n + 1) * k"
    using Suc.prems [of n] by (auto simp: es_def split: option.splits)
  have "entries g host tbl (Suc n) = entries g host tbl n @ es" by (simp add: entries_def es_def)
  then show ?case using Suc.IH [OF Suc.prems] es by (fastforce simp: sorted_wrt_append)
qed

abbreviation cell_key :: "u64 \<times> u64 \<Rightarrow> nat" where
  "cell_key c \<equiv> unat (fst c)"

lemma table_cells_ascending: "sorted_wrt (<) (map cell_key (table_cells host base))"
proof -
  have l2: "sorted_wrt (<) (map cell_key (l2_cells host t l0 l1)) \<and>
      (\<forall>x \<in> set (l2_cells host t l0 l1). l0 * 2 ^ 32 + l1 * 2 ^ 16 \<le> cell_key x \<and> cell_key x < l0 * 2 ^ 32 + l1 * 2 ^ 16 + l2_table_num * 1)"
    if "l0 < l0_table_num" "l1 < l1_table_num" for t l0 l1
    unfolding l2_cells_def by (rule entries_sorted) (use that in \<open>auto simp: cell_addr_nat\<close>)
  have l1: "sorted_wrt (<) (map cell_key (entries (\<lambda>e1 l1. if no_table e1 then [] else l2_cells host (unat (e1 - base)) l0 l1) host t l1_table_num)) \<and>
      (\<forall>x \<in> set (entries (\<lambda>e1 l1. if no_table e1 then [] else l2_cells host (unat (e1 - base)) l0 l1) host t l1_table_num).
        l0 * 2 ^ 32 \<le> cell_key x \<and> cell_key x < l0 * 2 ^ 32 + l1_table_num * 2 ^ 16)"
    if "l0 < l0_table_num" for t l0
    by (rule entries_sorted) (use l2 [OF that] in \<open>auto simp: table_nums algebra_simps\<close>)
  have "sorted_wrt (<) (map cell_key (table_cells host base)) \<and>
      (\<forall>x \<in> set (table_cells host base). 0 \<le> cell_key x \<and> cell_key x < 0 + l0_table_num * 2 ^ 32)"
    unfolding table_cells_def by (rule entries_sorted) (use l1 in \<open>auto simp: table_nums algebra_simps\<close>)
  then show ?thesis by blast
qed

text \<open>Threads are numbered x fastest, then y, then z.\<close>

text \<open>A product that does not fit \<open>int\<close> becomes a negative number greater than every thread number: nothing is lost.\<close>

lemma signed_nonneg: "0 \<le> (k :: int) \<Longrightarrow> 0 < l \<Longrightarrow> k smod l = k mod l \<and> k sdiv l = k div l"
  by (auto simp: signed_modulo_int_def signed_divide_int_def sgn_if)

lemma signed_negative: "0 \<le> (k :: int) \<Longrightarrow> l < 0 \<Longrightarrow> k < - l \<Longrightarrow> k smod l = k \<and> k sdiv l = 0"
  by (auto simp: signed_modulo_int_def signed_divide_int_def sgn_if)

lemma product_signed:
  fixes t x y :: u16
  assumes "x \<noteq> 0" and "y \<noteq> 0"
  shows "uint t smod sint (ucast x * ucast y :: u32) = int (unat t mod (unat x * unat y)) \<and>
    uint t sdiv sint (ucast x * ucast y :: u32) = int (unat t div (unat x * unat y))"
proof -
  define p where "p = uint x * uint y"
  have b: "uint w \<le> 65535" for w :: u16 using uint_bounded [of w] by simp
  then have xy: "0 < uint x" "0 < uint y" "uint x \<le> 65535" "uint y \<le> 65535" "0 \<le> uint t" "uint t \<le> 65535"
    using assms by (simp_all add: less_le unsigned_eq_0_iff)
  have p: "0 < p" "p \<le> 65535 * 65535" using xy mult_mono [of "uint x" 65535 "uint y" 65535] by (simp_all add: p_def)
  have "uint (ucast x * ucast y :: u32) = p"
    using p xy by (simp add: uint_word_ariths p_def unsigned_ucast_eq take_bit_int_eq_self)
  then have s: "sint (ucast x * ucast y :: u32) = signed_take_bit 31 p" by (simp add: sint_uint)
  have n: "int (unat t mod (unat x * unat y)) = uint t mod p" "int (unat t div (unat x * unat y)) = uint t div p"
    by (simp_all add: p_def zmod_int zdiv_int)
  show ?thesis
  proof (cases "p < 2 ^ 31")
    case True
    then have "signed_take_bit 31 p = p" using p by (simp add: signed_take_bit_int_eq_self)
    then show ?thesis using signed_nonneg [OF xy(5) p(1)] by (simp only: s n)
  next
    case False
    then have "(p + 2 ^ 31) mod 2 ^ 32 = p + 2 ^ 31 - 2 ^ 32" using p by (simp add: mod_pos_geq)
    then have "signed_take_bit 31 p = p - 2 ^ 32"
      by (simp add: signed_take_bit_eq_take_bit_shift take_bit_eq_mod)
    moreover have "p - 2 ^ 32 < 0" "uint t < - (p - 2 ^ 32)" using p xy(6) by simp_all
    moreover have "uint t mod p = uint t" "uint t div p = 0" using False xy(5,6) by simp_all
    ultimately show ?thesis using signed_negative [OF xy(5)] by (simp only: s n)
  qed
qed

lemma DecomposeThreadId_nat:
  "DecomposeThreadId threadId head =
     (let x = bi_threadXDim (bh_blockInfo head); y = bi_threadYDim (bh_blockInfo head) in
      if x = 0 \<or> y = 0 then \<lparr>tl_idX = 0, tl_idY = 0, tl_idZ = 0\<rparr>
      else let t = unat threadId; xy = unat x * unat y
        in \<lparr>tl_idX = word_of_nat (t mod unat x), tl_idY = word_of_nat (t mod xy div unat x), tl_idZ = word_of_nat (t div xy)\<rparr>)"
proof (cases "bi_threadXDim (bh_blockInfo head) = 0 \<or> bi_threadYDim (bh_blockInfo head) = 0")
  case False
  define x y where "x = bi_threadXDim (bh_blockInfo head)" and "y = bi_threadYDim (bh_blockInfo head)"
  have nz: "x \<noteq> 0" "y \<noteq> 0" using False by (simp_all add: x_def y_def)
  then have ux: "0 < uint x" by (simp add: less_le unsigned_eq_0_iff)
  have n: "int (unat t) = uint t" "0 \<le> uint t" for t :: u16 by simp_all
  note p = product_signed [OF nz, of threadId]
  have a: "uint threadId smod uint x = int (unat threadId mod unat x)"
    using signed_nonneg [OF n(2) ux] by (simp add: zmod_int)
  have b: "int k sdiv uint x = int (k div unat x)" for k
    using signed_nonneg [OF of_nat_0_le_iff ux] by (simp add: zdiv_int)
  show ?thesis
    using nz p by (simp add: DecomposeThreadId_def x_def [symmetric] y_def [symmetric] Let_def a b)
qed (auto simp: DecomposeThreadId_def Let_def)

lemma thread_recomposed:
  assumes "bi_threadXDim (bh_blockInfo head) \<noteq> 0" and "bi_threadYDim (bh_blockInfo head) \<noteq> 0"
  shows "let l = DecomposeThreadId t head; x = unat (bi_threadXDim (bh_blockInfo head)); y = unat (bi_threadYDim (bh_blockInfo head))
    in unat t = unat (tl_idX l) + x * (unat (tl_idY l) + y * unat (tl_idZ l)) \<and> unat (tl_idX l) < x \<and> unat (tl_idY l) < y"
proof -
  define x y n where "x = unat (bi_threadXDim (bh_blockInfo head))" and "y = unat (bi_threadYDim (bh_blockInfo head))" and "n = unat t"
  have xy: "0 < x" "0 < y" "n < 2 ^ 16" using assms unsigned_less [of t] by (simp_all add: x_def y_def n_def unat_gt_0)
  have small: "unat (word_of_nat m :: u16) = m" if "m \<le> n" for m
    using that xy(3) by (simp add: unat_of_nat take_bit_nat_eq_self)
  have m: "n mod x \<le> n" "n mod (x * y) div x \<le> n" "n div (x * y) \<le> n"
    using div_le_dividend le_trans mod_less_eq_dividend by blast+
  have "n = n mod (x * y) + x * y * (n div (x * y))" by simp
  moreover have "n mod (x * y) = n mod (x * y) mod x + x * (n mod (x * y) div x)" by simp
  moreover have "n mod (x * y) mod x = n mod x" by (simp add: mod_mod_cancel)
  ultimately have "n = n mod x + x * (n mod (x * y) div x + y * (n div (x * y)))" by (simp add: algebra_simps)
  moreover have "n mod (x * y) div x < y" using xy by (simp add: div_less_iff_less_mult mult.commute)
  moreover have "n mod x < x" using xy by simp
  ultimately show ?thesis
    using xy by (simp add: DecomposeThreadId_nat Let_def x_def [symmetric] y_def [symmetric] n_def [symmetric] small [OF m(1)]
        small [OF m(2)] small [OF m(3)] unat_gt_0 [symmetric] unat_eq_zero [symmetric] del: unat_gt_0 unat_eq_zero)
qed

text \<open>
  C14: The records a shadow memory is turned into, spread out over their bytes, are exactly the accessed cells of its table in
  ascending order of their addresses, each once and with the thread, the place and the kind of its access; and no two records in
  a row could be one.
\<close>

theorem shadow_records_exact:
  assumes "ParseSmTable host smBaseAddr head = Some records"
  shows "concat (map spread records) = map (cell_access head) (table_cells host smBaseAddr) \<and>
    sorted_wrt (<) (map cell_key (table_cells host smBaseAddr)) \<and> successively (\<lambda>x y. \<not> mergeable x y) records"
  using fold_merge [of "[]" "table_cells host smBaseAddr" head] table_cells_length [of host smBaseAddr]
    ParseSmTable_fold [OF assms] table_cells_ascending by simp

section \<open>A table with one cell\<close>

definition word_list :: "(nat \<Rightarrow> nat) \<Rightarrow> nat \<Rightarrow> u8 list" where
  "word_list w n = concat (map (\<lambda>i. le_bytes 8 (w i)) [0..<n])"

lemma length_word_list: "length (word_list w n) = 8 * n"
  by (induction n) (simp_all add: word_list_def)

lemma drop_word_list: "i < n \<Longrightarrow> take 8 (drop (8 * i) (word_list w n)) = le_bytes 8 (w i)"
proof (induction n)
  case (Suc n)
  have s: "word_list w (Suc n) = word_list w n @ le_bytes 8 (w n)" by (simp add: word_list_def)
  show ?case
  proof (cases "i = n")
    case True
    then show ?thesis by (simp add: s length_word_list)
  next
    case False
    then have i: "i < n" using Suc.prems by simp
    then have "8 * i + 8 \<le> length (word_list w n)" by (simp add: length_word_list)
    then show ?thesis using Suc.IH [OF i] by (simp add: s)
  qed
qed simp

lemma sm_word_list: "i < n \<Longrightarrow> sm_word (word_list w n) (8 * i) = Some (word_of_nat (w i mod 2 ^ 64))"
  by (simp add: sm_word_def length_word_list field_def drop_word_list le_val_le_bytes)

lemma sm_loop_skip: "(\<And>i rs. i \<in> set js \<Longrightarrow> f i rs = Some rs) \<Longrightarrow> sm_loop f js rs = Some rs"
  by (induction js) auto

lemma sm_loop_first:
  assumes "0 < n" and "f 0 rs = Some rs'" and "\<And>i rs. 0 < i \<Longrightarrow> i < n \<Longrightarrow> f i rs = Some rs"
  shows "sm_loop f [0..<n] rs = Some rs'"
proof -
  have "[0..<n] = 0 # [1..<n]" using assms(1) by (simp add: upt_conv_Cons)
  then show ?thesis using assms(2,3) sm_loop_skip [of "[1..<n]" f rs'] by simp
qed

text \<open>Word 8 is the first entry of the first table; the second table begins at word 65545, the third at word 131081.\<close>

definition demo_words :: "nat \<Rightarrow> nat" where
  "demo_words i = (if i = 8 then 8 * 65545 else if i = 65545 then 8 * 131081 else if i = 131081 then 16 * 2 ^ 32 + 6149 else 0)"

definition demo_table :: "u8 list" where
  "demo_table = word_list demo_words (131081 + 65536)"

definition demo_block_head :: RecordBlockHead where
  "demo_block_head = new_RecordBlockHead\<lparr>bh_blockInfo := (bh_blockInfo new_RecordBlockHead)
     \<lparr>bi_blockId := 7, bi_threadXDim := 2, bi_threadYDim := 2, bi_threadZDim := 2\<rparr>\<rparr>"

definition demo_cell :: ShadowMemoryRecord where
  "demo_cell = cell_record (16 * 2 ^ 32 + 6149) (cell_addr 0 0 0) demo_block_head"

lemma demo_table_word: "i < 131081 + 65536 \<Longrightarrow> sm_word demo_table (8 * i) = Some (word_of_nat (demo_words i))"
  unfolding demo_table_def by (subst sm_word_list) (simp_all add: demo_words_def)

lemma demo_table_zero: "i < 131081 + 65536 \<Longrightarrow> i \<notin> {8, 65545, 131081} \<Longrightarrow> sm_word demo_table (8 * i) = Some 0"
  by (simp add: demo_table_word demo_words_def)

lemma demo_cell_accessed: "cell_accessed (16 * 2 ^ 32 + 6149)" "\<not> cell_accessed 0"
proof -
  have "cell_status (16 * 2 ^ 32 + 6149) = 3" "cell_memory_type (16 * 2 ^ 32 + 6149) = 0" "cell_status 0 = 0"
    by (simp_all add: cell_status_def cell_memory_type_def)
  then show "cell_accessed (16 * 2 ^ 32 + 6149)" "\<not> cell_accessed 0" by (simp_all add: cell_accessed_def)
qed

lemma demo_l2: "ParseSmL2Table demo_table (8 * 131081) 0 0 demo_block_head [] = Some [demo_cell]"
  unfolding ParseSmL2Table_def
proof (rule sm_loop_first)
  show "0 < l2_table_num" by (simp add: table_nums)
  have "sm_word demo_table (8 * 131081 + 8 * 0) = Some (16 * 2 ^ 32 + 6149)"
    using demo_table_word [of 131081] by (simp add: demo_words_def)
  then show "(case sm_word demo_table (8 * 131081 + 8 * 0) of None \<Rightarrow> None | Some status \<Rightarrow>
      if cell_accessed status then Some (MergeSmRecord [] status (cell_addr 0 0 0) demo_block_head) else Some []) = Some [demo_cell]"
    using demo_cell_accessed by (simp add: MergeSmRecord_def demo_cell_def)
next
  fix i rs
  assume "0 < i" "i < l2_table_num"
  then have "sm_word demo_table (8 * (131081 + i)) = Some 0" by (intro demo_table_zero) (auto simp: table_nums)
  then show "(case sm_word demo_table (8 * 131081 + 8 * i) of None \<Rightarrow> None | Some status \<Rightarrow>
      if cell_accessed status then Some (MergeSmRecord rs status (cell_addr 0 0 i) demo_block_head) else Some rs) = Some rs"
    using demo_cell_accessed by (simp add: distrib_left)
qed

lemma demo_l1: "ParseSmL1Table demo_table 0 demo_block_head 0 [] = Some [demo_cell]"
proof -
  have e: "sm_word demo_table (unat heap_head_size + 8 * 0) = Some (8 * 65545)"
    using demo_table_word [of 8] by (simp add: demo_words_def heap_head_size_def)
  have "sm_loop (\<lambda>l1Idx rs. case sm_word demo_table (8 * 65545 + 8 * l1Idx) of None \<Rightarrow> None | Some l1 \<Rightarrow>
      if no_table l1 then Some rs else ParseSmL2Table demo_table (unat (l1 - 0)) 0 l1Idx demo_block_head rs)
      [0..<l1_table_num] [] = Some [demo_cell]"
  proof (rule sm_loop_first)
    show "0 < l1_table_num" by (simp add: table_nums)
    have "sm_word demo_table (8 * 65545 + 8 * 0) = Some (8 * 131081)"
      using demo_table_word [of 65545] by (simp add: demo_words_def)
    then show "(case sm_word demo_table (8 * 65545 + 8 * 0) of None \<Rightarrow> None | Some l1 \<Rightarrow>
      if no_table l1 then Some [] else ParseSmL2Table demo_table (unat (l1 - 0)) 0 0 demo_block_head []) = Some [demo_cell]"
      using demo_l2 by (simp add: no_table_def UNALLOCATABLE_def LOCKED_BY_OTHER_THREADS_def)
  next
    fix i rs
    assume "0 < i" "i < l1_table_num"
    then have "sm_word demo_table (8 * (65545 + i)) = Some 0" by (intro demo_table_zero) (auto simp: table_nums)
    then show "(case sm_word demo_table (8 * 65545 + 8 * i) of None \<Rightarrow> None | Some l1 \<Rightarrow>
      if no_table l1 then Some rs else ParseSmL2Table demo_table (unat (l1 - 0)) 0 i demo_block_head rs) = Some rs"
      by (simp add: distrib_left no_table_def)
  qed
  then show ?thesis unfolding ParseSmL1Table_def e by (simp add: Let_def)
qed

lemma demo_parse: "ParseSmTable demo_table 0 demo_block_head = Some [demo_cell]"
  unfolding ParseSmTable_def
proof (rule sm_loop_first)
  show "0 < l0_table_num" by (simp add: table_nums)
  have "sm_word demo_table (unat heap_head_size + 8 * 0) = Some (8 * 65545)"
    using demo_table_word [of 8] by (simp add: demo_words_def heap_head_size_def)
  then show "(case sm_word demo_table (unat heap_head_size + 8 * 0) of None \<Rightarrow> None | Some l0 \<Rightarrow>
      if no_table l0 then Some [] else ParseSmL1Table demo_table 0 demo_block_head 0 []) = Some [demo_cell]"
    using demo_l1 by (simp add: no_table_def UNALLOCATABLE_def LOCKED_BY_OTHER_THREADS_def)
next
  fix i rs
  assume "0 < i" "i < l0_table_num"
  then have "sm_word demo_table (8 * (8 + i)) = Some 0" by (intro demo_table_zero) (auto simp: table_nums)
  then show "(case sm_word demo_table (unat heap_head_size + 8 * i) of None \<Rightarrow> None | Some l0 \<Rightarrow>
      if no_table l0 then Some rs else ParseSmL1Table demo_table 0 demo_block_head i rs) = Some rs"
    by (simp add: distrib_left heap_head_size_def no_table_def)
qed

theorem shadow_records_exact_witness:
  "concat (map spread [demo_cell]) = map (cell_access demo_block_head) (table_cells demo_table 0)"
  using shadow_records_exact [OF demo_parse] by blast

end
