(* ===== verification/SanitizerLaunch.thy ===== *)
theory SanitizerLaunch
  imports ShadowMemory OpReport IpcHooks DeviceMemory
begin

text \<open>
  A launch under the sanitizer: \<open>SanitizerLaunchInit\<close> and \<open>SanitizerLaunchFinalize\<close> of
  \<open>csrc/runtime/inject_helpers/LaunchInitFinalize.cpp\<close>, and \<open>__sanitizer_init\<close> and \<open>__sanitizer_finalize\<close> of
  \<open>InstrReport.cpp\<close>. Before the launch the record buffer is laid out on the device; after it the records of each block are
  copied back and sent to the checker. The host buffer is a list of bytes of its size; \<open>None\<close> is an access outside it.
\<close>

section \<open>Device memory\<close>

text \<open>
  The copies in both directions and the fill, with the size of the destination they are told. A copy to the host gives the
  bytes it copied.
\<close>

record 'd launch_api =
  la_acl :: "'d acl_api"
  la_h2d :: "ptr \<Rightarrow> u64 \<Rightarrow> u8 list \<Rightarrow> 'd \<Rightarrow> aclError \<times> 'd"
  la_d2h :: "u64 \<Rightarrow> ptr \<Rightarrow> u64 \<Rightarrow> 'd \<Rightarrow> (aclError \<times> u8 list) \<times> 'd"
  la_memset :: "ptr \<Rightarrow> u64 \<Rightarrow> u8 \<Rightarrow> u64 \<Rightarrow> 'd \<Rightarrow> aclError \<times> 'd"

text \<open>What the surroundings of a launch give: the device, the host ranges, the size of the arguments.\<close>

record launch_env =
  le_deviceType :: DeviceType
  le_hostMems :: "HostMemoryInfo list"
  le_argsSize :: u32

section \<open>Host ranges\<close>

primrec set_input_sizes :: "nat \<Rightarrow> u64 list \<Rightarrow> HostMemoryInfo list \<Rightarrow> HostMemoryInfo list" where
  "set_input_sizes k [] ms = ms"
| "set_input_sizes k (n # ns) ms = (if k \<ge> length ms then ms else set_input_sizes (Suc k) ns (ms[k := (ms ! k)\<lparr>hm_size := n\<rparr>]))"

text \<open>The sizes of the inputs, and of the tiling data behind them, go to the entries the merge left empty.\<close>

definition CopyExtraMallocToHostMemory :: "memory_manage \<Rightarrow> OpMemInfo \<Rightarrow> HostMemoryInfo list" where
  "CopyExtraMallocToHostMemory mm opMemInfo =
     (let hostMems = MergeHostMems mm;
          extraIndex = length (takeWhile (\<lambda>m. \<not> (hm_addr m = 0 \<and> hm_size m = 0)) hostMems);
          inputs = om_inputs opMemInfo;
          ms = set_input_sizes extraIndex (map ai_length inputs) hostMems;
          k = extraIndex + length inputs
      in if om_tilingDataSize opMemInfo > 0 \<and> k < length hostMems
         then ms[k := (ms ! k)\<lparr>hm_size := om_tilingDataSize opMemInfo\<rparr>] else ms)"

section \<open>Before the launch\<close>

definition HostMallocH2D :: "'d launch_api \<Rightarrow> launch_env \<Rightarrow> RecordGlobalHead \<Rightarrow> ptr \<Rightarrow> 'd \<Rightarrow> bool \<times> 'd" where
  "HostMallocH2D api env h p d =
     (if \<not> gh_supportSimt h then (True, d)
      else if le_hostMems env = [] then (True, d)
      else let bs = concat (map HostMemoryInfo_bytes (le_hostMems env));
               (ret, d1) = la_h2d api (p + block_head_size) (word_of_nat (length bs)) bs d
           in (ret = ACL_SUCCESS, d1))"

definition ShadowMemoryHeapHead_bytes :: "u64 \<Rightarrow> u64 \<Rightarrow> u64 \<Rightarrow> u8 list" where
  "ShadowMemoryHeapHead_bytes startAddr n current =
     le_bytes 8 (unat startAddr) @ le_bytes 8 (unat n) @ le_bytes 8 (unat current) @ le_bytes 8 0 @ replicate 32 0"

definition InitSimtShadowMemoryHead :: "'d launch_api \<Rightarrow> RecordGlobalHead \<Rightarrow> ptr \<Rightarrow> 'd \<Rightarrow> bool \<times> 'd" where
  "InitSimtShadowMemoryHead api h p d =
     (let n = ucast (oi_shadowMemoryByteSize (gh_offsetInfo h)) :: u64;
          addr = p + ucast (oi_shadowMemoryOffset (gh_offsetInfo h));
          (ret, d1) = la_memset api addr n 0 n d
      in if ret \<noteq> ACL_SUCCESS then (False, d1)
         else let startAddr = addr + heap_head_size;
                  bs = ShadowMemoryHeapHead_bytes startAddr (if n > heap_head_size then n - heap_head_size else 0)
                    (startAddr + word_of_nat l0_table_num * 8);
                  (ret1, d2) = la_h2d api addr heap_head_size bs d1
              in (ret1 = ACL_SUCCESS, d2))"

definition SimtBlockHeadsH2D :: "'d launch_api \<Rightarrow> launch_env \<Rightarrow> RecordGlobalHead \<Rightarrow> ptr \<Rightarrow> u64 \<Rightarrow> 'd \<Rightarrow> bool \<times> 'd" where
  "SimtBlockHeadsH2D api env h p blockIdx d =
     (if \<not> gh_supportSimt h then (True, d)
      else if cp_checkBlockId (gh_checkParms h) = CHECK_ALL_BLOCK \<or>
        IsTargetBlockIdx (le_deviceType env) (cp_checkBlockId (gh_checkParms h)) blockIdx
      then let n = GetAllThreadSize h;
               (ret, d1) = la_memset api (p + ucast (oi_simtHeadOffset (gh_offsetInfo h))) n 0 n d
           in if ret \<noteq> ACL_SUCCESS then (False, d1)
              else if oi_shadowMemoryByteSize (gh_offsetInfo h) = 0 then (True, d1)
              else InitSimtShadowMemoryHead api h p d1
      else (True, d))"

definition block_head_at :: "RecordBlockHead \<Rightarrow> ptr \<Rightarrow> RecordBlockHead" where
  "block_head_at bh p =
     bh\<lparr>bh_hostMemoryInfoPtr := if bh_hostMemoryNum bh > 0 then p + block_head_size else 0\<rparr>"

definition init_block :: "'d launch_api \<Rightarrow> launch_env \<Rightarrow> RecordGlobalHead \<Rightarrow> RecordBlockHead \<Rightarrow> nat \<Rightarrow> ptr \<Rightarrow> 'd \<Rightarrow> bool \<times> 'd" where
  "init_block api env h bh blockIdx p d =
     (let (ret, d1) = la_h2d api p block_head_size (BlockHead_bytes (block_head_at bh p)) d in
      if ret \<noteq> ACL_SUCCESS then (False, d1)
      else let (ok, d2) = HostMallocH2D api env h p d1 in
        if \<not> ok then (False, d2) else SimtBlockHeadsH2D api env h p (word_of_nat blockIdx) d2)"

primrec init_blocks ::
  "'d launch_api \<Rightarrow> launch_env \<Rightarrow> RecordGlobalHead \<Rightarrow> RecordBlockHead \<Rightarrow> nat list \<Rightarrow> ptr \<Rightarrow> 'd \<Rightarrow> bool \<times> 'd" where
  "init_blocks api env h bh [] p d = (True, d)"
| "init_blocks api env h bh (i # js) p d =
     (let (ok, d1) = init_block api env h bh i p d in
      if \<not> ok then (False, d1)
      else init_blocks api env h bh js (p + ucast (GetBlockSize (le_deviceType env) h (word_of_nat i))) d1)"

definition first_block_head :: "launch_env \<Rightarrow> u32 \<Rightarrow> RecordBlockHead" where
  "first_block_head env hostMemoryNum =
     new_RecordBlockHead\<lparr>bh_paraBase := \<lparr>pb_addr = ILLEGAL_ADDR, pb_size = ucast (le_argsSize env)\<rparr>,
       bh_hostMemoryNum := hostMemoryNum\<rparr>"

definition BlockHeadsH2D :: "'d launch_api \<Rightarrow> launch_env \<Rightarrow> u32 \<Rightarrow> RecordGlobalHead \<Rightarrow> ptr \<Rightarrow> 'd \<Rightarrow> bool \<times> 'd" where
  "BlockHeadsH2D api env hostMemoryNum h p d =
     (let (ret, d1) = la_h2d api p global_head_size (GlobalHead_bytes h) d in
      if ret \<noteq> ACL_SUCCESS then (False, d1)
      else init_blocks api env h (first_block_head env hostMemoryNum) [0..<unat (ki_totalBlockDim (gh_kernelInfo h))]
             (p + global_head_size) d1)"

text \<open>The result is the buffer, null when there is none. A buffer that was initialised before is laid out again all the same.\<close>

definition SkipKernelProcess :: "'d launch_api \<Rightarrow> dev_mem_manager \<times> 'd \<Rightarrow> ptr \<times> (dev_mem_manager \<times> 'd)" where
  "SkipKernelProcess api st =
     (let ((err, out), st1) = MallocMemory (la_acl api) False MB_TO_BYTES st in
      (if err \<noteq> ACL_SUCCESS then 0 else the out, st1))"

definition Init_Process ::
  "'d launch_api \<Rightarrow> launch_env \<Rightarrow> launch_input \<Rightarrow> dev_mem_manager \<times> 'd \<Rightarrow> ptr \<times> (dev_mem_manager \<times> 'd)" where
  "Init_Process api env li st =
     (if dm_skip (fst st) then SkipKernelProcess api st
      else case AssignGlobalHead li of
        None \<Rightarrow> (0, st)
      | Some h \<Rightarrow>
          let ((err, out), (m, d)) = MallocMemory (la_acl api) False (record_buffer_size h) st in
          if err \<noteq> ACL_SUCCESS then (0, (m, d))
          else let p = the out; (ok, d1) = BlockHeadsH2D api env (li_hostMemoryNum li) h p d in
            if \<not> ok then (0, dm_Free (la_acl api) (m, d1))
            else (p, (m\<lparr>dm_init := True\<rparr>, d1)))"

definition CheckBlockDimValid :: "u64 \<Rightarrow> bool" where
  "CheckBlockDimValid blockDim = (if blockDim = 0 then False else if blockDim > 100 then False else True)"

definition sanitizer_init ::
  "'d launch_api \<Rightarrow> launch_env \<Rightarrow> launch_input \<Rightarrow> dev_mem_manager \<times> 'd \<Rightarrow> ptr \<times> (dev_mem_manager \<times> 'd)" where
  "sanitizer_init api env li st = (if \<not> CheckBlockDimValid (li_blockDim li) then (0, st) else Init_Process api env li st)"

section \<open>After the launch\<close>

text \<open>The host buffer, the place in it, and the two places in the device buffer (\<open>memInfo_\<close> and \<open>memInfoBackUp_\<close>).\<close>

record finalize_state =
  fz_host :: "u8 list"
  fz_at :: nat
  fz_p :: ptr
  fz_base :: ptr

text \<open>What finalizing reads: the address of the host buffer, its size, the device asked for a notification, the reply at the end.\<close>

record finalize_env =
  fe_deviceType :: DeviceType
  fe_hostAddr :: ptr
  fe_blockSize :: u64
  fe_deviceId :: int
  fe_reply :: "u8 list"

definition write_host :: "u8 list \<Rightarrow> nat \<Rightarrow> u8 list \<Rightarrow> u8 list option" where
  "write_host host off bs = (if off + length bs \<le> length host then Some (take off host @ bs @ drop (off + length bs) host) else None)"

text \<open>A copy from the device to the place in the host buffer.\<close>

definition copy_back ::
  "'d launch_api \<Rightarrow> u64 \<Rightarrow> ptr \<Rightarrow> u64 \<Rightarrow> finalize_state \<times> 'd hook_state \<Rightarrow> (bool \<times> finalize_state \<times> 'd hook_state) option" where
  "copy_back api destMax src n st =
     (let (z, s) = st; ((err, bs), d) = la_d2h api destMax src n (hs_dev s); s1 = s\<lparr>hs_dev := d\<rparr> in
      if err \<noteq> ACL_SUCCESS then Some (False, z, s1)
      else map_option (\<lambda>host. (True, z\<lparr>fz_host := host\<rparr>, s1)) (write_host (fz_host z) (fz_at z) bs))"

definition head_in_host :: "finalize_state \<Rightarrow> RecordBlockHead" where
  "head_in_host z = BlockHead_of (drop (unat global_head_size) (fz_host z))"

definition DumpMemoryInfo ::
  "'d launch_api \<Rightarrow> finalize_env \<Rightarrow> RecordGlobalHead \<Rightarrow> finalize_state \<times> 'd hook_state \<Rightarrow> (finalize_state \<times> 'd hook_state) option" where
  "DumpMemoryInfo api env h st =
     (case copy_back api (fe_blockSize env - global_head_size) (fz_p (fst st)) block_head_size st of
        None \<Rightarrow> None
      | Some (ok, z, s) \<Rightarrow>
          let recordHeadSize = ucast (oi_blockHeadSize (gh_offsetInfo h)) :: u64 in
          if \<not> ok \<or> bh_hostMemoryNum (head_in_host z) = 0 \<or> global_head_size + recordHeadSize > fe_blockSize env then Some (z, s)
          else case write_host (fz_host z) (fz_at z + 64) (le_bytes 8 (unat (fe_hostAddr env + word_of_nat (fz_at z) + block_head_size))) of
            None \<Rightarrow> None
          | Some host \<Rightarrow>
              let z1 = z\<lparr>fz_host := host, fz_at := fz_at z + 128\<rparr> in
              map_option (\<lambda>(ok1, z2, s2). (z2\<lparr>fz_at := fz_at z\<rparr>, s2))
                (copy_back api (fe_blockSize env - (global_head_size + block_head_size)) (fz_p z + block_head_size)
                  (recordHeadSize - block_head_size) (z1, s)))"

definition BlockHeadD2H ::
  "'d launch_api \<Rightarrow> finalize_env \<Rightarrow> RecordGlobalHead \<Rightarrow> finalize_state \<times> 'd hook_state \<Rightarrow> (bool \<times> finalize_state \<times> 'd hook_state) option" where
  "BlockHeadD2H api env h st =
     map_option (\<lambda>(ok, z, s). (ok, if ok then z\<lparr>fz_at := fz_at z + 128,
         fz_p := fz_p z + ucast (oi_blockHeadSize (gh_offsetInfo h))\<rparr> else z, s))
       (copy_back api (fe_blockSize env - global_head_size) (fz_p (fst st)) block_head_size st)"

definition SimdRecordD2H ::
  "'d launch_api \<Rightarrow> finalize_env \<Rightarrow> u64 \<Rightarrow> finalize_state \<times> 'd hook_state \<Rightarrow> (bool \<times> finalize_state \<times> 'd hook_state) option" where
  "SimdRecordD2H api env writeOffset st =
     map_option (\<lambda>(ok, z, s). (ok, if ok then z\<lparr>fz_at := fz_at z + unat writeOffset, fz_p := fz_p z + writeOffset\<rparr> else z, s))
       (copy_back api (fe_blockSize env - global_head_size - block_head_size) (fz_p (fst st)) writeOffset st)"

definition SimtRecordD2H ::
  "'d launch_api \<Rightarrow> finalize_env \<Rightarrow> RecordGlobalHead \<Rightarrow> u64 \<Rightarrow> finalize_state \<times> 'd hook_state \<Rightarrow>
   (bool \<times> finalize_state \<times> 'd hook_state) option" where
  "SimtRecordD2H api env h writeOffset st =
     (let n = GetAllThreadSize h in
      map_option (\<lambda>(ok, z, s). (ok, if ok then z\<lparr>fz_at := fz_at z + unat n, fz_p := fz_p z + n\<rparr> else z, s))
        (copy_back api (fe_blockSize env - global_head_size - block_head_size - writeOffset)
          (fz_base (fst st) + ucast (oi_simtHeadOffset (gh_offsetInfo h))) n st))"

text \<open>The size is that of the records written over the table, 0 when the table could not be copied.\<close>

definition ShadowMemoryD2H ::
  "'d launch_api \<Rightarrow> finalize_env \<Rightarrow> RecordGlobalHead \<Rightarrow> RecordBlockHead \<Rightarrow> finalize_state \<times> 'd hook_state \<Rightarrow>
   (u64 \<times> finalize_state \<times> 'd hook_state) option" where
  "ShadowMemoryD2H api env h bh st =
     (let remain = ucast (fe_blockSize env - global_head_size - block_head_size - bh_writeOffset bh - GetAllThreadSize h) :: u32;
          base = fz_base (fst st) + ucast (oi_shadowMemoryOffset (gh_offsetInfo h))
      in case copy_back api (ucast remain) base (ucast (oi_shadowMemoryByteSize (gh_offsetInfo h))) st of
           None \<Rightarrow> None
         | Some (ok, z, s) \<Rightarrow>
             if \<not> ok then Some (0, z, s)
             else (case ParseSmTable (drop (fz_at z) (fz_host z)) base bh of
                None \<Rightarrow> None
              | Some records \<Rightarrow>
                  if remain < 16 then Some (0, z, s)
                  else case write_host (fz_host z) (fz_at z) (ShadowMemoryRecordHead_bytes (length records)) of
                    None \<Rightarrow> None
                  | Some host \<Rightarrow>
                      if records = [] then Some (16, z\<lparr>fz_host := host\<rparr>, s)
                      else if word_of_nat (length records) * 64 > (ucast (remain - 16) :: u64) then Some (16, z\<lparr>fz_host := host\<rparr>, s)
                      else map_option (\<lambda>host1. (16 + word_of_nat (length records) * 64, z\<lparr>fz_host := host1\<rparr>, s))
                             (write_host host (fz_at z + 16) (concat (map ShadowMemoryRecord_bytes records)))))"

definition ReportParaBase ::
  "RecordBlockHead \<Rightarrow> ParaBaseRegister option \<Rightarrow> 'd hook_state \<Rightarrow> ParaBaseRegister option \<times> 'd hook_state" where
  "ReportParaBase head reported s =
     (let p = bh_paraBase head in
      if reported = None \<and> pb_addr p \<noteq> ILLEGAL_ADDR \<and> pb_size p \<noteq> 0
      then (Some p, ReportMemset (pb_addr p) (pb_size p) BYPASS PARA_BASE 0 (ReportMalloc (pb_addr p) (pb_size p) BYPASS PARA_BASE 0 s))
      else (reported, s))"

text \<open>The last block waits for the checker; its answer only makes for a log entry.\<close>

definition SendKernelBlock :: "finalize_env \<Rightarrow> u8 list \<Rightarrow> bool \<Rightarrow> 'd hook_state \<Rightarrow> 'd hook_state" where
  "SendKernelBlock env body is_last s =
     (if is_last then snd (Interact KERNEL_RECORD body (fe_reply env) empty_response s)
      else Notify (OfDevice (fe_deviceId env)) (Serialize [PacketHead_bytes KERNEL_RECORD, body]) s)"

definition no_records :: "RecordBlockHead \<Rightarrow> bool" where
  "no_records bh \<longleftrightarrow> bh_offset bh = 0 \<or> bh_writeOffset bh = 0 \<or> bh_recordCount bh = 0 \<or> bh_recordWriteCount bh = 0"

text \<open>The result of a round: whether the loop goes on, and the parameter base that was reported.\<close>

type_synonym 'd report_state = "finalize_state \<times> ParaBaseRegister option \<times> 'd hook_state"

definition simd_part ::
  "'d launch_api \<Rightarrow> finalize_env \<Rightarrow> RecordBlockHead \<Rightarrow> 'd report_state \<Rightarrow> (bool \<times> 'd report_state) option" where
  "simd_part api env bh st =
     (let (z, para, s) = st in
      if no_records bh then Some (True, z, para, s)
      else let (para1, s1) = ReportParaBase bh para s in
        map_option (\<lambda>(ok, z2, s2). (ok, z2, para1, s2)) (SimdRecordD2H api env (bh_writeOffset bh) (z, s1)))"

definition simt_part ::
  "'d launch_api \<Rightarrow> finalize_env \<Rightarrow> RecordGlobalHead \<Rightarrow> RecordBlockHead \<Rightarrow> u64 \<Rightarrow> finalize_state \<times> 'd hook_state \<Rightarrow>
   (u64 option \<times> finalize_state \<times> 'd hook_state) option" where
  "simt_part api env h bh blockIdx st =
     (if gh_supportSimt h \<and> (cp_checkBlockId (gh_checkParms h) = CHECK_ALL_BLOCK \<or>
         IsTargetBlockIdx (fe_deviceType env) (cp_checkBlockId (gh_checkParms h)) blockIdx)
      then (case SimtRecordD2H api env h (bh_writeOffset bh) st of
              None \<Rightarrow> None
            | Some (ok, z, s) \<Rightarrow>
                if \<not> ok then Some (None, z, s)
                else map_option (\<lambda>(n, z1, s1). (if n = 0 then None else Some (GetAllThreadSize h + n), z1, s1))
                       (ShadowMemoryD2H api env h bh (z, s)))
      else Some (Some 0, st))"

definition report_block ::
  "'d launch_api \<Rightarrow> finalize_env \<Rightarrow> RecordGlobalHead \<Rightarrow> nat \<Rightarrow> nat \<Rightarrow> 'd report_state \<Rightarrow> (bool \<times> 'd report_state) option" where
  "report_block api env h blocks blockIdx st =
     (let (z0, para, s0) = st in
      case (if gh_supportSimt h \<and> blockIdx = 0 then DumpMemoryInfo api env h (z0, s0) else Some (z0, s0)) of
        None \<Rightarrow> None
      | Some (z1, s1) \<Rightarrow>
      (case BlockHeadD2H api env h (z1, s1) of
        None \<Rightarrow> None
      | Some (ok, z2, s2) \<Rightarrow>
          if \<not> ok then Some (False, z2, para, s2)
          else let bh = head_in_host z2 in
          (case simd_part api env bh (z2, para, s2) of
            None \<Rightarrow> None
          | Some (ok3, z3, para3, s3) \<Rightarrow>
              if \<not> ok3 then Some (False, z3, para3, s3)
              else (case simt_part api env h bh (word_of_nat blockIdx) (z3, s3) of
                None \<Rightarrow> None
              | Some (None, z4, s4) \<Rightarrow> Some (False, z4, para3, s4)
              | Some (Some simtMemSize, z4, s4) \<Rightarrow>
                  let base = fz_base z4 + ucast (GetBlockSize (fe_deviceType env) h (word_of_nat blockIdx));
                      z5 = z4\<lparr>fz_base := base, fz_p := base, fz_at := unat global_head_size\<rparr>;
                      memSize = global_head_size + block_head_size + bh_writeOffset bh + simtMemSize
                  in if length (fz_host z5) < unat memSize then None
                     else Some (True, z5, para3, SendKernelBlock env (le_bytes 8 (unat memSize) @ take (unat memSize) (fz_host z5))
                       (blockIdx + 1 = blocks) s4)))))"

primrec report_blocks ::
  "'d launch_api \<Rightarrow> finalize_env \<Rightarrow> RecordGlobalHead \<Rightarrow> nat \<Rightarrow> nat list \<Rightarrow> 'd report_state \<Rightarrow> 'd report_state option" where
  "report_blocks api env h blocks [] st = Some st"
| "report_blocks api env h blocks (i # js) st =
     (case report_block api env h blocks i st of
        None \<Rightarrow> None
      | Some (ok, st1) \<Rightarrow> if ok then report_blocks api env h blocks js st1 else Some st1)"

definition ReportBlockInfo ::
  "'d launch_api \<Rightarrow> finalize_env \<Rightarrow> RecordGlobalHead \<Rightarrow> finalize_state \<times> 'd hook_state \<Rightarrow> 'd hook_state option" where
  "ReportBlockInfo api env h st =
     (let (z, s) = st; blocks = unat (ki_totalBlockDim (gh_kernelInfo h)) in
      map_option (\<lambda>(z1, para, s1). case para of None \<Rightarrow> s1 | Some p \<Rightarrow> ReportFree (pb_addr p) BYPASS PARA_BASE 0 s1)
        (report_blocks api env h blocks [0..<blocks] (z, None, s)))"

text \<open>The registers are kept for the next launch when \<open>registersCopied\<close>, the outcome of a copy within the host.\<close>

definition GlobalHeadD2H ::
  "'d launch_api \<Rightarrow> finalize_env \<Rightarrow> finalize_state \<times> 'd hook_state \<Rightarrow> (bool \<times> finalize_state \<times> 'd hook_state) option" where
  "GlobalHeadD2H api env st =
     map_option (\<lambda>(ok, z, s). (ok, if ok then z\<lparr>fz_at := fz_at z + unat global_head_size, fz_p := fz_p z + global_head_size,
         fz_base := fz_base z + global_head_size\<rparr> else z, s))
       (copy_back api (fe_blockSize env) (fz_p (fst st)) global_head_size st)"

definition RegistersD2H :: "bool \<Rightarrow> RecordGlobalHead \<Rightarrow> u8 list \<Rightarrow> bool \<times> u8 list" where
  "RegistersD2H copied h registers = (copied, if copied then gh_registers h else registers)"

definition Finalize_Process ::
  "'d launch_api \<Rightarrow> finalize_env \<Rightarrow> ptr \<Rightarrow> u8 list \<Rightarrow> bool \<Rightarrow> u8 list \<times> 'd hook_state \<Rightarrow> (u8 list \<times> 'd hook_state) option" where
  "Finalize_Process api env memInfo raw registersCopied st =
     (let (registers, s) = st;
          z = \<lparr>fz_host = raw, fz_at = 0, fz_p = memInfo, fz_base = memInfo\<rparr> in
      case GlobalHeadD2H api env (z, s) of
        None \<Rightarrow> None
      | Some (ok, z1, s1) \<Rightarrow>
          if \<not> ok then Some (registers, s1)
          else let h = GlobalHead_of (fz_host z1); (copied, registers1) = RegistersD2H registersCopied h registers in
            if \<not> copied then Some (registers1, s1)
            else map_option (Pair registers1) (ReportBlockInfo api env h (z1, s1)))"

definition finalize_size :: "u32 \<Rightarrow> u64" where
  "finalize_size cacheSize = ucast cacheSize * MB_TO_BYTES + global_head_size + block_head_size"

definition sanitizer_finalize ::
  "'d launch_api \<Rightarrow> finalize_env \<Rightarrow> ptr \<Rightarrow> u64 \<Rightarrow> u8 list \<Rightarrow> bool \<Rightarrow> dev_mem_manager \<times> u8 list \<times> 'd hook_state \<Rightarrow>
   (dev_mem_manager \<times> u8 list \<times> 'd hook_state) option" where
  "sanitizer_finalize api env memInfo blockDim raw registersCopied st =
     (let (m, rs) = st in
      if \<not> dm_init m \<or> \<not> CheckBlockDimValid blockDim \<or> memInfo = 0 then Some (m, rs)
      else map_option (Pair (m\<lparr>dm_init := False\<rparr>)) (Finalize_Process api env memInfo raw registersCopied rs))"

section \<open>What the copies do\<close>

text \<open>Device memory by bytes, and a buffer in it seen from its base.\<close>

definition mem_read :: "(ptr \<Rightarrow> u8) \<Rightarrow> ptr \<Rightarrow> nat \<Rightarrow> u8 list" where
  "mem_read m p n = map (\<lambda>k. m (p + word_of_nat k)) [0..<n]"

definition mem_write :: "(ptr \<Rightarrow> u8) \<Rightarrow> ptr \<Rightarrow> u8 list \<Rightarrow> ptr \<Rightarrow> u8" where
  "mem_write m p bs = (\<lambda>x. let k = unat (x - p) in if k < length bs then bs ! k else m x)"

definition from_base :: "(ptr \<Rightarrow> u8) \<Rightarrow> ptr \<Rightarrow> nat \<Rightarrow> u8" where
  "from_base m base y = m (base + word_of_nat y)"

text \<open>
  A copy that succeeds is no larger than its destination and copies the bytes; a fill that succeeds fills. A copy to the
  host changes no device memory.
\<close>

definition copy_spec :: "'d launch_api \<Rightarrow> ('d \<Rightarrow> ptr \<Rightarrow> u8) \<Rightarrow> bool" where
  "copy_spec api mem \<longleftrightarrow>
     (\<forall>p n bs d d'. la_h2d api p n bs d = (ACL_SUCCESS, d') \<longrightarrow> mem d' = mem_write (mem d) p bs) \<and>
     (\<forall>p n v k d d'. la_memset api p n v k d = (ACL_SUCCESS, d') \<longrightarrow> mem d' = mem_write (mem d) p (replicate (unat k) v)) \<and>
     (\<forall>n p k d e bs d'. la_d2h api n p k d = ((e, bs), d') \<longrightarrow> mem d' = mem d \<and>
        (e = ACL_SUCCESS \<longrightarrow> k \<le> n \<and> bs = mem_read (mem d) p (unat k)))"

definition copies_work :: "'d launch_api \<Rightarrow> bool" where
  "copies_work api \<longleftrightarrow> (\<forall>n p k d. k \<le> n \<longrightarrow> fst (fst (la_d2h api n p k d)) = ACL_SUCCESS)"

lemma h2d_spec: "copy_spec api mem \<Longrightarrow> la_h2d api p n bs d = (ACL_SUCCESS, d') \<Longrightarrow> mem d' = mem_write (mem d) p bs"
  by (simp add: copy_spec_def)

lemma memset_spec:
  "copy_spec api mem \<Longrightarrow> la_memset api p n v k d = (ACL_SUCCESS, d') \<Longrightarrow> mem d' = mem_write (mem d) p (replicate (unat k) v)"
  by (simp add: copy_spec_def)

lemma from_base_write:
  assumes "off + length bs \<le> 2 ^ 64" and "y < 2 ^ 64"
  shows "from_base (mem_write m (base + word_of_nat off) bs) base y =
    (if off \<le> y \<and> y < off + length bs then bs ! (y - off) else from_base m base y)"
proof (cases "bs = []")
  case True
  then show ?thesis by (auto simp: from_base_def mem_write_def)
next
  case False
  then have o: "off < 2 ^ 64" using assms(1) by (cases "length bs") auto
  have d: "base + word_of_nat y - (base + word_of_nat off) = (word_of_nat y - word_of_nat off :: ptr)" by simp
  have un: "unat (word_of_nat y :: ptr) = y" "unat (word_of_nat off :: ptr) = off"
    using assms(2) o by (simp_all add: unat_of_nat take_bit_nat_eq_self)
  show ?thesis
  proof (cases "off \<le> y")
    case True
    then have "(word_of_nat off :: ptr) \<le> word_of_nat y" using un by (simp add: word_le_nat_alt)
    then have "unat (word_of_nat y - word_of_nat off :: ptr) = y - off" by (simp add: unat_sub un)
    then show ?thesis using True by (auto simp: from_base_def mem_write_def d Let_def)
  next
    case False
    then have lt: "y < off" by simp
    have "unat (word_of_nat y - word_of_nat off :: ptr) = (2 ^ 64 + y - off) mod 2 ^ 64"
      using o lt by (simp add: unat_sub_if' un word_le_nat_alt)
    then have "unat (word_of_nat y - word_of_nat off :: ptr) = 2 ^ 64 + y - off" using lt o by simp
    then show ?thesis using lt assms(1) by (auto simp: from_base_def mem_write_def d Let_def)
  qed
qed

lemma mem_read_from_base: "mem_read m (base + word_of_nat off) n = map (from_base m base) [off..<off + n]"
  by (rule nth_equalityI) (simp_all add: mem_read_def from_base_def add.assoc)

section \<open>The buffer that is laid out\<close>

text \<open>The contents of one block, seen from the base of the buffer.\<close>

definition block_ready :: "launch_env \<Rightarrow> RecordGlobalHead \<Rightarrow> RecordBlockHead \<Rightarrow> ptr \<Rightarrow> (nat \<Rightarrow> u8) \<Rightarrow> nat \<Rightarrow> bool" where
  "block_ready env h bh base f i \<longleftrightarrow>
     (let pos = block_pos (le_deviceType env) h i; oi = gh_offsetInfo h; hosts = concat (map HostMemoryInfo_bytes (le_hostMems env)) in
      map f [pos..<pos + 128] = BlockHead_bytes (block_head_at bh (base + word_of_nat pos)) \<and>
      (gh_supportSimt h \<longrightarrow> map f [pos + 128..<pos + 128 + length hosts] = hosts) \<and>
      (gh_supportSimt h \<and> checked_block (le_deviceType env) h (word_of_nat i) \<longrightarrow>
         (\<forall>y < unat (GetAllThreadSize h). f (pos + unat (oi_simtHeadOffset oi) + y) = 0)))"

lemma host_bytes_length: "length (concat (map HostMemoryInfo_bytes ms)) = 16 * length ms"
  by (induction ms) (simp_all add: HostMemoryInfo_bytes_def)

lemma HostMallocH2D_spec:
  assumes spec: "copy_spec api mem" and run: "HostMallocH2D api env h (base + word_of_nat pos) d = (True, d')"
    and fit: "pos + 128 + 16 * length (le_hostMems env) \<le> 2 ^ 64" and y: "y < 2 ^ 64"
  shows "from_base (mem d') base y =
    (if gh_supportSimt h \<and> pos + 128 \<le> y \<and> y < pos + 128 + 16 * length (le_hostMems env)
     then concat (map HostMemoryInfo_bytes (le_hostMems env)) ! (y - (pos + 128)) else from_base (mem d) base y)"
proof (cases "gh_supportSimt h \<and> le_hostMems env \<noteq> []")
  case False
  then show ?thesis using run by (auto simp: HostMallocH2D_def split: if_splits)
next
  case True
  define bs where "bs = concat (map HostMemoryInfo_bytes (le_hostMems env))"
  have at: "base + word_of_nat pos + block_head_size = base + word_of_nat (pos + 128)"
    by (simp add: block_head_size_def)
  have "la_h2d api (base + word_of_nat (pos + 128)) (word_of_nat (length bs)) bs d = (ACL_SUCCESS, d')"
    using run True by (auto simp: HostMallocH2D_def bs_def [symmetric] at Let_def split: prod.splits if_splits)
  then have "mem d' = mem_write (mem d) (base + word_of_nat (pos + 128)) bs" by (rule h2d_spec [OF spec])
  then show ?thesis
    using from_base_write [of "pos + 128" bs y "mem d" base] fit y True by (simp add: bs_def host_bytes_length)
qed

lemma base_ucast: "base + word_of_nat pos + ucast (x :: u32) = (base + word_of_nat (pos + unat x) :: ptr)"
  by (simp add: add.assoc)

lemma InitSimtShadowMemoryHead_spec:
  assumes spec: "copy_spec api mem" and run: "InitSimtShadowMemoryHead api h (base + word_of_nat pos) d = (True, d')"
    and n: "n = unat (oi_shadowMemoryByteSize (gh_offsetInfo h))" "64 \<le> n"
    and off: "off = pos + unat (oi_shadowMemoryOffset (gh_offsetInfo h))" "off + n \<le> 2 ^ 64" and y: "y < 2 ^ 64" "y < off \<or> off + n \<le> y"
  shows "from_base (mem d') base y = from_base (mem d) base y"
proof -
  have at: "base + word_of_nat pos + ucast (oi_shadowMemoryOffset (gh_offsetInfo h)) = base + word_of_nat off"
    by (simp only: base_ucast off)
  obtain d1 bs where w: "mem d1 = mem_write (mem d) (base + word_of_nat off) (replicate n 0)"
    "mem d' = mem_write (mem d1) (base + word_of_nat off) bs" "length bs = 64"
    using run spec
    by (auto simp: InitSimtShadowMemoryHead_def Let_def at n(1) ShadowMemoryHeapHead_bytes_def split: prod.splits if_splits
        dest!: memset_spec [OF spec] h2d_spec [OF spec])
  show ?thesis
    using from_base_write [of off bs y "mem d1" base] from_base_write [of off "replicate n 0" y "mem d" base] w n off y by auto
qed

lemma SimtBlockHeadsH2D_spec:
  assumes spec: "copy_spec api mem" and run: "SimtBlockHeadsH2D api env h (base + word_of_nat pos) (word_of_nat i) d = (True, d')"
    and a: "a = pos + unat (oi_simtHeadOffset (gh_offsetInfo h))" "n = unat (GetAllThreadSize h)"
    and ends: "a + n \<le> e" "e \<le> 2 ^ 64"
    and sh: "oi_shadowMemoryByteSize (gh_offsetInfo h) \<noteq> 0 \<longrightarrow> 64 \<le> unat (oi_shadowMemoryByteSize (gh_offsetInfo h)) \<and>
      a + n \<le> pos + unat (oi_shadowMemoryOffset (gh_offsetInfo h)) \<and>
      pos + unat (oi_shadowMemoryOffset (gh_offsetInfo h)) + unat (oi_shadowMemoryByteSize (gh_offsetInfo h)) \<le> e"
    and y: "y < 2 ^ 64"
  shows "(y < a \<or> e \<le> y \<longrightarrow> from_base (mem d') base y = from_base (mem d) base y) \<and>
    (gh_supportSimt h \<and> checked_block (le_deviceType env) h (word_of_nat i) \<and> a \<le> y \<and> y < a + n \<longrightarrow> from_base (mem d') base y = 0)"
proof (cases "gh_supportSimt h \<and> checked_block (le_deviceType env) h (word_of_nat i)")
  case False
  then show ?thesis using run by (auto simp: SimtBlockHeadsH2D_def checked_block_def split: if_splits)
next
  case True
  have at: "base + word_of_nat pos + ucast (oi_simtHeadOffset (gh_offsetInfo h)) = base + word_of_nat a"
    by (simp only: base_ucast a)
  obtain d1 where d1: "la_memset api (base + word_of_nat a) (GetAllThreadSize h) 0 (GetAllThreadSize h) d = (ACL_SUCCESS, d1)"
    and next_step: "oi_shadowMemoryByteSize (gh_offsetInfo h) = 0 \<and> d' = d1 \<or> oi_shadowMemoryByteSize (gh_offsetInfo h) \<noteq> 0 \<and>
      InitSimtShadowMemoryHead api h (base + word_of_nat pos) d1 = (True, d')"
    using run True by (auto simp: SimtBlockHeadsH2D_def checked_block_def at Let_def split: prod.splits if_splits)
  have w: "from_base (mem d1) base x = (if a \<le> x \<and> x < a + n then 0 else from_base (mem d) base x)" if "x < 2 ^ 64" for x
    using from_base_write [of a "replicate n 0" x "mem d" base] ends that
    by (auto simp: memset_spec [OF spec d1] a(2) [symmetric])
  have keep: "from_base (mem d') base x = from_base (mem d1) base x" if "x < a + n \<or> e \<le> x" "x < 2 ^ 64" for x
    using next_step
  proof
    assume i: "oi_shadowMemoryByteSize (gh_offsetInfo h) \<noteq> 0 \<and> InitSimtShadowMemoryHead api h (base + word_of_nat pos) d1 = (True, d')"
    then show ?thesis
      using sh ends that by (intro InitSimtShadowMemoryHead_spec [OF spec _ refl _ refl]) auto
  qed simp
  show ?thesis using True w [OF y] keep [OF _ y] ends by auto
qed

lemma init_block_spec:
  assumes spec: "copy_spec api mem" and pos: "pos = block_pos (le_deviceType env) h i"
    and run: "init_block api env h bh i (base + word_of_nat pos) d = (True, d')"
    and hosts: "gh_supportSimt h \<longrightarrow> 128 + 16 * length (le_hostMems env) \<le> unat (oi_blockHeadSize (gh_offsetInfo h))"
    and sz: "e = pos + unat (GetBlockSize (le_deviceType env) h (word_of_nat i))" "e \<le> 2 ^ 64" "128 \<le> unat (GetBlockSize (le_deviceType env) h (word_of_nat i))"
    and small: "128 + 16 * length (le_hostMems env) \<le> unat (GetBlockSize (le_deviceType env) h (word_of_nat i))"
    and simt: "gh_supportSimt h \<and> checked_block (le_deviceType env) h (word_of_nat i) \<longrightarrow>
      (let oi = gh_offsetInfo h; n = unat (GetAllThreadSize h) in
       unat (oi_blockHeadSize oi) \<le> unat (oi_simtHeadOffset oi) \<and> pos + unat (oi_simtHeadOffset oi) + n \<le> e \<and>
       (oi_shadowMemoryByteSize oi \<noteq> 0 \<longrightarrow> 64 \<le> unat (oi_shadowMemoryByteSize oi) \<and>
          unat (oi_simtHeadOffset oi) + n \<le> unat (oi_shadowMemoryOffset oi) \<and>
          pos + unat (oi_shadowMemoryOffset oi) + unat (oi_shadowMemoryByteSize oi) \<le> e))"
  shows "(\<forall>y < 2 ^ 64. y < pos \<or> e \<le> y \<longrightarrow> from_base (mem d') base y = from_base (mem d) base y) \<and>
    block_ready env h bh base (from_base (mem d') base) i"
proof -
  let ?bh = "BlockHead_bytes (block_head_at bh (base + word_of_nat pos))"
  let ?hosts = "concat (map HostMemoryInfo_bytes (le_hostMems env))" and ?l = "16 * length (le_hostMems env)"
  obtain d1 d2 where r1: "la_h2d api (base + word_of_nat pos) block_head_size ?bh d = (ACL_SUCCESS, d1)"
    and r2: "HostMallocH2D api env h (base + word_of_nat pos) d1 = (True, d2)"
    and r3: "SimtBlockHeadsH2D api env h (base + word_of_nat pos) (word_of_nat i) d2 = (True, d')"
    using run by (auto simp: init_block_def split: prod.splits if_splits)
  have w1: "from_base (mem d1) base y = (if pos \<le> y \<and> y < pos + 128 then ?bh ! (y - pos) else from_base (mem d) base y)" if "y < 2 ^ 64" for y
    using from_base_write [of pos ?bh y "mem d" base] sz that by (simp add: h2d_spec [OF spec r1])
  have w2: "from_base (mem d2) base y = (if gh_supportSimt h \<and> pos + 128 \<le> y \<and> y < pos + 128 + ?l then ?hosts ! (y - (pos + 128))
      else from_base (mem d1) base y)" if "y < 2 ^ 64" for y
    using small sz by (intro HostMallocH2D_spec [OF spec r2 _ that]) simp
  define c where "c = (gh_supportSimt h \<and> checked_block (le_deviceType env) h (word_of_nat i))"
  define a where "a = pos + unat (oi_simtHeadOffset (gh_offsetInfo h))"
  have w3: "(\<not> c \<or> y < a \<or> e \<le> y \<longrightarrow> from_base (mem d') base y = from_base (mem d2) base y) \<and>
      (c \<and> a \<le> y \<and> y < a + unat (GetAllThreadSize h) \<longrightarrow> from_base (mem d') base y = 0)" if "y < 2 ^ 64" for y
  proof (cases c)
    case True
    then show ?thesis
      using SimtBlockHeadsH2D_spec [OF spec r3 a_def refl _ sz(2) _ that] simt by (auto simp: c_def a_def Let_def)
  next
    case False
    then show ?thesis using r3 by (auto simp: c_def SimtBlockHeadsH2D_def checked_block_def split: if_splits)
  qed
  have low: "c \<Longrightarrow> pos + 128 + ?l \<le> a" using simt hosts by (auto simp: c_def a_def Let_def)
  have head: "from_base (mem d') base (pos + k) = ?bh ! k" if "k < 128" for k
    using w1 [of "pos + k"] w2 [of "pos + k"] w3 [of "pos + k"] that sz low by fastforce
  then have "map (from_base (mem d') base) [pos..<pos + 128] = ?bh" by (intro nth_equalityI) simp_all
  moreover have host: "from_base (mem d') base (pos + 128 + k) = ?hosts ! k" if "gh_supportSimt h" "k < ?l" for k
    using w2 [of "pos + 128 + k"] w3 [of "pos + 128 + k"] that sz small low by fastforce
  then have "gh_supportSimt h \<Longrightarrow> map (from_base (mem d') base) [pos + 128..<pos + 128 + ?l] = ?hosts"
    by (intro nth_equalityI) (simp_all add: host_bytes_length)
  moreover have "c \<Longrightarrow> \<forall>y < unat (GetAllThreadSize h). from_base (mem d') base (a + y) = 0"
    using w3 simt sz(2) by (auto simp: c_def a_def Let_def)
  moreover have "from_base (mem d') base y = from_base (mem d) base y" if "y < 2 ^ 64" "y < pos \<or> e \<le> y" for y
    using w1 [of y] w2 [of y] w3 [of y] that sz small low by (auto simp: c_def)
  ultimately show ?thesis
    by (auto simp: block_ready_def Let_def pos [symmetric] host_bytes_length c_def a_def)
qed

text \<open>There is room in a block for what is laid out in it.\<close>

definition block_room :: "launch_env \<Rightarrow> RecordGlobalHead \<Rightarrow> nat \<Rightarrow> bool" where
  "block_room env h i \<longleftrightarrow>
     (let sz = unat (GetBlockSize (le_deviceType env) h (word_of_nat i)); oi = gh_offsetInfo h; n = unat (GetAllThreadSize h);
          l = 128 + 16 * length (le_hostMems env)
      in l \<le> unat (oi_blockHeadSize oi) \<and> l \<le> sz \<and>
         (gh_supportSimt h \<and> checked_block (le_deviceType env) h (word_of_nat i) \<longrightarrow>
            unat (oi_blockHeadSize oi) \<le> unat (oi_simtHeadOffset oi) \<and> unat (oi_simtHeadOffset oi) + n \<le> sz \<and>
            (oi_shadowMemoryByteSize oi \<noteq> 0 \<longrightarrow> 64 \<le> unat (oi_shadowMemoryByteSize oi) \<and>
               unat (oi_simtHeadOffset oi) + n \<le> unat (oi_shadowMemoryOffset oi) \<and>
               unat (oi_shadowMemoryOffset oi) + unat (oi_shadowMemoryByteSize oi) \<le> sz)))"

lemma block_pos_Suc: "block_pos dt h (Suc i) = block_pos dt h i + unat (GetBlockSize dt h (word_of_nat i))"
  by (simp add: block_pos_def)

lemma block_pos_mono: "i \<le> j \<Longrightarrow> block_pos dt h i \<le> block_pos dt h j"
  by (induction j) (auto simp: block_pos_Suc le_Suc_eq)

lemma block_pos_small: "block_pos dt h j \<le> 38528 + j * 2 ^ 32"
proof (induction j)
  case (Suc j)
  have "unat (GetBlockSize dt h (word_of_nat j)) < 2 ^ 32" using unsigned_less [of "GetBlockSize dt h (word_of_nat j)"] by simp
  with Suc show ?case by (simp add: block_pos_Suc)
qed (simp add: block_pos_def global_head_size_def)

lemma block_ready_cong:
  assumes room: "block_room env h i"
    and same: "\<And>y. block_pos (le_deviceType env) h i \<le> y \<Longrightarrow> y < block_pos (le_deviceType env) h (Suc i) \<Longrightarrow> f y = g y"
  shows "block_ready env h bh base f i = block_ready env h bh base g i"
proof -
  let ?p = "block_pos (le_deviceType env) h i" and ?l = "16 * length (le_hostMems env)"
  let ?a = "unat (oi_simtHeadOffset (gh_offsetInfo h))" and ?n = "unat (GetAllThreadSize h)"
  have m: "map f [?p..<?p + 128] = map g [?p..<?p + 128]" "map f [?p + 128..<?p + 128 + ?l] = map g [?p + 128..<?p + 128 + ?l]"
    using room same by (auto simp: block_room_def block_pos_Suc Let_def)
  have t: "\<forall>y < ?n. f (?p + ?a + y) = g (?p + ?a + y)"
    if "gh_supportSimt h \<and> checked_block (le_deviceType env) h (word_of_nat i)"
    using room that by (intro allI impI same) (auto simp: block_room_def block_pos_Suc Let_def)
  show ?thesis
    unfolding block_ready_def Let_def host_bytes_length m using t by auto
qed

lemma init_blocks_spec:
  assumes spec: "copy_spec api mem" and fit: "block_pos (le_deviceType env) h n \<le> 2 ^ 64" and room: "\<forall>i < n. block_room env h i"
  shows "k \<le> n \<Longrightarrow> init_blocks api env h bh [k..<n] (base + word_of_nat (block_pos (le_deviceType env) h k)) d = (True, d') \<Longrightarrow>
    (\<forall>y < 2 ^ 64. y < block_pos (le_deviceType env) h k \<or> block_pos (le_deviceType env) h n \<le> y \<longrightarrow>
       from_base (mem d') base y = from_base (mem d) base y) \<and>
    (\<forall>i. k \<le> i \<and> i < n \<longrightarrow> block_ready env h bh base (from_base (mem d') base) i)"
proof (induction "n - k" arbitrary: k d)
  case 0
  then show ?case by auto
next
  case (Suc j)
  let ?pos = "block_pos (le_deviceType env) h" and ?F = "\<lambda>x. from_base (mem x) base"
  have k: "k < n" using Suc.hyps(2) by simp
  have e: "?pos (Suc k) = ?pos k + unat (GetBlockSize (le_deviceType env) h (word_of_nat k))" by (rule block_pos_Suc)
  have le: "?pos (Suc k) \<le> ?pos n" "?pos (Suc k) \<le> 2 ^ 64" 
    using block_pos_mono [of "Suc k" n "le_deviceType env" h] k fit by simp_all
  have r: "block_room env h k" using room k by simp
  have nx: "base + word_of_nat (?pos k) + ucast (GetBlockSize (le_deviceType env) h (word_of_nat k)) = base + word_of_nat (?pos (Suc k))"
    by (simp only: base_ucast e)
  obtain d1 where d1: "init_block api env h bh k (base + word_of_nat (?pos k)) d = (True, d1)"
    and rest: "init_blocks api env h bh [Suc k..<n] (base + word_of_nat (?pos (Suc k))) d1 = (True, d')"
    using Suc.prems(2) k by (auto simp: upt_conv_Cons nx split: prod.splits if_splits)
  have b: "(\<forall>y < 2 ^ 64. y < ?pos k \<or> ?pos (Suc k) \<le> y \<longrightarrow> ?F d1 y = ?F d y) \<and> block_ready env h bh base (?F d1) k"
    using r le(2) e by (intro init_block_spec [OF spec refl d1 _ e]) (auto simp: block_room_def Let_def)
  have ih: "(\<forall>y < 2 ^ 64. y < ?pos (Suc k) \<or> ?pos n \<le> y \<longrightarrow> ?F d' y = ?F d1 y) \<and>
      (\<forall>i. Suc k \<le> i \<and> i < n \<longrightarrow> block_ready env h bh base (?F d') i)"
    using Suc.hyps k by (intro Suc.hyps(1) [OF _ _ rest]) auto
  have "block_ready env h bh base (?F d') k = block_ready env h bh base (?F d1) k"
    using ih le by (intro block_ready_cong [OF r]) auto
  with b have "block_ready env h bh base (?F d') k" by simp
  then have "\<forall>i. k \<le> i \<and> i < n \<longrightarrow> block_ready env h bh base (?F d') i"
    using ih by (metis Suc_leI le_neq_implies_less)
  moreover have "\<forall>y < 2 ^ 64. y < ?pos k \<or> ?pos n \<le> y \<longrightarrow> ?F d' y = ?F d y"
    using b ih le(1) block_pos_mono [of k "Suc k" "le_deviceType env" h] by fastforce
  ultimately show ?case by blast
qed

section \<open>There is room\<close>

lemma assigned_registers: "AssignGlobalHead li = Some h \<Longrightarrow> gh_registers h = li_registers li"
  by (auto simp: AssignGlobalHead_def AssignMemSize_def simt_offsets_def launch_head_def Let_def split: if_splits option.splits)

lemma simt_shadow_large:
  assumes run: "simt_offsets cs h = Some h'" and c: "unat cs < 2 ^ 12" and nz: "oi_shadowMemoryByteSize (gh_offsetInfo h') \<noteq> 0"
  shows "64 \<le> unat (oi_shadowMemoryByteSize (gh_offsetInfo h'))"
proof -
  define v where "v = ucast cs * MB_TO_BYTES"
  have v: "unat v = unat cs * 2 ^ 20" using c by (simp add: v_def MB_TO_BYTES_def unat_word_ariths)
  have b: "2 * float_part v 1 1 \<le> unat cs * 2 ^ 20" by (rule shadow_share [OF v c])
  then have u: "unat (shadow_bytes v) = float_part v 1 1" "float_part v 1 1 < 2 ^ 32"
    using c by (simp_all add: shadow_bytes_def unat_of_nat take_bit_nat_eq_self)
  have "\<not> shadow_bytes v < SHADOW_MEM_MIN_BYTE_SIZE" "oi_shadowMemoryByteSize (gh_offsetInfo h') = ucast (shadow_bytes v)"
    using run nz by (auto simp: simt_offsets_def v_def Let_def split: if_splits)
  then show ?thesis using u by (simp add: SHADOW_MEM_MIN_BYTE_SIZE_def word_less_nat_alt unsigned_ucast_eq take_bit_nat_eq_self)
qed

lemma block_head_room:
  assumes "128 + 16 * unat n + 64 \<le> 2 ^ 32"
  shows "128 + 16 * unat n \<le> unat (ucast (GetRecordHeadSize n) :: u32)"
proof -
  have u: "unat (ucast (block_head_size + ucast n * 16) :: u32) = 128 + 16 * unat n"
    using assms by (simp add: block_head_size_def unsigned_ucast_eq unat_word_ariths take_bit_nat_eq_self)
  have "unat (CeilByAlignSize 64 (ucast (block_head_size + ucast n * 16))) = (128 + 16 * unat n + 64 - 1) div 64 * 64"
    using CeilByAlignSize_nat [of 64 "ucast (block_head_size + ucast n * 16)"] assms by (simp add: u)
  moreover have "128 + 16 * unat n \<le> (128 + 16 * unat n + 64 - 1) div 64 * 64" by simp
  moreover have "(ucast (GetRecordHeadSize n) :: u32) = CeilByAlignSize 64 (ucast (block_head_size + ucast n * 16))"
    unfolding GetRecordHeadSize_def by (rule ucast_u32_u64)
  ultimately show ?thesis by simp
qed

lemma assigned_room:
  assumes a: "AssignGlobalHead li = Some h" and fits: "cache_fits h" and dim: "li_blockDim li \<noteq> 0" "unat (li_blockDim li) < 2 ^ 32"
    and hosts: "length (le_hostMems env) = unat (li_hostMemoryNum li)" "128 + 16 * unat (li_hostMemoryNum li) + 64 \<le> 2 ^ 32"
    and dt: "le_deviceType env = li_deviceType li"
  shows "block_room env h i"
proof -
  note f = assigned_head [OF a dim]
  let ?l = "128 + 16 * length (le_hostMems env)"
  have l: "?l \<le> unat (oi_blockHeadSize (gh_offsetInfo h))"
    using block_head_room [OF hosts(2)] assigned_block_head [OF a] by (simp add: hosts(1))
  then have sz: "?l \<le> unat (GetBlockSize dt' h (word_of_nat i))" for dt'
    by (simp add: GetBlockSize_unat [OF fits f(4)] full_block_def)
  have "unat (oi_blockHeadSize (gh_offsetInfo h)) \<le> unat (oi_simtHeadOffset (gh_offsetInfo h)) \<and>
      unat (oi_simtHeadOffset (gh_offsetInfo h)) + unat (GetAllThreadSize h) \<le> full_block h \<and>
      (oi_shadowMemoryByteSize (gh_offsetInfo h) \<noteq> 0 \<longrightarrow> 64 \<le> unat (oi_shadowMemoryByteSize (gh_offsetInfo h)) \<and>
        unat (oi_simtHeadOffset (gh_offsetInfo h)) + unat (GetAllThreadSize h) \<le> unat (oi_shadowMemoryOffset (gh_offsetInfo h)) \<and>
        unat (oi_shadowMemoryOffset (gh_offsetInfo h)) + unat (oi_shadowMemoryByteSize (gh_offsetInfo h)) \<le> full_block h)"
    if simt: "gh_supportSimt h"
  proof -
    obtain h0 h1 where h1: "simt_offsets (sc_cacheSize (li_config li)) h0 = Some h1" "gh_offsetInfo h = gh_offsetInfo h1"
      "64 dvd unat (oi_blockHeadSize (gh_offsetInfo h0))" "cp_cacheSize (gh_checkParms h) = sc_cacheSize (li_config li)"
      "GetAllThreadSize h = GetAllThreadSize h1"
      by (rule assigned_offsets [OF a simt])
    have "oi_blockHeadSize (gh_offsetInfo h1) = oi_blockHeadSize (gh_offsetInfo h0)"
      using h1(1) by (auto simp: simt_offsets_def Let_def split: if_splits)
    then have "unat (oi_blockHeadSize (gh_offsetInfo h0)) + unat (sc_cacheSize (li_config li)) * 2 ^ 20 < 2 ^ 32"
      using fits by (simp add: cache_fits_def h1)
    from simt_offsets_fit [OF h1(1,3) this] simt_shadow_large [OF h1(1)] cache_fits_small [OF fits] show ?thesis
      by (auto simp: h1 full_block_def)
  qed
  then show ?thesis
    using l sz by (simp add: block_room_def Let_def GetBlockSize_unat [OF fits f(4)])
qed

text \<open>
  C8: When \<open>__sanitizer_init\<close> gives a buffer for a kernel that is not to be skipped, a block and its cache fit 32 bits (see
  \<open>large_cache_wraps\<close> for caches from 4096 MB on) and the table of host ranges is below 4 GiB: the buffer holds the global
  head and then, at its place, each block's head with the pointer to its host ranges, the host ranges themselves, and cleared
  heads of its threads. No block's part was overwritten by another's.
\<close>

theorem buffer_laid_out:
  assumes "copy_spec api mem" and "sanitizer_init api env li (m, d) = (p, (m', d'))" and "p \<noteq> 0" and "\<not> dm_skip m"
    and "AssignGlobalHead li = Some h" and "cache_fits h" and "length (li_registers li) = 38400"
    and "length (le_hostMems env) = unat (li_hostMemoryNum li)" and "128 + 16 * unat (li_hostMemoryNum li) + 64 \<le> 2 ^ 32"
    and "le_deviceType env = li_deviceType li"
  shows "dm_init m' \<and> mem_read (mem d') p (unat global_head_size) = GlobalHead_bytes h \<and>
    (\<forall>i < unat (ki_totalBlockDim (gh_kernelInfo h)).
       block_ready env h (first_block_head env (li_hostMemoryNum li)) p (from_base (mem d') p) i)"
proof -
  let ?n = "unat (ki_totalBlockDim (gh_kernelInfo h))" and ?pos = "block_pos (le_deviceType env) h"
  have dim: "CheckBlockDimValid (li_blockDim li)" using assms(2,3) by (auto simp: sanitizer_init_def split: if_splits)
  then have dim2: "li_blockDim li \<noteq> 0" "unat (li_blockDim li) \<le> 100"
    by (auto simp: CheckBlockDimValid_def word_le_nat_alt not_less split: if_splits)
  have "?n \<le> 300" using assigned_head(5) [OF assms(5) dim2(1)] dim2(2) by (auto split: if_splits)
  have fit: "?pos ?n \<le> 2 ^ 64" using block_pos_small [of "le_deviceType env" h ?n] \<open>?n \<le> 300\<close> by simp
  have room: "\<forall>i < ?n. block_room env h i"
    using assigned_room [OF assms(5,6) dim2(1) _ assms(8-10)] dim2(2) by simp
  have len: "length (GlobalHead_bytes h) = 38528"
    using length_GlobalHead_bytes [of h] assms(7) by (simp add: assigned_registers [OF assms(5)] global_head_size_def)
  obtain d0 d1 where d1: "la_h2d api p global_head_size (GlobalHead_bytes h) d0 = (ACL_SUCCESS, d1)"
    and run: "init_blocks api env h (first_block_head env (li_hostMemoryNum li)) [0..<?n] (p + global_head_size) d1 = (True, d')"
    and m': "dm_init m'"
    using assms(2-5) dim
    by (auto simp: sanitizer_init_def Init_Process_def BlockHeadsH2D_def Let_def split: prod.splits if_splits option.splits)
  have p0: "p + global_head_size = p + word_of_nat (?pos 0)" by (simp add: block_pos_def)
  note blocks = init_blocks_spec [OF assms(1) fit room _ run [unfolded p0]]
  have "from_base (mem d') p y = from_base (mem d1) p y" if "y < 38528" for y
    using blocks that by (simp add: block_pos_def global_head_size_def)
  moreover have "from_base (mem d1) p y = GlobalHead_bytes h ! y" if "y < 38528" for y
    using from_base_write [of 0 "GlobalHead_bytes h" y "mem d0" p] that by (simp add: h2d_spec [OF assms(1) d1] len)
  ultimately have "map (from_base (mem d') p) [0..<38528] = GlobalHead_bytes h"
    by (intro nth_equalityI) (simp_all add: len)
  moreover have "mem_read (mem d') p (unat global_head_size) = map (from_base (mem d') p) [0..<38528]"
    using mem_read_from_base [of "mem d'" p 0] by (simp add: global_head_size_def)
  ultimately show ?thesis using m' blocks by simp
qed

section \<open>The blocks that are sent\<close>

text \<open>
  What finalizing amounts to, without buffers and places: each block's heads and records are read off the device memory and
  sent, the parameter base is reported with the first block that has one.
\<close>

definition head_on_device :: "(ptr \<Rightarrow> u8) \<Rightarrow> DeviceType \<Rightarrow> RecordGlobalHead \<Rightarrow> ptr \<Rightarrow> nat \<Rightarrow> RecordBlockHead" where
  "head_on_device m dt h base i = BlockHead_of (mem_read m (base + word_of_nat (block_pos dt h i)) 128)"

definition block_body :: "(ptr \<Rightarrow> u8) \<Rightarrow> DeviceType \<Rightarrow> RecordGlobalHead \<Rightarrow> ptr \<Rightarrow> nat \<Rightarrow> u8 list" where
  "block_body m dt h base i =
     (let pos = block_pos dt h i; w = unat (bh_writeOffset (head_on_device m dt h base i)) in
      le_bytes 8 (38528 + 128 + w) @ GlobalHead_bytes h @ mem_read m (base + word_of_nat pos) 128 @
      mem_read m (base + word_of_nat (pos + unat (oi_blockHeadSize (gh_offsetInfo h)))) w)"

definition send_block ::
  "finalize_env \<Rightarrow> (ptr \<Rightarrow> u8) \<Rightarrow> RecordGlobalHead \<Rightarrow> ptr \<Rightarrow> nat \<Rightarrow> nat \<Rightarrow> ParaBaseRegister option \<times> 'd hook_state \<Rightarrow>
   ParaBaseRegister option \<times> 'd hook_state" where
  "send_block env m h base blocks i st =
     (let (para, s) = st; bh = head_on_device m (fe_deviceType env) h base i;
          (para1, s1) = (if no_records bh then (para, s) else ReportParaBase bh para s)
      in (para1, SendKernelBlock env (block_body m (fe_deviceType env) h base i) (i + 1 = blocks) s1))"

definition send_blocks :: "finalize_env \<Rightarrow> (ptr \<Rightarrow> u8) \<Rightarrow> RecordGlobalHead \<Rightarrow> ptr \<Rightarrow> 'd hook_state \<Rightarrow> 'd hook_state" where
  "send_blocks env m h base s =
     (let blocks = unat (ki_totalBlockDim (gh_kernelInfo h));
          (para, s1) = fold (send_block env m h base blocks) [0..<blocks] (None, s)
      in case para of None \<Rightarrow> s1 | Some p \<Rightarrow> ReportFree (pb_addr p) BYPASS PARA_BASE 0 s1)"

text \<open>The counters a kernel leaves: a block without records has written none, and none has written more than its cache.\<close>

definition counters_sound :: "(ptr \<Rightarrow> u8) \<Rightarrow> DeviceType \<Rightarrow> RecordGlobalHead \<Rightarrow> ptr \<Rightarrow> nat \<Rightarrow> bool" where
  "counters_sound m dt h base i \<longleftrightarrow>
     (let bh = head_on_device m dt h base i in
      (no_records bh \<longrightarrow> bh_writeOffset bh = 0) \<and>
      unat (bh_writeOffset bh) \<le> unat (cp_cacheSize (gh_checkParms h)) * 2 ^ 20)"

section \<open>Only the device's own state changes under the reports\<close>

abbreviation dev_to :: "'d \<Rightarrow> 'd hook_state \<Rightarrow> 'd hook_state" where
  "dev_to d s \<equiv> s\<lparr>hs_dev := d\<rparr>"

lemma reports_dev [simp]:
  "ReportMalloc a n src desc k (dev_to d s) = dev_to d (ReportMalloc a n src desc k s)"
  "ReportMemset a n src desc k (dev_to d s) = dev_to d (ReportMemset a n src desc k s)"
  "ReportFree a src desc k (dev_to d s) = dev_to d (ReportFree a src desc k s)"
  by (simp_all add: ReportMalloc_def ReportMemset_def ReportFree_def)

lemma reports_keep_dev [simp]:
  "hs_dev (ReportMalloc a n src desc k s) = hs_dev s" "hs_dev (ReportMemset a n src desc k s) = hs_dev s"
  by (simp_all add: ReportMalloc_def ReportMemset_def)

lemma ReportParaBase_dev:
  "ReportParaBase bh para (dev_to d s) = (fst (ReportParaBase bh para s), dev_to d (snd (ReportParaBase bh para s)))"
  "hs_dev (snd (ReportParaBase bh para s)) = hs_dev s"
  by (simp_all add: ReportParaBase_def Let_def)

lemma SendKernelBlock_dev:
  "SendKernelBlock env body b (dev_to d s) = dev_to d (SendKernelBlock env body b s)" "hs_dev (SendKernelBlock env body b s) = hs_dev s"
  by (simp_all add: SendKernelBlock_def Interact_def Let_def split: prod.splits)

lemma send_block_dev:
  "send_block env m h base blocks i (para, dev_to d s) =
     (fst (send_block env m h base blocks i (para, s)), dev_to d (snd (send_block env m h base blocks i (para, s))))"
  by (simp add: send_block_def ReportParaBase_dev SendKernelBlock_dev Let_def split: prod.splits)

lemma send_fold_dev:
  "fold (send_block env m h base blocks) js (para, dev_to d s) =
     (fst (fold (send_block env m h base blocks) js (para, s)), dev_to d (snd (fold (send_block env m h base blocks) js (para, s))))"
proof (induction js arbitrary: para s)
  case Nil
  then show ?case by simp
next
  case (Cons j js)
  then show ?case
    by (cases "send_block env m h base blocks j (para, s)") (simp add: send_block_dev)
qed

section \<open>The copies of one block\<close>

lemma copy_back_works:
  assumes "copy_spec api mem" and "copies_work api" and "k \<le> n" and "fz_at z + unat k \<le> length (fz_host z)"
  shows "\<exists>d'. mem d' = mem (hs_dev s) \<and> copy_back api n src k (z, s) =
    Some (True, z\<lparr>fz_host := take (fz_at z) (fz_host z) @ mem_read (mem (hs_dev s)) src (unat k) @
      drop (fz_at z + unat k) (fz_host z)\<rparr>, dev_to d' s)"
proof -
  obtain e bs d' where r: "la_d2h api n src k (hs_dev s) = ((e, bs), d')" by (metis prod.exhaust)
  have e: "e = ACL_SUCCESS" using assms(2,3) r by (auto simp: copies_work_def) (metis fst_conv)
  have "mem d' = mem (hs_dev s)" "bs = mem_read (mem (hs_dev s)) src (unat k)"
    using assms(1) r e unfolding copy_spec_def by blast+
  moreover have "length (mem_read m p n) = n" for m p n by (simp add: mem_read_def)
  ultimately show ?thesis
    using assms(4) by (intro exI [of _ d']) (simp add: copy_back_def r e write_host_def)
qed

lemma length_mem_read [simp]: "length (mem_read m p n) = n"
  by (simp add: mem_read_def)

lemma BlockHead_of_front: "length xs = 128 \<Longrightarrow> BlockHead_of (xs @ ys) = BlockHead_of xs"
  by (simp add: BlockHead_of_def field_def bool_at_def nth_append)

lemma copy_back_step:
  assumes "copy_spec api mem" and "copies_work api" and "mem (hs_dev s) = M" and "k \<le> n"
    and "fz_host z = xs @ ys @ zs" and "length xs = fz_at z" and "length ys = unat k"
  obtains d' where "mem d' = M" and "copy_back api n src k (z, s) =
    Some (True, z\<lparr>fz_host := xs @ mem_read M src (unat k) @ zs\<rparr>, dev_to d' s)"
proof -
  have l: "fz_at z + unat k \<le> length (fz_host z)" using assms(5-7) by simp
  have "take (fz_at z) (fz_host z) = xs" "drop (fz_at z + unat k) (fz_host z) = zs" using assms(5-7) by simp_all
  with copy_back_works [OF assms(1,2,4) l, of s src] that show thesis by (auto simp: assms(3))
qed

text \<open>The state of the loop before a block: the places are at the block, and the host buffer still starts with the global head.\<close>

definition round_ready :: "finalize_env \<Rightarrow> RecordGlobalHead \<Rightarrow> ptr \<Rightarrow> nat \<Rightarrow> finalize_state \<Rightarrow> bool" where
  "round_ready env h base k z \<longleftrightarrow>
     fz_at z = 38528 \<and> fz_p z = base + word_of_nat (block_pos (fe_deviceType env) h k) \<and> fz_base z = fz_p z \<and>
     length (GlobalHead_bytes h) = 38528 \<and>
     (\<exists>rest. fz_host z = GlobalHead_bytes h @ rest \<and> length rest = 128 + unat (cp_cacheSize (gh_checkParms h)) * 2 ^ 20)"

lemma finalize_size_unat: "unat (finalize_size c) = 38528 + 128 + unat c * 2 ^ 20"
proof -
  have "unat c < 2 ^ 32" using unsigned_less [of c] by simp
  then show ?thesis
    by (simp add: finalize_size_def MB_TO_BYTES_def global_head_size_def block_head_size_def unat_word_ariths)
qed

lemma block_head_copied:
  assumes spec: "copy_spec api mem" and works: "copies_work api" and M: "mem (hs_dev s) = M"
    and ready: "round_ready env h base k z" and sz: "fe_blockSize env = finalize_size (cp_cacheSize (gh_checkParms h))"
  obtains d' z' rest where "mem d' = M" and "BlockHeadD2H api env h (z, s) = Some (True, z', dev_to d' s)"
    and "head_in_host z' = head_on_device M (fe_deviceType env) h base k"
    and "fz_host z' = GlobalHead_bytes h @ mem_read M (base + word_of_nat (block_pos (fe_deviceType env) h k)) 128 @ rest"
    and "length rest = unat (cp_cacheSize (gh_checkParms h)) * 2 ^ 20" and "fz_at z' = 38528 + 128"
    and "fz_p z' = base + word_of_nat (block_pos (fe_deviceType env) h k + unat (oi_blockHeadSize (gh_offsetInfo h)))"
    and "fz_base z' = base + word_of_nat (block_pos (fe_deviceType env) h k)"
proof -
  obtain r where r: "fz_host z = GlobalHead_bytes h @ r" "length r = 128 + unat (cp_cacheSize (gh_checkParms h)) * 2 ^ 20"
    "length (GlobalHead_bytes h) = 38528"
    using ready by (auto simp: round_ready_def)
  have le: "block_head_size \<le> fe_blockSize env - global_head_size"
  proof -
    have "global_head_size \<le> fe_blockSize env" by (simp add: sz word_le_nat_alt finalize_size_unat) (simp add: global_head_size_def)
    then have "unat (fe_blockSize env - global_head_size) = 128 + unat (cp_cacheSize (gh_checkParms h)) * 2 ^ 20"
      by (simp add: unat_sub sz finalize_size_unat) (simp add: global_head_size_def)
    then show ?thesis by (simp add: word_le_nat_alt block_head_size_def)
  qed
  have l: "fz_host z = GlobalHead_bytes h @ take 128 r @ drop 128 r" "length (GlobalHead_bytes h) = fz_at z"
    "length (take 128 r) = unat block_head_size"
    using r ready by (simp_all add: round_ready_def block_head_size_def)
  obtain d' where d: "mem d' = M" "copy_back api (fe_blockSize env - global_head_size) (fz_p z) block_head_size (z, s) =
      Some (True, z\<lparr>fz_host := GlobalHead_bytes h @ mem_read M (fz_p z) (unat block_head_size) @ drop 128 r\<rparr>, dev_to d' s)"
    by (rule copy_back_step [OF spec works M le l])
  have b: "unat block_head_size = 128" by (simp add: block_head_size_def)
  have p: "fz_p z = base + word_of_nat (block_pos (fe_deviceType env) h k)" "fz_base z = fz_p z" "fz_at z = 38528"
    using ready by (simp_all add: round_ready_def)
  define z' where "z' = z\<lparr>fz_host := GlobalHead_bytes h @ mem_read M (fz_p z) 128 @ drop 128 r, fz_at := fz_at z + 128,
      fz_p := fz_p z + ucast (oi_blockHeadSize (gh_offsetInfo h))\<rparr>"
  have run: "BlockHeadD2H api env h (z, s) = Some (True, z', dev_to d' s)"
    by (simp add: BlockHeadD2H_def d(2) b z'_def)
  have hd: "head_in_host z' = head_on_device M (fe_deviceType env) h base k"
    by (simp add: head_in_host_def z'_def head_on_device_def global_head_size_def r(3) BlockHead_of_front p(1))
  show thesis
    by (rule that [OF d(1) run hd, of "drop 128 r"]) (simp_all add: z'_def p r base_ucast)
qed

lemma remaining_cache:
  "fe_blockSize env = finalize_size c \<Longrightarrow> unat (fe_blockSize env - global_head_size - block_head_size) = unat c * 2 ^ 20"
proof -
  assume sz: "fe_blockSize env = finalize_size c"
  have "fe_blockSize env - global_head_size - block_head_size = ucast c * MB_TO_BYTES"
    by (simp add: sz finalize_size_def global_head_size_def block_head_size_def)
  moreover have "unat c < 2 ^ 32" using unsigned_less [of c] by simp
  ultimately show ?thesis by (simp add: MB_TO_BYTES_def unat_word_ariths)
qed

lemma simd_part_sends:
  assumes spec: "copy_spec api mem" and works: "copies_work api" and M: "mem (hs_dev s) = M"
    and sz: "fe_blockSize env = finalize_size (cp_cacheSize (gh_checkParms h))"
    and w: "no_records bh \<Longrightarrow> bh_writeOffset bh = 0" "unat (bh_writeOffset bh) \<le> unat (cp_cacheSize (gh_checkParms h)) * 2 ^ 20"
    and z: "fz_host z = front @ rest" "length front = fz_at z" "length rest = unat (cp_cacheSize (gh_checkParms h)) * 2 ^ 20"
  obtains d' z' rest' where "mem d' = M" and "simd_part api env bh (z, para, s) =
      Some (True, z', (if no_records bh then (para, s) else (fst (ReportParaBase bh para s), dev_to d' (snd (ReportParaBase bh para s)))))"
    and "fz_host z' = front @ mem_read M (fz_p z) (unat (bh_writeOffset bh)) @ rest'"
    and "length rest' + unat (bh_writeOffset bh) = unat (cp_cacheSize (gh_checkParms h)) * 2 ^ 20" and "fz_base z' = fz_base z"
proof (cases "no_records bh")
  case True
  show thesis
    by (rule that [OF M, of z rest]) (simp_all add: True w(1) z simd_part_def mem_read_def)
next
  case False
  let ?w = "unat (bh_writeOffset bh)"
  have le: "bh_writeOffset bh \<le> fe_blockSize env - global_head_size - block_head_size"
    using w(2) by (simp add: word_le_nat_alt remaining_cache [OF sz])
  have l: "fz_host z = front @ take ?w rest @ drop ?w rest" "length front = fz_at z" "length (take ?w rest) = ?w"
    using z w(2) by simp_all
  have M1: "mem (hs_dev (snd (ReportParaBase bh para s))) = M" by (simp add: ReportParaBase_dev(2) M)
  obtain d' where d: "mem d' = M" "copy_back api (fe_blockSize env - global_head_size - block_head_size) (fz_p z) (bh_writeOffset bh)
      (z, snd (ReportParaBase bh para s)) =
      Some (True, z\<lparr>fz_host := front @ mem_read M (fz_p z) ?w @ drop ?w rest\<rparr>, dev_to d' (snd (ReportParaBase bh para s)))"
    by (rule copy_back_step [OF spec works M1 le l])
  define z' where "z' = z\<lparr>fz_host := front @ mem_read M (fz_p z) ?w @ drop ?w rest, fz_at := fz_at z + ?w, fz_p := fz_p z + bh_writeOffset bh\<rparr>"
  have run: "simd_part api env bh (z, para, s) = Some (True, z', (if no_records bh then (para, s)
      else (fst (ReportParaBase bh para s), dev_to d' (snd (ReportParaBase bh para s)))))"
    using False d(2) by (cases "ReportParaBase bh para s") (simp add: simd_part_def SimdRecordD2H_def z'_def)
  show thesis
    by (rule that [OF d(1) run, of "drop ?w rest"]) (use w(2) z(3) in \<open>simp_all add: z'_def\<close>)
qed

lemma report_block_sends:
  assumes spec: "copy_spec api mem" and works: "copies_work api" and M: "mem (hs_dev s) = M" and simd: "\<not> gh_supportSimt h"
    and ready: "round_ready env h base k z" and sz: "fe_blockSize env = finalize_size (cp_cacheSize (gh_checkParms h))"
    and c: "counters_sound M (fe_deviceType env) h base k"
  obtains d' z' where "mem d' = M" and "round_ready env h base (Suc k) z'" and "report_block api env h blocks k (z, para, s) =
      Some (True, z', fst (send_block env M h base blocks k (para, s)), dev_to d' (snd (send_block env M h base blocks k (para, s))))"
proof -
  let ?pos = "block_pos (fe_deviceType env) h k" and ?cache = "unat (cp_cacheSize (gh_checkParms h)) * 2 ^ 20"
  define bh where "bh = head_on_device M (fe_deviceType env) h base k"
  define w where "w = unat (bh_writeOffset bh)"
  have w: "no_records bh \<Longrightarrow> bh_writeOffset bh = 0" "unat (bh_writeOffset bh) \<le> ?cache"
    using c by (auto simp: counters_sound_def bh_def Let_def)
  have cache: "?cache < 2 ^ 52" using unsigned_less [of "cp_cacheSize (gh_checkParms h)"] by simp
  have len: "length (GlobalHead_bytes h) = 38528" using ready by (simp add: round_ready_def)
  obtain d1 z1 rest where b: "mem d1 = M" "BlockHeadD2H api env h (z, s) = Some (True, z1, dev_to d1 s)" "head_in_host z1 = bh"
    "fz_host z1 = GlobalHead_bytes h @ mem_read M (base + word_of_nat ?pos) 128 @ rest" "length rest = ?cache"
    "fz_at z1 = 38528 + 128" "fz_p z1 = base + word_of_nat (?pos + unat (oi_blockHeadSize (gh_offsetInfo h)))"
    "fz_base z1 = base + word_of_nat ?pos"
    unfolding bh_def by (rule block_head_copied [OF spec works M ready sz])
  define front where "front = GlobalHead_bytes h @ mem_read M (base + word_of_nat ?pos) 128"
  have f: "fz_host z1 = front @ rest" "length front = fz_at z1" "mem (hs_dev (dev_to d1 s)) = M"
    using b len by (simp_all add: front_def)
  obtain d2 z2 rest' where r: "mem d2 = M" "simd_part api env bh (z1, para, dev_to d1 s) = Some (True, z2,
      (if no_records bh then (para, dev_to d1 s)
       else (fst (ReportParaBase bh para (dev_to d1 s)), dev_to d2 (snd (ReportParaBase bh para (dev_to d1 s))))))"
    "fz_host z2 = front @ mem_read M (fz_p z1) w @ rest'" "length rest' + w = ?cache" "fz_base z2 = fz_base z1"
    unfolding w_def by (rule simd_part_sends [OF spec works f(3) sz w f(1,2) b(5)])
  define d3 where "d3 = (if no_records bh then d1 else d2)"
  obtain para1 s1 where p: "(if no_records bh then (para, s) else ReportParaBase bh para s) = (para1, s1)" by fastforce
  have r2: "simd_part api env bh (z1, para, dev_to d1 s) = Some (True, z2, para1, dev_to d3 s1)"
    using p by (auto simp: r(2) d3_def ReportParaBase_dev split: if_splits)
  have sz': "unat (global_head_size + block_head_size + bh_writeOffset bh) = 38528 + 128 + w"
    using w(2) cache by (simp add: global_head_size_def block_head_size_def unat_word_ariths w_def)
  define z3 where "z3 = z2\<lparr>fz_base := base + word_of_nat (block_pos (fe_deviceType env) h (Suc k)),
    fz_p := base + word_of_nat (block_pos (fe_deviceType env) h (Suc k)), fz_at := 38528\<rparr>"
  have nx: "fz_base z2 + ucast (GetBlockSize (fe_deviceType env) h (word_of_nat k)) = base + word_of_nat (block_pos (fe_deviceType env) h (Suc k))"
    by (simp only: r(5) b(8) base_ucast block_pos_Suc)
  have body: "le_bytes 8 (38528 + 128 + w) @ take (38528 + 128 + w) (fz_host z2) = block_body M (fe_deviceType env) h base k"
    using len by (simp add: r(3) block_body_def Let_def bh_def [symmetric] w_def [symmetric] front_def b(7))
  have "report_block api env h blocks k (z, para, s) =
      Some (True, z3, para1, dev_to d3 (SendKernelBlock env (block_body M (fe_deviceType env) h base k) (k + 1 = blocks) s1))"
    using r(3) len
    by (simp add: report_block_def simd b(2,3) r2 simt_part_def nx sz' body [symmetric] z3_def [symmetric] SendKernelBlock_dev front_def)
      (simp add: z3_def global_head_size_def Let_def)
  moreover have "send_block env M h base blocks k (para, s) =
      (para1, SendKernelBlock env (block_body M (fe_deviceType env) h base k) (k + 1 = blocks) s1)"
    by (simp add: send_block_def bh_def [symmetric] p)
  moreover have "round_ready env h base (Suc k) z3"
    using r(3,4) len by (simp add: round_ready_def z3_def front_def)
  ultimately show thesis using that [of d3 z3] b(1) r(1) by (simp add: d3_def)
qed

text \<open>
  The counters are not checked: a block that counts no records but has a write offset beyond its cache makes the message
  larger than the host buffer, which is then read past its end.
\<close>

lemma stale_offset_overruns:
  assumes "copy_spec api mem" and "copies_work api" and "mem (hs_dev s) = M" and simd: "\<not> gh_supportSimt h"
    and "round_ready env h base k z" and "fe_blockSize env = finalize_size (cp_cacheSize (gh_checkParms h))"
    and none: "no_records (head_on_device M (fe_deviceType env) h base k)"
    and big: "unat (cp_cacheSize (gh_checkParms h)) * 2 ^ 20 < unat (bh_writeOffset (head_on_device M (fe_deviceType env) h base k))"
      "unat (bh_writeOffset (head_on_device M (fe_deviceType env) h base k)) < 2 ^ 63"
  shows "report_block api env h blocks k (z, para, s) = None"
proof -
  define bh where "bh = head_on_device M (fe_deviceType env) h base k"
  have len: "length (GlobalHead_bytes h) = 38528" using assms(5) by (simp add: round_ready_def)
  obtain d1 z1 rest where b: "BlockHeadD2H api env h (z, s) = Some (True, z1, dev_to d1 s)" "head_in_host z1 = bh"
    "fz_host z1 = GlobalHead_bytes h @ mem_read M (base + word_of_nat (block_pos (fe_deviceType env) h k)) 128 @ rest"
    "length rest = unat (cp_cacheSize (gh_checkParms h)) * 2 ^ 20"
    unfolding bh_def by (rule block_head_copied [OF assms(1-3,5,6)])
  have "unat (global_head_size + block_head_size + bh_writeOffset bh) = 38528 + 128 + unat (bh_writeOffset bh)"
    using big by (simp add: global_head_size_def block_head_size_def unat_word_ariths bh_def)
  then have "length (fz_host z1) < unat (global_head_size + block_head_size + bh_writeOffset bh)"
    using big(1) len b(3,4) by (simp add: bh_def)
  then show ?thesis
    using none by (simp add: report_block_def simd b(1,2) simd_part_def simt_part_def bh_def [symmetric] Let_def)
qed

lemma report_blocks_send:
  assumes spec: "copy_spec api mem" and works: "copies_work api" and simd: "\<not> gh_supportSimt h"
    and sz: "fe_blockSize env = finalize_size (cp_cacheSize (gh_checkParms h))"
    and c: "\<forall>i < n. counters_sound M (fe_deviceType env) h base i"
  shows "k \<le> n \<Longrightarrow> mem (hs_dev s) = M \<Longrightarrow> round_ready env h base k z \<Longrightarrow> \<exists>d' z'. mem d' = M \<and>
    report_blocks api env h blocks [k..<n] (z, para, s) =
      Some (z', fst (fold (send_block env M h base blocks) [k..<n] (para, s)),
        dev_to d' (snd (fold (send_block env M h base blocks) [k..<n] (para, s))))"
proof (induction "n - k" arbitrary: k z para s)
  case 0
  then show ?case by (intro exI [of _ "hs_dev s"]) auto
next
  case (Suc j)
  have k: "k < n" using Suc.hyps(2) by simp
  obtain d1 z1 where b: "mem d1 = M" "round_ready env h base (Suc k) z1" "report_block api env h blocks k (z, para, s) =
      Some (True, z1, fst (send_block env M h base blocks k (para, s)), dev_to d1 (snd (send_block env M h base blocks k (para, s))))"
    by (rule report_block_sends [OF spec works Suc.prems(2) simd Suc.prems(3) sz]) (use c k in auto)
  let ?p1 = "fst (send_block env M h base blocks k (para, s))" and ?s1 = "snd (send_block env M h base blocks k (para, s))"
  have "\<exists>d' z'. mem d' = M \<and> report_blocks api env h blocks [Suc k..<n] (z1, ?p1, dev_to d1 ?s1) =
      Some (z', fst (fold (send_block env M h base blocks) [Suc k..<n] (?p1, dev_to d1 ?s1)),
        dev_to d' (snd (fold (send_block env M h base blocks) [Suc k..<n] (?p1, dev_to d1 ?s1))))"
    by (rule Suc.hyps(1)) (use Suc.hyps(2) k b in auto)
  then obtain d' z' where "mem d' = M" "report_blocks api env h blocks [Suc k..<n] (z1, ?p1, dev_to d1 ?s1) =
      Some (z', fst (fold (send_block env M h base blocks) [Suc k..<n] (?p1, ?s1)),
        dev_to d' (snd (fold (send_block env M h base blocks) [Suc k..<n] (?p1, ?s1))))"
    by (auto simp: send_fold_dev)
  then show ?case using k b(3) by (intro exI [of _ d'] exI [of _ z']) (simp add: upt_conv_Cons)
qed

lemma ReportBlockInfo_sends:
  assumes "copy_spec api mem" and "copies_work api" and "\<not> gh_supportSimt h" and "mem (hs_dev s) = M"
    and "fe_blockSize env = finalize_size (cp_cacheSize (gh_checkParms h))"
    and "\<forall>i < unat (ki_totalBlockDim (gh_kernelInfo h)). counters_sound M (fe_deviceType env) h base i"
    and "round_ready env h base 0 z"
  obtains d' where "mem d' = M" and "ReportBlockInfo api env h (z, s) = Some (dev_to d' (send_blocks env M h base s))"
proof -
  let ?n = "unat (ki_totalBlockDim (gh_kernelInfo h))"
  obtain d' z' where r: "mem d' = M" "report_blocks api env h ?n [0..<?n] (z, None, s) =
      Some (z', fst (fold (send_block env M h base ?n) [0..<?n] (None, s)),
        dev_to d' (snd (fold (send_block env M h base ?n) [0..<?n] (None, s))))"
    using report_blocks_send [OF assms(1-3,5,6) le0 assms(4,7)] by blast
  have "ReportBlockInfo api env h (z, s) = Some (dev_to d' (send_blocks env M h base s))"
    by (auto simp: ReportBlockInfo_def send_blocks_def r(2) Let_def split: prod.splits option.splits)
  with r(1) show thesis by (rule that)
qed

text \<open>
  C6: On a device without SIMT threads, when the buffer's head is intact, every copy from the device succeeds, and the kernel
  left sound counters (no write offset past its block's cache): finalizing a launch sends exactly each block's heads and
  records as they stand in device memory, in the order of the blocks, and keeps the registers. The 64-bit places, the one
  reused host buffer and the partial copies come to no more than that. (Failing copies, stale counters and the parts that
  threads write are outside it.)
\<close>

theorem finalize_sends_blocks:
  assumes "copy_spec api mem" and "copies_work api" and "\<not> gh_supportSimt h"
    and "mem_read (mem (hs_dev s)) memInfo 38528 = GlobalHead_bytes h" and "length (gh_registers h) = 38400"
    and "fe_blockSize env = finalize_size (cp_cacheSize (gh_checkParms h))" and "length raw = unat (fe_blockSize env)"
    and "\<forall>i < unat (ki_totalBlockDim (gh_kernelInfo h)). counters_sound (mem (hs_dev s)) (fe_deviceType env) h memInfo i"
  shows "\<exists>d'. mem d' = mem (hs_dev s) \<and> Finalize_Process api env memInfo raw True (registers, s) =
    Some (gh_registers h, dev_to d' (send_blocks env (mem (hs_dev s)) h memInfo s))"
proof -
  define z where "z = \<lparr>fz_host = raw, fz_at = 0, fz_p = memInfo, fz_base = memInfo\<rparr>"
  have n: "unat (fe_blockSize env) = 38528 + 128 + unat (cp_cacheSize (gh_checkParms h)) * 2 ^ 20"
    by (simp add: assms(6) finalize_size_unat)
  have g: "unat global_head_size = 38528" by (simp add: global_head_size_def)
  have le: "global_head_size \<le> fe_blockSize env" by (simp add: word_le_nat_alt n g)
  have l: "fz_host z = [] @ take 38528 raw @ drop 38528 raw" "length [] = fz_at z" "length (take 38528 raw) = unat global_head_size"
    using assms(7) n by (simp_all add: z_def g)
  obtain d1 where d1: "mem d1 = mem (hs_dev s)" "copy_back api (fe_blockSize env) memInfo global_head_size (z, s) =
      Some (True, z\<lparr>fz_host := [] @ mem_read (mem (hs_dev s)) memInfo (unat global_head_size) @ drop 38528 raw\<rparr>, dev_to d1 s)"
    by (rule copy_back_step [OF assms(1,2) refl le l])
  have len: "length (GlobalHead_bytes h) = 38528" using assms(4) length_mem_read [of "mem (hs_dev s)" memInfo 38528] by simp
  define z2 where "z2 = z\<lparr>fz_host := GlobalHead_bytes h @ drop 38528 raw, fz_at := 38528, fz_p := memInfo + global_head_size,
    fz_base := memInfo + global_head_size\<rparr>"
  have ready: "round_ready env h memInfo 0 z2"
    using assms(7) n len by (simp add: round_ready_def z2_def block_pos_def)
  have M: "mem (hs_dev (dev_to d1 s)) = mem (hs_dev s)" by (simp add: d1(1))
  obtain d' where d': "mem d' = mem (hs_dev s)"
    "ReportBlockInfo api env h (z2, dev_to d1 s) = Some (dev_to d' (send_blocks env (mem (hs_dev s)) h memInfo (dev_to d1 s)))"
    by (rule ReportBlockInfo_sends [OF assms(1-3) M assms(6,8) ready])
  have "send_blocks env m h b (dev_to d1 s) = dev_to d1 (send_blocks env m h b s)" for m b
    by (simp add: send_blocks_def send_fold_dev Let_def split: prod.splits option.splits)
  then have "Finalize_Process api env memInfo raw True (registers, s) =
      Some (gh_registers h, dev_to d' (send_blocks env (mem (hs_dev s)) h memInfo s))"
    using d1(2) d'(2) by (simp add: Finalize_Process_def GlobalHeadD2H_def RegistersD2H_def z_def g assms(4) GlobalHead_roundtrip [OF assms(5)] z2_def)
  with d'(1) show ?thesis by blast
qed

section \<open>When the layout fails\<close>

text \<open>The sizes of the live device blocks; copies and fills change none.\<close>

definition sizes :: "('d \<Rightarrow> ptr \<Rightarrow> u8 list option) \<Rightarrow> 'd \<Rightarrow> ptr \<Rightarrow> nat option" where
  "sizes blocks d = (\<lambda>p. map_option length (blocks d p))"

definition transfers_keep :: "'d launch_api \<Rightarrow> ('d \<Rightarrow> ptr \<Rightarrow> u8 list option) \<Rightarrow> bool" where
  "transfers_keep api blocks \<longleftrightarrow>
     (\<forall>p n bs d. sizes blocks (snd (la_h2d api p n bs d)) = sizes blocks d) \<and>
     (\<forall>p n v k d. sizes blocks (snd (la_memset api p n v k d)) = sizes blocks d)"

lemma keep_h2d: "transfers_keep api blocks \<Longrightarrow> la_h2d api p n bs d = (e, d') \<Longrightarrow> sizes blocks d' = sizes blocks d"
  unfolding transfers_keep_def by (metis snd_conv)

lemma keep_memset: "transfers_keep api blocks \<Longrightarrow> la_memset api p n v k d = (e, d') \<Longrightarrow> sizes blocks d' = sizes blocks d"
  unfolding transfers_keep_def by (metis snd_conv)

lemma keep_hosts:
  assumes "transfers_keep api blocks" and "HostMallocH2D api env h p d = (ok, d')"
  shows "sizes blocks d' = sizes blocks d"
  using assms(2) by (auto simp: HostMallocH2D_def Let_def dest!: keep_h2d [OF assms(1)] split: if_splits prod.splits)

lemma keep_shadow:
  assumes "transfers_keep api blocks" and "InitSimtShadowMemoryHead api h p d = (ok, d')"
  shows "sizes blocks d' = sizes blocks d"
  using assms(2) by (auto simp: InitSimtShadowMemoryHead_def Let_def dest!: keep_h2d [OF assms(1)] keep_memset [OF assms(1)] split: if_splits prod.splits)

lemma keep_simt:
  assumes "transfers_keep api blocks" and "SimtBlockHeadsH2D api env h p i d = (ok, d')"
  shows "sizes blocks d' = sizes blocks d"
  using assms(2) by (auto simp: SimtBlockHeadsH2D_def Let_def dest!: keep_shadow [OF assms(1)] keep_memset [OF assms(1)] split: if_splits prod.splits)

lemma keep_block:
  assumes "transfers_keep api blocks" and "init_block api env h bh i p d = (ok, d')"
  shows "sizes blocks d' = sizes blocks d"
  using assms(2) by (auto simp: init_block_def Let_def dest!: keep_simt [OF assms(1)] keep_hosts [OF assms(1)] keep_h2d [OF assms(1)] split: if_splits prod.splits)

lemma keep_blocks:
  assumes "transfers_keep api blocks"
  shows "init_blocks api env h bh js p d = (ok, d') \<Longrightarrow> sizes blocks d' = sizes blocks d"
  by (induction js arbitrary: p d) (auto simp: Let_def dest!: keep_block [OF assms] split: if_splits prod.splits)

lemma keep_heads:
  assumes "transfers_keep api blocks" and "BlockHeadsH2D api env n h p d = (ok, d')"
  shows "sizes blocks d' = sizes blocks d"
  using assms(2) by (auto simp: BlockHeadsH2D_def Let_def dest!: keep_blocks [OF assms(1)] keep_h2d [OF assms(1)] split: if_splits prod.splits)

lemma sizes_none: "sizes blocks d' = sizes blocks d \<Longrightarrow> blocks d' p = None \<longleftrightarrow> blocks d p = None"
  by (drule fun_cong [of _ _ p]) (cases "blocks d p"; auto simp: sizes_def)

lemma sizes_holds: "sizes blocks d' = sizes blocks d \<Longrightarrow> holds_block blocks d' p n \<longleftrightarrow> holds_block blocks d p n"
  by (drule fun_cong [of _ _ p]) (cases "blocks d p"; auto simp: sizes_def holds_block_def)

lemma sizes_ok:
  assumes "sizes blocks d' = sizes blocks d"
  shows "dm_ok blocks m d' \<longleftrightarrow> dm_ok blocks m d"
  by (simp only: dm_ok_def sizes_holds [OF assms] sizes_none [OF assms])

lemma MallocMemory_leaves:
  assumes "acl_spec api blocks" and "\<forall>e x. fst (api_getDevice api x) = (ACL_SUCCESS, e) \<longrightarrow> 0 \<le> e" and "dm_ok blocks m d"
    and "MallocMemory api False n (m, d) = ((e, out), (m', d'))"
  shows "dm_ok blocks m' d' \<and> (\<forall>q. q \<noteq> dm_memPtr m \<and> q \<noteq> dm_memPtr m' \<longrightarrow> sizes blocks d' q = sizes blocks d q) \<and>
    (dm_memPtr m' \<noteq> dm_memPtr m \<longrightarrow> sizes blocks d (dm_memPtr m') = None) \<and>
    (e \<noteq> ACL_SUCCESS \<longrightarrow> out = None \<and> (m' = m \<or> dm_memPtr m' = 0)) \<and>
    (e = ACL_SUCCESS \<longrightarrow> out = Some (dm_memPtr m') \<and> dm_memPtr m' \<noteq> 0 \<and>
       (\<exists>k. sizes blocks d' (dm_memPtr m') = Some k \<and> unat n \<le> k))"
proof -
  note ok = MallocMemory_ok [OF assms]
  have "sizes blocks d' q = sizes blocks d q" if "q \<noteq> dm_memPtr m" "q \<noteq> dm_memPtr m'" for q
  proof -
    have "((blocks d')(dm_memPtr m' := None)) q = ((blocks d)(dm_memPtr m := None)) q" using ok by simp
    with that show ?thesis by (simp add: sizes_def)
  qed
  moreover have "sizes blocks d (dm_memPtr m') = None" if "dm_memPtr m' \<noteq> dm_memPtr m"
  proof -
    have "((blocks d')(dm_memPtr m' := None)) (dm_memPtr m') = ((blocks d)(dm_memPtr m := None)) (dm_memPtr m')" using ok by simp
    with that show ?thesis by (simp add: sizes_def)
  qed
  moreover have "m' = m \<or> dm_memPtr m' = 0" if "e \<noteq> ACL_SUCCESS"
    using assms(4)
  proof (cases rule: MallocMemory_cases)
    case (fail dv d1 m1 d2 p)
    then show ?thesis using malloc_failure [OF assms(1) fail(3,4)] by simp
  qed (use that in auto)
  ultimately show ?thesis using ok by (auto simp: sizes_def split: option.splits)
qed

text \<open>
  C7: Whatever fails, \<open>__sanitizer_init\<close> leaves nothing half laid out and loses no device memory: the manager still owns at
  most one live block, no other block changed, and a null result either changed nothing the manager keeps or left it without
  a buffer. Another result is its buffer, of the size the head asks for (1 MB for a kernel that is skipped).
\<close>

theorem failed_init_keeps_nothing:
  assumes "acl_spec (la_acl api) blocks" and "\<forall>e x. fst (api_getDevice (la_acl api) x) = (ACL_SUCCESS, e) \<longrightarrow> 0 \<le> e"
    and "transfers_keep api blocks" and "dm_ok blocks m d" and "sanitizer_init api env li (m, d) = (p, (m', d'))"
  shows "dm_ok blocks m' d' \<and> (\<forall>q. q \<noteq> dm_memPtr m \<and> q \<noteq> dm_memPtr m' \<longrightarrow> sizes blocks d' q = sizes blocks d q) \<and>
    (if p = 0 then m' = m \<or> dm_memPtr m' = 0
     else p = dm_memPtr m' \<and>
       (\<exists>k. sizes blocks d' p = Some k \<and>
          unat (if dm_skip m then MB_TO_BYTES else record_buffer_size (the (AssignGlobalHead li))) \<le> k))"
proof -
  consider (dim) "\<not> CheckBlockDimValid (li_blockDim li)" | (skip) "CheckBlockDimValid (li_blockDim li)" "dm_skip m"
    | (settings) "CheckBlockDimValid (li_blockDim li)" "\<not> dm_skip m" "AssignGlobalHead li = None"
    | (check) h where "CheckBlockDimValid (li_blockDim li)" "\<not> dm_skip m" "AssignGlobalHead li = Some h" by fastforce
  then show ?thesis
  proof cases
    case dim
    then show ?thesis using assms(4,5) by (auto simp: sanitizer_init_def)
  next
    case settings
    then show ?thesis using assms(4,5) by (auto simp: sanitizer_init_def Init_Process_def)
  next
    case skip
    obtain e out m1 d1 where a: "MallocMemory (la_acl api) False MB_TO_BYTES (m, d) = ((e, out), (m1, d1))" by (metis prod.exhaust)
    have "p = (if e \<noteq> ACL_SUCCESS then 0 else the out)" "m' = m1" "d' = d1"
      using skip assms(5) by (auto simp: sanitizer_init_def Init_Process_def SkipKernelProcess_def a)
    then show ?thesis using MallocMemory_leaves [OF assms(1,2,4) a] skip by (auto split: if_splits)
  next
    case (check h)
    obtain e out m1 d1 where a: "MallocMemory (la_acl api) False (record_buffer_size h) (m, d) = ((e, out), (m1, d1))"
      by (metis prod.exhaust)
    note l = MallocMemory_leaves [OF assms(1,2,4) a]
    obtain ok d2 where b: "BlockHeadsH2D api env (li_hostMemoryNum li) h (the out) d1 = (ok, d2)" by fastforce
    have kept: "sizes blocks d2 = sizes blocks d1" by (rule keep_heads [OF assms(3) b])
    have r: "(p, (m', d')) = (if e \<noteq> ACL_SUCCESS then (0, (m1, d1)) else if \<not> ok then (0, dm_Free (la_acl api) (m1, d2))
        else (the out, (m1\<lparr>dm_init := True\<rparr>, d2)))"
      using check assms(5) by (simp add: sanitizer_init_def Init_Process_def a b Let_def split: if_splits)
    consider (no_memory) "e \<noteq> ACL_SUCCESS" | (freed) "e = ACL_SUCCESS" "\<not> ok" | (laid) "e = ACL_SUCCESS" "ok" by blast
    then show ?thesis
    proof cases
      case no_memory
      then show ?thesis using r l by simp
    next
      case freed
      have ok2: "dm_ok blocks m1 d2" using l sizes_ok [OF kept] by blast
      obtain m2 d3 where f: "dm_Free (la_acl api) (m1, d2) = (m2, d3)" by fastforce
      note g = dm_Free_ok [OF assms(1) ok2 f]
      have "sizes blocks d3 q = sizes blocks d q" if "q \<noteq> dm_memPtr m" for q
      proof (cases "q = dm_memPtr m1")
        case True
        then show ?thesis using g l that by (simp add: sizes_def)
      next
        case False
        then have "sizes blocks d3 q = sizes blocks d2 q" using g by (simp add: sizes_def)
        then show ?thesis using kept l that False by simp
      qed
      then show ?thesis using r freed f g by simp
    next
      case laid
      have "dm_ok blocks m1 d2" using l sizes_ok [OF kept] by blast
      then have "dm_ok blocks (m1\<lparr>dm_init := True\<rparr>) d2" by (simp add: dm_ok_def)
      then show ?thesis using r laid l kept check by simp
    qed
  qed
qed

section \<open>Concrete launches\<close>

text \<open>Copies on a byte memory, with an allocator that always gives the same block.\<close>

definition demo_copies :: "(ptr \<Rightarrow> u8) launch_api" where
  "demo_copies = \<lparr>la_acl = \<lparr>api_malloc = (\<lambda>n pol d. ((ACL_SUCCESS, 0x10000), d)), api_free = (\<lambda>p d. (ACL_SUCCESS, d)),
       api_memcpy = (\<lambda>dst n src m kind d. (ACL_SUCCESS, d)), api_memcpyAsync = (\<lambda>dst n src m kind stream d. (ACL_SUCCESS, d)),
       api_synchronize = (\<lambda>stream d. (ACL_SUCCESS, d)), api_currentStream = (\<lambda>d. ((ACL_SUCCESS, 7), d)),
       api_getDevice = (\<lambda>d. ((ACL_SUCCESS, 0), d))\<rparr>,
     la_h2d = (\<lambda>p n bs d. (ACL_SUCCESS, mem_write d p bs)),
     la_d2h = (\<lambda>n p k d. if k \<le> n then ((ACL_SUCCESS, mem_read d p (unat k)), d) else ((1, []), d)),
     la_memset = (\<lambda>p n v k d. (ACL_SUCCESS, mem_write d p (replicate (unat k) v)))\<rparr>"

definition demo_hosts :: launch_env where
  "demo_hosts = \<lparr>le_deviceType = ASCEND_910B1,
     le_hostMems = [\<lparr>hm_addr = 0x100, hm_size = 32\<rparr>, \<lparr>hm_addr = 0x200, hm_size = 64\<rparr>], le_argsSize = 16\<rparr>"

lemma demo_copies_spec: "copy_spec demo_copies id" "copies_work demo_copies"
  by (auto simp: copy_spec_def copies_work_def demo_copies_def ACL_SUCCESS_def split: if_splits)

lemma demo_blocks_ready: "\<not> gh_supportSimt h \<Longrightarrow> fst (init_blocks demo_copies env h bh js p d)"
  by (induction js arbitrary: p d)
    (simp_all add: init_block_def HostMallocH2D_def SimtBlockHeadsH2D_def demo_copies_def split: prod.splits)

lemma demo_head_simd: "\<not> gh_supportSimt (demo_head 0)"
  by (simp add: demo_head_def AssignMemSize_def launch_head_def RecordLayout.demo_launch_def SupportSimt_def IsC310Arch_def Let_def)

lemma demo_init_runs:
  obtains m' d' where "sanitizer_init demo_copies demo_hosts (RecordLayout.demo_launch ASCEND_910B1 0) (init_dev_mem_manager, \<lambda>_. 0) = (0x10000, (m', d'))"
proof -
  have dim: "CheckBlockDimValid (li_blockDim (RecordLayout.demo_launch ASCEND_910B1 0))" by (simp add: CheckBlockDimValid_def RecordLayout.demo_launch_def)
  have m: "fst (fst (MallocMemory (la_acl demo_copies) False n (init_dev_mem_manager, \<lambda>_. 0))) = ACL_SUCCESS"
    "snd (fst (MallocMemory (la_acl demo_copies) False n (init_dev_mem_manager, \<lambda>_. 0))) = Some 0x10000" for n
    by (simp_all add: MallocMemory_def demo_copies_def init_dev_mem_manager_def dm_Free_def ACL_SUCCESS_def)
  have h: "la_h2d demo_copies p n bs d = (ACL_SUCCESS, mem_write d p bs)" for p n bs d by (simp add: demo_copies_def)
  have heads: "fst (BlockHeadsH2D demo_copies demo_hosts n (demo_head 0) p d)" for n p d
    by (simp add: BlockHeadsH2D_def h demo_blocks_ready demo_head_simd)
  obtain m1 d1 where a: "MallocMemory (la_acl demo_copies) False (record_buffer_size (demo_head 0)) (init_dev_mem_manager, \<lambda>_. 0) =
      ((ACL_SUCCESS, Some 0x10000), (m1, d1))"
    using m [of "record_buffer_size (demo_head 0)"] by (metis prod.collapse)
  obtain d2 where b: "BlockHeadsH2D demo_copies demo_hosts (li_hostMemoryNum (RecordLayout.demo_launch ASCEND_910B1 0)) (demo_head 0) 0x10000 d1 =
      (True, d2)"
    using heads by (metis prod.collapse)
  have s: "\<not> dm_skip init_dev_mem_manager" by (simp add: init_dev_mem_manager_def)
  show thesis by (rule that) (simp add: sanitizer_init_def dim Init_Process_def demo_head_assigned s a b)
qed

lemma buffer_laid_out_witness:
  "\<exists>m' d'. sanitizer_init demo_copies demo_hosts (RecordLayout.demo_launch ASCEND_910B1 0) (init_dev_mem_manager, \<lambda>_. 0) = (0x10000, (m', d')) \<and>
     mem_read d' 0x10000 38528 = GlobalHead_bytes (demo_head 0)"
proof -
  obtain m' d' where r: "sanitizer_init demo_copies demo_hosts (RecordLayout.demo_launch ASCEND_910B1 0) (init_dev_mem_manager, \<lambda>_. 0) = (0x10000, (m', d'))"
    by (rule demo_init_runs)
  have "mem_read (id d') 0x10000 (unat global_head_size) = GlobalHead_bytes (demo_head 0)"
    using buffer_laid_out [OF demo_copies_spec(1) r _ _ demo_head_assigned demo_head_fits]
    by (simp add: init_dev_mem_manager_def RecordLayout.demo_launch_def demo_hosts_def)
  with r show ?thesis by (simp add: global_head_size_def)
qed

text \<open>A device memory with the buffer of a launch whose first block has records, and a host that expects its reply.\<close>

definition demo_records_head :: RecordBlockHead where
  "demo_records_head = new_RecordBlockHead\<lparr>bh_recordCount := 3, bh_recordWriteCount := 3, bh_offset := 192, bh_writeOffset := 192\<rparr>"

definition demo_buffer :: "ptr \<Rightarrow> u8" where
  "demo_buffer = mem_write (mem_write (\<lambda>_. 0) (0x10000 + word_of_nat 0) (GlobalHead_bytes (demo_head 0)))
     (0x10000 + word_of_nat 38528) (BlockHead_bytes demo_records_head)"

definition demo_back :: finalize_env where
  "demo_back = \<lparr>fe_deviceType = ASCEND_910B1, fe_hostAddr = 0x4000, fe_blockSize = finalize_size 100, fe_deviceId = 0, fe_reply = []\<rparr>"

definition demo_after :: "(ptr \<Rightarrow> u8) hook_state" where
  "demo_after = \<lparr>hs_layers = [], hs_mem = init_memory_manage, hs_ctx = \<lparr>mc_sections = [], mc_stream = 0\<rparr>, hs_sent = [],
     hs_dev = demo_buffer\<rparr>"

lemma demo_registers: "length (gh_registers (demo_head 0)) = 38400" "length (GlobalHead_bytes (demo_head 0)) = 38528"
proof -
  show r: "length (gh_registers (demo_head 0)) = 38400" using assigned_registers [OF demo_head_assigned] by (simp add: RecordLayout.demo_launch_def)
  show "length (GlobalHead_bytes (demo_head 0)) = 38528"
    using length_GlobalHead_bytes [of "demo_head 0"] r by (simp add: global_head_size_def)
qed

lemma demo_buffer_at:
  assumes "y < 2 ^ 64"
  shows "from_base demo_buffer 0x10000 y = (if y < 38528 then GlobalHead_bytes (demo_head 0) ! y
     else if y < 38528 + 128 then BlockHead_bytes demo_records_head ! (y - 38528) else 0)"
  unfolding demo_buffer_def using assms
  by (subst from_base_write, simp add: length_BlockHead_bytes, simp, subst from_base_write)
    (auto simp: length_BlockHead_bytes demo_registers from_base_def)

lemma demo_buffer_head: "mem_read demo_buffer 0x10000 38528 = GlobalHead_bytes (demo_head 0)"
proof -
  have "map (from_base demo_buffer 0x10000) [0..<38528] = GlobalHead_bytes (demo_head 0)"
    by (rule nth_equalityI) (simp_all add: demo_registers demo_buffer_at)
  then show ?thesis using mem_read_from_base [where m = demo_buffer and base = "0x10000" and off = 0 and n = 38528] by simp
qed

lemma demo_block_room: "38528 + 128 \<le> block_pos ASCEND_910B1 (demo_head 0) (Suc i)"
proof -
  have "block_room demo_hosts (demo_head 0) 0"
    by (rule assigned_room [OF demo_head_assigned demo_head_fits]) (simp_all add: RecordLayout.demo_launch_def demo_hosts_def)
  then have "128 \<le> unat (GetBlockSize ASCEND_910B1 (demo_head 0) 0)" by (simp add: block_room_def demo_hosts_def Let_def)
  then have "38528 + 128 \<le> block_pos ASCEND_910B1 (demo_head 0) (Suc 0)" by (simp add: block_pos_Suc) (simp add: block_pos_def global_head_size_def)
  also have "\<dots> \<le> block_pos ASCEND_910B1 (demo_head 0) (Suc i)" by (rule block_pos_mono) simp
  finally show ?thesis .
qed

lemma demo_records_heads:
  assumes "i < 100"
  shows "head_on_device demo_buffer ASCEND_910B1 (demo_head 0) 0x10000 i = (if i = 0 then demo_records_head else BlockHead_of (replicate 128 0))"
proof -
  let ?p = "block_pos ASCEND_910B1 (demo_head 0) i"
  have small: "?p + 128 \<le> 2 ^ 64" using block_pos_small [of ASCEND_910B1 "demo_head 0" i] assms by simp
  have m: "mem_read demo_buffer (0x10000 + word_of_nat ?p) 128 = map (from_base demo_buffer 0x10000) [?p..<?p + 128]"
    by (rule mem_read_from_base)
  show ?thesis
  proof (cases i)
    case 0
    then have p: "?p = 38528" by (simp add: block_pos_def global_head_size_def)
    have "map (from_base demo_buffer 0x10000) [?p..<?p + 128] = BlockHead_bytes demo_records_head @ []"
      by (rule nth_equalityI) (simp_all add: p demo_buffer_at length_BlockHead_bytes del: upt_rec_numeral)
    then show ?thesis using 0 unfolding head_on_device_def m by (simp only: BlockHead_roundtrip) simp
  next
    case (Suc j)
    have "map (from_base demo_buffer 0x10000) [?p..<?p + 128] = replicate 128 0"
      using demo_block_room [of j] small by (intro nth_equalityI) (auto simp: demo_buffer_at Suc)
    then show ?thesis using Suc unfolding head_on_device_def m by (simp only:) simp
  qed
qed

lemma demo_head_cache: "cp_cacheSize (gh_checkParms (demo_head 0)) = 100"
  using assigned_head(1) [OF demo_head_assigned] by (simp add: RecordLayout.demo_launch_def)

lemma le_val_zeros: "le_val (replicate k 0) = 0"
  by (induction k) simp_all

lemma demo_counters: "i < 100 \<Longrightarrow> counters_sound demo_buffer ASCEND_910B1 (demo_head 0) 0x10000 i"
  by (simp add: counters_sound_def demo_records_heads Let_def)
    (simp add: demo_head_cache demo_records_head_def no_records_def new_RecordBlockHead_def BlockHead_of_def field_def le_val_zeros)

lemma finalize_sends_blocks_witness:
  "\<exists>d'. Finalize_Process demo_copies demo_back 0x10000 (replicate (unat (finalize_size 100)) 0) True ([], demo_after) =
     Some (replicate 38400 0, dev_to d' (send_blocks demo_back demo_buffer (demo_head 0) 0x10000 demo_after))"
proof -
  have n: "unat (ki_totalBlockDim (gh_kernelInfo (demo_head 0))) < 100"
    using assigned_head(5) [OF demo_head_assigned] by (simp add: RecordLayout.demo_launch_def split: if_splits)
  have h: "mem_read (id (hs_dev demo_after)) 0x10000 38528 = GlobalHead_bytes (demo_head 0)" by (simp add: demo_after_def demo_buffer_head)
  have sz: "fe_blockSize demo_back = finalize_size (cp_cacheSize (gh_checkParms (demo_head 0)))" by (simp add: demo_back_def demo_head_cache)
  have len: "length (replicate (unat (finalize_size 100)) (0 :: u8)) = unat (fe_blockSize demo_back)" by (simp add: demo_back_def)
  have c: "\<forall>i < unat (ki_totalBlockDim (gh_kernelInfo (demo_head 0))).
      counters_sound (id (hs_dev demo_after)) (fe_deviceType demo_back) (demo_head 0) 0x10000 i"
    using n by (auto simp: demo_after_def demo_back_def intro!: demo_counters)
  have r: "gh_registers (demo_head 0) = replicate 38400 0" using assigned_registers [OF demo_head_assigned] by (simp add: RecordLayout.demo_launch_def)
  from finalize_sends_blocks [where registers = "[]" and mem = id and s = demo_after, OF demo_copies_spec demo_head_simd h demo_registers(1) sz len c]
  show ?thesis by (auto simp: demo_after_def r)
qed

text \<open>The same launch when no copy to the device succeeds.\<close>

definition demo_refusing :: "((ptr \<Rightarrow> u8 list option) \<times> ptr) launch_api" where
  "demo_refusing = \<lparr>la_acl = mini_api, la_h2d = (\<lambda>p n bs d. (1, d)), la_d2h = (\<lambda>n p k d. ((1, []), d)), la_memset = (\<lambda>p n v k d. (1, d))\<rparr>"

lemma failed_init_keeps_nothing_witness:
  "\<exists>m' d'. sanitizer_init demo_refusing demo_hosts (RecordLayout.demo_launch ASCEND_910B1 0) (init_dev_mem_manager, mini_dev) = (0, (m', d')) \<and>
     dm_memPtr m' = 0 \<and> dm_ok fst m' d' \<and> fst d' 16 \<noteq> None"
proof -
  have dim: "CheckBlockDimValid (li_blockDim (RecordLayout.demo_launch ASCEND_910B1 0))" by (simp add: CheckBlockDimValid_def RecordLayout.demo_launch_def)
  have heads: "fst (BlockHeadsH2D demo_refusing demo_hosts n h p d) = False" for n h p d
    by (simp add: BlockHeadsH2D_def demo_refusing_def ACL_SUCCESS_def)
  obtain e out m1 d1 where a: "MallocMemory (la_acl demo_refusing) False (record_buffer_size (demo_head 0)) (init_dev_mem_manager, mini_dev) =
      ((e, out), (m1, d1))"
    by (metis prod.exhaust)
  obtain d2 where b: "BlockHeadsH2D demo_refusing demo_hosts (li_hostMemoryNum (RecordLayout.demo_launch ASCEND_910B1 0)) (demo_head 0) (the out) d1 =
      (False, d2)"
    using heads by (metis prod.collapse)
  have s: "\<not> dm_skip init_dev_mem_manager" by (simp add: init_dev_mem_manager_def)
  have "fst (sanitizer_init demo_refusing demo_hosts (RecordLayout.demo_launch ASCEND_910B1 0) (init_dev_mem_manager, mini_dev)) = 0"
    by (simp add: sanitizer_init_def dim Init_Process_def demo_head_assigned s a b Let_def)
  then obtain m' d' where r: "sanitizer_init demo_refusing demo_hosts (RecordLayout.demo_launch ASCEND_910B1 0) (init_dev_mem_manager, mini_dev) = (0, (m', d'))"
    by (metis prod.collapse)
  have api: "acl_spec (la_acl demo_refusing) fst" using mini_api_spec by (simp add: demo_refusing_def)
  have dev: "\<forall>e x. fst (api_getDevice (la_acl demo_refusing) x) = (ACL_SUCCESS, e) \<longrightarrow> 0 \<le> e" by (simp add: demo_refusing_def mini_api_def)
  have keep: "transfers_keep demo_refusing fst" by (simp add: transfers_keep_def demo_refusing_def)
  have ok: "dm_ok fst init_dev_mem_manager mini_dev" by (rule dm_ok_init) (simp add: mini_dev_def)
  note f = failed_init_keeps_nothing [OF api dev keep ok r]
  have p: "dm_memPtr m' = 0" using f by (auto simp: init_dev_mem_manager_def)
  then have "sizes fst d' 16 = sizes fst mini_dev 16" using f by (simp add: init_dev_mem_manager_def)
  then have "fst d' 16 \<noteq> None" by (auto simp: sizes_def mini_dev_def)
  with r p f show ?thesis by blast
qed

end
