(* ===== verification/Instrumentation.thy ===== *)
theory Instrumentation
  imports KernelEvents "HOL-Library.AList"
begin

text \<open>
  Instrumented kernels: the conversions of \<open>csrc/core/BinaryInstrumentation.cpp\<close>, the tasks and their pool in
  \<open>csrc/runtime/inject_helpers/DBITask.{h,cpp}\<close>, the choice of kernels in \<open>KernelMatcher\<close>, the architecture names of
  \<open>InstrReport.cpp\<close>, and the replacement and dumping of kernels in \<open>KernelReplacement.{h,cpp}\<close>. The programs a conversion
  runs, the plugin and the calls that register a binary are functions on the file system and the runtime; \<open>None\<close> on the
  outside of a result is an access the code does not guard.
\<close>

section \<open>Which kernels\<close>

text \<open>\<open>None\<close> stands for \<open>UINT64_MAX\<close>.\<close>

record match_config =
  km_launchId :: "nat option"
  km_regId :: "nat option"
  km_kernelName :: string

definition IsMatchAll :: "match_config \<Rightarrow> bool" where
  "IsMatchAll c \<longleftrightarrow> km_launchId c = None \<and> km_kernelName c = [] \<and> km_regId c = None"

definition Match :: "match_config \<Rightarrow> nat option \<Rightarrow> string \<Rightarrow> bool" where
  "Match c launchId kernelName =
     (if IsMatchAll c then True
      else if km_launchId c \<noteq> None then km_launchId c = launchId
      else if km_kernelName c \<noteq> [] then str_contains kernelName (km_kernelName c)
      else False)"

text \<open>A configuration with nothing but a register number is accepted and matches nothing.\<close>

lemma only_register_matches_nothing:
  "km_launchId c = None \<Longrightarrow> km_kernelName c = [] \<Longrightarrow> km_regId c \<noteq> None \<Longrightarrow> \<not> Match c launchId kernelName"
  by (simp add: Match_def IsMatchAll_def)

section \<open>The kind of a kernel\<close>

definition GetArchName :: "KernelType \<Rightarrow> string \<Rightarrow> string" where
  "GetArchName kernelType soc =
     (if str_contains soc ''Ascend910B'' \<or> str_contains soc ''Ascend910_93''
      then (case kernelType of AIVEC \<Rightarrow> ''dav-c220-vec'' | AICUBE \<Rightarrow> ''dav-c220-cube'' | MIX \<Rightarrow> ''dav-c220'' | _ \<Rightarrow> '''')
      else if str_contains soc ''Ascend310P''
      then (case kernelType of AIVEC \<Rightarrow> ''dav-m200-vec'' | MIX \<Rightarrow> ''dav-m200'' | _ \<Rightarrow> '''')
      else if str_contains soc ''Ascend950''
      then (case kernelType of AIVEC \<Rightarrow> ''dav-c310-vec'' | AICUBE \<Rightarrow> ''dav-c310-cube'' | MIX \<Rightarrow> ''dav-c310'' | _ \<Rightarrow> '''')
      else '''')"

definition GetTargetArchName :: "func_api \<Rightarrow> string \<Rightarrow> func_context \<Rightarrow> string" where
  "GetTargetArchName api soc f = GetArchName (GetKernelType api f) soc"

text \<open>The search stops when both kernels are found, which changes nothing.\<close>

definition GetKernelType_event :: "RegisterEvent \<Rightarrow> LaunchEvent \<Rightarrow> KernelType" where
  "GetKernelType_event reg ev =
     (let kernelType = MagicToKernelType (db_magic (ev_bin reg)) in
      if kernelType \<noteq> MIX then kernelType
      else let name = RemoveSuffix (le_kernelName ev) [MIX_AIC_TAIL, MIX_AIV_TAIL]; names = map fst (ev_symbols reg)
        in if name @ MIX_AIV_TAIL \<notin> set names then AICUBE
           else if name @ MIX_AIC_TAIL \<notin> set names then AIVEC else MIX)"

definition GetCurrentKernelType :: "kernel_context \<Rightarrow> kernel_device \<Rightarrow> KernelType" where
  "GetCurrentKernelType k d =
     (let launchId = GetLaunchId d in
      case (GetRegisterEvent k (GetRegisterId_launch k d launchId), GetLaunchEvent d launchId) of
        (Some reg, Some ev) \<Rightarrow> GetKernelType_event reg ev
      | _ \<Rightarrow> AICPU)"

definition GetCurrentArchName :: "kernel_context \<Rightarrow> kernel_device \<Rightarrow> string \<Rightarrow> string" where
  "GetCurrentArchName k d soc = GetArchName (GetCurrentKernelType k d) soc"

section \<open>Surroundings\<close>

text \<open>
  Running a program gives whether it ended well and what it wrote; a plugin is loaded, looked up and called with the path
  of the file it is to write.
\<close>

record 'f dbi_env =
  de_kernel :: "'f kernel_env"
  de_func :: func_api
  de_exec :: "string list \<Rightarrow> 'f \<Rightarrow> (bool \<times> string) \<times> 'f"
  de_dlopen :: "string \<Rightarrow> ptr option"
  de_dlsym :: "ptr \<Rightarrow> string \<Rightarrow> bool"
  de_plugin :: "ptr \<Rightarrow> string \<Rightarrow> 'f \<Rightarrow> 'f"
  de_symlink :: "string \<Rightarrow> string \<Rightarrow> 'f \<Rightarrow> 'f"
  de_removeAll :: "string \<Rightarrow> 'f \<Rightarrow> 'f"

abbreviation dreg :: "'f dbi_env \<Rightarrow> 'f reg_env" where
  "dreg env \<equiv> kreg (de_kernel env)"

abbreviation dos :: "'f dbi_env \<Rightarrow> 'f os" where
  "dos env \<equiv> re_os (dreg env)"

text \<open>What the program writes is appended to what stands in the buffer.\<close>

definition PipeCall :: "'f dbi_env \<Rightarrow> string list \<Rightarrow> string \<Rightarrow> 'f \<Rightarrow> (bool \<times> string) \<times> 'f" where
  "PipeCall env cmd buf fs = (let ((ok, out), fs1) = de_exec env cmd fs in ((ok, buf @ out), fs1))"

section \<open>Conversions\<close>

datatype BIType = CUSTOMIZE | BB_COUNT | PGO | BI_MAX

fun BI_TYPE_NAME :: "BIType \<Rightarrow> string" where
  "BI_TYPE_NAME CUSTOMIZE = ''customize''"
| "BI_TYPE_NAME BB_COUNT = ''bbcount''"
| "BI_TYPE_NAME PGO = ''pgo''"
| "BI_TYPE_NAME BI_MAX = []"

record bi_config =
  bc_pluginPath :: string
  bc_archName :: string
  bc_tmpDir :: string
  bc_argSize :: u32
  bc_extraArgs :: "string list"

record dbi =
  bi_type :: BIType
  bi_config :: bi_config
  bi_handle :: "ptr option"
  bi_init :: bool

definition dbi_Create :: "BIType \<Rightarrow> dbi option" where
  "dbi_Create t =
     (if t = BI_MAX then None
      else Some \<lparr>bi_type = t, bi_config = \<lparr>bc_pluginPath = [], bc_archName = [], bc_tmpDir = [], bc_argSize = 0, bc_extraArgs = []\<rparr>,
                  bi_handle = None, bi_init = False\<rparr>)"

definition ParseFirstSymbol :: "string \<Rightarrow> string \<Rightarrow> string option" where
  "ParseFirstSymbol txt property =
     map_option (\<lambda>w. w ! 5)
       (find (\<lambda>w. length w > 5 \<and> w ! 1 = property \<and> w ! 2 = ''F'' \<and> w ! 3 = ''.text'')
          (map words_of (SplitString txt (CHR 0x0A))))"

text \<open>A program whose result is a new file.\<close>

definition run_tool :: "'f dbi_env \<Rightarrow> string list \<Rightarrow> string \<Rightarrow> 'f \<Rightarrow> bool \<times> 'f" where
  "run_tool env args newFile fs =
     (let ((ok, out), fs1) = PipeCall env args [] fs in
      if \<not> ok then (False, fs1) else os_chmod (dos env) newFile SAVE_DATA_FILE_AUTHORITY fs1)"

definition key_arg :: "string \<Rightarrow> string list" where
  "key_arg tilingKey = (if tilingKey \<noteq> [] then [''--tiling-key='' @ tilingKey] else [])"

definition size_arg :: "bi_config \<Rightarrow> string" where
  "size_arg c = ''--tune-argsize='' @ to_string (unat (bc_argSize c))"

definition BBCountDBI_Convert :: "'f dbi_env \<Rightarrow> bi_config \<Rightarrow> string \<Rightarrow> string \<Rightarrow> string \<Rightarrow> 'f \<Rightarrow> bool \<times> 'f" where
  "BBCountDBI_Convert env c newKernelFile oldKernelFile tilingKey fs =
     (let args = (if str_contains (bc_archName c) ''dav-c310''
          then [''bisheng-tune'', ''--action=instru-probe'', ''--tune-bbbend-offset'', ''--instru-bbprobe'', size_arg c,
                oldKernelFile, ''-o'', newKernelFile]
          else [''bisheng-tune'', ''--action=block-count-instr'', ''--tune-bbbend-offset'', size_arg c,
                oldKernelFile, ''-o'', newKernelFile])
      in run_tool env (args @ key_arg tilingKey) newKernelFile fs)"

definition PGODBI_Convert :: "'f dbi_env \<Rightarrow> bi_config \<Rightarrow> string \<Rightarrow> string \<Rightarrow> string \<Rightarrow> 'f \<Rightarrow> bool \<times> 'f" where
  "PGODBI_Convert env c newKernelFile oldKernelFile tilingKey fs =
     run_tool env ([''bisheng-tune'', ''--action=block-count-instr'', size_arg c, oldKernelFile, ''-o='' @ newKernelFile] @
       key_arg tilingKey) newKernelFile fs"

definition GenerateTempProbe :: "'f dbi_env \<Rightarrow> bi_config \<Rightarrow> string \<Rightarrow> 'f \<Rightarrow> bool \<times> 'f" where
  "GenerateTempProbe env c probeFile fs =
     run_tool env [''llvm-objcopy'', ''-j'', ''.'' @ bc_archName c, ''-O'', ''binary'', bc_pluginPath c, probeFile] probeFile fs"

text \<open>The second program writes behind the output of the first.\<close>

definition GenerateOrderingFile :: "'f dbi_env \<Rightarrow> string \<Rightarrow> string \<Rightarrow> string \<Rightarrow> 'f \<Rightarrow> bool \<times> 'f" where
  "GenerateOrderingFile env kernelFile probeFile orderingFile fs =
     (let ((ok, output), fs1) = PipeCall env [''llvm-objdump'', ''--syms'', kernelFile] [] fs in
      if \<not> ok then (False, fs1)
      else case ParseFirstSymbol output ''g'' of
        None \<Rightarrow> (False, fs1)
      | Some kernelSymbol \<Rightarrow>
          let ((ok1, output1), fs2) = PipeCall env [''llvm-objdump'', ''--syms'', probeFile] output fs1 in
          if \<not> ok1 then (False, fs2)
          else case ParseFirstSymbol output1 ''w'' of
            None \<Rightarrow> (False, fs2)
          | Some probeSymbol \<Rightarrow>
              let (written, fs3) = WriteBinary (dos env) orderingFile (bytes_of_str (kernelSymbol @ [CHR 0x0A] @ probeSymbol)) fs2
              in (written \<noteq> 0, fs3))"

definition GenerateKernelWithProbe :: "'f dbi_env \<Rightarrow> string \<Rightarrow> string \<Rightarrow> string \<Rightarrow> string \<Rightarrow> 'f \<Rightarrow> bool \<times> 'f" where
  "GenerateKernelWithProbe env kernelFile probeFile orderingFile kernelWithProbeFile fs =
     run_tool env [''ld.lld'', ''-m'', ''aicorelinux'', ''-Ttext=0'', ''-execute-probe'', ''--symbol-ordering-file'', orderingFile,
       ''-z'', ''separate-loadable-segments'', probeFile, kernelFile, ''-static'', ''-q'', ''-o'', kernelWithProbeFile]
       kernelWithProbeFile fs"

definition CustomDBI_Convert :: "'f dbi_env \<Rightarrow> dbi \<Rightarrow> string \<Rightarrow> string \<Rightarrow> string \<Rightarrow> 'f \<Rightarrow> bool \<times> 'f" where
  "CustomDBI_Convert env b newKernelFile oldKernelFile tilingKey fs =
     (let c = bi_config b; at_tmp = (\<lambda>name. JoinPath [bc_tmpDir c, name]);
          probe = at_tmp ''probe.o''; ctrl = at_tmp ''ctrl.bin''; ordering = at_tmp ''symbol_ordering.txt'';
          kernelWithProbe = at_tmp ''old_kernel_with_probe.o''
      in if \<not> bi_init b \<or> bc_archName c = [] then (False, fs)
         else let (ok1, fs1) = GenerateTempProbe env c probe fs in
           if \<not> ok1 then (False, fs1)
           else let (ok2, fs2) = GenerateOrderingFile env oldKernelFile probe ordering fs1 in
             if \<not> ok2 then (False, fs2)
             else let (ok3, fs3) = GenerateKernelWithProbe env oldKernelFile probe ordering kernelWithProbe fs2 in
               if \<not> ok3 then (False, fs3)
               else let fs4 = de_plugin env (the (bi_handle b)) ctrl fs3;
                        (ok5, fs5) = os_chmod (dos env) ctrl SAVE_DATA_FILE_AUTHORITY fs4
                 in if \<not> ok5 then (False, fs5)
                    else run_tool env ([''bisheng-tune'', ''--action=instru-probe'', size_arg c, ''--instru-memprobe'',
                        kernelWithProbe, ''--dbi-config='' @ ctrl, ''-o='' @ newKernelFile] @ bc_extraArgs c @ key_arg tilingKey)
                        newKernelFile fs5)"

text \<open>The handle of a plugin opened before is not closed.\<close>

definition CustomDBI_SetConfig :: "'f dbi_env \<Rightarrow> bi_config \<Rightarrow> dbi \<Rightarrow> bool \<times> dbi" where
  "CustomDBI_SetConfig env c b =
     (let b1 = b\<lparr>bi_config := c\<rparr> in
      if bc_pluginPath c = [] \<or> bc_archName c = [] then (False, b1)
      else case de_dlopen env (bc_pluginPath c) of
        None \<Rightarrow> (False, b1\<lparr>bi_handle := None\<rparr>)
      | Some h \<Rightarrow> let found = de_dlsym env h ''MSBitStart'' in (found, b1\<lparr>bi_handle := Some h, bi_init := found\<rparr>))"

definition dbi_SetConfig :: "'f dbi_env \<Rightarrow> bi_config \<Rightarrow> dbi \<Rightarrow> bool \<times> dbi" where
  "dbi_SetConfig env c b = (if bi_type b = CUSTOMIZE then CustomDBI_SetConfig env c b else (True, b\<lparr>bi_config := c\<rparr>))"

definition dbi_Convert :: "'f dbi_env \<Rightarrow> dbi \<Rightarrow> string \<Rightarrow> string \<Rightarrow> string \<Rightarrow> 'f \<Rightarrow> bool \<times> 'f" where
  "dbi_Convert env b newKernelFile oldKernelFile tilingKey fs =
     (case bi_type b of
        CUSTOMIZE \<Rightarrow> CustomDBI_Convert env b newKernelFile oldKernelFile tilingKey fs
      | BB_COUNT \<Rightarrow> BBCountDBI_Convert env (bi_config b) newKernelFile oldKernelFile tilingKey fs
      | _ \<Rightarrow> PGODBI_Convert env (bi_config b) newKernelFile oldKernelFile tilingKey fs)"

section \<open>What is instrumented\<close>

record dbi_task_config =
  tc_enabled :: bool
  tc_matcher :: "match_config option"
  tc_pluginPath :: string
  tc_type :: BIType
  tc_extraArgs :: "string list"
  tc_tmpRootDir :: string
  tc_argsSize :: u32
  tc_keep :: bool

definition new_dbi_task_config :: "bool \<Rightarrow> dbi_task_config" where
  "new_dbi_task_config debugging =
     \<lparr>tc_enabled = False, tc_matcher = None, tc_pluginPath = [], tc_type = BI_MAX, tc_extraArgs = [], tc_tmpRootDir = [],
      tc_argsSize = 0, tc_keep = debugging\<rparr>"

text \<open>\<open>stamp\<close> is the process number and the time.\<close>

definition SetTmpRootDir :: "string \<Rightarrow> string \<Rightarrow> dbi_task_config \<Rightarrow> dbi_task_config" where
  "SetTmpRootDir stamp path c =
     (if tc_tmpRootDir c \<noteq> [] then c
      else c\<lparr>tc_tmpRootDir := (if path = [] then ''./tmp_'' @ stamp else path @ ''/tmp_'' @ stamp)\<rparr>)"

definition config_Init ::
  "string \<Rightarrow> BIType \<Rightarrow> string \<Rightarrow> match_config \<Rightarrow> string \<Rightarrow> string list \<Rightarrow> dbi_task_config \<Rightarrow> dbi_task_config" where
  "config_Init stamp type pluginPath m tmpPath extraArgs c =
     SetTmpRootDir stamp tmpPath (c\<lparr>tc_enabled := True, tc_pluginPath := pluginPath, tc_type := type, tc_matcher := Some m,
       tc_extraArgs := extraArgs\<rparr>)"

definition config_Init_matcher ::
  "string \<Rightarrow> BIType \<Rightarrow> match_config option \<Rightarrow> string \<Rightarrow> dbi_task_config \<Rightarrow> dbi_task_config" where
  "config_Init_matcher stamp type m tmpPath c =
     SetTmpRootDir stamp tmpPath (c\<lparr>tc_enabled := True, tc_pluginPath := [], tc_type := type, tc_matcher := m\<rparr>)"

definition IsEnabled :: "dbi_task_config \<Rightarrow> nat option \<Rightarrow> string \<Rightarrow> bool" where
  "IsEnabled c launchId kernelName =
     (if \<not> tc_enabled c then False
      else case tc_matcher c of None \<Rightarrow> False | Some m \<Rightarrow> Match m launchId kernelName)"

definition GetOutputDir :: "dbi_task_config \<Rightarrow> nat \<Rightarrow> string" where
  "GetOutputDir c launchId =
     JoinPath [tc_tmpRootDir c, ''launch_'' @ to_string launchId @ ''_'' @ BI_TYPE_NAME (tc_type c) @ ''_'' @
       ExtractObjName (tc_pluginPath c) ''plugin_'' ''.so'']"

definition IsPlatformSupportDBI :: "string \<Rightarrow> bool" where
  "IsPlatformSupportDBI soc \<longleftrightarrow>
     str_contains soc ''Ascend910B'' \<or> str_contains soc ''Ascend910_93'' \<or> str_contains soc ''Ascend950''"

section \<open>Replacing a binary of the runtime's own interface\<close>

text \<open>Registering with or without functions to follow, releasing, registering a function, and launching a callback.\<close>

record 'l register_api =
  ra_register :: "bool \<Rightarrow> rtDevBinary \<Rightarrow> 'l \<Rightarrow> ptr option \<times> 'l"
  ra_unregister :: "ptr \<Rightarrow> 'l \<Rightarrow> 'l"
  ra_functionRegister :: "ptr \<Rightarrow> ptr \<Rightarrow> string \<Rightarrow> string \<Rightarrow> u32 \<Rightarrow> 'l \<Rightarrow> bool \<times> 'l"
  ra_callback :: "nat option \<times> bool \<Rightarrow> ptr \<Rightarrow> 'l \<Rightarrow> bool \<times> 'l"

record replace_task =
  rt_kernelPath :: string
  rt_bin :: "rtDevBinary option"
  rt_handle :: ptr

definition new_replace_task :: "string \<Rightarrow> replace_task" where
  "new_replace_task path = \<lparr>rt_kernelPath = path, rt_bin = None, rt_handle = 0\<rparr>"

definition replace_destroy :: "'l register_api \<Rightarrow> replace_task option \<Rightarrow> 'l \<Rightarrow> 'l" where
  "replace_destroy api t l =
     (case t of None \<Rightarrow> l | Some t \<Rightarrow> if rt_handle t \<noteq> 0 then ra_unregister api (rt_handle t) l else l)"

definition replace_Run ::
  "'f dbi_env \<Rightarrow> 'l register_api \<Rightarrow> kernel_context \<Rightarrow> nat option \<Rightarrow> bool \<Rightarrow> replace_task \<Rightarrow> 'f \<Rightarrow> 'l \<Rightarrow>
   ptr option \<times> replace_task \<times> 'l" where
  "replace_Run env api k regId withStubFunc t fs l =
     (case GetRegisterEvent k regId of
        None \<Rightarrow> (None, t, l)
      | Some e \<Rightarrow>
          let (n, bs) = ReadBinary (dos env) (rt_kernelPath t) fs in
          if n = 0 then (None, t, l)
          else let bin = (ev_bin e)\<lparr>db_data := bs\<rparr>; (h, l1) = ra_register api withStubFunc bin l
            in case h of
                 None \<Rightarrow> (None, t\<lparr>rt_bin := Some bin\<rparr>, l1)
               | Some p \<Rightarrow> (Some p, t\<lparr>rt_bin := Some bin, rt_handle := p\<rparr>, l1))"

record replacement =
  rl_oldKernelRegId :: "nat option"
  rl_kernelPath :: string
  rl_matcher :: "match_config option"
  rl_task :: "replace_task option"

text \<open>The handle is what \<open>*handle\<close> is set to, \<open>None\<close> when it is left alone. \<open>valid\<close> says that the pointer to it is not null.\<close>

definition CreateHandle ::
  "'f dbi_env \<Rightarrow> 'l register_api \<Rightarrow> kernel_context \<Rightarrow> bool \<Rightarrow> nat option \<Rightarrow> 'f \<Rightarrow> replacement \<times> 'l \<Rightarrow>
   (bool \<times> ptr option) \<times> (replacement \<times> 'l)" where
  "CreateHandle env api k valid launchId fs st =
     (let (r, l) = st; d = GetDeviceContext (de_kernel env) k in
      if \<not> valid \<or> rl_kernelPath r = [] \<or> rl_matcher r = None then ((False, None), st)
      else if \<not> Match (the (rl_matcher r)) launchId (GetLaunchName d None) then ((False, None), st)
      else let regId = GetRegisterId_launch k d launchId in
        if regId = None then ((False, None), st)
        else if rl_oldKernelRegId r \<noteq> None
        then (if rl_oldKernelRegId r \<noteq> regId \<or> rl_task r = None then ((False, None), st)
              else ((True, Some (rt_handle (the (rl_task r)))), st))
        else let l1 = replace_destroy api (rl_task r) l;
                 (h, t, l2) = replace_Run env api k regId False (new_replace_task (rl_kernelPath r)) fs l1
          in if h \<noteq> None then ((True, h), (r\<lparr>rl_task := Some t, rl_oldKernelRegId := regId\<rparr>, l2))
             else ((True, None), (r\<lparr>rl_task := None\<rparr>, replace_destroy api (Some t) l2)))"

definition ReleaseHandle ::
  "'l register_api \<Rightarrow> kernel_context \<Rightarrow> ptr \<Rightarrow> replacement \<times> 'l \<Rightarrow> bool \<times> (replacement \<times> 'l)" where
  "ReleaseHandle api k h st =
     (let (r, l) = st in
      if rl_task r = None then (False, st)
      else let regId = GetRegisterId k h True in
        if regId = None \<or> regId \<noteq> rl_oldKernelRegId r then (False, st)
        else (True, (r\<lparr>rl_task := None, rl_oldKernelRegId := None\<rparr>, replace_destroy api (rl_task r) l)))"

section \<open>Tasks\<close>

record dbi_task =
  dt_dbi :: "dbi option"
  dt_replace :: "replace_task option"
  dt_launchId :: nat
  dt_registered :: bool
  dt_funcCtx :: "func_context option"

definition new_dbi_task :: "BIType \<Rightarrow> dbi_task" where
  "new_dbi_task t = \<lparr>dt_dbi = dbi_Create t, dt_replace = None, dt_launchId = 0, dt_registered = False, dt_funcCtx = None\<rparr>"

definition NeedConvert :: "'f dbi_env \<Rightarrow> dbi_task_config \<Rightarrow> dbi_task \<Rightarrow> 'f \<Rightarrow> bool" where
  "NeedConvert env c t fs =
     (if dt_replace t = None \<and> dt_funcCtx t = None then True
      else if \<not> IsDir (dos env) (GetOutputDir c (dt_launchId t)) fs \<and> tc_keep c then True
      else False)"

text \<open>The output of the first conversion also goes by the name of this launch.\<close>

definition link_output :: "'f dbi_env \<Rightarrow> dbi_task_config \<Rightarrow> dbi_task \<Rightarrow> nat \<Rightarrow> 'f \<Rightarrow> 'f" where
  "link_output env c t launchId fs =
     (if tc_keep c then de_symlink env (GetOutputDir c (dt_launchId t)) (GetOutputDir c launchId) fs else fs)"

definition ReuseConverted :: "'f dbi_env \<Rightarrow> dbi_task_config \<Rightarrow> nat \<Rightarrow> dbi_task \<Rightarrow> 'f \<Rightarrow> bool \<times> 'f" where
  "ReuseConverted env c launchId t fs =
     (if NeedConvert env c t fs then (False, fs) else (True, link_output env c t launchId fs))"

definition task_Convert ::
  "'f dbi_env \<Rightarrow> bi_config \<Rightarrow> string \<Rightarrow> string \<Rightarrow> string \<Rightarrow> dbi_task \<Rightarrow> 'f \<Rightarrow> (bool \<times> dbi_task \<times> 'f) option" where
  "task_Convert env config oldKernelPath newKernelPath tilingKey t fs =
     (case dt_dbi t of
        None \<Rightarrow> None
      | Some b \<Rightarrow>
          let (ok, b1) = dbi_SetConfig env config b; t1 = t\<lparr>dt_dbi := Some b1\<rparr> in
          if \<not> ok then Some (False, t1, fs)
          else let (ok1, fs1) = dbi_Convert env b1 newKernelPath oldKernelPath tilingKey fs in Some (ok1, t1, fs1))"

definition old_kernel_name :: string where "old_kernel_name = ''tmp_old_kernel.o''"
definition new_kernel_name :: string where "new_kernel_name = ''tmp_new_kernel.o''"

definition conversion_config :: "dbi_task_config \<Rightarrow> string \<Rightarrow> string \<Rightarrow> bi_config" where
  "conversion_config c arch dir =
     \<lparr>bc_pluginPath = tc_pluginPath c, bc_archName = arch, bc_tmpDir = dir, bc_argSize = tc_argsSize c, bc_extraArgs = tc_extraArgs c\<rparr>"

text \<open>The directory goes at the end, whatever happened, unless it is to be kept.\<close>

definition drop_output :: "'f dbi_env \<Rightarrow> dbi_task_config \<Rightarrow> string \<Rightarrow> 'f \<Rightarrow> 'f" where
  "drop_output env c dir fs = (if tc_keep c then fs else de_removeAll env dir fs)"

definition instrument ::
  "'f dbi_env \<Rightarrow> 'l load_api \<Rightarrow> dbi_task_config \<Rightarrow> string \<Rightarrow> launch_context \<Rightarrow> dbi_task \<times> 'f \<times> 'l \<Rightarrow>
   (func_context option \<times> (dbi_task \<times> 'f \<times> 'l)) option" where
  "instrument env api c dir lc st =
     (let (t, fs, l) = st; f = lc_func lc; oldPath = JoinPath [dir, old_kernel_name]; newPath = JoinPath [dir, new_kernel_name] in
      case reg_Save (dreg env) oldPath (fn_reg f) fs of
        None \<Rightarrow> None
      | Some (saved, fs1) \<Rightarrow>
          if \<not> saved then Some (None, (t, fs1, l))
          else (case task_Convert env (conversion_config c (GetTargetArchName (de_func env) (re_soc (dreg env)) f) dir) oldPath newPath
              (case GetTilingKey f of None \<Rightarrow> [] | Some key \<Rightarrow> to_string (unat key)) t fs1 of
            None \<Rightarrow> None
          | Some (ok, t1, fs2) \<Rightarrow>
              if \<not> ok then Some (None, (t1, fs2, l))
              else (case reg_Clone (dreg env) api newPath (fn_reg f) fs2 l of
                None \<Rightarrow> None
              | Some ((None, l1), fs3) \<Rightarrow> Some (None, (t1, fs3, l1))
              | Some ((Some reg, l1), fs3) \<Rightarrow>
                  (case func_Clone (de_func env) reg f of
                     None \<Rightarrow> Some (None, (t1\<lparr>dt_funcCtx := None\<rparr>, fs3, reg_destroy api reg l1))
                   | Some g \<Rightarrow> Some (Some g, (t1\<lparr>dt_funcCtx := Some g, dt_launchId := lp_launchId (lc_param lc)\<rparr>, fs3, l1))))))"

definition task_Run ::
  "'f dbi_env \<Rightarrow> 'l load_api \<Rightarrow> dbi_task_config \<Rightarrow> launch_context \<Rightarrow> dbi_task \<times> 'f \<times> 'l \<Rightarrow>
   (func_context option \<times> (dbi_task \<times> 'f \<times> 'l)) option" where
  "task_Run env api c lc st =
     (let (t, fs, l) = st; launchId = lp_launchId (lc_param lc); (reused, fs1) = ReuseConverted env c launchId t fs in
      if reused then Some (dt_funcCtx t, (t, fs1, l))
      else let dir = GetOutputDir c launchId; (made, fs2) = MkdirRecusively (dos env) dir DIR_DEFAULT_MOD fs1 in
        if \<not> made then Some (None, (t, fs2, l))
        else map_option (\<lambda>(r, (t1, fs3, l1)). (r, (t1, drop_output env c dir fs3, l1)))
               (instrument env api c dir lc (t, fs2, l)))"

text \<open>The variants for the runtime's own interface give the handle that replaces the launched one.\<close>

definition task_Run_handle ::
  "'f dbi_env \<Rightarrow> 'l register_api \<Rightarrow> dbi_task_config \<Rightarrow> nat option \<Rightarrow> bool \<Rightarrow> kernel_context \<times> dbi_task \<times> 'f \<times> 'l \<Rightarrow>
   (ptr option \<times> (kernel_context \<times> dbi_task \<times> 'f \<times> 'l)) option" where
  "task_Run_handle env api c launchId withStubFunc st =
     (let (k, t, fs, l) = st; d = GetDeviceContext (de_kernel env) k; regId = GetRegisterId_launch k d launchId;
          set_binary = (\<lambda>r k. case (regId, rt_bin r) of (Some i, Some bin) \<Rightarrow> snd (SetDbiBinary (de_kernel env) i bin k) | _ \<Rightarrow> k)
      in if \<not> NeedConvert env c t fs
         then (case dt_replace t of
                 None \<Rightarrow> None
               | Some r \<Rightarrow> Some (Some (rt_handle r), (set_binary r k, t,
                   (case launchId of None \<Rightarrow> fs | Some i \<Rightarrow> link_output env c t i fs), l)))
         else (case (launchId, GetLaunchEvent d launchId) of
           (Some i, Some e) \<Rightarrow>
             let dir = GetOutputDir c i; (made, fs1) = MkdirRecusively (dos env) dir DIR_DEFAULT_MOD fs;
                 oldPath = JoinPath [dir, old_kernel_name]; newPath = JoinPath [dir, new_kernel_name];
                 done_with = (\<lambda>(r, k1, t1, fs2, l1). Some (r, (k1, t1, drop_output env c dir fs2, l1)))
             in if \<not> made then Some (None, (k, t, fs1, l))
                else (case DumpKernelObject (de_kernel env) k regId oldPath fs1 of
                  None \<Rightarrow> None
                | Some (dump_ok, fs2) \<Rightarrow>
                    if \<not> dump_ok then done_with (None, k, t, fs2, l)
                    else (case task_Convert env (conversion_config c (GetCurrentArchName k d (re_soc (dreg env))) dir) oldPath newPath
                        (if le_stubFunc e = 0 then to_string (unat (le_tilingKey e)) else []) t fs2 of
                      None \<Rightarrow> None
                    | Some (ok, t1, fs3) \<Rightarrow>
                        if \<not> ok then done_with (None, k, t1, fs3, l)
                        else let l1 = replace_destroy api (dt_replace t1) l;
                                 (h, r, l2) = replace_Run env api k regId withStubFunc (new_replace_task newPath) fs3 l1
                          in (case h of
                                None \<Rightarrow> done_with (None, k, t1\<lparr>dt_replace := None\<rparr>, fs3, replace_destroy api (Some r) l2)
                              | Some p \<Rightarrow> done_with (Some p, set_binary r k, t1\<lparr>dt_replace := Some r, dt_launchId := i\<rparr>, fs3, l2))))
         | _ \<Rightarrow> Some (None, st)))"

text \<open>With the address of the task's own function; the function is registered once.\<close>

definition task_Run_stub ::
  "'f dbi_env \<Rightarrow> 'l register_api \<Rightarrow> dbi_task_config \<Rightarrow> ptr \<Rightarrow> nat option \<Rightarrow> kernel_context \<times> dbi_task \<times> 'f \<times> 'l \<Rightarrow>
   (bool \<times> (kernel_context \<times> dbi_task \<times> 'f \<times> 'l)) option" where
  "task_Run_stub env api c ownFunc launchId st =
     (case task_Run_handle env api c launchId True st of
        None \<Rightarrow> None
      | Some (None, st1) \<Rightarrow> Some (False, st1)
      | Some (Some h, (k, t, fs, l)) \<Rightarrow>
          if dt_registered t then Some (True, (k, t, fs, l))
          else (case GetLaunchEvent (GetDeviceContext (de_kernel env) k) launchId of
            None \<Rightarrow> Some (False, (k, t, fs, l))
          | Some e \<Rightarrow>
              (case GetStubFuncInfo k (le_stubFunc e) of
                 None \<Rightarrow> Some (False, (k, t, fs, l))
               | Some info \<Rightarrow>
                   let (ok, l1) = ra_functionRegister api h ownFunc (sf_kernelName info) (sf_kernelInfoExt info) (sf_funcMode info) l
                   in if \<not> ok then Some (False, (k, t, fs, l1))
                      else Some (True, (k, t\<lparr>dt_registered := True\<rparr>, fs, l1)))))"

section \<open>The pool\<close>

record TaskKey =
  tk_biType :: BIType
  tk_stubFunc :: ptr
  tk_tilingKey :: string
  tk_pluginPath :: string

type_synonym task_pool = "(nat \<times> (TaskKey \<times> dbi_task) list) list"

definition tasks_of :: "nat \<Rightarrow> task_pool \<Rightarrow> (TaskKey \<times> dbi_task) list" where
  "tasks_of regId pool = (case map_of pool regId of None \<Rightarrow> [] | Some ts \<Rightarrow> ts)"

definition put_task :: "nat \<Rightarrow> TaskKey \<Rightarrow> dbi_task \<Rightarrow> task_pool \<Rightarrow> task_pool" where
  "put_task regId key t pool = AList.update regId (AList.update key t (tasks_of regId pool)) pool"

definition GetOrCreate :: "nat \<Rightarrow> TaskKey \<Rightarrow> task_pool \<Rightarrow> dbi_task \<times> task_pool" where
  "GetOrCreate regId key pool =
     (case map_of (tasks_of regId pool) key of
        Some t \<Rightarrow> (t, pool)
      | None \<Rightarrow> let t = new_dbi_task (tk_biType key) in (t, put_task regId key t pool))"

text \<open>The binaries the tasks registered are released with them.\<close>

definition pool_Destroy :: "'l register_api \<Rightarrow> nat \<Rightarrow> task_pool \<times> 'l \<Rightarrow> task_pool \<times> 'l" where
  "pool_Destroy api regId st =
     (let (pool, l) = st
      in (AList.delete regId pool, fold (\<lambda>(key, t) l. replace_destroy api (dt_replace t) l) (tasks_of regId pool) l))"

definition task_key :: "dbi_task_config \<Rightarrow> string \<Rightarrow> TaskKey" where
  "task_key c name = \<lparr>tk_biType = tc_type c, tk_stubFunc = 0, tk_tilingKey = name, tk_pluginPath = tc_pluginPath c\<rparr>"

definition RunDBITask ::
  "'f dbi_env \<Rightarrow> 'l load_api \<Rightarrow> dbi_task_config \<Rightarrow> launch_context \<Rightarrow> task_pool \<times> 'f \<times> 'l \<Rightarrow>
   (func_context option \<times> (task_pool \<times> 'f \<times> 'l)) option" where
  "RunDBITask env api c lc st =
     (let (pool, fs, l) = st; f = lc_func lc; name = fn_kernelName f; regId = rp_regId (rc_param (fn_reg f)) in
      if \<not> IsPlatformSupportDBI (re_soc (dreg env)) then Some (None, st)
      else if \<not> IsEnabled c (Some (lp_launchId (lc_param lc))) name \<or> rc_hasStaticStub (fn_reg f) then Some (None, st)
      else let (t, pool1) = GetOrCreate regId (task_key c name) pool in
        map_option (\<lambda>(r, (t1, fs1, l1)). (r, (put_task regId (task_key c name) t1 pool1, fs1, l1)))
          (task_Run env api c lc (t, fs, l)))"

definition RunDBITask_handle ::
  "'f dbi_env \<Rightarrow> 'l register_api \<Rightarrow> dbi_task_config \<Rightarrow> ptr \<Rightarrow> u64 \<Rightarrow> kernel_context \<times> task_pool \<times> 'f \<times> 'l \<Rightarrow>
   ((bool \<times> ptr) \<times> (kernel_context \<times> task_pool \<times> 'f \<times> 'l)) option" where
  "RunDBITask_handle env api c h tilingKey st =
     (let (k, pool, fs, l) = st; d = GetDeviceContext (de_kernel env) k; launchId = GetLaunchId d in
      if \<not> IsPlatformSupportDBI (re_soc (dreg env)) then Some ((False, h), st)
      else case GetDevBinary_handle k h False of
        None \<Rightarrow> Some ((False, h), st)
      | Some bin \<Rightarrow>
          if \<not> IsEnabled c launchId (GetLaunchName d None) then Some ((False, h), st)
          else (case HasStaticStub (db_data bin) of
             None \<Rightarrow> None
           | Some stub \<Rightarrow>
               if stub then Some ((False, h), st)
               else (case GetRegisterId_launch k d launchId of
                 None \<Rightarrow> Some ((False, h), st)
               | Some regId \<Rightarrow>
                   let key = task_key c (to_string (unat tilingKey)); (t, pool1) = GetOrCreate regId key pool in
                   case task_Run_handle env api c launchId False (k, t, fs, l) of
                     None \<Rightarrow> None
                   | Some (None, (k1, t1, fs1, l1)) \<Rightarrow> Some ((False, h), (k1, put_task regId key t1 pool1, fs1, l1))
                   | Some (Some h1, (k1, t1, fs1, l1)) \<Rightarrow>
                       let (ok, k2) = UpdatePcStartAddrByDbi (de_kernel env) launchId (KernelHandleArgs h h1 tilingKey) k1
                       in Some ((ok, h1), (k2, put_task regId key t1 pool1, fs1, l1)))))"

text \<open>\<open>ownFunc\<close> is the address of the variable of a task that stands for its function.\<close>

definition stub_key :: "dbi_task_config \<Rightarrow> ptr \<Rightarrow> TaskKey" where
  "stub_key c stubFunc = \<lparr>tk_biType = tc_type c, tk_stubFunc = stubFunc, tk_tilingKey = [], tk_pluginPath = tc_pluginPath c\<rparr>"

definition RunDBITask_stub ::
  "'f dbi_env \<Rightarrow> 'l register_api \<Rightarrow> dbi_task_config \<Rightarrow> (nat \<Rightarrow> TaskKey \<Rightarrow> ptr) \<Rightarrow> ptr \<Rightarrow> kernel_context \<times> task_pool \<times> 'f \<times> 'l \<Rightarrow>
   ((bool \<times> ptr) \<times> (kernel_context \<times> task_pool \<times> 'f \<times> 'l)) option" where
  "RunDBITask_stub env api c ownFunc stubFunc st =
     (let (k, pool, fs, l) = st; d = GetDeviceContext (de_kernel env) k; launchId = GetLaunchId d in
      if \<not> IsPlatformSupportDBI (re_soc (dreg env)) then Some ((False, stubFunc), st)
      else case GetDevBinary_stub k stubFunc False of
        None \<Rightarrow> Some ((False, stubFunc), st)
      | Some bin \<Rightarrow>
          if \<not> IsEnabled c launchId (GetLaunchName d None) then Some ((False, stubFunc), st)
          else (case HasStaticStub (db_data bin) of
             None \<Rightarrow> None
           | Some stub \<Rightarrow>
               if stub then Some ((False, stubFunc), st)
               else (case GetRegisterId_launch k d launchId of
                 None \<Rightarrow> Some ((False, stubFunc), st)
               | Some regId \<Rightarrow>
                   let key = stub_key c stubFunc; own = ownFunc regId key; (t, pool1) = GetOrCreate regId key pool in
                   case task_Run_stub env api c own launchId (k, t, fs, l) of
                     None \<Rightarrow> None
                   | Some (ok, (k1, t1, fs1, l1)) \<Rightarrow>
                       if \<not> ok then Some ((False, stubFunc), (k1, put_task regId key t1 pool1, fs1, l1))
                       else let (ok1, k2) = UpdatePcStartAddrByDbi (de_kernel env) launchId (StubFuncArgs stubFunc own) k1
                         in Some ((ok1, own), (k2, put_task regId key t1 pool1, fs1, l1)))))"

section \<open>Dumping what is launched\<close>

definition MAX_DUMP_NUM :: u64 where "MAX_DUMP_NUM = 50000"

record kernel_dumper =
  kp_dumpNum :: u64
  kp_outputDir :: string
  kp_matcher :: "match_config option"

text \<open>A launch number as it is printed.\<close>

definition launch_string :: "nat option \<Rightarrow> string" where
  "launch_string launchId = to_string (case launchId of None \<Rightarrow> 2 ^ 64 - 1 | Some i \<Rightarrow> i)"

definition launch_of :: "nat option \<Rightarrow> launch_manager \<Rightarrow> launch_context option" where
  "launch_of launchId lm = (case launchId of None \<Rightarrow> None | Some i \<Rightarrow> lm_GetContext i lm)"

definition Dump_to ::
  "'f dbi_env \<Rightarrow> (nat \<Rightarrow> args_context) \<Rightarrow> string \<Rightarrow> nat option \<Rightarrow> bool \<Rightarrow> kernel_context \<times> launch_manager \<times> 'f \<Rightarrow>
   (bool \<times> (kernel_context \<times> launch_manager \<times> 'f)) option" where
  "Dump_to env argsAt outputDir launchId aclNew st =
     (let (k, lm, fs) = st; (made, fs1) = MkdirRecusively (dos env) outputDir DIR_DEFAULT_MOD fs in
      if aclNew
      then (case launch_of launchId lm of
              None \<Rightarrow> Some (False, (k, lm, fs1))
            | Some lc \<Rightarrow>
                map_option (\<lambda>(ok, lm1, fs2, u). (ok, (k, lm1, fs2)))
                  (LaunchContext_Save (ke_save (de_kernel env)) argsAt outputDir lc lm (fs1, ())))
      else map_option (\<lambda>(ok, k1, fs2). (ok, (k1, lm, fs2))) (kx_Save (de_kernel env) outputDir launchId (k, fs1)))"

definition Dump_launch ::
  "'f dbi_env \<Rightarrow> (nat \<Rightarrow> args_context) \<Rightarrow> kernel_dumper \<Rightarrow> nat option \<Rightarrow> bool \<Rightarrow> kernel_context \<times> launch_manager \<times> 'f \<Rightarrow>
   (bool \<times> (kernel_context \<times> launch_manager \<times> 'f)) option" where
  "Dump_launch env argsAt p launchId aclNew st =
     (let (k, lm, fs) = st;
          name = (if aclNew then map_option (\<lambda>lc. fn_kernelName (lc_func lc)) (launch_of launchId lm)
                  else Some (GetLaunchName (GetDeviceContext (de_kernel env) k) launchId))
      in case (name, kp_matcher p) of
           (Some kernelName, Some m) \<Rightarrow>
             if \<not> Match m launchId kernelName then Some (False, st)
             else Dump_to env argsAt
               (JoinPath [kp_outputDir p, ''dumpData_'' @ int_string (ke_deviceId (de_kernel env)) @ ''_'' @ launch_string launchId])
               launchId aclNew st
         | _ \<Rightarrow> Some (False, st))"

definition DumpAicore :: "'f dbi_env \<Rightarrow> kernel_context \<Rightarrow> string \<Rightarrow> 'f \<Rightarrow> (bool \<times> 'f) option" where
  "DumpAicore env k outputDir fs = SaveAicore (de_kernel env) k outputDir None fs"

text \<open>The dump itself is what the stream calls back, with these arguments.\<close>

definition LaunchDumpTask ::
  "'f dbi_env \<Rightarrow> 'l register_api \<Rightarrow> launch_manager \<Rightarrow> ptr \<Rightarrow> bool \<Rightarrow> kernel_dumper \<times> stream_infos \<times> kernel_context \<times> 'l \<Rightarrow>
   bool \<times> (kernel_dumper \<times> stream_infos \<times> kernel_context \<times> 'l)" where
  "LaunchDumpTask env api lm stm aclNew st =
     (let (p, infos, k, l) = st; p1 = p\<lparr>kp_dumpNum := kp_dumpNum p + 1\<rparr> in
      if kp_dumpNum p1 > MAX_DUMP_NUM then (False, (p1, infos, k, l))
      else let (ok, infos1, k1) = SubscribeReport (de_kernel env) stm (infos, k) in
        if \<not> ok then (False, (p1, infos1, k1, l))
        else if aclNew
        then (case lm_GetLastContext lm of
                None \<Rightarrow> (False, (p1, infos1, k1, l))
              | Some lc \<Rightarrow>
                  let (ok1, l1) = ra_callback api (Some (lp_launchId (lc_param lc)), aclNew) stm l
                  in (ok1, (p1, infos1, k1, l1)))
        else let (ok1, l1) = ra_callback api (GetLaunchId (GetDeviceContext (de_kernel env) k1), aclNew) stm l
          in (ok1, (p1, infos1, k1, l1)))"

section \<open>The task that is reused\<close>

lemma update_present: "map_of xs key = Some t \<Longrightarrow> AList.update key t xs = xs"
  by (induction xs) (auto split: if_splits)

lemma map_of_update: "map_of (AList.update key t xs) key' = (if key' = key then Some t else map_of xs key')"
  by (simp add: update_conv')

lemma put_task_present:
  assumes "map_of (tasks_of regId pool) key = Some t"
  shows "put_task regId key t pool = pool"
proof -
  obtain ts where "map_of pool regId = Some ts" "map_of ts key = Some t"
    using assms by (auto simp: tasks_of_def split: option.splits)
  then show ?thesis by (simp add: put_task_def tasks_of_def update_present)
qed

lemma tasks_of_put:
  "tasks_of regId' (put_task regId key t pool) =
     (if regId' = regId then AList.update key t (tasks_of regId pool) else tasks_of regId' pool)"
  by (simp add: put_task_def tasks_of_def map_of_update)

lemma task_put [simp]: "map_of (tasks_of regId (put_task regId key t pool)) key = Some t"
  by (simp add: tasks_of_put map_of_update)

lemma GetOrCreate_present: "map_of (tasks_of regId pool) key = Some t \<Longrightarrow> GetOrCreate regId key pool = (t, pool)"
  by (simp add: GetOrCreate_def)

lemma not_NeedConvert: "dt_funcCtx t = Some f \<Longrightarrow> \<not> tc_keep c \<Longrightarrow> \<not> NeedConvert env c t fs"
  by (simp add: NeedConvert_def)

lemma task_Run_reuses:
  "dt_funcCtx t = Some f \<Longrightarrow> \<not> tc_keep c \<Longrightarrow> task_Run env api c lc (t, fs, l) = Some (Some f, (t, fs, l))"
  by (simp add: task_Run_def ReuseConverted_def not_NeedConvert link_output_def)

lemma instrument_function:
  "instrument env api c dir lc (t, fs, l) = Some (Some f, (t1, fs1, l1)) \<Longrightarrow> dt_funcCtx t1 = Some f"
  by (auto simp: instrument_def Let_def split: option.splits prod.splits if_splits)

lemma task_Run_function:
  assumes "task_Run env api c lc (t, fs, l) = Some (Some f, (t1, fs1, l1))"
  shows "dt_funcCtx t1 = Some f"
  using assms by (auto simp: task_Run_def Let_def split: prod.splits if_splits dest: instrument_function)

definition launch_regId :: "launch_context \<Rightarrow> nat" where
  "launch_regId lc = rp_regId (rc_param (fn_reg (lc_func lc)))"

abbreviation launch_name :: "launch_context \<Rightarrow> string" where
  "launch_name lc \<equiv> fn_kernelName (lc_func lc)"

definition instrumentable :: "'f dbi_env \<Rightarrow> dbi_task_config \<Rightarrow> launch_context \<Rightarrow> bool" where
  "instrumentable env c lc \<longleftrightarrow> IsPlatformSupportDBI (re_soc (dreg env)) \<and>
     IsEnabled c (Some (lp_launchId (lc_param lc))) (launch_name lc) \<and> \<not> rc_hasStaticStub (fn_reg (lc_func lc))"

lemma RunDBITask_run:
  "instrumentable env c lc \<Longrightarrow>
   RunDBITask env api c lc (pool, fs, l) =
     (let (t, pool1) = GetOrCreate (launch_regId lc) (task_key c (launch_name lc)) pool
      in map_option (\<lambda>(r, (t1, fs1, l1)). (r, (put_task (launch_regId lc) (task_key c (launch_name lc)) t1 pool1, fs1, l1)))
           (task_Run env api c lc (t, fs, l)))"
  by (simp add: RunDBITask_def instrumentable_def launch_regId_def Let_def)

lemma RunDBITask_not_run: "\<not> instrumentable env c lc \<Longrightarrow> RunDBITask env api c lc st = Some (None, st)"
  by (auto simp: RunDBITask_def instrumentable_def Let_def split: prod.splits)

lemma RunDBITask_stored:
  assumes "RunDBITask env api c lc (pool, fs, l) = Some (Some f, (pool1, fs1, l1))"
  shows "instrumentable env c lc \<and>
         (\<exists>t. map_of (tasks_of (launch_regId lc) pool1) (task_key c (launch_name lc)) = Some t \<and> dt_funcCtx t = Some f)"
proof -
  have i: "instrumentable env c lc" by (rule ccontr) (use assms in \<open>simp add: RunDBITask_not_run\<close>)
  then show ?thesis using assms by (auto simp: RunDBITask_run Let_def split: prod.splits dest!: task_Run_function)
qed

text \<open>
  What can happen to the pool while outputs are not kept and the binary \<open>regId\<close> is not released: launches of any kernels with
  any configurations through any of the three interfaces, and the release of other binaries. Files, loaded binaries and the
  kernel context are whatever they are at each step.
\<close>

inductive pool_runs :: "'f dbi_env \<Rightarrow> 'l load_api \<Rightarrow> 'r register_api \<Rightarrow> nat \<Rightarrow> task_pool \<Rightarrow> task_pool \<Rightarrow> bool"
  for env lapi rapi regId where
  start: "pool_runs env lapi rapi regId pool pool"
| launch: "pool_runs env lapi rapi regId pool pool1 \<Longrightarrow> RunDBITask env lapi c lc (pool1, fs, l) = Some (res, (pool2, fs2, l2)) \<Longrightarrow>
     \<not> tc_keep c \<Longrightarrow> pool_runs env lapi rapi regId pool pool2"
| handle_launch: "pool_runs env lapi rapi regId pool pool1 \<Longrightarrow>
     RunDBITask_handle env rapi c h tilingKey (k, pool1, fs, rl) = Some (hres, (k2, pool2, fs2, rl2)) \<Longrightarrow>
     \<not> tc_keep c \<Longrightarrow> pool_runs env lapi rapi regId pool pool2"
| stub_launch: "pool_runs env lapi rapi regId pool pool1 \<Longrightarrow>
     RunDBITask_stub env rapi c own stub (k, pool1, fs, rl) = Some (sres, (k2, pool2, fs2, rl2)) \<Longrightarrow>
     \<not> tc_keep c \<Longrightarrow> pool_runs env lapi rapi regId pool pool2"
| released: "pool_runs env lapi rapi regId pool pool1 \<Longrightarrow> other \<noteq> regId \<Longrightarrow> pool_Destroy rapi other (pool1, rl) = (pool2, rl2) \<Longrightarrow>
     pool_runs env lapi rapi regId pool pool2"

definition has_function :: "nat \<Rightarrow> TaskKey \<Rightarrow> func_context \<Rightarrow> task_pool \<Rightarrow> bool" where
  "has_function regId key f pool \<longleftrightarrow> (\<exists>t. map_of (tasks_of regId pool) key = Some t \<and> dt_funcCtx t = Some f)"

lemma has_function_put:
  assumes "has_function regId key f pool" and "GetOrCreate r key' pool = (t, pool1)"
    and "\<And>g. dt_funcCtx t = Some g \<Longrightarrow> dt_funcCtx t1 = Some g"
  shows "has_function regId key f (put_task r key' t1 pool1)"
proof (cases "r = regId \<and> key' = key")
  case True
  then have "dt_funcCtx t = Some f" using assms(1,2) by (auto simp: has_function_def GetOrCreate_def)
  then show ?thesis using True assms(3) by (simp add: has_function_def)
next
  case False
  then have "map_of (tasks_of regId pool1) key = map_of (tasks_of regId pool) key"
    using assms(2) by (auto simp: GetOrCreate_def tasks_of_put map_of_update Let_def split: option.splits)
  then show ?thesis using False assms(1) by (auto simp: has_function_def tasks_of_put map_of_update)
qed

lemma task_Run_keeps:
  "task_Run env api c lc (t, fs, l) = Some (res, (t1, fs1, l1)) \<Longrightarrow> \<not> tc_keep c \<Longrightarrow> dt_funcCtx t = Some g \<Longrightarrow> dt_funcCtx t1 = Some g"
  using task_Run_reuses [of t g c env api lc fs l] by simp

lemma task_Run_handle_keeps:
  "task_Run_handle env api c i w (k, t, fs, l) = Some (res, (k1, t1, fs1, l1)) \<Longrightarrow> \<not> tc_keep c \<Longrightarrow> dt_funcCtx t = Some g \<Longrightarrow>
   dt_funcCtx t1 = Some g"
  by (auto simp: task_Run_handle_def not_NeedConvert Let_def split: option.splits)

lemma task_Run_stub_keeps:
  assumes "task_Run_stub env api c own i (k, t, fs, l) = Some (res, (k1, t1, fs1, l1))" and "\<not> tc_keep c" and "dt_funcCtx t = Some g"
  shows "dt_funcCtx t1 = Some g"
proof -
  obtain hr k2 t2 fs2 l2 where h: "task_Run_handle env api c i True (k, t, fs, l) = Some (hr, (k2, t2, fs2, l2))"
    using assms(1) by (auto simp: task_Run_stub_def split: option.splits)
  note g = task_Run_handle_keeps [OF h assms(2,3)]
  show ?thesis
    using assms(1) g by (auto simp: task_Run_stub_def h split: option.splits prod.splits if_splits)
qed

lemma RunDBITask_keeps:
  assumes "RunDBITask env api c lc (pool, fs, l) = Some (res, (pool1, fs1, l1))" and "\<not> tc_keep c" and "has_function regId key f pool"
  shows "has_function regId key f pool1"
proof (cases "instrumentable env c lc")
  case True
  obtain t pool2 where g: "GetOrCreate (launch_regId lc) (task_key c (launch_name lc)) pool = (t, pool2)" by fastforce
  then obtain t1 where t1: "task_Run env api c lc (t, fs, l) = Some (res, (t1, fs1, l1))"
    "pool1 = put_task (launch_regId lc) (task_key c (launch_name lc)) t1 pool2"
    using assms(1) by (auto simp: RunDBITask_run [OF True])
  show ?thesis
    unfolding t1(2) by (rule has_function_put [OF assms(3) g]) (rule task_Run_keeps [OF t1(1) assms(2)])
qed (use assms in \<open>simp add: RunDBITask_not_run\<close>)

lemma handle_put:
  assumes "has_function regId key f pool" and "\<not> tc_keep c" and "GetOrCreate r key' pool = (t, pool1)"
    and "task_Run_handle env api c i w (k, t, fs, l) = Some (res, (k1, t1, fs1, l1))"
  shows "has_function regId key f (put_task r key' t1 pool1)"
  by (rule has_function_put [OF assms(1,3)]) (rule task_Run_handle_keeps [OF assms(4,2)])

lemma stub_put:
  assumes "has_function regId key f pool" and "\<not> tc_keep c" and "GetOrCreate r key' pool = (t, pool1)"
    and "task_Run_stub env api c own i (k, t, fs, l) = Some (res, (k1, t1, fs1, l1))"
  shows "has_function regId key f (put_task r key' t1 pool1)"
  by (rule has_function_put [OF assms(1,3)]) (rule task_Run_stub_keeps [OF assms(4,2)])

lemma RunDBITask_handle_keeps:
  assumes "RunDBITask_handle env api c h key0 (k, pool, fs, l) = Some (res, (k1, pool1, fs1, l1))" and "\<not> tc_keep c"
    and "has_function regId key f pool"
  shows "has_function regId key f pool1"
  using assms(1,3)
  by (auto simp: RunDBITask_handle_def Let_def intro: handle_put [OF assms(3,2)] split: option.splits prod.splits if_splits)

lemma RunDBITask_stub_keeps:
  assumes "RunDBITask_stub env api c own stub (k, pool, fs, l) = Some (res, (k1, pool1, fs1, l1))" and "\<not> tc_keep c"
    and "has_function regId key f pool"
  shows "has_function regId key f pool1"
  using assms(1,3)
  by (auto simp: RunDBITask_stub_def Let_def intro: stub_put [OF assms(3,2)] split: option.splits prod.splits if_splits)

lemma pool_runs_keep: "pool_runs env lapi rapi regId pool pool1 \<Longrightarrow> has_function regId key f pool \<Longrightarrow> has_function regId key f pool1"
proof (induction rule: pool_runs.induct)
  case (released pool pool1 other rl pool2 rl2)
  then have "tasks_of regId pool2 = tasks_of regId pool1" by (auto simp: pool_Destroy_def tasks_of_def delete_conv')
  then show ?case using released by (simp add: has_function_def)
qed (blast dest: RunDBITask_keeps RunDBITask_handle_keeps RunDBITask_stub_keeps)+

text \<open>
  C9: A kernel is converted once. When a launch was given an instrumented function, then, after any launches of any kernels
  through any interface in which outputs are not kept, and any releases of other binaries, each launch of the kernel of that
  name in the same binary, with the same type of instrumentation and plugin and outputs not kept, is given the same function;
  and neither a file nor a loaded binary nor the pool changes.
\<close>

theorem converted_once:
  assumes "RunDBITask env lapi c lc (pool, fs, l) = Some (Some f, (pool1, fs1, l1))"
    and "pool_runs env lapi rapi (launch_regId lc) pool1 pool2"
    and "launch_regId lc2 = launch_regId lc" and "launch_name lc2 = launch_name lc"
    and "tc_type c2 = tc_type c" and "tc_pluginPath c2 = tc_pluginPath c" and "\<not> tc_keep c2" and "instrumentable env c2 lc2"
  shows "RunDBITask env lapi c2 lc2 (pool2, fs2, l2) = Some (Some f, (pool2, fs2, l2))"
proof -
  have "has_function (launch_regId lc) (task_key c (launch_name lc)) f pool1"
    using RunDBITask_stored [OF assms(1)] by (simp add: has_function_def)
  then obtain t where t: "map_of (tasks_of (launch_regId lc2) pool2) (task_key c2 (launch_name lc2)) = Some t" "dt_funcCtx t = Some f"
    using pool_runs_keep [OF assms(2)] assms(3-6) by (auto simp: has_function_def task_key_def)
  then show ?thesis
    using assms(7,8) by (simp add: RunDBITask_run GetOrCreate_present task_Run_reuses put_task_present)
qed

section \<open>A conversion that fails\<close>

definition output_dir :: "dbi_task_config \<Rightarrow> launch_context \<Rightarrow> string" where
  "output_dir c lc = GetOutputDir c (lp_launchId (lc_param lc))"

lemma dbi_task_unchanged:
  "task_Convert env config oldPath newPath tilingKey t fs = Some (ok, t1, fs1) \<Longrightarrow>
   dt_funcCtx t1 = dt_funcCtx t \<and> dt_replace t1 = dt_replace t"
  by (auto simp: task_Convert_def Let_def split: option.splits prod.splits if_splits)

lemma instrument_failed:
  assumes "instrument env api c dir lc (t, fs, l) = Some (None, (t1, fs1, l1))" and "dt_funcCtx t = None"
  shows "dt_funcCtx t1 = None \<and> dt_replace t1 = dt_replace t"
  using assms by (auto simp: instrument_def Let_def split: option.splits prod.splits if_splits dest!: dbi_task_unchanged)

text \<open>What a failed conversion leaves: nothing in the task, and in the directory what the last step left, if outputs are kept.\<close>

definition failed_output ::
  "'f dbi_env \<Rightarrow> 'l load_api \<Rightarrow> dbi_task_config \<Rightarrow> launch_context \<Rightarrow> dbi_task \<Rightarrow> 'f \<Rightarrow> 'l \<Rightarrow> 'f \<Rightarrow> 'l \<Rightarrow> bool" where
  "failed_output env api c lc t fs l fs1 l1 \<longleftrightarrow>
     (let (made, fs2) = MkdirRecusively (dos env) (output_dir c lc) DIR_DEFAULT_MOD fs in
      if \<not> made then fs1 = fs2 \<and> l1 = l
      else \<exists>t1 fs3. instrument env api c (output_dir c lc) lc (t, fs2, l) = Some (None, (t1, fs3, l1)) \<and>
             (if tc_keep c then fs1 = fs3 else fs1 = de_removeAll env (output_dir c lc) fs3))"

lemma task_Run_failed:
  assumes "task_Run env api c lc (t, fs, l) = Some (None, (t1, fs1, l1))"
    and "dt_replace t = None" and "tc_keep c \<longrightarrow> dt_funcCtx t = None"
  shows "dt_replace t1 = None \<and> dt_funcCtx t1 = None \<and> failed_output env api c lc t fs l fs1 l1"
proof -
  have f: "dt_funcCtx t = None"
  proof (rule ccontr)
    assume n: "dt_funcCtx t \<noteq> None"
    then obtain f where f: "dt_funcCtx t = Some f" by (cases "dt_funcCtx t") simp_all
    have "\<not> tc_keep c" using n assms(3) by (cases "tc_keep c") simp_all
    from task_Run_reuses [OF f this, of env api lc fs l] show False using assms(1) by simp
  qed
  then have n: "NeedConvert env c t fs" using assms(2) by (simp add: NeedConvert_def)
  obtain made fs2 where m: "MkdirRecusively (dos env) (output_dir c lc) DIR_DEFAULT_MOD fs = (made, fs2)" by fastforce
  show ?thesis
  proof (cases made)
    case False
    then show ?thesis
      using assms n f m by (simp add: task_Run_def ReuseConverted_def output_dir_def failed_output_def)
  next
    case True
    have "map_option (\<lambda>(r, (t1, fs3, l1)). (r, (t1, drop_output env c (output_dir c lc) fs3, l1)))
        (instrument env api c (output_dir c lc) lc (t, fs2, l)) = Some (None, (t1, fs1, l1))"
      using assms(1) n m [unfolded output_dir_def] True by (simp add: task_Run_def ReuseConverted_def output_dir_def Let_def)
    then obtain fs3 where i: "instrument env api c (output_dir c lc) lc (t, fs2, l) = Some (None, (t1, fs3, l1))"
      "fs1 = drop_output env c (output_dir c lc) fs3"
      by (cases "instrument env api c (output_dir c lc) lc (t, fs2, l)") auto
    then show ?thesis
      using instrument_failed [OF i(1) f] assms(2) m True by (simp add: failed_output_def drop_output_def)
  qed
qed

text \<open>
  C10: A launch that could be instrumented, was not converted or replaced before and is not given a function leaves a task
  without one in the pool, so the next launch of the kernel tries again, whatever the configuration and the files are then.
  When the output directory could not be made, nothing else was touched; otherwise, whatever step failed, the directory is
  removed, and only when outputs are kept it stays, with what the failed conversion left there.
\<close>

theorem failed_conversion_retried:
  assumes "RunDBITask env api c lc (pool, fs, l) = Some (None, (pool1, fs1, l1))" and "instrumentable env c lc"
    and "GetOrCreate (launch_regId lc) (task_key c (launch_name lc)) pool = (t, pool2)"
    and "dt_replace t = None" and "tc_keep c \<longrightarrow> dt_funcCtx t = None"
  shows "(\<exists>t1. map_of (tasks_of (launch_regId lc) pool1) (task_key c (launch_name lc)) = Some t1 \<and>
           (\<forall>c2 fs2. NeedConvert env c2 t1 fs2)) \<and> failed_output env api c lc t fs l fs1 l1"
proof -
  obtain t1 where t1: "task_Run env api c lc (t, fs, l) = Some (None, (t1, fs1, l1))"
    "pool1 = put_task (launch_regId lc) (task_key c (launch_name lc)) t1 pool2"
    using assms(1-3) by (auto simp: RunDBITask_run)
  then show ?thesis using task_Run_failed [OF t1(1) assms(4,5)] by (auto simp: NeedConvert_def)
qed

section \<open>The probe of a custom instrumentation\<close>

lemma SplitString_append: "SplitString (a @ d # b) d = SplitString (a @ [d]) d @ SplitString b d"
proof (induction "length a" arbitrary: a rule: less_induct)
  case less
  show ?case
  proof (cases "d \<in> set a")
    case False
    then show ?thesis by (simp add: SplitString_step)
  next
    case True
    then obtain a1 a2 where a: "a = a1 @ d # a2" "d \<notin> set a1" by (metis split_list_first)
    then show ?thesis using less.hyps [of a2] by (simp add: SplitString_step)
  qed
qed

lemma find_append: "find P (xs @ ys) = (case find P xs of None \<Rightarrow> find P ys | Some x \<Rightarrow> Some x)"
  by (induction xs) auto

lemma ParseFirstSymbol_append:
  "ParseFirstSymbol (a @ [CHR 0x0A]) property = Some s \<Longrightarrow> ParseFirstSymbol (a @ CHR 0x0A # b) property = Some s"
  by (auto simp: ParseFirstSymbol_def SplitString_append [of a "CHR 0x0A" b] find_append split: option.splits)

text \<open>A weak function of the kernel is taken for the probe: the probe's own symbols stand behind those of the kernel.\<close>

lemma probe_of_kernel:
  assumes "de_exec env [''llvm-objdump'', ''--syms'', kernelFile] fs = ((True, a @ [CHR 0x0A]), fs1)"
    and "de_exec env [''llvm-objdump'', ''--syms'', probeFile] fs1 = ((True, b), fs2)"
    and "ParseFirstSymbol (a @ [CHR 0x0A]) ''g'' = Some ks" and "ParseFirstSymbol (a @ [CHR 0x0A]) ''w'' = Some weak"
  shows "GenerateOrderingFile env kernelFile probeFile orderingFile fs =
     (let (written, fs3) = WriteBinary (dos env) orderingFile (bytes_of_str (ks @ [CHR 0x0A] @ weak)) fs2 in (written \<noteq> 0, fs3))"
  using assms ParseFirstSymbol_append [OF assms(4), of b] by (simp add: GenerateOrderingFile_def PipeCall_def)

section \<open>Replaced binaries are released\<close>

definition registers_ok :: "'l register_api \<Rightarrow> ('l \<Rightarrow> ptr set) \<Rightarrow> bool" where
  "registers_ok api live \<longleftrightarrow>
     (\<forall>w bin l p l1. ra_register api w bin l = (Some p, l1) \<longrightarrow> p \<noteq> 0 \<and> p \<notin> live l \<and> live l1 = insert p (live l)) \<and>
     (\<forall>w bin l l1. ra_register api w bin l = (None, l1) \<longrightarrow> live l1 = live l) \<and>
     (\<forall>p l. live (ra_unregister api p l) = live l - {p})"

definition held :: "replace_task option \<Rightarrow> ptr set" where
  "held t = (case t of None \<Rightarrow> {} | Some t \<Rightarrow> if rt_handle t = 0 then {} else {rt_handle t})"

lemma replace_destroy_live: "registers_ok api live \<Longrightarrow> live (replace_destroy api t l) = live l - held t"
  by (auto simp: replace_destroy_def held_def registers_ok_def split: option.splits)

lemma replace_Run_live:
  assumes "registers_ok api live" and "replace_Run env api k regId w (new_replace_task path) fs l = (h, t, l1)"
  shows "live l1 = live l \<union> held (Some t) \<and> held (Some t) \<inter> live l = {} \<and> (h = None \<longrightarrow> held (Some t) = {})"
  using assms by (auto simp: replace_Run_def held_def new_replace_task_def registers_ok_def Let_def split: option.splits prod.splits if_splits)

definition balanced :: "('l \<Rightarrow> ptr set) \<Rightarrow> ptr set \<Rightarrow> replacement \<times> 'l \<Rightarrow> bool" where
  "balanced live others st \<longleftrightarrow> live (snd st) = others \<union> held (rl_task (fst st)) \<and> held (rl_task (fst st)) \<inter> others = {}"

lemma CreateHandle_balanced:
  assumes ok: "registers_ok api live" and b: "balanced live others (r, l)"
    and c: "CreateHandle env api k valid launchId fs (r, l) = (res, (r1, l1))"
  shows "balanced live others (r1, l1)"
proof (cases "(r1, l1) = (r, l)")
  case True
  then show ?thesis using b by simp
next
  case False
  define l0 where "l0 = replace_destroy api (rl_task r) l"
  obtain h t l2 where run: "replace_Run env api k (GetRegisterId_launch k (GetDeviceContext (de_kernel env) k) launchId) False
      (new_replace_task (rl_kernelPath r)) fs l0 = (h, t, l2)"
    by (metis prod_cases3)
  have st: "(r1, l1) = (if h \<noteq> None then (r\<lparr>rl_task := Some t, rl_oldKernelRegId :=
      GetRegisterId_launch k (GetDeviceContext (de_kernel env) k) launchId\<rparr>, l2)
      else (r\<lparr>rl_task := None\<rparr>, replace_destroy api (Some t) l2))"
    using c False run by (auto simp: CreateHandle_def Let_def l0_def split: if_splits)
  have free: "live l0 = others" using replace_destroy_live [OF ok, of "rl_task r" l] b by (auto simp: balanced_def l0_def)
  have run_live: "live l2 = others \<union> held (Some t)" "held (Some t) \<inter> others = {}" "h = None \<longrightarrow> held (Some t) = {}"
    using replace_Run_live [OF ok run] free by auto
  have destroyed: "live (replace_destroy api (Some t) l2) = live l2 - held (Some t)" by (rule replace_destroy_live [OF ok])
  show ?thesis
  proof (cases h)
    case None
    then show ?thesis using st run_live destroyed by (simp add: balanced_def held_def)
  next
    case (Some p)
    then show ?thesis using st run_live by (simp add: balanced_def)
  qed
qed

lemma ReleaseHandle_balanced:
  assumes "registers_ok api live" and "balanced live others (r, l)" and "ReleaseHandle api k h (r, l) = (res, (r1, l1))"
  shows "balanced live others (r1, l1)"
proof (cases "(r1, l1) = (r, l)")
  case True
  then show ?thesis using assms(2) by simp
next
  case False
  then have "rl_task r1 = None" "l1 = replace_destroy api (rl_task r) l"
    using assms(3) by (auto simp: ReleaseHandle_def Let_def split: if_splits)
  then show ?thesis
    using assms(2) replace_destroy_live [OF assms(1), of "rl_task r" l] by (auto simp: balanced_def held_def)
qed

inductive replacement_runs ::
  "'f dbi_env \<Rightarrow> 'l register_api \<Rightarrow> replacement \<times> 'l \<Rightarrow> replacement \<times> 'l \<Rightarrow> bool" for env api where
  start: "replacement_runs env api st st"
| create: "replacement_runs env api st st1 \<Longrightarrow> CreateHandle env api k valid launchId fs st1 = (res, st2) \<Longrightarrow>
     replacement_runs env api st st2"
| release: "replacement_runs env api st st1 \<Longrightarrow> ReleaseHandle api k h st1 = (res2, st2) \<Longrightarrow> replacement_runs env api st st2"

lemma replacement_runs_balanced:
  assumes "replacement_runs env api st st1" and "registers_ok api live" and "balanced live others st"
  shows "balanced live others st1"
  using assms(1,3)
proof (induction rule: replacement_runs.induct)
  case (start st)
  then show ?case by simp
next
  case (create st st1 k valid launchId fs res st2)
  obtain r l r2 l2 where e: "st1 = (r, l)" "st2 = (r2, l2)" by fastforce
  have "balanced live others (r, l)" and "CreateHandle env api k valid launchId fs (r, l) = (res, (r2, l2))"
    using create e by simp_all
  then show ?case unfolding e(2) by (rule CreateHandle_balanced [OF assms(2)])
next
  case (release st st1 k h res2 st2)
  obtain r l r2 l2 where e: "st1 = (r, l)" "st2 = (r2, l2)" by fastforce
  have "balanced live others (r, l)" and "ReleaseHandle api k h (r, l) = (res2, (r2, l2))"
    using release e by simp_all
  then show ?case unfolding e(2) by (rule ReleaseHandle_balanced [OF assms(2)])
qed

text \<open>
  C11: After any sequence of launches and releases the binaries the replacement has registered and not released are
  exactly the one it holds, if any; a binary registered by anybody else is never released.
\<close>

theorem replacement_balanced:
  assumes "replacement_runs env api st st1" and "registers_ok api live" and "rl_task (fst st) = None"
  shows "live (snd st1) = live (snd st) \<union> held (rl_task (fst st1)) \<and> held (rl_task (fst st1)) \<inter> live (snd st) = {}"
proof -
  have "balanced live (live (snd st)) st" using assms(3) by (simp add: balanced_def held_def)
  from replacement_runs_balanced [OF assms(1,2) this] show ?thesis by (simp add: balanced_def)
qed

text \<open>The handle is left alone although \<open>true\<close> says it was replaced.\<close>

lemma failed_replacement_reported_true:
  assumes "rl_kernelPath r \<noteq> []" and "rl_matcher r = Some m" and "rl_oldKernelRegId r = None"
    and "Match m launchId (GetLaunchName (GetDeviceContext (de_kernel env) k) None)"
    and "GetRegisterId_launch k (GetDeviceContext (de_kernel env) k) launchId = Some i"
    and "fst (replace_Run env api k (Some i) False (new_replace_task (rl_kernelPath r)) fs (replace_destroy api (rl_task r) l)) = None"
  shows "fst (CreateHandle env api k True launchId fs (r, l)) = (True, None)"
  using assms by (auto simp: CreateHandle_def Let_def split: prod.splits)

section \<open>On an example\<close>

definition demo_dbi_env :: "bool \<Rightarrow> (string \<times> stat_info) list dbi_env" where
  "demo_dbi_env works = \<lparr>de_kernel = demo_kernel_env, de_func = demo_func_api, de_exec = \<lambda>cmd fs. ((works, []), fs),
     de_dlopen = \<lambda>p. None, de_dlsym = \<lambda>h s. False, de_plugin = \<lambda>h p fs. fs, de_symlink = \<lambda>a b fs. fs,
     de_removeAll = \<lambda>p fs. filter (\<lambda>(q, s). take (length p) q \<noteq> p) fs\<rparr>"

definition demo_dbi_config :: dbi_task_config where
  "demo_dbi_config = (new_dbi_task_config False)\<lparr>tc_enabled := True, tc_type := BB_COUNT, tc_tmpRootDir := ''/d'',
     tc_matcher := Some \<lparr>km_launchId = None, km_regId = None, km_kernelName = []\<rparr>\<rparr>"

definition demo_load_api :: "ptr list load_api" where
  "demo_load_api = \<lparr>la_loadData = \<lambda>bs op l. (Some 9, 9 # l), la_loadFile = \<lambda>p op l. (Some 9, 9 # l), la_unload = removeAll\<rparr>"

definition demo_output_dir :: string where "demo_output_dir = ''/d/launch_0_bbcount_''"

definition demo_converted :: "(string \<times> stat_info) list" where
  "demo_converted = [(demo_output_dir, dir_stat),
     (''/d/launch_0_bbcount_/tmp_new_kernel.o'', \<lparr>st_mode = S_IFREG OR 0x180, st_uid = 0, st_size = 4\<rparr>)]"

lemma demo_output: "GetOutputDir demo_dbi_config 0 = demo_output_dir"
  by (simp add: GetOutputDir_def demo_dbi_config_def new_dbi_task_config_def JoinPath_def ExtractObjName_def demo_output_dir_def
      to_string.simps digit_char_def char_of_def bit_Suc_0_iff)

definition demo_new_kernel :: string where "demo_new_kernel = ''/d/launch_0_bbcount_/tmp_new_kernel.o''"

lemma demo_new_kernel_path: "JoinPath [demo_output_dir, new_kernel_name] = demo_new_kernel"
  by (simp add: JoinPath_def demo_output_dir_def new_kernel_name_def demo_new_kernel_def)

lemma demo_read: "ReadBinary demo_os demo_new_kernel demo_converted = (4, [1, 1, 1, 1])"
proof -
  have r: "Resolved (os_cwd demo_os) (mk_path demo_new_kernel) =
      \<lparr>p_absolute = True, p_route = [''d'', ''launch_0_bbcount_'', ''tmp_new_kernel.o'']\<rparr>"
    by (simp add: demo_new_kernel_def demo_os_def Resolved_def Absolute_def mk_path_def Strip_def path_join_def resolve_loop.simps)
  have d: "SplitString demo_new_kernel PATH_SEP = [[], ''d'', ''launch_0_bbcount_'', ''tmp_new_kernel.o'']"
    using split_abs_string [of "[''d'', ''launch_0_bbcount_'', ''tmp_new_kernel.o'']"] by (simp add: wf_comp_def demo_new_kernel_def)
  have walk: "set (os_walk demo_os) = set GetInvalidChar" by (simp add: demo_os_def)
  have st: "os_stat demo_os demo_new_kernel demo_converted = Some \<lparr>st_mode = S_IFREG OR 0x180, st_uid = 0, st_size = 4\<rparr>"
    by (simp add: demo_os_def demo_converted_def demo_output_dir_def demo_new_kernel_def)
  have rd: "os_read demo_os p n fs = Some (replicate n 1)" for p n fs by (simp add: demo_os_def)
  have size: "GetFileSize demo_os demo_new_kernel demo_converted = 4"
    by (simp add: GetFileSize_def IsExist_def st S_ISREG_def S_IFMT_def S_IFREG_def)
  have str: "ToString \<lparr>p_absolute = True, p_route = [''d'', ''launch_0_bbcount_'', ''tmp_new_kernel.o'']\<rparr> = demo_new_kernel"
    by (simp add: ToString_def demo_new_kernel_def)
  have chars: "fst (IsStringCharValid (os_walk demo_os) demo_new_kernel)"
    using IsStringCharValid_iff [OF walk, of demo_new_kernel] by (simp add: GetInvalidChar_def demo_new_kernel_def)
  have len: "PathLenCheckValid demo_new_kernel"
    unfolding PathLenCheckValid_def d by (simp add: demo_new_kernel_def DIR_NAME_LENGTH_LIMIT_def FILE_NAME_LENGTH_LIMIT_def)
  have ok: "CheckInputFileValid demo_os demo_new_kernel ''bin'' MAX_MEM_BYTE_SIZE demo_converted"
    unfolding CheckInputFileValid_def r str
    by (simp add: chars len st IsExist_def IsDir_def mode_has_def S_IFDIR_def
        GetFilePermission_def CheckPathPermission_def IsReadable_def S_IRUSR_def S_IWUSR_def S_IXUSR_def
        CheckOwnerPermission_def CheckFileSizeValid_def size S_ISREG_def S_IFMT_def S_IFREG_def MAX_MEM_BYTE_SIZE_def)
      (simp add: demo_new_kernel_def)
  have "replicate 4 (1 :: u8) = [1, 1, 1, 1]" by (simp add: eval_nat_numeral)
  then show ?thesis by (simp add: ReadBinary_def fs_ReadFile_def ok size rd)
qed

lemma demo_env:
  "dos (demo_dbi_env w) = demo_os" "re_soc (dreg (demo_dbi_env w)) = ''Ascend910B1''"
  "de_exec (demo_dbi_env w) cmd fs = ((w, []), fs)" "os_chmod demo_os p m fs = (True, fs)"
  "tc_type demo_dbi_config = BB_COUNT" "\<not> tc_keep demo_dbi_config" "tk_biType (task_key demo_dbi_config name) = BB_COUNT"
  by (simp_all add: demo_dbi_env_def demo_kernel_env_def demo_save_env_def demo_reg_env_def demo_os_def demo_dbi_config_def
      new_dbi_task_config_def task_key_def)

lemma demo_launched:
  "lp_launchId (lc_param demo_launch) = 0" "fn_reg (lc_func demo_launch) = demo_registered"
  by (simp_all add: demo_launch_def new_StubFuncContext_def)

lemma demo_dir: "MkdirRecusively demo_os demo_output_dir DIR_DEFAULT_MOD demo_converted = (True, demo_converted)"
proof -
  have "ToString (Resolved (os_cwd demo_os) (mk_path demo_output_dir)) \<noteq> []"
    by (simp add: demo_output_dir_def demo_os_def Resolved_def Absolute_def mk_path_def Strip_def path_join_def
        resolve_loop.simps ToString_def)
  then have "SplitString (ToString (Resolved (os_cwd demo_os) (mk_path demo_output_dir))) PATH_SEP \<noteq> []"
    by (rule SplitString_nonempty)
  moreover have "IsDir demo_os demo_output_dir demo_converted"
    by (simp add: IsDir_def mode_has_def demo_os_def demo_converted_def dir_stat_def S_IFDIR_def)
  ultimately show ?thesis by (simp add: MkdirRecusively_def Let_def demo_output_dir_def)
qed

lemma demo_saved:
  "reg_Save (dreg (demo_dbi_env w)) (JoinPath [demo_output_dir, old_kernel_name]) demo_registered demo_converted =
     Some (True, demo_converted)"
proof -
  have writable: "CheckWriteFilePathValid demo_os (JoinPath [demo_output_dir, old_kernel_name]) fs \<noteq> None" for fs
    by (simp add: CheckWriteFilePathValid_def RollbackPath_def GetLastFile_def last_sep_def JoinPath_def demo_output_dir_def
        old_kernel_name_def Realpath_def Let_def) (simp add: demo_os_def)
  have header: "LoadHeader (rc_elfData demo_registered) = Inr meta_ehdr"
    using meta_elf_image by (simp add: elf_image_def demo_registered_def meta_context_def)
  show ?thesis by (simp add: reg_Save_def header demo_env demo_os_writes [OF writable] Let_def)
qed

lemma demo_cloned:
  "\<exists>reg. reg_Clone (dreg (demo_dbi_env w)) demo_load_api demo_new_kernel demo_registered demo_converted [] =
     Some ((Some reg, [9]), demo_converted)"
proof -
  have stub: "HasStaticStub [1, 1, 1, 1] = Some False" "HasDebugLine [1, 1, 1, 1] = Some False"
    by (simp_all add: HasStaticStub_def HasDebugLine_def has_section_def GetSectionHeaders_def FromBuffer_def LoadHeader_def
        ReadValueFromBuffer_def MAX_MEM_BYTE_SIZE_def)
  have "\<not> rc_isFromFile demo_registered"
    by (simp add: demo_registered_def meta_context_def new_register_context_def)
  moreover have "GetSymInfoFromBinary (dreg (demo_dbi_env w)) [1, 1, 1, 1] \<noteq> None"
    by (simp add: GetSymInfoFromBinary_def GetObjdumpOutput_def demo_dbi_env_def demo_kernel_env_def demo_save_env_def
        demo_reg_env_def)
  then obtain syms where "GetSymInfoFromBinary (dreg (demo_dbi_env w)) [1, 1, 1, 1] = Some syms" by blast
  ultimately show ?thesis
    by (simp add: reg_Clone_def reg_CloneFromBin_def demo_env demo_read Let_def demo_load_api_def reg_Init_def stub finish_clone_def)
qed

lemma demo_convert:
  "\<exists>t. task_Convert (demo_dbi_env w) config old new key (new_dbi_task BB_COUNT) fs = Some (w, t, fs) \<and>
     dt_funcCtx t = None \<and> dt_replace t = None"
  by (simp add: task_Convert_def new_dbi_task_def dbi_Create_def dbi_SetConfig_def dbi_Convert_def BBCountDBI_Convert_def
      run_tool_def PipeCall_def demo_env Let_def)

lemma demo_task_Run:
  "\<exists>r t. task_Run (demo_dbi_env w) demo_load_api demo_dbi_config demo_launch (new_dbi_task BB_COUNT, demo_converted, []) =
     Some (r, (t, [], if w then [9] else [])) \<and> (r \<noteq> None \<longleftrightarrow> w)"
proof -
  obtain reg where cloned: "reg_Clone (dreg (demo_dbi_env w)) demo_load_api demo_new_kernel demo_registered demo_converted [] =
     Some ((Some reg, [9]), demo_converted)" using demo_cloned by blast
  obtain g where g: "func_Clone (de_func (demo_dbi_env w)) reg (lc_func demo_launch) = Some g"
    by (simp add: func_Clone_def demo_dbi_env_def demo_func_api_def demo_launch_def new_StubFuncContext_def)
  have new: "NeedConvert env demo_dbi_config (new_dbi_task BB_COUNT) fs" for env fs
    by (simp add: NeedConvert_def new_dbi_task_def)
  have removed: "drop_output (demo_dbi_env w) demo_dbi_config demo_output_dir demo_converted = []"
    by (simp add: drop_output_def demo_env) (simp add: demo_dbi_env_def demo_converted_def demo_output_dir_def)
  obtain t where t: "task_Convert (demo_dbi_env w) (conversion_config demo_dbi_config
      (GetTargetArchName (de_func (demo_dbi_env w)) ''Ascend910B1'' (lc_func demo_launch)) demo_output_dir)
      (JoinPath [demo_output_dir, old_kernel_name]) demo_new_kernel
      (case GetTilingKey (lc_func demo_launch) of None \<Rightarrow> [] | Some key \<Rightarrow> to_string (unat key)) (new_dbi_task BB_COUNT) demo_converted =
      Some (w, t, demo_converted)"
    using demo_convert by blast
  have "instrument (demo_dbi_env w) demo_load_api demo_dbi_config demo_output_dir demo_launch
      (new_dbi_task BB_COUNT, demo_converted, []) =
      Some (if w then Some g else None, (if w then t\<lparr>dt_funcCtx := Some g, dt_launchId := 0\<rparr> else t, demo_converted, if w then [9] else []))"
    using cloned g t
    by (cases w) (simp_all add: instrument_def Let_def demo_launched demo_saved demo_new_kernel_path demo_env)
  then show ?thesis
    by (auto simp: task_Run_def ReuseConverted_def new Let_def demo_launched demo_output demo_env demo_dir removed)
qed

lemma demo_instrumentable:
  "instrumentable (demo_dbi_env w) demo_dbi_config (demo_launch\<lparr>lc_param := (lc_param demo_launch)\<lparr>lp_launchId := i\<rparr>\<rparr>)"
  "instrumentable (demo_dbi_env w) demo_dbi_config demo_launch"
  by (simp_all add: instrumentable_def IsPlatformSupportDBI_def demo_env demo_dbi_config_def IsEnabled_def Match_def
      IsMatchAll_def demo_launch_def new_StubFuncContext_def demo_registered_def meta_context_def new_register_context_def)
    (simp_all add: str_contains_def)

lemma demo_RunDBITask:
  "\<exists>r pool. RunDBITask (demo_dbi_env w) demo_load_api demo_dbi_config demo_launch ([], demo_converted, []) =
     Some (r, (pool, [], if w then [9] else [])) \<and> (r \<noteq> None \<longleftrightarrow> w)"
proof -
  obtain r t where "task_Run (demo_dbi_env w) demo_load_api demo_dbi_config demo_launch (new_dbi_task BB_COUNT, demo_converted, []) =
     Some (r, (t, [], if w then [9] else []))" "r \<noteq> None \<longleftrightarrow> w"
    using demo_task_Run by blast
  then show ?thesis
    by (simp add: RunDBITask_run [OF demo_instrumentable(2)] GetOrCreate_def tasks_of_def demo_env Let_def)
qed

definition demo_register_api :: "bool register_api" where
  "demo_register_api = \<lparr>ra_register = \<lambda>w b l. if l then (None, l) else (Some 9, True), ra_unregister = \<lambda>p l. l \<and> p \<noteq> 9,
     ra_functionRegister = \<lambda>h f n e m l. (True, l), ra_callback = \<lambda>a s l. (True, l)\<rparr>"

abbreviation demo_relaunch :: "nat \<Rightarrow> launch_context" where
  "demo_relaunch i \<equiv> demo_launch\<lparr>lc_param := (lc_param demo_launch)\<lparr>lp_launchId := i\<rparr>\<rparr>"

theorem converted_once_witness:
  "\<exists>f pool. RunDBITask (demo_dbi_env True) demo_load_api demo_dbi_config demo_launch ([], demo_converted, []) =
       Some (Some f, (pool, [], [9])) \<and>
     pool_runs (demo_dbi_env True) demo_load_api demo_register_api (launch_regId demo_launch) pool pool \<and>
     RunDBITask (demo_dbi_env True) demo_load_api demo_dbi_config (demo_relaunch 2) (pool, [], [9]) = Some (Some f, (pool, [], [9]))"
proof -
  let ?env = "demo_dbi_env True"
  obtain f pool where p: "RunDBITask ?env demo_load_api demo_dbi_config demo_launch ([], demo_converted, []) = Some (Some f, (pool, [], [9]))"
    using demo_RunDBITask [of True] by auto
  have s: "launch_regId (demo_relaunch i) = launch_regId demo_launch" "launch_name (demo_relaunch i) = launch_name demo_launch" for i
    by (simp_all add: launch_regId_def)
  have "RunDBITask ?env demo_load_api demo_dbi_config (demo_relaunch 1) (pool, [], [9]) = Some (Some f, (pool, [], [9]))"
    by (rule converted_once [OF p pool_runs.start s refl refl demo_env(6) demo_instrumentable(1)])
  from pool_runs.launch [OF pool_runs.start this demo_env(6)]
  have run: "pool_runs ?env demo_load_api demo_register_api (launch_regId demo_launch) pool pool" .
  have "RunDBITask ?env demo_load_api demo_dbi_config (demo_relaunch 2) (pool, [], [9]) = Some (Some f, (pool, [], [9]))"
    by (rule converted_once [OF p run s refl refl demo_env(6) demo_instrumentable(1)])
  with p run show ?thesis by blast
qed

theorem failed_conversion_retried_witness:
  "\<exists>pool t. RunDBITask (demo_dbi_env False) demo_load_api demo_dbi_config demo_launch ([], demo_converted, []) =
       Some (None, (pool, [], [])) \<and>
     map_of (tasks_of (launch_regId demo_launch) pool) (task_key demo_dbi_config (launch_name demo_launch)) = Some t \<and>
     NeedConvert (demo_dbi_env False) demo_dbi_config t []"
proof -
  obtain pool where p: "RunDBITask (demo_dbi_env False) demo_load_api demo_dbi_config demo_launch ([], demo_converted, []) =
      Some (None, (pool, [], []))"
    using demo_RunDBITask [of False] by auto
  let ?key = "task_key demo_dbi_config (launch_name demo_launch)"
  have g: "GetOrCreate (launch_regId demo_launch) ?key [] =
      (new_dbi_task (tk_biType ?key), put_task (launch_regId demo_launch) ?key (new_dbi_task (tk_biType ?key)) [])"
    by (simp add: GetOrCreate_def tasks_of_def Let_def)
  have n: "dt_replace (new_dbi_task t) = None" "tc_keep demo_dbi_config \<longrightarrow> dt_funcCtx (new_dbi_task t) = None" for t
    by (simp_all add: new_dbi_task_def)
  from failed_conversion_retried [OF p demo_instrumentable(2) g n] p show ?thesis by blast
qed

definition demo_replacement :: replacement where
  "demo_replacement = \<lparr>rl_oldKernelRegId = None, rl_kernelPath = demo_new_kernel,
     rl_matcher = Some \<lparr>km_launchId = Some 0, km_regId = None, km_kernelName = []\<rparr>, rl_task = None\<rparr>"

theorem replacement_balanced_witness:
  "\<exists>st t. replacement_runs (demo_dbi_env True) demo_register_api (demo_replacement, False) st \<and> rl_task (fst st) = Some t \<and>
     (if snd st then {9} else {}) = {rt_handle t}"
proof -
  let ?st = "CreateHandle (demo_dbi_env True) demo_register_api demo_launched_kernel True (Some 0) demo_converted (demo_replacement, False)"
  have k: "de_kernel (demo_dbi_env True) = demo_kernel_env" by (simp add: demo_dbi_env_def)
  have reg: "GetRegisterId_launch demo_launched_kernel (GetDeviceContext demo_kernel_env demo_launched_kernel) (Some 0) = Some 0"
    by (simp add: GetRegisterId_launch_def GetLaunchEvent_def GetDeviceContext_def demo_kernel_env_def demo_launched_kernel_def
        demo_registered_kernel_def new_kernel_context_def GetRegisterId_def demo_launch_event_def)
  have ev: "GetRegisterEvent demo_launched_kernel (Some 0) = Some demo_register_event"
    by (simp add: GetRegisterEvent_def demo_launched_kernel_def demo_registered_kernel_def)
  define t where "t = \<lparr>rt_kernelPath = demo_new_kernel, rt_bin = Some ((ev_bin demo_register_event)\<lparr>db_data := [1, 1, 1, 1]\<rparr>), rt_handle = 9\<rparr>"
  have replaced: "replace_Run (demo_dbi_env True) demo_register_api demo_launched_kernel (Some 0) False (new_replace_task demo_new_kernel)
      demo_converted False = (Some 9, t, True)"
    by (simp add: replace_Run_def ev new_replace_task_def demo_read demo_env demo_register_api_def t_def)
  have r: "demo_new_kernel \<noteq> []" "rl_kernelPath demo_replacement = demo_new_kernel" "rl_oldKernelRegId demo_replacement = None"
    "rl_task demo_replacement = None" "rl_matcher demo_replacement = Some \<lparr>km_launchId = Some 0, km_regId = None, km_kernelName = []\<rparr>"
    by (simp_all add: demo_new_kernel_def demo_replacement_def)
  have t: "rt_handle t = 9" "snd ?st = (demo_replacement\<lparr>rl_task := Some t, rl_oldKernelRegId := Some 0\<rparr>, True)"
    by (simp add: t_def) (simp add: CreateHandle_def k reg r replaced Let_def Match_def IsMatchAll_def replace_destroy_def)
  have run: "replacement_runs (demo_dbi_env True) demo_register_api (demo_replacement, False) (snd ?st)"
    by (rule replacement_runs.create [OF replacement_runs.start, of _ _ _ _ _ _ _ "fst ?st"]) simp
  have ok: "registers_ok demo_register_api (\<lambda>l. if l then {9} else {})"
    by (auto simp: registers_ok_def demo_register_api_def split: if_splits)
  have none: "rl_task (fst (demo_replacement, False)) = None" by (simp add: demo_replacement_def)
  show ?thesis
    using run replacement_balanced [OF run ok none] t by (intro exI [of _ "snd ?st"] exI [of _ t]) (simp add: held_def)
qed

end
