(* ===== verification/ApiHooks.thy ===== *)
theory ApiHooks
  imports Launches
begin

text \<open>
  The hooks by which a program of the ACL interface makes its binaries, functions and arguments known:
  \<open>csrc/acl_rt_impl/HijackedFuncOfAclrt{Binary*,CreateBinary,KernelArgs*}Impl.cpp\<close>. Each runs after the original call, gives
  back what that returned and changes one of the managers; \<open>ok\<close> says that the original succeeded. A pointer argument of the
  program is \<open>None\<close> when it is null, otherwise what it points at.
\<close>

section \<open>Arguments by handle\<close>

text \<open>The context of a handle is taken for one of a handle without a test: anything else is a wrong cast, \<open>None\<close>.\<close>

definition on_handle :: "ptr \<Rightarrow> (handle_args \<Rightarrow> handle_args) \<Rightarrow> args_manager \<Rightarrow> args_manager option" where
  "on_handle argsHandle f am =
     (case GetContext argsHandle am of
        None \<Rightarrow> Some am
      | Some (RawContext c) \<Rightarrow> None
      | Some (HandleContext c) \<Rightarrow>
          Some (am\<lparr>am_contexts := omap_put argsHandle (HandleContext (f c)) (am_contexts am)\<rparr>))"

definition KernelArgsInit_Post :: "bool \<Rightarrow> ptr \<Rightarrow> ptr option \<Rightarrow> args_manager \<Rightarrow> args_manager" where
  "KernelArgsInit_Post ok funcHandle argsHandle am =
     (case argsHandle of
        None \<Rightarrow> am
      | Some h \<Rightarrow> if \<not> ok \<or> funcHandle = 0 \<or> h = 0 then am else snd (CreateContext_handle funcHandle h am))"

definition KernelArgsInitByUserMem_Post :: "bool \<Rightarrow> ptr \<Rightarrow> ptr \<Rightarrow> args_manager \<Rightarrow> args_manager" where
  "KernelArgsInitByUserMem_Post ok funcHandle argsHandle am =
     (if \<not> ok \<or> funcHandle = 0 \<or> argsHandle = 0 then am else snd (CreateContext_handle funcHandle argsHandle am))"

definition KernelArgsAppend_Post :: "bool \<Rightarrow> ptr \<Rightarrow> u8 list \<Rightarrow> ptr option \<Rightarrow> args_manager \<Rightarrow> args_manager option" where
  "KernelArgsAppend_Post ok argsHandle param paramHandle am =
     (case paramHandle of
        None \<Rightarrow> Some am
      | Some q \<Rightarrow> if \<not> ok then Some am else on_handle argsHandle (CacheArgsAppendOp param q) am)"

definition KernelArgsAppendPlaceHolder_Post :: "bool \<Rightarrow> ptr \<Rightarrow> ptr option \<Rightarrow> args_manager \<Rightarrow> args_manager option" where
  "KernelArgsAppendPlaceHolder_Post ok argsHandle paramHandle am =
     (case paramHandle of
        None \<Rightarrow> Some am
      | Some q \<Rightarrow> if \<not> ok then Some am else on_handle argsHandle (CacheArgsAppendPlaceholderOp q) am)"

text \<open>The buffer's pointer is read without a test, after the call succeeded.\<close>

definition KernelArgsGetPlaceHolderBuffer_Post ::
  "bool \<Rightarrow> ptr \<Rightarrow> ptr \<Rightarrow> nat \<Rightarrow> ptr \<Rightarrow> args_manager \<Rightarrow> args_manager option" where
  "KernelArgsGetPlaceHolderBuffer_Post ok argsHandle paramHandle dataSize buffer am =
     (if \<not> ok \<or> paramHandle = 0 then Some am
      else if dataSize > MAX_ALL_PARAM_SIZE then Some am
      else on_handle argsHandle (CacheArgsGetPlaceholderBufferOp paramHandle dataSize buffer) am)"

definition KernelArgsParaUpdate_Post :: "bool \<Rightarrow> ptr \<Rightarrow> ptr \<Rightarrow> u8 list \<Rightarrow> args_manager \<Rightarrow> args_manager option" where
  "KernelArgsParaUpdate_Post ok argsHandle paramHandle param am =
     (if \<not> ok \<or> paramHandle = 0 then Some am
      else if length param > MAX_SINGLE_PARAM_SIZE then Some am
      else on_handle argsHandle (CacheArgsParaUpdateOp paramHandle param) am)"

text \<open>\<open>mem\<close> is the host memory the program has filled.\<close>

definition KernelArgsFinalize_Post :: "(ptr \<Rightarrow> nat \<Rightarrow> u8 list) \<Rightarrow> bool \<Rightarrow> ptr \<Rightarrow> args_manager \<Rightarrow> args_manager option" where
  "KernelArgsFinalize_Post mem ok argsHandle am =
     (if \<not> ok then Some am
      else case GetContext argsHandle am of
        None \<Rightarrow> Some am
      | Some (RawContext c) \<Rightarrow> None
      | Some (HandleContext c) \<Rightarrow>
          let c1 = handle_Finalize mem c
          in Some (am\<lparr>am_contexts := omap_put argsHandle (HandleContext c1) (am_contexts am),
                      am_argsSize := word_of_nat (CalcUserArgsSize c1)\<rparr>))"

section \<open>Binaries and functions\<close>

definition LOAD_OPT_MAGIC :: u32 where "LOAD_OPT_MAGIC = 2"
definition LOAD_OPT_CPU_KERNEL_MODE :: u32 where "LOAD_OPT_CPU_KERNEL_MODE = 3"

definition option_magic :: "load_option \<Rightarrow> u32" where
  "option_magic opt = (case lo_value opt of [] \<Rightarrow> 0 | v # vs \<Rightarrow> v)"

text \<open>The options the count promises are read from the array; \<open>None\<close> is a read behind it.\<close>

fun options_magic :: "load_option list \<Rightarrow> nat \<Rightarrow> u32 \<Rightarrow> u32 option" where
  "options_magic opts 0 magic = Some magic"
| "options_magic [] (Suc n) magic = None"
| "options_magic (opt # opts) (Suc n) magic =
     (let magic1 = (if lo_type opt = LOAD_OPT_MAGIC then option_magic opt else magic) in
      if lo_type opt = LOAD_OPT_CPU_KERNEL_MODE then Some RT_DEV_BINARY_MAGIC_ELF_AICPU else options_magic opts n magic1)"

text \<open>A null array is one without options.\<close>

definition data_magic :: "load_options option \<Rightarrow> u32 option" where
  "data_magic op =
     (case op of
        Some o1 \<Rightarrow> options_magic (case ls_options o1 of None \<Rightarrow> [] | Some opts \<Rightarrow> opts) (ls_numOpt o1) RT_DEV_BINARY_MAGIC_ELF
      | None \<Rightarrow> Some RT_DEV_BINARY_MAGIC_ELF)"

text \<open>The outer \<open>None\<close> is a read outside the image or the options.\<close>

definition BinaryLoadFromData_Post ::
  "'f reg_env \<Rightarrow> bool \<Rightarrow> u8 list option \<Rightarrow> load_options option \<Rightarrow> ptr option \<Rightarrow> register_manager \<Rightarrow> register_manager option" where
  "BinaryLoadFromData_Post env ok bin op binHandle gm =
     (case (bin, binHandle) of
        (Some bs, Some h) \<Rightarrow>
          if \<not> ok then Some gm
          else (case data_magic op of
                  None \<Rightarrow> None
                | Some magic \<Rightarrow> map_option snd (CreateContext_data env bs h magic op gm))
      | _ \<Rightarrow> Some gm)"

definition BinaryLoad_Post :: "'f reg_env \<Rightarrow> bool \<Rightarrow> ptr \<Rightarrow> ptr option \<Rightarrow> register_manager \<Rightarrow> register_manager option" where
  "BinaryLoad_Post env ok bin binHandle gm =
     (case binHandle of
        None \<Rightarrow> Some gm
      | Some h \<Rightarrow>
          if \<not> ok \<or> bin = 0 then Some gm
          else map_option snd (CreateContext_binary env bin h RT_DEV_BINARY_MAGIC_ELF None gm))"

text \<open>The suffix from the last dot, and the path before it.\<close>

definition split_suffix :: "string \<Rightarrow> string \<times> string" where
  "split_suffix path =
     (let r = dropWhile (\<lambda>c. c \<noteq> CHR ''.'') (rev path) in
      if r = [] then (path, []) else (rev (tl r), drop (length r - 1) path))"

text \<open>\<open>readMagic\<close> reads the magic's name from a JSON file.\<close>

definition file_magic :: "(string \<Rightarrow> 'f \<Rightarrow> string option) \<Rightarrow> string \<Rightarrow> 'f \<Rightarrow> u32" where
  "file_magic readMagic stem fs =
     (case readMagic (stem @ ''.json'') fs of
        None \<Rightarrow> RT_DEV_BINARY_MAGIC_ELF
      | Some s \<Rightarrow> (case ParseMagicStr s of None \<Rightarrow> RT_DEV_BINARY_MAGIC_ELF | Some m \<Rightarrow> m))"

definition BinaryLoadFromFile_Post ::
  "'f reg_env \<Rightarrow> (string \<Rightarrow> 'f \<Rightarrow> string option) \<Rightarrow> bool \<Rightarrow> string option \<Rightarrow> load_options option \<Rightarrow> ptr option \<Rightarrow> 'f \<Rightarrow>
   register_manager \<Rightarrow> register_manager option" where
  "BinaryLoadFromFile_Post env readMagic ok binPath op binHandle fs gm =
     (case (binPath, binHandle) of
        (Some path, Some h) \<Rightarrow>
          if \<not> ok then Some gm
          else let (stem, suffix) = split_suffix path;
                   magic = (if suffix = ''.o'' then file_magic readMagic stem fs else RT_DEV_BINARY_MAGIC_ELF)
            in if suffix = ''.json'' then Some gm
               else map_option snd (CreateContext_file env path h magic op fs gm)
      | _ \<Rightarrow> Some gm)"

definition CreateBinary_Post :: "ptr \<Rightarrow> u8 list option \<Rightarrow> register_manager \<Rightarrow> register_manager" where
  "CreateBinary_Post bin data gm =
     (case data of None \<Rightarrow> gm | Some bs \<Rightarrow> if bin = 0 \<or> bs = [] then gm else CacheElfData bin bs gm)"

definition KERNEL_NAME_MAX :: u64 where "KERNEL_NAME_MAX = 2048"

definition BinaryGetFunction_Post ::
  "bool \<Rightarrow> ptr \<Rightarrow> string option \<Rightarrow> ptr option \<Rightarrow> register_manager \<Rightarrow> func_manager \<Rightarrow> func_manager" where
  "BinaryGetFunction_Post ok binHandle kernelName funcHandle gm fm =
     (case (kernelName, funcHandle) of
        (Some name, Some f) \<Rightarrow>
          if \<not> ok \<or> binHandle = 0 \<or> f = 0 then fm
          else snd (CreateContext_stub gm binHandle (take (unat (GetValidLength name KERNEL_NAME_MAX)) name) f fm)
      | _ \<Rightarrow> fm)"

definition BinaryGetFunctionByEntry_Post ::
  "bool \<Rightarrow> ptr \<Rightarrow> u64 \<Rightarrow> ptr option \<Rightarrow> register_manager \<Rightarrow> func_manager \<Rightarrow> func_manager" where
  "BinaryGetFunctionByEntry_Post ok binHandle funcEntry funcHandle gm fm =
     (case funcHandle of
        None \<Rightarrow> fm
      | Some f \<Rightarrow>
          if \<not> ok \<or> binHandle = 0 \<or> f = 0 then fm else snd (CreateContext_entry gm binHandle funcEntry f fm))"

section \<open>Every handle records its own calls\<close>

text \<open>Successful calls; the parameter handles are those the runtime gave out.\<close>

datatype args_call = ArgsInit ptr | ArgsAppend "u8 list" ptr | ArgsPlaceholder ptr | ArgsUpdate ptr "u8 list"
  | ArgsBuffer ptr nat ptr | ArgsFinalize

fun args_call_step :: "(ptr \<Rightarrow> nat \<Rightarrow> u8 list) \<Rightarrow> ptr \<Rightarrow> args_call \<Rightarrow> args_manager \<Rightarrow> args_manager option" where
  "args_call_step mem a (ArgsInit f) am = Some (KernelArgsInit_Post True f (Some a) am)"
| "args_call_step mem a (ArgsAppend bs q) am = KernelArgsAppend_Post True a bs (Some q) am"
| "args_call_step mem a (ArgsPlaceholder q) am = KernelArgsAppendPlaceHolder_Post True a (Some q) am"
| "args_call_step mem a (ArgsUpdate q bs) am = KernelArgsParaUpdate_Post True a q bs am"
| "args_call_step mem a (ArgsBuffer q n b) am = KernelArgsGetPlaceHolderBuffer_Post True a q n b am"
| "args_call_step mem a ArgsFinalize am = KernelArgsFinalize_Post mem True a am"

fun args_run :: "(ptr \<Rightarrow> nat \<Rightarrow> u8 list) \<Rightarrow> (ptr \<times> args_call) list \<Rightarrow> args_manager \<Rightarrow> args_manager option" where
  "args_run mem [] am = Some am"
| "args_run mem ((a, call) # ops) am =
     (case args_call_step mem a call am of None \<Rightarrow> None | Some am1 \<Rightarrow> args_run mem ops am1)"

definition own :: "ptr \<Rightarrow> (ptr \<times> args_call) list \<Rightarrow> args_call list" where
  "own a ops = map snd (filter (\<lambda>op. fst op = a) ops)"

fun ctx_step :: "(ptr \<Rightarrow> nat \<Rightarrow> u8 list) \<Rightarrow> args_call \<Rightarrow> handle_args \<Rightarrow> handle_args" where
  "ctx_step mem (ArgsInit f) c = c"
| "ctx_step mem (ArgsAppend bs q) c = CacheArgsAppendOp bs q c"
| "ctx_step mem (ArgsPlaceholder q) c = CacheArgsAppendPlaceholderOp q c"
| "ctx_step mem (ArgsUpdate q bs) c =
     (if q = 0 \<or> length bs > MAX_SINGLE_PARAM_SIZE then c else CacheArgsParaUpdateOp q bs c)"
| "ctx_step mem (ArgsBuffer q n b) c =
     (if q = 0 \<or> n > MAX_ALL_PARAM_SIZE then c else CacheArgsGetPlaceholderBufferOp q n b c)"
| "ctx_step mem ArgsFinalize c = handle_Finalize mem c"

definition am_sorted :: "args_manager \<Rightarrow> bool" where
  "am_sorted am \<longleftrightarrow> sorted_wrt (<) (map fst (am_contexts am))"

lemma GetContext_put:
  "am_sorted am \<Longrightarrow> GetContext b (am\<lparr>am_contexts := omap_put a x (am_contexts am)\<rparr>) = (if b = a then Some x else GetContext b am)"
  by (simp add: GetContext_def am_sorted_def map_of_omap_put)

lemma GetContext_size [simp]: "GetContext b (am\<lparr>am_argsSize := n\<rparr>) = GetContext b am"
  by (simp add: GetContext_def)

lemma am_sorted_put [simp]: "am_sorted am \<Longrightarrow> am_sorted (am\<lparr>am_contexts := omap_put a x (am_contexts am)\<rparr>)"
  by (simp add: am_sorted_def omap_put_sorted)

lemma am_sorted_size [simp]: "am_sorted (am\<lparr>am_argsSize := n\<rparr>) = am_sorted am"
  by (simp add: am_sorted_def)

lemmas args_posts = KernelArgsInit_Post_def KernelArgsAppend_Post_def KernelArgsAppendPlaceHolder_Post_def
  KernelArgsParaUpdate_Post_def KernelArgsGetPlaceHolderBuffer_Post_def KernelArgsFinalize_Post_def CreateContext_handle_def
  on_handle_def

lemma args_call_step_sorted: "args_call_step mem a call am = Some am1 \<Longrightarrow> am_sorted am \<Longrightarrow> am_sorted am1"
  by (cases call) (auto simp: args_posts Let_def split: option.splits args_context.splits if_splits)

lemma args_call_step_other:
  "args_call_step mem b call am = Some am1 \<Longrightarrow> am_sorted am \<Longrightarrow> b \<noteq> a \<Longrightarrow> GetContext a am1 = GetContext a am"
  by (cases call) (auto simp: args_posts Let_def GetContext_put split: option.splits args_context.splits if_splits)

lemma args_call_step_own:
  "args_call_step mem a call am = Some am1 \<Longrightarrow> am_sorted am \<Longrightarrow> GetContext a am = Some (HandleContext c) \<Longrightarrow>
   \<forall>f. call \<noteq> ArgsInit f \<Longrightarrow> GetContext a am1 = Some (HandleContext (ctx_step mem call c))"
  by (cases call) (auto simp: args_posts Let_def GetContext_put split: if_splits)

lemma args_run_own:
  "args_run mem ops am = Some am1 \<Longrightarrow> am_sorted am \<Longrightarrow> GetContext a am = Some (HandleContext c) \<Longrightarrow>
   \<forall>f. ArgsInit f \<notin> set (own a ops) \<Longrightarrow>
   GetContext a am1 = Some (HandleContext (fold (ctx_step mem) (own a ops) c))"
proof (induction ops arbitrary: am c)
  case Nil
  then show ?case by (simp add: own_def)
next
  case (Cons op ops)
  obtain b call where op: "op = (b, call)" by (cases op)
  then obtain am2 where am2: "args_call_step mem b call am = Some am2" "args_run mem ops am2 = Some am1"
    using Cons.prems(1) by (auto split: option.splits)
  have s: "am_sorted am2" using args_call_step_sorted am2(1) Cons.prems(2) by blast
  show ?case
  proof (cases "b = a")
    case True
    then have o: "own a (op # ops) = call # own a ops" by (simp add: own_def op)
    then have "GetContext a am2 = Some (HandleContext (ctx_step mem call c))"
      using args_call_step_own [OF am2(1) [unfolded True] Cons.prems(2,3)] Cons.prems(4) by auto
    then show ?thesis using Cons.IH [OF am2(2) s] Cons.prems(4) o by simp
  next
    case False
    then have "own a (op # ops) = own a ops" by (simp add: own_def op)
    moreover have "GetContext a am2 = Some (HandleContext c)"
      using args_call_step_other [OF am2(1) Cons.prems(2) False] Cons.prems(3) by simp
    ultimately show ?thesis using Cons.IH [OF am2(2) s] Cons.prems(4) by simp
  qed
qed

section \<open>What the program put there\<close>

text \<open>The parameters in order, with the first bytes of a plain one; the updates and buffers of a parameter.\<close>

definition created :: "args_call list \<Rightarrow> (ptr \<times> u8 list option) list" where
  "created cs = List.map_filter (\<lambda>call. case call of
     ArgsAppend bs q \<Rightarrow> Some (q, Some bs) | ArgsPlaceholder q \<Rightarrow> Some (q, None) | _ \<Rightarrow> None) cs"

definition updates :: "ptr \<Rightarrow> args_call list \<Rightarrow> u8 list list" where
  "updates q cs = List.map_filter (\<lambda>call. case call of ArgsUpdate q1 bs \<Rightarrow> if q1 = q then Some bs else None | _ \<Rightarrow> None) cs"

definition buffers :: "ptr \<Rightarrow> args_call list \<Rightarrow> (ptr \<times> nat) list" where
  "buffers q cs = List.map_filter (\<lambda>call. case call of ArgsBuffer q1 n b \<Rightarrow> if q1 = q then Some (b, n) else None | _ \<Rightarrow> None) cs"

text \<open>The last update counts; a placeholder holds what its last buffer held at the end.\<close>

definition contents :: "(ptr \<Rightarrow> nat \<Rightarrow> u8 list) \<Rightarrow> args_call list \<Rightarrow> (ParamType \<times> u8 list) list" where
  "contents mem cs =
     map (\<lambda>(q, k). case k of
        Some bs \<Rightarrow> (NORMAL, last (bs # updates q cs))
      | None \<Rightarrow> (PLACEHOLDER, let (b, n) = last ((0, 0) # buffers q cs) in mem b n)) (created cs)"

text \<open>Parameters within the limits, with new handles, updated and given buffers after they were made.\<close>

fun wf_call :: "(ptr \<times> u8 list option) list \<Rightarrow> args_call \<Rightarrow> bool" where
  "wf_call seen (ArgsAppend bs q) \<longleftrightarrow> q \<noteq> 0 \<and> q \<notin> fst ` set seen \<and> length bs \<le> MAX_SINGLE_PARAM_SIZE"
| "wf_call seen (ArgsPlaceholder q) \<longleftrightarrow> q \<noteq> 0 \<and> q \<notin> fst ` set seen"
| "wf_call seen (ArgsUpdate q bs) \<longleftrightarrow> list_ex (\<lambda>(q1, k). q1 = q \<and> k \<noteq> None) seen \<and> length bs \<le> MAX_SINGLE_PARAM_SIZE"
| "wf_call seen (ArgsBuffer q n b) \<longleftrightarrow> list_ex (\<lambda>(q1, k). q1 = q \<and> k = None) seen \<and> n \<le> MAX_ALL_PARAM_SIZE"
| "wf_call seen _ \<longleftrightarrow> False"

fun wf_from :: "(ptr \<times> u8 list option) list \<Rightarrow> args_call list \<Rightarrow> bool" where
  "wf_from seen [] \<longleftrightarrow> True"
| "wf_from seen (call # cs) \<longleftrightarrow> wf_call seen call \<and> wf_from (seen @ created [call]) cs"

abbreviation wf_calls :: "args_call list \<Rightarrow> bool" where
  "wf_calls cs \<equiv> wf_from [] cs"

lemma map_filter_append: "List.map_filter f (xs @ ys) = List.map_filter f xs @ List.map_filter f ys"
  by (simp add: List.map_filter_def)

lemma created_append: "created (xs @ ys) = created xs @ created ys"
  by (simp add: created_def map_filter_append)

lemma updates_append: "updates q (xs @ ys) = updates q xs @ updates q ys"
  by (simp add: updates_def map_filter_append)

lemma buffers_append: "buffers q (xs @ ys) = buffers q xs @ buffers q ys"
  by (simp add: buffers_def map_filter_append)

lemma wf_from_append: "wf_from seen (xs @ ys) \<longleftrightarrow> wf_from seen xs \<and> wf_from (seen @ created xs) ys"
proof (induction xs arbitrary: seen)
  case Nil
  then show ?case by (simp add: created_def List.map_filter_def)
next
  case (Cons c cs)
  then show ?case using created_append [of "[c]" cs] by simp
qed

lemma wf_from_snoc: "wf_from seen (cs @ [call]) \<longleftrightarrow> wf_from seen cs \<and> wf_call (seen @ created cs) call"
  by (simp add: wf_from_append)

lemma created_one:
  "created [ArgsAppend bs q] = [(q, Some bs)]" "created [ArgsPlaceholder q] = [(q, None)]"
  "created [ArgsUpdate q bs] = []" "created [ArgsBuffer q n b] = []"
  by (simp_all add: created_def List.map_filter_def)

lemma updates_one:
  "updates q [ArgsAppend bs q1] = []" "updates q [ArgsPlaceholder q1] = []" "updates q [ArgsBuffer q1 n b] = []"
  "updates q [ArgsUpdate q1 bs] = (if q1 = q then [bs] else [])"
  by (simp_all add: updates_def List.map_filter_def)

lemma buffers_one:
  "buffers q [ArgsAppend bs q1] = []" "buffers q [ArgsPlaceholder q1] = []" "buffers q [ArgsUpdate q1 bs] = []"
  "buffers q [ArgsBuffer q1 n b] = (if q1 = q then [(b, n)] else [])"
  by (simp_all add: buffers_def List.map_filter_def)

lemmas calls_snoc = created_append created_one updates_append updates_one buffers_append buffers_one

text \<open>A parameter nobody made has no updates and no buffers.\<close>

lemma wf_calls_handles:
  "wf_calls cs \<Longrightarrow> distinct (map fst (created cs)) \<and> 0 \<notin> fst ` set (created cs) \<and>
     (\<forall>q. q \<notin> fst ` set (created cs) \<longrightarrow> updates q cs = [] \<and> buffers q cs = [])"
proof (induction cs rule: rev_induct)
  case Nil
  then show ?case by (simp add: created_def updates_def buffers_def List.map_filter_def)
next
  case (snoc call cs)
  then have w: "wf_call (created cs) call" and "wf_calls cs" by (simp_all add: wf_from_snoc)
  then have IH: "distinct (map fst (created cs))" "0 \<notin> fst ` set (created cs)"
    "\<And>q. q \<notin> fst ` set (created cs) \<Longrightarrow> updates q cs = [] \<and> buffers q cs = []" using snoc.IH by auto
  show ?case
    using w IH by (cases call) (auto simp: calls_snoc list_ex_iff, (force+)?)
qed

section \<open>What is recorded\<close>

definition entry :: "args_call list \<Rightarrow> ptr \<times> u8 list option \<Rightarrow> ptr \<times> (u8 list + ptr \<times> nat)" where
  "entry cs qk = (fst qk, case snd qk of
     Some bs \<Rightarrow> Inl (last (bs # updates (fst qk) cs)) | None \<Rightarrow> Inr (last ((0, 0) # buffers (fst qk) cs)))"

definition param_view :: "ParamData \<Rightarrow> ptr \<times> (u8 list + ptr \<times> nat)" where
  "param_view p = (pd_paramHandle p,
     if pd_type p = NORMAL then Inl (pd_param p) else Inr (pd_srcBuffer p, length (pd_param p)))"

lemma update_first_distinct:
  "distinct (map key ps) \<Longrightarrow> update_first (\<lambda>p. key p = q) f ps = map (\<lambda>p. if key p = q then f p else p) ps"
proof (induction ps)
  case (Cons p ps)
  then have "key p = q \<Longrightarrow> map (\<lambda>p. if key p = q then f p else p) ps = ps"
    by (intro map_idI) (auto simp: image_iff)
  then show ?case using Cons by auto
qed simp

lemma map_pointwise:
  "map f xs = map g ys \<Longrightarrow> (\<And>x y. y \<in> set ys \<Longrightarrow> f x = g y \<Longrightarrow> f' x = g' y) \<Longrightarrow> map f' xs = map g' ys"
proof (induction xs arbitrary: ys)
  case (Cons x xs)
  then obtain y ys' where "ys = y # ys'" "f x = g y" "map f xs = map g ys'" by (cases ys) auto
  then show ?case using Cons.IH [of ys'] Cons.prems(2) by auto
qed simp

lemma recorded_params:
  "wf_calls cs \<Longrightarrow>
   map param_view (ha_params (fold (ctx_step mem) cs (new_handle_args f a))) = map (entry cs) (created cs)"
proof (induction cs rule: rev_induct)
  case Nil
  then show ?case by (simp add: created_def List.map_filter_def new_handle_args_def)
next
  case (snoc call cs)
  then have w: "wf_call (created cs) call" and wf: "wf_calls cs" by (simp_all add: wf_from_snoc)
  let ?c = "fold (ctx_step mem) cs (new_handle_args f a)"
  have IH: "map param_view (ha_params ?c) = map (entry cs) (created cs)" using snoc.IH wf by blast
  have keys: "map pd_paramHandle (ha_params ?c) = map fst (created cs)"
    using arg_cong [OF IH, of "map fst"] by (simp add: param_view_def entry_def comp_def)
  have d: "distinct (map pd_paramHandle (ha_params ?c))" "0 \<notin> fst ` set (created cs)"
    and distinct: "distinct (map fst (created cs))" and new: "\<And>q. q \<notin> fst ` set (created cs) \<Longrightarrow> updates q cs = [] \<and> buffers q cs = []"
    using wf_calls_handles [OF wf] keys by auto
  show ?case
  proof (cases call)
    case (ArgsAppend bs q)
    then have "map (entry (cs @ [call])) (created cs) = map (entry cs) (created cs)"
      by (auto simp: entry_def calls_snoc split: option.splits)
    moreover have "entry (cs @ [call]) (q, Some bs) = (q, Inl bs)"
      using w new [of q] ArgsAppend by (simp add: entry_def calls_snoc)
    moreover have "param_view \<lparr>pd_paramHandle = q, pd_param = bs, pd_type = NORMAL, pd_srcBuffer = 0\<rparr> = (q, Inl bs)"
      by (simp add: param_view_def)
    ultimately show ?thesis
      using w IH ArgsAppend by (simp add: CacheArgsAppendOp_def created_append created_one)
  next
    case (ArgsPlaceholder q)
    then have "map (entry (cs @ [call])) (created cs) = map (entry cs) (created cs)"
      by (auto simp: entry_def calls_snoc split: option.splits)
    moreover have "entry (cs @ [call]) (q, None) = (q, Inr (0, 0))"
      using w new [of q] ArgsPlaceholder by (simp add: entry_def calls_snoc)
    moreover have "param_view \<lparr>pd_paramHandle = q, pd_param = [], pd_type = PLACEHOLDER, pd_srcBuffer = 0\<rparr> = (q, Inr (0, 0))"
      by (simp add: param_view_def)
    ultimately show ?thesis
      using w IH ArgsPlaceholder by (simp add: CacheArgsAppendPlaceholderOp_def created_append created_one)
  next
    case (ArgsUpdate q bs)
    then obtain bs0 where q: "(q, Some bs0) \<in> set (created cs)" "length bs \<le> MAX_SINGLE_PARAM_SIZE"
      using w by (auto simp: list_ex_iff)
    then have "q \<noteq> 0" using d(2) by force
    have "map (\<lambda>p. param_view (if pd_paramHandle p = q then p\<lparr>pd_param := bs\<rparr> else p)) (ha_params ?c) =
        map (entry (cs @ [call])) (created cs)"
    proof (rule map_pointwise [OF IH])
      fix p qk assume qk: "qk \<in> set (created cs)" "param_view p = entry cs qk"
      have "snd qk = Some bs0" if "fst qk = q"
        using eq_key_imp_eq_value [OF distinct q(1), of "snd qk"] qk(1) that by (cases qk) auto
      then show "param_view (if pd_paramHandle p = q then p\<lparr>pd_param := bs\<rparr> else p) = entry (cs @ [call]) qk"
        using qk(2) ArgsUpdate
        by (auto simp: param_view_def entry_def calls_snoc split: option.splits if_splits)
    qed
    then show ?thesis
      using q(2) \<open>q \<noteq> 0\<close> ArgsUpdate by (simp add: CacheArgsParaUpdateOp_def update_first_distinct [OF d(1)] calls_snoc comp_def)
  next
    case (ArgsBuffer q n b)
    then have q: "(q, None) \<in> set (created cs)" "n \<le> MAX_ALL_PARAM_SIZE"
      using w by (auto simp: list_ex_iff)
    then have "q \<noteq> 0" using d(2) by force
    have "map (\<lambda>p. param_view (if pd_paramHandle p = q then p\<lparr>pd_srcBuffer := b, pd_param := resize n (pd_param p)\<rparr> else p))
        (ha_params ?c) = map (entry (cs @ [call])) (created cs)"
    proof (rule map_pointwise [OF IH])
      fix p qk assume qk: "qk \<in> set (created cs)" "param_view p = entry cs qk"
      have "snd qk = None" if "fst qk = q"
        using eq_key_imp_eq_value [OF distinct q(1), of "snd qk"] qk(1) that by (cases qk) auto
      then show "param_view (if pd_paramHandle p = q then p\<lparr>pd_srcBuffer := b, pd_param := resize n (pd_param p)\<rparr> else p) =
          entry (cs @ [call]) qk"
        using qk(2) ArgsBuffer
        by (auto simp: param_view_def entry_def calls_snoc resize_def split: option.splits if_splits)
    qed
    then show ?thesis
      using q(2) \<open>q \<noteq> 0\<close> ArgsBuffer
      by (simp add: CacheArgsGetPlaceholderBufferOp_def update_first_distinct [OF d(1)] calls_snoc comp_def)
  qed (use w in simp_all)
qed

section \<open>A handle that is built again\<close>

text \<open>
  What the runtime keeps for an argument handle: the parameters in order with their bytes. A new handle is empty, a call
  appends one parameter under a new handle, and the bytes stored behind a placeholder's buffer are its own.
\<close>

definition handle_spec :: "'h handle_api \<Rightarrow> ('h \<Rightarrow> (ptr \<times> ParamType \<times> u8 list) list) \<Rightarrow> bool" where
  "handle_spec api slots \<longleftrightarrow>
     (\<forall>f n m h h1. hk_init api f n m h = (True, h1) \<longrightarrow> slots h1 = []) \<and>
     (\<forall>bs h q h1. hk_append api bs h = (Some q, h1) \<longrightarrow> q \<notin> fst ` set (slots h) \<and> slots h1 = slots h @ [(q, NORMAL, bs)]) \<and>
     (\<forall>h q h1. hk_appendPlaceHolder api h = (Some q, h1) \<longrightarrow>
        q \<notin> fst ` set (slots h) \<and> slots h1 = slots h @ [(q, PLACEHOLDER, [])]) \<and>
     (\<forall>q h b h1 bs. hk_placeHolderBuffer api q (length bs) h = (Some b, h1) \<longrightarrow>
        slots (hk_store api b bs h1) = map (\<lambda>(q1, t, c). if q1 = q then (q1, t, bs) else (q1, t, c)) (slots h)) \<and>
     (\<forall>h h1. hk_finalize api h = (True, h1) \<longrightarrow> slots h1 = slots h)"

definition fresh_slot :: "ParamData \<times> ptr \<Rightarrow> ptr \<times> ParamType \<times> u8 list" where
  "fresh_slot pq = (snd pq, pd_type (fst pq), if pd_type (fst pq) = NORMAL then pd_param (fst pq) else [])"

definition full_slot :: "ParamData \<times> ptr \<Rightarrow> ptr \<times> ParamType \<times> u8 list" where
  "full_slot pq = (snd pq, pd_type (fst pq), pd_param (fst pq))"

lemma replay_append_slots:
  assumes "handle_spec api slots"
  shows "replay_append api ps h = (Some qs, h1) \<Longrightarrow>
    length qs = length ps \<and> slots h1 = slots h @ map fresh_slot (zip ps qs) \<and> distinct qs \<and> set qs \<inter> fst ` set (slots h) = {}"
proof (induction ps arbitrary: h qs)
  case Nil
  then show ?case by simp
next
  case (Cons p ps)
  obtain r h2 where r: "(if pd_type p = NORMAL then hk_append api (pd_param p) h else hk_appendPlaceHolder api h) = (r, h2)"
    by fastforce
  then obtain q where q: "r = Some q" using Cons.prems by (auto split: option.splits)
  obtain qs1 where qs: "replay_append api ps h2 = (Some qs1, h1)" "qs = q # qs1"
    using Cons.prems r q by (auto split: prod.splits)
  have s: "q \<notin> fst ` set (slots h)" "slots h2 = slots h @ [fresh_slot (p, q)]"
  proof -
    have "q \<notin> fst ` set (slots h) \<and> slots h2 = slots h @ [fresh_slot (p, q)]"
    proof (cases "pd_type p = NORMAL")
      case True
      then show ?thesis using r q assms by (simp add: handle_spec_def fresh_slot_def)
    next
      case False
      then have "pd_type p = PLACEHOLDER" by (cases "pd_type p") auto
      then show ?thesis using r q assms by (simp add: handle_spec_def fresh_slot_def)
    qed
    then show "q \<notin> fst ` set (slots h)" "slots h2 = slots h @ [fresh_slot (p, q)]" by simp_all
  qed
  show ?case using Cons.IH [OF qs(1)] s qs(2) by (auto simp: fresh_slot_def)
qed

lemma replay_buffers_slots:
  assumes "handle_spec api slots"
  shows "replay_buffers api zs h = (True, h1) \<Longrightarrow> slots h = pre @ map fresh_slot zs \<Longrightarrow> distinct (map snd zs) \<Longrightarrow>
    set (map snd zs) \<inter> fst ` set pre = {} \<Longrightarrow> slots h1 = pre @ map full_slot zs"
proof (induction zs arbitrary: h pre)
  case Nil
  then show ?case by simp
next
  case (Cons z zs)
  obtain p q where z: "z = (p, q)" by (cases z)
  show ?case
  proof (cases "pd_type p = PLACEHOLDER")
    case False
    then have "pd_type p = NORMAL" by (cases "pd_type p") auto
    then have "fresh_slot z = full_slot z" by (simp add: z fresh_slot_def full_slot_def)
    then have "slots h = (pre @ [full_slot z]) @ map fresh_slot zs" using Cons.prems(2) by simp
    moreover have "fst (full_slot z) = q" by (simp add: full_slot_def z)
    ultimately show ?thesis
      using Cons.IH [of h "pre @ [full_slot z]"] Cons.prems(1,3,4) False z by auto
  next
    case True
    obtain r h2 where r: "hk_placeHolderBuffer api q (length (pd_param p)) h = (r, h2)" by fastforce
    then obtain b where b: "r = Some b" "replay_buffers api zs (hk_store api b (pd_param p) h2) = (True, h1)"
      using Cons.prems(1) True z by (auto split: option.splits)
    have "slots (hk_store api b (pd_param p) h2) =
        map (\<lambda>(q1, t, c). if q1 = q then (q1, t, pd_param p) else (q1, t, c)) (slots h)"
      using assms r b(1) by (simp add: handle_spec_def)
    moreover have "map (\<lambda>(q1, t, c). if q1 = q then (q1, t, pd_param p) else (q1, t, c)) pre = pre"
      using Cons.prems(4) z by (intro map_idI) force
    moreover have "map (\<lambda>(q1, t, c). if q1 = q then (q1, t, pd_param p) else (q1, t, c)) (map fresh_slot zs) = map fresh_slot zs"
      using Cons.prems(3) z by (intro map_idI) (force simp: fresh_slot_def)
    ultimately have "slots (hk_store api b (pd_param p) h2) = (pre @ [full_slot z]) @ map fresh_slot zs"
      using Cons.prems(2) by (simp add: z fresh_slot_def full_slot_def)
    moreover have "fst (full_slot z) = q" by (simp add: full_slot_def z)
    ultimately show ?thesis using Cons.IH [OF b(2), of "pre @ [full_slot z]"] Cons.prems(3,4) z by auto
  qed
qed

lemma ReplayArgs_slots:
  assumes "handle_spec api slots" and "ReplayArgs api c h = (True, h1)" and "slots h = []"
  shows "map snd (slots h1) = map (\<lambda>p. (pd_type p, pd_param p)) (ha_params c)"
proof -
  obtain qs h2 where q: "replay_append api (ha_params c) h = (Some qs, h2)"
    "replay_buffers api (zip (ha_params c) qs) h2 = (True, h1)"
    using assms(2) by (auto simp: ReplayArgs_def Let_def split: prod.splits option.splits)
  have a: "length qs = length (ha_params c)" "slots h2 = map fresh_slot (zip (ha_params c) qs)" "distinct qs"
    using replay_append_slots [OF assms(1) q(1)] assms(3) by simp_all
  have "slots h1 = map full_slot (zip (ha_params c) qs)"
    using replay_buffers_slots [OF assms(1) q(2), of "[]"] a by simp
  then have "map snd (slots h1) = map (\<lambda>p. (pd_type p, pd_param p)) (map fst (zip (ha_params c) qs))"
    by (simp add: full_slot_def comp_def)
  then show ?thesis using a(1) by simp
qed

lemma GenerateArgsHandle_slots:
  assumes "handle_spec api slots" and "GenerateArgsHandle api c h = (True, h1)"
  shows "map snd (slots h1) = map (\<lambda>p. (pd_type p, pd_param p)) (ha_params c)"
proof -
  obtain f n m h2 h3 h4 where g: "hk_init api f n m h2 = (True, h3)" "ReplayArgs api c h3 = (True, h4)" "hk_finalize api h4 = (True, h1)"
    using assms(2) by (auto simp: GenerateArgsHandle_def Let_def split: prod.splits option.splits if_splits)
  then have "slots h3 = []" "slots h1 = slots h4" using assms(1) unfolding handle_spec_def by blast+
  then show ?thesis using ReplayArgs_slots [OF assms(1) g(2)] by simp
qed

lemma finalized_contents:
  assumes "wf_calls cs" and "\<forall>p n. length (mem p n) = n"
  shows "map (\<lambda>p. (pd_type p, pd_param p)) (ha_params (handle_Finalize mem (fold (ctx_step mem) cs (new_handle_args f a)))) =
    contents mem cs"
proof -
  let ?f = "\<lambda>p. if pd_type p = PLACEHOLDER then p\<lparr>pd_param := mem (pd_srcBuffer p) (length (pd_param p))\<rparr> else p"
  have "map (\<lambda>p. (pd_type (?f p), pd_param (?f p))) (ha_params (fold (ctx_step mem) cs (new_handle_args f a))) =
      map (\<lambda>(q, k). case k of
        Some bs \<Rightarrow> (NORMAL, last (bs # updates q cs))
      | None \<Rightarrow> (PLACEHOLDER, let (b, n) = last ((0, 0) # buffers q cs) in mem b n)) (created cs)"
  proof (rule map_pointwise [OF recorded_params [OF assms(1)]])
    fix p qk assume "param_view p = entry cs qk"
    then show "(pd_type (?f p), pd_param (?f p)) = (case qk of (q, k) \<Rightarrow> (case k of
        Some bs \<Rightarrow> (NORMAL, last (bs # updates q cs))
      | None \<Rightarrow> (PLACEHOLDER, let (b, n) = last ((0, 0) # buffers q cs) in mem b n)))"
      by (cases qk; cases "pd_type p")
        (auto simp: param_view_def entry_def split: option.splits if_splits prod.splits)
  qed
  then show ?thesis by (simp add: handle_Finalize_def contents_def comp_def)
qed

text \<open>
  C12: Arguments that a program built through the hooked calls, with calls on other handles in between, and that are then
  expanded by the address of the record buffer and built again, are the program's own arguments as they stood when it
  finalized them, followed by that address: each plain parameter with its last update, each placeholder with what its last
  buffer held.
\<close>

theorem replay_rebuilds:
  assumes run: "args_run mem ((a, ArgsInit f) # ops) am = Some am1" and "am_sorted am" and "f \<noteq> 0" and "a \<noteq> 0"
    and calls: "own a ops = cs @ [ArgsFinalize]" and wf: "wf_calls cs" and mem: "\<forall>p n. length (mem p n) = n"
    and ctx: "GetContext a am1 = Some (HandleContext c)" and spec: "handle_spec api slots"
    and small: "length param \<le> MAX_SINGLE_PARAM_SIZE"
    and gen: "GenerateArgsHandle api (snd (handle_ExpandArgs param c)) h = (True, h1)"
  shows "map snd (slots h1) = contents mem cs @ [(NORMAL, param)]"
proof -
  have no_init: "\<forall>g. ArgsInit g \<notin> set (own a ops)"
  proof (rule allI, rule notI)
    fix g assume "ArgsInit g \<in> set (own a ops)"
    then obtain xs ys where "cs = xs @ ArgsInit g # ys" using calls by (auto dest!: split_list)
    then show False using wf by (simp add: wf_from_append)
  qed
  obtain am2 where am2: "am2 = KernelArgsInit_Post True f (Some a) am" "args_run mem ops am2 = Some am1" using run by simp
  have i: "am_sorted am2" "GetContext a am2 = Some (HandleContext (new_handle_args f a))"
    using am2(1) assms(2,3,4) by (simp_all add: KernelArgsInit_Post_def CreateContext_handle_def GetContext_put Let_def)
  have "c = handle_Finalize mem (fold (ctx_step mem) cs (new_handle_args f a))"
    using args_run_own [OF am2(2) i no_init] ctx calls by simp
  then have "map (\<lambda>p. (pd_type p, pd_param p)) (ha_params (snd (handle_ExpandArgs param c))) = contents mem cs @ [(NORMAL, param)]"
    using finalized_contents [OF wf mem, of f a] small by (simp add: handle_ExpandArgs_def CacheArgsAppendOp_def)
  then show ?thesis using GenerateArgsHandle_slots [OF spec gen] by simp
qed

definition demo_handle_api :: "(ptr \<times> ParamType \<times> u8 list) list handle_api" where
  "demo_handle_api =
     (let add = (\<lambda>t bs h. let q = word_of_nat (Suc (length h)) in
            if q \<in> fst ` set h then (None, h) else (Some q, h @ [(q, t, bs)]))
      in \<lparr>hk_memSize = \<lambda>f n h. (Some n, h), hk_handleMemSize = \<lambda>f h. (Some 0, h), hk_init = \<lambda>f n m h. (True, []),
           hk_append = add NORMAL, hk_appendPlaceHolder = add PLACEHOLDER [], hk_placeHolderBuffer = \<lambda>q n h. (Some q, h),
           hk_store = \<lambda>b bs h. map (\<lambda>(q, t, c). if q = b then (q, t, bs) else (q, t, c)) h, hk_finalize = \<lambda>h. (True, h)\<rparr>)"

lemma demo_handle_spec: "handle_spec demo_handle_api (\<lambda>h. h)"
  by (auto simp: handle_spec_def demo_handle_api_def Let_def split: if_splits)

definition demo_args_calls :: "(ptr \<times> args_call) list" where
  "demo_args_calls = [(5, ArgsAppend [1] 1), (6, ArgsInit 7), (5, ArgsPlaceholder 2), (6, ArgsAppend [9] 1), (5, ArgsUpdate 1 [3]),
     (5, ArgsBuffer 2 2 0x100), (5, ArgsFinalize)]"

theorem replay_rebuilds_witness:
  "\<exists>am c h. args_run (\<lambda>p n. replicate n 4) ((5, ArgsInit 7) # demo_args_calls) new_args_manager = Some am \<and>
     GetContext 5 am = Some (HandleContext c) \<and>
     GenerateArgsHandle demo_handle_api (snd (handle_ExpandArgs [8] c)) [] = (True, h) \<and>
     map snd h = [(NORMAL, [3]), (PLACEHOLDER, [4, 4]), (NORMAL, [8])]"
proof -
  let ?mem = "\<lambda>p n. replicate n (4 :: u8)"
  let ?cs = "[ArgsAppend [1] 1, ArgsPlaceholder 2, ArgsUpdate 1 [3], ArgsBuffer 2 2 0x100]"
  let ?c = "handle_Finalize ?mem (fold (ctx_step ?mem) ?cs (new_handle_args 7 5))"
  have c: "?c = \<lparr>ha_funcHandle = 7, ha_argsHandle = 5, ha_params =
      [\<lparr>pd_paramHandle = 1, pd_param = [3], pd_type = NORMAL, pd_srcBuffer = 0\<rparr>,
       \<lparr>pd_paramHandle = 2, pd_param = [4, 4], pd_type = PLACEHOLDER, pd_srcBuffer = 0x100\<rparr>], ha_finalized = True\<rparr>"
    by (simp add: new_handle_args_def CacheArgsAppendOp_def CacheArgsAppendPlaceholderOp_def CacheArgsParaUpdateOp_def
        CacheArgsGetPlaceholderBufferOp_def handle_Finalize_def MAX_SINGLE_PARAM_SIZE_def MAX_ALL_PARAM_SIZE_def resize_def
        numeral_2_eq_2)
  have sorted: "am_sorted new_args_manager" by (simp add: am_sorted_def new_args_manager_def)
  have own: "own 5 demo_args_calls = ?cs @ [ArgsFinalize]" by (simp add: own_def demo_args_calls_def)
  have wf: "wf_calls ?cs" by (simp add: created_one MAX_SINGLE_PARAM_SIZE_def MAX_ALL_PARAM_SIZE_def)
  obtain am where am: "args_run ?mem ((5, ArgsInit 7) # demo_args_calls) new_args_manager = Some am"
    by (simp add: demo_args_calls_def args_posts GetContext_def new_args_manager_def Let_def MAX_SINGLE_PARAM_SIZE_def
        MAX_ALL_PARAM_SIZE_def)
  have i: "GetContext 5 (KernelArgsInit_Post True 7 (Some 5) new_args_manager) = Some (HandleContext (new_handle_args 7 5))"
    "am_sorted (KernelArgsInit_Post True 7 (Some 5) new_args_manager)"
    using sorted by (simp_all add: KernelArgsInit_Post_def CreateContext_handle_def GetContext_put Let_def)
  have ctx: "GetContext 5 am = Some (HandleContext ?c)"
    using args_run_own [OF _ i(2) i(1), of ?mem demo_args_calls am] am own by simp
  obtain h where h: "GenerateArgsHandle demo_handle_api (snd (handle_ExpandArgs [8] ?c)) [] = (True, h)"
    unfolding c
    by (simp add: handle_ExpandArgs_def CacheArgsAppendOp_def MAX_SINGLE_PARAM_SIZE_def GenerateArgsHandle_def ReplayArgs_def
        demo_handle_api_def Let_def)
  have "contents ?mem ?cs = [(NORMAL, [3]), (PLACEHOLDER, [4, 4])]"
    by (simp add: contents_def created_def updates_def buffers_def List.map_filter_def numeral_2_eq_2)
  then have "map snd h = [(NORMAL, [3]), (PLACEHOLDER, [4, 4]), (NORMAL, [8])]"
    using replay_rebuilds [OF am sorted _ _ own wf _ ctx demo_handle_spec _ h] by (simp add: MAX_SINGLE_PARAM_SIZE_def)
  then show ?thesis using am ctx h by (intro exI conjI)
qed

section \<open>A registration number names one binary\<close>

definition binaries :: "register_manager \<Rightarrow> func_manager \<Rightarrow> register_context set" where
  "binaries gm fm = snd ` set (gm_contexts gm) \<union> fn_reg ` snd ` set (fm_contexts fm)"

inductive api_runs ::
  "'f reg_env \<Rightarrow> (string \<Rightarrow> 'f \<Rightarrow> string option) \<Rightarrow> register_manager \<times> func_manager \<Rightarrow> bool" for env readMagic where
  start: "api_runs env readMagic (new_register_manager, new_func_manager)"
| from_data: "api_runs env readMagic (gm, fm) \<Longrightarrow> BinaryLoadFromData_Post env ok bin op bh gm = Some gm1 \<Longrightarrow>
     api_runs env readMagic (gm1, fm)"
| from_file: "api_runs env readMagic (gm, fm) \<Longrightarrow> BinaryLoadFromFile_Post env readMagic ok path op bh fs gm = Some gm1 \<Longrightarrow>
     api_runs env readMagic (gm1, fm)"
| from_binary: "api_runs env readMagic (gm, fm) \<Longrightarrow> BinaryLoad_Post env ok b bh gm = Some gm1 \<Longrightarrow> api_runs env readMagic (gm1, fm)"
| binary_made: "api_runs env readMagic (gm, fm) \<Longrightarrow> api_runs env readMagic (CreateBinary_Post b bs gm, fm)"
| by_name: "api_runs env readMagic (gm, fm) \<Longrightarrow> api_runs env readMagic (gm, BinaryGetFunction_Post ok b name h gm fm)"
| by_entry: "api_runs env readMagic (gm, fm) \<Longrightarrow> api_runs env readMagic (gm, BinaryGetFunctionByEntry_Post ok b e h gm fm)"

text \<open>A table of the binaries by number accounts for everything known; handles lead to what they stand for.\<close>

definition numbered :: "register_manager \<Rightarrow> func_manager \<Rightarrow> bool" where
  "numbered gm fm \<longleftrightarrow>
     (\<exists>tab. \<forall>c \<in> binaries gm fm. rp_regId (rc_param c) < gm_currentRegId gm \<and> tab (rp_regId (rc_param c)) = c) \<and>
     (\<forall>(h, c) \<in> set (gm_contexts gm). rc_hdl c = h) \<and> (\<forall>(f, c) \<in> set (fm_contexts fm). fn_handle c = f)"

lemma set_omap_put_subset: "set (omap_put k v m) \<subseteq> insert (k, v) (set m)"
  by (induction m) (auto split: if_splits)

lemma reg_Init_registered:
  "reg_Init env bs h p c = Some (True, c1) \<Longrightarrow> rc_param c1 = p \<and> rc_hdl c1 = h"
  by (auto simp: reg_Init_def Let_def split: option.splits)

lemma reg_Init_file_registered:
  "reg_Init_file env path h p c fs = Some (True, c1) \<Longrightarrow> rc_param c1 = p \<and> rc_hdl c1 = h"
  by (auto simp: reg_Init_file_def Let_def split: prod.splits if_splits dest: reg_Init_registered)

lemma manager_param_regId: "rp_regId (manager_param gm magic op) = gm_currentRegId gm"
  by (simp add: manager_param_def new_RegisterParam_def Let_def split: option.splits)

lemma add_context_numbered:
  assumes "add_context h gm r = Some (res, gm1)" and "numbered gm fm"
    and "\<And>c. r = Some (True, c) \<Longrightarrow> rp_regId (rc_param c) = gm_currentRegId gm \<and> rc_hdl c = h"
  shows "numbered gm1 fm"
proof (cases "\<exists>c. r = Some (True, c)")
  case False
  then have "gm1 = gm" using assms(1) by (auto simp: add_context_def)
  then show ?thesis using assms(2) by simp
next
  case True
  then obtain c where c: "r = Some (True, c)" "rp_regId (rc_param c) = gm_currentRegId gm" "rc_hdl c = h" using assms(3) by blast
  then have gm1: "gm1 = gm\<lparr>gm_contexts := omap_put h c (gm_contexts gm), gm_currentRegId := gm_currentRegId gm + 1\<rparr>"
    using assms(1) by (simp add: add_context_def)
  obtain tab where tab: "\<forall>c \<in> binaries gm fm. rp_regId (rc_param c) < gm_currentRegId gm \<and> tab (rp_regId (rc_param c)) = c"
    using assms(2) by (auto simp: numbered_def)
  have sub: "set (gm_contexts gm1) \<subseteq> insert (h, c) (set (gm_contexts gm))" using set_omap_put_subset by (simp add: gm1)
  then have "binaries gm1 fm \<subseteq> insert c (binaries gm fm)" by (force simp: binaries_def)
  then have "\<forall>b \<in> binaries gm1 fm. rp_regId (rc_param b) < gm_currentRegId gm1 \<and>
      (tab(gm_currentRegId gm := c)) (rp_regId (rc_param b)) = b"
    using tab c(2) by (fastforce simp: gm1)
  moreover have "\<forall>(h, c) \<in> set (gm_contexts gm1). rc_hdl c = h"
    using assms(2) sub c(3) by (auto simp: numbered_def)
  ultimately show ?thesis using assms(2) unfolding numbered_def by blast
qed

lemma add_context_Init:
  "add_context h gm (reg_Init env bs h (manager_param gm magic op) c0) = Some (res, gm1) \<Longrightarrow> numbered gm fm \<Longrightarrow> numbered gm1 fm"
  by (erule add_context_numbered, assumption) (auto dest!: reg_Init_registered simp: manager_param_regId)

lemma CreateContext_numbered:
  "CreateContext_data env bs h magic op gm = Some (res, gm1) \<Longrightarrow> numbered gm fm \<Longrightarrow> numbered gm1 fm"
  by (simp add: CreateContext_data_def add_context_Init)

lemma CreateContext_file_numbered:
  "CreateContext_file env path h magic op fs gm = Some (res, gm1) \<Longrightarrow> numbered gm fm \<Longrightarrow> numbered gm1 fm"
  unfolding CreateContext_file_def
  by (erule add_context_numbered, assumption) (auto dest!: reg_Init_file_registered simp: manager_param_regId)

lemma CreateContext_binary_numbered:
  assumes "CreateContext_binary env b h magic op gm = Some (res, gm1)" and "numbered gm fm"
  shows "numbered gm1 fm"
proof -
  define bs where "bs = (case map_of (gm_elf gm) b of None \<Rightarrow> [] | Some bs \<Rightarrow> bs)"
  define gm2 where "gm2 = gm\<lparr>gm_elf := omap_put b bs (gm_elf gm)\<rparr>"
  have n: "numbered gm2 fm" using assms(2) by (simp add: numbered_def binaries_def gm2_def)
  have r: "(if bs = [] then Some (None, gm2)
      else add_context h gm2 (reg_Init env bs h (manager_param gm2 magic op) new_register_context)) = Some (res, gm1)"
    using assms(1) unfolding CreateContext_binary_def bs_def gm2_def by (simp add: Let_def)
  show ?thesis
  proof (cases "bs = []")
    case True
    then show ?thesis using r n by simp
  next
    case False
    then show ?thesis using r add_context_Init n by simp
  qed
qed

lemmas context_numbered = CreateContext_numbered CreateContext_file_numbered CreateContext_binary_numbered

lemma new_function_numbered:
  assumes "numbered gm fm" and "gm_GetContext b gm = Some reg" and "fn_reg f = reg" and "fn_handle f = h"
  shows "numbered gm (fm\<lparr>fm_contexts := omap_put h f (fm_contexts fm)\<rparr>)"
proof -
  have "reg \<in> binaries gm fm" using assms(2) by (force simp: binaries_def gm_GetContext_def dest: map_of_SomeD)
  then have "binaries gm (fm\<lparr>fm_contexts := omap_put h f (fm_contexts fm)\<rparr>) \<subseteq> binaries gm fm"
  proof -
    have "fn_reg ` snd ` set (omap_put h f (fm_contexts fm)) \<subseteq> fn_reg ` snd ` insert (h, f) (set (fm_contexts fm))"
      by (intro image_mono set_omap_put_subset)
    also have "\<dots> = insert reg (fn_reg ` snd ` set (fm_contexts fm))" using assms(3) by simp
    finally show ?thesis using \<open>reg \<in> binaries gm fm\<close> unfolding binaries_def by auto
  qed
  moreover have "\<forall>(g, c) \<in> set (omap_put h f (fm_contexts fm)). fn_handle c = g"
    using set_omap_put_subset [of h f "fm_contexts fm"] assms(1,4) by (auto simp: numbered_def)
  ultimately show ?thesis using assms(1) unfolding numbered_def by (auto dest: subsetD)
qed

lemma api_runs_numbered: "api_runs env readMagic st \<Longrightarrow> numbered (fst st) (snd st)"
proof (induction rule: api_runs.induct)
  case start
  then show ?case by (simp add: numbered_def binaries_def new_register_manager_def new_func_manager_def)
next
  case (from_data gm fm ok bin op bh gm1)
  then show ?case
    by (auto simp: BinaryLoadFromData_Post_def split: option.splits if_splits dest: context_numbered)
next
  case (from_file gm fm ok path op bh fs gm1)
  then show ?case
    by (auto simp: BinaryLoadFromFile_Post_def Let_def split: option.splits if_splits prod.splits dest: context_numbered)
next
  case (from_binary gm fm ok b bh gm1)
  then show ?case by (auto simp: BinaryLoad_Post_def split: option.splits if_splits dest: context_numbered)
next
  case (binary_made gm fm b bs)
  then show ?case
    by (auto simp: CreateBinary_Post_def CacheElfData_def numbered_def binaries_def split: option.splits)
next
  case (by_name gm fm ok b name h)
  then show ?case
    by (auto simp: BinaryGetFunction_Post_def CreateContext_stub_def new_StubFuncContext_def Let_def
        split: option.splits intro: new_function_numbered)
next
  case (by_entry gm fm ok b e h)
  then show ?case
    by (auto simp: BinaryGetFunctionByEntry_Post_def CreateContext_entry_def new_TilingFuncContext_def Let_def
        split: option.splits intro: new_function_numbered)
qed

text \<open>
  C13: Whatever binaries are loaded and functions are asked for, in any order and with handles used again: the function known
  under a handle is that handle's own, and functions whose binaries have the same registration number belong to the same
  binary. The number and the kernel's name, by which the instrumentation keeps its tasks, therefore never stand for
  kernels of two binaries.
\<close>

theorem numbers_name_binaries:
  assumes "api_runs env readMagic (gm, fm)" and "fm_GetContext f fm = Some c" and "fm_GetContext g fm = Some d"
  shows "fn_handle c = f \<and> (rp_regId (rc_param (fn_reg c)) = rp_regId (rc_param (fn_reg d)) \<longrightarrow> fn_reg c = fn_reg d)"
proof -
  have n: "numbered gm fm" using api_runs_numbered [OF assms(1)] by simp
  have m: "(f, c) \<in> set (fm_contexts fm)" "(g, d) \<in> set (fm_contexts fm)"
    using assms(2,3) by (auto simp: fm_GetContext_def dest: map_of_SomeD)
  then have "fn_reg c \<in> binaries gm fm" "fn_reg d \<in> binaries gm fm" by (force simp: binaries_def)+
  then show ?thesis using n m(1) unfolding numbered_def by (metis (mono_tags, lifting) case_prodD)
qed

theorem numbers_name_binaries_witness:
  "\<exists>gm fm c. api_runs demo_reg_env (\<lambda>p fs. None) (gm, fm) \<and> fm_GetContext 7 fm = Some c \<and> fn_handle c = 7 \<and>
     fn_kernelName c = ''add'' \<and> rc_hdl (fn_reg c) = 5"
proof -
  have stub: "HasStaticStub [1, 1, 1, 1] = Some False" "HasDebugLine [1, 1, 1, 1] = Some False"
    by (simp_all add: HasStaticStub_def HasDebugLine_def has_section_def GetSectionHeaders_def FromBuffer_def LoadHeader_def
        ReadValueFromBuffer_def MAX_MEM_BYTE_SIZE_def)
  obtain syms where syms: "GetSymInfoFromBinary demo_reg_env [1, 1, 1, 1] = Some syms"
    by (simp add: GetSymInfoFromBinary_def GetObjdumpOutput_def demo_reg_env_def)
  obtain reg gm where gm: "BinaryLoadFromData_Post demo_reg_env True (Some [1, 1, 1, 1]) None (Some 5) new_register_manager = Some gm"
    "gm_GetContext 5 gm = Some reg" "rc_hdl reg = 5"
    by (simp add: BinaryLoadFromData_Post_def data_magic_def CreateContext_data_def reg_Init_def syms stub add_context_def gm_GetContext_def
        new_register_manager_def)
  define fm where "fm = BinaryGetFunction_Post True 5 (Some ''add'') (Some 7) gm new_func_manager"
  have run: "api_runs demo_reg_env (\<lambda>p fs. None) (gm, fm)"
    unfolding fm_def by (rule api_runs.by_name [OF api_runs.from_data [OF api_runs.start gm(1)]])
  have "fm_GetContext 7 fm = Some (new_StubFuncContext reg ''add'' 7)"
    by (simp add: fm_def BinaryGetFunction_Post_def CreateContext_stub_def gm(2) fm_GetContext_def new_func_manager_def
        GetValidLength_def KERNEL_NAME_MAX_def Let_def)
  then show ?thesis
    using numbers_name_binaries [OF run] run gm(3) by (intro exI conjI) (auto simp: new_StubFuncContext_def)
qed

end
