(* ===== verification/Spec2Isabelle.thy ===== *)
theory Spec2Isabelle
  imports Prelude Ustring PathModel HookLayer Protocol ElfLoader MemoryManage MetaData MsTx DeviceMemory AllocTrace LiveCache MemHooks OpReport MarkerHooks IpcHooks Communication SavedLaunch Registration Launches KernelEvents LaunchArgs Platform RecordLayout ShadowMemory SanitizerLaunch Instrumentation ApiHooks
begin

text \<open>
  A model of the host side of MindStudio's operator tools (\<open>src/csrc\<close>): the library that is loaded into a program, puts itself
  between it and the runtime of the device, keeps track of memory, binaries and launches, tells a tool process what it sees,
  prepares the buffer a checked kernel writes its records to, and saves a launch so that a launcher can run it again.

  \<^bold>\<open>The parts and how they work together.\<close> A hooked call enters the layer stack (\<open>HookLayer\<close>), which masks the runtime calls an
  ACL call makes itself. The memory hooks (\<open>MemHooks\<close>, \<open>IpcHooks\<close>, \<open>MarkerHooks\<close>) change the tables of live memory
  (\<open>MemoryManage\<close>, \<open>LiveCache\<close>, \<open>DeviceMemory\<close>, \<open>MsTx\<close>) and send records (\<open>Protocol\<close>) over the channel (\<open>Communication\<close>).
  Registering a binary reads its image (\<open>ElfLoader\<close>, \<open>Registration\<close>) and the meta data of its kernels (\<open>MetaData\<close>). A launch
  ties a function to its arguments (\<open>Launches\<close>, \<open>Args\<close>, filled by the hooks of \<open>ApiHooks\<close>; for the older interface \<open>KernelEvents\<close>, \<open>LaunchArgs\<close>), reports the
  tensors it is given (\<open>OpReport\<close>), and can be written to disk for the launcher (\<open>KernelConfig\<close>, \<open>SavedLaunch\<close>, \<open>FileSystem\<close>,
  \<open>PathModel\<close>). Under the sanitizer the record buffer is laid out before the launch and its contents are sent to the checker
  after it (\<open>Platform\<close>, \<open>RecordLayout\<close>, \<open>ShadowMemory\<close>, \<open>SanitizerLaunch\<close>), with the merged ranges of \<open>MemoryManage\<close> in it, and the
  kernel is replaced by an instrumented one (\<open>Instrumentation\<close>).

  \<^bold>\<open>Theories and code.\<close>
  \<^item> \<open>Prelude\<close>: machine integers, byte lists, \<open>std::find\<close>, \<open>std::getline\<close>, ordered sets, little-endian words; the locale
    \<open>strict_weak_order\<close> of what \<open>std::set\<close> and \<open>std::sort\<close> need of a comparison.
  \<^item> \<open>Ustring\<close>, \<open>PathModel\<close>, \<open>FileSystem\<close>: \<open>utils/Ustring\<close>, \<open>utils/Path\<close>, \<open>utils/FileSystem\<close>.
  \<^item> \<open>HookLayer\<close>: \<open>core/HijackedLayerManager\<close>, \<open>FunctionLoader\<close>, \<open>FuncSelector\<close>, \<open>HijackedFuncTemplate.h\<close>.
  \<^item> \<open>Protocol\<close>: the packet heads and host memory records of \<open>utils/Protocol.h\<close>, \<open>utils/Serialize.h\<close>, \<open>utils/Numeric.h\<close>.
  \<^item> \<open>Communication\<close>: \<open>core/DomainSocket\<close>, \<open>Communication\<close>, \<open>LocalProcess\<close>, \<open>RemoteProcess\<close>.
  \<^item> \<open>ElfLoader\<close>, \<open>MetaData\<close>, \<open>Registration\<close>: \<open>utils/ElfLoader\<close> and, in \<open>runtime/inject_helpers\<close>, \<open>KernelMetaDataParser\<close>,
    \<open>RegisterContext\<close>, \<open>RegisterManager\<close>.
  \<^item> \<open>MemoryManage\<close>, \<open>OpReport\<close>: the class \<open>MemoryManage\<close> and the reports of \<open>MemoryDataCollect.cpp\<close>.
  \<^item> \<open>AllocTrace\<close>, \<open>LiveCache\<close>: the contract of a table of live allocations (the locale \<open>alloc_cache\<close>) and its two
    instances, the checker's cache and the profiler's sections.
  \<^item> \<open>DeviceMemory\<close>: \<open>MemoryContext\<close> (snapshots) and \<open>DevMemManager\<close> (the record buffer).
  \<^item> \<open>MemHooks\<close>, \<open>IpcHooks\<close>: the hooks \<open>runtime/HijackedFuncOf*.cpp\<close> and \<open>acl_rt_impl/HijackedFuncOf*.cpp\<close> on memory, with
    the entry points of \<open>bind/BindSanitizer.cpp\<close>; \<open>IPCMemManager.h\<close>, \<open>InteractHelper\<close>.
  \<^item> \<open>MsTx\<close>, \<open>MarkerHooks\<close>: \<open>MsTx.cpp\<close> and its handlers in \<open>BindSanitizer.cpp\<close>.
  \<^item> \<open>Args\<close>, \<open>KernelConfig\<close>, \<open>SavedLaunch\<close>: \<open>ArgsRawContext\<close>, \<open>ArgsHandleContext\<close>, \<open>ArgsManager\<close>, \<open>ArgsContext\<close>, and the
    launcher's \<open>KernelConfigParser\<close>.
  \<^item> \<open>Launches\<close>: \<open>FuncContext\<close>, \<open>FuncManager\<close>, \<open>LaunchContext\<close>, \<open>LaunchManager\<close>.
  \<^item> \<open>ApiHooks\<close>: the hooks \<open>acl_rt_impl/HijackedFuncOfAclrt*.cpp\<close> that load binaries, look up functions and build arguments.
  \<^item> \<open>KernelEvents\<close>, \<open>LaunchArgs\<close>: \<open>KernelContext\<close> and \<open>LaunchArgs.cpp\<close>.
  \<^item> \<open>Platform\<close>, \<open>RecordLayout\<close>, \<open>ShadowMemory\<close>, \<open>SanitizerLaunch\<close>: \<open>core/PlatformConfig.h\<close>, the heads of
    \<open>utils/Protocol.h\<close>, \<open>LaunchInitFinalize\<close> and the entry points of \<open>InstrReport.cpp\<close>.
  \<^item> \<open>Instrumentation\<close>: \<open>core/BinaryInstrumentation\<close>, \<open>DBITask\<close>, \<open>KernelMatcher\<close>, \<open>KernelReplacement\<close> and the architecture
    names of \<open>InstrReport.cpp\<close>.

  \<^bold>\<open>How state corresponds.\<close> A class is a record of its members and an operation a function from the state to the new one with
  its result; singletons and thread-local objects are components of the state. Maps are partial functions, or lists of pairs
  where their order is observed; a \<open>std::set\<close> is its list of elements in order. Integers keep their width. What the operating
  system, the runtime of the device, the JSON library or the disassembler does is a record of functions that a definition takes
  (\<open>os\<close>, \<open>sock_api\<close>, \<open>acl_api\<close>, \<open>launch_api\<close>, \<open>kernel_env\<close> and others), on a state of its own. What the code relies on is
  a named predicate over such a record (\<open>acl_spec\<close>, \<open>copy_spec\<close>, \<open>transfers_keep\<close> and the like) that states documented
  behaviour; each has a concrete instance in the witness of the properties that use it. An access outside a buffer is the value
  \<open>None\<close> of the reading function, or a value of its own, so that it is a case of a theorem and not an arbitrary byte.

  \<^bold>\<open>What the lemmas show.\<close>
  Each property's text names its premises; this is their gist. Memory: what a program holds through the checker's hooks is what
  a kernel is told is valid, the list is disjoint and ascending, with marker heaps taken out of their blocks, and it fits the table whose length the kernel is
  told; allocations are reported once; what is reported for a launch or a batch of regions is taken back; the checker's view
  of shared memory is the program's; snapshots restore what they saved. Binaries: the section table, the symbols, the kernel of a
  tiling key and the meta data are those of the image, a saved binary is the registered one but for its flags, and parsing stops
  on any bytes. Launches: what is saved is read back by the launcher with the same values, for any recorded launch; expansion
  keeps the arguments and puts the new one, byte for byte, where the instrumentation expects it, also for arguments built call by
  call and built again from the record; a registration number stands for one binary; the tables stay well-typed under every
  step. Channel: sending and waiting return; a message counts as sent exactly when all of it is on the stream, and waiting
  gives what its reads gave, also when reads fail in between. Sanitizer: the blocks fit the buffer, each block is laid out and
  none overwrites another, a failure leaves no buffer behind, the shadow memory's records are its accessed bytes, and what is
  sent is what stands in device memory. Instrumentation: a kernel is converted once, whatever is launched or released in
  between, a failed conversion is tried again and leaves files only when outputs are kept, and replaced binaries are released.

  \<^bold>\<open>Bounds and fuel.\<close> Loops over data are structural or have a measure. The parser of meta data runs with fuel, one unit per
  loop round; the length of the section is enough (\<open>metadata_parse_stops\<close>), as every round moves forward in sections below 2
  GiB. The loops that send and receive depend on the peer: they are partial functions whose value is \<open>None\<close> when they do
  not return, and the properties state that they do on a connected socket. The layout of the record buffer is proved for blocks
  that fit 32 bits (\<open>cache_fits\<close>): the code admits larger caches, for which its sizes wrap (\<open>large_cache_wraps\<close>).
  Registered binaries are counted by natural numbers, as 2^64 of them are out of reach.
  The float ratios of the cache are computed exactly and then rounded to 24 bits, as the conversion does.

  \<^bold>\<open>Not modelled.\<close> Mutexes and threads: every operation is one step, and interleavings are sequences of steps. Logging. The
  profiler's data collection and its tasks (\<open>ProfDataCollect\<close>, \<open>ProfTask\<close>, \<open>ProfConfig\<close>), which drive the profiling driver's
  channels and write the files they read; the compilers, disassemblers and plugins an instrumentation runs, which are functions
  on the file system here; \<open>BBCountDumper\<close> and \<open>DFXKernelLauncher\<close>, which run the launcher and fixed kernels; the tables of
  function registrations and the declarations of the hijacked interfaces (\<open>bind\<close>, \<open>HijackedFunc.h\<close>, \<open>include/thirdparty\<close>);
  the launch hooks, which sequence the operations modelled here around the original call; the device code of
  \<open>kernel_injection\<close>, compiled for the device with its own memory model; the launcher's runtime calls; and the camodel, HCCL,
  profiling and driver bindings, which forward to the functions of the libraries they name. The manifest lists each of them.
\<close>

end
